(* ===== verification/Prelude.thy ===== *)
theory Prelude
  imports Main "HOL-Library.Word" "HOL-Library.Char_ord" "HOL-Library.List_Lexorder"
begin

text \<open>
  Shared vocabulary of the development: the machine integers and instants of the Rust
  sources, \<open>Result\<close> as a sum type with its \<open>?\<close> operator, the decimal rendering that
  \<open>format!\<close> uses for unsigned integers, and the ASCII classes of \<open>u8\<close> the validators call.
  The collections at the end are the ones the component proofs extend and hand to the
  simplifier.
\<close>

section \<open>Machine integers and time\<close>

text \<open>
  Unsigned integers keep their width: \<open>+\<close> wraps, as it does in the release profile
  (no \<open>overflow-checks\<close> in the workspace manifest).  Lengths and counters of type
  \<open>usize\<close> that only count elements of an in-memory collection are \<open>nat\<close>.
  Instants (\<open>chrono::DateTime<Utc>\<close>) are integers, nanoseconds since the Unix epoch;
  \<open>chrono::Duration\<close> is a signed number of nanoseconds.
\<close>

type_synonym u8 = "8 word"
type_synonym u16 = "16 word"
type_synonym u32 = "32 word"
type_synonym u64 = "64 word"
type_synonym usize = nat
type_synonym Timestamp = int
type_synonym Duration = int

abbreviation nanos_per_milli :: int where
  "nanos_per_milli \<equiv> 1000000"

abbreviation duration_days :: "int \<Rightarrow> Duration" where
  "duration_days n \<equiv> n * 86400 * 1000 * nanos_per_milli"

text \<open>\<open>DateTime::timestamp_millis\<close> rounds towards minus infinity.\<close>

definition timestamp_millis :: "Timestamp \<Rightarrow> int" where
  "timestamp_millis t = t div nanos_per_milli"

text \<open>\<open>u64::saturating_mul\<close> and \<open>div_ceil\<close>, as used by the response bound.\<close>

definition saturating_mul :: "'a::len word \<Rightarrow> 'a word \<Rightarrow> 'a word" where
  "saturating_mul a b =
     (if unat a * unat b < 2 ^ LENGTH('a) then a * b else - 1)"

definition div_ceil :: "'a::len word \<Rightarrow> 'a word \<Rightarrow> 'a word" where
  "div_ceil a b = (if a mod b = 0 then a div b else a div b + 1)"

section \<open>Result\<close>

text \<open>\<open>Result<T, E>\<close> is \<open>'e + 'a\<close>, \<open>Err\<close> on the left.  \<open>and_then\<close> is the \<open>?\<close> operator.\<close>

fun and_then :: "'e + 'a \<Rightarrow> ('a \<Rightarrow> 'e + 'b) \<Rightarrow> 'e + 'b" where
  "and_then (Inl e) f = Inl e"
| "and_then (Inr x) f = f x"

lemma and_then_Inr [simp]:
  "and_then r f = Inr y \<longleftrightarrow> (\<exists>x. r = Inr x \<and> f x = Inr y)"
  by (cases r) auto

lemma and_then_Inl:
  "and_then r f = Inl e \<longleftrightarrow> r = Inl e \<or> (\<exists>x. r = Inr x \<and> f x = Inl e)"
  by (cases r) auto

fun map_err :: "('e \<Rightarrow> 'f) \<Rightarrow> 'e + 'a \<Rightarrow> 'f + 'a" where
  "map_err g (Inl e) = Inl (g e)"
| "map_err g (Inr x) = Inr x"

fun is_ok :: "'e + 'a \<Rightarrow> bool" where
  "is_ok (Inl e) = False"
| "is_ok (Inr x) = True"

lemma is_ok_iff: "is_ok r \<longleftrightarrow> (\<exists>x. r = Inr x)"
  by (cases r) auto

text \<open>A loop that stops at the first error (\<open>for x in xs { f(x)?; }\<close>).\<close>

fun try_each :: "('a \<Rightarrow> 'e + unit) \<Rightarrow> 'a list \<Rightarrow> 'e + unit" where
  "try_each f [] = Inr ()"
| "try_each f (x # xs) = and_then (f x) (\<lambda>_. try_each f xs)"

lemma try_each_ok: "try_each f xs = Inr u \<longleftrightarrow> (\<forall>x\<in>set xs. f x = Inr ())"
  by (induction xs) auto

definition opt_is_none_or :: "('a \<Rightarrow> bool) \<Rightarrow> 'a option \<Rightarrow> bool" where
  "opt_is_none_or p x = (case x of None \<Rightarrow> True | Some y \<Rightarrow> p y)"

definition opt_is_some_and :: "('a \<Rightarrow> bool) \<Rightarrow> 'a option \<Rightarrow> bool" where
  "opt_is_some_and p x = (case x of None \<Rightarrow> False | Some y \<Rightarrow> p y)"

lemma opt_is_none_or_simps [simp]:
  "opt_is_none_or p None" "opt_is_none_or p (Some y) = p y"
  by (simp_all add: opt_is_none_or_def)

lemma opt_is_some_and_simps [simp]:
  "\<not> opt_is_some_and p None" "opt_is_some_and p (Some y) = p y"
  by (simp_all add: opt_is_some_and_def)

lemma opt_is_some_and_iff: "opt_is_some_and p x \<longleftrightarrow> (\<exists>y. x = Some y \<and> p y)"
  by (cases x) auto

lemma opt_is_none_or_iff: "opt_is_none_or p x \<longleftrightarrow> (\<forall>y. x = Some y \<longrightarrow> p y)"
  by (cases x) auto

section \<open>Text\<close>

text \<open>
  A Rust \<open>str\<close> is its UTF-8 bytes, so \<open>len\<close> is \<open>length\<close>.  Decimal rendering of an
  unsigned integer (\<open>Display\<close>): no sign, no leading zero.
\<close>

definition digit_char :: "nat \<Rightarrow> char" where
  "digit_char d = char_of (48 + d)"

fun show_nat :: "nat \<Rightarrow> string" where
  "show_nat n = (if n < 10 then [digit_char n] else show_nat (n div 10) @ [digit_char (n mod 10)])"

declare show_nat.simps [simp del]

definition show_u :: "'a::len word \<Rightarrow> string" where
  "show_u w = show_nat (unat w)"

definition byte :: "char \<Rightarrow> nat" where
  "byte c = of_char c"

definition is_ascii_digit :: "char \<Rightarrow> bool" where
  "is_ascii_digit c \<longleftrightarrow> 48 \<le> byte c \<and> byte c \<le> 57"

definition is_ascii_lowercase :: "char \<Rightarrow> bool" where
  "is_ascii_lowercase c \<longleftrightarrow> 97 \<le> byte c \<and> byte c \<le> 122"

definition is_ascii_uppercase :: "char \<Rightarrow> bool" where
  "is_ascii_uppercase c \<longleftrightarrow> 65 \<le> byte c \<and> byte c \<le> 90"

definition is_ascii_alphanumeric :: "char \<Rightarrow> bool" where
  "is_ascii_alphanumeric c \<longleftrightarrow>
     is_ascii_digit c \<or> is_ascii_lowercase c \<or> is_ascii_uppercase c"

definition strip_prefix :: "string \<Rightarrow> string \<Rightarrow> string option" where
  "strip_prefix p s = (if take (length p) s = p then Some (drop (length p) s) else None)"

lemma strip_prefix_Some: "strip_prefix p s = Some r \<longleftrightarrow> s = p @ r"
  by (auto simp: strip_prefix_def) (metis append_take_drop_id)

lemma strip_prefix_append [simp]: "strip_prefix p (p @ r) = Some r"
  by (simp add: strip_prefix_Some)

text \<open>Digits read back.\<close>

definition digit_val :: "char \<Rightarrow> nat" where
  "digit_val c = byte c - 48"

lemma byte_digit_char [simp]: "d < 10 \<Longrightarrow> byte (digit_char d) = 48 + d"
  by (simp add: byte_def digit_char_def)

lemma digit_val_digit_char [simp]: "d < 10 \<Longrightarrow> digit_val (digit_char d) = d"
  by (simp add: digit_val_def)

lemma is_ascii_digit_digit_char [simp]: "d < 10 \<Longrightarrow> is_ascii_digit (digit_char d)"
  by (simp add: is_ascii_digit_def)

lemma show_nat_nonempty [simp]: "show_nat n \<noteq> []"
  by (subst show_nat.simps) simp

lemma show_nat_digits: "c \<in> set (show_nat n) \<Longrightarrow> is_ascii_digit c"
proof (induction n rule: show_nat.induct)
  case (1 n)
  then show ?case
    by (subst (asm) show_nat.simps [of n]) (auto split: if_splits)
qed

definition digits_val :: "string \<Rightarrow> nat" where
  "digits_val s = foldl (\<lambda>acc c. acc * 10 + digit_val c) 0 s"

lemma digits_val_snoc [simp]: "digits_val (s @ [c]) = digits_val s * 10 + digit_val c"
  by (simp add: digits_val_def)

lemma digits_val_show_nat [simp]: "digits_val (show_nat n) = n"
proof (induction n rule: show_nat.induct)
  case (1 n)
  then show ?case
    by (subst show_nat.simps) (auto simp: digits_val_def)
qed

section \<open>Collections\<close>

named_theorems row_rel \<open>the one-step relations the rows of a table respect\<close>
named_theorems store_defs \<open>definitions of the store operations, unfolded in their proofs\<close>

end
