(* ===== verification/BTree_Map.thy ===== *)
theory BTree_Map
  imports Prelude
begin

text \<open>
  \<open>std::collections::BTreeMap\<close>: a finite map that iterates in key order.  The
  representation is the association list in strictly ascending key order, so iteration
  (\<open>values\<close>, \<open>iter\<close>) and the order-independent operations come from one type.
  \<open>BTreeSet<T>\<close> is \<open>BTreeMap<T, ()>\<close>, as in the standard library.  The few \<open>HashMap\<close>s
  of the sources are only used through operations whose result does not depend on the
  iteration order, and use the same type.
\<close>

section \<open>Sorted association lists\<close>

fun al_insert :: "'k::linorder \<Rightarrow> 'v \<Rightarrow> ('k \<times> 'v) list \<Rightarrow> ('k \<times> 'v) list" where
  "al_insert k v [] = [(k, v)]"
| "al_insert k v ((k', v') # m) =
     (if k < k' then (k, v) # (k', v') # m
      else if k = k' then (k, v) # m
      else (k', v') # al_insert k v m)"

definition al_ok :: "('k::linorder \<times> 'v) list \<Rightarrow> bool" where
  "al_ok m \<longleftrightarrow> sorted_wrt (<) (map fst m)"

lemma al_insert_keys: "fst ` set (al_insert k v m) = insert k (fst ` set m)"
proof (induction m)
  case (Cons p m)
  then show ?case by (cases p) (simp add: insert_commute)
qed simp

lemma al_insert_ok: "al_ok m \<Longrightarrow> al_ok (al_insert k v m)"
proof (induction m)
  case Nil
  then show ?case by (simp add: al_ok_def)
next
  case (Cons p m)
  obtain k' v' where p: "p = (k', v')" by (cases p)
  have tail: "al_ok m" and head: "\<forall>x\<in>fst ` set m. k' < x"
    using Cons.prems by (auto simp: al_ok_def p)
  consider "k < k'" | "k = k'" | "k' < k" by fastforce
  then show ?case
  proof cases
    case 3
    then have "\<forall>x\<in>fst ` set (al_insert k v m). k' < x"
      using head by (simp add: al_insert_keys)
    then show ?thesis
      using Cons.IH [OF tail] 3 by (auto simp: al_ok_def p)
  qed (use Cons.prems head in \<open>auto simp: al_ok_def p\<close>)
qed

lemma map_of_al_insert: "map_of (al_insert k v m) = (map_of m)(k \<mapsto> v)"
  by (induction m) (auto simp: fun_eq_iff)

lemma map_of_map_val: "map_of (map (\<lambda>(k, v). (k, f k v)) m) k = map_option (f k) (map_of m k)"
  by (induction m) auto

lemma al_ok_distinct: "al_ok m \<Longrightarrow> distinct (map fst m)"
  by (simp add: al_ok_def strict_sorted_iff)

lemma al_ok_filter: "al_ok m \<Longrightarrow> al_ok (filter P m)"
  by (induction m) (auto simp: al_ok_def)

lemma al_ok_unique:
  assumes "al_ok m" "al_ok n" "set m = set n"
  shows "m = n"
proof -
  have sorted: "sorted_wrt (\<lambda>p q. fst p < fst q) m" "sorted_wrt (\<lambda>p q. fst p < fst q) n"
    using assms(1,2) by (simp_all add: al_ok_def sorted_wrt_map)
  show ?thesis
    using sorted assms(3)
  proof (induction m arbitrary: n)
    case Nil
    then show ?case by simp
  next
    case (Cons p m)
    then obtain q n' where n: "n = q # n'" by (cases n) auto
    have "p = q"
    proof (rule ccontr)
      assume "p \<noteq> q"
      then have "p \<in> set n'" "q \<in> set m"
        using Cons.prems(3) n by auto
      then show False
        using Cons.prems(1,2) n by (auto dest: less_asym)
    qed
    moreover have "p \<notin> set m" "q \<notin> set n'"
      using Cons.prems n by auto
    then have "set m = set n'"
      using Cons.prems(3) n \<open>p = q\<close> by (auto simp: set_eq_iff)
    ultimately show ?case
      using Cons n by simp
  qed
qed

section \<open>The type\<close>

typedef (overloaded) ('k::linorder, 'v) btreemap = "{m :: ('k \<times> 'v) list. al_ok m}"
  morphisms bt_entries BTreeMap
  by (rule exI [of _ "[]"]) (simp add: al_ok_def)

setup_lifting type_definition_btreemap

type_synonym 'a btreeset = "('a, unit) btreemap"

lift_definition bt_empty :: "('k::linorder, 'v) btreemap" is "[]"
  by (simp add: al_ok_def)

lift_definition bt_insert :: "'k::linorder \<Rightarrow> 'v \<Rightarrow> ('k, 'v) btreemap \<Rightarrow> ('k, 'v) btreemap"
  is al_insert
  by (rule al_insert_ok)

lift_definition bt_get :: "('k::linorder, 'v) btreemap \<Rightarrow> 'k \<Rightarrow> 'v option"
  is map_of .

text \<open>\<open>values_mut\<close>: every value is replaced by a function of its key and itself.\<close>

lift_definition bt_map :: "('k::linorder \<Rightarrow> 'v \<Rightarrow> 'w) \<Rightarrow> ('k, 'v) btreemap \<Rightarrow> ('k, 'w) btreemap"
  is "\<lambda>f m. map (\<lambda>(k, v). (k, f k v)) m"
  by (simp add: al_ok_def comp_def case_prod_beta)

lift_definition bt_retain :: "('k::linorder \<Rightarrow> 'v \<Rightarrow> bool) \<Rightarrow> ('k, 'v) btreemap \<Rightarrow> ('k, 'v) btreemap"
  is "\<lambda>p m. filter (\<lambda>(k, v). p k v) m"
  by (rule al_ok_filter)

definition bt_values :: "('k::linorder, 'v) btreemap \<Rightarrow> 'v list" where
  "bt_values m = map snd (bt_entries m)"

definition bt_keys :: "('k::linorder, 'v) btreemap \<Rightarrow> 'k list" where
  "bt_keys m = map fst (bt_entries m)"

definition bt_remove :: "'k::linorder \<Rightarrow> ('k, 'v) btreemap \<Rightarrow> ('k, 'v) btreemap" where
  "bt_remove k m = bt_retain (\<lambda>k' _. k' \<noteq> k) m"

definition bt_contains_key :: "('k::linorder, 'v) btreemap \<Rightarrow> 'k \<Rightarrow> bool" where
  "bt_contains_key m k \<longleftrightarrow> bt_get m k \<noteq> None"

definition bt_len :: "('k::linorder, 'v) btreemap \<Rightarrow> nat" where
  "bt_len m = length (bt_entries m)"

section \<open>Laws\<close>

lemma bt_get_empty [simp]: "bt_get bt_empty k = None"
  by transfer simp

lemma bt_get_insert [simp]: "bt_get (bt_insert k v m) = (bt_get m)(k \<mapsto> v)"
  by transfer (rule map_of_al_insert)

lemma bt_get_map [simp]: "bt_get (bt_map f m) k = map_option (f k) (bt_get m k)"
  by transfer (rule map_of_map_val)

lemma bt_get_entries: "bt_get m k = Some v \<longleftrightarrow> (k, v) \<in> set (bt_entries m)"
  by transfer (metis al_ok_distinct map_of_SomeD map_of_is_SomeI)

lemma bt_get_retain:
  "bt_get (bt_retain p m) k =
     (case bt_get m k of None \<Rightarrow> None | Some v \<Rightarrow> if p k v then Some v else None)"
proof -
  have "bt_get (bt_retain p m) k = Some v \<longleftrightarrow> bt_get m k = Some v \<and> p k v" for v
    by (simp add: bt_get_entries bt_retain.rep_eq)
  then show ?thesis
    by (simp split: option.split) (metis not_Some_eq)
qed

lemma bt_get_remove [simp]: "bt_get (bt_remove k m) k' = (if k' = k then None else bt_get m k')"
  by (auto simp: bt_remove_def bt_get_retain split: option.splits)

lemma bt_values_iff: "v \<in> set (bt_values m) \<longleftrightarrow> (\<exists>k. bt_get m k = Some v)"
  by (simp add: bt_values_def bt_get_entries image_iff Bex_def)

lemma bt_keys_iff: "k \<in> set (bt_keys m) \<longleftrightarrow> (\<exists>v. bt_get m k = Some v)"
  by (simp add: bt_keys_def bt_get_entries image_iff Bex_def)

lemma bt_contains_key_iff [simp]: "bt_contains_key m k \<longleftrightarrow> (\<exists>v. bt_get m k = Some v)"
  by (auto simp: bt_contains_key_def)

lemma bt_entries_sorted: "sorted_wrt (<) (bt_keys m)"
  by (simp add: bt_keys_def, transfer, simp add: al_ok_def)

lemma bt_keys_distinct [simp]: "distinct (bt_keys m)"
  using bt_entries_sorted [of m] by (simp add: strict_sorted_iff)

lemma bt_ex_values:
  "(\<exists>v\<in>set (bt_values m). P v) \<longleftrightarrow> (\<exists>k v. bt_get m k = Some v \<and> P v)"
  by (simp add: Bex_def bt_values_iff) blast

lemma bt_eqI:
  assumes "\<And>k. bt_get m k = bt_get n k"
  shows "m = n"
proof -
  have "set (bt_entries m) = set (bt_entries n)"
    using assms by (auto simp: set_eq_iff bt_get_entries [symmetric])
  moreover have "al_ok (bt_entries m)" "al_ok (bt_entries n)"
    using bt_entries by auto
  ultimately have "bt_entries m = bt_entries n"
    by (intro al_ok_unique)
  then show ?thesis by (simp add: bt_entries_inject)
qed

end
