(* ===== verification/Ids.thy ===== *)
theory Ids
  imports BTree_Map "HOL-Library.Product_Lexorder"
begin

text \<open>
  \<open>crates/domain/src/error.rs\<close> and \<open>crates/domain/src/ids.rs\<close>: the domain error
  taxonomy and the typed identifiers.  Every identifier type is a newtype over
  \<open>String\<close> with the derived (bytewise) order, so one phantom-typed \<open>ident\<close> models the
  \<open>define_id!\<close> macro and the name and digest newtypes; the phantom tag keeps a tenant id
  from being used as a function id, as the Rust types do.
\<close>

section \<open>Errors\<close>

datatype DomainError =
    InvalidId string string
  | InvalidName string string
  | InvalidDigest string
  | Validation string string
  | IllegalTransition string string string
  | Terminal string string
  | GenerationMismatch u64 u64
  | TenantMismatch string
  | LimitExceeded string u64 u64

fun DomainError_to_string :: "DomainError \<Rightarrow> string" where
  "DomainError_to_string (InvalidId p v) =
     ''invalid identifier for prefix `'' @ p @ ''`: `'' @ v @ ''`''"
| "DomainError_to_string (InvalidName kind v) = ''invalid '' @ kind @ '' name: `'' @ v @ ''`''"
| "DomainError_to_string (InvalidDigest v) = ''invalid digest: `'' @ v @ ''`''"
| "DomainError_to_string (Validation field reason) = ''invalid '' @ field @ '': '' @ reason"
| "DomainError_to_string (IllegalTransition entity from to) =
     ''illegal state transition for '' @ entity @ '': '' @ from @ '' -> '' @ to"
| "DomainError_to_string (Terminal entity state) =
     entity @ '' is already in a terminal state ('' @ state @ ''); further updates are rejected''"
| "DomainError_to_string (GenerationMismatch expected actual) =
     ''generation mismatch: expected '' @ show_u expected @ '', actual '' @ show_u actual"
| "DomainError_to_string (TenantMismatch v) = ''tenant mismatch: '' @ v"
| "DomainError_to_string (LimitExceeded field actual maximum) =
     ''limit exceeded: '' @ field @ '' = '' @ show_u actual @ '' (max '' @ show_u maximum @ '')''"

section \<open>The newtype and its order\<close>

datatype 'p ident = Ident (as_str: string)

instantiation ident :: (type) linorder
begin

definition less_eq_ident :: "'a ident \<Rightarrow> 'a ident \<Rightarrow> bool" where
  "less_eq_ident a b \<longleftrightarrow> as_str a \<le> as_str b"

definition less_ident :: "'a ident \<Rightarrow> 'a ident \<Rightarrow> bool" where
  "less_ident a b \<longleftrightarrow> as_str a < as_str b"

instance
  by standard (auto simp: less_eq_ident_def less_ident_def ident.expand)

end

datatype tenant_tag = Tenant_Tag
datatype function_tag = Function_Tag
datatype revision_tag = Revision_Tag
datatype invocation_tag = Invocation_Tag
datatype attempt_tag = Attempt_Tag
datatype environment_tag = Environment_Tag
datatype lease_tag = Lease_Tag
datatype dispatcher_tag = Dispatcher_Tag
datatype trigger_tag = Trigger_Tag
datatype snapshot_tag = Snapshot_Tag
datatype dead_letter_tag = Dead_Letter_Tag
datatype redrive_tag = Redrive_Tag
datatype alias_tag = Alias_Tag
datatype function_name_tag = Function_Name_Tag
datatype digest_tag = Digest_Tag

type_synonym TenantId = "tenant_tag ident"
type_synonym FunctionId = "function_tag ident"
type_synonym RevisionId = "revision_tag ident"
type_synonym InvocationId = "invocation_tag ident"
type_synonym AttemptId = "attempt_tag ident"
type_synonym EnvironmentId = "environment_tag ident"
type_synonym LeaseId = "lease_tag ident"
type_synonym DispatcherId = "dispatcher_tag ident"
type_synonym TriggerId = "trigger_tag ident"
type_synonym SnapshotId = "snapshot_tag ident"
type_synonym DeadLetterId = "dead_letter_tag ident"
type_synonym RedriveId = "redrive_tag ident"
type_synonym AliasName = "alias_tag ident"
type_synonym FunctionName = "function_name_tag ident"
type_synonym Sha256Digest = "digest_tag ident"

section \<open>Prefixed identifiers\<close>

definition ULID_LEN :: nat where
  "ULID_LEN = 26"

definition crockford_byte :: "char \<Rightarrow> bool" where
  "crockford_byte c \<longleftrightarrow>
     (let b = byte c in
        (48 \<le> b \<and> b \<le> 57) \<or> (97 \<le> b \<and> b \<le> 104) \<or> (106 \<le> b \<and> b \<le> 107)
        \<or> (109 \<le> b \<and> b \<le> 110) \<or> (112 \<le> b \<and> b \<le> 116) \<or> (118 \<le> b \<and> b \<le> 122))"

definition is_lower_crockford :: "string \<Rightarrow> bool" where
  "is_lower_crockford s \<longleftrightarrow> length s = ULID_LEN \<and> list_all crockford_byte s"

definition parse_prefixed :: "string \<Rightarrow> string \<Rightarrow> DomainError + string" where
  "parse_prefixed prefix raw =
     (case Option.bind (strip_prefix prefix raw) (strip_prefix ''_'') of
        None \<Rightarrow> Inl (InvalidId prefix raw)
      | Some rest \<Rightarrow>
          if \<not> is_lower_crockford rest then Inl (InvalidId prefix raw) else Inr raw)"

text \<open>The prefixes the macro is instantiated with, in source order.\<close>

definition id_prefixes :: "string list" where
  "id_prefixes = [''tn'', ''fn'', ''rev'', ''inv'', ''att'', ''env'', ''lse'', ''dsp'',
     ''trg'', ''snap'', ''dlq'', ''rdv'']"

definition to_ascii_lowercase :: "string \<Rightarrow> string" where
  "to_ascii_lowercase s =
     map (\<lambda>c. if is_ascii_uppercase c then char_of (byte c + 32) else c) s"

text \<open>
  \<open>from_ulid\<close> formats a \<open>ulid::Ulid\<close>; the argument is the text the \<open>ulid\<close> crate prints.
\<close>

definition id_from_ulid :: "string \<Rightarrow> string \<Rightarrow> 'p ident" where
  "id_from_ulid prefix ulid_text = Ident (prefix @ ''_'' @ to_ascii_lowercase ulid_text)"

definition id_parse :: "string \<Rightarrow> string \<Rightarrow> DomainError + 'p ident" where
  "id_parse prefix raw = and_then (parse_prefixed prefix raw) (\<lambda>s. Inr (Ident s))"

section \<open>Labels, names and digests\<close>

definition is_label :: "string \<Rightarrow> nat \<Rightarrow> bool" where
  "is_label raw max_len =
     (if raw = [] \<or> length raw > max_len then False
      else if \<not> is_ascii_alphanumeric (hd raw) \<or> \<not> is_ascii_alphanumeric (last raw) then False
      else list_all (\<lambda>b. is_ascii_lowercase b \<or> is_ascii_digit b \<or> b = CHR ''-'') raw)"

definition AliasName_parse :: "string \<Rightarrow> DomainError + AliasName" where
  "AliasName_parse raw =
     (if is_label raw 32 then Inr (Ident raw) else Inl (InvalidName ''alias'' raw))"

definition default_alias :: AliasName where
  "default_alias = Ident ''prod''"

definition FunctionName_parse :: "string \<Rightarrow> DomainError + FunctionName" where
  "FunctionName_parse raw =
     (if is_label raw 63 then Inr (Ident raw) else Inl (InvalidName ''function'' raw))"

definition lower_hex_byte :: "char \<Rightarrow> bool" where
  "lower_hex_byte c \<longleftrightarrow> (let b = byte c in (48 \<le> b \<and> b \<le> 57) \<or> (97 \<le> b \<and> b \<le> 102))"

definition Sha256Digest_parse :: "string \<Rightarrow> DomainError + Sha256Digest" where
  "Sha256Digest_parse raw =
     (case strip_prefix ''sha256:'' raw of
        None \<Rightarrow> Inl (InvalidDigest raw)
      | Some hex_part \<Rightarrow>
          if length hex_part \<noteq> 64 \<or> \<not> list_all lower_hex_byte hex_part
          then Inl (InvalidDigest raw) else Inr (Ident raw))"

text \<open>The digest itself (crates \<open>sha2\<close> and \<open>hex\<close>) is the parameter \<open>sha256_hex\<close>.\<close>

definition Sha256Digest_of_bytes :: "(string \<Rightarrow> string) \<Rightarrow> string \<Rightarrow> Sha256Digest" where
  "Sha256Digest_of_bytes sha256_hex bytes = Ident (''sha256:'' @ sha256_hex bytes)"

definition Sha256Digest_hex :: "Sha256Digest \<Rightarrow> string" where
  "Sha256Digest_hex d = drop (length ''sha256:'') (as_str d)"

section \<open>Facts\<close>

lemma parse_prefixed_ok:
  "parse_prefixed p raw = Inr s \<longleftrightarrow>
     s = raw \<and> (\<exists>rest. raw = p @ ''_'' @ rest \<and> is_lower_crockford rest)"
  by (auto simp: parse_prefixed_def strip_prefix_Some bind_eq_Some_conv
      split: option.splits if_splits) (simp add: strip_prefix_def)

lemma id_parse_ok:
  "id_parse p raw = Inr i \<longleftrightarrow>
     as_str i = raw \<and> (\<exists>rest. raw = p @ ''_'' @ rest \<and> is_lower_crockford rest)"
  by (cases i) (auto simp: id_parse_def parse_prefixed_ok)

lemma underscore_not_crockford [simp]: "\<not> crockford_byte (CHR ''_'')"
  by (simp add: crockford_byte_def byte_def)

lemma crockford_no_underscore: "is_lower_crockford r \<Longrightarrow> CHR ''_'' \<notin> set r"
  by (auto simp: is_lower_crockford_def list_all_iff)

lemma id_prefixes_no_underscore: "p \<in> set id_prefixes \<Longrightarrow> CHR ''_'' \<notin> set p"
  by (auto simp: id_prefixes_def)

lemma prefix_before_underscore:
  assumes "p @ CHR ''_'' # r = q @ CHR ''_'' # r'"
    and "CHR ''_'' \<notin> set p" "CHR ''_'' \<notin> set q"
  shows "p = q"
  using assms by (auto simp: append_eq_append_conv2 append_eq_Cons_conv Cons_eq_append_conv)

lemma crockford_lowercase:
  assumes "c \<in> set ''0123456789ABCDEFGHJKMNPQRSTVWXYZ''"
  shows "crockford_byte (if is_ascii_uppercase c then char_of (byte c + 32) else c)"
  using assms
  by (auto simp: crockford_byte_def is_ascii_uppercase_def byte_def)

end
