(* ===== verification/Functions.thy ===== *)
theory Functions
  imports Ids
begin

text \<open>
  \<open>crates/domain/src/function.rs\<close>, \<open>alias.rs\<close>, \<open>limits.rs\<close> and \<open>log.rs\<close>: the
  tenant-owned function with its deletion lifecycle, the alias that routes to a revision
  (updated by compare-and-set on its generation), the platform limits, and the bounded
  log line.
\<close>

section \<open>Limits\<close>

record Limits =
  max_payload_bytes :: u64
  max_response_bytes :: u64
  max_execution_timeout_seconds :: u32
  max_init_timeout_seconds :: u32
  min_memory_mib :: u32
  max_memory_mib :: u32
  min_cpu_millis :: u32
  max_cpu_millis :: u32
  min_ephemeral_storage_mib :: u32
  max_ephemeral_storage_mib :: u32
  max_log_lines_per_invocation :: u32
  max_log_bytes_per_invocation :: u64
  max_log_line_bytes :: usize
  max_artifact_bytes :: u64

definition Limits_default :: Limits where
  "Limits_default = \<lparr>
     max_payload_bytes = 1024 * 1024,
     max_response_bytes = 6 * 1024 * 1024,
     max_execution_timeout_seconds = 15 * 60,
     max_init_timeout_seconds = 120,
     min_memory_mib = 128,
     max_memory_mib = 4096,
     min_cpu_millis = 250,
     max_cpu_millis = 2000,
     min_ephemeral_storage_mib = 32,
     max_ephemeral_storage_mib = 2048,
     max_log_lines_per_invocation = 2000,
     max_log_bytes_per_invocation = 1024 * 1024,
     max_log_line_bytes = 16 * 1024,
     max_artifact_bytes = 256 * 1024 * 1024 \<rparr>"

section \<open>Function\<close>

record Function =
  fn_id :: FunctionId
  fn_tenant_id :: TenantId
  fn_name :: FunctionName
  fn_description :: string
  fn_created_at :: Timestamp
  fn_updated_at :: Timestamp
  fn_deleted_at :: "Timestamp option"
  fn_drained_at :: "Timestamp option"

definition MAX_DESCRIPTION_LEN :: nat where
  "MAX_DESCRIPTION_LEN = 1024"

definition fn_new ::
  "FunctionId \<Rightarrow> TenantId \<Rightarrow> FunctionName \<Rightarrow> string \<Rightarrow> Timestamp \<Rightarrow> DomainError + Function" where
  "fn_new i tenant name description now =
     (if length description > MAX_DESCRIPTION_LEN
      then Inl (LimitExceeded ''description'' (of_nat (length description))
                  (of_nat MAX_DESCRIPTION_LEN))
      else Inr \<lparr> fn_id = i, fn_tenant_id = tenant, fn_name = name,
                 fn_description = description, fn_created_at = now, fn_updated_at = now,
                 fn_deleted_at = None, fn_drained_at = None \<rparr>)"

definition fn_is_deleted :: "Function \<Rightarrow> bool" where
  "fn_is_deleted f \<longleftrightarrow> fn_deleted_at f \<noteq> None"

definition fn_mark_deleted :: "Function \<Rightarrow> Timestamp \<Rightarrow> DomainError + Function" where
  "fn_mark_deleted f now =
     (if fn_deleted_at f \<noteq> None then Inl (Terminal ''Function'' ''deleted'')
      else Inr (f\<lparr>fn_deleted_at := Some now, fn_updated_at := now\<rparr>))"

definition fn_deletion_state :: "Function \<Rightarrow> string" where
  "fn_deletion_state f =
     (case (fn_deleted_at f, fn_drained_at f) of
        (None, _) \<Rightarrow> ''live''
      | (Some _, None) \<Rightarrow> ''deleting''
      | (Some _, Some _) \<Rightarrow> ''deleted'')"

definition fn_mark_drained :: "Function \<Rightarrow> Timestamp \<Rightarrow> DomainError + Function" where
  "fn_mark_drained f now =
     (if fn_deleted_at f = None \<or> fn_drained_at f \<noteq> None
      then Inl (IllegalTransition ''Function'' (fn_deletion_state f) ''deleted'')
      else Inr (f\<lparr>fn_drained_at := Some now, fn_updated_at := now\<rparr>))"

definition fn_ensure_owned_by :: "Function \<Rightarrow> TenantId \<Rightarrow> DomainError + unit" where
  "fn_ensure_owned_by f tenant =
     (if fn_tenant_id f = tenant then Inr ()
      else Inl (TenantMismatch (''function '' @ as_str (fn_id f)
                  @ '' is not owned by tenant '' @ as_str tenant)))"

section \<open>FunctionAlias\<close>

record FunctionAlias =
  al_function_id :: FunctionId
  al_tenant_id :: TenantId
  al_name :: AliasName
  al_revision_id :: RevisionId
  al_generation :: u64
  al_previous_revision_id :: "RevisionId option"
  al_created_at :: Timestamp
  al_updated_at :: Timestamp

definition al_new ::
  "FunctionId \<Rightarrow> TenantId \<Rightarrow> AliasName \<Rightarrow> RevisionId \<Rightarrow> Timestamp \<Rightarrow> FunctionAlias" where
  "al_new f t n r now = \<lparr> al_function_id = f, al_tenant_id = t, al_name = n,
     al_revision_id = r, al_generation = 1, al_previous_revision_id = None,
     al_created_at = now, al_updated_at = now \<rparr>"

definition al_update ::
  "FunctionAlias \<Rightarrow> RevisionId \<Rightarrow> u64 option \<Rightarrow> Timestamp \<Rightarrow> DomainError + FunctionAlias" where
  "al_update a revision_id expected_generation now =
     (if opt_is_some_and (\<lambda>expected. expected \<noteq> al_generation a) expected_generation
      then Inl (GenerationMismatch (the expected_generation) (al_generation a))
      else Inr ((if revision_id \<noteq> al_revision_id a
                 then a\<lparr>al_previous_revision_id := Some (al_revision_id a),
                        al_revision_id := revision_id\<rparr> else a)
                \<lparr>al_generation := al_generation a + 1, al_updated_at := now\<rparr>))"

section \<open>Log lines\<close>

datatype LogStream = Stdout | Stderr | Platform

datatype LogPhase = Boot | Init | Handler | Shutdown

record LogRecord =
  log_tenant_id :: TenantId
  log_environment_id :: EnvironmentId
  log_invocation_id :: "InvocationId option"
  log_attempt_id :: "AttemptId option"
  log_stream :: LogStream
  log_phase :: LogPhase
  log_timestamp :: Timestamp
  log_line :: string
  log_truncated :: bool

text \<open>
  \<open>str::is_char_boundary\<close>: the ends, and every byte that is not a UTF-8 continuation
  byte \<open>0b10xxxxxx\<close>; false beyond the end.
\<close>

definition is_char_boundary :: "string \<Rightarrow> nat \<Rightarrow> bool" where
  "is_char_boundary s i \<longleftrightarrow>
     i = 0 \<or> i = length s \<or> (i < length s \<and> \<not> (128 \<le> byte (s ! i) \<and> byte (s ! i) < 192))"

fun back_to_boundary :: "string \<Rightarrow> nat \<Rightarrow> nat" where
  "back_to_boundary s 0 = 0"
| "back_to_boundary s (Suc n) =
     (if \<not> is_char_boundary s (Suc n) then back_to_boundary s n else Suc n)"

definition bounded_line :: "string \<Rightarrow> nat \<Rightarrow> string \<times> bool" where
  "bounded_line line max_bytes =
     (if length line \<le> max_bytes then (line, False)
      else (take (back_to_boundary line max_bytes) line, True))"

section \<open>Facts\<close>

lemma al_update_ok:
  "al_update a r e now = Inr a' \<longleftrightarrow>
     (e = None \<or> e = Some (al_generation a)) \<and>
     a' = (if r \<noteq> al_revision_id a
           then a\<lparr>al_previous_revision_id := Some (al_revision_id a), al_revision_id := r\<rparr> else a)
          \<lparr>al_generation := al_generation a + 1, al_updated_at := now\<rparr>"
  by (cases e) (auto simp: al_update_def)

lemma back_to_boundary_le: "back_to_boundary s n \<le> n"
  by (induction s n rule: back_to_boundary.induct) auto

lemma back_to_boundary_boundary: "is_char_boundary s (back_to_boundary s n)"
  by (induction s n rule: back_to_boundary.induct) (auto simp: is_char_boundary_def)

lemma back_to_boundary_max:
  "i \<le> n \<Longrightarrow> is_char_boundary s i \<Longrightarrow> i \<le> back_to_boundary s n"
proof (induction s n rule: back_to_boundary.induct)
  case (2 s n)
  then show ?case by (cases "i = Suc n") auto
qed simp

end
