(* ===== verification/Egress.thy ===== *)
theory Egress
  imports Ids
begin

unbundle bit_operations_syntax

text \<open>
  \<open>crates/domain/src/egress.rs\<close>: the allowlist of a \<open>restricted\<close> revision, IPv4
  networks with their parser and printer, and the ranges no egress profile may reach.
  An \<open>Ipv4Addr\<close> is its 32-bit value.  \<open>std\<close>'s parsers of \<open>Ipv4Addr\<close> and \<open>u8\<close> are
  modelled as the standard library defines them.
\<close>

section \<open>Addresses: the standard library's parser and printer\<close>

type_synonym Ipv4Addr = u32

text \<open>One octet: one to three digits, no leading zero, at most 255.\<close>

definition octet_parse :: "string \<Rightarrow> nat option" where
  "octet_parse s =
     (if s \<noteq> [] \<and> length s \<le> 3 \<and> list_all is_ascii_digit s
         \<and> (hd s = CHR ''0'' \<longrightarrow> length s = 1) \<and> digits_val s \<le> 255
      then Some (digits_val s) else None)"

fun split_on :: "char \<Rightarrow> string \<Rightarrow> string list" where
  "split_on d [] = [[]]"
| "split_on d (c # s) =
     (if c = d then [] # split_on d s
      else (case split_on d s of [] \<Rightarrow> [[c]] | w # ws \<Rightarrow> (c # w) # ws))"

definition addr_of_octets :: "nat \<Rightarrow> nat \<Rightarrow> nat \<Rightarrow> nat \<Rightarrow> Ipv4Addr" where
  "addr_of_octets a b c d = of_nat (((a * 256 + b) * 256 + c) * 256 + d)"

definition Ipv4Addr_parse :: "string \<Rightarrow> Ipv4Addr option" where
  "Ipv4Addr_parse s =
     (case map octet_parse (split_on (CHR ''.'') s) of
        [Some a, Some b, Some c, Some d] \<Rightarrow> Some (addr_of_octets a b c d)
      | _ \<Rightarrow> None)"

definition octet :: "nat \<Rightarrow> Ipv4Addr \<Rightarrow> nat" where
  "octet i a = unat a div 256 ^ (3 - i) mod 256"

definition Ipv4Addr_show :: "Ipv4Addr \<Rightarrow> string" where
  "Ipv4Addr_show a = show_nat (octet 0 a) @ ''.'' @ show_nat (octet 1 a) @ ''.''
     @ show_nat (octet 2 a) @ ''.'' @ show_nat (octet 3 a)"

text \<open>\<open>str::parse::<u8>\<close>: an optional leading plus sign, then digits, at most 255.\<close>

definition u8_parse :: "string \<Rightarrow> u8 option" where
  "u8_parse s =
     (let digits = (if s \<noteq> [] \<and> hd s = CHR ''+'' \<and> tl s \<noteq> [] then tl s else s) in
      if digits \<noteq> [] \<and> list_all is_ascii_digit digits \<and> digits_val digits \<le> 255
      then Some (of_nat (digits_val digits)) else None)"

text \<open>\<open>str::split_once\<close> on a character.\<close>

fun split_once :: "char \<Rightarrow> string \<Rightarrow> (string \<times> string) option" where
  "split_once d [] = None"
| "split_once d (c # s) =
     (if c = d then Some ([], s) else map_option (\<lambda>(a, b). (c # a, b)) (split_once d s))"

section \<open>Networks\<close>

record Ipv4Cidr =
  cidr_network :: Ipv4Addr
  cidr_prefix :: u8

definition mask_bits :: "u8 \<Rightarrow> u32" where
  "mask_bits prefix = (if prefix = 0 then 0 else push_bit (32 - unat prefix) (- 1))"

definition Ipv4Cidr_new :: "Ipv4Addr \<Rightarrow> u8 \<Rightarrow> Ipv4Cidr" where
  "Ipv4Cidr_new addr prefix =
     (let prefix = min prefix 32 in
      \<lparr> cidr_network = addr AND mask_bits prefix, cidr_prefix = prefix \<rparr>)"

definition Ipv4Cidr_show :: "Ipv4Cidr \<Rightarrow> string" where
  "Ipv4Cidr_show c = Ipv4Addr_show (cidr_network c) @ ''/'' @ show_u (cidr_prefix c)"

definition cidr_invalid :: "string \<Rightarrow> string \<Rightarrow> DomainError" where
  "cidr_invalid s reason = Validation ''egress_allow.cidr'' (''`'' @ s @ ''`: '' @ reason)"

definition Ipv4Cidr_parse :: "string \<Rightarrow> DomainError + Ipv4Cidr" where
  "Ipv4Cidr_parse s =
     and_then
       (case split_once (CHR ''/'') s of
          Some (a, p) \<Rightarrow>
            (case u8_parse p of
               Some n \<Rightarrow> if n \<le> 32 then Inr (a, n)
                 else Inl (cidr_invalid s ''prefix length must be 0..=32'')
             | None \<Rightarrow> Inl (cidr_invalid s ''prefix length must be 0..=32''))
        | None \<Rightarrow> Inr (s, 32))
       (\<lambda>(addr, prefix).
          if CHR '':'' \<in> set addr
          then Inl (cidr_invalid s
                 ''IPv6 is not provided to guests; only IPv4 networks can be allowed'')
          else (case Ipv4Addr_parse addr of
                  None \<Rightarrow> Inl (cidr_invalid s ''not an IPv4 address in CIDR form'')
                | Some a \<Rightarrow>
                    let cidr = Ipv4Cidr_new a prefix in
                    if cidr_network cidr \<noteq> a
                    then Inl (cidr_invalid s
                           (''host bits are set (did you mean '' @ Ipv4Cidr_show cidr @ ''?)''))
                    else Inr cidr))"

definition Ipv4Cidr_netmask :: "Ipv4Cidr \<Rightarrow> Ipv4Addr" where
  "Ipv4Cidr_netmask c = mask_bits (cidr_prefix c)"

definition Ipv4Cidr_size :: "Ipv4Cidr \<Rightarrow> u64" where
  "Ipv4Cidr_size c = push_bit (32 - unat (cidr_prefix c)) 1"

definition Ipv4Cidr_contains :: "Ipv4Cidr \<Rightarrow> Ipv4Addr \<Rightarrow> bool" where
  "Ipv4Cidr_contains c addr \<longleftrightarrow> addr AND mask_bits (cidr_prefix c) = cidr_network c"

definition Ipv4Cidr_contains_net :: "Ipv4Cidr \<Rightarrow> Ipv4Cidr \<Rightarrow> bool" where
  "Ipv4Cidr_contains_net c other \<longleftrightarrow>
     cidr_prefix other \<ge> cidr_prefix c \<and> Ipv4Cidr_contains c (cidr_network other)"

definition Ipv4Cidr_overlaps :: "Ipv4Cidr \<Rightarrow> Ipv4Cidr \<Rightarrow> bool" where
  "Ipv4Cidr_overlaps c other \<longleftrightarrow>
     Ipv4Cidr_contains_net c other \<or> Ipv4Cidr_contains_net other c"

section \<open>Blocked ranges and allow rules\<close>

record BlockedRange =
  br_cidr :: string
  br_name :: string

definition BLOCKED_IPV4 :: "BlockedRange list" where
  "BLOCKED_IPV4 = [
     \<lparr> br_cidr = ''0.0.0.0/8'', br_name = ''this network'' \<rparr>,
     \<lparr> br_cidr = ''10.0.0.0/8'', br_name = ''RFC1918 private'' \<rparr>,
     \<lparr> br_cidr = ''100.64.0.0/10'', br_name = ''CGNAT shared address space'' \<rparr>,
     \<lparr> br_cidr = ''127.0.0.0/8'', br_name = ''loopback'' \<rparr>,
     \<lparr> br_cidr = ''169.254.0.0/16'', br_name = ''link-local and cloud metadata'' \<rparr>,
     \<lparr> br_cidr = ''172.16.0.0/12'', br_name = ''RFC1918 private'' \<rparr>,
     \<lparr> br_cidr = ''192.0.0.0/24'', br_name = ''IETF protocol assignments'' \<rparr>,
     \<lparr> br_cidr = ''192.0.2.0/24'', br_name = ''TEST-NET-1'' \<rparr>,
     \<lparr> br_cidr = ''192.88.99.0/24'', br_name = ''6to4 relay anycast'' \<rparr>,
     \<lparr> br_cidr = ''192.168.0.0/16'', br_name = ''RFC1918 private'' \<rparr>,
     \<lparr> br_cidr = ''198.18.0.0/15'', br_name = ''benchmarking'' \<rparr>,
     \<lparr> br_cidr = ''198.51.100.0/24'', br_name = ''TEST-NET-2'' \<rparr>,
     \<lparr> br_cidr = ''203.0.113.0/24'', br_name = ''TEST-NET-3'' \<rparr>,
     \<lparr> br_cidr = ''224.0.0.0/4'', br_name = ''multicast'' \<rparr>,
     \<lparr> br_cidr = ''240.0.0.0/4'', br_name = ''reserved and limited broadcast'' \<rparr>]"

text \<open>
  \<open>BlockedRange::cidr\<close> panics on an entry that does not parse; \<open>None\<close> is that panic.
  \<open>blocked_cidrs_parse\<close> below shows that no entry of the table panics.
\<close>

definition BlockedRange_cidr :: "BlockedRange \<Rightarrow> Ipv4Cidr option" where
  "BlockedRange_cidr b = (case Ipv4Cidr_parse (br_cidr b) of Inr c \<Rightarrow> Some c | Inl e \<Rightarrow> None)"

definition is_public_ipv4 :: "Ipv4Addr \<Rightarrow> bool" where
  "is_public_ipv4 addr \<longleftrightarrow>
     \<not> list_ex (\<lambda>b. opt_is_some_and (\<lambda>c. Ipv4Cidr_contains c addr) (BlockedRange_cidr b))
         BLOCKED_IPV4"

datatype EgressProtocol = Tcp | Udp

record EgressAllowRule =
  ear_cidr :: string
  ear_protocol :: EgressProtocol
  ear_ports :: "u16 list"

definition MAX_EGRESS_ALLOW_RULES :: nat where
  "MAX_EGRESS_ALLOW_RULES = 16"

definition MAX_EGRESS_ALLOW_PORTS :: nat where
  "MAX_EGRESS_ALLOW_PORTS = 16"

definition EgressAllowRule_network :: "EgressAllowRule \<Rightarrow> DomainError + Ipv4Cidr" where
  "EgressAllowRule_network r = Ipv4Cidr_parse (ear_cidr r)"

definition EgressAllowRule_validate :: "EgressAllowRule \<Rightarrow> DomainError + unit" where
  "EgressAllowRule_validate r =
     and_then (EgressAllowRule_network r) (\<lambda>net.
       case find (\<lambda>b. opt_is_some_and (\<lambda>c. Ipv4Cidr_overlaps c net) (BlockedRange_cidr b))
              BLOCKED_IPV4 of
         Some blocked \<Rightarrow>
           Inl (Validation ''egress_allow.cidr''
             (''`'' @ ear_cidr r @ ''` overlaps '' @ br_cidr blocked @ '' ('' @ br_name blocked
               @ ''), which no egress profile may reach''))
       | None \<Rightarrow>
           if ear_ports r = [] \<or> length (ear_ports r) > MAX_EGRESS_ALLOW_PORTS
           then Inl (Validation ''egress_allow.ports''
                  (''must list 1..='' @ show_nat MAX_EGRESS_ALLOW_PORTS @ '' ports''))
           else if 0 \<in> set (ear_ports r)
           then Inl (Validation ''egress_allow.ports'' ''port 0 is not a destination port'')
           else Inr ())"

section \<open>Networks as sets of addresses\<close>

definition cidr_wf :: "Ipv4Cidr \<Rightarrow> bool" where
  "cidr_wf c \<longleftrightarrow> cidr_prefix c \<le> 32 \<and> cidr_network c AND mask_bits (cidr_prefix c) = cidr_network c"

lemma bit_mask_bits:
  assumes "p \<le> 32"
  shows "bit (mask_bits p) i \<longleftrightarrow> 32 - unat p \<le> i \<and> i < 32"
proof (cases "p = 0")
  case False
  then show ?thesis
    by (auto simp: mask_bits_def bit_push_bit_iff bit_simps)
qed (simp add: mask_bits_def)

lemma mask_bits_mono:
  assumes "p \<le> q" "q \<le> 32"
  shows "mask_bits q AND mask_bits p = mask_bits p"
proof -
  have "p \<le> 32" and "unat p \<le> unat q"
    using assms by (auto simp: word_le_nat_alt)
  then show ?thesis
    using assms(2) by (auto intro!: bit_word_eqI simp: bit_and_iff bit_mask_bits)
qed

lemma cidr_wf_new: "cidr_wf (Ipv4Cidr_new a p)"
  by (simp add: cidr_wf_def Ipv4Cidr_new_def Let_def and.assoc)

lemma cidr_wf_parse: "Ipv4Cidr_parse s = Inr c \<Longrightarrow> cidr_wf c"
  by (auto simp: Ipv4Cidr_parse_def Let_def split: option.splits if_splits prod.splits)
     (metis cidr_wf_new)+

lemma contains_network: "cidr_wf c \<Longrightarrow> Ipv4Cidr_contains c (cidr_network c)"
  by (simp add: cidr_wf_def Ipv4Cidr_contains_def)

lemma contains_net_shared:
  assumes "cidr_wf d" "cidr_prefix c \<le> cidr_prefix d"
    and "Ipv4Cidr_contains c a" "Ipv4Cidr_contains d a"
  shows "Ipv4Cidr_contains_net c d"
proof -
  have "cidr_network d AND mask_bits (cidr_prefix c)
      = a AND (mask_bits (cidr_prefix d) AND mask_bits (cidr_prefix c))"
    using assms(4) by (simp add: Ipv4Cidr_contains_def flip: and.assoc)
  also have "\<dots> = a AND mask_bits (cidr_prefix c)"
    using assms(1,2) by (simp add: mask_bits_mono cidr_wf_def)
  finally show ?thesis
    using assms(2,3) by (simp add: Ipv4Cidr_contains_net_def Ipv4Cidr_contains_def)
qed

lemma overlaps_iff_shared_address:
  assumes "cidr_wf c" "cidr_wf d"
  shows "Ipv4Cidr_overlaps c d \<longleftrightarrow> (\<exists>a. Ipv4Cidr_contains c a \<and> Ipv4Cidr_contains d a)"
proof
  assume "Ipv4Cidr_overlaps c d"
  then show "\<exists>a. Ipv4Cidr_contains c a \<and> Ipv4Cidr_contains d a"
    using contains_network [OF assms(1)] contains_network [OF assms(2)]
    by (auto simp: Ipv4Cidr_overlaps_def Ipv4Cidr_contains_net_def)
next
  assume "\<exists>a. Ipv4Cidr_contains c a \<and> Ipv4Cidr_contains d a"
  then obtain a where a: "Ipv4Cidr_contains c a" "Ipv4Cidr_contains d a" by blast
  show "Ipv4Cidr_overlaps c d"
  proof (cases "cidr_prefix c \<le> cidr_prefix d")
    case True
    then show ?thesis
      using contains_net_shared [OF assms(2) True a] by (simp add: Ipv4Cidr_overlaps_def)
  next
    case False
    then have "cidr_prefix d \<le> cidr_prefix c" by simp
    from contains_net_shared [OF assms(1) this a(2) a(1)] show ?thesis
      by (simp add: Ipv4Cidr_overlaps_def)
  qed
qed

section \<open>Printing and parsing\<close>

lemma split_once_append:
  "d \<notin> set x \<Longrightarrow> split_once d (x @ d # y) = Some (x, y)"
  by (induction x) auto

lemma split_on_no_sep: "d \<notin> set x \<Longrightarrow> split_on d x = [x]"
  by (induction x) auto

lemma split_on_append: "d \<notin> set x \<Longrightarrow> split_on d (x @ d # y) = x # split_on d y"
  by (induction x) auto

lemma show_nat_no_char: "\<not> is_ascii_digit c \<Longrightarrow> c \<notin> set (show_nat n)"
  using show_nat_digits by blast

lemma not_digit [simp]:
  "\<not> is_ascii_digit (CHR ''.'')" "\<not> is_ascii_digit (CHR ''/'')"
  "\<not> is_ascii_digit (CHR '':'')" "\<not> is_ascii_digit (CHR ''+'')"
  by (simp_all add: is_ascii_digit_def byte_def)

lemma show_nat_length: "n < 10 ^ k \<Longrightarrow> 0 < k \<Longrightarrow> length (show_nat n) \<le> k"
proof (induction n arbitrary: k rule: show_nat.induct)
  case (1 n)
  show ?case
  proof (cases "n < 10")
    case True
    then show ?thesis using "1.prems" by (subst show_nat.simps) simp
  next
    case False
    then obtain j where k: "k = Suc j" "0 < j"
      using "1.prems" by (cases k; cases "k - 1") auto
    then have "n div 10 < 10 ^ j" using "1.prems" by (simp add: less_mult_imp_div_less)
    then have "length (show_nat (n div 10)) \<le> j" using "1.IH" False k by simp
    then show ?thesis using False k by (subst show_nat.simps) simp
  qed
qed

lemma show_nat_leading_zero: "hd (show_nat n) = CHR ''0'' \<Longrightarrow> length (show_nat n) = 1"
proof (induction n rule: show_nat.induct)
  case (1 n)
  show ?case
  proof (cases "n < 10")
    case True
    then show ?thesis by (subst show_nat.simps) simp
  next
    case False
    then have hd0: "hd (show_nat (n div 10)) = CHR ''0''"
      using "1.prems" by (subst (asm) show_nat.simps) (simp add: hd_append)
    then have len: "length (show_nat (n div 10)) = 1" using "1.IH" False by simp
    then obtain c where c: "show_nat (n div 10) = [c]" by (auto simp: length_Suc_conv)
    with hd0 have "digits_val (show_nat (n div 10)) = 0"
      by (simp add: digits_val_def digit_val_def byte_def)
    then have "n div 10 = 0" by simp
    then show ?thesis using False by simp
  qed
qed

lemma octet_parse_show: "n \<le> 255 \<Longrightarrow> octet_parse (show_nat n) = Some n"
  using show_nat_length [of n 3] show_nat_leading_zero [of n]
  by (auto simp: octet_parse_def list_all_iff show_nat_digits)

lemma u8_parse_show: "u8_parse (show_u (p :: u8)) = Some p"
proof -
  have "unat p < 2 ^ LENGTH(8)" by (rule unsigned_less)
  then have "unat p \<le> 255" by simp
  moreover have "hd (show_nat (unat p)) \<noteq> CHR ''+''"
    using show_nat_digits [of "hd (show_nat (unat p))" "unat p"] by auto
  ultimately show ?thesis
    by (simp add: u8_parse_def show_u_def Let_def list_all_iff show_nat_digits)
qed

lemma octet_le: "octet i a \<le> 255"
  by (simp add: octet_def)

lemma octets_join: "n div (m * 256) * 256 + n div m mod 256 = n div (m :: nat)"
  by (simp add: div_mult2_eq)

lemma addr_of_octets_octet: "addr_of_octets (octet 0 a) (octet 1 a) (octet 2 a) (octet 3 a) = a"
proof -
  have "unat a < 2 ^ LENGTH(32)" by (rule unsigned_less)
  then have o0: "octet 0 a = unat a div (256 * 256 * 256)"
    by (simp add: octet_def power3_eq_cube less_mult_imp_div_less)
  have o1: "octet 1 a = unat a div (256 * 256) mod 256"
    and o2: "octet 2 a = unat a div 256 mod 256" and o3: "octet 3 a = unat a mod 256"
    by (simp_all add: octet_def power2_eq_square)
  have "octet 0 a * 256 + octet 1 a = unat a div (256 * 256)"
    unfolding o0 o1 by (rule octets_join)
  moreover have "unat a div (256 * 256) * 256 + octet 2 a = unat a div 256"
    unfolding o2 by (rule octets_join)
  moreover have "unat a div 256 * 256 + octet 3 a = unat a"
    unfolding o3 by (rule div_mult_mod_eq)
  ultimately have "((octet 0 a * 256 + octet 1 a) * 256 + octet 2 a) * 256 + octet 3 a = unat a"
    by (simp only:)
  then show ?thesis by (simp only: addr_of_octets_def) simp
qed

lemma Ipv4Addr_parse_show: "Ipv4Addr_parse (Ipv4Addr_show a) = Some a"
proof -
  have "split_on (CHR ''.'') (Ipv4Addr_show a)
      = [show_nat (octet 0 a), show_nat (octet 1 a), show_nat (octet 2 a), show_nat (octet 3 a)]"
    by (simp add: Ipv4Addr_show_def split_on_append split_on_no_sep show_nat_no_char)
  then show ?thesis
    by (simp add: Ipv4Addr_parse_def octet_parse_show octet_le
        addr_of_octets_octet [unfolded One_nat_def])
qed

lemma Ipv4Addr_show_chars:
  "\<not> is_ascii_digit c \<Longrightarrow> c \<noteq> CHR ''.'' \<Longrightarrow> c \<notin> set (Ipv4Addr_show a)"
  by (simp add: Ipv4Addr_show_def show_nat_no_char)

lemma cidr_parse_show:
  assumes "cidr_wf c"
  shows "Ipv4Cidr_parse (Ipv4Cidr_show c) = Inr c"
proof -
  have split: "split_once (CHR ''/'') (Ipv4Cidr_show c)
      = Some (Ipv4Addr_show (cidr_network c), show_u (cidr_prefix c))"
    by (simp add: Ipv4Cidr_show_def split_once_append Ipv4Addr_show_chars)
  have new: "Ipv4Cidr_new (cidr_network c) (cidr_prefix c) = c"
    using assms by (simp add: Ipv4Cidr_new_def cidr_wf_def Let_def min_absorb1)
  show ?thesis
    using assms
    by (simp add: Ipv4Cidr_parse_def split u8_parse_show Ipv4Addr_parse_show Ipv4Addr_show_chars
        new cidr_wf_def)
qed

section \<open>The blocked table\<close>

lemmas parse_eval = Ipv4Cidr_parse_def Ipv4Addr_parse_def octet_parse_def u8_parse_def
  digits_val_def digit_val_def byte_def is_ascii_digit_def addr_of_octets_def Ipv4Cidr_new_def
  mask_bits_def Let_def mask_eq_exp_minus_1

lemma blocked_cidrs_parse: "list_all (\<lambda>b. BlockedRange_cidr b \<noteq> None) BLOCKED_IPV4"
  by (simp add: BLOCKED_IPV4_def BlockedRange_cidr_def parse_eval)

lemma BlockedRange_cidr_wf: "BlockedRange_cidr b = Some c \<Longrightarrow> cidr_wf c"
  by (auto simp: BlockedRange_cidr_def intro: cidr_wf_parse split: sum.splits)

lemma EgressAllowRule_validate_ok:
  "EgressAllowRule_validate r = Inr () \<longleftrightarrow>
     (\<exists>net. Ipv4Cidr_parse (ear_cidr r) = Inr net \<and>
        (\<forall>b\<in>set BLOCKED_IPV4. \<forall>c. BlockedRange_cidr b = Some c \<longrightarrow> \<not> Ipv4Cidr_overlaps c net)) \<and>
     ear_ports r \<noteq> [] \<and> length (ear_ports r) \<le> MAX_EGRESS_ALLOW_PORTS \<and> 0 \<notin> set (ear_ports r)"
  by (auto simp: EgressAllowRule_validate_def EgressAllowRule_network_def find_None_iff
      opt_is_some_and_iff split: option.splits if_splits)

lemma validated_rule_public:
  assumes "EgressAllowRule_validate r = Inr ()" "EgressAllowRule_network r = Inr net"
    and "Ipv4Cidr_contains net a"
  shows "is_public_ipv4 a"
proof -
  have wf: "cidr_wf net" using assms(2) by (auto simp: EgressAllowRule_network_def intro: cidr_wf_parse)
  have "\<not> Ipv4Cidr_contains c a" if "b \<in> set BLOCKED_IPV4" "BlockedRange_cidr b = Some c" for b c
  proof
    assume "Ipv4Cidr_contains c a"
    then have "Ipv4Cidr_overlaps c net"
      using overlaps_iff_shared_address [OF BlockedRange_cidr_wf [OF that(2)] wf] assms(3) by blast
    then show False
      using assms(1,2) that by (auto simp: EgressAllowRule_validate_ok EgressAllowRule_network_def)
  qed
  then show ?thesis
    by (auto simp: is_public_ipv4_def list_ex_iff opt_is_some_and_iff)
qed

end
