(* ===== verification/Revisions.thy ===== *)
theory Revisions
  imports Functions Egress
begin

text \<open>
  \<open>crates/domain/src/revision.rs\<close> and the restore settings of
  \<open>crates/domain/src/snapshot.rs\<close>: the immutable unit of code and configuration, its
  validation against the platform limits, and its publication state machine.
\<close>

section \<open>Data\<close>

definition RUNTIME_PROTOCOL_V1 :: string where
  "RUNTIME_PROTOCOL_V1 = ''tachyon-invoke-v1''"

datatype Architecture = X86_64 | Aarch64

datatype ArtifactRef =
    Binary Sha256Digest u64
  | OciImage string Sha256Digest

fun ArtifactRef_digest :: "ArtifactRef \<Rightarrow> Sha256Digest" where
  "ArtifactRef_digest (Binary d n) = d"
| "ArtifactRef_digest (OciImage r d) = d"

record RuntimeSpec =
  rt_protocol :: string
  rt_architecture :: Architecture

record ResourceProfile =
  memory_mib :: u32
  cpu_millis :: u32
  ephemeral_storage_mib :: u32

definition ResourceProfile_default :: ResourceProfile where
  "ResourceProfile_default = \<lparr> memory_mib = 256, cpu_millis = 500, ephemeral_storage_mib = 256 \<rparr>"

definition vcpus :: "ResourceProfile \<Rightarrow> u32" where
  "vcpus r = max (div_ceil (cpu_millis r) 1000) 1"

record ExecutionPolicy =
  timeout_seconds :: u32
  initialization_timeout_seconds :: u32
  concurrency_per_environment :: u32
  max_concurrency :: u32
  min_ready :: u32
  idle_ttl_seconds :: "u32 option"
  scale_down_cooldown_seconds :: "u32 option"

definition MAX_MIN_READY :: u32 where "MAX_MIN_READY = 16"
definition MAX_IDLE_TTL_SECONDS :: u32 where "MAX_IDLE_TTL_SECONDS = 86400"
definition MAX_SCALE_DOWN_COOLDOWN_SECONDS :: u32 where "MAX_SCALE_DOWN_COOLDOWN_SECONDS = 3600"

definition ExecutionPolicy_default :: ExecutionPolicy where
  "ExecutionPolicy_default = \<lparr> timeout_seconds = 30, initialization_timeout_seconds = 30,
     concurrency_per_environment = 1, max_concurrency = 4, min_ready = 0,
     idle_ttl_seconds = None, scale_down_cooldown_seconds = None \<rparr>"

datatype EgressProfile = EP_None | EP_Restricted | EP_PublicWeb

fun EgressProfile_as_str :: "EgressProfile \<Rightarrow> string" where
  "EgressProfile_as_str EP_None = ''none''"
| "EgressProfile_as_str EP_Restricted = ''restricted''"
| "EgressProfile_as_str EP_PublicWeb = ''public-web''"

record SecretBinding =
  sb_env_name :: string
  sb_binding_ref :: string

datatype RevisionStatus =
    RS_Pending
  | RS_Preparing
  | RS_Validating
  | RS_Ready
  | RS_Failed string

fun RS_is_terminal :: "RevisionStatus \<Rightarrow> bool" where
  "RS_is_terminal RS_Ready = True"
| "RS_is_terminal (RS_Failed r) = True"
| "RS_is_terminal _ = False"

fun RS_name :: "RevisionStatus \<Rightarrow> string" where
  "RS_name RS_Pending = ''pending''"
| "RS_name RS_Preparing = ''preparing''"
| "RS_name RS_Validating = ''validating''"
| "RS_name RS_Ready = ''ready''"
| "RS_name (RS_Failed r) = ''failed''"

datatype RestorePolicy = Disabled | Prefer | Require

fun RestorePolicy_as_str :: "RestorePolicy \<Rightarrow> string" where
  "RestorePolicy_as_str Disabled = ''disabled''"
| "RestorePolicy_as_str Prefer = ''prefer''"
| "RestorePolicy_as_str Require = ''require''"

definition RestorePolicy_parse :: "string \<Rightarrow> DomainError + RestorePolicy" where
  "RestorePolicy_parse raw =
     (if raw = ''disabled'' then Inr Disabled
      else if raw = ''prefer'' then Inr Prefer
      else if raw = ''require'' then Inr Require
      else Inl (Validation ''restore.policy''
             (''must be disabled, prefer or require (got `'' @ raw @ ''`)'')))"

record RestoreSettings =
  rs_policy :: RestorePolicy
  rs_synthetic_init_sample :: bool

definition RestoreSettings_is_default :: "RestoreSettings \<Rightarrow> bool" where
  "RestoreSettings_is_default r \<longleftrightarrow> rs_policy r = Disabled \<and> \<not> rs_synthetic_init_sample r"

record Placement =
  region :: "string option"

definition Placement_is_unconstrained :: "Placement \<Rightarrow> bool" where
  "Placement_is_unconstrained p \<longleftrightarrow> region p = None"

record RevisionSpec =
  artifact :: ArtifactRef
  runtime :: RuntimeSpec
  resources :: ResourceProfile
  execution :: ExecutionPolicy
  egress :: EgressProfile
  egress_allow :: "EgressAllowRule list"
  env_vars :: "(string \<times> string) list"
  secrets :: "SecretBinding list"
  spec_description :: string
  placement :: Placement
  restore :: RestoreSettings

section \<open>Validation\<close>

definition Placement_validate :: "Placement \<Rightarrow> DomainError + unit" where
  "Placement_validate p =
     (case region p of
        None \<Rightarrow> Inr ()
      | Some r \<Rightarrow>
          if \<not> (r \<noteq> [] \<and> length r \<le> 64
               \<and> list_all (\<lambda>b. is_ascii_lowercase b \<or> is_ascii_digit b \<or> b = CHR ''-'') r)
          then Inl (Validation ''placement.region'' ''must be 1..=64 bytes of [a-z0-9-]'')
          else Inr ())"

definition snapshot_eligibility :: "RevisionSpec \<Rightarrow> DomainError + unit" where
  "snapshot_eligibility spec =
     (if \<not> rs_synthetic_init_sample (restore spec)
      then Inl (Validation ''restore.synthetic_init_sample''
             (''snapshots are only allowed for revisions marked as a synthetic initialization ''
              @ ''sample (X1 experimental)''))
      else if secrets spec \<noteq> []
      then Inl (Validation ''restore''
             (''snapshots are refused for revisions with secret bindings: a snapshot captures ''
              @ ''guest memory, and secrets cannot yet be delivered after a restore''))
      else if egress spec \<noteq> EP_None
      then Inl (Validation ''restore''
             (''snapshots support egress `none` only; `'' @ EgressProfile_as_str (egress spec)
              @ ''` is unsupported in X1''))
      else Inr ())"

definition RestoreSettings_validate :: "RevisionSpec \<Rightarrow> DomainError + unit" where
  "RestoreSettings_validate spec =
     (if rs_policy (restore spec) = Disabled then Inr () else snapshot_eligibility spec)"

definition validate_env_name :: "string \<Rightarrow> DomainError + unit" where
  "validate_env_name name =
     (if name \<noteq> [] \<and> length name \<le> 128 \<and> \<not> is_ascii_digit (hd name)
         \<and> list_all (\<lambda>b. is_ascii_alphanumeric b \<or> b = CHR ''_'') name
         \<and> strip_prefix ''TACHYON_'' name = None
      then Inr ()
      else Inl (Validation ''env_vars''
             (''invalid or reserved environment variable name `'' @ name @ ''`'')))"

text \<open>\<open>names.windows(2).any(|w| w[0] == w[1])\<close>.\<close>

fun adjacent_equal :: "'a list \<Rightarrow> bool" where
  "adjacent_equal (x # y # xs) = (x = y \<or> adjacent_equal (y # xs))"
| "adjacent_equal _ = False"

definition within :: "u32 \<Rightarrow> u32 \<Rightarrow> string" where
  "within lo hi = ''must be within '' @ show_u lo @ ''..='' @ show_u hi"

definition spec_env_names :: "RevisionSpec \<Rightarrow> string list" where
  "spec_env_names s = map fst (env_vars s) @ map sb_env_name (secrets s)"

text \<open>The checks of \<open>RevisionSpec::validate\<close> on resources and execution, in source order.\<close>

definition validate_resources :: "ResourceProfile \<Rightarrow> Limits \<Rightarrow> DomainError + unit" where
  "validate_resources r limits =
     (if memory_mib r < min_memory_mib limits \<or> memory_mib r > max_memory_mib limits
      then Inl (Validation ''resources.memory_mib''
             (within (min_memory_mib limits) (max_memory_mib limits)))
      else if cpu_millis r < min_cpu_millis limits \<or> cpu_millis r > max_cpu_millis limits
      then Inl (Validation ''resources.cpu_millis''
             (within (min_cpu_millis limits) (max_cpu_millis limits)))
      else if ephemeral_storage_mib r < min_ephemeral_storage_mib limits
           \<or> ephemeral_storage_mib r > max_ephemeral_storage_mib limits
      then Inl (Validation ''resources.ephemeral_storage_mib''
             (within (min_ephemeral_storage_mib limits) (max_ephemeral_storage_mib limits)))
      else Inr ())"

definition validate_execution :: "ExecutionPolicy \<Rightarrow> Limits \<Rightarrow> DomainError + unit" where
  "validate_execution e limits =
     (if timeout_seconds e = 0 \<or> timeout_seconds e > max_execution_timeout_seconds limits
      then Inl (Validation ''execution.timeout_seconds''
             (within 1 (max_execution_timeout_seconds limits)))
      else if initialization_timeout_seconds e = 0
           \<or> initialization_timeout_seconds e > max_init_timeout_seconds limits
      then Inl (Validation ''execution.initialization_timeout_seconds''
             (within 1 (max_init_timeout_seconds limits)))
      else if concurrency_per_environment e \<noteq> 1
      then Inl (Validation ''execution.concurrency_per_environment''
             ''must be 1 (one invocation per environment)'')
      else if max_concurrency e = 0 \<or> max_concurrency e > 1000
      then Inl (Validation ''execution.max_concurrency'' ''must be within 1..=1000'')
      else if min_ready e > MAX_MIN_READY \<or> min_ready e > max_concurrency e
      then Inl (Validation ''execution.min_ready''
             (''must be within 0..='' @ show_u MAX_MIN_READY
              @ '' and at most execution.max_concurrency''))
      else if opt_is_some_and (\<lambda>s. s = 0 \<or> s > MAX_IDLE_TTL_SECONDS) (idle_ttl_seconds e)
      then Inl (Validation ''execution.idle_ttl_seconds'' (within 1 MAX_IDLE_TTL_SECONDS))
      else if opt_is_some_and (\<lambda>s. s > MAX_SCALE_DOWN_COOLDOWN_SECONDS)
                (scale_down_cooldown_seconds e)
      then Inl (Validation ''execution.scale_down_cooldown_seconds''
             (within 0 MAX_SCALE_DOWN_COOLDOWN_SECONDS))
      else Inr ())"

definition validate_egress :: "RevisionSpec \<Rightarrow> DomainError + unit" where
  "validate_egress s =
     (case egress s of
        EP_Restricted \<Rightarrow>
          if egress_allow s = [] \<or> length (egress_allow s) > MAX_EGRESS_ALLOW_RULES
          then Inl (Validation ''egress_allow''
                 (''egress `restricted` needs 1..='' @ show_nat MAX_EGRESS_ALLOW_RULES
                  @ '' allow rules (everything else is denied)''))
          else try_each EgressAllowRule_validate (egress_allow s)
      | _ \<Rightarrow>
          if egress_allow s \<noteq> []
          then Inl (Validation ''egress_allow''
                 (''allow rules only apply to egress `restricted`, not `''
                  @ EgressProfile_as_str (egress s) @ ''`''))
          else Inr ())"

definition validate_secret :: "SecretBinding \<Rightarrow> DomainError + unit" where
  "validate_secret sb = and_then (validate_env_name (sb_env_name sb)) (\<lambda>_.
     if sb_binding_ref sb = [] \<or> length (sb_binding_ref sb) > 256
     then Inl (Validation ''secrets.binding_ref'' ''must be 1..=256 chars'')
     else Inr ())"

definition RevisionSpec_validate :: "RevisionSpec \<Rightarrow> Limits \<Rightarrow> DomainError + unit" where
  "RevisionSpec_validate s limits =
     (if rt_protocol (runtime s) \<noteq> RUNTIME_PROTOCOL_V1
      then Inl (Validation ''runtime.protocol''
             (''unsupported protocol `'' @ rt_protocol (runtime s) @ ''`''))
      else and_then (validate_resources (resources s) limits) (\<lambda>_.
           and_then (validate_execution (execution s) limits) (\<lambda>_.
           and_then (validate_egress s) (\<lambda>_.
           and_then (try_each (\<lambda>(name, _). validate_env_name name) (env_vars s)) (\<lambda>_.
           and_then (try_each validate_secret (secrets s)) (\<lambda>_.
             if adjacent_equal (sort (spec_env_names s))
             then Inl (Validation ''env_vars'' ''duplicate environment variable name'')
             else if length (spec_description s) > 1024
             then Inl (LimitExceeded ''description'' (of_nat (length (spec_description s))) 1024)
             else and_then (Placement_validate (placement s)) (\<lambda>_.
                  RestoreSettings_validate s)))))))"

section \<open>FunctionRevision\<close>

text \<open>
  The canonical JSON of a spec (\<open>serde_json::to_vec\<close>) and SHA-256 are parameters:
  \<open>to_json\<close> and \<open>sha256_hex\<close>.
\<close>

definition RevisionSpec_digest ::
  "(RevisionSpec \<Rightarrow> string) \<Rightarrow> (string \<Rightarrow> string) \<Rightarrow> RevisionSpec \<Rightarrow> Sha256Digest" where
  "RevisionSpec_digest to_json sha256_hex s = Sha256Digest_of_bytes sha256_hex (to_json s)"

record FunctionRevision =
  rev_id :: RevisionId
  rev_function_id :: FunctionId
  rev_tenant_id :: TenantId
  rev_number :: u64
  rev_spec :: RevisionSpec
  rev_spec_digest :: Sha256Digest
  rev_status :: RevisionStatus
  rev_created_at :: Timestamp
  rev_updated_at :: Timestamp

definition rev_new ::
  "(RevisionSpec \<Rightarrow> string) \<Rightarrow> (string \<Rightarrow> string) \<Rightarrow> RevisionId \<Rightarrow> FunctionId \<Rightarrow> TenantId \<Rightarrow> u64
     \<Rightarrow> RevisionSpec \<Rightarrow> Limits \<Rightarrow> Timestamp \<Rightarrow> DomainError + FunctionRevision" where
  "rev_new to_json sha256_hex i f t n spec limits now =
     and_then (RevisionSpec_validate spec limits) (\<lambda>_.
       Inr \<lparr> rev_id = i, rev_function_id = f, rev_tenant_id = t, rev_number = n, rev_spec = spec,
             rev_spec_digest = RevisionSpec_digest to_json sha256_hex spec,
             rev_status = RS_Pending, rev_created_at = now, rev_updated_at = now \<rparr>)"

definition rev_is_ready :: "FunctionRevision \<Rightarrow> bool" where
  "rev_is_ready r \<longleftrightarrow> rev_status r = RS_Ready"

definition rev_verify_integrity ::
  "(RevisionSpec \<Rightarrow> string) \<Rightarrow> (string \<Rightarrow> string) \<Rightarrow> FunctionRevision \<Rightarrow> DomainError + unit" where
  "rev_verify_integrity to_json sha256_hex r =
     (if RevisionSpec_digest to_json sha256_hex (rev_spec r) = rev_spec_digest r then Inr ()
      else Inl (Validation ''spec_digest''
             ''revision specification was modified after creation''))"

fun rev_allowed :: "RevisionStatus \<Rightarrow> RevisionStatus \<Rightarrow> bool" where
  "rev_allowed RS_Pending RS_Preparing = True"
| "rev_allowed RS_Preparing RS_Validating = True"
| "rev_allowed RS_Validating RS_Ready = True"
| "rev_allowed _ (RS_Failed r) = True"
| "rev_allowed _ _ = False"

definition rev_transition ::
  "FunctionRevision \<Rightarrow> RevisionStatus \<Rightarrow> Timestamp \<Rightarrow> DomainError + FunctionRevision" where
  "rev_transition r to now =
     (if RS_is_terminal (rev_status r)
      then Inl (Terminal ''FunctionRevision'' (RS_name (rev_status r)))
      else if \<not> rev_allowed (rev_status r) to
      then Inl (IllegalTransition ''FunctionRevision'' (RS_name (rev_status r)) (RS_name to))
      else Inr (r\<lparr>rev_status := to, rev_updated_at := now\<rparr>))"

definition rev_start_preparing :: "FunctionRevision \<Rightarrow> Timestamp \<Rightarrow> DomainError + FunctionRevision" where
  "rev_start_preparing r now = rev_transition r RS_Preparing now"

definition rev_start_validating :: "FunctionRevision \<Rightarrow> Timestamp \<Rightarrow> DomainError + FunctionRevision" where
  "rev_start_validating r now = rev_transition r RS_Validating now"

definition rev_mark_ready :: "FunctionRevision \<Rightarrow> Timestamp \<Rightarrow> DomainError + FunctionRevision" where
  "rev_mark_ready r now = rev_transition r RS_Ready now"

definition rev_mark_failed ::
  "FunctionRevision \<Rightarrow> string \<Rightarrow> Timestamp \<Rightarrow> DomainError + FunctionRevision" where
  "rev_mark_failed r reason now = rev_transition r (RS_Failed reason) now"

section \<open>Facts\<close>

text \<open>Sorting first makes one pass over neighbours find every duplicate.\<close>

lemma adjacent_equal_sorted: "sorted xs \<Longrightarrow> adjacent_equal xs \<longleftrightarrow> \<not> distinct xs"
  by (induction xs rule: adjacent_equal.induct) (auto dest: antisym)

lemma adjacent_equal_sort: "adjacent_equal (sort xs) \<longleftrightarrow> \<not> distinct xs"
  by (simp add: adjacent_equal_sorted)

lemma validate_env_name_ok:
  "validate_env_name n = Inr () \<longleftrightarrow>
     n \<noteq> [] \<and> length n \<le> 128 \<and> \<not> is_ascii_digit (hd n)
     \<and> list_all (\<lambda>b. is_ascii_alphanumeric b \<or> b = CHR ''_'') n
     \<and> strip_prefix ''TACHYON_'' n = None"
  by (simp add: validate_env_name_def)

lemma validate_resources_ok:
  "validate_resources r l = Inr () \<longleftrightarrow>
     min_memory_mib l \<le> memory_mib r \<and> memory_mib r \<le> max_memory_mib l
     \<and> min_cpu_millis l \<le> cpu_millis r \<and> cpu_millis r \<le> max_cpu_millis l
     \<and> min_ephemeral_storage_mib l \<le> ephemeral_storage_mib r
     \<and> ephemeral_storage_mib r \<le> max_ephemeral_storage_mib l"
  by (auto simp: validate_resources_def not_less)

lemma validate_execution_ok:
  "validate_execution e l = Inr () \<longleftrightarrow>
     timeout_seconds e \<noteq> 0 \<and> timeout_seconds e \<le> max_execution_timeout_seconds l
     \<and> initialization_timeout_seconds e \<noteq> 0
     \<and> initialization_timeout_seconds e \<le> max_init_timeout_seconds l
     \<and> concurrency_per_environment e = 1
     \<and> max_concurrency e \<noteq> 0 \<and> max_concurrency e \<le> 1000
     \<and> min_ready e \<le> MAX_MIN_READY \<and> min_ready e \<le> max_concurrency e
     \<and> opt_is_none_or (\<lambda>s. s \<noteq> 0 \<and> s \<le> MAX_IDLE_TTL_SECONDS) (idle_ttl_seconds e)
     \<and> opt_is_none_or (\<lambda>s. s \<le> MAX_SCALE_DOWN_COOLDOWN_SECONDS) (scale_down_cooldown_seconds e)"
  by (cases "idle_ttl_seconds e"; cases "scale_down_cooldown_seconds e")
     (auto simp: validate_execution_def not_less)

lemma validate_egress_ok:
  "validate_egress s = Inr () \<longleftrightarrow>
     (if egress s = EP_Restricted
      then egress_allow s \<noteq> [] \<and> length (egress_allow s) \<le> MAX_EGRESS_ALLOW_RULES
           \<and> (\<forall>r\<in>set (egress_allow s). EgressAllowRule_validate r = Inr ())
      else egress_allow s = [])"
  by (cases "egress s") (auto simp: validate_egress_def try_each_ok not_less)

lemma RevisionSpec_validate_ok:
  "RevisionSpec_validate s l = Inr () \<longleftrightarrow>
     rt_protocol (runtime s) = RUNTIME_PROTOCOL_V1
     \<and> validate_resources (resources s) l = Inr ()
     \<and> validate_execution (execution s) l = Inr ()
     \<and> validate_egress s = Inr ()
     \<and> (\<forall>(n, v)\<in>set (env_vars s). validate_env_name n = Inr ())
     \<and> (\<forall>b\<in>set (secrets s). validate_secret b = Inr ())
     \<and> distinct (spec_env_names s)
     \<and> length (spec_description s) \<le> 1024
     \<and> Placement_validate (placement s) = Inr ()
     \<and> RestoreSettings_validate s = Inr ()"
  by (auto simp: RevisionSpec_validate_def try_each_ok adjacent_equal_sort not_less)

lemma rev_transition_ok:
  "rev_transition r to now = Inr r' \<longleftrightarrow>
     \<not> RS_is_terminal (rev_status r) \<and> rev_allowed (rev_status r) to
     \<and> r' = r\<lparr>rev_status := to, rev_updated_at := now\<rparr>"
  by (auto simp: rev_transition_def)

end
