(* ===== verification/Machine_Ints.thy ===== *)
theory Machine_Ints
  imports Prelude
begin

text \<open>
  Unsigned counters as natural numbers, with the width written out where an operation of the
  sources can reach it: \<open>saturating_add\<close> and \<open>saturating_mul\<close> of \<open>u64\<close>, the plain \<open>+\<close> of \<open>u64\<close>
  and \<open>u128\<close> (which wraps in the release profile) and \<open>try_from(..).unwrap_or(MAX)\<close>.
\<close>

definition u64_max :: nat where
  "u64_max = 2 ^ 64 - 1"

definition u32_max :: nat where
  "u32_max = 2 ^ 32 - 1"

definition u128_max :: nat where
  "u128_max = 2 ^ 128 - 1"

definition i64_max :: int where
  "i64_max = 2 ^ 63 - 1"

definition sat_add64 :: "nat \<Rightarrow> nat \<Rightarrow> nat" where
  "sat_add64 a b = min (a + b) u64_max"

definition sat_mul64 :: "nat \<Rightarrow> nat \<Rightarrow> nat" where
  "sat_mul64 a b = min (a * b) u64_max"

definition wrap_add64 :: "nat \<Rightarrow> nat \<Rightarrow> nat" where
  "wrap_add64 a b = (a + b) mod 2 ^ 64"

definition wrap_add128 :: "nat \<Rightarrow> nat \<Rightarrow> nat" where
  "wrap_add128 a b = (a + b) mod 2 ^ 128"

text \<open>\<open>if let Some(v) = o { x = x.saturating_add(v) }\<close>.\<close>

definition sat_acc :: "nat \<Rightarrow> nat option \<Rightarrow> nat" where
  "sat_acc x o' = (case o' of None \<Rightarrow> x | Some v \<Rightarrow> sat_add64 x v)"

section \<open>Laws\<close>

lemma sat_add64_exact: "sat_add64 a b < u64_max \<Longrightarrow> sat_add64 a b = a + b"
  by (simp add: sat_add64_def min_def split: if_splits)

lemma sat_add64_small: "a + b \<le> u64_max \<Longrightarrow> sat_add64 a b = a + b"
  by (simp add: sat_add64_def)

lemma sat_add64_mono: "a \<le> a' \<Longrightarrow> b \<le> b' \<Longrightarrow> sat_add64 a b \<le> sat_add64 a' b'"
  by (auto simp: sat_add64_def intro: min.coboundedI1)

lemma sat_add64_swap: "sat_add64 (sat_add64 x a) b = sat_add64 (sat_add64 x b) a"
  by (simp add: sat_add64_def min_def)

lemma wrap_add64_swap: "wrap_add64 (wrap_add64 x a) b = wrap_add64 (wrap_add64 x b) a"
  unfolding wrap_add64_def mod_add_left_eq by (simp only: ac_simps)

lemma wrap_add128_swap: "wrap_add128 (wrap_add128 x a) b = wrap_add128 (wrap_add128 x b) a"
  unfolding wrap_add128_def mod_add_left_eq by (simp only: ac_simps)

lemma sat_acc_simps [simp]: "sat_acc x None = x" "sat_acc x (Some v) = sat_add64 x v"
  by (simp_all add: sat_acc_def)

lemma sat_acc_swap: "sat_acc (sat_acc x a) b = sat_acc (sat_acc x b) a"
  by (cases a; cases b) (simp_all add: sat_add64_swap)

lemmas accumulate_swap = sat_add64_swap wrap_add64_swap wrap_add128_swap sat_acc_swap

end
