(* ===== verification/Scaler.thy ===== *)
theory Scaler
  imports Revisions Machine_Ints Complex_Main
begin

text \<open>
  \<open>crates/application/src/services/admission/resources.rs\<close> and \<open>scaler.rs\<close>: resource vectors
  and node capacity, the start-rate token bucket, the start-failure circuit breaker and the
  demand estimate behind \<open>desired\<close>.

  Counters of type \<open>u32\<close>, \<open>u64\<close> and \<open>usize\<close> are \<open>nat\<close> here; the saturating operations of the
  source are written out at their width.  A double is the real number it stands for, and every
  operation of the source rounds its exact result: the rounding function and the library's
  \<open>exp\<close> are the machine's (\<open>fp\<close>).  No operation here overflows to an infinity or produces a NaN.
\<close>

section \<open>Machine arithmetic\<close>

record fpu =
  f64_round :: "real \<Rightarrow> real"
  f64_exp :: "real \<Rightarrow> real"

text \<open>Exact arithmetic, the instance the concrete examples run on.\<close>

definition exact_fpu :: fpu where
  "exact_fpu = \<lparr> f64_round = (\<lambda>x. x), f64_exp = exp \<rparr>"

definition duration_seconds :: "nat \<Rightarrow> Duration" where
  "duration_seconds n = int n * 1000 * nanos_per_milli"

text \<open>\<open>chrono::Duration::seconds(s.min(i64::MAX as u64 / 1000) as i64)\<close>.\<close>

definition clamped_seconds :: "nat \<Rightarrow> Duration" where
  "clamped_seconds n = duration_seconds (min n (nat i64_max div 1000))"

text \<open>\<open>num_microseconds\<close> truncates towards zero and is \<open>None\<close> beyond the range of \<open>i64\<close>.\<close>

definition num_microseconds :: "Duration \<Rightarrow> int option" where
  "num_microseconds d =
     (let us = (if d < 0 then - ((- d) div 1000) else d div 1000)
      in if - i64_max - 1 \<le> us \<and> us \<le> i64_max then Some us else None)"

definition secs_between :: "fpu \<Rightarrow> Timestamp \<Rightarrow> Timestamp \<Rightarrow> real" where
  "secs_between fp from to =
     (let us = (case num_microseconds (to - from) of Some n \<Rightarrow> n | None \<Rightarrow> i64_max)
      in max (f64_round fp (f64_round fp (of_int us) / 1000000)) 0)"

section \<open>Resources\<close>

record Resources =
  res_cpu_millis :: nat
  res_memory_mib :: nat
  res_ephemeral_storage_mib :: nat

definition Resources_ZERO :: Resources where
  "Resources_ZERO =
     \<lparr> res_cpu_millis = 0, res_memory_mib = 0, res_ephemeral_storage_mib = 0 \<rparr>"

definition res_plus :: "Resources \<Rightarrow> Resources \<Rightarrow> Resources" where
  "res_plus a b =
     \<lparr> res_cpu_millis = sat_add64 (res_cpu_millis a) (res_cpu_millis b),
       res_memory_mib = sat_add64 (res_memory_mib a) (res_memory_mib b),
       res_ephemeral_storage_mib =
         sat_add64 (res_ephemeral_storage_mib a) (res_ephemeral_storage_mib b) \<rparr>"

definition res_minus :: "Resources \<Rightarrow> Resources \<Rightarrow> Resources" where
  "res_minus a b =
     \<lparr> res_cpu_millis = res_cpu_millis a - res_cpu_millis b,
       res_memory_mib = res_memory_mib a - res_memory_mib b,
       res_ephemeral_storage_mib =
         res_ephemeral_storage_mib a - res_ephemeral_storage_mib b \<rparr>"

definition for_environment :: "ResourceProfile \<Rightarrow> Resources \<Rightarrow> Resources" where
  "for_environment profile overhead =
     res_plus \<lparr> res_cpu_millis = unat (cpu_millis profile),
                res_memory_mib = unat (memory_mib profile),
                res_ephemeral_storage_mib = unat (ephemeral_storage_mib profile) \<rparr> overhead"

record NodeCapacity =
  cap_cpu_millis :: "nat option"
  cap_memory_mib :: "nat option"
  cap_ephemeral_storage_mib :: "nat option"

definition admits :: "NodeCapacity \<Rightarrow> Resources \<Rightarrow> bool" where
  "admits c used \<longleftrightarrow>
     opt_is_none_or (\<lambda>m. res_cpu_millis used \<le> m) (cap_cpu_millis c)
     \<and> opt_is_none_or (\<lambda>m. res_memory_mib used \<le> m) (cap_memory_mib c)
     \<and> opt_is_none_or (\<lambda>m. res_ephemeral_storage_mib used \<le> m) (cap_ephemeral_storage_mib c)"

section \<open>Token bucket\<close>

record TokenBucket =
  tb_per_second :: real
  tb_burst :: real
  tb_tokens :: real
  tb_at :: "Timestamp option"

definition tb_new :: "nat \<Rightarrow> nat \<Rightarrow> TokenBucket" where
  "tb_new per_second burst =
     \<lparr> tb_per_second = of_nat (max per_second 1), tb_burst = of_nat (max burst 1),
       tb_tokens = of_nat (max burst 1), tb_at = None \<rparr>"

definition tb_refill :: "fpu \<Rightarrow> TokenBucket \<Rightarrow> Timestamp \<Rightarrow> TokenBucket" where
  "tb_refill fp b now =
     (let b' = (case tb_at b of
                  None \<Rightarrow> b
                | Some t0 \<Rightarrow> b\<lparr>tb_tokens :=
                    min (f64_round fp (tb_tokens b
                           + f64_round fp (secs_between fp t0 now * tb_per_second b)))
                      (tb_burst b)\<rparr>)
      in if opt_is_none_or (\<lambda>t0. now > t0) (tb_at b) then b'\<lparr>tb_at := Some now\<rparr> else b')"

definition tb_available :: "fpu \<Rightarrow> TokenBucket \<Rightarrow> Timestamp \<Rightarrow> bool \<times> TokenBucket" where
  "tb_available fp b now = (let b' = tb_refill fp b now in (tb_tokens b' \<ge> 1, b'))"

definition tb_take :: "fpu \<Rightarrow> TokenBucket \<Rightarrow> Timestamp \<Rightarrow> bool \<times> TokenBucket" where
  "tb_take fp b now =
     (let b' = tb_refill fp b now
      in if tb_tokens b' \<ge> 1 then (True, b'\<lparr>tb_tokens := f64_round fp (tb_tokens b' - 1)\<rparr>)
         else (False, b'))"

definition tb_whole_tokens :: "fpu \<Rightarrow> TokenBucket \<Rightarrow> Timestamp \<Rightarrow> nat \<times> TokenBucket" where
  "tb_whole_tokens fp b now =
     (let b' = tb_refill fp b now in (min (nat \<lfloor>tb_tokens b'\<rfloor>) u32_max, b'))"

section \<open>Circuit breaker\<close>

datatype BreakerState =
    BS_Closed (consecutive_failures: nat)
  | BS_Open (open_until: Timestamp)
  | BS_HalfOpen (probe_in_flight: bool)

datatype BreakerGate = BG_Allow | BG_Probe | BG_Wait | BG_Reject

record CircuitBreaker =
  cb_threshold :: nat
  cb_cooldown :: Duration
  cb_state :: BreakerState

definition cb_new :: "nat \<Rightarrow> nat \<Rightarrow> CircuitBreaker" where
  "cb_new threshold cooldown_seconds =
     \<lparr> cb_threshold = max threshold 1, cb_cooldown = clamped_seconds cooldown_seconds,
       cb_state = BS_Closed 0 \<rparr>"

definition cb_tick :: "CircuitBreaker \<Rightarrow> Timestamp \<Rightarrow> CircuitBreaker" where
  "cb_tick b now =
     (case cb_state b of
        BS_Open until \<Rightarrow> if now \<ge> until then b\<lparr>cb_state := BS_HalfOpen False\<rparr> else b
      | _ \<Rightarrow> b)"

fun gate_of :: "BreakerState \<Rightarrow> BreakerGate" where
  "gate_of (BS_Closed n) = BG_Allow"
| "gate_of (BS_Open until) = BG_Reject"
| "gate_of (BS_HalfOpen False) = BG_Probe"
| "gate_of (BS_HalfOpen True) = BG_Wait"

definition cb_gate :: "CircuitBreaker \<Rightarrow> Timestamp \<Rightarrow> BreakerGate \<times> CircuitBreaker" where
  "cb_gate b now = (let b' = cb_tick b now in (gate_of (cb_state b'), b'))"

definition cb_is_open :: "CircuitBreaker \<Rightarrow> Timestamp \<Rightarrow> bool \<times> CircuitBreaker" where
  "cb_is_open b now = (let (g, b') = cb_gate b now in (g = BG_Reject, b'))"

definition cb_probe_started :: "CircuitBreaker \<Rightarrow> CircuitBreaker" where
  "cb_probe_started b =
     (case cb_state b of BS_HalfOpen _ \<Rightarrow> b\<lparr>cb_state := BS_HalfOpen True\<rparr> | _ \<Rightarrow> b)"

definition cb_probe_abandoned :: "CircuitBreaker \<Rightarrow> CircuitBreaker" where
  "cb_probe_abandoned b =
     (case cb_state b of
        BS_HalfOpen p \<Rightarrow> if p then b\<lparr>cb_state := BS_HalfOpen False\<rparr> else b
      | _ \<Rightarrow> b)"

definition cb_record_success :: "CircuitBreaker \<Rightarrow> CircuitBreaker" where
  "cb_record_success b = b\<lparr>cb_state := BS_Closed 0\<rparr>"

definition cb_record_failure :: "CircuitBreaker \<Rightarrow> Timestamp \<Rightarrow> bool \<times> CircuitBreaker" where
  "cb_record_failure b now =
     (let b' = cb_tick b now in
      case cb_state b' of
        BS_Closed n \<Rightarrow>
          if n + 1 \<ge> cb_threshold b'
          then (True, b'\<lparr>cb_state := BS_Open (now + cb_cooldown b')\<rparr>)
          else (False, b'\<lparr>cb_state := BS_Closed (n + 1)\<rparr>)
      | BS_HalfOpen _ \<Rightarrow> (True, b'\<lparr>cb_state := BS_Open (now + cb_cooldown b')\<rparr>)
      | BS_Open _ \<Rightarrow> (False, b'))"

fun breaker_name :: "BreakerState \<Rightarrow> string" where
  "breaker_name (BS_Closed n) = ''closed''"
| "breaker_name (BS_Open until) = ''open''"
| "breaker_name (BS_HalfOpen p) = ''half_open''"

section \<open>Demand estimate\<close>

record DemandStats =
  ds_rate :: real
  ds_rate_at :: "Timestamp option"
  ds_avg_duration :: "real option"

definition DemandStats_default :: DemandStats where
  "DemandStats_default = \<lparr> ds_rate = 0, ds_rate_at = None, ds_avg_duration = None \<rparr>"

definition ds_decayed :: "fpu \<Rightarrow> DemandStats \<Rightarrow> Timestamp \<Rightarrow> real \<Rightarrow> real" where
  "ds_decayed fp d now window =
     (case ds_rate_at d of
        Some t0 \<Rightarrow> f64_round fp (ds_rate d *
          f64_exp fp (f64_round fp (- secs_between fp t0 now / window)))
      | None \<Rightarrow> 0)"

definition ds_record_arrival :: "fpu \<Rightarrow> DemandStats \<Rightarrow> Timestamp \<Rightarrow> real \<Rightarrow> DemandStats" where
  "ds_record_arrival fp d now window =
     d\<lparr>ds_rate := f64_round fp (ds_decayed fp d now window + f64_round fp (1 / window)),
       ds_rate_at := Some (case ds_rate_at d of
                             Some t0 \<Rightarrow> if t0 > now then t0 else now
                           | None \<Rightarrow> now)\<rparr>"

definition ds_record_duration :: "fpu \<Rightarrow> DemandStats \<Rightarrow> real \<Rightarrow> DemandStats" where
  "ds_record_duration fp d seconds =
     d\<lparr>ds_avg_duration := Some (case ds_avg_duration d of
          Some avg \<Rightarrow> f64_round fp (f64_round fp (f64_round fp (8 / 10) * avg)
                                    + f64_round fp (f64_round fp (2 / 10) * seconds))
        | None \<Rightarrow> seconds)\<rparr>"

definition ds_arrival_rate :: "fpu \<Rightarrow> DemandStats \<Rightarrow> Timestamp \<Rightarrow> real \<Rightarrow> real" where
  "ds_arrival_rate fp d now window = ds_decayed fp d now window"

record DemandInput =
  di_arrival_rate :: real
  di_avg_duration_seconds :: real
  di_in_flight :: nat
  di_backlog :: nat
  di_concurrency_per_environment :: nat
  di_min_ready :: nat
  di_max_environments :: nat

text \<open>\<open>clamp(lo, hi)\<close>; the source calls it with \<open>lo \<le> hi\<close> only.\<close>

definition clamp :: "nat \<Rightarrow> nat \<Rightarrow> nat \<Rightarrow> nat" where
  "clamp lo hi x = (if x < lo then lo else if x > hi then hi else x)"

definition desired_environments :: "fpu \<Rightarrow> DemandInput \<Rightarrow> nat" where
  "desired_environments fp d =
     (let expected = max (f64_round fp (di_arrival_rate d * di_avg_duration_seconds d))
                       (of_nat (di_in_flight d));
          load = f64_round fp (expected + of_nat (di_backlog d));
          per_env = of_nat (max (di_concurrency_per_environment d) 1);
          raw = max (of_int \<lceil>f64_round fp (f64_round fp (load / per_env) - f64_round fp (1 / 10 ^ 9))\<rceil>) (0 :: real);
          capped = (if raw > of_nat u32_max then u32_max else nat \<lfloor>raw\<rfloor>)
      in clamp (min (di_min_ready d) (di_max_environments d)) (di_max_environments d) capped)"

section \<open>Facts\<close>

lemma clamp_bounds: "lo \<le> hi \<Longrightarrow> lo \<le> clamp lo hi x \<and> clamp lo hi x \<le> hi"
  by (simp add: clamp_def)

lemma desired_bounds:
  "min (di_min_ready d) (di_max_environments d) \<le> desired_environments fp d"
  "desired_environments fp d \<le> di_max_environments d"
  using clamp_bounds [of "min (di_min_ready d) (di_max_environments d)" "di_max_environments d"]
  by (simp_all add: desired_environments_def Let_def)

text \<open>A tick only ever opens the way for a probe; every other state is kept.\<close>

lemma cb_tick_cases:
  "cb_tick b now = b \<or> (\<exists>until. cb_state b = BS_Open until \<and> until \<le> now
     \<and> cb_tick b now = b\<lparr>cb_state := BS_HalfOpen False\<rparr>)"
  by (cases "cb_state b") (auto simp: cb_tick_def)

lemma cb_tick_idem [simp]: "cb_tick (cb_tick b now) now = cb_tick b now"
  by (cases "cb_state b") (auto simp: cb_tick_def)

end
