(* ===== verification/BTree_Sum.thy ===== *)
theory BTree_Sum
  imports BTree_Map Complex_Main
begin

text \<open>
  Totals over the values of a map: how many rows satisfy a predicate, or how much they hold
  together, and how an insertion or a removal changes the total.
\<close>

definition bt_sum :: "('v \<Rightarrow> nat) \<Rightarrow> ('k::linorder, 'v) btreemap \<Rightarrow> nat" where
  "bt_sum f m = sum_list (map f (bt_values m))"

lemma bt_sum_set: "bt_sum f m = (\<Sum>k\<in>set (bt_keys m). f (the (bt_get m k)))"
proof -
  have "map f (bt_values m) = map (\<lambda>k. f (the (bt_get m k))) (bt_keys m)"
    by (auto simp: bt_values_def bt_keys_def comp_def simp flip: bt_get_entries)
  then show ?thesis
    by (simp add: bt_sum_def sum_list_distinct_conv_sum_set)
qed

lemma bt_keys_insert [simp]: "set (bt_keys (bt_insert k v m)) = insert k (set (bt_keys m))"
  by (auto simp: bt_keys_iff split: if_splits)

lemma bt_keys_remove [simp]: "set (bt_keys (bt_remove k m)) = set (bt_keys m) - {k}"
  by (auto simp: bt_keys_iff split: if_splits)

lemma bt_sum_empty [simp]: "bt_sum f bt_empty = 0"
  by (simp add: bt_sum_def bt_values_def bt_empty.rep_eq)

lemma bt_sum_remove:
  "bt_sum f m = bt_sum f (bt_remove k m) + (case bt_get m k of None \<Rightarrow> 0 | Some v \<Rightarrow> f v)"
proof (cases "bt_get m k")
  case None
  then have "k \<notin> set (bt_keys m)" by (simp add: bt_keys_iff)
  then have "bt_remove k m = m" using None by (intro bt_eqI) simp
  then show ?thesis using None by simp
next
  case (Some v)
  then have "k \<in> set (bt_keys m)" by (simp add: bt_keys_iff)
  then have "(\<Sum>k\<in>set (bt_keys m). f (the (bt_get m k)))
      = f (the (bt_get m k)) + (\<Sum>k'\<in>set (bt_keys m) - {k}. f (the (bt_get m k')))"
    by (simp add: sum.remove)
  moreover have "(\<Sum>k'\<in>set (bt_keys m) - {k}. f (the (bt_get m k')))
      = bt_sum f (bt_remove k m)"
    unfolding bt_sum_set bt_keys_remove by (rule sum.cong) simp_all
  ultimately show ?thesis using Some by (simp add: bt_sum_set [of f m])
qed

lemma bt_remove_insert: "bt_remove k (bt_insert k v m) = bt_remove k m"
  by (rule bt_eqI) simp

lemma bt_sum_insert: "bt_sum f (bt_insert k v m) = bt_sum f (bt_remove k m) + f v"
  using bt_sum_remove [of f "bt_insert k v m" k] by (simp add: bt_remove_insert)

lemma bt_remove_None: "bt_get m k = None \<Longrightarrow> bt_remove k m = m"
  by (rule bt_eqI) auto

lemma bt_sum_insert_new: "bt_get m k = None \<Longrightarrow> bt_sum f (bt_insert k v m) = bt_sum f m + f v"
  by (simp add: bt_sum_insert bt_remove_None)

lemma bt_sum_replace:
  "bt_get m k = Some old \<Longrightarrow> bt_sum f (bt_insert k v m) + f old = bt_sum f m + f v"
  using bt_sum_remove [of f m k] by (simp add: bt_sum_insert)

lemma bt_sum_member: "bt_get m k = Some v \<Longrightarrow> f v \<le> bt_sum f m"
  using bt_sum_remove [of f m k] by simp

lemma bt_sum_zero: "bt_sum f m = 0 \<longleftrightarrow> (\<forall>k v. bt_get m k = Some v \<longrightarrow> f v = 0)"
  by (auto simp: bt_sum_def bt_values_iff)

lemma bt_sum_cong: "(\<And>k v. bt_get m k = Some v \<Longrightarrow> f v = g v) \<Longrightarrow> bt_sum f m = bt_sum g m"
  by (auto simp: bt_sum_def bt_values_iff intro!: arg_cong [where f = sum_list] map_cong)

lemma bt_len_sum: "bt_len m = bt_sum (\<lambda>_. 1) m"
  by (simp add: bt_len_def bt_sum_def bt_values_def comp_def sum_list_triv)

lemma bt_sum_le: "(\<And>v. f v \<le> g v) \<Longrightarrow> bt_sum f m \<le> bt_sum g m"
  by (simp add: bt_sum_set sum_mono)

end
