(* ===== verification/Admission.thy ===== *)
theory Admission
  imports Scaler BTree_Sum "HOL-Library.Product_Lexorder"
begin

text \<open>
  \<open>crates/application/src/services/admission/state.rs\<close>: the admission state machine, that is
  the capacity ledger, the fair bounded queue, the autoscaler gate, the start-rate limiter and
  the circuit breakers behind one lock.  An operation is a function from the state to its
  result and the next state.

  Maps are \<open>btreemap\<close>s.  The source iterates three \<open>HashMap\<close>s whose order is unspecified; the
  \<open>host\<close> carries the order as a parameter, together with the floating-point unit.  Indexing a
  map at a missing key panics in the source and is \<open>the None\<close> here; the ledger invariant shows
  that it never happens.
\<close>

section \<open>Data\<close>

type_synonym WaiterId = nat
type_synonym ReservationId = nat

record host =
  host_fpu :: fpu
  waiter_order :: "WaiterId list \<Rightarrow> WaiterId list"
  record_order :: "RevisionId list \<Rightarrow> RevisionId list"

datatype RejectReason =
    RR_Capacity | RR_Quota | RR_QueueFull | RR_QueueDeadline | RR_CircuitOpen | RR_Placement
  | RR_FunctionDeleted

fun RejectReason_as_str :: "RejectReason \<Rightarrow> string" where
  "RejectReason_as_str RR_Capacity = ''capacity''"
| "RejectReason_as_str RR_Quota = ''quota''"
| "RejectReason_as_str RR_QueueFull = ''queue_full''"
| "RejectReason_as_str RR_QueueDeadline = ''queue_deadline''"
| "RejectReason_as_str RR_CircuitOpen = ''circuit_open''"
| "RejectReason_as_str RR_Placement = ''placement''"
| "RejectReason_as_str RR_FunctionDeleted = ''function_deleted''"

text \<open>The derived order is the order of declaration.\<close>

fun reject_index :: "RejectReason \<Rightarrow> nat" where
  "reject_index RR_Capacity = 0"
| "reject_index RR_Quota = 1"
| "reject_index RR_QueueFull = 2"
| "reject_index RR_QueueDeadline = 3"
| "reject_index RR_CircuitOpen = 4"
| "reject_index RR_Placement = 5"
| "reject_index RR_FunctionDeleted = 6"

lemma reject_index_inject: "reject_index a = reject_index b \<longleftrightarrow> a = b"
  by (cases a; cases b) simp_all

instantiation RejectReason :: linorder
begin

definition less_eq_RejectReason :: "RejectReason \<Rightarrow> RejectReason \<Rightarrow> bool" where
  "a \<le> b \<longleftrightarrow> reject_index a \<le> reject_index b"

definition less_RejectReason :: "RejectReason \<Rightarrow> RejectReason \<Rightarrow> bool" where
  "a < b \<longleftrightarrow> reject_index a < reject_index b"

instance
  by standard (auto simp: less_eq_RejectReason_def less_RejectReason_def reject_index_inject)

end

datatype DrainReason = DR_AliasSwitch | DR_FunctionDeleted

fun DrainReason_as_str :: "DrainReason \<Rightarrow> string" where
  "DrainReason_as_str DR_AliasSwitch = ''alias_switch''"
| "DrainReason_as_str DR_FunctionDeleted = ''function_deleted''"

datatype ScaleDown = SD_Idle (idle_since: Timestamp) | SD_Drain (drain_why: string)

datatype KeepReason = KR_NotIdle | KR_Queued | KR_Promised | KR_IdleTtl | KR_Cooldown | KR_MinReady

record Rejection =
  rj_reason :: RejectReason
  rj_message :: string

definition Rejection_new :: "RejectReason \<Rightarrow> string \<Rightarrow> Rejection" where
  "Rejection_new reason message = \<lparr> rj_reason = reason, rj_message = message \<rparr>"

datatype PrestartSkip =
    PS_Satisfied | PS_NotRouted | PS_WaitersFirst | PS_Blocked string | PS_Refused Rejection

record ScaleEvent =
  ev_kind :: string
  ev_reason :: string
  ev_at :: Timestamp

record ScaleRecord =
  sr_tenant :: TenantId
  sr_event :: ScaleEvent
  sr_min_ready :: nat
  sr_max_environments :: nat
  sr_idle_ttl_seconds :: nat
  sr_cooldown_seconds :: nat

definition MAX_SCALE_RECORDS :: nat where
  "MAX_SCALE_RECORDS = 4096"

datatype BlockReason = BR_Pending | BR_Capacity | BR_Quota | BR_StartRate | BR_Scaling | BR_Probe

fun on_deadline :: "BlockReason \<Rightarrow> RejectReason" where
  "on_deadline BR_Capacity = RR_Capacity"
| "on_deadline BR_Quota = RR_Quota"
| "on_deadline _ = RR_QueueDeadline"

record Ticket =
  tk_tenant :: TenantId
  tk_function :: FunctionId
  tk_revision :: RevisionId
  tk_idle_ttl_seconds :: nat
  tk_scale_down_cooldown_seconds :: nat
  tk_resources :: Resources
  tk_max_environments :: nat
  tk_concurrency_per_environment :: nat
  tk_min_ready :: nat
  tk_payload_bytes :: nat
  tk_deadline :: Timestamp
  tk_required_region :: "string option"
  tk_cold_only :: bool

datatype GrantKind = GK_Cold | GK_Warm

datatype Outcome = Granted ReservationId GrantKind | Rejected Rejection

datatype ResState = RS_Promised | RS_Starting | RS_Busy | RS_Parking | RS_Idle | RS_Draining

definition rs_in_flight :: "ResState \<Rightarrow> bool" where
  "rs_in_flight s \<longleftrightarrow> s = RS_Promised \<or> s = RS_Starting \<or> s = RS_Busy"

definition holds_resources :: "ResState \<Rightarrow> bool" where
  "holds_resources s \<longleftrightarrow> s \<noteq> RS_Promised"

record Reservation =
  rsv_tenant :: TenantId
  rsv_revision :: RevisionId
  rsv_resources :: Resources
  rsv_state :: ResState
  rsv_probe :: bool

type_synonym Counts = "ResState \<Rightarrow> nat"

definition Counts_default :: Counts where
  "Counts_default = (\<lambda>_. 0)"

definition c_inc :: "Counts \<Rightarrow> ResState \<Rightarrow> Counts" where
  "c_inc c s = c(s := c s + 1)"

definition c_dec :: "Counts \<Rightarrow> ResState \<Rightarrow> Counts" where
  "c_dec c s = c(s := c s - 1)"

definition c_in_flight :: "Counts \<Rightarrow> nat" where
  "c_in_flight c = c RS_Promised + c RS_Starting + c RS_Busy"

definition c_is_empty :: "Counts \<Rightarrow> bool" where
  "c_is_empty c \<longleftrightarrow>
     list_all (\<lambda>s. c s = 0) [RS_Promised, RS_Starting, RS_Busy, RS_Parking, RS_Idle, RS_Draining]"

definition c_provisioned :: "Counts \<Rightarrow> nat" where
  "c_provisioned c = c RS_Starting + c RS_Busy + c RS_Idle + c RS_Parking"

record RevisionEntry =
  re_tenant :: TenantId
  re_max_environments :: nat
  re_concurrency_per_environment :: nat
  re_min_ready :: nat
  re_idle_ttl_seconds :: nat
  re_cooldown_seconds :: nat
  re_last_scale_up :: "Timestamp option"
  re_counts :: Counts
  re_queued :: nat
  re_stats :: DemandStats
  re_breaker :: CircuitBreaker

record TenantQuota =
  tq_max_concurrency :: "nat option"
  tq_max_queue :: "nat option"
  tq_weight :: nat
  tq_required_region :: "string option"

record TenantEntry =
  te_quota :: TenantQuota
  te_in_flight :: nat
  te_queue :: "WaiterId list"
  te_queued_bytes :: nat
  te_last_served :: nat
  te_grants :: nat

record Waiter =
  wt_ticket :: Ticket
  wt_enqueued_at :: Timestamp
  wt_blocked :: BlockReason
  wt_coalesced :: bool

record AdmissionCounters =
  ac_arrivals :: nat
  ac_grants_cold :: nat
  ac_grants_warm :: nat
  ac_coalesced_waits :: nat
  ac_starts_avoided :: nat
  ac_start_successes :: nat
  ac_start_failures :: nat
  ac_breaker_opens :: nat
  ac_scale_events :: "(string \<times> string, nat) btreemap"

definition AdmissionCounters_default :: AdmissionCounters where
  "AdmissionCounters_default = \<lparr> ac_arrivals = 0, ac_grants_cold = 0, ac_grants_warm = 0,
     ac_coalesced_waits = 0, ac_starts_avoided = 0, ac_start_successes = 0,
     ac_start_failures = 0, ac_breaker_opens = 0, ac_scale_events = bt_empty \<rparr>"

text \<open>\<open>config.rs\<close>: the node and the tenant quotas.\<close>

record NodeConfig =
  nc_name :: string
  nc_region :: "string option"
  nc_cpu_millis :: "nat option"
  nc_memory_mib :: "nat option"
  nc_ephemeral_storage_mib :: "nat option"
  nc_vmm_overhead_memory_mib :: nat
  nc_bridge_overhead_memory_mib :: nat
  nc_overhead_cpu_millis :: nat
  nc_overhead_storage_mib :: nat

definition NodeConfig_default :: NodeConfig where
  "NodeConfig_default = \<lparr> nc_name = ''local'', nc_region = None, nc_cpu_millis = None,
     nc_memory_mib = None, nc_ephemeral_storage_mib = None, nc_vmm_overhead_memory_mib = 16,
     nc_bridge_overhead_memory_mib = 8, nc_overhead_cpu_millis = 0, nc_overhead_storage_mib = 0 \<rparr>"

definition nc_overhead :: "NodeConfig \<Rightarrow> Resources" where
  "nc_overhead n =
     \<lparr> res_cpu_millis = nc_overhead_cpu_millis n,
       res_memory_mib = sat_add64 (nc_vmm_overhead_memory_mib n) (nc_bridge_overhead_memory_mib n),
       res_ephemeral_storage_mib = nc_overhead_storage_mib n \<rparr>"

record TenantQuotaConfig =
  qc_max_concurrency :: "nat option"
  qc_max_queue :: "nat option"
  qc_weight :: "nat option"
  qc_required_region :: "string option"

type_synonym TenantQuotaEntry = "TenantId \<times> TenantQuotaConfig"

record AdmissionSettings =
  as_node :: NodeConfig
  as_max_concurrency :: nat
  as_max_queue :: nat
  as_max_queue_bytes :: nat
  as_queue_timeout_seconds :: nat
  as_tenant_defaults :: TenantQuotaConfig
  as_tenants :: "TenantQuotaEntry list"
  as_start_rate_per_second :: nat
  as_start_burst :: nat
  as_breaker_threshold :: nat
  as_breaker_cooldown_seconds :: nat
  as_rate_window_seconds :: nat

record AdmissionState =
  ad_settings :: AdmissionSettings
  ad_capacity :: NodeCapacity
  ad_overhead :: Resources
  ad_tenant_quotas :: "(TenantId, TenantQuota) btreemap"
  ad_reserved :: Resources
  ad_counts :: Counts
  ad_reservations :: "(ReservationId, Reservation) btreemap"
  ad_revisions :: "(RevisionId, RevisionEntry) btreemap"
  ad_tenants :: "(TenantId, TenantEntry) btreemap"
  ad_waiters :: "(WaiterId, Waiter) btreemap"
  ad_queued :: nat
  ad_queued_bytes :: nat
  ad_bucket :: TokenBucket
  ad_next_id :: nat
  ad_serve_seq :: nat
  ad_outbox :: "(WaiterId \<times> Outcome) list"
  ad_eviction_requested :: bool
  ad_evictions :: nat
  ad_rejections :: "(RejectReason, nat) btreemap"
  ad_routed :: "RevisionId btreeset"
  ad_drains :: "(RevisionId, DrainReason) btreemap"
  ad_scale_records :: "(RevisionId, ScaleRecord) btreemap"
  ad_counters :: AdmissionCounters

section \<open>Construction\<close>

definition quota_of :: "TenantQuotaConfig \<Rightarrow> TenantQuota" where
  "quota_of c = \<lparr> tq_max_concurrency = qc_max_concurrency c, tq_max_queue = qc_max_queue c,
     tq_weight = max (case qc_weight c of None \<Rightarrow> 1 | Some w \<Rightarrow> w) 1,
     tq_required_region = qc_required_region c \<rparr>"

definition opt_or :: "'a option \<Rightarrow> 'a option \<Rightarrow> 'a option" where
  "opt_or a b = (case a of None \<Rightarrow> b | Some x \<Rightarrow> Some x)"

definition quota_entry :: "TenantQuota \<Rightarrow> TenantQuotaConfig \<Rightarrow> TenantQuota" where
  "quota_entry defaults c =
     \<lparr> tq_max_concurrency = opt_or (qc_max_concurrency c) (tq_max_concurrency defaults),
       tq_max_queue = opt_or (qc_max_queue c) (tq_max_queue defaults),
       tq_weight = max (case qc_weight c of None \<Rightarrow> tq_weight defaults | Some w \<Rightarrow> w) 1,
       tq_required_region = opt_or (qc_required_region c) (tq_required_region defaults) \<rparr>"

definition adm_new :: "AdmissionSettings \<Rightarrow> AdmissionState" where
  "adm_new settings =
     (let defaults = quota_of (as_tenant_defaults settings); node = as_node settings in
      \<lparr> ad_settings = settings,
        ad_capacity = \<lparr> cap_cpu_millis = nc_cpu_millis node, cap_memory_mib = nc_memory_mib node,
                        cap_ephemeral_storage_mib = nc_ephemeral_storage_mib node \<rparr>,
        ad_overhead = nc_overhead node,
        ad_tenant_quotas =
          fold (\<lambda>(t, c). bt_insert t (quota_entry defaults c)) (as_tenants settings) bt_empty,
        ad_reserved = Resources_ZERO, ad_counts = Counts_default, ad_reservations = bt_empty,
        ad_revisions = bt_empty, ad_tenants = bt_empty, ad_waiters = bt_empty, ad_queued = 0,
        ad_queued_bytes = 0,
        ad_bucket = tb_new (as_start_rate_per_second settings) (as_start_burst settings),
        ad_next_id = 0, ad_serve_seq = 0, ad_outbox = [], ad_eviction_requested = False,
        ad_evictions = 0, ad_rejections = bt_empty, ad_routed = bt_empty, ad_drains = bt_empty,
        ad_scale_records = bt_empty, ad_counters = AdmissionCounters_default \<rparr>)"

definition take_outbox :: "AdmissionState \<Rightarrow> (WaiterId \<times> Outcome) list \<times> AdmissionState" where
  "take_outbox s = (ad_outbox s, s\<lparr>ad_outbox := []\<rparr>)"

definition take_evictions :: "AdmissionState \<Rightarrow> nat \<times> AdmissionState" where
  "take_evictions s = (ad_evictions s, s\<lparr>ad_evictions := 0\<rparr>)"

definition is_queued :: "WaiterId \<Rightarrow> AdmissionState \<Rightarrow> bool" where
  "is_queued i s = bt_contains_key (ad_waiters s) i"

definition peek_next_waiter_id :: "AdmissionState \<Rightarrow> WaiterId" where
  "peek_next_waiter_id s = ad_next_id s + 1"

definition quota_for :: "AdmissionState \<Rightarrow> TenantId \<Rightarrow> TenantQuota" where
  "quota_for s t =
     (case bt_get (ad_tenant_quotas s) t of
        Some q \<Rightarrow> q
      | None \<Rightarrow> quota_of (as_tenant_defaults (ad_settings s)))"

text \<open>\<open>tenant_entry\<close> and \<open>revision_entry\<close> hand out a mutable entry, created when missing; here
  they take the update that follows.\<close>

definition new_tenant_entry :: "TenantQuota \<Rightarrow> TenantEntry" where
  "new_tenant_entry q = \<lparr> te_quota = q, te_in_flight = 0, te_queue = [], te_queued_bytes = 0,
     te_last_served = 0, te_grants = 0 \<rparr>"

definition tenant_entry ::
  "TenantId \<Rightarrow> (TenantEntry \<Rightarrow> TenantEntry) \<Rightarrow> AdmissionState \<Rightarrow> AdmissionState" where
  "tenant_entry t f s =
     (let e = (case bt_get (ad_tenants s) t of
                 Some e \<Rightarrow> e | None \<Rightarrow> new_tenant_entry (quota_for s t))
      in s\<lparr>ad_tenants := bt_insert t (f e) (ad_tenants s)\<rparr>)"

definition new_revision_entry :: "AdmissionSettings \<Rightarrow> Ticket \<Rightarrow> RevisionEntry" where
  "new_revision_entry settings t =
     \<lparr> re_tenant = tk_tenant t, re_max_environments = tk_max_environments t,
       re_concurrency_per_environment = tk_concurrency_per_environment t,
       re_min_ready = tk_min_ready t, re_idle_ttl_seconds = tk_idle_ttl_seconds t,
       re_cooldown_seconds = tk_scale_down_cooldown_seconds t, re_last_scale_up = None,
       re_counts = Counts_default, re_queued = 0, re_stats = DemandStats_default,
       re_breaker = cb_new (as_breaker_threshold settings) (as_breaker_cooldown_seconds settings) \<rparr>"

definition refreshed_entry :: "Ticket \<Rightarrow> RevisionEntry \<Rightarrow> RevisionEntry" where
  "refreshed_entry t e =
     e\<lparr>re_max_environments := max (tk_max_environments t) 1,
       re_concurrency_per_environment := max (tk_concurrency_per_environment t) 1,
       re_min_ready := tk_min_ready t, re_idle_ttl_seconds := tk_idle_ttl_seconds t,
       re_cooldown_seconds := tk_scale_down_cooldown_seconds t\<rparr>"

definition revision_entry ::
  "Ticket \<Rightarrow> (RevisionEntry \<Rightarrow> RevisionEntry) \<Rightarrow> AdmissionState \<Rightarrow> AdmissionState" where
  "revision_entry t f s =
     (let e = (case bt_get (ad_revisions s) (tk_revision t) of
                 Some e \<Rightarrow> e | None \<Rightarrow> new_revision_entry (ad_settings s) t)
      in s\<lparr>ad_revisions := bt_insert (tk_revision t) (f (refreshed_entry t e)) (ad_revisions s)\<rparr>)"

text \<open>\<open>revisions.get_mut\<close> followed by an update of the entry, if there is one.\<close>

definition upd_revision ::
  "RevisionId \<Rightarrow> (RevisionEntry \<Rightarrow> RevisionEntry) \<Rightarrow> AdmissionState \<Rightarrow> AdmissionState" where
  "upd_revision r f s =
     (case bt_get (ad_revisions s) r of
        None \<Rightarrow> s
      | Some e \<Rightarrow> s\<lparr>ad_revisions := bt_insert r (f e) (ad_revisions s)\<rparr>)"

definition next_id :: "AdmissionState \<Rightarrow> AdmissionState" where
  "next_id s = s\<lparr>ad_next_id := ad_next_id s + 1\<rparr>"

section \<open>Scale records and rejection counters\<close>

fun min_by_key :: "('a \<Rightarrow> int) \<Rightarrow> 'a list \<Rightarrow> 'a option" where
  "min_by_key f [] = None"
| "min_by_key f (x # xs) =
     (case min_by_key f xs of None \<Rightarrow> Some x | Some y \<Rightarrow> if f y < f x then Some y else Some x)"

definition bump :: "'k::linorder \<Rightarrow> ('k, nat) btreemap \<Rightarrow> ('k, nat) btreemap" where
  "bump k m = bt_insert k (case bt_get m k of None \<Rightarrow> 1 | Some n \<Rightarrow> n + 1) m"

definition oldest_record :: "host \<Rightarrow> AdmissionState \<Rightarrow> RevisionId option" where
  "oldest_record h s =
     min_by_key (\<lambda>r. case bt_get (ad_scale_records s) r of
                       Some rec \<Rightarrow> ev_at (sr_event rec) | None \<Rightarrow> 0)
       (filter (\<lambda>r. \<not> bt_contains_key (ad_revisions s) r)
          (record_order h (bt_keys (ad_scale_records s))))"

definition record_scale ::
  "host \<Rightarrow> RevisionId \<Rightarrow> string \<Rightarrow> string \<Rightarrow> Timestamp \<Rightarrow> AdmissionState \<Rightarrow> AdmissionState" where
  "record_scale h revision kind reason now s0 =
     (let s = s0\<lparr>ad_counters := (ad_counters s0)\<lparr>ac_scale_events :=
                   bump (kind, reason) (ac_scale_events (ad_counters s0))\<rparr>\<rparr>;
          event = \<lparr> ev_kind = kind, ev_reason = reason, ev_at = now \<rparr>
      in case bt_get (ad_revisions s) revision of
           None \<Rightarrow>
             (case bt_get (ad_scale_records s) revision of
                None \<Rightarrow> s
              | Some rec \<Rightarrow> s\<lparr>ad_scale_records :=
                  bt_insert revision (rec\<lparr>sr_event := event\<rparr>) (ad_scale_records s)\<rparr>)
         | Some e \<Rightarrow>
             let rec = \<lparr> sr_tenant = re_tenant e, sr_event = event, sr_min_ready = re_min_ready e,
                         sr_max_environments = re_max_environments e,
                         sr_idle_ttl_seconds = re_idle_ttl_seconds e,
                         sr_cooldown_seconds = re_cooldown_seconds e \<rparr>;
                 kept = (if bt_len (ad_scale_records s) \<ge> MAX_SCALE_RECORDS
                            \<and> \<not> bt_contains_key (ad_scale_records s) revision
                         then (case oldest_record h s of
                                 Some r \<Rightarrow> bt_remove r (ad_scale_records s)
                               | None \<Rightarrow> ad_scale_records s)
                         else ad_scale_records s)
             in s\<lparr>ad_scale_records := bt_insert revision rec kept\<rparr>)"

definition reject_count :: "RejectReason \<Rightarrow> AdmissionState \<Rightarrow> AdmissionState" where
  "reject_count reason s = s\<lparr>ad_rejections := bump reason (ad_rejections s)\<rparr>"

definition window :: "AdmissionState \<Rightarrow> real" where
  "window s = of_nat (max (as_rate_window_seconds (ad_settings s)) 1)"

definition function_deleted :: "RevisionId \<Rightarrow> Rejection" where
  "function_deleted revision = Rejection_new RR_FunctionDeleted
     (''the function of revision '' @ as_str revision
      @ '' is being deleted; new work is refused (work already running completes)'')"

definition circuit_open :: "RevisionId \<Rightarrow> Rejection" where
  "circuit_open revision = Rejection_new RR_CircuitOpen
     (''revision '' @ as_str revision
      @ '' failed to start repeatedly; starts are paused (circuit breaker open)'')"

section \<open>The wait queue\<close>

definition remove_waiter :: "WaiterId \<Rightarrow> AdmissionState \<Rightarrow> Waiter option \<times> AdmissionState" where
  "remove_waiter i s =
     (case bt_get (ad_waiters s) i of
        None \<Rightarrow> (None, s)
      | Some w \<Rightarrow>
          let t = wt_ticket w;
              s1 = s\<lparr>ad_waiters := bt_remove i (ad_waiters s)\<rparr>;
              s2 = (case bt_get (ad_tenants s1) (tk_tenant t) of
                      None \<Rightarrow> s1
                    | Some e \<Rightarrow> s1\<lparr>ad_tenants := bt_insert (tk_tenant t)
                        (e\<lparr>te_queue := filter (\<lambda>x. x \<noteq> i) (te_queue e),
                           te_queued_bytes := te_queued_bytes e - tk_payload_bytes t\<rparr>)
                        (ad_tenants s1)\<rparr>);
              s3 = upd_revision (tk_revision t) (\<lambda>e. e\<lparr>re_queued := re_queued e - 1\<rparr>) s2
          in (Some w, s3\<lparr>ad_queued := ad_queued s3 - 1,
                         ad_queued_bytes := ad_queued_bytes s3 - tk_payload_bytes t\<rparr>))"

definition push_outcome :: "WaiterId \<Rightarrow> Outcome \<Rightarrow> AdmissionState \<Rightarrow> AdmissionState" where
  "push_outcome i out s = s\<lparr>ad_outbox := ad_outbox s @ [(i, out)]\<rparr>"

definition num_milliseconds :: "Duration \<Rightarrow> int" where
  "num_milliseconds d = (if d < 0 then - ((- d) div nanos_per_milli) else d div nanos_per_milli)"

definition expired_rejection :: "Waiter \<Rightarrow> Timestamp \<Rightarrow> Rejection" where
  "expired_rejection w now =
     (let reason = on_deadline (wt_blocked w)
      in Rejection_new reason
           (''queue deadline passed after ''
            @ show_nat (nat (max (num_milliseconds (now - wt_enqueued_at w)) 0))
            @ '' ms waiting ('' @ RejectReason_as_str reason @ '')''))"

definition expire_one :: "Timestamp \<Rightarrow> WaiterId \<Rightarrow> AdmissionState \<Rightarrow> AdmissionState" where
  "expire_one now i s =
     (case remove_waiter i s of
        (None, s') \<Rightarrow> s'
      | (Some w, s') \<Rightarrow>
          push_outcome i (Rejected (expired_rejection w now))
            (reject_count (on_deadline (wt_blocked w)) s'))"

definition expired_waiters :: "host \<Rightarrow> Timestamp \<Rightarrow> AdmissionState \<Rightarrow> WaiterId list" where
  "expired_waiters h now s =
     filter (\<lambda>i. case bt_get (ad_waiters s) i of
                   Some w \<Rightarrow> tk_deadline (wt_ticket w) \<le> now | None \<Rightarrow> False)
       (waiter_order h (bt_keys (ad_waiters s)))"

definition expire :: "host \<Rightarrow> Timestamp \<Rightarrow> AdmissionState \<Rightarrow> AdmissionState" where
  "expire h now s = fold (expire_one now) (expired_waiters h now s) s"

section \<open>The scheduler\<close>

datatype Eval = E_Grant GrantKind | E_Reject Rejection | E_Blocked BlockReason bool

text \<open>The part of \<open>evaluate\<close> after the autoscaler gate: node resources and the start rate.\<close>

definition evaluate_start ::
  "host \<Rightarrow> Ticket \<Rightarrow> Timestamp \<Rightarrow> AdmissionState \<Rightarrow> Eval \<times> AdmissionState" where
  "evaluate_start h t now s =
     (if \<not> admits (ad_capacity s) (res_plus (ad_reserved s) (tk_resources t))
      then (E_Blocked BR_Capacity True,
            if ad_counts s RS_Idle > 0 \<and> \<not> ad_eviction_requested s
            then s\<lparr>ad_eviction_requested := True, ad_evictions := ad_evictions s + 1\<rparr> else s)
      else
        let (ok, b) = tb_available (host_fpu h) (ad_bucket s) now;
            s' = s\<lparr>ad_bucket := b\<rparr>
        in if \<not> ok then (E_Blocked BR_StartRate True, s') else (E_Grant GK_Cold, s'))"

definition desired_for ::
  "host \<Rightarrow> RevisionEntry \<Rightarrow> nat option \<Rightarrow> Timestamp \<Rightarrow> AdmissionState \<Rightarrow> nat" where
  "desired_for h e tenant_max now s =
     desired_environments (host_fpu h)
       \<lparr> di_arrival_rate = ds_arrival_rate (host_fpu h) (re_stats e) now (window s),
         di_avg_duration_seconds = (case ds_avg_duration (re_stats e) of None \<Rightarrow> 0 | Some d \<Rightarrow> d),
         di_in_flight = c_in_flight (re_counts e), di_backlog = re_queued e,
         di_concurrency_per_environment = re_concurrency_per_environment e,
         di_min_ready = re_min_ready e,
         di_max_environments = (case tenant_max of
            None \<Rightarrow> re_max_environments e
          | Some m \<Rightarrow> min (re_max_environments e) (m mod 2 ^ 32)) \<rparr>"

definition evaluate ::
  "host \<Rightarrow> WaiterId \<Rightarrow> Timestamp \<Rightarrow> BlockReason option \<Rightarrow> AdmissionState \<Rightarrow> Eval \<times> AdmissionState" where
  "evaluate h i now node_block s =
     (case bt_get (ad_waiters s) i of
        None \<Rightarrow> (E_Blocked BR_Pending False, s)
      | Some w \<Rightarrow>
          let t = wt_ticket w in
          if bt_get (ad_drains s) (tk_revision t) = Some DR_FunctionDeleted
          then (E_Reject (function_deleted (tk_revision t)), s)
          else
            let tenant = the (bt_get (ad_tenants s) (tk_tenant t));
                tenant_max = tq_max_concurrency (te_quota tenant)
            in case bt_get (ad_revisions s) (tk_revision t) of
                 None \<Rightarrow> (E_Blocked BR_Pending False, s)
               | Some e0 \<Rightarrow>
                   let (gate, b) = cb_gate (re_breaker e0) now;
                       e = e0\<lparr>re_breaker := b\<rparr>;
                       s1 = s\<lparr>ad_revisions := bt_insert (tk_revision t) e (ad_revisions s)\<rparr>
                   in if gate = BG_Reject then (E_Reject (circuit_open (tk_revision t)), s1)
                      else if opt_is_some_and (\<lambda>m. te_in_flight tenant \<ge> m) tenant_max
                              \<or> c_in_flight (re_counts e) \<ge> re_max_environments e
                      then (E_Blocked BR_Quota False, s1)
                      else if c_in_flight (ad_counts s) \<ge> as_max_concurrency (ad_settings s)
                      then (E_Blocked BR_Capacity True, s1)
                      else if \<not> tk_cold_only t \<and> re_counts e RS_Idle > re_counts e RS_Promised
                      then (E_Grant GK_Warm, s1)
                      else case node_block of
                             Some block \<Rightarrow> (E_Blocked block False, s1)
                           | None \<Rightarrow>
                               if gate = BG_Wait then (E_Blocked BR_Probe False, s1)
                               else if c_provisioned (re_counts e) \<ge> desired_for h e tenant_max now s1
                               then (E_Blocked BR_Scaling False, s1)
                               else evaluate_start h t now s1)"

section \<open>Reservations\<close>

definition account :: "Reservation \<Rightarrow> bool \<Rightarrow> AdmissionState \<Rightarrow> AdmissionState" where
  "account r add s =
     (let st = rsv_state r;
          s1 = s\<lparr>ad_counts := (if add then c_inc (ad_counts s) st else c_dec (ad_counts s) st)\<rparr>;
          s2 = (if holds_resources st
                then s1\<lparr>ad_reserved := (if add then res_plus (ad_reserved s1) (rsv_resources r)
                                         else res_minus (ad_reserved s1) (rsv_resources r))\<rparr>
                else s1);
          s3 = (if rs_in_flight st
                then tenant_entry (rsv_tenant r) (\<lambda>e. e\<lparr>te_in_flight :=
                       (if add then te_in_flight e + 1 else te_in_flight e - 1)\<rparr>) s2
                else s2)
      in upd_revision (rsv_revision r) (\<lambda>e. e\<lparr>re_counts :=
           (if add then c_inc (re_counts e) st else c_dec (re_counts e) st)\<rparr>) s3)"

definition insert_reservation ::
  "ReservationId \<Rightarrow> Reservation \<Rightarrow> AdmissionState \<Rightarrow> AdmissionState" where
  "insert_reservation i r s =
     (let s' = account r True s in s'\<lparr>ad_reservations := bt_insert i r (ad_reservations s')\<rparr>)"

definition set_state :: "ReservationId \<Rightarrow> ResState \<Rightarrow> AdmissionState \<Rightarrow> bool \<times> AdmissionState" where
  "set_state i to s =
     (case bt_get (ad_reservations s) i of
        None \<Rightarrow> (False, s)
      | Some r \<Rightarrow>
          if rsv_state r = to then (True, s)
          else
            let r' = r\<lparr>rsv_state := to\<rparr>;
                s' = account r' True (account r False s)
            in (True, s'\<lparr>ad_reservations := bt_insert i r' (ad_reservations s')\<rparr>))"

text \<open>The cold branch of \<open>grant\<close>: the token, the probe and the scale record.\<close>

definition grant_cold :: "host \<Rightarrow> Ticket \<Rightarrow> Timestamp \<Rightarrow> AdmissionState \<Rightarrow> bool \<times> AdmissionState" where
  "grant_cold h t now s =
     (let s1 = s\<lparr>ad_bucket := snd (tb_take (host_fpu h) (ad_bucket s) now)\<rparr>;
          e = the (bt_get (ad_revisions s1) (tk_revision t));
          (gate, b) = cb_gate (re_breaker e) now;
          probe = (gate = BG_Probe);
          b' = (if probe then cb_probe_started b else b);
          kind = (if c_provisioned (re_counts e) = 0 then ''activation'' else ''scale_up'');
          s2 = s1\<lparr>ad_revisions := bt_insert (tk_revision t)
                     (e\<lparr>re_breaker := b', re_last_scale_up := Some now\<rparr>) (ad_revisions s1)\<rparr>
      in (probe, record_scale h (tk_revision t) kind ''backlog'' now s2))"

definition count_grant :: "Waiter \<Rightarrow> GrantKind \<Rightarrow> AdmissionCounters \<Rightarrow> AdmissionCounters" where
  "count_grant w kind c =
     (let c1 = (case kind of
                  GK_Cold \<Rightarrow> c\<lparr>ac_grants_cold := ac_grants_cold c + 1\<rparr>
                | GK_Warm \<Rightarrow> c\<lparr>ac_grants_warm := ac_grants_warm c + 1\<rparr>)
      in if wt_coalesced w
         then c1\<lparr>ac_coalesced_waits := ac_coalesced_waits c1 + 1,
                 ac_starts_avoided := ac_starts_avoided c1 + (if kind = GK_Warm then 1 else 0)\<rparr>
         else c1)"

definition grant ::
  "host \<Rightarrow> WaiterId \<Rightarrow> GrantKind \<Rightarrow> Timestamp \<Rightarrow> AdmissionState \<Rightarrow> AdmissionState" where
  "grant h i kind now s0 =
     (case remove_waiter i s0 of
        (None, s) \<Rightarrow> s
      | (Some w, s) \<Rightarrow>
          let t = wt_ticket w;
              s1 = s\<lparr>ad_counters := count_grant w kind (ad_counters s)\<rparr>;
              (probe, s2) = (case kind of
                               GK_Warm \<Rightarrow> (False, s1) | GK_Cold \<Rightarrow> grant_cold h t now s1);
              s3 = next_id s2;
              rid = ad_next_id s3;
              s4 = insert_reservation rid
                     \<lparr> rsv_tenant = tk_tenant t, rsv_revision = tk_revision t,
                       rsv_resources = tk_resources t,
                       rsv_state = (case kind of GK_Warm \<Rightarrow> RS_Promised | GK_Cold \<Rightarrow> RS_Starting),
                       rsv_probe = probe \<rparr> s3;
              s5 = s4\<lparr>ad_serve_seq := ad_serve_seq s4 + 1\<rparr>;
              s6 = tenant_entry (tk_tenant t)
                     (\<lambda>e. e\<lparr>te_last_served := ad_serve_seq s5, te_grants := te_grants e + 1\<rparr>) s5
          in push_outcome i (Granted rid kind) s6)"

definition note_block :: "WaiterId \<Rightarrow> BlockReason \<Rightarrow> AdmissionState \<Rightarrow> AdmissionState" where
  "note_block i reason s =
     (case bt_get (ad_waiters s) i of
        None \<Rightarrow> s
      | Some w \<Rightarrow> s\<lparr>ad_waiters := bt_insert i
          (w\<lparr>wt_blocked := reason, wt_coalesced := wt_coalesced w \<or> reason = BR_Scaling\<rparr>)
          (ad_waiters s)\<rparr>)"

text \<open>Tenants with waiters, the least attained share first, then the least recently served.\<close>

definition tenant_share :: "TenantEntry \<Rightarrow> nat" where
  "tenant_share e = sat_mul64 (te_in_flight e) 1000000 div tq_weight (te_quota e)"

definition fair_order :: "AdmissionState \<Rightarrow> TenantId list" where
  "fair_order s =
     map (\<lambda>(_, _, t). t)
       (sort (map (\<lambda>(t, e). (tenant_share e, te_last_served e, t))
          (filter (\<lambda>(_, e). te_queue e \<noteq> []) (bt_entries (ad_tenants s)))))"

type_synonym decision = "(WaiterId \<times> (Rejection + GrantKind)) option"

fun scan_queue ::
  "host \<Rightarrow> Timestamp \<Rightarrow> WaiterId list \<Rightarrow> BlockReason option \<Rightarrow> AdmissionState
     \<Rightarrow> decision \<times> BlockReason option \<times> AdmissionState" where
  "scan_queue h now [] node_block s = (None, node_block, s)"
| "scan_queue h now (i # ids) node_block s =
     (case evaluate h i now node_block s of
        (E_Grant kind, s') \<Rightarrow> (Some (i, Inr kind), node_block, s')
      | (E_Reject r, s') \<Rightarrow> (Some (i, Inl r), node_block, s')
      | (E_Blocked reason node_wide, s') \<Rightarrow>
          scan_queue h now ids
            (if node_wide \<and> node_block = None then Some reason else node_block)
            (note_block i reason s'))"

fun scan_tenants ::
  "host \<Rightarrow> Timestamp \<Rightarrow> TenantId list \<Rightarrow> BlockReason option \<Rightarrow> AdmissionState
     \<Rightarrow> decision \<times> AdmissionState" where
  "scan_tenants h now [] node_block s = (None, s)"
| "scan_tenants h now (t # ts) node_block s =
     (case scan_queue h now (te_queue (the (bt_get (ad_tenants s) t))) node_block s of
        (Some d, _, s') \<Rightarrow> (Some d, s')
      | (None, node_block', s') \<Rightarrow> scan_tenants h now ts node_block' s')"

definition pump_decision :: "host \<Rightarrow> Timestamp \<Rightarrow> AdmissionState \<Rightarrow> decision \<times> AdmissionState" where
  "pump_decision h now s =
     (let s1 = expire h now s in scan_tenants h now (fair_order s1) None s1)"

definition pump_apply ::
  "host \<Rightarrow> Timestamp \<Rightarrow> WaiterId \<Rightarrow> Rejection + GrantKind \<Rightarrow> AdmissionState \<Rightarrow> AdmissionState" where
  "pump_apply h now i d s =
     (case d of
        Inr kind \<Rightarrow> grant h i kind now s
      | Inl rejection \<Rightarrow>
          push_outcome i (Rejected rejection)
            (reject_count (rj_reason rejection) (snd (remove_waiter i s))))"

text \<open>
  The scheduler terminates: a round that decides something removes a waiter, and nothing in a
  round adds one.
\<close>

lemma upd_revision_sel [simp]:
  "ad_waiters (upd_revision r f s) = ad_waiters s" "ad_tenants (upd_revision r f s) = ad_tenants s"
  "ad_reservations (upd_revision r f s) = ad_reservations s"
  "ad_counts (upd_revision r f s) = ad_counts s" "ad_reserved (upd_revision r f s) = ad_reserved s"
  "ad_queued (upd_revision r f s) = ad_queued s"
  "ad_queued_bytes (upd_revision r f s) = ad_queued_bytes s"
  "ad_next_id (upd_revision r f s) = ad_next_id s" "ad_settings (upd_revision r f s) = ad_settings s"
  "ad_capacity (upd_revision r f s) = ad_capacity s" "ad_outbox (upd_revision r f s) = ad_outbox s"
  "ad_tenant_quotas (upd_revision r f s) = ad_tenant_quotas s"
  "ad_drains (upd_revision r f s) = ad_drains s"
  by (simp_all add: upd_revision_def split: option.split)

lemma tenant_entry_sel [simp]:
  "ad_waiters (tenant_entry t f s) = ad_waiters s" "ad_revisions (tenant_entry t f s) = ad_revisions s"
  "ad_reservations (tenant_entry t f s) = ad_reservations s"
  "ad_counts (tenant_entry t f s) = ad_counts s" "ad_reserved (tenant_entry t f s) = ad_reserved s"
  "ad_queued (tenant_entry t f s) = ad_queued s"
  "ad_queued_bytes (tenant_entry t f s) = ad_queued_bytes s"
  "ad_next_id (tenant_entry t f s) = ad_next_id s" "ad_settings (tenant_entry t f s) = ad_settings s"
  "ad_capacity (tenant_entry t f s) = ad_capacity s" "ad_outbox (tenant_entry t f s) = ad_outbox s"
  "ad_tenant_quotas (tenant_entry t f s) = ad_tenant_quotas s"
  "ad_drains (tenant_entry t f s) = ad_drains s"
  by (simp_all add: tenant_entry_def Let_def)

lemma record_scale_sel [simp]:
  "ad_waiters (record_scale h r k why now s) = ad_waiters s"
  "ad_revisions (record_scale h r k why now s) = ad_revisions s"
  "ad_tenants (record_scale h r k why now s) = ad_tenants s"
  "ad_reservations (record_scale h r k why now s) = ad_reservations s"
  "ad_counts (record_scale h r k why now s) = ad_counts s"
  "ad_reserved (record_scale h r k why now s) = ad_reserved s"
  "ad_queued (record_scale h r k why now s) = ad_queued s"
  "ad_queued_bytes (record_scale h r k why now s) = ad_queued_bytes s"
  "ad_next_id (record_scale h r k why now s) = ad_next_id s"
  "ad_settings (record_scale h r k why now s) = ad_settings s"
  "ad_capacity (record_scale h r k why now s) = ad_capacity s"
  "ad_outbox (record_scale h r k why now s) = ad_outbox s"
  "ad_tenant_quotas (record_scale h r k why now s) = ad_tenant_quotas s"
  "ad_drains (record_scale h r k why now s) = ad_drains s"
  "ad_bucket (record_scale h r k why now s) = ad_bucket s"
  by (simp_all add: record_scale_def Let_def split: option.split)

lemmas light_defs = push_outcome_def reject_count_def next_id_def

lemma remove_waiter_waiters [simp]:
  "ad_waiters (snd (remove_waiter i s)) = bt_remove i (ad_waiters s)"
  by (simp add: remove_waiter_def Let_def bt_remove_None split: option.split)

lemma remove_waiter_None: "fst (remove_waiter i s) = None \<longleftrightarrow> bt_get (ad_waiters s) i = None"
  by (simp add: remove_waiter_def Let_def split: option.split)

lemma account_waiters [simp]: "ad_waiters (account r add s) = ad_waiters s"
  by (simp add: account_def Let_def)

lemma insert_reservation_waiters [simp]: "ad_waiters (insert_reservation i r s) = ad_waiters s"
  by (simp add: insert_reservation_def Let_def)

lemma expire_one_waiters [simp]:
  "ad_waiters (expire_one now i s) = bt_remove i (ad_waiters s)"
  using remove_waiter_waiters [of i s]
  by (auto simp: expire_one_def light_defs simp del: remove_waiter_waiters
      split: prod.split option.split)

lemma bt_len_remove: "bt_len (bt_remove k m) = bt_len m - (if bt_get m k = None then 0 else 1)"
  using bt_sum_remove [of "\<lambda>_. 1" m k] by (simp add: bt_len_sum split: option.splits)

lemma expire_len: "bt_len (ad_waiters (expire h now s)) \<le> bt_len (ad_waiters s)"
proof -
  have "bt_len (ad_waiters (fold (expire_one now) is s)) \<le> bt_len (ad_waiters s)" for "is"
  proof (induction "is" arbitrary: s)
    case (Cons i "is")
    have "bt_len (ad_waiters (fold (expire_one now) is (expire_one now i s)))
        \<le> bt_len (ad_waiters (expire_one now i s))" by (rule Cons.IH)
    also have "\<dots> \<le> bt_len (ad_waiters s)" by (simp add: bt_len_remove)
    finally show ?case by simp
  qed simp
  then show ?thesis by (simp add: expire_def)
qed

lemma evaluate_waiters: "ad_waiters (snd (evaluate h i now nb s)) = ad_waiters s"
  by (simp add: evaluate_def evaluate_start_def Let_def split: option.split prod.split)

lemma evaluate_decides:
  "fst (evaluate h i now nb s) = E_Grant k \<or> fst (evaluate h i now nb s) = E_Reject r
   \<Longrightarrow> bt_get (ad_waiters s) i \<noteq> None"
  by (rule notI) (simp add: evaluate_def)

definition same_waiters :: "AdmissionState \<Rightarrow> AdmissionState \<Rightarrow> bool" where
  "same_waiters s s' \<longleftrightarrow> set (bt_keys (ad_waiters s')) = set (bt_keys (ad_waiters s))"

lemma note_block_waiters: "same_waiters s (note_block i reason s)"
  by (auto simp: same_waiters_def note_block_def bt_keys_iff split: option.split)

lemma scan_queue_waiters:
  "scan_queue h now ids nb s = (d, nb', s') \<Longrightarrow>
     same_waiters s s' \<and> (\<forall>i x. d = Some (i, x) \<longrightarrow> bt_get (ad_waiters s') i \<noteq> None)"
proof (induction ids arbitrary: nb s)
  case (Cons i ids)
  obtain ev s1 where ev: "evaluate h i now nb s = (ev, s1)" by fastforce
  have w: "ad_waiters s1 = ad_waiters s" using evaluate_waiters [of h i now nb s] ev by simp
  show ?case
  proof (cases ev)
    case (E_Blocked reason nw)
    then have "same_waiters (note_block i reason s1) s'"
      and "\<forall>i x. d = Some (i, x) \<longrightarrow> bt_get (ad_waiters s') i \<noteq> None"
      using Cons.IH [of _ "note_block i reason s1"] Cons.prems ev by auto
    moreover have "same_waiters s (note_block i reason s1)"
      using note_block_waiters [of s1 i reason] by (simp add: same_waiters_def w)
    ultimately show ?thesis by (simp add: same_waiters_def)
  qed (use Cons.prems ev w evaluate_decides [of h i now nb s] in \<open>auto simp: same_waiters_def\<close>)
qed (auto simp: same_waiters_def)

lemma scan_tenants_waiters:
  "scan_tenants h now ts nb s = (d, s') \<Longrightarrow>
     same_waiters s s' \<and> (\<forall>i x. d = Some (i, x) \<longrightarrow> bt_get (ad_waiters s') i \<noteq> None)"
proof (induction ts arbitrary: nb s)
  case (Cons t ts)
  obtain d1 nb1 s1 where q: "scan_queue h now (te_queue (the (bt_get (ad_tenants s) t))) nb s = (d1, nb1, s1)"
    by (metis prod_cases3)
  note one = scan_queue_waiters [OF q]
  show ?case
    using Cons.IH [of nb1 s1] Cons.prems one by (cases d1) (auto simp: q same_waiters_def)
qed (auto simp: same_waiters_def)

lemma same_waiters_len: "same_waiters s s' \<Longrightarrow> bt_len (ad_waiters s') = bt_len (ad_waiters s)"
  by (simp add: same_waiters_def bt_len_sum bt_sum_set)

lemma grant_cold_sel [simp]:
  "ad_waiters (snd (grant_cold h t now s)) = ad_waiters s"
  "ad_tenants (snd (grant_cold h t now s)) = ad_tenants s"
  "ad_reservations (snd (grant_cold h t now s)) = ad_reservations s"
  "ad_counts (snd (grant_cold h t now s)) = ad_counts s"
  "ad_reserved (snd (grant_cold h t now s)) = ad_reserved s"
  "ad_queued (snd (grant_cold h t now s)) = ad_queued s"
  "ad_queued_bytes (snd (grant_cold h t now s)) = ad_queued_bytes s"
  "ad_next_id (snd (grant_cold h t now s)) = ad_next_id s"
  "ad_settings (snd (grant_cold h t now s)) = ad_settings s"
  "ad_capacity (snd (grant_cold h t now s)) = ad_capacity s"
  "ad_outbox (snd (grant_cold h t now s)) = ad_outbox s"
  "ad_tenant_quotas (snd (grant_cold h t now s)) = ad_tenant_quotas s"
  "ad_drains (snd (grant_cold h t now s)) = ad_drains s"
  by (simp_all add: grant_cold_def Let_def split: prod.split)

lemma grant_waiters: "ad_waiters (grant h i kind now s) = bt_remove i (ad_waiters s)"
proof (cases "remove_waiter i s")
  case (Pair w s1)
  have "ad_waiters s1 = bt_remove i (ad_waiters s)"
    using remove_waiter_waiters [of i s] Pair by simp
  then show ?thesis
    by (cases w; cases kind) (simp_all add: grant_def Pair Let_def light_defs case_prod_unfold)
qed

lemma pump_apply_len:
  assumes "bt_get (ad_waiters s) i \<noteq> None"
  shows "bt_len (ad_waiters (pump_apply h now i d s)) < bt_len (ad_waiters s)"
proof -
  have "0 < bt_len (ad_waiters s)"
    using assms bt_sum_member [of "ad_waiters s" i _ "\<lambda>_. 1"] by (auto simp: bt_len_sum)
  moreover have "ad_waiters (pump_apply h now i d s) = bt_remove i (ad_waiters s)"
    by (cases d) (simp_all add: pump_apply_def grant_waiters light_defs)
  ultimately show ?thesis using assms by (simp add: bt_len_remove)
qed

lemma pump_decision_len:
  assumes "pump_decision h now s = (Some (i, d), s')"
  shows "bt_len (ad_waiters (pump_apply h now i d s')) < bt_len (ad_waiters s)"
proof -
  have "same_waiters (expire h now s) s' \<and> bt_get (ad_waiters s') i \<noteq> None"
    using assms scan_tenants_waiters [of h now _ None "expire h now s" "Some (i, d)" s']
    by (auto simp: pump_decision_def Let_def)
  then show ?thesis
    using pump_apply_len [of s' i h now d] same_waiters_len expire_len [of h now s]
    by (metis order.strict_trans2)
qed

function pump :: "host \<Rightarrow> Timestamp \<Rightarrow> AdmissionState \<Rightarrow> AdmissionState" where
  "pump h now s =
     (case pump_decision h now s of
        (None, s') \<Rightarrow> s'
      | (Some (i, d), s') \<Rightarrow> pump h now (pump_apply h now i d s'))"
  by pat_completeness auto

termination pump
  by (relation "measure (\<lambda>(h, now, s). bt_len (ad_waiters s))")
     (auto intro: pump_decision_len dest: sym)

declare pump.simps [simp del]

section \<open>Arrivals\<close>

definition show_option_string :: "string option \<Rightarrow> string" where
  "show_option_string r =
     (case r of None \<Rightarrow> ''no region'' | Some x \<Rightarrow> ''region `'' @ x @ ''`'')"

definition show_resources :: "Resources \<Rightarrow> string" where
  "show_resources r = ''Resources { cpu_millis: '' @ show_nat (res_cpu_millis r)
     @ '', memory_mib: '' @ show_nat (res_memory_mib r)
     @ '', ephemeral_storage_mib: '' @ show_nat (res_ephemeral_storage_mib r) @ '' }''"

definition placement_mismatch :: "AdmissionState \<Rightarrow> Ticket \<Rightarrow> string option" where
  "placement_mismatch s t =
     find (\<lambda>required. nc_region (as_node (ad_settings s)) \<noteq> Some required)
       (concat (map (case_option [] (\<lambda>x. [x]))
          [tq_required_region (quota_for s (tk_tenant t)), tk_required_region t]))"

definition check_static ::
  "Ticket \<Rightarrow> Timestamp \<Rightarrow> AdmissionState \<Rightarrow> (Rejection + unit) \<times> AdmissionState" where
  "check_static t now s =
     (let quota = quota_for s (tk_tenant t); node = as_node (ad_settings s) in
      case placement_mismatch s t of
        Some required \<Rightarrow>
          (Inl (Rejection_new RR_Placement
             (''placement requires region `'' @ required @ ''` but node `'' @ nc_name node
              @ ''` is in '' @ show_option_string (nc_region node)
              @ ''; the constraint is never relaxed'')), s)
      | None \<Rightarrow>
          if bt_get (ad_drains s) (tk_revision t) = Some DR_FunctionDeleted
          then (Inl (function_deleted (tk_revision t)), s)
          else
            let (is_open, s1) =
                  (case bt_get (ad_revisions s) (tk_revision t) of
                     None \<Rightarrow> (False, s)
                   | Some e \<Rightarrow>
                       let (op, b) = cb_is_open (re_breaker e) now
                       in (op, s\<lparr>ad_revisions :=
                                 bt_insert (tk_revision t) (e\<lparr>re_breaker := b\<rparr>) (ad_revisions s)\<rparr>))
            in if is_open then (Inl (circuit_open (tk_revision t)), s1)
               else if \<not> admits (ad_capacity s1) (tk_resources t)
               then (Inl (Rejection_new RR_Capacity
                      (''one environment needs '' @ show_resources (tk_resources t)
                       @ '' including overhead, more than node `'' @ nc_name node @ ''` has'')), s1)
               else if tq_max_concurrency quota = Some 0
               then (Inl (Rejection_new RR_Quota ''tenant quota is zero''), s1)
               else (Inr (), s1))"

definition precheck ::
  "Ticket \<Rightarrow> Timestamp \<Rightarrow> AdmissionState \<Rightarrow> (Rejection + unit) \<times> AdmissionState" where
  "precheck t now s =
     (case check_static t now s of
        (Inl r, s') \<Rightarrow> (Inl r, reject_count (rj_reason r) s')
      | (Inr _, s') \<Rightarrow> (Inr (), s'))"

text \<open>The part of \<open>enqueue\<close> that adds the waiter.\<close>

definition add_waiter ::
  "host \<Rightarrow> Ticket \<Rightarrow> bool \<Rightarrow> Timestamp \<Rightarrow> AdmissionState \<Rightarrow> AdmissionState" where
  "add_waiter h t retry now s =
     (let s1 = revision_entry t (\<lambda>e. e\<lparr>
                 re_stats := (if retry then re_stats e
                              else ds_record_arrival (host_fpu h) (re_stats e) now (window s)),
                 re_queued := re_queued e + 1\<rparr>) s;
          s2 = (if retry then s1
                else s1\<lparr>ad_counters := (ad_counters s1)\<lparr>ac_arrivals := ac_arrivals (ad_counters s1) + 1\<rparr>\<rparr>);
          s3 = next_id s2;
          i = ad_next_id s3;
          s4 = tenant_entry (tk_tenant t) (\<lambda>e. e\<lparr>
                 te_queued_bytes := te_queued_bytes e + tk_payload_bytes t,
                 te_queue := (if retry then i # te_queue e else te_queue e @ [i])\<rparr>) s3
      in s4\<lparr>ad_queued := ad_queued s4 + 1,
             ad_queued_bytes := ad_queued_bytes s4 + tk_payload_bytes t,
             ad_waiters := bt_insert i
               \<lparr> wt_ticket = t, wt_enqueued_at = now, wt_blocked = BR_Pending, wt_coalesced = False \<rparr>
               (ad_waiters s4)\<rparr>)"

definition queue_limit :: "Ticket \<Rightarrow> AdmissionState \<Rightarrow> Rejection option" where
  "queue_limit t s =
     (let e = the (bt_get (ad_tenants s) (tk_tenant t)); settings = ad_settings s in
      if opt_is_some_and (\<lambda>m. length (te_queue e) > m) (tq_max_queue (te_quota e))
      then Some (Rejection_new RR_Quota
             (''the tenant's wait queue (''
              @ show_nat (case tq_max_queue (te_quota e) of None \<Rightarrow> 0 | Some m \<Rightarrow> m)
              @ '' slots) is full''))
      else if ad_queued s > as_max_queue settings
      then Some (Rejection_new RR_QueueFull
             (''no capacity available and the wait queue ('' @ show_nat (as_max_queue settings)
              @ '' slots) is full''))
      else if ad_queued_bytes s > as_max_queue_bytes settings
      then Some (Rejection_new RR_QueueFull
             (''no capacity available and the wait queue holds ''
              @ show_nat (ad_queued_bytes s - tk_payload_bytes t) @ '' of ''
              @ show_nat (as_max_queue_bytes settings) @ '' payload bytes''))
      else None)"

definition enqueue ::
  "host \<Rightarrow> Ticket \<Rightarrow> bool \<Rightarrow> Timestamp \<Rightarrow> AdmissionState \<Rightarrow> (Rejection + WaiterId) \<times> AdmissionState" where
  "enqueue h t retry now s0 =
     (case check_static t now s0 of
        (Inl r, s) \<Rightarrow> (Inl r, reject_count (rj_reason r) s)
      | (Inr _, s) \<Rightarrow>
          let s1 = add_waiter h t retry now s;
              i = ad_next_id s1;
              s2 = pump h now s1
          in if retry \<or> \<not> is_queued i s2 then (Inr i, s2)
             else case queue_limit t s2 of
                    Some rejection \<Rightarrow>
                      (Inl rejection, reject_count (rj_reason rejection) (snd (remove_waiter i s2)))
                  | None \<Rightarrow> (Inr i, s2))"

definition withdraw :: "WaiterId \<Rightarrow> AdmissionState \<Rightarrow> BlockReason option \<times> AdmissionState" where
  "withdraw i s =
     (let (w, s') = remove_waiter i s in (map_option wt_blocked w, s'))"

section \<open>Life of a reservation\<close>

definition ready :: "ReservationId \<Rightarrow> AdmissionState \<Rightarrow> AdmissionState" where
  "ready i s =
     (if map_option rsv_state (bt_get (ad_reservations s) i) = Some RS_Starting
      then snd (set_state i RS_Busy s) else s)"

definition park :: "host \<Rightarrow> ReservationId \<Rightarrow> Timestamp \<Rightarrow> AdmissionState \<Rightarrow> AdmissionState" where
  "park h i now s = pump h now (snd (set_state i RS_Parking s))"

definition parked :: "host \<Rightarrow> ReservationId \<Rightarrow> Timestamp \<Rightarrow> AdmissionState \<Rightarrow> AdmissionState" where
  "parked h i now s = pump h now (snd (set_state i RS_Idle s))"

definition drain :: "host \<Rightarrow> ReservationId \<Rightarrow> Timestamp \<Rightarrow> AdmissionState \<Rightarrow> AdmissionState" where
  "drain h i now s = pump h now (snd (set_state i RS_Draining s))"

definition abandon_probe :: "Reservation \<Rightarrow> AdmissionState \<Rightarrow> AdmissionState" where
  "abandon_probe r s =
     (if rsv_probe r
      then upd_revision (rsv_revision r) (\<lambda>e. e\<lparr>re_breaker := cb_probe_abandoned (re_breaker e)\<rparr>) s
      else s)"

definition forget_revision_if_idle ::
  "host \<Rightarrow> RevisionId \<Rightarrow> Timestamp \<Rightarrow> AdmissionState \<Rightarrow> AdmissionState" where
  "forget_revision_if_idle h revision now s =
     (case bt_get (ad_revisions s) revision of
        None \<Rightarrow> s
      | Some e \<Rightarrow>
          if \<not> (c_is_empty (re_counts e) \<and> re_queued e = 0) then s
          else
            let e' = e\<lparr>re_breaker := cb_tick (re_breaker e) now\<rparr> in
            if cb_state (re_breaker e') = BS_Closed 0
               \<and> ds_arrival_rate (host_fpu h) (re_stats e') now (window s) < f64_round (host_fpu h) (1 / 1000)
            then s\<lparr>ad_revisions := bt_remove revision (ad_revisions s)\<rparr>
            else s\<lparr>ad_revisions := bt_insert revision e' (ad_revisions s)\<rparr>)"

text \<open>\<open>reservations.remove\<close> followed by \<open>account(&r, false)\<close>.\<close>

definition remove_reservation :: "ReservationId \<Rightarrow> Reservation \<Rightarrow> AdmissionState \<Rightarrow> AdmissionState" where
  "remove_reservation i r s =
     account r False (s\<lparr>ad_reservations := bt_remove i (ad_reservations s)\<rparr>)"

definition release ::
  "host \<Rightarrow> ReservationId \<Rightarrow> Timestamp \<Rightarrow> AdmissionState \<Rightarrow> AdmissionState" where
  "release h i now s =
     pump h now
       (case bt_get (ad_reservations s) i of
          None \<Rightarrow> s
        | Some r \<Rightarrow>
            let s1 = abandon_probe r (remove_reservation i r s);
                s2 = (if rsv_state r \<in> {RS_Idle, RS_Draining, RS_Parking}
                      then s1\<lparr>ad_eviction_requested := False\<rparr> else s1)
            in forget_revision_if_idle h (rsv_revision r) now s2)"

definition adopt ::
  "host \<Rightarrow> ReservationId option \<Rightarrow> ReservationId \<Rightarrow> Timestamp \<Rightarrow> AdmissionState \<Rightarrow> AdmissionState" where
  "adopt h holder idle now s =
     (let s1 = (case holder of
                  None \<Rightarrow> s
                | Some held \<Rightarrow>
                    if held = idle then s
                    else case bt_get (ad_reservations s) held of
                           None \<Rightarrow> s
                         | Some r \<Rightarrow> abandon_probe r (remove_reservation held r s))
      in pump h now (snd (set_state idle RS_Busy s1)))"

definition redeem ::
  "host \<Rightarrow> ReservationId \<Rightarrow> Timestamp \<Rightarrow> AdmissionState \<Rightarrow> bool \<times> AdmissionState" where
  "redeem h i now s =
     (case bt_get (ad_reservations s) i of
        None \<Rightarrow> (False, s)
      | Some r \<Rightarrow>
          if rsv_state r \<noteq> RS_Promised then (rsv_state r = RS_Starting, s)
          else
            let fits = admits (ad_capacity s) (res_plus (ad_reserved s) (rsv_resources r)) in
            case bt_get (ad_revisions s) (rsv_revision r) of
              None \<Rightarrow> (False, s)
            | Some e0 \<Rightarrow>
                let (gate, b) = cb_gate (re_breaker e0) now;
                    s1 = s\<lparr>ad_revisions :=
                           bt_insert (rsv_revision r) (e0\<lparr>re_breaker := b\<rparr>) (ad_revisions s)\<rparr>;
                    allowed = (fits \<and> (gate = BG_Allow \<or> gate = BG_Probe));
                    (took, bucket) = (if allowed then tb_take (host_fpu h) (ad_bucket s1) now
                                      else (False, ad_bucket s1));
                    s2 = s1\<lparr>ad_bucket := bucket\<rparr>
                in if allowed \<and> took
                   then
                     let probe = (gate = BG_Probe);
                         s3 = s2\<lparr>ad_revisions := bt_insert (rsv_revision r)
                                (e0\<lparr>re_breaker := (if probe then cb_probe_started b else b),
                                    re_last_scale_up := Some now\<rparr>) (ad_revisions s2)\<rparr>;
                         s4 = record_scale h (rsv_revision r) ''scale_up''
                                ''promised_environment_gone'' now s3;
                         converted = r\<lparr>rsv_state := RS_Starting, rsv_probe := probe\<rparr>;
                         s5 = account converted True (account r False s4)
                     in (True, s5\<lparr>ad_reservations := bt_insert i converted (ad_reservations s5)\<rparr>)
                   else (False, release h i now s2))"

text \<open>Refusing every waiter of a revision at once.\<close>

definition doomed_waiters :: "host \<Rightarrow> RevisionId \<Rightarrow> AdmissionState \<Rightarrow> WaiterId list" where
  "doomed_waiters h revision s =
     filter (\<lambda>i. case bt_get (ad_waiters s) i of
                   Some w \<Rightarrow> tk_revision (wt_ticket w) = revision | None \<Rightarrow> False)
       (waiter_order h (bt_keys (ad_waiters s)))"

definition refuse_waiter :: "Rejection \<Rightarrow> WaiterId \<Rightarrow> AdmissionState \<Rightarrow> AdmissionState" where
  "refuse_waiter rejection i s =
     push_outcome i (Rejected rejection)
       (reject_count (rj_reason rejection) (snd (remove_waiter i s)))"

definition start_result ::
  "host \<Rightarrow> ReservationId \<Rightarrow> bool \<Rightarrow> Timestamp \<Rightarrow> AdmissionState \<Rightarrow> AdmissionState" where
  "start_result h i ok now s =
     (case bt_get (ad_reservations s) i of
        None \<Rightarrow> s
      | Some r \<Rightarrow>
          let revision = rsv_revision r;
              s1 = s\<lparr>ad_reservations := bt_insert i (r\<lparr>rsv_probe := False\<rparr>) (ad_reservations s),
                     ad_counters := (if ok
                       then (ad_counters s)\<lparr>ac_start_successes := ac_start_successes (ad_counters s) + 1\<rparr>
                       else (ad_counters s)\<lparr>ac_start_failures := ac_start_failures (ad_counters s) + 1\<rparr>)\<rparr>
          in case bt_get (ad_revisions s1) revision of
               None \<Rightarrow> s1
             | Some e \<Rightarrow>
                 if ok
                 then pump h now (s1\<lparr>ad_revisions := bt_insert revision
                        (e\<lparr>re_breaker := cb_record_success (re_breaker e)\<rparr>) (ad_revisions s1)\<rparr>)
                 else
                   let (opened, b) = cb_record_failure (re_breaker e) now;
                       s2 = s1\<lparr>ad_revisions := bt_insert revision (e\<lparr>re_breaker := b\<rparr>) (ad_revisions s1)\<rparr>;
                       s3 = (if opened
                             then fold (refuse_waiter (circuit_open revision))
                                    (doomed_waiters h revision s2)
                                    (s2\<lparr>ad_counters := (ad_counters s2)
                                       \<lparr>ac_breaker_opens := ac_breaker_opens (ad_counters s2) + 1\<rparr>\<rparr>)
                             else s2)
                   in pump h now s3)"

definition observe_duration :: "host \<Rightarrow> RevisionId \<Rightarrow> real \<Rightarrow> AdmissionState \<Rightarrow> AdmissionState" where
  "observe_duration h revision seconds s =
     upd_revision revision
       (\<lambda>e. e\<lparr>re_stats := ds_record_duration (host_fpu h) (re_stats e) seconds\<rparr>) s"

section \<open>Scale to zero, pre-starts and drains\<close>

definition set_routed :: "RevisionId btreeset \<Rightarrow> AdmissionState \<Rightarrow> AdmissionState" where
  "set_routed routed s = s\<lparr>ad_routed := routed\<rparr>"

definition is_routed :: "RevisionId \<Rightarrow> AdmissionState \<Rightarrow> bool" where
  "is_routed revision s = bt_contains_key (ad_routed s) revision"

definition begin_drain ::
  "host \<Rightarrow> RevisionId \<Rightarrow> DrainReason \<Rightarrow> Timestamp \<Rightarrow> AdmissionState \<Rightarrow> bool \<times> AdmissionState" where
  "begin_drain h revision reason0 now s =
     (let previous = bt_get (ad_drains s) revision;
          reason = (if previous = Some DR_FunctionDeleted then DR_FunctionDeleted else reason0);
          s1 = s\<lparr>ad_drains := bt_insert revision reason (ad_drains s)\<rparr>;
          started = (previous \<noteq> Some reason);
          s2 = (if started then record_scale h revision ''drain'' (DrainReason_as_str reason) now s1
                else s1)
      in (started,
          if reason = DR_FunctionDeleted
          then pump h now (fold (refuse_waiter (function_deleted revision))
                 (doomed_waiters h revision s2) s2)
          else s2))"

definition end_drain :: "RevisionId \<Rightarrow> AdmissionState \<Rightarrow> bool \<times> AdmissionState" where
  "end_drain revision s =
     (if bt_get (ad_drains s) revision = Some DR_AliasSwitch
      then (True, s\<lparr>ad_drains := bt_remove revision (ad_drains s)\<rparr>) else (False, s))"

definition forget_drain :: "RevisionId \<Rightarrow> AdmissionState \<Rightarrow> AdmissionState" where
  "forget_drain revision s = s\<lparr>ad_drains := bt_remove revision (ad_drains s)\<rparr>"

definition revision_is_empty :: "RevisionId \<Rightarrow> AdmissionState \<Rightarrow> bool" where
  "revision_is_empty revision s =
     opt_is_none_or (\<lambda>e. c_is_empty (re_counts e) \<and> re_queued e = 0) (bt_get (ad_revisions s) revision)"

text \<open>The verdict of \<open>try_scale_down\<close>: why the environment is kept, or the reason recorded for
  ending it.\<close>

definition scale_down_verdict ::
  "Reservation \<Rightarrow> ScaleDown \<Rightarrow> Timestamp \<Rightarrow> AdmissionState \<Rightarrow> KeepReason + string" where
  "scale_down_verdict r how now s =
     (let revision = rsv_revision r;
          drained = bt_contains_key (ad_drains s) revision;
          routed = bt_contains_key (ad_routed s) revision in
      case bt_get (ad_revisions s) revision of
        None \<Rightarrow> Inl KR_NotIdle
      | Some e \<Rightarrow>
          if re_queued e > 0 then Inl KR_Queued
          else if re_counts e RS_Idle \<le> re_counts e RS_Promised then Inl KR_Promised
          else case how of
                 SD_Drain reason \<Rightarrow> Inr reason
               | SD_Idle since \<Rightarrow>
                   if drained
                   then Inr (case bt_get (ad_drains s) revision of
                               None \<Rightarrow> ''drain'' | Some d \<Rightarrow> DrainReason_as_str d)
                   else if now - since < clamped_seconds (re_idle_ttl_seconds e) then Inl KR_IdleTtl
                   else if opt_is_some_and (\<lambda>t. now - t < clamped_seconds (re_cooldown_seconds e))
                             (re_last_scale_up e) then Inl KR_Cooldown
                   else if routed \<and> c_provisioned (re_counts e) \<le> re_min_ready e
                   then Inl KR_MinReady
                   else Inr ''idle_ttl'')"

definition provisioned :: "RevisionId \<Rightarrow> AdmissionState \<Rightarrow> nat" where
  "provisioned revision s =
     (case bt_get (ad_revisions s) revision of None \<Rightarrow> 0 | Some e \<Rightarrow> c_provisioned (re_counts e))"

definition try_scale_down ::
  "host \<Rightarrow> ReservationId \<Rightarrow> ScaleDown \<Rightarrow> Timestamp \<Rightarrow> AdmissionState
     \<Rightarrow> (KeepReason + unit) \<times> AdmissionState" where
  "try_scale_down h i how now s =
     (case bt_get (ad_reservations s) i of
        None \<Rightarrow> (Inl KR_NotIdle, s)
      | Some r \<Rightarrow>
          if rsv_state r \<noteq> RS_Idle then (Inl KR_NotIdle, s)
          else case scale_down_verdict r how now s of
                 Inl keep \<Rightarrow> (Inl keep, s)
               | Inr reason \<Rightarrow>
                   let drained = bt_contains_key (ad_drains s) (rsv_revision r);
                       s1 = snd (set_state i RS_Draining s);
                       left = provisioned (rsv_revision r) s1;
                       kind = (case how of
                                 SD_Drain _ \<Rightarrow> ''drain''
                               | SD_Idle _ \<Rightarrow> if drained then ''drain''
                                   else if left = 0 then ''scale_to_zero'' else ''scale_down'')
                   in (Inr (), record_scale h (rsv_revision r) kind reason now s1))"

definition try_prestart ::
  "host \<Rightarrow> Ticket \<Rightarrow> Timestamp \<Rightarrow> AdmissionState \<Rightarrow> (PrestartSkip + ReservationId) \<times> AdmissionState" where
  "try_prestart h t now s0 =
     (case check_static t now s0 of
        (Inl r, s) \<Rightarrow> (Inl (PS_Refused r), s)
      | (Inr _, s) \<Rightarrow>
          if \<not> is_routed (tk_revision t) s \<or> bt_contains_key (ad_drains s) (tk_revision t)
          then (Inl PS_NotRouted, s)
          else if tk_min_ready t = 0 then (Inl PS_Satisfied, s)
          else if ad_queued s > 0 then (Inl PS_WaitersFirst, s)
          else
            let tenant_quota = quota_for s (tk_tenant t);
                tenant_in_flight = (case bt_get (ad_tenants s) (tk_tenant t) of
                                      None \<Rightarrow> 0 | Some e \<Rightarrow> te_in_flight e);
                node_full = (c_in_flight (ad_counts s) \<ge> as_max_concurrency (ad_settings s));
                fits = admits (ad_capacity s) (res_plus (ad_reserved s) (tk_resources t));
                (bucket_ok, bucket) = tb_available (host_fpu h) (ad_bucket s) now;
                s1 = revision_entry t (\<lambda>e. e) (s\<lparr>ad_bucket := bucket\<rparr>);
                e = the (bt_get (ad_revisions s1) (tk_revision t)) in
            if c_provisioned (re_counts e) \<ge> re_min_ready e then (Inl PS_Satisfied, s1)
            else if opt_is_some_and (\<lambda>m. tenant_in_flight \<ge> m) (tq_max_concurrency tenant_quota)
                    \<or> c_in_flight (re_counts e) \<ge> re_max_environments e
            then (Inl (PS_Blocked ''quota''), s1)
            else
              let (gate, b) = cb_gate (re_breaker e) now;
                  e' = e\<lparr>re_breaker := b\<rparr>;
                  s2 = s1\<lparr>ad_revisions := bt_insert (tk_revision t) e' (ad_revisions s1)\<rparr> in
              if gate \<noteq> BG_Allow then (Inl (PS_Blocked ''circuit_breaker''), s2)
              else if node_full \<or> \<not> fits then (Inl (PS_Blocked ''capacity''), s2)
              else if \<not> bucket_ok then (Inl (PS_Blocked ''start_rate''), s2)
              else
                let s3 = s2\<lparr>ad_revisions := bt_insert (tk_revision t)
                              (e'\<lparr>re_last_scale_up := Some now\<rparr>) (ad_revisions s2),
                            ad_bucket := snd (tb_take (host_fpu h) (ad_bucket s2) now)\<rparr>;
                    s4 = next_id s3;
                    rid = ad_next_id s4;
                    s5 = insert_reservation rid
                           \<lparr> rsv_tenant = tk_tenant t, rsv_revision = tk_revision t,
                             rsv_resources = tk_resources t, rsv_state = RS_Starting,
                             rsv_probe = False \<rparr> s4
                in (Inr rid, record_scale h (tk_revision t) ''prestart'' ''min_ready'' now s5))"

end
