(* ===== verification/Environments.thy ===== *)
theory Environments
  imports Functions
begin

text \<open>
  \<open>crates/domain/src/environment.rs\<close>: the execution environment (a microVM or a
  process), its state machine, the epoch that fences assignments, and the lease that
  binds one attempt to one environment slot.
\<close>

section \<open>Data\<close>

datatype ProviderKind = Firecracker | Process | Fake | Other string

fun ProviderKind_as_str :: "ProviderKind \<Rightarrow> string" where
  "ProviderKind_as_str Firecracker = ''firecracker''"
| "ProviderKind_as_str Process = ''process''"
| "ProviderKind_as_str Fake = ''fake''"
| "ProviderKind_as_str (Other s) = s"

definition is_unisolated :: "ProviderKind \<Rightarrow> bool" where
  "is_unisolated p \<longleftrightarrow> p = Process \<or> p = Fake"

datatype EnvironmentState =
    ES_Requested
  | ES_Provisioning
  | ES_Initializing
  | ES_Ready
  | ES_Busy
  | ES_Idle
  | ES_Draining
  | ES_Stopped
  | ES_Failed string
  | ES_Lost string

fun ES_is_terminal :: "EnvironmentState \<Rightarrow> bool" where
  "ES_is_terminal ES_Stopped = True"
| "ES_is_terminal (ES_Failed r) = True"
| "ES_is_terminal (ES_Lost r) = True"
| "ES_is_terminal _ = False"

fun ES_name :: "EnvironmentState \<Rightarrow> string" where
  "ES_name ES_Requested = ''requested''"
| "ES_name ES_Provisioning = ''provisioning''"
| "ES_name ES_Initializing = ''initializing''"
| "ES_name ES_Ready = ''ready''"
| "ES_name ES_Busy = ''busy''"
| "ES_name ES_Idle = ''idle''"
| "ES_name ES_Draining = ''draining''"
| "ES_name ES_Stopped = ''stopped''"
| "ES_name (ES_Failed r) = ''failed''"
| "ES_name (ES_Lost r) = ''lost''"

text \<open>\<open>details\<close> is a JSON object the provider fills in; each value is kept as its JSON text.\<close>

record BootEvidence =
  guest_boot_id :: "string option"
  host_pid :: "u32 option"
  details :: "(string \<times> string) list"

definition BootEvidence_default :: BootEvidence where
  "BootEvidence_default = \<lparr> guest_boot_id = None, host_pid = None, details = [] \<rparr>"

record ReuseKey =
  rk_tenant_id :: TenantId
  rk_revision_id :: RevisionId
  rk_execution_role_version :: u64
  rk_configuration_version :: u64
  rk_resource_profile_digest :: string
  rk_runtime_profile :: string
  rk_network_policy_version :: u64
  rk_secret_binding_generation :: u64

record ExecutionEnvironment =
  env_id :: EnvironmentId
  env_tenant_id :: TenantId
  env_revision_id :: RevisionId
  env_provider :: ProviderKind
  env_state :: EnvironmentState
  env_reuse_key :: ReuseKey
  env_epoch :: u64
  env_owner :: "DispatcherId option"
  env_fenced_at :: "Timestamp option"
  env_evidence :: BootEvidence
  env_created_at :: Timestamp
  env_ready_at :: "Timestamp option"
  env_idle_since :: "Timestamp option"
  env_stopped_at :: "Timestamp option"
  env_updated_at :: Timestamp

section \<open>Operations of an environment\<close>

definition env_request ::
  "EnvironmentId \<Rightarrow> TenantId \<Rightarrow> RevisionId \<Rightarrow> ProviderKind \<Rightarrow> ReuseKey \<Rightarrow> Timestamp
     \<Rightarrow> ExecutionEnvironment" where
  "env_request i tenant revision provider key now = \<lparr>
     env_id = i, env_tenant_id = tenant, env_revision_id = revision, env_provider = provider,
     env_state = ES_Requested, env_reuse_key = key, env_epoch = 0, env_owner = None,
     env_fenced_at = None, env_evidence = BootEvidence_default, env_created_at = now,
     env_ready_at = None, env_idle_since = None, env_stopped_at = None,
     env_updated_at = now \<rparr>"

definition env_owned_by :: "ExecutionEnvironment \<Rightarrow> DispatcherId \<Rightarrow> ExecutionEnvironment" where
  "env_owned_by e owner = e\<lparr>env_owner := Some owner\<rparr>"

definition env_is_terminal :: "ExecutionEnvironment \<Rightarrow> bool" where
  "env_is_terminal e \<longleftrightarrow> ES_is_terminal (env_state e)"

text \<open>The \<open>allowed\<close> table of \<open>transition\<close>; the last three rows match any source state.\<close>

fun env_allowed :: "EnvironmentState \<Rightarrow> EnvironmentState \<Rightarrow> bool" where
  "env_allowed ES_Requested ES_Provisioning = True"
| "env_allowed ES_Provisioning ES_Initializing = True"
| "env_allowed ES_Initializing ES_Ready = True"
| "env_allowed ES_Ready ES_Busy = True"
| "env_allowed ES_Busy ES_Idle = True"
| "env_allowed ES_Idle ES_Ready = True"
| "env_allowed ES_Ready ES_Draining = True"
| "env_allowed ES_Busy ES_Draining = True"
| "env_allowed ES_Idle ES_Draining = True"
| "env_allowed _ ES_Stopped = True"
| "env_allowed _ (ES_Failed r) = True"
| "env_allowed _ (ES_Lost r) = True"
| "env_allowed _ _ = False"

definition env_transition ::
  "ExecutionEnvironment \<Rightarrow> EnvironmentState \<Rightarrow> Timestamp \<Rightarrow> DomainError + ExecutionEnvironment" where
  "env_transition e to now =
     (if ES_is_terminal (env_state e)
      then Inl (Terminal ''ExecutionEnvironment'' (ES_name (env_state e)))
      else if \<not> env_allowed (env_state e) to
      then Inl (IllegalTransition ''ExecutionEnvironment'' (ES_name (env_state e)) (ES_name to))
      else Inr (e\<lparr>
        env_ready_at := (if to = ES_Ready \<and> env_ready_at e = None then Some now else env_ready_at e),
        env_idle_since := (if to = ES_Idle then Some now else None),
        env_stopped_at := (if ES_is_terminal to then Some now else env_stopped_at e),
        env_state := to,
        env_updated_at := now\<rparr>))"

definition env_mark_provisioning ::
  "ExecutionEnvironment \<Rightarrow> Timestamp \<Rightarrow> DomainError + ExecutionEnvironment" where
  "env_mark_provisioning e now = env_transition e ES_Provisioning now"

definition env_mark_initializing ::
  "ExecutionEnvironment \<Rightarrow> BootEvidence \<Rightarrow> Timestamp \<Rightarrow> DomainError + ExecutionEnvironment" where
  "env_mark_initializing e evidence now =
     and_then (env_transition e ES_Initializing now) (\<lambda>e'. Inr (e'\<lparr>env_evidence := evidence\<rparr>))"

definition env_mark_ready ::
  "ExecutionEnvironment \<Rightarrow> Timestamp \<Rightarrow> DomainError + ExecutionEnvironment" where
  "env_mark_ready e now = env_transition e ES_Ready now"

definition env_mark_busy ::
  "ExecutionEnvironment \<Rightarrow> Timestamp \<Rightarrow> DomainError + ExecutionEnvironment" where
  "env_mark_busy e now = env_transition e ES_Busy now"

definition env_mark_idle ::
  "ExecutionEnvironment \<Rightarrow> Timestamp \<Rightarrow> DomainError + ExecutionEnvironment" where
  "env_mark_idle e now = env_transition e ES_Idle now"

definition env_mark_draining ::
  "ExecutionEnvironment \<Rightarrow> Timestamp \<Rightarrow> DomainError + ExecutionEnvironment" where
  "env_mark_draining e now = env_transition e ES_Draining now"

definition env_mark_stopped ::
  "ExecutionEnvironment \<Rightarrow> Timestamp \<Rightarrow> DomainError + ExecutionEnvironment" where
  "env_mark_stopped e now = env_transition e ES_Stopped now"

definition env_mark_failed ::
  "ExecutionEnvironment \<Rightarrow> string \<Rightarrow> Timestamp \<Rightarrow> DomainError + ExecutionEnvironment" where
  "env_mark_failed e reason now = env_transition e (ES_Failed reason) now"

definition env_mark_lost ::
  "ExecutionEnvironment \<Rightarrow> string \<Rightarrow> Timestamp \<Rightarrow> DomainError + ExecutionEnvironment" where
  "env_mark_lost e reason now = env_transition e (ES_Lost reason) now"

definition env_record_guest_boot_id ::
  "ExecutionEnvironment \<Rightarrow> string \<Rightarrow> ExecutionEnvironment" where
  "env_record_guest_boot_id e boot_id =
     e\<lparr>env_evidence := (env_evidence e)\<lparr>guest_boot_id := Some boot_id\<rparr>\<rparr>"

definition env_is_reusable :: "ExecutionEnvironment \<Rightarrow> bool" where
  "env_is_reusable e \<longleftrightarrow>
     env_fenced_at e = None \<and> (env_state e = ES_Ready \<or> env_state e = ES_Idle)"

definition env_reserve ::
  "ExecutionEnvironment \<Rightarrow> Timestamp \<Rightarrow> DomainError + ExecutionEnvironment" where
  "env_reserve e now =
     (if env_state e \<noteq> ES_Idle \<or> env_fenced_at e \<noteq> None
      then Inl (IllegalTransition ''ExecutionEnvironment'' (ES_name (env_state e)) ''ready'')
      else env_mark_ready e now)"

text \<open>\<open>assign\<close> returns the new epoch; the updated environment carries it.\<close>

definition env_assign ::
  "ExecutionEnvironment \<Rightarrow> Timestamp \<Rightarrow> DomainError + (ExecutionEnvironment \<times> u64)" where
  "env_assign e now =
     (if \<not> env_is_reusable e
      then Inl (IllegalTransition ''ExecutionEnvironment''
                  (case env_fenced_at e of Some _ \<Rightarrow> ''fenced'' | None \<Rightarrow> ES_name (env_state e))
                  ''busy'')
      else and_then (if env_state e = ES_Idle then env_mark_ready e now else Inr e)
             (\<lambda>e1. and_then (env_mark_busy e1 now)
             (\<lambda>e2. let e3 = e2\<lparr>env_epoch := env_epoch e2 + 1\<rparr> in Inr (e3, env_epoch e3))))"

definition env_fence ::
  "ExecutionEnvironment \<Rightarrow> Timestamp \<Rightarrow> DomainError + ExecutionEnvironment" where
  "env_fence e now =
     (if ES_is_terminal (env_state e)
      then Inl (Terminal ''ExecutionEnvironment'' (ES_name (env_state e)))
      else Inr (e\<lparr>
        env_state := ES_Draining,
        env_idle_since := None,
        env_epoch := env_epoch e + 1,
        env_fenced_at := (if env_fenced_at e = None then Some now else env_fenced_at e),
        env_updated_at := now\<rparr>))"

definition env_is_fenced :: "ExecutionEnvironment \<Rightarrow> bool" where
  "env_is_fenced e \<longleftrightarrow> env_fenced_at e \<noteq> None"

definition env_idle_expired :: "ExecutionEnvironment \<Rightarrow> Timestamp \<Rightarrow> Duration \<Rightarrow> bool" where
  "env_idle_expired e now ttl =
     (case env_idle_since e of Some since \<Rightarrow> now - since \<ge> ttl | None \<Rightarrow> False)"

section \<open>Leases\<close>

record ExecutionLease =
  lse_id :: LeaseId
  lse_environment_id :: EnvironmentId
  lse_attempt_id :: AttemptId
  lse_tenant_id :: TenantId
  lse_epoch :: u64
  lse_acquired_at :: Timestamp
  lse_deadline :: Timestamp
  lse_released_at :: "Timestamp option"
  lse_owner :: "DispatcherId option"
  lse_expires_at :: "Timestamp option"

definition lse_acquire ::
  "LeaseId \<Rightarrow> EnvironmentId \<Rightarrow> AttemptId \<Rightarrow> TenantId \<Rightarrow> u64 \<Rightarrow> Timestamp \<Rightarrow> Timestamp
     \<Rightarrow> ExecutionLease" where
  "lse_acquire i env att tenant epoch deadline now = \<lparr>
     lse_id = i, lse_environment_id = env, lse_attempt_id = att, lse_tenant_id = tenant,
     lse_epoch = epoch, lse_acquired_at = now, lse_deadline = deadline,
     lse_released_at = None, lse_owner = None, lse_expires_at = None \<rparr>"

definition lse_owned_by :: "ExecutionLease \<Rightarrow> DispatcherId \<Rightarrow> Timestamp \<Rightarrow> ExecutionLease" where
  "lse_owned_by l owner expires_at = l\<lparr>lse_owner := Some owner, lse_expires_at := Some expires_at\<rparr>"

definition lse_is_active :: "ExecutionLease \<Rightarrow> Timestamp \<Rightarrow> bool" where
  "lse_is_active l now \<longleftrightarrow>
     lse_released_at l = None \<and>
     (case lse_expires_at l of Some expires \<Rightarrow> now < expires | None \<Rightarrow> now < lse_deadline l)"

definition lse_is_expired :: "ExecutionLease \<Rightarrow> Timestamp \<Rightarrow> Duration \<Rightarrow> bool" where
  "lse_is_expired l now skew \<longleftrightarrow>
     lse_released_at l = None \<and> opt_is_some_and (\<lambda>e. now \<ge> e + skew) (lse_expires_at l)"

definition lse_extend :: "ExecutionLease \<Rightarrow> Timestamp \<Rightarrow> Duration \<Rightarrow> ExecutionLease" where
  "lse_extend l now ttl =
     (let next_expiry = now + ttl in
      if opt_is_none_or (\<lambda>e. next_expiry > e) (lse_expires_at l)
      then l\<lparr>lse_expires_at := Some next_expiry\<rparr> else l)"

definition lse_renew ::
  "ExecutionLease \<Rightarrow> Timestamp \<Rightarrow> Duration \<Rightarrow> DomainError + ExecutionLease" where
  "lse_renew l now ttl =
     (if lse_released_at l \<noteq> None then Inl (Terminal ''ExecutionLease'' ''released'')
      else if \<not> lse_is_active l now
      then Inl (IllegalTransition ''ExecutionLease'' ''expired'' ''renewed'')
      else Inr (lse_extend l now ttl))"

definition lse_revive ::
  "ExecutionLease \<Rightarrow> Timestamp \<Rightarrow> Duration \<Rightarrow> DomainError + ExecutionLease" where
  "lse_revive l now ttl =
     (if lse_released_at l \<noteq> None then Inl (Terminal ''ExecutionLease'' ''released'')
      else Inr (lse_extend l now ttl))"

definition lse_release :: "ExecutionLease \<Rightarrow> Timestamp \<Rightarrow> DomainError + ExecutionLease" where
  "lse_release l now =
     (if lse_released_at l \<noteq> None then Inl (Terminal ''ExecutionLease'' ''released'')
      else Inr (l\<lparr>lse_released_at := Some now\<rparr>))"

definition lse_accepts :: "ExecutionLease \<Rightarrow> AttemptId \<Rightarrow> u64 \<Rightarrow> bool" where
  "lse_accepts l attempt_id epoch \<longleftrightarrow>
     lse_released_at l = None \<and> lse_attempt_id l = attempt_id \<and> lse_epoch l = epoch"

section \<open>Facts\<close>

lemma env_transition_ok:
  "env_transition e to now = Inr e' \<longleftrightarrow>
     \<not> ES_is_terminal (env_state e) \<and> env_allowed (env_state e) to \<and>
     e' = e\<lparr>
        env_ready_at := (if to = ES_Ready \<and> env_ready_at e = None then Some now else env_ready_at e),
        env_idle_since := (if to = ES_Idle then Some now else None),
        env_stopped_at := (if ES_is_terminal to then Some now else env_stopped_at e),
        env_state := to,
        env_updated_at := now\<rparr>"
  by (auto simp: env_transition_def)

lemmas env_mark_defs = env_mark_provisioning_def env_mark_initializing_def env_mark_ready_def
  env_mark_busy_def env_mark_idle_def env_mark_draining_def env_mark_stopped_def
  env_mark_failed_def env_mark_lost_def

lemma env_fence_ok:
  "env_fence e now = Inr e' \<longleftrightarrow>
     \<not> ES_is_terminal (env_state e) \<and>
     e' = e\<lparr>env_state := ES_Draining, env_idle_since := None, env_epoch := env_epoch e + 1,
        env_fenced_at := (if env_fenced_at e = None then Some now else env_fenced_at e),
        env_updated_at := now\<rparr>"
  by (auto simp: env_fence_def)

lemma env_reserve_ok:
  "env_reserve e now = Inr e' \<longleftrightarrow>
     env_state e = ES_Idle \<and> env_fenced_at e = None \<and>
     e' = e\<lparr>env_ready_at := (if env_ready_at e = None then Some now else env_ready_at e),
           env_idle_since := None, env_state := ES_Ready, env_updated_at := now\<rparr>"
  by (auto simp: env_reserve_def env_mark_ready_def env_transition_ok)

lemma env_assign_ok:
  "env_assign e now = Inr (e', ep) \<longleftrightarrow>
     env_is_reusable e \<and> ep = env_epoch e + 1 \<and>
     e' = e\<lparr>env_ready_at := (if env_state e = ES_Idle \<and> env_ready_at e = None
                             then Some now else env_ready_at e),
           env_idle_since := None, env_state := ES_Busy, env_updated_at := now,
           env_epoch := env_epoch e + 1\<rparr>"
  by (auto simp: env_assign_def env_is_reusable_def env_mark_busy_def env_mark_ready_def
      env_transition_ok Let_def)

lemma lse_release_ok:
  "lse_release l now = Inr l' \<longleftrightarrow> lse_released_at l = None \<and> l' = l\<lparr>lse_released_at := Some now\<rparr>"
  by (auto simp: lse_release_def)

lemma lse_renew_ok:
  "lse_renew l now ttl = Inr l' \<longleftrightarrow> lse_is_active l now \<and> l' = lse_extend l now ttl"
  by (auto simp: lse_renew_def lse_is_active_def)

lemma lse_revive_ok:
  "lse_revive l now ttl = Inr l' \<longleftrightarrow> lse_released_at l = None \<and> l' = lse_extend l now ttl"
  by (auto simp: lse_revive_def)

lemma lse_extend_fields [simp]:
  "lse_id (lse_extend l now ttl) = lse_id l"
  "lse_environment_id (lse_extend l now ttl) = lse_environment_id l"
  "lse_attempt_id (lse_extend l now ttl) = lse_attempt_id l"
  "lse_tenant_id (lse_extend l now ttl) = lse_tenant_id l"
  "lse_epoch (lse_extend l now ttl) = lse_epoch l"
  "lse_acquired_at (lse_extend l now ttl) = lse_acquired_at l"
  "lse_deadline (lse_extend l now ttl) = lse_deadline l"
  "lse_released_at (lse_extend l now ttl) = lse_released_at l"
  "lse_owner (lse_extend l now ttl) = lse_owner l"
  by (simp_all add: lse_extend_def Let_def)

section \<open>The life of an environment\<close>

text \<open>
  One step is one successful call of an operation above, in any order and with any
  arguments; an environment that exists was made by \<^const>\<open>env_request\<close> and steps from
  there.
\<close>

inductive env_step :: "ExecutionEnvironment \<Rightarrow> ExecutionEnvironment \<Rightarrow> bool" where
  provisioning: "env_mark_provisioning e now = Inr e' \<Longrightarrow> env_step e e'"
| initializing: "env_mark_initializing e ev now = Inr e' \<Longrightarrow> env_step e e'"
| ready: "env_mark_ready e now = Inr e' \<Longrightarrow> env_step e e'"
| busy: "env_mark_busy e now = Inr e' \<Longrightarrow> env_step e e'"
| idle: "env_mark_idle e now = Inr e' \<Longrightarrow> env_step e e'"
| draining: "env_mark_draining e now = Inr e' \<Longrightarrow> env_step e e'"
| stopped: "env_mark_stopped e now = Inr e' \<Longrightarrow> env_step e e'"
| failed: "env_mark_failed e r now = Inr e' \<Longrightarrow> env_step e e'"
| lost: "env_mark_lost e r now = Inr e' \<Longrightarrow> env_step e e'"
| boot_id: "e' = env_record_guest_boot_id e b \<Longrightarrow> env_step e e'"
| owned: "e' = env_owned_by e owner \<Longrightarrow> env_step e e'"
| reserve: "env_reserve e now = Inr e' \<Longrightarrow> env_step e e'"
| assign: "env_assign e now = Inr (e', ep) \<Longrightarrow> env_step e e'"
| fence: "env_fence e now = Inr e' \<Longrightarrow> env_step e e'"

inductive env_reachable :: "ExecutionEnvironment \<Rightarrow> bool" where
  requested: "env_reachable (env_request i t r p k now)"
| step: "env_reachable e \<Longrightarrow> env_step e e' \<Longrightarrow> env_reachable e'"

definition env_wf :: "ExecutionEnvironment \<Rightarrow> bool" where
  "env_wf e \<longleftrightarrow>
     (env_idle_since e \<noteq> None \<longleftrightarrow> env_state e = ES_Idle) \<and>
     (env_stopped_at e \<noteq> None \<longleftrightarrow> ES_is_terminal (env_state e)) \<and>
     (env_is_fenced e \<longrightarrow> env_state e = ES_Draining \<or> ES_is_terminal (env_state e)) \<and>
     (env_state e \<in> {ES_Ready, ES_Busy, ES_Idle} \<longrightarrow> env_ready_at e \<noteq> None) \<and>
     (env_state e \<in> {ES_Requested, ES_Provisioning, ES_Initializing} \<longrightarrow> env_epoch e = 0)"

lemma env_allowed_into:
  "env_allowed a ES_Provisioning \<longleftrightarrow> a = ES_Requested"
  "env_allowed a ES_Initializing \<longleftrightarrow> a = ES_Provisioning"
  "env_allowed a ES_Ready \<longleftrightarrow> a = ES_Initializing \<or> a = ES_Idle"
  "env_allowed a ES_Busy \<longleftrightarrow> a = ES_Ready"
  "env_allowed a ES_Idle \<longleftrightarrow> a = ES_Busy"
  "env_allowed a ES_Draining \<longleftrightarrow> a = ES_Ready \<or> a = ES_Busy \<or> a = ES_Idle"
  "env_allowed a ES_Stopped" "env_allowed a (ES_Failed r)" "env_allowed a (ES_Lost r)"
  by (cases a; simp)+

lemma env_wf_request: "env_wf (env_request i t r p k now)"
  by (simp add: env_wf_def env_request_def env_is_fenced_def)

lemma env_wf_transition:
  assumes "env_wf e" "env_transition e to now = Inr e'"
  shows "env_wf e'"
  using assms
  by (cases to)
     (auto simp: env_wf_def env_transition_ok env_allowed_into env_is_fenced_def)

lemma env_wf_step: "env_step e e' \<Longrightarrow> env_wf e \<Longrightarrow> env_wf e'"
proof (induction rule: env_step.induct)
  case (initializing e ev now e')
  then obtain e1 where "env_transition e ES_Initializing now = Inr e1"
    and e': "e' = e1\<lparr>env_evidence := ev\<rparr>"
    by (auto simp: env_mark_initializing_def)
  then have "env_wf e1" using initializing.prems by (blast intro: env_wf_transition)
  then show ?case by (simp add: e' env_wf_def env_is_fenced_def)
next
  case (boot_id e' e b)
  then show ?case by (simp add: env_record_guest_boot_id_def env_wf_def env_is_fenced_def)
next
  case (owned e' e owner)
  then show ?case by (simp add: env_owned_by_def env_wf_def env_is_fenced_def)
next
  case (reserve e now e')
  then show ?case
    by (auto simp: env_reserve_ok env_wf_def env_is_fenced_def)
next
  case (assign e now e' ep)
  then show ?case by (auto simp: env_assign_ok env_wf_def env_is_reusable_def env_is_fenced_def)
next
  case (fence e now e')
  then show ?case by (auto simp: env_fence_ok env_wf_def env_is_fenced_def)
qed (auto simp: env_mark_defs intro: env_wf_transition)

lemma env_reachable_wf: "env_reachable e \<Longrightarrow> env_wf e"
  by (induction rule: env_reachable.induct) (auto intro: env_wf_request env_wf_step)

text \<open>A fenced environment stays fenced and only ever moves to a terminal state.\<close>

lemma env_step_fenced:
  assumes "env_step e e'" "env_is_fenced e" "env_wf e"
  shows "env_is_fenced e' \<and> env_fenced_at e' = env_fenced_at e"
  using assms(1,2)
  by (induction rule: env_step.induct)
     (auto simp: env_mark_defs env_transition_ok env_is_fenced_def env_record_guest_boot_id_def
        env_owned_by_def env_reserve_ok env_assign_ok env_is_reusable_def env_fence_ok)

lemma env_steps_fenced:
  assumes "env_step\<^sup>*\<^sup>* e e'" "env_is_fenced e" "env_wf e"
  shows "env_is_fenced e' \<and> env_wf e'"
  using assms
  by (induction rule: rtranclp_induct) (auto dest: env_step_fenced env_wf_step)

end
