(* ===== verification/Invocations.thy ===== *)
theory Invocations
  imports Functions
begin

text \<open>
  \<open>crates/domain/src/invocation.rs\<close>: one logical request (\<open>Invocation\<close>) and one
  execution try (\<open>InvocationAttempt\<close>), their state machines and the error
  classification.
\<close>

section \<open>Data\<close>

datatype InvocationMode = Sync | Async

datatype EventKind = Json | Http

fun event_type :: "EventKind \<Rightarrow> string" where
  "event_type Json = ''tachyon.invoke.v1''"
| "event_type Http = ''tachyon.http.v1''"

datatype ErrorClass =
    EC_UserError
  | EC_Crash
  | EC_InitError
  | EC_Timeout
  | EC_QueueTimeout
  | EC_PlatformError
  | EC_Cancelled
  | EC_OutcomeUnknown

fun ErrorClass_as_str :: "ErrorClass \<Rightarrow> string" where
  "ErrorClass_as_str EC_UserError = ''user_error''"
| "ErrorClass_as_str EC_Crash = ''crash''"
| "ErrorClass_as_str EC_InitError = ''init_error''"
| "ErrorClass_as_str EC_Timeout = ''timeout''"
| "ErrorClass_as_str EC_QueueTimeout = ''queue_timeout''"
| "ErrorClass_as_str EC_PlatformError = ''platform_error''"
| "ErrorClass_as_str EC_Cancelled = ''cancelled''"
| "ErrorClass_as_str EC_OutcomeUnknown = ''outcome_unknown''"

record InvocationError =
  err_class :: ErrorClass
  err_type :: string
  err_message :: string

definition InvocationError_new :: "ErrorClass \<Rightarrow> string \<Rightarrow> string \<Rightarrow> InvocationError" where
  "InvocationError_new c t m = \<lparr> err_class = c, err_type = t, err_message = m \<rparr>"

datatype InvocationStatus =
    IS_Accepted
  | IS_Queued
  | IS_Running
  | IS_Succeeded
  | IS_Failed InvocationError
  | IS_Cancelled
  | IS_OutcomeUnknown InvocationError

fun IS_is_terminal :: "InvocationStatus \<Rightarrow> bool" where
  "IS_is_terminal IS_Succeeded = True"
| "IS_is_terminal (IS_Failed e) = True"
| "IS_is_terminal IS_Cancelled = True"
| "IS_is_terminal (IS_OutcomeUnknown e) = True"
| "IS_is_terminal _ = False"

fun IS_name :: "InvocationStatus \<Rightarrow> string" where
  "IS_name IS_Accepted = ''accepted''"
| "IS_name IS_Queued = ''queued''"
| "IS_name IS_Running = ''running''"
| "IS_name IS_Succeeded = ''succeeded''"
| "IS_name (IS_Failed e) = ''failed''"
| "IS_name IS_Cancelled = ''cancelled''"
| "IS_name (IS_OutcomeUnknown e) = ''outcome_unknown''"

record Deadlines =
  queue_deadline :: Timestamp
  init_deadline :: "Timestamp option"
  execution_deadline :: "Timestamp option"
  client_deadline :: Timestamp

datatype PayloadRef =
    Inline string u64
  | Digest Sha256Digest u64

fun PayloadRef_size_bytes :: "PayloadRef \<Rightarrow> u64" where
  "PayloadRef_size_bytes (Inline b n) = n"
| "PayloadRef_size_bytes (Digest d n) = n"

record Invocation =
  inv_id :: InvocationId
  inv_tenant_id :: TenantId
  inv_function_id :: FunctionId
  inv_alias :: "AliasName option"
  inv_revision_id :: RevisionId
  inv_alias_generation :: "u64 option"
  inv_mode :: InvocationMode
  inv_event_kind :: EventKind
  inv_status :: InvocationStatus
  inv_deadlines :: Deadlines
  inv_idempotency_key :: "string option"
  inv_input_digest :: Sha256Digest
  inv_input_size_bytes :: u64
  inv_output :: "PayloadRef option"
  inv_http_status :: "u16 option"
  inv_trace_id :: string
  inv_accepted_at :: Timestamp
  inv_started_at :: "Timestamp option"
  inv_finished_at :: "Timestamp option"
  inv_attempt_ids :: "AttemptId list"
  inv_dispatcher_id :: "DispatcherId option"

section \<open>Operations of an invocation\<close>

definition inv_accept ::
  "InvocationId \<Rightarrow> TenantId \<Rightarrow> FunctionId \<Rightarrow> AliasName option \<Rightarrow> RevisionId \<Rightarrow> InvocationMode
     \<Rightarrow> EventKind \<Rightarrow> Deadlines \<Rightarrow> string option \<Rightarrow> Sha256Digest \<Rightarrow> u64 \<Rightarrow> string \<Rightarrow> Timestamp
     \<Rightarrow> DomainError + Invocation" where
  "inv_accept i tenant f alias revision mode kind dl idempotency_key digest input_size trace now =
     (if opt_is_some_and (\<lambda>k. k = [] \<or> length k > 256) idempotency_key
      then Inl (Validation ''idempotency_key'' ''must be 1..=256 chars'')
      else if client_deadline dl < now
      then Inl (Validation ''client_deadline'' ''already elapsed at acceptance'')
      else Inr \<lparr> inv_id = i, inv_tenant_id = tenant, inv_function_id = f, inv_alias = alias,
        inv_revision_id = revision, inv_alias_generation = None, inv_mode = mode,
        inv_event_kind = kind, inv_status = IS_Accepted, inv_deadlines = dl,
        inv_idempotency_key = idempotency_key, inv_input_digest = digest,
        inv_input_size_bytes = input_size, inv_output = None, inv_http_status = None,
        inv_trace_id = trace, inv_accepted_at = now, inv_started_at = None,
        inv_finished_at = None, inv_attempt_ids = [], inv_dispatcher_id = None \<rparr>)"

definition inv_ensure_not_terminal :: "Invocation \<Rightarrow> DomainError + unit" where
  "inv_ensure_not_terminal i =
     (if IS_is_terminal (inv_status i) then Inl (Terminal ''Invocation'' (IS_name (inv_status i)))
      else Inr ())"

definition inv_illegal :: "Invocation \<Rightarrow> string \<Rightarrow> DomainError" where
  "inv_illegal i to = IllegalTransition ''Invocation'' (IS_name (inv_status i)) to"

definition inv_mark_queued :: "Invocation \<Rightarrow> DomainError + Invocation" where
  "inv_mark_queued i = and_then (inv_ensure_not_terminal i) (\<lambda>_.
     if inv_status i = IS_Accepted then Inr (i\<lparr>inv_status := IS_Queued\<rparr>)
     else Inl (inv_illegal i ''queued''))"

definition inv_mark_running ::
  "Invocation \<Rightarrow> AttemptId \<Rightarrow> Timestamp \<Rightarrow> Timestamp \<Rightarrow> Timestamp \<Rightarrow> DomainError + Invocation" where
  "inv_mark_running i attempt exec_dl init_dl now = and_then (inv_ensure_not_terminal i) (\<lambda>_.
     if inv_status i = IS_Accepted \<or> inv_status i = IS_Queued
     then Inr (i\<lparr>
       inv_status := IS_Running,
       inv_started_at := (case inv_started_at i of None \<Rightarrow> Some now | Some t \<Rightarrow> Some t),
       inv_deadlines := (inv_deadlines i)\<lparr>execution_deadline := Some exec_dl,
                                          init_deadline := Some init_dl\<rparr>,
       inv_attempt_ids := inv_attempt_ids i @ [attempt]\<rparr>)
     else Inl (inv_illegal i ''running''))"

definition inv_mark_retry ::
  "Invocation \<Rightarrow> AttemptId \<Rightarrow> Timestamp \<Rightarrow> Timestamp \<Rightarrow> DomainError + Invocation" where
  "inv_mark_retry i attempt exec_dl init_dl = and_then (inv_ensure_not_terminal i) (\<lambda>_.
     if inv_status i = IS_Running
     then Inr (i\<lparr>
       inv_deadlines := (inv_deadlines i)\<lparr>execution_deadline := Some exec_dl,
                                          init_deadline := Some init_dl\<rparr>,
       inv_attempt_ids := inv_attempt_ids i @ [attempt]\<rparr>)
     else Inl (inv_illegal i ''retry''))"

definition inv_mark_requeued :: "Invocation \<Rightarrow> DomainError + Invocation" where
  "inv_mark_requeued i = and_then (inv_ensure_not_terminal i) (\<lambda>_.
     if inv_mode i \<noteq> Async then Inl (inv_illegal i ''requeued'')
     else Inr (i\<lparr>
       inv_status := IS_Queued,
       inv_deadlines := (inv_deadlines i)\<lparr>execution_deadline := None, init_deadline := None\<rparr>\<rparr>))"

definition inv_mark_succeeded ::
  "Invocation \<Rightarrow> PayloadRef option \<Rightarrow> u16 option \<Rightarrow> Timestamp \<Rightarrow> DomainError + Invocation" where
  "inv_mark_succeeded i out status now = and_then (inv_ensure_not_terminal i) (\<lambda>_.
     if inv_status i = IS_Running
     then Inr (i\<lparr>inv_status := IS_Succeeded, inv_output := out, inv_http_status := status,
                 inv_finished_at := Some now\<rparr>)
     else Inl (inv_illegal i ''succeeded''))"

definition inv_mark_failed ::
  "Invocation \<Rightarrow> InvocationError \<Rightarrow> Timestamp \<Rightarrow> DomainError + Invocation" where
  "inv_mark_failed i error now = and_then (inv_ensure_not_terminal i) (\<lambda>_.
     if err_class error = EC_OutcomeUnknown
     then Inl (Validation ''error.class'' ''use mark_outcome_unknown for OutcomeUnknown'')
     else if err_class error = EC_Cancelled
     then Inl (Validation ''error.class'' ''use mark_cancelled for Cancelled'')
     else Inr (i\<lparr>inv_status := IS_Failed error, inv_finished_at := Some now\<rparr>))"

definition inv_mark_cancelled :: "Invocation \<Rightarrow> Timestamp \<Rightarrow> DomainError + Invocation" where
  "inv_mark_cancelled i now = and_then (inv_ensure_not_terminal i) (\<lambda>_.
     Inr (i\<lparr>inv_status := IS_Cancelled, inv_finished_at := Some now\<rparr>))"

definition inv_mark_outcome_unknown ::
  "Invocation \<Rightarrow> string \<Rightarrow> Timestamp \<Rightarrow> DomainError + Invocation" where
  "inv_mark_outcome_unknown i reason now = and_then (inv_ensure_not_terminal i) (\<lambda>_.
     if inv_status i = IS_Running
     then Inr (i\<lparr>inv_status := IS_OutcomeUnknown
                   (InvocationError_new EC_OutcomeUnknown ''Host.OutcomeUnknown'' reason),
                 inv_finished_at := Some now\<rparr>)
     else Inl (inv_illegal i ''outcome_unknown''))"

definition inv_ensure_owned_by :: "Invocation \<Rightarrow> TenantId \<Rightarrow> DomainError + unit" where
  "inv_ensure_owned_by i tenant =
     (if inv_tenant_id i = tenant then Inr ()
      else Inl (TenantMismatch (''invocation '' @ as_str (inv_id i)
                  @ '' is not owned by tenant '' @ as_str tenant)))"

section \<open>Attempts\<close>

datatype AttemptStatus =
    AS_Dispatched
  | AS_Succeeded
  | AS_Failed InvocationError
  | AS_OutcomeUnknown InvocationError

definition AS_is_terminal :: "AttemptStatus \<Rightarrow> bool" where
  "AS_is_terminal s \<longleftrightarrow> s \<noteq> AS_Dispatched"

fun AS_name :: "AttemptStatus \<Rightarrow> string" where
  "AS_name AS_Dispatched = ''dispatched''"
| "AS_name AS_Succeeded = ''succeeded''"
| "AS_name (AS_Failed e) = ''failed''"
| "AS_name (AS_OutcomeUnknown e) = ''outcome_unknown''"

datatype StartKind = Cold | Warm | Restored

record AttemptTimings =
  queue_wait_ms :: "u64 option"
  environment_boot_ms :: "u64 option"
  runtime_init_ms :: "u64 option"
  resume_ms :: "u64 option"
  readiness_ms :: "u64 option"
  handler_ms :: "u64 option"
  response_ms :: "u64 option"
  total_ms :: "u64 option"

definition AttemptTimings_default :: AttemptTimings where
  "AttemptTimings_default = \<lparr> queue_wait_ms = None, environment_boot_ms = None,
     runtime_init_ms = None, resume_ms = None, readiness_ms = None, handler_ms = None,
     response_ms = None, total_ms = None \<rparr>"

record InvocationAttempt =
  att_id :: AttemptId
  att_invocation_id :: InvocationId
  att_tenant_id :: TenantId
  att_number :: u32
  att_environment_id :: EnvironmentId
  att_epoch :: u64
  att_status :: AttemptStatus
  att_start_kind :: StartKind
  att_timings :: AttemptTimings
  att_dispatched_at :: Timestamp
  att_finished_at :: "Timestamp option"

definition att_dispatch ::
  "AttemptId \<Rightarrow> InvocationId \<Rightarrow> TenantId \<Rightarrow> u32 \<Rightarrow> EnvironmentId \<Rightarrow> u64 \<Rightarrow> StartKind \<Rightarrow> Timestamp
     \<Rightarrow> InvocationAttempt" where
  "att_dispatch i invocation tenant number env epoch kind now = \<lparr>
     att_id = i, att_invocation_id = invocation, att_tenant_id = tenant, att_number = number,
     att_environment_id = env, att_epoch = epoch, att_status = AS_Dispatched,
     att_start_kind = kind, att_timings = AttemptTimings_default, att_dispatched_at = now,
     att_finished_at = None \<rparr>"

definition att_finish ::
  "InvocationAttempt \<Rightarrow> AttemptStatus \<Rightarrow> Timestamp \<Rightarrow> DomainError + InvocationAttempt" where
  "att_finish a status now =
     (if AS_is_terminal (att_status a)
      then Inl (Terminal ''InvocationAttempt'' (AS_name (att_status a)))
      else Inr (a\<lparr>att_status := status, att_finished_at := Some now\<rparr>))"

definition att_succeed :: "InvocationAttempt \<Rightarrow> Timestamp \<Rightarrow> DomainError + InvocationAttempt" where
  "att_succeed a now = att_finish a AS_Succeeded now"

definition att_fail ::
  "InvocationAttempt \<Rightarrow> InvocationError \<Rightarrow> Timestamp \<Rightarrow> DomainError + InvocationAttempt" where
  "att_fail a error now = att_finish a (AS_Failed error) now"

definition att_outcome_unknown ::
  "InvocationAttempt \<Rightarrow> InvocationError \<Rightarrow> Timestamp \<Rightarrow> DomainError + InvocationAttempt" where
  "att_outcome_unknown a error now = att_finish a (AS_OutcomeUnknown error) now"

section \<open>The life of an invocation\<close>

lemma inv_ensure_not_terminal_ok [simp]:
  "inv_ensure_not_terminal i = Inr u \<longleftrightarrow> \<not> IS_is_terminal (inv_status i)"
  by (auto simp: inv_ensure_not_terminal_def)

lemmas inv_mark_defs = inv_mark_queued_def inv_mark_running_def inv_mark_retry_def
  inv_mark_requeued_def inv_mark_succeeded_def inv_mark_failed_def inv_mark_cancelled_def
  inv_mark_outcome_unknown_def

text \<open>One step is one successful call of one of the operations.\<close>

inductive inv_step :: "Invocation \<Rightarrow> Invocation \<Rightarrow> bool" where
  queued: "inv_mark_queued i = Inr i' \<Longrightarrow> inv_step i i'"
| running: "inv_mark_running i a ed idl now = Inr i' \<Longrightarrow> inv_step i i'"
| retry: "inv_mark_retry i a ed idl = Inr i' \<Longrightarrow> inv_step i i'"
| requeued: "inv_mark_requeued i = Inr i' \<Longrightarrow> inv_step i i'"
| succeeded: "inv_mark_succeeded i out st now = Inr i' \<Longrightarrow> inv_step i i'"
| failed: "inv_mark_failed i err now = Inr i' \<Longrightarrow> inv_step i i'"
| cancelled: "inv_mark_cancelled i now = Inr i' \<Longrightarrow> inv_step i i'"
| unknown: "inv_mark_outcome_unknown i reason now = Inr i' \<Longrightarrow> inv_step i i'"

inductive inv_reachable :: "Invocation \<Rightarrow> bool" where
  accepted: "inv_accept i t f al r m k dl key d n tr now = Inr iv \<Longrightarrow> inv_reachable iv"
| step: "inv_reachable i \<Longrightarrow> inv_step i i' \<Longrightarrow> inv_reachable i'"

text \<open>
  What every reachable invocation satisfies: it is finished exactly when terminal; an
  output exists only on success; a success, a running or an unknown invocation was
  dispatched at least once; the class of a recorded error matches the status.
\<close>

fun inv_status_wf :: "InvocationStatus \<Rightarrow> Invocation \<Rightarrow> bool" where
  "inv_status_wf IS_Accepted i = (inv_attempt_ids i = [])"
| "inv_status_wf IS_Running i =
     (inv_attempt_ids i \<noteq> [] \<and> execution_deadline (inv_deadlines i) \<noteq> None)"
| "inv_status_wf IS_Succeeded i = (inv_attempt_ids i \<noteq> [])"
| "inv_status_wf (IS_Failed e) i = (err_class e \<noteq> EC_OutcomeUnknown \<and> err_class e \<noteq> EC_Cancelled)"
| "inv_status_wf (IS_OutcomeUnknown e) i =
     (err_class e = EC_OutcomeUnknown \<and> inv_attempt_ids i \<noteq> [])"
| "inv_status_wf _ i = True"

definition inv_wf :: "Invocation \<Rightarrow> bool" where
  "inv_wf i \<longleftrightarrow>
     (inv_finished_at i \<noteq> None \<longleftrightarrow> IS_is_terminal (inv_status i)) \<and>
     (inv_output i \<noteq> None \<longrightarrow> inv_status i = IS_Succeeded) \<and>
     (inv_started_at i \<noteq> None \<longleftrightarrow> inv_attempt_ids i \<noteq> []) \<and>
     inv_status_wf (inv_status i) i"

lemma inv_wf_accept: "inv_accept i t f al r m k dl key d n tr now = Inr iv \<Longrightarrow> inv_wf iv"
  by (auto simp: inv_accept_def inv_wf_def split: if_splits)

lemma inv_wf_step: "inv_step i i' \<Longrightarrow> inv_wf i \<Longrightarrow> inv_wf i'"
proof (induction rule: inv_step.induct)
  case (running i a ed idl now i')
  then show ?case
    by (auto simp: inv_mark_running_def inv_wf_def split: if_splits option.splits)
next
  case (retry i a ed idl i')
  then show ?case by (auto simp: inv_mark_retry_def inv_wf_def split: if_splits)
next
  case (requeued i i')
  then show ?case
    by (cases "inv_status i") (auto simp: inv_mark_requeued_def inv_wf_def split: if_splits)
next
  case (failed i err now i')
  then show ?case
    by (cases "inv_status i") (auto simp: inv_mark_failed_def inv_wf_def split: if_splits)
next
  case (cancelled i now i')
  then show ?case by (cases "inv_status i") (auto simp: inv_mark_cancelled_def inv_wf_def)
qed (auto simp: inv_mark_queued_def inv_mark_succeeded_def inv_mark_outcome_unknown_def inv_wf_def
      InvocationError_new_def split: if_splits)

lemma inv_reachable_wf: "inv_reachable i \<Longrightarrow> inv_wf i"
  by (induction rule: inv_reachable.induct) (auto intro: inv_wf_accept inv_wf_step)

text \<open>A terminal invocation takes no further step.\<close>

lemma inv_step_terminal: "inv_step i i' \<Longrightarrow> \<not> IS_is_terminal (inv_status i)"
  by (induction rule: inv_step.induct) (auto simp: inv_mark_defs split: if_splits)

text \<open>The fields fixed at acceptance.\<close>

lemma inv_step_fixed:
  "inv_step i i' \<Longrightarrow>
     inv_id i' = inv_id i \<and> inv_tenant_id i' = inv_tenant_id i \<and>
     inv_revision_id i' = inv_revision_id i \<and> inv_input_digest i' = inv_input_digest i \<and>
     inv_idempotency_key i' = inv_idempotency_key i \<and> inv_mode i' = inv_mode i \<and>
     (\<exists>ys. inv_attempt_ids i' = inv_attempt_ids i @ ys)"
  by (induction rule: inv_step.induct) (auto simp: inv_mark_defs split: if_splits)

lemma inv_steps_fixed:
  "inv_step\<^sup>*\<^sup>* i i' \<Longrightarrow>
     inv_id i' = inv_id i \<and> inv_tenant_id i' = inv_tenant_id i \<and>
     inv_revision_id i' = inv_revision_id i \<and> inv_input_digest i' = inv_input_digest i \<and>
     inv_idempotency_key i' = inv_idempotency_key i \<and> inv_mode i' = inv_mode i \<and>
     (\<exists>ys. inv_attempt_ids i' = inv_attempt_ids i @ ys)"
proof (induction rule: rtranclp_induct)
  case (step y z)
  then show ?case using inv_step_fixed [of y z] by auto
qed simp

lemma inv_steps_terminal:
  "inv_step\<^sup>*\<^sup>* i i' \<Longrightarrow> IS_is_terminal (inv_status i) \<Longrightarrow> i' = i"
  by (induction rule: rtranclp_induct) (auto dest: inv_step_terminal)

lemma att_finish_ok:
  "att_finish a s now = Inr a' \<longleftrightarrow>
     att_status a = AS_Dispatched \<and> a' = a\<lparr>att_status := s, att_finished_at := Some now\<rparr>"
  by (auto simp: att_finish_def AS_is_terminal_def)

end
