(* ===== verification/Guard.thy ===== *)
theory Guard
  imports Environments Invocations Revisions
begin

text \<open>
  \<open>crates/application/src/repository/guard.rs\<close> (and \<open>RepoError\<close> of \<open>repository/mod.rs\<close>):
  the row invariants every store enforces, as functions of the stored row and the row being
  written.  Error texts are the ones the sources format.  The locale \<open>guarded_row\<close> states
  what the five update guards have in common; its lemmas carry the proofs about the tables
  of the store.
\<close>

section \<open>Errors\<close>

datatype RepoError =
    NotFound string
  | Conflict string
  | Refused string
  | Io string
  | Serialization string
  | Store_Failed string

datatype Write = Apply | Unchanged

definition same_tenant :: "string \<Rightarrow> string \<Rightarrow> TenantId \<Rightarrow> TenantId \<Rightarrow> RepoError + unit" where
  "same_tenant kind i row parent =
     (if row = parent then Inr ()
      else Inl (Refused (kind @ '' '' @ i @ '' belongs to another tenant than its parent'')))"

text \<open>
  The \<open>immutable!\<close> macro: the listed fields are compared in order and the first one that
  differs is named in the error.  A field is passed as its name and whether it is equal.
\<close>

fun immutable_fields :: "string \<Rightarrow> string \<Rightarrow> (string \<times> bool) list \<Rightarrow> RepoError + unit" where
  "immutable_fields kind i [] = Inr ()"
| "immutable_fields kind i ((field, same) # rest) =
     (if \<not> same then Inl (Refused (kind @ '' '' @ i @ '': `'' @ field @ ''` is immutable''))
      else immutable_fields kind i rest)"

lemma immutable_fields_ok [simp]:
  "immutable_fields kind i fs = Inr u \<longleftrightarrow> list_all snd fs"
  by (induction fs) (auto split: if_splits)

lemma same_tenant_ok [simp]: "same_tenant kind i row parent = Inr u \<longleftrightarrow> row = parent"
  by (simp add: same_tenant_def)

section \<open>Functions, revisions and aliases\<close>

definition function_update :: "Function \<Rightarrow> Function \<Rightarrow> RepoError + Write" where
  "function_update old new =
     and_then (immutable_fields ''function'' (as_str (fn_id old))
        [(''id'', fn_id old = fn_id new),
         (''tenant_id'', fn_tenant_id old = fn_tenant_id new),
         (''name'', fn_name old = fn_name new),
         (''created_at'', fn_created_at old = fn_created_at new)]) (\<lambda>_.
     if old = new then Inr Unchanged
     else if fn_is_deleted old \<and>
        \<not> (fn_drained_at old = None \<and> fn_drained_at new \<noteq> None
            \<and> fn_deleted_at new = fn_deleted_at old
            \<and> fn_description new = fn_description old
            \<and> fn_updated_at new \<ge> fn_updated_at old)
     then Inl (Refused (''function '' @ as_str (fn_id old) @ '' is deleted''))
     else Inr Apply)"

definition revision_insert :: "Function option \<Rightarrow> FunctionRevision \<Rightarrow> RepoError + unit" where
  "revision_insert f r =
     (case f of None \<Rightarrow> Inr ()
      | Some f \<Rightarrow> same_tenant ''revision'' (as_str (rev_id r)) (rev_tenant_id r) (fn_tenant_id f))"

definition revision_update :: "FunctionRevision \<Rightarrow> FunctionRevision \<Rightarrow> RepoError + Write" where
  "revision_update old new =
     and_then (immutable_fields ''revision'' (as_str (rev_id old))
        [(''id'', rev_id old = rev_id new),
         (''function_id'', rev_function_id old = rev_function_id new),
         (''tenant_id'', rev_tenant_id old = rev_tenant_id new),
         (''number'', rev_number old = rev_number new),
         (''spec'', rev_spec old = rev_spec new),
         (''spec_digest'', rev_spec_digest old = rev_spec_digest new),
         (''created_at'', rev_created_at old = rev_created_at new)]) (\<lambda>_.
     if old = new then Inr Unchanged
     else if RS_is_terminal (rev_status old)
     then Inl (Refused (''revision '' @ as_str (rev_id old) @ '' is '' @ RS_name (rev_status old)
                  @ '' and final''))
     else Inr Apply)"

definition alias_target ::
  "Function option \<Rightarrow> FunctionRevision option \<Rightarrow> FunctionAlias \<Rightarrow> RepoError + unit" where
  "alias_target f r a =
     and_then (case f of None \<Rightarrow> Inr ()
               | Some f \<Rightarrow> same_tenant ''alias'' (as_str (al_name a)) (al_tenant_id a) (fn_tenant_id f))
     (\<lambda>_. case r of
        None \<Rightarrow> Inl (Refused (''alias `'' @ as_str (al_name a) @ ''` points at revision ''
                  @ as_str (al_revision_id a) @ '' which does not exist''))
      | Some r \<Rightarrow>
          if rev_function_id r \<noteq> al_function_id a \<or> rev_tenant_id r \<noteq> al_tenant_id a
          then Inl (Refused (''alias `'' @ as_str (al_name a) @ ''` cannot point at revision ''
                  @ as_str (al_revision_id a) @ '' of another function''))
          else Inr ())"

definition alias_update :: "FunctionAlias \<Rightarrow> FunctionAlias \<Rightarrow> RepoError + unit" where
  "alias_update old new =
     and_then (immutable_fields ''alias'' (as_str (al_name old))
        [(''function_id'', al_function_id old = al_function_id new),
         (''tenant_id'', al_tenant_id old = al_tenant_id new),
         (''name'', al_name old = al_name new),
         (''created_at'', al_created_at old = al_created_at new)]) (\<lambda>_.
     if al_generation new \<le> al_generation old
     then Inl (Refused (''alias `'' @ as_str (al_name old) @ ''`: generation must advance (''
                  @ show_u (al_generation old) @ '' -> '' @ show_u (al_generation new) @ '')''))
     else Inr ())"

section \<open>Invocations and attempts\<close>

definition bounded_output :: "Invocation \<Rightarrow> u64 \<Rightarrow> RepoError + unit" where
  "bounded_output i max_inline_bytes =
     (case inv_output i of
        Some (Inline bytes_base64 size_bytes) \<Rightarrow>
          let encoded_max = saturating_mul (div_ceil max_inline_bytes 3) 4 in
          if size_bytes > max_inline_bytes \<or> (of_nat (length bytes_base64) :: u64) > encoded_max
          then Inl (Refused (''invocation '' @ as_str (inv_id i) @ '': inline output of ''
                  @ show_u size_bytes @ '' bytes exceeds '' @ show_u max_inline_bytes @ '' bytes''))
          else Inr ()
      | _ \<Rightarrow> Inr ())"

definition invocation_insert :: "Function option \<Rightarrow> Invocation \<Rightarrow> u64 \<Rightarrow> RepoError + unit" where
  "invocation_insert f i max_inline_bytes =
     and_then (case f of None \<Rightarrow> Inr ()
               | Some f \<Rightarrow> same_tenant ''invocation'' (as_str (inv_id i)) (inv_tenant_id i)
                             (fn_tenant_id f))
     (\<lambda>_. bounded_output i max_inline_bytes)"

definition invocation_update :: "u64 \<Rightarrow> Invocation \<Rightarrow> Invocation \<Rightarrow> RepoError + Write" where
  "invocation_update max_inline_bytes old new =
     and_then (immutable_fields ''invocation'' (as_str (inv_id old))
        [(''id'', inv_id old = inv_id new),
         (''tenant_id'', inv_tenant_id old = inv_tenant_id new),
         (''function_id'', inv_function_id old = inv_function_id new),
         (''alias'', inv_alias old = inv_alias new),
         (''mode'', inv_mode old = inv_mode new),
         (''event_kind'', inv_event_kind old = inv_event_kind new),
         (''idempotency_key'', inv_idempotency_key old = inv_idempotency_key new),
         (''input_digest'', inv_input_digest old = inv_input_digest new),
         (''input_size_bytes'', inv_input_size_bytes old = inv_input_size_bytes new),
         (''trace_id'', inv_trace_id old = inv_trace_id new),
         (''accepted_at'', inv_accepted_at old = inv_accepted_at new),
         (''dispatcher_id'', inv_dispatcher_id old = inv_dispatcher_id new)]) (\<lambda>_.
     if old = new then Inr Unchanged
     else if IS_is_terminal (inv_status old)
     then Inl (Refused (''invocation '' @ as_str (inv_id old) @ '' is ''
                  @ IS_name (inv_status old) @ '' and final''))
     else and_then (bounded_output new max_inline_bytes) (\<lambda>_. Inr Apply))"

definition attempt_insert :: "Invocation option \<Rightarrow> InvocationAttempt \<Rightarrow> RepoError + unit" where
  "attempt_insert i a =
     (case i of None \<Rightarrow> Inr ()
      | Some i \<Rightarrow> same_tenant ''attempt'' (as_str (att_id a)) (att_tenant_id a) (inv_tenant_id i))"

definition attempt_update :: "InvocationAttempt \<Rightarrow> InvocationAttempt \<Rightarrow> RepoError + Write" where
  "attempt_update old new =
     and_then (immutable_fields ''attempt'' (as_str (att_id old))
        [(''id'', att_id old = att_id new),
         (''invocation_id'', att_invocation_id old = att_invocation_id new),
         (''tenant_id'', att_tenant_id old = att_tenant_id new),
         (''number'', att_number old = att_number new),
         (''environment_id'', att_environment_id old = att_environment_id new),
         (''epoch'', att_epoch old = att_epoch new),
         (''start_kind'', att_start_kind old = att_start_kind new),
         (''dispatched_at'', att_dispatched_at old = att_dispatched_at new)]) (\<lambda>_.
     if old = new then Inr Unchanged
     else if AS_is_terminal (att_status old)
     then Inl (Refused (''attempt '' @ as_str (att_id old) @ '' is '' @ AS_name (att_status old)
                  @ '' and final''))
     else Inr Apply)"

section \<open>Environments and leases\<close>

definition environment_insert ::
  "FunctionRevision option \<Rightarrow> ExecutionEnvironment \<Rightarrow> RepoError + unit" where
  "environment_insert r e =
     (if rk_tenant_id (env_reuse_key e) \<noteq> env_tenant_id e
         \<or> rk_revision_id (env_reuse_key e) \<noteq> env_revision_id e
      then Inl (Refused (''environment '' @ as_str (env_id e)
                  @ '': its reuse key names another tenant or revision''))
      else case r of None \<Rightarrow> Inr ()
        | Some r \<Rightarrow> same_tenant ''environment'' (as_str (env_id e)) (env_tenant_id e)
                      (rev_tenant_id r))"

definition environment_identity ::
  "ExecutionEnvironment \<Rightarrow> ExecutionEnvironment \<Rightarrow> RepoError + unit" where
  "environment_identity old new =
     immutable_fields ''environment'' (as_str (env_id old))
        [(''id'', env_id old = env_id new),
         (''tenant_id'', env_tenant_id old = env_tenant_id new),
         (''revision_id'', env_revision_id old = env_revision_id new),
         (''provider'', env_provider old = env_provider new),
         (''reuse_key'', env_reuse_key old = env_reuse_key new),
         (''owner'', env_owner old = env_owner new),
         (''created_at'', env_created_at old = env_created_at new)]"

definition environment_update ::
  "ExecutionEnvironment \<Rightarrow> ExecutionEnvironment \<Rightarrow> RepoError + Write" where
  "environment_update old new =
     and_then (environment_identity old new) (\<lambda>_.
     if old = new then Inr Unchanged
     else if env_is_terminal old
     then Inl (Refused (''environment '' @ as_str (env_id old) @ '' is '' @ ES_name (env_state old)
                  @ '' and final''))
     else if env_epoch old \<noteq> env_epoch new
     then Inl (Refused (''environment '' @ as_str (env_id old) @ '': stale copy at epoch ''
                  @ show_u (env_epoch new) @ '' (stored epoch '' @ show_u (env_epoch old) @ '')''))
     else if env_fenced_at old \<noteq> env_fenced_at new
     then Inl (Refused (''environment '' @ as_str (env_id old)
                  @ '': fencing only changes through a reclaim''))
     else if env_state new = ES_Busy \<and> env_state old \<noteq> ES_Busy
     then Inl (Refused (''environment '' @ as_str (env_id old)
                  @ '': an environment only becomes busy by acquiring a slot''))
     else Inr Apply)"

definition lease_insert ::
  "ExecutionEnvironment option \<Rightarrow> ExecutionLease \<Rightarrow> RepoError + unit" where
  "lease_insert e l =
     (case e of None \<Rightarrow> Inr ()
      | Some e \<Rightarrow> same_tenant ''lease'' (as_str (lse_id l)) (lse_tenant_id l) (env_tenant_id e))"

definition lease_update :: "ExecutionLease \<Rightarrow> ExecutionLease \<Rightarrow> RepoError + Write" where
  "lease_update old new =
     and_then (immutable_fields ''lease'' (as_str (lse_id old))
        [(''id'', lse_id old = lse_id new),
         (''environment_id'', lse_environment_id old = lse_environment_id new),
         (''attempt_id'', lse_attempt_id old = lse_attempt_id new),
         (''tenant_id'', lse_tenant_id old = lse_tenant_id new),
         (''epoch'', lse_epoch old = lse_epoch new),
         (''acquired_at'', lse_acquired_at old = lse_acquired_at new),
         (''deadline'', lse_deadline old = lse_deadline new),
         (''owner'', lse_owner old = lse_owner new)]) (\<lambda>_.
     if old = new then Inr Unchanged
     else if lse_released_at old \<noteq> None
     then Inl (Refused (''lease '' @ as_str (lse_id old) @ '' is released''))
     else Inr Apply)"

section \<open>The order of a table\<close>

text \<open>
  \<open>rows_le R m m'\<close>: every row of \<open>m\<close> is still in \<open>m'\<close> under its key, related by \<open>R\<close>.  With
  a reflexive and transitive \<open>R\<close> it is a preorder on tables, so a fact about one operation
  extends to every sequence of operations.
\<close>

definition rows_le :: "('v \<Rightarrow> 'v \<Rightarrow> bool) \<Rightarrow> ('k::linorder, 'v) btreemap \<Rightarrow> ('k, 'v) btreemap \<Rightarrow> bool" where
  "rows_le R m m' \<longleftrightarrow> (\<forall>k v. bt_get m k = Some v \<longrightarrow> (\<exists>v'. bt_get m' k = Some v' \<and> R v v'))"

lemma rows_leD: "rows_le R m m' \<Longrightarrow> bt_get m k = Some v \<Longrightarrow> \<exists>v'. bt_get m' k = Some v' \<and> R v v'"
  by (simp add: rows_le_def)

lemma rows_le_refl: "reflp R \<Longrightarrow> rows_le R m m"
  by (simp add: rows_le_def reflpD)

lemma rows_le_trans: "transp R \<Longrightarrow> rows_le R m m' \<Longrightarrow> rows_le R m' m'' \<Longrightarrow> rows_le R m m''"
  unfolding rows_le_def by (blast dest: transpD)

lemma rows_le_insert:
  assumes "reflp R" "\<And>old. bt_get m k = Some old \<Longrightarrow> R old v"
  shows "rows_le R m (bt_insert k v m)"
  using assms by (auto simp: rows_le_def reflpD)

lemma rows_le_map:
  assumes "\<And>k v. bt_get m k = Some v \<Longrightarrow> R v (f k v)"
  shows "rows_le R m (bt_map f m)"
  using assms by (simp add: rows_le_def)

lemma rows_le_mono: "rows_le R m m' \<Longrightarrow> (\<And>v v'. R v v' \<Longrightarrow> S v v') \<Longrightarrow> rows_le S m m'"
  unfolding rows_le_def by blast

text \<open>
  A guarded table write, the shape of the five \<open>update\<close> operations of the stores: not
  found, refused, unchanged or replaced.
\<close>

definition table_update ::
  "('v \<Rightarrow> 'v \<Rightarrow> RepoError + Write) \<Rightarrow> string \<Rightarrow> 'k::linorder \<Rightarrow> 'v \<Rightarrow> ('k, 'v) btreemap
     \<Rightarrow> RepoError + ('k, 'v) btreemap" where
  "table_update guard what k row m =
     (case bt_get m k of
        None \<Rightarrow> Inl (NotFound what)
      | Some slot \<Rightarrow> and_then (guard slot row)
          (\<lambda>w. Inr (if w = Apply then bt_insert k row m else m)))"

lemma table_update_ok:
  "table_update guard what k row m = Inr m' \<longleftrightarrow>
     (\<exists>slot. bt_get m k = Some slot \<and>
        (guard slot row = Inr Apply \<and> m' = bt_insert k row m \<or>
         guard slot row = Inr Unchanged \<and> m' = m))"
proof -
  have "w = Apply \<or> w = Unchanged" for w by (cases w) auto
  then show ?thesis
    by (auto simp: table_update_def split: option.splits)
qed

text \<open>The order of the rows themselves: identity fixed, a final row fixed altogether.\<close>

definition row_le :: "('v \<Rightarrow> 'i) \<Rightarrow> ('v \<Rightarrow> bool) \<Rightarrow> 'v \<Rightarrow> 'v \<Rightarrow> bool" where
  "row_le identity final old new \<longleftrightarrow> identity new = identity old \<and> (final old \<longrightarrow> new = old)"

lemma row_le_refl: "reflp (row_le identity final)"
  by (simp add: row_le_def reflp_def)

lemma row_le_trans: "transp (row_le identity final)"
  by (auto simp: row_le_def transp_def)

locale guarded_row =
  fixes guard :: "'v \<Rightarrow> 'v \<Rightarrow> RepoError + Write"
    and identity :: "'v \<Rightarrow> 'i"
    and final :: "'v \<Rightarrow> bool"
  assumes guard_Apply: "guard old new = Inr Apply \<Longrightarrow> identity new = identity old \<and> \<not> final old"
    and guard_Unchanged: "guard old new = Inr Unchanged \<longleftrightarrow> new = old"
begin

lemma guard_row_le: "guard old new = Inr w \<Longrightarrow> row_le identity final old new"
  by (cases w) (auto simp: row_le_def guard_Unchanged dest: guard_Apply)

text \<open>A final row takes exactly its own copy: anything else is an error.\<close>

lemma guard_final: "final old \<Longrightarrow> guard old new = Inr w \<Longrightarrow> new = old \<and> w = Unchanged"
  by (cases w) (auto simp: guard_Unchanged dest: guard_Apply)

lemma table_update_le: "table_update guard what k row m = Inr m' \<Longrightarrow> rows_le (row_le identity final) m m'"
  by (auto simp: table_update_ok intro!: rows_le_insert rows_le_refl row_le_refl
      dest: guard_row_le)

lemma table_update_final:
  "bt_get m k = Some old \<Longrightarrow> final old \<Longrightarrow> table_update guard what k row m = Inr m' \<Longrightarrow> m' = m"
  by (auto simp: table_update_ok dest: guard_Apply)

end

section \<open>The guards satisfy the contract\<close>

definition fn_identity :: "Function \<Rightarrow> FunctionId \<times> TenantId \<times> FunctionName \<times> Timestamp" where
  "fn_identity f = (fn_id f, fn_tenant_id f, fn_name f, fn_created_at f)"

text \<open>A function is final once its deletion drained; until then a deleted one keeps its fields.\<close>

definition fn_final :: "Function \<Rightarrow> bool" where
  "fn_final f \<longleftrightarrow> fn_is_deleted f \<and> fn_drained_at f \<noteq> None"

definition rev_identity where
  "rev_identity r = (rev_id r, rev_function_id r, rev_tenant_id r, rev_number r, rev_spec r,
     rev_spec_digest r, rev_created_at r)"

definition inv_identity where
  "inv_identity i = (inv_id i, inv_tenant_id i, inv_function_id i, inv_alias i, inv_mode i,
     inv_event_kind i, inv_idempotency_key i, inv_input_digest i, inv_input_size_bytes i,
     inv_trace_id i, inv_accepted_at i, inv_dispatcher_id i)"

definition att_identity where
  "att_identity a = (att_id a, att_invocation_id a, att_tenant_id a, att_number a,
     att_environment_id a, att_epoch a, att_start_kind a, att_dispatched_at a)"

definition env_identity where
  "env_identity e = (env_id e, env_tenant_id e, env_revision_id e, env_provider e,
     env_reuse_key e, env_owner e, env_created_at e)"

definition lse_identity where
  "lse_identity l = (lse_id l, lse_environment_id l, lse_attempt_id l, lse_tenant_id l,
     lse_epoch l, lse_acquired_at l, lse_deadline l, lse_owner l)"

lemmas identity_defs = fn_identity_def rev_identity_def inv_identity_def att_identity_def
  env_identity_def lse_identity_def

definition rev_final :: "FunctionRevision \<Rightarrow> bool" where
  [simp]: "rev_final r \<longleftrightarrow> RS_is_terminal (rev_status r)"

definition inv_final :: "Invocation \<Rightarrow> bool" where
  [simp]: "inv_final i \<longleftrightarrow> IS_is_terminal (inv_status i)"

definition att_final :: "InvocationAttempt \<Rightarrow> bool" where
  [simp]: "att_final a \<longleftrightarrow> AS_is_terminal (att_status a)"

definition lse_final :: "ExecutionLease \<Rightarrow> bool" where
  [simp]: "lse_final l \<longleftrightarrow> lse_released_at l \<noteq> None"


lemma environment_identity_ok [simp]:
  "environment_identity old new = Inr u \<longleftrightarrow> env_identity new = env_identity old"
  by (auto simp: environment_identity_def env_identity_def)

interpretation fn_row: guarded_row function_update fn_identity fn_final
  by unfold_locales
     (auto simp: function_update_def fn_identity_def fn_final_def fn_is_deleted_def split: if_splits)

interpretation rev_row: guarded_row revision_update rev_identity rev_final
  by unfold_locales (auto simp: revision_update_def rev_identity_def split: if_splits)

interpretation inv_row: guarded_row "invocation_update max_inline_bytes" inv_identity inv_final
  for max_inline_bytes
  by unfold_locales (auto simp: invocation_update_def inv_identity_def split: if_splits)

interpretation att_row: guarded_row attempt_update att_identity att_final
  by unfold_locales (auto simp: attempt_update_def att_identity_def split: if_splits)

interpretation env_row: guarded_row environment_update env_identity env_is_terminal
  by unfold_locales (auto simp: environment_update_def split: if_splits)

interpretation lse_row: guarded_row lease_update lse_identity lse_final
  by unfold_locales (auto simp: lease_update_def lse_identity_def split: if_splits)

lemma environment_update_Apply:
  "environment_update old new = Inr Apply \<longleftrightarrow>
     env_identity new = env_identity old \<and> new \<noteq> old \<and> \<not> env_is_terminal old \<and>
     env_epoch new = env_epoch old \<and> env_fenced_at new = env_fenced_at old \<and>
     (env_state new = ES_Busy \<longrightarrow> env_state old = ES_Busy)"
  by (auto simp: environment_update_def)

lemma alias_update_ok:
  "alias_update old new = Inr u \<longleftrightarrow>
     al_function_id new = al_function_id old \<and> al_tenant_id new = al_tenant_id old \<and>
     al_name new = al_name old \<and> al_created_at new = al_created_at old \<and>
     al_generation old < al_generation new"
  by (auto simp: alias_update_def not_le)

lemma alias_target_ok:
  "alias_target f r a = Inr u \<longleftrightarrow>
     (\<forall>f'. f = Some f' \<longrightarrow> al_tenant_id a = fn_tenant_id f') \<and>
     (\<exists>r'. r = Some r' \<and> rev_function_id r' = al_function_id a
        \<and> rev_tenant_id r' = al_tenant_id a)"
  by (auto simp: alias_target_def split: option.splits)

lemma function_update_Apply:
  "function_update old new = Inr Apply \<longleftrightarrow>
     fn_identity new = fn_identity old \<and> new \<noteq> old \<and>
     (fn_is_deleted old \<longrightarrow> fn_drained_at old = None \<and> fn_drained_at new \<noteq> None
        \<and> fn_deleted_at new = fn_deleted_at old \<and> fn_description new = fn_description old
        \<and> fn_updated_at old \<le> fn_updated_at new)"
  by (auto simp: function_update_def fn_identity_def)

end
