(* ===== verification/Usage.thy ===== *)
theory Usage
  imports Ids
begin

text \<open>
  \<open>crates/domain/src/usage.rs\<close>: host-observed usage facts.  Every quantity says who measured it;
  rating reads host-measured and provider-reported quantities only.  Counters of type \<open>u64\<close> and
  \<open>u32\<close> are natural numbers; where the sources saturate, the bound is written out.
\<close>

definition USAGE_SCHEMA_VERSION :: nat where
  "USAGE_SCHEMA_VERSION = 2"

datatype UsageEventType =
    UE_EnvironmentStarted | UE_HandlerStarted | UE_HandlerFinished | UE_AttemptSettled
  | UE_EnvironmentStopped

fun UsageEventType_as_str :: "UsageEventType \<Rightarrow> string" where
  "UsageEventType_as_str UE_EnvironmentStarted = ''environment_started''"
| "UsageEventType_as_str UE_HandlerStarted = ''handler_started''"
| "UsageEventType_as_str UE_HandlerFinished = ''handler_finished''"
| "UsageEventType_as_str UE_AttemptSettled = ''attempt_settled''"
| "UsageEventType_as_str UE_EnvironmentStopped = ''environment_stopped''"

datatype EvidenceQuality = EQ_HostObserved | EQ_GuestReported | EQ_Unknown

section \<open>Measured quantities\<close>

datatype Measurement = MS_HostMeasured | MS_ProviderReported | MS_GuestReported | MS_Unknown

definition ms_ratable :: "Measurement \<Rightarrow> bool" where
  "ms_ratable m \<longleftrightarrow> m = MS_HostMeasured \<or> m = MS_ProviderReported"

fun Measurement_as_str :: "Measurement \<Rightarrow> string" where
  "Measurement_as_str MS_HostMeasured = ''host_measured''"
| "Measurement_as_str MS_ProviderReported = ''provider_reported''"
| "Measurement_as_str MS_GuestReported = ''guest_reported''"
| "Measurement_as_str MS_Unknown = ''unknown''"

record Metered =
  mt_value :: "nat option"
  mt_measurement :: Measurement

definition mt_unknown :: Metered where
  "mt_unknown = \<lparr> mt_value = None, mt_measurement = MS_Unknown \<rparr>"

definition mt_host :: "nat \<Rightarrow> Metered" where
  "mt_host v = \<lparr> mt_value = Some v, mt_measurement = MS_HostMeasured \<rparr>"

definition mt_provider :: "nat \<Rightarrow> Metered" where
  "mt_provider v = \<lparr> mt_value = Some v, mt_measurement = MS_ProviderReported \<rparr>"

definition mt_guest :: "nat \<Rightarrow> Metered" where
  "mt_guest v = \<lparr> mt_value = Some v, mt_measurement = MS_GuestReported \<rparr>"

definition mt_host_opt :: "nat option \<Rightarrow> Metered" where
  "mt_host_opt v = (case v of None \<Rightarrow> mt_unknown | Some x \<Rightarrow> mt_host x)"

definition ratable_value :: "Metered \<Rightarrow> nat option" where
  "ratable_value m = (if ms_ratable (mt_measurement m) then mt_value m else None)"

definition mt_is_unknown :: "Metered \<Rightarrow> bool" where
  "mt_is_unknown m \<longleftrightarrow> ratable_value m = None"

section \<open>Attempts and segments\<close>

datatype AttemptKind = AK_First | AK_Retry

definition AttemptKind_from_number :: "nat \<Rightarrow> AttemptKind" where
  "AttemptKind_from_number n = (if n = 0 \<or> n = 1 then AK_First else AK_Retry)"

datatype UsageOutcome = UO_Succeeded | UO_Failed | UO_Timeout | UO_Cancelled | UO_OutcomeUnknown

fun UsageOutcome_as_str :: "UsageOutcome \<Rightarrow> string" where
  "UsageOutcome_as_str UO_Succeeded = ''succeeded''"
| "UsageOutcome_as_str UO_Failed = ''failed''"
| "UsageOutcome_as_str UO_Timeout = ''timeout''"
| "UsageOutcome_as_str UO_Cancelled = ''cancelled''"
| "UsageOutcome_as_str UO_OutcomeUnknown = ''outcome_unknown''"

record UsageSegments =
  us_queue_wait_ms :: Metered
  us_vm_base_boot_ms :: Metered
  us_user_init_ms :: Metered
  us_handler_ms :: Metered
  us_teardown_ms :: Metered
  us_idle_pooled_ms :: Metered

definition UsageSegments_default :: UsageSegments where
  "UsageSegments_default = \<lparr> us_queue_wait_ms = mt_unknown, us_vm_base_boot_ms = mt_unknown,
     us_user_init_ms = mt_unknown, us_handler_ms = mt_unknown, us_teardown_ms = mt_unknown,
     us_idle_pooled_ms = mt_unknown \<rparr>"

definition us_named :: "UsageSegments \<Rightarrow> (string \<times> Metered) list" where
  "us_named s =
     [(''queue_wait_ms'', us_queue_wait_ms s), (''vm_base_boot_ms'', us_vm_base_boot_ms s),
      (''user_init_ms'', us_user_init_ms s), (''handler_ms'', us_handler_ms s),
      (''teardown_ms'', us_teardown_ms s), (''idle_pooled_ms'', us_idle_pooled_ms s)]"

definition us_get :: "UsageSegments \<Rightarrow> string \<Rightarrow> Metered option" where
  "us_get s name = map_option snd (find (\<lambda>(n, _). n = name) (us_named s))"

record UsageResources =
  ur_requested_cpu_millis :: nat
  ur_requested_memory_mib :: nat
  ur_requested_storage_mib :: nat
  ur_cgroup_cpu_usec :: Metered
  ur_cgroup_memory_peak_bytes :: Metered

definition UsageResources_default :: UsageResources where
  "UsageResources_default = \<lparr> ur_requested_cpu_millis = 0, ur_requested_memory_mib = 0,
     ur_requested_storage_mib = 0, ur_cgroup_cpu_usec = mt_unknown,
     ur_cgroup_memory_peak_bytes = mt_unknown \<rparr>"

record UsageBytes =
  ub_request_bytes :: Metered
  ub_response_bytes :: Metered

definition UsageBytes_default :: UsageBytes where
  "UsageBytes_default = \<lparr> ub_request_bytes = mt_unknown, ub_response_bytes = mt_unknown \<rparr>"

record GuestReportedUsage =
  gr_init_ms :: "nat option"
  gr_handler_ms :: "nat option"

definition GuestReportedUsage_default :: GuestReportedUsage where
  "GuestReportedUsage_default = \<lparr> gr_init_ms = None, gr_handler_ms = None \<rparr>"

datatype WallClockSource = WC_HostClock | WC_Unknown

datatype StoppedBy = SB_Owner | SB_Pool | SB_Reclaim | SB_Reconcile

fun StoppedBy_as_str :: "StoppedBy \<Rightarrow> string" where
  "StoppedBy_as_str SB_Owner = ''owner''"
| "StoppedBy_as_str SB_Pool = ''pool''"
| "StoppedBy_as_str SB_Reclaim = ''reclaim''"
| "StoppedBy_as_str SB_Reconcile = ''reconcile''"

datatype LifetimeSource = LS_LedgerOwnerClock | LS_LedgerReclaimerClock | LS_Unknown

section \<open>Events\<close>

definition environment_stopped_event_id :: "EnvironmentId \<Rightarrow> string" where
  "environment_stopped_event_id i = as_str i @ '':environment-stopped''"

definition STOP_SEQUENCE_UNKNOWN :: nat where
  "STOP_SEQUENCE_UNKNOWN = 2 ^ 63 - 1"

record UsageEvent =
  ue_event_id :: string
  ue_tenant_id :: TenantId
  ue_environment_id :: EnvironmentId
  ue_invocation_id :: "InvocationId option"
  ue_attempt_id :: "AttemptId option"
  ue_event_type :: UsageEventType
  ue_sequence :: nat
  ue_observed_at :: Timestamp
  ue_monotonic_duration_ms :: "nat option"
  ue_memory_mib :: nat
  ue_cpu_millis :: nat
  ue_bytes_in :: nat
  ue_bytes_out :: nat
  ue_meter_version :: nat
  ue_evidence_quality :: EvidenceQuality
  ue_function_id :: "FunctionId option"
  ue_revision_id :: "RevisionId option"
  ue_attempt_number :: "nat option"
  ue_attempt_kind :: "AttemptKind option"
  ue_outcome :: "UsageOutcome option"
  ue_epoch :: nat
  ue_boot_id :: "string option"
  ue_wall_clock_source :: WallClockSource
  ue_segments :: UsageSegments
  ue_resources :: UsageResources
  ue_bytes :: UsageBytes
  ue_guest_reported :: GuestReportedUsage
  ue_stopped_by :: "StoppedBy option"
  ue_lifetime_source :: LifetimeSource

definition UsageEvent_new ::
  "string \<Rightarrow> TenantId \<Rightarrow> EnvironmentId \<Rightarrow> UsageEventType \<Rightarrow> nat \<Rightarrow> Timestamp \<Rightarrow> UsageEvent" where
  "UsageEvent_new event_id tenant environment event_type sequence observed_at =
     \<lparr> ue_event_id = event_id, ue_tenant_id = tenant, ue_environment_id = environment,
       ue_invocation_id = None, ue_attempt_id = None, ue_event_type = event_type,
       ue_sequence = sequence, ue_observed_at = observed_at, ue_monotonic_duration_ms = None,
       ue_memory_mib = 0, ue_cpu_millis = 0, ue_bytes_in = 0, ue_bytes_out = 0,
       ue_meter_version = USAGE_SCHEMA_VERSION, ue_evidence_quality = EQ_HostObserved,
       ue_function_id = None, ue_revision_id = None, ue_attempt_number = None,
       ue_attempt_kind = None, ue_outcome = None, ue_epoch = 0, ue_boot_id = None,
       ue_wall_clock_source = WC_HostClock, ue_segments = UsageSegments_default,
       ue_resources = UsageResources_default, ue_bytes = UsageBytes_default,
       ue_guest_reported = GuestReportedUsage_default, ue_stopped_by = None,
       ue_lifetime_source = LS_Unknown \<rparr>"

section \<open>What the host knows of an event\<close>

text \<open>The constructors keep the documented invariant: no value exactly when nobody measured.\<close>

definition mt_wf :: "Metered \<Rightarrow> bool" where
  "mt_wf m \<longleftrightarrow> (mt_value m = None \<longleftrightarrow> mt_measurement m = MS_Unknown)"

lemma mt_wf_constructors [simp]:
  "mt_wf mt_unknown" "mt_wf (mt_host v)" "mt_wf (mt_provider v)" "mt_wf (mt_guest v)" "mt_wf (mt_host_opt o')"
  by (auto simp: mt_wf_def mt_unknown_def mt_host_def mt_provider_def mt_guest_def mt_host_opt_def
      split: option.split)

lemma ratable_value_simps [simp]:
  "ratable_value mt_unknown = None" "ratable_value (mt_host v) = Some v"
  "ratable_value (mt_provider v) = Some v" "ratable_value (mt_guest v) = None"
  by (simp_all add: ratable_value_def ms_ratable_def mt_unknown_def mt_host_def mt_provider_def mt_guest_def)

end
