(* ===== verification/Sql_Env.thy ===== *)
theory Sql_Env
  imports Machine_Ints
begin

text \<open>
  What a call into an embedded SQLite store meets outside its own statements: whether another caller
  kept the connection (\<open>crates/application/src/sqlite_wait.rs\<close>), whether opening the database
  fails, and an error of the engine together with whether its code makes the store drop the
  connection.  The stores are those with a file: a connection that was dropped is opened again on the
  rows that were there.  Without a file it would be opened on an empty database; that is not modelled.
\<close>

record SqlEnv =
  sq_locked :: bool
  sq_open_error :: "string option"
  sq_fault :: "(string \<times> bool) option"
  sq_check_message :: "string \<Rightarrow> string"

text \<open>A call that meets nothing unusual.\<close>

definition calm :: SqlEnv where
  "calm = \<lparr> sq_locked = False, sq_open_error = None, sq_fault = None, sq_check_message = (\<lambda>c. c) \<rparr>"

definition busy_message :: "string \<Rightarrow> string" where
  "busy_message store = ''the '' @ store @ '' connection stayed busy for '' @ show_nat 5 @ '' s (database locked?)''"

end
