(* ===== verification/Usage_Journal.thy ===== *)
theory Usage_Journal
  imports Usage Sql_Env BTree_Sum
begin

text \<open>
  \<open>crates/application/src/usage/journal.rs\<close>: the bounded, append-only journal of usage events.
  The tables are maps from their keys and each call is its transaction; sequence numbers and the
  counters of pending rows are natural numbers (they count rows of one database).  The JSON text of
  an event, the digest and the text of an instant come from libraries and are the parameter
  \<open>UsageCodec\<close>.
\<close>

record UsageCodec =
  uc_json :: "UsageEvent \<Rightarrow> string + string"
  uc_parse :: "string \<Rightarrow> string + UsageEvent"
  uc_sha256_hex :: "string \<Rightarrow> string"
  uc_ts :: "Timestamp \<Rightarrow> string"

definition GENESIS_CHAIN :: string where
  "GENESIS_CHAIN = ''genesis''"

datatype JournalRefusal = JF_Full | JF_Unavailable

fun JournalRefusal_as_str :: "JournalRefusal \<Rightarrow> string" where
  "JournalRefusal_as_str JF_Full = ''usage_journal_full''"
| "JournalRefusal_as_str JF_Unavailable = ''usage_journal_unavailable''"

record JournalLimits =
  jl_max_events :: nat
  jl_max_bytes :: nat
  jl_admission_headroom_events :: nat
  jl_admission_headroom_bytes :: nat

record JournalEntry =
  je_seq :: nat
  je_event :: UsageEvent
  je_chain :: string

record journal_row =
  jr_event_id :: string
  jr_tenant_id :: string
  jr_body :: string
  jr_body_bytes :: nat
  jr_chain :: string
  jr_appended_at :: string

text \<open>\<open>jd_sequence\<close> is the largest key \<open>AUTOINCREMENT\<close> ever gave out.\<close>

record JournalDb =
  jd_rows :: "(nat, journal_row) btreemap"
  jd_sequence :: nat
  jd_cursor_seq :: nat
  jd_cursor_chain :: string
  jd_pending_events :: nat
  jd_pending_bytes :: nat
  jd_losses :: "(string, nat) btreemap"

definition JournalDb_empty :: JournalDb where
  "JournalDb_empty = \<lparr> jd_rows = bt_empty, jd_sequence = 0, jd_cursor_seq = 0,
     jd_cursor_chain = GENESIS_CHAIN, jd_pending_events = 0, jd_pending_bytes = 0, jd_losses = bt_empty \<rparr>"

record UsageJournal =
  uj_path :: "string option"
  uj_db :: JournalDb
  uj_open :: bool
  uj_limits :: JournalLimits
  uj_last_error :: "string option"
  uj_lost_unavailable :: "(string, nat) btreemap"
  uj_forced_unavailable :: bool

text \<open>\<open>UsageJournal::open\<close> of a new database; \<open>e\<close> is the error of opening it, if any.\<close>

definition UsageJournal_open :: "string option \<Rightarrow> string option \<Rightarrow> JournalLimits \<Rightarrow> UsageJournal" where
  "UsageJournal_open path e limits = \<lparr> uj_path = path, uj_db = JournalDb_empty, uj_open = (e = None), uj_limits = limits,
     uj_last_error = e, uj_lost_unavailable = bt_empty, uj_forced_unavailable = False \<rparr>"

definition chain_next :: "UsageCodec \<Rightarrow> string \<Rightarrow> string \<Rightarrow> string" where
  "chain_next cx previous body = uc_sha256_hex cx (previous @ [CHR 0x0A] @ body)"

definition uj_force_unavailable :: "bool \<Rightarrow> UsageJournal \<Rightarrow> UsageJournal" where
  "uj_force_unavailable unavailable j = j\<lparr> uj_forced_unavailable := unavailable \<rparr>"

text \<open>
  \<open>probe\<close> does not wait for the connection: here \<open>sq_locked\<close> says whether \<open>try_lock\<close> fails.  A journal
  that is kept in memory (no path) is gone with its connection: it opens empty.
\<close>

definition uj_probe :: "SqlEnv \<Rightarrow> UsageJournal \<Rightarrow> bool \<times> UsageJournal" where
  "uj_probe env j =
     (if uj_forced_unavailable j then (False, j)
      else if sq_locked env then (False, j)
      else if uj_open j then (True, j)
      else case sq_open_error env of
             None \<Rightarrow> (True, j\<lparr> uj_db := (if uj_path j = None then JournalDb_empty else uj_db j),
                              uj_open := True, uj_last_error := None \<rparr>)
           | Some e \<Rightarrow> (False, j\<lparr> uj_last_error := Some e \<rparr>))"

definition with_conn :: "SqlEnv \<Rightarrow> (JournalDb \<Rightarrow> 'a \<times> JournalDb) \<Rightarrow> UsageJournal \<Rightarrow> (string + 'a) \<times> UsageJournal" where
  "with_conn env f j =
     (if uj_forced_unavailable j then (Inl ''usage journal is unavailable (forced)'', j)
      else if sq_locked env then
        (Inl (busy_message ''usage journal''), j\<lparr> uj_last_error := Some (busy_message ''usage journal'') \<rparr>)
      else if \<not> uj_open j then
        (Inl (case uj_last_error j of Some e \<Rightarrow> e | None \<Rightarrow> ''usage journal is not open''), j)
      else case sq_fault env of
             Some (msg, drops) \<Rightarrow>
               (Inl msg, j\<lparr> uj_open := \<not> drops, uj_last_error := Some msg \<rparr>)
           | None \<Rightarrow> (let (v, db) = f (uj_db j) in (Inr v, j\<lparr> uj_db := db \<rparr>)))"

definition note_unavailable_loss :: "string \<Rightarrow> UsageJournal \<Rightarrow> UsageJournal" where
  "note_unavailable_loss tenant j = j\<lparr> uj_lost_unavailable := bt_insert tenant
     ((case bt_get (uj_lost_unavailable j) tenant of Some n \<Rightarrow> n | None \<Rightarrow> 0) + 1) (uj_lost_unavailable j) \<rparr>"

text \<open>The chain of the newest row, or of the cursor when every row was collected.\<close>

definition last_chain :: "JournalDb \<Rightarrow> string" where
  "last_chain db =
     (case rev (bt_values (jd_rows db)) of [] \<Rightarrow> jd_cursor_chain db | r # _ \<Rightarrow> jr_chain r)"

definition append_tx ::
  "UsageCodec \<Rightarrow> JournalLimits \<Rightarrow> UsageEvent \<Rightarrow> string \<Rightarrow> Timestamp \<Rightarrow> JournalDb \<Rightarrow> nat option \<times> JournalDb" where
  "append_tx cx limits event body now db =
     (let tenant = as_str (ue_tenant_id event); bytes = length body
      in if jd_pending_events db + 1 > jl_max_events limits \<or> jd_pending_bytes db + bytes > jl_max_bytes limits
         then (None, db\<lparr> jd_losses := bt_insert tenant
                 ((case bt_get (jd_losses db) tenant of Some n \<Rightarrow> n | None \<Rightarrow> 0) + 1) (jd_losses db) \<rparr>)
         else
           let seq = jd_sequence db + 1;
               row = \<lparr> jr_event_id = ue_event_id event, jr_tenant_id = tenant, jr_body = body,
                       jr_body_bytes = bytes, jr_chain = chain_next cx (last_chain db) body,
                       jr_appended_at = uc_ts cx now \<rparr>
           in (Some seq, db\<lparr> jd_rows := bt_insert seq row (jd_rows db), jd_sequence := seq,
                 jd_pending_events := jd_pending_events db + 1,
                 jd_pending_bytes := jd_pending_bytes db + bytes \<rparr>))"

definition uj_append ::
  "UsageCodec \<Rightarrow> SqlEnv \<Rightarrow> UsageEvent \<Rightarrow> Timestamp \<Rightarrow> UsageJournal \<Rightarrow> (JournalRefusal + nat) \<times> UsageJournal" where
  "uj_append cx env event now j =
     (let tenant = as_str (ue_tenant_id event)
      in case uc_json cx event of
           Inl _ \<Rightarrow> (Inl JF_Unavailable, note_unavailable_loss tenant j)
         | Inr body \<Rightarrow>
             (case with_conn env (append_tx cx (uj_limits j) event body now) j of
                (Inr (Some seq), j) \<Rightarrow> (Inr seq, j)
              | (Inr None, j) \<Rightarrow> (Inl JF_Full, j)
              | (Inl _, j) \<Rightarrow> (Inl JF_Unavailable, note_unavailable_loss tenant j)))"

definition uj_admission :: "SqlEnv \<Rightarrow> UsageJournal \<Rightarrow> (JournalRefusal + unit) \<times> UsageJournal" where
  "uj_admission env j =
     (let limits = uj_limits j
      in case with_conn env (\<lambda>db. ((jd_pending_events db, jd_pending_bytes db), db)) j of
           (Inl _, j) \<Rightarrow> (Inl JF_Unavailable, j)
         | (Inr (events, bytes), j) \<Rightarrow>
             if jl_max_events limits - events \<le> jl_admission_headroom_events limits
                \<or> jl_max_bytes limits - bytes \<le> jl_admission_headroom_bytes limits
             then (Inl JF_Full, j) else (Inr (), j))"

text \<open>The rows of a batch, each checked against the chain and parsed.\<close>

fun check_rows :: "UsageCodec \<Rightarrow> string \<Rightarrow> (nat \<times> journal_row) list \<Rightarrow> string + JournalEntry list" where
  "check_rows cx previous [] = Inr []"
| "check_rows cx previous ((seq, r) # rows) =
     (if chain_next cx previous (jr_body r) \<noteq> jr_chain r
      then Inl (''usage journal integrity: row '' @ show_nat seq
                @ '' does not continue the chain (modified, inserted or deleted rows before it)'')
      else case uc_parse cx (jr_body r) of
             Inl e \<Rightarrow> Inl (''usage journal integrity: row '' @ show_nat seq @ '' is not an event: '' @ e)
           | Inr event \<Rightarrow>
               and_then (check_rows cx (jr_chain r) rows) (\<lambda>entries.
                 Inr (\<lparr> je_seq = seq, je_event = event, je_chain = jr_chain r \<rparr> # entries)))"

definition rows_after :: "nat \<Rightarrow> nat \<Rightarrow> JournalDb \<Rightarrow> (nat \<times> journal_row) list" where
  "rows_after cursor limit db = take limit (filter (\<lambda>(seq, _). seq > cursor) (bt_entries (jd_rows db)))"

definition read_batch ::
  "UsageCodec \<Rightarrow> SqlEnv \<Rightarrow> nat \<Rightarrow> UsageJournal \<Rightarrow> (string + nat \<times> string \<times> JournalEntry list) \<times> UsageJournal" where
  "read_batch cx env limit j =
     (case with_conn env (\<lambda>db. ((jd_cursor_seq db, jd_cursor_chain db, rows_after (jd_cursor_seq db) limit db), db)) j of
        (Inl e, j) \<Rightarrow> (Inl (''usage journal unavailable: '' @ e), j)
      | (Inr (cursor_seq, cursor_chain, rows), j) \<Rightarrow>
          (and_then (check_rows cx cursor_chain rows) (\<lambda>entries. Inr (cursor_seq, cursor_chain, entries)), j))"

definition commit_tx :: "nat \<Rightarrow> nat \<Rightarrow> string \<Rightarrow> JournalDb \<Rightarrow> bool \<times> JournalDb" where
  "commit_tx from_seq to_seq to_chain db =
     (let rows = filter (\<lambda>(seq, _). from_seq < seq \<and> seq \<le> to_seq) (bt_entries (jd_rows db));
          count = length rows;
          bytes = sum_list (map (\<lambda>(_, r). jr_body_bytes r) rows)
      in if jd_cursor_seq db = from_seq
         then (True, db\<lparr> jd_cursor_seq := to_seq, jd_cursor_chain := to_chain,
                jd_pending_events := jd_pending_events db - count,
                jd_pending_bytes := jd_pending_bytes db - bytes,
                jd_rows := bt_retain (\<lambda>seq _. \<not> seq \<le> to_seq) (jd_rows db) \<rparr>)
         else (False, db))"

definition commit_cursor ::
  "SqlEnv \<Rightarrow> nat \<Rightarrow> nat \<Rightarrow> string \<Rightarrow> UsageJournal \<Rightarrow> (string + bool) \<times> UsageJournal" where
  "commit_cursor env from_seq to_seq to_chain j = with_conn env (commit_tx from_seq to_seq to_chain) j"

definition head_seq :: "SqlEnv \<Rightarrow> UsageJournal \<Rightarrow> (string + nat) \<times> UsageJournal" where
  "head_seq env j = with_conn env
     (\<lambda>db. (max (case rev (bt_keys (jd_rows db)) of [] \<Rightarrow> 0 | s # _ \<Rightarrow> s) (jd_cursor_seq db), db)) j"

definition unjournaled_for :: "SqlEnv \<Rightarrow> string \<Rightarrow> UsageJournal \<Rightarrow> nat \<times> UsageJournal" where
  "unjournaled_for env tenant j =
     (let in_memory = (case bt_get (uj_lost_unavailable j) tenant of Some n \<Rightarrow> n | None \<Rightarrow> 0)
      in case with_conn env (\<lambda>db. (bt_get (jd_losses db) tenant, db)) j of
           (Inr (Some n), j) \<Rightarrow> (in_memory + n, j)
         | (_, j) \<Rightarrow> (in_memory, j))"

record JournalStatus =
  js_healthy :: bool
  js_durable :: bool
  js_path :: "string option"
  js_pending_events :: nat
  js_pending_bytes :: nat
  js_cursor_seq :: nat
  js_limits :: JournalLimits
  js_admitting :: bool
  js_unjournaled_events :: nat
  js_last_error :: "string option"

definition uj_status :: "SqlEnv \<Rightarrow> SqlEnv \<Rightarrow> UsageJournal \<Rightarrow> JournalStatus \<times> UsageJournal" where
  "uj_status env env' j =
     (let (state, j) = with_conn env
            (\<lambda>db. ((jd_cursor_seq db, jd_pending_events db, jd_pending_bytes db,
                    sum_list (bt_values (jd_losses db))), db)) j;
          (admission, j) = uj_admission env' j;
          lost_memory = sum_list (bt_values (uj_lost_unavailable j));
          (healthy, cursor_seq, events, bytes, lost_disk) =
            (case state of Inr s \<Rightarrow> (True, s) | Inl _ \<Rightarrow> (False, 0, 0, 0, 0))
      in (\<lparr> js_healthy = healthy, js_durable = (uj_path j \<noteq> None), js_path = uj_path j, js_pending_events = events, js_pending_bytes = bytes,
            js_cursor_seq = cursor_seq, js_limits = uj_limits j, js_admitting = is_ok admission,
            js_unjournaled_events = lost_disk + lost_memory, js_last_error = uj_last_error j \<rparr>, j))"

end
