(* ===== verification/App_Errors.thy ===== *)
theory App_Errors
  imports Admission Guard Usage_Journal
begin

text \<open>
  \<open>crates/application/src/error.rs\<close> and \<open>authz.rs\<close>: the error of every service, its stable code,
  HTTP status and body, the conversions from the errors of the lower layers, and the role and tenant
  checks, with the types they name (\<open>crates/api-types/src/lib.rs\<close>, \<open>crates/provider-port/src/\<close>, the
  refusals of the control plane, of asynchronous invocation and of budgets).  The texts of operating
  system errors are the strings the constructors carry.
\<close>

section \<open>Codes and refusals\<close>

datatype ErrorCode =
    Unauthorized_Code | Forbidden_Code | NotFound_Code | Conflict_Code | InvalidRequest_Code
  | PayloadTooLarge_Code | CapacityExceeded_Code | RevisionNotReady_Code | FunctionDeleted_Code
  | UserError_Code | Crash_Code | InitError_Code | Timeout_Code | QueueTimeout_Code | Cancelled_Code
  | OutcomeUnknown_Code | PlatformError_Code | ProviderUnavailable_Code | ConfigUnavailable_Code
  | ControlPlaneUnavailable_Code | AsyncUnavailable_Code | UsageJournalFull_Code | Gone_Code
  | BudgetExhausted_Code | BudgetUnavailable_Code

fun ErrorCode_http_status :: "ErrorCode \<Rightarrow> nat" where
  "ErrorCode_http_status Unauthorized_Code = 401"
| "ErrorCode_http_status Forbidden_Code = 403"
| "ErrorCode_http_status NotFound_Code = 404"
| "ErrorCode_http_status Conflict_Code = 409"
| "ErrorCode_http_status InvalidRequest_Code = 400"
| "ErrorCode_http_status PayloadTooLarge_Code = 413"
| "ErrorCode_http_status CapacityExceeded_Code = 429"
| "ErrorCode_http_status RevisionNotReady_Code = 409"
| "ErrorCode_http_status FunctionDeleted_Code = 409"
| "ErrorCode_http_status UserError_Code = 502"
| "ErrorCode_http_status Crash_Code = 502"
| "ErrorCode_http_status InitError_Code = 502"
| "ErrorCode_http_status Timeout_Code = 504"
| "ErrorCode_http_status QueueTimeout_Code = 504"
| "ErrorCode_http_status Cancelled_Code = 499"
| "ErrorCode_http_status OutcomeUnknown_Code = 502"
| "ErrorCode_http_status PlatformError_Code = 500"
| "ErrorCode_http_status ProviderUnavailable_Code = 503"
| "ErrorCode_http_status ConfigUnavailable_Code = 503"
| "ErrorCode_http_status ControlPlaneUnavailable_Code = 503"
| "ErrorCode_http_status AsyncUnavailable_Code = 503"
| "ErrorCode_http_status UsageJournalFull_Code = 503"
| "ErrorCode_http_status Gone_Code = 410"
| "ErrorCode_http_status BudgetExhausted_Code = 429"
| "ErrorCode_http_status BudgetUnavailable_Code = 503"

text \<open>\<open>crates/application/src/control/mod.rs\<close>.\<close>

datatype ControlError =
    ConfigNotDelivered | ConfigExpired | AuthLeaseExpired | UnknownTenant | PolicyDenied
  | ColdStartRestricted | ProviderControlUnavailable | ControlPlaneUnavailable | StoreUnavailable

definition ControlError_ALL :: "ControlError list" where
  "ControlError_ALL = [ConfigNotDelivered, ConfigExpired, AuthLeaseExpired, UnknownTenant, PolicyDenied,
     ColdStartRestricted, ProviderControlUnavailable, ControlPlaneUnavailable, StoreUnavailable]"

fun ControlError_error_type :: "ControlError \<Rightarrow> string" where
  "ControlError_error_type ConfigNotDelivered = ''Host.ConfigNotDelivered''"
| "ControlError_error_type ConfigExpired = ''Host.ConfigExpired''"
| "ControlError_error_type AuthLeaseExpired = ''Host.AuthLeaseExpired''"
| "ControlError_error_type UnknownTenant = ''Host.UnknownTenant''"
| "ControlError_error_type PolicyDenied = ''Host.PolicyDenied''"
| "ControlError_error_type ColdStartRestricted = ''Host.ColdStartRestricted''"
| "ControlError_error_type ProviderControlUnavailable = ''Host.ProviderControlUnavailable''"
| "ControlError_error_type ControlPlaneUnavailable = ''Host.ControlPlaneUnavailable''"
| "ControlError_error_type StoreUnavailable = ''Host.StoreUnavailable''"

definition ControlError_from_error_type :: "string \<Rightarrow> ControlError option" where
  "ControlError_from_error_type error_type = find (\<lambda>k. ControlError_error_type k = error_type) ControlError_ALL"

fun ControlError_code :: "ControlError \<Rightarrow> ErrorCode" where
  "ControlError_code ConfigNotDelivered = ConfigUnavailable_Code"
| "ControlError_code ConfigExpired = ConfigUnavailable_Code"
| "ControlError_code AuthLeaseExpired = ConfigUnavailable_Code"
| "ControlError_code ColdStartRestricted = ConfigUnavailable_Code"
| "ControlError_code UnknownTenant = Forbidden_Code"
| "ControlError_code PolicyDenied = Forbidden_Code"
| "ControlError_code ProviderControlUnavailable = ProviderUnavailable_Code"
| "ControlError_code ControlPlaneUnavailable = ControlPlaneUnavailable_Code"
| "ControlError_code StoreUnavailable = ControlPlaneUnavailable_Code"

text \<open>\<open>crates/application/src/services/invoke_async/mod.rs\<close>.\<close>

datatype AsyncRefusal =
    AR_Backlog | AR_QueueFull | AR_QueueUnavailable | AR_ObjectStoreUnavailable | AR_ObjectQuota
  | AR_InputTooLarge | AR_NotConfigured

fun AsyncRefusal_as_str :: "AsyncRefusal \<Rightarrow> string" where
  "AsyncRefusal_as_str AR_Backlog = ''backlog''"
| "AsyncRefusal_as_str AR_QueueFull = ''queue_full''"
| "AsyncRefusal_as_str AR_QueueUnavailable = ''queue_unavailable''"
| "AsyncRefusal_as_str AR_ObjectStoreUnavailable = ''object_store_unavailable''"
| "AsyncRefusal_as_str AR_ObjectQuota = ''object_quota''"
| "AsyncRefusal_as_str AR_InputTooLarge = ''input_too_large''"
| "AsyncRefusal_as_str AR_NotConfigured = ''not_configured''"

fun AsyncRefusal_code :: "AsyncRefusal \<Rightarrow> ErrorCode" where
  "AsyncRefusal_code AR_Backlog = CapacityExceeded_Code"
| "AsyncRefusal_code AR_QueueFull = CapacityExceeded_Code"
| "AsyncRefusal_code AR_ObjectQuota = CapacityExceeded_Code"
| "AsyncRefusal_code AR_InputTooLarge = PayloadTooLarge_Code"
| "AsyncRefusal_code AR_QueueUnavailable = AsyncUnavailable_Code"
| "AsyncRefusal_code AR_ObjectStoreUnavailable = AsyncUnavailable_Code"
| "AsyncRefusal_code AR_NotConfigured = AsyncUnavailable_Code"

text \<open>\<open>crates/application/src/budget/mod.rs\<close>.\<close>

datatype BudgetRefusal = BF_Exhausted | BF_Unknown | BF_StoreUnavailable

fun BudgetRefusal_error_type :: "BudgetRefusal \<Rightarrow> string" where
  "BudgetRefusal_error_type BF_Exhausted = ''Host.BudgetExhausted''"
| "BudgetRefusal_error_type BF_Unknown = ''Host.BudgetUnknown''"
| "BudgetRefusal_error_type BF_StoreUnavailable = ''Host.BudgetStoreUnavailable''"

definition BudgetRefusal_from_error_type :: "string \<Rightarrow> BudgetRefusal option" where
  "BudgetRefusal_from_error_type raw =
     find (\<lambda>r. BudgetRefusal_error_type r = raw) [BF_Exhausted, BF_Unknown, BF_StoreUnavailable]"

fun BudgetRefusal_as_str :: "BudgetRefusal \<Rightarrow> string" where
  "BudgetRefusal_as_str BF_Exhausted = ''budget_exhausted''"
| "BudgetRefusal_as_str BF_Unknown = ''budget_unknown''"
| "BudgetRefusal_as_str BF_StoreUnavailable = ''budget_store_unavailable''"

definition REASON :: string where
  "REASON = ''budget''"

text \<open>\<open>crates/application/src/services/admission/mod.rs\<close>: how an invocation that admission gave up on is recorded.\<close>

definition QUEUE_TIMEOUT :: string where "QUEUE_TIMEOUT = ''Host.QueueTimeout''"
definition CAPACITY_WAIT_TIMEOUT :: string where "CAPACITY_WAIT_TIMEOUT = ''Host.CapacityWaitTimeout''"
definition QUOTA_WAIT_TIMEOUT :: string where "QUOTA_WAIT_TIMEOUT = ''Host.QuotaWaitTimeout''"
definition START_CIRCUIT_OPEN :: string where "START_CIRCUIT_OPEN = ''Host.StartCircuitOpen''"
definition FUNCTION_DELETED :: string where "FUNCTION_DELETED = ''Host.FunctionDeleted''"

lemmas error_type_consts = QUEUE_TIMEOUT_def CAPACITY_WAIT_TIMEOUT_def QUOTA_WAIT_TIMEOUT_def
  START_CIRCUIT_OPEN_def FUNCTION_DELETED_def

fun error_type_for :: "RejectReason \<Rightarrow> string" where
  "error_type_for RR_Capacity = CAPACITY_WAIT_TIMEOUT"
| "error_type_for RR_Quota = QUOTA_WAIT_TIMEOUT"
| "error_type_for RR_CircuitOpen = START_CIRCUIT_OPEN"
| "error_type_for RR_FunctionDeleted = FUNCTION_DELETED"
| "error_type_for RR_QueueFull = QUEUE_TIMEOUT"
| "error_type_for RR_QueueDeadline = QUEUE_TIMEOUT"
| "error_type_for RR_Placement = QUEUE_TIMEOUT"

definition reason_for_error_type :: "string \<Rightarrow> RejectReason option" where
  "reason_for_error_type error_type =
     (if error_type = CAPACITY_WAIT_TIMEOUT then Some RR_Capacity
      else if error_type = QUOTA_WAIT_TIMEOUT then Some RR_Quota
      else if error_type = QUEUE_TIMEOUT then Some RR_QueueDeadline
      else if error_type = START_CIRCUIT_OPEN then Some RR_CircuitOpen
      else if error_type = FUNCTION_DELETED then Some RR_FunctionDeleted
      else None)"

section \<open>The error of the services\<close>

datatype AppError =
    AE_Unauthorized string
  | AE_Forbidden string
  | AE_NotFound string
  | AE_Conflict string
  | AE_IdempotencyConflict string InvocationId
  | AE_InvalidRequest string
  | AE_PayloadTooLarge u64 u64
  | AE_Admission RejectReason string
  | AE_AsyncRefused AsyncRefusal string
  | AE_Gone string
  | AE_RevisionNotReady string
  | AE_FunctionDeleted string
  | AE_Invocation InvocationId InvocationError
  | AE_ProviderUnavailable string
  | AE_Platform string
  | AE_Control ControlError string
  | AE_UsageJournal JournalRefusal string
  | AE_Budget BudgetRefusal string

fun AppError_to_string :: "AppError \<Rightarrow> string" where
  "AppError_to_string (AE_Unauthorized m) = ''unauthorized: '' @ m"
| "AppError_to_string (AE_Forbidden m) = ''forbidden: '' @ m"
| "AppError_to_string (AE_NotFound m) = ''not found: '' @ m"
| "AppError_to_string (AE_Conflict m) = ''conflict: '' @ m"
| "AppError_to_string (AE_IdempotencyConflict key i) =
     ''conflict: idempotency key `'' @ key @ ''` is bound to invocation '' @ as_str i @ '' with a different input''"
| "AppError_to_string (AE_InvalidRequest m) = ''invalid request: '' @ m"
| "AppError_to_string (AE_PayloadTooLarge n limit) =
     ''payload too large: '' @ show_u n @ '' bytes (max '' @ show_u limit @ '')''"
| "AppError_to_string (AE_Admission reason m) = RejectReason_as_str reason @ '': '' @ m"
| "AppError_to_string (AE_AsyncRefused reason m) = AsyncRefusal_as_str reason @ '': '' @ m"
| "AppError_to_string (AE_Gone m) = ''gone: '' @ m"
| "AppError_to_string (AE_RevisionNotReady m) = ''revision not ready: '' @ m"
| "AppError_to_string (AE_FunctionDeleted m) = ''function deleted: '' @ m"
| "AppError_to_string (AE_Invocation i e) =
     ''invocation '' @ as_str i @ '' failed: '' @ err_type e @ '': '' @ err_message e"
| "AppError_to_string (AE_ProviderUnavailable m) = ''provider unavailable: '' @ m"
| "AppError_to_string (AE_Platform m) = ''platform error: '' @ m"
| "AppError_to_string (AE_Control kind m) = ControlError_error_type kind @ '': '' @ m"
| "AppError_to_string (AE_UsageJournal refusal m) = JournalRefusal_as_str refusal @ '': '' @ m"
| "AppError_to_string (AE_Budget refusal m) = ''budget: '' @ m"

definition IDEMPOTENCY_KEY_REUSED :: string where
  "IDEMPOTENCY_KEY_REUSED = ''Host.IdempotencyKeyReused''"

fun error_code_for_class :: "ErrorClass \<Rightarrow> ErrorCode" where
  "error_code_for_class EC_UserError = UserError_Code"
| "error_code_for_class EC_Crash = Crash_Code"
| "error_code_for_class EC_InitError = InitError_Code"
| "error_code_for_class EC_Timeout = Timeout_Code"
| "error_code_for_class EC_QueueTimeout = QueueTimeout_Code"
| "error_code_for_class EC_PlatformError = PlatformError_Code"
| "error_code_for_class EC_Cancelled = Cancelled_Code"
| "error_code_for_class EC_OutcomeUnknown = OutcomeUnknown_Code"

fun budget_code :: "BudgetRefusal \<Rightarrow> ErrorCode" where
  "budget_code BF_Exhausted = BudgetExhausted_Code"
| "budget_code BF_Unknown = BudgetUnavailable_Code"
| "budget_code BF_StoreUnavailable = BudgetUnavailable_Code"

fun reject_code :: "RejectReason \<Rightarrow> ErrorCode" where
  "reject_code RR_QueueFull = CapacityExceeded_Code"
| "reject_code RR_Quota = CapacityExceeded_Code"
| "reject_code RR_Capacity = CapacityExceeded_Code"
| "reject_code RR_QueueDeadline = QueueTimeout_Code"
| "reject_code RR_CircuitOpen = ProviderUnavailable_Code"
| "reject_code RR_Placement = ProviderUnavailable_Code"
| "reject_code RR_FunctionDeleted = FunctionDeleted_Code"

text \<open>An invocation that ended answers with the code of the refusal its error type records, if any.\<close>

definition invocation_code :: "InvocationError \<Rightarrow> ErrorCode" where
  "invocation_code error =
     (if reason_for_error_type (err_type error) = Some RR_FunctionDeleted then FunctionDeleted_Code
      else if reason_for_error_type (err_type error) = Some RR_CircuitOpen then ProviderUnavailable_Code
      else if BudgetRefusal_from_error_type (err_type error) \<noteq> None
      then budget_code (case BudgetRefusal_from_error_type (err_type error) of Some r \<Rightarrow> r | None \<Rightarrow> BF_Unknown)
      else case ControlError_from_error_type (err_type error) of
             None \<Rightarrow> error_code_for_class (err_class error)
           | Some k \<Rightarrow> ControlError_code k)"

fun AppError_code :: "AppError \<Rightarrow> ErrorCode" where
  "AppError_code (AE_Unauthorized _) = Unauthorized_Code"
| "AppError_code (AE_Forbidden _) = Forbidden_Code"
| "AppError_code (AE_NotFound _) = NotFound_Code"
| "AppError_code (AE_Conflict _) = Conflict_Code"
| "AppError_code (AE_IdempotencyConflict _ _) = Conflict_Code"
| "AppError_code (AE_InvalidRequest _) = InvalidRequest_Code"
| "AppError_code (AE_PayloadTooLarge _ _) = PayloadTooLarge_Code"
| "AppError_code (AE_Admission reason _) = reject_code reason"
| "AppError_code (AE_AsyncRefused reason _) = AsyncRefusal_code reason"
| "AppError_code (AE_RevisionNotReady _) = RevisionNotReady_Code"
| "AppError_code (AE_Gone _) = Gone_Code"
| "AppError_code (AE_FunctionDeleted _) = FunctionDeleted_Code"
| "AppError_code (AE_Invocation _ error) = invocation_code error"
| "AppError_code (AE_ProviderUnavailable _) = ProviderUnavailable_Code"
| "AppError_code (AE_Platform _) = PlatformError_Code"
| "AppError_code (AE_Control kind _) = ControlError_code kind"
| "AppError_code (AE_UsageJournal _ _) = UsageJournalFull_Code"
| "AppError_code (AE_Budget refusal _) = budget_code refusal"

definition AppError_http_status :: "AppError \<Rightarrow> nat" where
  "AppError_http_status e = ErrorCode_http_status (AppError_code e)"

record ApiError =
  ap_code :: ErrorCode
  ap_message :: string
  ap_request_id :: "string option"
  ap_invocation_id :: "string option"
  ap_error_type :: "string option"
  ap_reason :: "string option"

fun body_ids :: "AppError \<Rightarrow> string option \<times> string option" where
  "body_ids (AE_Invocation i error) = (Some (as_str i), Some (err_type error))"
| "body_ids (AE_IdempotencyConflict _ i) = (Some (as_str i), Some IDEMPOTENCY_KEY_REUSED)"
| "body_ids (AE_Control kind _) = (None, Some (ControlError_error_type kind))"
| "body_ids (AE_UsageJournal JF_Full _) = (None, Some ''Host.UsageJournalFull'')"
| "body_ids (AE_UsageJournal JF_Unavailable _) = (None, Some ''Host.UsageJournalUnavailable'')"
| "body_ids (AE_Budget refusal _) = (None, Some (BudgetRefusal_error_type refusal))"
| "body_ids (AE_FunctionDeleted _) = (None, Some FUNCTION_DELETED)"
| "body_ids (AE_Admission RR_FunctionDeleted _) = (None, Some FUNCTION_DELETED)"
| "body_ids _ = (None, None)"

fun body_reason :: "AppError \<Rightarrow> string option" where
  "body_reason (AE_Admission reason _) = Some (RejectReason_as_str reason)"
| "body_reason (AE_AsyncRefused reason _) = Some (AsyncRefusal_as_str reason)"
| "body_reason (AE_Invocation _ error) =
     (if BudgetRefusal_from_error_type (err_type error) \<noteq> None then Some REASON
      else map_option RejectReason_as_str (reason_for_error_type (err_type error)))"
| "body_reason (AE_UsageJournal refusal _) = Some (JournalRefusal_as_str refusal)"
| "body_reason (AE_Budget _ _) = Some REASON"
| "body_reason _ = None"

definition to_api_body :: "string option \<Rightarrow> AppError \<Rightarrow> ApiError" where
  "to_api_body request_id e =
     \<lparr> ap_code = AppError_code e, ap_message = AppError_to_string e, ap_request_id = request_id,
       ap_invocation_id = fst (body_ids e), ap_error_type = snd (body_ids e), ap_reason = body_reason e \<rparr>"

section \<open>Conversions\<close>

definition from_Rejection :: "Rejection \<Rightarrow> AppError" where
  "from_Rejection r = AE_Admission (rj_reason r) (rj_message r)"

fun from_DomainError :: "DomainError \<Rightarrow> AppError" where
  "from_DomainError (TenantMismatch _) = AE_NotFound ''resource not found''"
| "from_DomainError (GenerationMismatch a b) = AE_Conflict (DomainError_to_string (GenerationMismatch a b))"
| "from_DomainError (Terminal a b) = AE_Conflict (DomainError_to_string (Terminal a b))"
| "from_DomainError (IllegalTransition a b c) = AE_Conflict (DomainError_to_string (IllegalTransition a b c))"
| "from_DomainError e = AE_InvalidRequest (DomainError_to_string e)"

fun from_RepoError :: "RepoError \<Rightarrow> AppError" where
  "from_RepoError (NotFound what) = AE_NotFound what"
| "from_RepoError (Conflict what) = AE_Conflict what"
| "from_RepoError (Refused what) = AE_Conflict what"
| "from_RepoError (Store_Failed msg) = AE_Control StoreUnavailable (''storage: '' @ msg)"
| "from_RepoError (Io err) = AE_Control StoreUnavailable (''storage: '' @ err)"
| "from_RepoError (Serialization msg) = AE_Platform (''storage: '' @ msg)"

datatype ArtifactError = AF_TooLarge u64 u64 | AF_NotFound Sha256Digest | AF_Io string

fun from_ArtifactError :: "ArtifactError \<Rightarrow> AppError" where
  "from_ArtifactError (AF_TooLarge n limit) = AE_PayloadTooLarge n limit"
| "from_ArtifactError (AF_NotFound d) = AE_NotFound (''artifact '' @ as_str d @ '' not found'')"
| "from_ArtifactError (AF_Io err) = AE_Platform (''artifact store: '' @ err)"

datatype SecretError = SE_NotFound string | SE_Forbidden string TenantId | SE_Backend string

fun from_SecretError :: "SecretError \<Rightarrow> AppError" where
  "from_SecretError (SE_NotFound binding) =
     AE_InvalidRequest (''secret binding `'' @ binding @ ''` is not available to this tenant'')"
| "from_SecretError (SE_Forbidden binding _) =
     AE_InvalidRequest (''secret binding `'' @ binding @ ''` is not available to this tenant'')"
| "from_SecretError (SE_Backend msg) = AE_Platform (''secret backend: '' @ msg)"

datatype ProviderError =
    PE_Unavailable string | PE_InvalidSpec string | PE_ArtifactRejected string | PE_Boot string
  | PE_Timeout string | PE_NotFound EnvironmentId | PE_Io string | PE_Internal string

fun ProviderError_to_string :: "ProviderError \<Rightarrow> string" where
  "ProviderError_to_string (PE_Unavailable m) = ''provider unavailable: '' @ m"
| "ProviderError_to_string (PE_InvalidSpec m) = ''invalid environment spec: '' @ m"
| "ProviderError_to_string (PE_ArtifactRejected m) = ''artifact rejected: '' @ m"
| "ProviderError_to_string (PE_Boot m) = ''boot failed: '' @ m"
| "ProviderError_to_string (PE_Timeout stage) = ''timeout during '' @ stage"
| "ProviderError_to_string (PE_NotFound i) = ''environment not found: '' @ as_str i"
| "ProviderError_to_string (PE_Io m) = ''io: '' @ m"
| "ProviderError_to_string (PE_Internal m) = ''internal: '' @ m"

fun from_ProviderError :: "ProviderError \<Rightarrow> AppError" where
  "from_ProviderError (PE_Unavailable msg) = AE_ProviderUnavailable msg"
| "from_ProviderError other = AE_Platform (ProviderError_to_string other)"

section \<open>Roles and tenants\<close>

datatype Role = Role_Deploy | Role_Invoke | Role_Operator | Role_Redrive

record Principal =
  pr_subject :: string
  pr_tenant_id :: TenantId
  pr_roles :: "Role list"

definition pr_has :: "Principal \<Rightarrow> Role \<Rightarrow> bool" where
  "pr_has p role = (role \<in> set (pr_roles p))"

fun role_name :: "Role \<Rightarrow> string" where
  "role_name Role_Deploy = ''deploy''"
| "role_name Role_Invoke = ''invoke''"
| "role_name Role_Operator = ''operator''"
| "role_name Role_Redrive = ''redrive''"

definition require_role :: "Principal \<Rightarrow> Role \<Rightarrow> AppError + unit" where
  "require_role p role =
     (if pr_has p role then Inr () else Inl (AE_Forbidden (''role `'' @ role_name role @ ''` is required'')))"

definition require_deploy :: "Principal \<Rightarrow> AppError + unit" where
  "require_deploy p = require_role p Role_Deploy"

definition require_invoke :: "Principal \<Rightarrow> AppError + unit" where
  "require_invoke p = require_role p Role_Invoke"

definition require_redrive :: "Principal \<Rightarrow> AppError + unit" where
  "require_redrive p = and_then (require_role p Role_Invoke) (\<lambda>_. require_role p Role_Redrive)"

definition require_read :: "Principal \<Rightarrow> AppError + unit" where
  "require_read p =
     (if pr_has p Role_Deploy \<or> pr_has p Role_Invoke \<or> pr_has p Role_Operator then Inr ()
      else Inl (AE_Forbidden ''a deploy or invoke role is required''))"

definition ensure_tenant :: "Principal \<Rightarrow> TenantId \<Rightarrow> string \<Rightarrow> AppError + unit" where
  "ensure_tenant p owner what =
     (if pr_tenant_id p = owner then Inr () else Inl (AE_NotFound (what @ '' not found'')))"

section \<open>Round trips of the recorded types\<close>

lemma ControlError_round_trip: "ControlError_from_error_type (ControlError_error_type k) = Some k"
  by (cases k) (simp_all add: ControlError_from_error_type_def ControlError_ALL_def)

lemma BudgetRefusal_round_trip: "BudgetRefusal_from_error_type (BudgetRefusal_error_type r) = Some r"
  by (cases r) (simp_all add: BudgetRefusal_from_error_type_def)

lemma reason_of_control: "reason_for_error_type (ControlError_error_type k) = None"
  by (cases k) (simp_all add: reason_for_error_type_def error_type_consts)

lemma reason_of_budget: "reason_for_error_type (BudgetRefusal_error_type r) = None"
  by (cases r) (simp_all add: reason_for_error_type_def error_type_consts)

lemma budget_of_control: "BudgetRefusal_from_error_type (ControlError_error_type k) = None"
  by (cases k) (simp_all add: BudgetRefusal_from_error_type_def)

lemma reason_round_trip:
  "reason_for_error_type (error_type_for r) =
     Some (if r \<in> {RR_QueueFull, RR_Placement} then RR_QueueDeadline else r)"
  by (cases r) (simp_all add: reason_for_error_type_def error_type_consts)

lemma http_status_is_error: "400 \<le> ErrorCode_http_status c \<and> ErrorCode_http_status c < 600"
  by (cases c) simp_all

end
