(* ===== verification/Slot.thy ===== *)
theory Slot
  imports Guard
begin

text \<open>
  \<open>crates/application/src/repository/slot.rs\<close> and \<open>restart.rs\<close>: the dispatcher records,
  the requests and outcomes of the slot port, the checks both stores run before an acquire
  and before a completion, and the settlement of rows whose driver is gone.
\<close>

section \<open>Dispatchers\<close>

record DispatcherRecord =
  dsp_id :: DispatcherId
  dsp_instance :: string
  dsp_hostname :: string
  dsp_pid :: u32
  dsp_started_at :: Timestamp
  dsp_heartbeat_at :: Timestamp
  dsp_lease_expires_at :: Timestamp
  dsp_stopped_at :: "Timestamp option"
  dsp_reclaimed_at :: "Timestamp option"

definition dsp_is_live :: "DispatcherRecord \<Rightarrow> bool" where
  "dsp_is_live d \<longleftrightarrow> dsp_stopped_at d = None \<and> dsp_reclaimed_at d = None"

definition dsp_is_expired :: "DispatcherRecord \<Rightarrow> Timestamp \<Rightarrow> Duration \<Rightarrow> bool" where
  "dsp_is_expired d now skew \<longleftrightarrow> now \<ge> dsp_lease_expires_at d + skew"

section \<open>Requests and outcomes\<close>

record SlotAcquire =
  acq_env :: ExecutionEnvironment
  acq_expected_epoch :: u64
  acq_lease :: ExecutionLease
  acq_attempt :: InvocationAttempt
  acq_invocation :: "Invocation option"

datatype AcquireOutcome = Acquired | Lost string

record SlotCompletion =
  cpl_lease_id :: LeaseId
  cpl_attempt :: InvocationAttempt
  cpl_invocation :: "Invocation option"
  cpl_now :: Timestamp

datatype CompletionOutcome = Accepted | Stale string

datatype HeartbeatOutcome = Renewed usize | Fenced

record ReclaimRequest =
  rcl_reclaimer :: DispatcherId
  rcl_now :: Timestamp
  rcl_skew :: Duration
  rcl_presumed_dead :: "DispatcherId list"

record ReclaimReport =
  rep_dispatchers :: "DispatcherId list"
  rep_leases :: usize
  rep_invocations :: usize
  rep_attempts :: usize
  rep_fenced :: "ExecutionEnvironment list"

definition ReclaimReport_default :: ReclaimReport where
  "ReclaimReport_default = \<lparr> rep_dispatchers = [], rep_leases = 0, rep_invocations = 0,
     rep_attempts = 0, rep_fenced = [] \<rparr>"

definition rep_is_empty :: "ReclaimReport \<Rightarrow> bool" where
  "rep_is_empty r \<longleftrightarrow> rep_dispatchers r = [] \<and> rep_leases r = 0 \<and> rep_invocations r = 0
     \<and> rep_attempts r = 0 \<and> rep_fenced r = []"

section \<open>Checks before an acquire and a completion\<close>

text \<open>\<open>Inl\<close> is a malformed request, \<open>Inr (Some reason)\<close> a lost race, \<open>Inr None\<close> the go-ahead.\<close>

definition acquire_preconditions ::
  "SlotAcquire \<Rightarrow> ExecutionEnvironment option \<Rightarrow> RepoError + string option" where
  "acquire_preconditions request stored =
     (let env = acq_env request; expected_epoch = acq_expected_epoch request;
          lease = acq_lease request; attempt = acq_attempt request;
          new_epoch = expected_epoch + 1;
          refused = (\<lambda>what. Inl (Refused (''acquire of environment '' @ as_str (env_id env) @ what)))
      in
      if env_epoch env \<noteq> new_epoch \<or> lse_epoch lease \<noteq> new_epoch \<or> att_epoch attempt \<noteq> new_epoch
      then refused ('': environment, lease and attempt must all be at epoch '' @ show_u new_epoch)
      else if lse_environment_id lease \<noteq> env_id env \<or> att_environment_id attempt \<noteq> env_id env
      then refused '': lease or attempt names another environment''
      else if lse_attempt_id lease \<noteq> att_id attempt
      then refused '': lease is for another attempt''
      else if lse_owner lease = None \<or> lse_expires_at lease = None \<or> lse_released_at lease \<noteq> None
      then refused '': the lease needs an owner and an expiry''
      else if env_state env \<noteq> ES_Busy
      then refused '': the written row must be busy''
      else case stored of
        None \<Rightarrow> Inl (NotFound (''environment '' @ as_str (env_id env)))
      | Some stored \<Rightarrow>
          and_then (environment_identity stored env) (\<lambda>_.
          if env_owner stored \<noteq> lse_owner lease
          then Inr (Some (''environment '' @ as_str (env_id env) @ '' is owned by another dispatcher''))
          else if env_is_terminal stored \<or> env_is_fenced stored
          then Inr (Some (''environment '' @ as_str (env_id env) @ '' is '' @
                 (if env_is_fenced stored then ''fenced'' else ES_name (env_state stored))))
          else if env_epoch stored \<noteq> expected_epoch
          then Inr (Some (''environment '' @ as_str (env_id env) @ '' moved to epoch ''
                 @ show_u (env_epoch stored) @ '' (expected '' @ show_u expected_epoch @ '')''))
          else if \<not> env_is_reusable stored
          then Inr (Some (''environment '' @ as_str (env_id env) @ '' is ''
                 @ ES_name (env_state stored) @ '', not ready or idle''))
          else Inr None))"

definition lease_is_current ::
  "ExecutionLease option \<Rightarrow> AttemptId \<Rightarrow> u64 \<Rightarrow> ExecutionEnvironment option \<Rightarrow> string option" where
  "lease_is_current lease attempt epoch env =
     (case lease of
        None \<Rightarrow> Some ''lease not found''
      | Some lease \<Rightarrow>
          if lse_released_at lease \<noteq> None
          then Some (''lease '' @ as_str (lse_id lease) @ '' is already released'')
          else if \<not> lse_accepts lease attempt epoch
          then Some (''lease '' @ as_str (lse_id lease) @ '' is for attempt ''
                 @ as_str (lse_attempt_id lease) @ '' at epoch '' @ show_u (lse_epoch lease)
                 @ '', not '' @ as_str attempt @ '' at epoch '' @ show_u epoch)
          else (case env of
             None \<Rightarrow> None
           | Some env \<Rightarrow>
               if env_epoch env \<noteq> epoch
               then Some (''environment '' @ as_str (env_id env) @ '' moved to epoch ''
                      @ show_u (env_epoch env) @ '' (completion carries '' @ show_u epoch @ '')'')
               else if env_is_fenced env
               then Some (''environment '' @ as_str (env_id env) @ '' is fenced'')
               else None))"

lemma acquire_preconditions_ok:
  "acquire_preconditions request stored = Inr None \<longleftrightarrow>
     (\<exists>e. stored = Some e \<and>
        env_identity (acq_env request) = env_identity e \<and>
        env_owner e = lse_owner (acq_lease request) \<and>
        env_is_reusable e \<and> env_epoch e = acq_expected_epoch request) \<and>
     env_epoch (acq_env request) = acq_expected_epoch request + 1 \<and>
     lse_epoch (acq_lease request) = acq_expected_epoch request + 1 \<and>
     att_epoch (acq_attempt request) = acq_expected_epoch request + 1 \<and>
     lse_environment_id (acq_lease request) = env_id (acq_env request) \<and>
     att_environment_id (acq_attempt request) = env_id (acq_env request) \<and>
     lse_attempt_id (acq_lease request) = att_id (acq_attempt request) \<and>
     lse_owner (acq_lease request) \<noteq> None \<and> lse_expires_at (acq_lease request) \<noteq> None \<and>
     lse_released_at (acq_lease request) = None \<and> env_state (acq_env request) = ES_Busy"
  by (cases stored)
     (auto simp: acquire_preconditions_def Let_def env_is_reusable_def env_is_fenced_def
        env_is_terminal_def split: if_splits)

lemma lease_is_current_None:
  "lease_is_current lease attempt epoch env = None \<longleftrightarrow>
     (\<exists>l. lease = Some l \<and> lse_released_at l = None \<and> lse_attempt_id l = attempt
        \<and> lse_epoch l = epoch) \<and>
     (\<forall>e. env = Some e \<longrightarrow> env_epoch e = epoch \<and> env_fenced_at e = None)"
  by (cases lease; cases env) (auto simp: lease_is_current_def lse_accepts_def env_is_fenced_def)

section \<open>Settlement\<close>

definition HOST_RESTARTED :: string where "HOST_RESTARTED = ''Host.Restarted''"
definition HOST_LEASE_EXPIRED :: string where "HOST_LEASE_EXPIRED = ''Host.LeaseExpired''"

record Cause =
  cause_error_type :: string
  cause_not_started :: string
  cause_unknown :: string
  cause_attempt :: string

definition RESTARTED :: Cause where
  "RESTARTED = \<lparr>
     cause_error_type = HOST_RESTARTED,
     cause_not_started = ''gateway restarted while the invocation was in flight'',
     cause_unknown = ''gateway restarted after the invocation was dispatched; the handler may have run'',
     cause_attempt = ''gateway restarted while the attempt was in flight'' \<rparr>"

definition LEASE_EXPIRED :: Cause where
  "LEASE_EXPIRED = \<lparr>
     cause_error_type = HOST_LEASE_EXPIRED,
     cause_not_started = ''the dispatcher that accepted the invocation lost its lease before dispatching it'',
     cause_unknown = ''the dispatcher lost its lease after the invocation was dispatched; the handler may have run'',
     cause_attempt = ''the dispatcher lost its lease while the attempt was in flight'' \<rparr>"

text \<open>
  Each function returns the row as it is after the call and whether it changed.  The
  results the sources drop with \<open>let _\<close> and \<open>is_ok()\<close> are dropped here: an operation that
  errs leaves the row as it was.
\<close>

fun ok_or :: "'e + 'a \<Rightarrow> 'a \<Rightarrow> 'a" where
  "ok_or (Inr x) d = x"
| "ok_or (Inl e) d = d"

definition settle_invocation_with :: "Invocation \<Rightarrow> Cause \<Rightarrow> Timestamp \<Rightarrow> Invocation \<times> bool" where
  "settle_invocation_with i cause now =
     (if IS_is_terminal (inv_status i) then (i, False)
      else if inv_status i = IS_Running
      then (case inv_mark_outcome_unknown i (cause_unknown cause) now of
              Inr i' \<Rightarrow>
                ((case inv_status i' of
                    IS_OutcomeUnknown error \<Rightarrow>
                      i'\<lparr>inv_status := IS_OutcomeUnknown (error\<lparr>err_type := cause_error_type cause\<rparr>)\<rparr>
                  | _ \<Rightarrow> i'), True)
            | Inl _ \<Rightarrow> (i, True))
      else (ok_or (inv_mark_failed i
              (InvocationError_new EC_PlatformError (cause_error_type cause) (cause_not_started cause))
              now) i, True))"

definition settle_invocation :: "Invocation \<Rightarrow> Timestamp \<Rightarrow> Invocation \<times> bool" where
  "settle_invocation i now = settle_invocation_with i RESTARTED now"

definition settle_attempt_with ::
  "InvocationAttempt \<Rightarrow> bool \<Rightarrow> Cause \<Rightarrow> Timestamp \<Rightarrow> InvocationAttempt \<times> bool" where
  "settle_attempt_with a invocation_outcome_unknown cause now =
     (if AS_is_terminal (att_status a) then (a, False)
      else if invocation_outcome_unknown
      then (ok_or (att_outcome_unknown a
              (InvocationError_new EC_OutcomeUnknown (cause_error_type cause) (cause_unknown cause))
              now) a, True)
      else (ok_or (att_fail a
              (InvocationError_new EC_PlatformError (cause_error_type cause) (cause_attempt cause))
              now) a, True))"

definition settle_attempt :: "InvocationAttempt \<Rightarrow> bool \<Rightarrow> Timestamp \<Rightarrow> InvocationAttempt \<times> bool" where
  "settle_attempt a unknown now = settle_attempt_with a unknown RESTARTED now"

definition settle_environment ::
  "ExecutionEnvironment \<Rightarrow> Timestamp \<Rightarrow> ExecutionEnvironment \<times> bool" where
  "settle_environment e now =
     (if env_is_terminal e then (e, False)
      else (ok_or (env_mark_lost e ''gateway restarted'' now) e, True))"

definition settle_lease :: "ExecutionLease \<Rightarrow> Timestamp \<Rightarrow> ExecutionLease \<times> bool" where
  "settle_lease l now =
     (if lse_released_at l = None
      then (case lse_release l now of Inr l' \<Rightarrow> (l', True) | Inl _ \<Rightarrow> (l, False))
      else (l, False))"

definition survives_dispatcher :: "Invocation \<Rightarrow> bool" where
  "survives_dispatcher i \<longleftrightarrow> inv_mode i = Async"

definition is_outcome_unknown :: "Invocation \<Rightarrow> bool" where
  "is_outcome_unknown i \<longleftrightarrow> (case inv_status i of IS_OutcomeUnknown _ \<Rightarrow> True | _ \<Rightarrow> False)"

definition attempts_unknown :: "Invocation \<Rightarrow> bool" where
  "attempts_unknown i \<longleftrightarrow> is_outcome_unknown i \<or> inv_status i = IS_Running"

text \<open>What settlement leaves: the row is terminal, and only a dispatched one is \<open>OutcomeUnknown\<close>.\<close>

lemma settle_invocation_with_eq:
  "settle_invocation_with i cause now =
     (if IS_is_terminal (inv_status i) then (i, False)
      else if inv_status i = IS_Running
      then (i\<lparr>inv_status := IS_OutcomeUnknown (InvocationError_new EC_OutcomeUnknown
                  (cause_error_type cause) (cause_unknown cause)),
              inv_finished_at := Some now\<rparr>, True)
      else (i\<lparr>inv_status := IS_Failed (InvocationError_new EC_PlatformError
                  (cause_error_type cause) (cause_not_started cause)),
              inv_finished_at := Some now\<rparr>, True))"
  by (cases "inv_status i")
     (auto simp: settle_invocation_with_def inv_mark_outcome_unknown_def inv_mark_failed_def
        inv_ensure_not_terminal_def InvocationError_new_def)

lemma settle_attempt_with_eq:
  "settle_attempt_with a unknown cause now =
     (if AS_is_terminal (att_status a) then (a, False)
      else (a\<lparr>att_status := (if unknown
                then AS_OutcomeUnknown (InvocationError_new EC_OutcomeUnknown
                       (cause_error_type cause) (cause_unknown cause))
                else AS_Failed (InvocationError_new EC_PlatformError
                       (cause_error_type cause) (cause_attempt cause))),
              att_finished_at := Some now\<rparr>, True))"
  by (simp add: settle_attempt_with_def att_outcome_unknown_def att_fail_def att_finish_def)

lemma settle_invocation_row:
  "row_le inv_identity inv_final i (fst (settle_invocation_with i cause now))"
  "inv_final (fst (settle_invocation_with i cause now))"
  by (auto simp: settle_invocation_with_eq row_le_def inv_identity_def)

lemma settle_attempt_row:
  "row_le att_identity att_final a (fst (settle_attempt_with a unknown cause now))"
  "att_final (fst (settle_attempt_with a unknown cause now))"
  by (auto simp: settle_attempt_with_eq row_le_def att_identity_def AS_is_terminal_def)

end
