(* ===== verification/Config_Stamp.thy ===== *)
theory Config_Stamp
  imports Guard
begin

text \<open>
  \<open>crates/application/src/repository/config.rs\<close>: the generation stamps of the published
  configuration.  A publication is a table from keys to rows plus one counter; \<open>stamp\<close>
  applies an observation of the ledger to it and \<open>above\<close> reads the rows a data plane that
  is at generation \<open>since\<close> is missing.
\<close>

section \<open>Data and operations\<close>

record ConfigRows =
  cr_functions :: "Function list"
  cr_aliases :: "FunctionAlias list"
  cr_revisions :: "FunctionRevision list"

record ConfigObservation =
  co_key :: string
  co_natural_version :: u64
  co_digest :: string
  co_body :: string

record PublishedRow =
  pr_generation :: u64
  pr_natural_version :: u64
  pr_digest :: string
  pr_body :: "string option"

record StampedEntry =
  se_key :: string
  se_generation :: u64
  se_body :: "string option"

record StampedConfig =
  sc_generation :: u64
  sc_entries :: "StampedEntry list"

type_synonym Publication = "(string, PublishedRow) btreemap"

text \<open>The loop state: the table, the counter and the changed keys in order.\<close>

type_synonym stamping = "Publication \<times> u64 \<times> string list"

definition stamp_replaces :: "Publication \<Rightarrow> ConfigObservation \<Rightarrow> bool" where
  "stamp_replaces rows obs =
     (case bt_get rows (co_key obs) of
        None \<Rightarrow> True
      | Some row \<Rightarrow> if pr_body row = None then True
          else pr_digest row \<noteq> co_digest obs \<and> co_natural_version obs \<ge> pr_natural_version row)"

fun stamp_observation :: "ConfigObservation \<Rightarrow> stamping \<Rightarrow> stamping" where
  "stamp_observation obs (rows, counter, changed) =
     (if stamp_replaces rows obs
      then (bt_insert (co_key obs)
              \<lparr> pr_generation = counter + 1, pr_natural_version = co_natural_version obs,
                pr_digest = co_digest obs, pr_body = Some (co_body obs) \<rparr> rows,
            counter + 1, changed @ [co_key obs])
      else (rows, counter, changed))"

fun stamp_removal :: "string set \<Rightarrow> string \<times> PublishedRow \<Rightarrow> stamping \<Rightarrow> stamping" where
  "stamp_removal seen (key, row) (rows, counter, changed) =
     (if pr_body row \<noteq> None \<and> key \<notin> seen
      then (bt_insert key (row\<lparr>pr_generation := counter + 1, pr_body := None\<rparr>) rows,
            counter + 1, changed @ [key])
      else (rows, counter, changed))"

definition stamp :: "Publication \<Rightarrow> u64 \<Rightarrow> ConfigObservation list \<Rightarrow> stamping" where
  "stamp rows counter observed =
     (let seen = set (map co_key observed);
          published = fold stamp_observation observed (rows, counter, [])
      in fold (stamp_removal seen) (bt_entries (fst published)) published)"

definition above :: "Publication \<Rightarrow> u64 \<Rightarrow> StampedEntry list" where
  "above rows since =
     sort_key se_generation
       (map (\<lambda>(k, r). \<lparr> se_key = k, se_generation = pr_generation r, se_body = pr_body r \<rparr>)
          (filter (\<lambda>(k, r). pr_generation r > since) (bt_entries rows)))"

section \<open>What a data plane sees\<close>

definition published :: "Publication \<Rightarrow> string \<Rightarrow> string option" where
  "published rows k = (case bt_get rows k of None \<Rightarrow> None | Some r \<Rightarrow> pr_body r)"

text \<open>A data plane applies the entries it receives to the bodies it holds.\<close>

definition apply_entry :: "StampedEntry \<Rightarrow> (string \<Rightarrow> string option) \<Rightarrow> string \<Rightarrow> string option" where
  "apply_entry e view = view(se_key e := se_body e)"

definition apply_entries ::
  "StampedEntry list \<Rightarrow> (string \<Rightarrow> string option) \<Rightarrow> string \<Rightarrow> string option" where
  "apply_entries es view = fold apply_entry es view"

section \<open>Invariant\<close>

text \<open>Every generation was handed out, and no two rows share one.\<close>

definition pub_ok :: "Publication \<Rightarrow> u64 \<Rightarrow> bool" where
  "pub_ok rows counter \<longleftrightarrow>
     (\<forall>k r. bt_get rows k = Some r \<longrightarrow> 0 < pr_generation r \<and> pr_generation r \<le> counter) \<and>
     (\<forall>k k' r r'. bt_get rows k = Some r \<longrightarrow> bt_get rows k' = Some r' \<longrightarrow>
        pr_generation r = pr_generation r' \<longrightarrow> k = k')"

lemma unat_succ:
  assumes "unat (w :: 'a::len word) + 1 < 2 ^ LENGTH('a)"
  shows "unat (w + 1) = unat w + 1"
  using assms by (simp add: unat_word_ariths unsigned_less)

text \<open>
  One iteration of either loop leaves the publication alone or writes one key with the
  next generation; a path is a bounded number of iterations.
\<close>

inductive stamp_step :: "stamping \<Rightarrow> stamping \<Rightarrow> bool" where
  kept: "stamp_step s s"
| written: "pr_generation r = c + 1 \<Longrightarrow>
    stamp_step (rows, c, changed) (bt_insert k r rows, c + 1, changed @ [k])"

inductive stamp_path :: "nat \<Rightarrow> stamping \<Rightarrow> stamping \<Rightarrow> bool" where
  path_nil: "stamp_path 0 s s"
| path_step: "stamp_path n s s' \<Longrightarrow> stamp_step s' s'' \<Longrightarrow> stamp_path (Suc n) s s''"

lemma stamp_path_append:
  "stamp_path m s' s'' \<Longrightarrow> stamp_path n s s' \<Longrightarrow> stamp_path (n + m) s s''"
  by (induction rule: stamp_path.induct) (auto intro: stamp_path.intros)

lemma fold_path:
  assumes "\<And>x s. stamp_step s (f x s)"
  shows "stamp_path (length xs) s (fold f xs s)"
proof (induction xs rule: rev_induct)
  case Nil
  then show ?case by (simp add: path_nil)
next
  case (snoc x xs)
  then show ?case by (simp add: path_step [OF _ assms])
qed

lemma stamp_observation_step: "stamp_step s (stamp_observation obs s)"
  by (cases s) (auto intro: stamp_step.intros)

lemma stamp_removal_step: "stamp_step s (stamp_removal seen kr s)"
  by (cases s; cases kr) (auto intro: stamp_step.intros)

lemma al_insert_length: "length (al_insert k v m) \<le> Suc (length m)"
  by (induction m) auto

lemma bt_len_insert: "bt_len (bt_insert k v m) \<le> Suc (bt_len m)"
  by (simp add: bt_len_def bt_insert.rep_eq al_insert_length)

lemma stamp_path_len: "stamp_path n s s' \<Longrightarrow> bt_len (fst s') \<le> bt_len (fst s) + n"
proof (induction rule: stamp_path.induct)
  case (path_step n s s' s'')
  have "bt_len (fst s'') \<le> Suc (bt_len (fst s'))"
    using path_step.hyps(2) by cases (simp_all add: bt_len_insert)
  then show ?case using path_step.IH by simp
qed simp

lemma stamp_path_all:
  obtains n where "n \<le> bt_len rows + 2 * length observed"
    "stamp_path n (rows, counter, []) (stamp rows counter observed)"
proof -
  let ?p = "fold stamp_observation observed (rows, counter, [])"
  have p: "stamp_path (length observed) (rows, counter, []) ?p"
    by (rule fold_path) (rule stamp_observation_step)
  have "stamp_path (length (bt_entries (fst ?p))) ?p (stamp rows counter observed)"
    unfolding stamp_def Let_def by (rule fold_path) (rule stamp_removal_step)
  with p have "stamp_path (length observed + length (bt_entries (fst ?p))) (rows, counter, [])
      (stamp rows counter observed)"
    by (blast intro: stamp_path_append)
  moreover have "length (bt_entries (fst ?p)) \<le> bt_len rows + length observed"
    using stamp_path_len [OF p] by (simp add: bt_len_def)
  ultimately show ?thesis
    by (intro that [of "length observed + length (bt_entries (fst ?p))"]) auto
qed

text \<open>What a path of at most \<open>n\<close> writes does, while the counter does not wrap.\<close>

lemma pub_ok_insert:
  assumes "pub_ok rows c" "unat c + 1 < 2 ^ 64" "pr_generation r = c + 1"
  shows "pub_ok (bt_insert k r rows) (c + 1)"
proof -
  have less: "c < c + 1" "0 < c + 1"
    using unat_succ [of c] assms(2) by (simp_all add: word_less_nat_alt)
  have old: "pr_generation r' \<le> c" if "bt_get rows k' = Some r'" for k' r'
    using assms(1) that by (simp add: pub_ok_def)
  have "pr_generation r' \<noteq> c + 1" if "bt_get rows k' = Some r'" for k' r'
    using old [OF that] less(1) by auto
  moreover have "pr_generation r' \<le> c + 1" if "bt_get rows k' = Some r'" for k' r'
    using old [OF that] less(1) by simp
  ultimately show ?thesis
    using assms(1,3) less(2) by (simp add: pub_ok_def) metis
qed

lemma stamp_path_ok:
  assumes "stamp_path n s s'" "pub_ok (fst s) (fst (snd s))" "unat (fst (snd s)) + n < 2 ^ 64"
  shows "pub_ok (fst s') (fst (snd s')) \<and>
     unat (fst (snd s)) \<le> unat (fst (snd s')) \<and> unat (fst (snd s')) \<le> unat (fst (snd s)) + n \<and>
     (\<forall>k. bt_get (fst s') k = bt_get (fst s) k \<or>
        (\<exists>r. bt_get (fst s') k = Some r \<and> fst (snd s) < pr_generation r))"
  using assms
proof (induction rule: stamp_path.induct)
  case (path_step n s s' s'')
  then have ih: "pub_ok (fst s') (fst (snd s'))"
    "unat (fst (snd s)) \<le> unat (fst (snd s'))" "unat (fst (snd s')) \<le> unat (fst (snd s)) + n"
    "\<forall>k. bt_get (fst s') k = bt_get (fst s) k \<or>
        (\<exists>r. bt_get (fst s') k = Some r \<and> fst (snd s) < pr_generation r)"
    by simp_all
  show ?case
    using path_step.hyps(2)
  proof cases
    case kept
    then show ?thesis using ih by auto
  next
    case (written r c rows changed k)
    have c: "unat c + 1 < 2 ^ 64" using ih(3) path_step.prems written by simp
    then have "unat (c + 1) = unat c + 1" by (intro unat_succ) simp
    then show ?thesis
      using ih written pub_ok_insert [OF _ c] by (auto simp: word_less_nat_alt)
  qed
qed auto

lemma stamp_ok:
  assumes "stamp rows counter observed = (rows', counter', changed)"
    and "pub_ok rows counter" "unat counter + bt_len rows + 2 * length observed < 2 ^ 64"
  shows "pub_ok rows' counter'" and "counter \<le> counter'"
    and "unat counter' \<le> unat counter + bt_len rows + 2 * length observed"
    and "bt_get rows' k = bt_get rows k \<or>
      (\<exists>r. bt_get rows' k = Some r \<and> counter < pr_generation r)"
proof -
  obtain n where n: "n \<le> bt_len rows + 2 * length observed"
    and path: "stamp_path n (rows, counter, []) (rows', counter', changed)"
    using stamp_path_all [of rows observed counter] assms(1) by metis
  note ok = stamp_path_ok [OF path]
  show "pub_ok rows' counter'" "counter \<le> counter'"
    "unat counter' \<le> unat counter + bt_len rows + 2 * length observed"
    "bt_get rows' k = bt_get rows k \<or> (\<exists>r. bt_get rows' k = Some r \<and> counter < pr_generation r)"
    using ok assms(2,3) n by (auto simp: word_le_nat_alt)
qed

section \<open>Which keys are live\<close>

lemma published_insert [simp]:
  "published (bt_insert k r rows) = (published rows)(k := pr_body r)"
  by (auto simp: published_def)

lemma stamp_observation_published:
  "published (fst (stamp_observation obs s)) k \<noteq> None \<longleftrightarrow>
     k = co_key obs \<or> published (fst s) k \<noteq> None"
  by (cases s) (auto simp: stamp_replaces_def published_def split: option.splits if_splits)

lemma fold_observation_published:
  "published (fst (fold stamp_observation observed s)) k \<noteq> None \<longleftrightarrow>
     k \<in> co_key ` set observed \<or> published (fst s) k \<noteq> None"
  by (induction observed arbitrary: s) (auto simp: stamp_observation_published simp del: not_None_eq)

lemma fold_removal_published:
  assumes "distinct (map fst es)" "\<And>k r. (k, r) \<in> set es \<Longrightarrow> published (fst s) k = pr_body r"
  shows "published (fst (fold (stamp_removal seen) es s)) k =
     (if k \<in> fst ` set es \<and> k \<notin> seen then None else published (fst s) k)"
  using assms
proof (induction es arbitrary: s)
  case (Cons kr es)
  obtain k0 r0 where kr: "kr = (k0, r0)" by (cases kr)
  have pub: "published (fst (stamp_removal seen kr s)) =
      (if k0 \<notin> seen then (published (fst s))(k0 := None) else published (fst s))"
    using Cons.prems(2) [of k0 r0] by (cases s) (auto simp: kr fun_eq_iff)
  have "published (fst (stamp_removal seen kr s)) k' = pr_body r'" if "(k', r') \<in> set es" for k' r'
  proof -
    have "k' \<noteq> k0" using Cons.prems(1) that by (auto simp: kr image_iff)
    then show ?thesis using Cons.prems(2) [of k' r'] that by (simp add: pub)
  qed
  then show ?case
    using Cons.IH [of "stamp_removal seen kr s"] Cons.prems(1)
    by (auto simp: pub [unfolded kr] kr)
qed simp

lemma stamp_published_eq:
  assumes "stamp rows counter observed = (rows', counter', changed)"
  shows "published rows' k =
    (if k \<in> co_key ` set observed
     then published (fst (fold stamp_observation observed (rows, counter, []))) k else None)"
proof -
  let ?p = "fold stamp_observation observed (rows, counter, [])"
  let ?seen = "co_key ` set observed"
  have dist: "distinct (map fst (bt_entries (fst ?p)))"
    using bt_keys_distinct [of "fst ?p"] by (simp add: bt_keys_def)
  have body: "published (fst ?p) k = pr_body r" if "(k, r) \<in> set (bt_entries (fst ?p))" for k r
    using that by (simp add: published_def bt_get_entries [symmetric])
  have "rows' = fst (fold (stamp_removal ?seen) (bt_entries (fst ?p)) ?p)"
    using assms by (simp add: stamp_def Let_def)
  then have "published rows' k =
      (if k \<in> fst ` set (bt_entries (fst ?p)) \<and> k \<notin> ?seen then None else published (fst ?p) k)"
    using fold_removal_published [OF dist body] by simp
  moreover have "published (fst ?p) k = None" if "k \<notin> fst ` set (bt_entries (fst ?p))"
    using that bt_keys_iff [of k "fst ?p"]
    by (auto simp: published_def bt_keys_def split: option.splits)
  ultimately show ?thesis by auto
qed

lemma stamp_published:
  assumes "stamp rows counter observed = (rows', counter', changed)"
  shows "published rows' k \<noteq> None \<longleftrightarrow> k \<in> co_key ` set observed"
  using fold_observation_published [of observed "(rows, counter, [])" k]
  by (auto simp: stamp_published_eq [OF assms])

text \<open>With one observation per key, the published body is the observed one where the
  observation replaces the row, and the body already published otherwise.\<close>

lemma fold_observation_body:
  assumes "distinct (map co_key observed)" "obs \<in> set observed"
  shows "published (fst (fold stamp_observation observed s)) (co_key obs) =
    (if stamp_replaces (fst s) obs then Some (co_body obs) else published (fst s) (co_key obs))"
  using assms
proof (induction observed arbitrary: s)
  case (Cons o1 rest)
  have other: "bt_get (fst (fold stamp_observation xs t)) k = bt_get (fst t) k"
    if "k \<notin> co_key ` set xs" for xs t k
    using that
  proof (induction xs arbitrary: t)
    case (Cons x xs)
    then show ?case by (cases t) auto
  qed simp
  show ?case
  proof (cases "obs = o1")
    case True
    then have "published (fst (fold stamp_observation rest (stamp_observation o1 s))) (co_key obs)
        = published (fst (stamp_observation o1 s)) (co_key obs)"
      using Cons.prems(1) other by (simp add: published_def)
    then show ?thesis using True by (cases s) simp
  next
    case False
    then have obs: "obs \<in> set rest" using Cons.prems(2) by simp
    have "co_key o1 \<notin> co_key ` set rest" using Cons.prems(1) by simp
    then have "co_key obs \<noteq> co_key o1" using obs by (metis imageI)
    then have "bt_get (fst (stamp_observation o1 s)) (co_key obs) = bt_get (fst s) (co_key obs)"
      by (cases s) simp
    then show ?thesis
      using Cons.IH [of "stamp_observation o1 s"] Cons.prems(1) obs
      by (simp add: stamp_replaces_def published_def)
  qed
qed simp

section \<open>No rollback\<close>

definition newer :: "PublishedRow \<Rightarrow> PublishedRow \<Rightarrow> bool" where
  "newer r r' \<longleftrightarrow> pr_natural_version r \<le> pr_natural_version r'"

definition live_newer :: "Publication \<Rightarrow> Publication \<Rightarrow> bool" where
  "live_newer rows rows' \<longleftrightarrow>
     (\<forall>k r. bt_get rows k = Some r \<and> pr_body r \<noteq> None \<longrightarrow>
        (\<exists>r'. bt_get rows' k = Some r' \<and> newer r r'))"

lemma fold_observation_newer:
  assumes "bt_get (fst s) k = Some r" "pr_body r \<noteq> None"
  shows "\<exists>r'. bt_get (fst (fold stamp_observation observed s)) k = Some r' \<and> pr_body r' \<noteq> None
     \<and> newer r r'"
  using assms
proof (induction observed arbitrary: s r)
  case (Cons obs observed)
  have "\<exists>r1. bt_get (fst (stamp_observation obs s)) k = Some r1 \<and> pr_body r1 \<noteq> None \<and> newer r r1"
    using Cons.prems by (cases s) (auto simp: stamp_replaces_def newer_def)
  then obtain r1 where "bt_get (fst (stamp_observation obs s)) k = Some r1" "pr_body r1 \<noteq> None"
    "newer r r1" by blast
  then show ?case
    using Cons.IH [of "stamp_observation obs s" r1] by (auto simp: newer_def)
qed (simp add: newer_def)

lemma fold_removal_newer:
  assumes "bt_get (fst s) k = Some r"
    and "\<And>r0. (k, r0) \<in> set es \<Longrightarrow> pr_natural_version r0 = pr_natural_version r"
  shows "\<exists>r'. bt_get (fst (fold (stamp_removal seen) es s)) k = Some r' \<and> newer r r'"
  using assms
proof (induction es arbitrary: s r)
  case (Cons kr es)
  obtain k0 r0 where kr: "kr = (k0, r0)" by (cases kr)
  have "\<exists>r1. bt_get (fst (stamp_removal seen kr s)) k = Some r1 \<and>
      pr_natural_version r1 = pr_natural_version r"
    using Cons.prems by (cases s) (auto simp: kr)
  then obtain r1 where "bt_get (fst (stamp_removal seen kr s)) k = Some r1"
    and "pr_natural_version r1 = pr_natural_version r" by blast
  then show ?case
    using Cons.IH [of "stamp_removal seen kr s" r1] Cons.prems(2) by (auto simp: newer_def)
qed (simp add: newer_def)

lemma stamp_live_newer:
  assumes "stamp rows counter observed = (rows', counter', changed)"
  shows "live_newer rows rows'"
  unfolding live_newer_def
proof (intro allI impI, elim conjE)
  fix k r
  assume r: "bt_get rows k = Some r" "pr_body r \<noteq> None"
  let ?p = "fold stamp_observation observed (rows, counter, [])"
  obtain r1 where r1: "bt_get (fst ?p) k = Some r1" "newer r r1"
    using fold_observation_newer [of "(rows, counter, [])" k r] r by auto
  have "rows' = fst (fold (stamp_removal (co_key ` set observed)) (bt_entries (fst ?p)) ?p)"
    using assms by (simp add: stamp_def Let_def)
  moreover have "pr_natural_version r0 = pr_natural_version r1"
    if "(k, r0) \<in> set (bt_entries (fst ?p))" for r0
    using that r1(1) by (simp add: bt_get_entries [symmetric])
  ultimately obtain r' where "bt_get rows' k = Some r'" "newer r1 r'"
    using fold_removal_newer [OF r1(1)] by blast
  then show "\<exists>r'. bt_get rows' k = Some r' \<and> newer r r'"
    using r1(2) by (auto simp: newer_def)
qed

section \<open>Delta synchronisation\<close>

lemma apply_entries_other: "k \<notin> se_key ` set es \<Longrightarrow> apply_entries es view k = view k"
  by (induction es arbitrary: view) (auto simp: apply_entries_def apply_entry_def)

lemma apply_entries_hit:
  assumes "\<And>e. e \<in> set es \<Longrightarrow> se_key e = k \<Longrightarrow> se_body e = b" "k \<in> se_key ` set es"
  shows "apply_entries es view k = b"
  using assms
proof (induction es arbitrary: view rule: rev_induct)
  case (snoc e es)
  show ?case
  proof (cases "se_key e = k")
    case True
    then show ?thesis using snoc.prems(1) [of e] by (simp add: apply_entries_def apply_entry_def)
  next
    case False
    then have "k \<in> se_key ` set es" using snoc.prems(2) by auto
    then have "apply_entries es view k = b" using snoc.IH snoc.prems(1) by simp
    then show ?thesis using False by (simp add: apply_entries_def apply_entry_def)
  qed
qed simp

lemma above_iff:
  "e \<in> set (above rows since) \<longleftrightarrow>
     (\<exists>r. bt_get rows (se_key e) = Some r \<and> since < pr_generation r \<and>
        se_generation e = pr_generation r \<and> se_body e = pr_body r)"
  by (cases e) (auto simp: above_def bt_get_entries image_iff Bex_def)

lemma above_sync:
  assumes "\<And>k. bt_get rows' k = bt_get rows k \<or>
      (\<exists>r. bt_get rows' k = Some r \<and> since < pr_generation r)"
  shows "apply_entries (above rows' since) (published rows) = published rows'"
proof
  fix k
  show "apply_entries (above rows' since) (published rows) k = published rows' k"
  proof (cases "k \<in> se_key ` set (above rows' since)")
    case True
    show ?thesis
      by (rule apply_entries_hit [OF _ True]) (auto simp: above_iff published_def)
  next
    case False
    have "\<not> (\<exists>r. bt_get rows' k = Some r \<and> since < pr_generation r)"
    proof
      assume "\<exists>r. bt_get rows' k = Some r \<and> since < pr_generation r"
      then obtain r where "bt_get rows' k = Some r" "since < pr_generation r" by blast
      then have "\<lparr> se_key = k, se_generation = pr_generation r, se_body = pr_body r \<rparr>
          \<in> set (above rows' since)" by (simp add: above_iff)
      then show False using False by force
    qed
    then have "bt_get rows' k = bt_get rows k" using assms [of k] by blast
    then show ?thesis
      using apply_entries_other [OF False] by (simp add: published_def)
  qed
qed

text \<open>Any number of publications later: each one observes the ledger as it is then.\<close>

fun stamps :: "Publication \<Rightarrow> u64 \<Rightarrow> ConfigObservation list list \<Rightarrow> Publication \<times> u64" where
  "stamps rows counter [] = (rows, counter)"
| "stamps rows counter (observed # later) =
     (case stamp rows counter observed of (rows', counter', _) \<Rightarrow> stamps rows' counter' later)"

text \<open>No generation is handed out twice while the counter stays below its width.\<close>

fun stamps_fit :: "Publication \<Rightarrow> u64 \<Rightarrow> ConfigObservation list list \<Rightarrow> bool" where
  "stamps_fit rows counter [] = True"
| "stamps_fit rows counter (observed # later) =
     (unat counter + bt_len rows + 2 * length observed < 2 ^ 64 \<and>
      (case stamp rows counter observed of (rows', counter', _) \<Rightarrow> stamps_fit rows' counter' later))"

lemma stamps_ok:
  assumes "stamps rows counter obss = (rows', counter')" "pub_ok rows counter"
    "stamps_fit rows counter obss"
  shows "pub_ok rows' counter' \<and> counter \<le> counter' \<and>
    (\<forall>k. bt_get rows' k = bt_get rows k \<or>
       (\<exists>r. bt_get rows' k = Some r \<and> counter < pr_generation r))"
  using assms
proof (induction obss arbitrary: rows counter)
  case (Cons observed later)
  obtain rows1 counter1 changed where s: "stamp rows counter observed = (rows1, counter1, changed)"
    by (cases "stamp rows counter observed")
  note one = stamp_ok [OF s Cons.prems(2)]
  have fit: "unat counter + bt_len rows + 2 * length observed < 2 ^ 64" "stamps_fit rows1 counter1 later"
    using Cons.prems(3) s by simp_all
  have run: "stamps rows1 counter1 later = (rows', counter')" using Cons.prems(1) s by simp
  have later: "pub_ok rows' counter'" "counter1 \<le> counter'"
    "\<And>k. bt_get rows' k = bt_get rows1 k \<or>
       (\<exists>r. bt_get rows' k = Some r \<and> counter1 < pr_generation r)"
    using Cons.IH [OF run one(1) [OF fit(1)] fit(2)] by auto
  have "bt_get rows' k = bt_get rows k \<or> (\<exists>r. bt_get rows' k = Some r \<and> counter < pr_generation r)" for k
    using later(3) [of k] one(2,4) [OF fit(1)] by (metis le_less_trans)
  then show ?case using later(1,2) one(2) [OF fit(1)] by auto
qed auto

end
