(* ===== verification/Memory_Store.thy ===== *)
theory Memory_Store
  imports Slot Config_Stamp "HOL-Library.Option_ord"
begin

text \<open>
  \<open>crates/application/src/repository/memory.rs\<close> (with the retention rules of
  \<open>repository/objects.rs\<close>): the volatile store.  Everything lives in one \<open>State\<close> behind one
  lock, so an operation is a function from the state to its result and the next state; an
  operation that only reads returns its result.  The limits and the idempotency retention
  are fixed when the store is built (\<open>StoreConfig\<close>).
\<close>

section \<open>State\<close>

datatype object_tag = Object_Tag
type_synonym ObjectId = "object_tag ident"

record ObjectScope =
  scope_tenant_id :: TenantId
  scope_region :: string

record ObjectRef =
  obj_id :: ObjectId
  obj_scope :: ObjectScope

datatype CollectReason = Expired | Orphan

fun CollectReason_as_str :: "CollectReason \<Rightarrow> string" where
  "CollectReason_as_str Expired = ''expired''"
| "CollectReason_as_str Orphan = ''orphan''"

datatype CollectDecision = Collect | InUse usize | Referenced

type_synonym IdempotencyKey = "TenantId \<times> FunctionId \<times> string"

record IdempotencyBinding =
  bnd_invocation_id :: InvocationId
  bnd_input_digest :: Sha256Digest
  bnd_expires_at :: "Timestamp option"

datatype IdempotencyOutcome = Inserted | Existing IdempotencyBinding

record PoolLimits =
  max_idle_per_key :: usize
  max_total_idle :: usize

record StoreConfig =
  cfg_limits :: Limits
  cfg_idempotency_retention :: "Duration option"

record State =
  st_functions :: "(FunctionId, Function) btreemap"
  st_revisions :: "(RevisionId, FunctionRevision) btreemap"
  st_revision_counters :: "(FunctionId, u64) btreemap"
  st_aliases :: "(FunctionId \<times> AliasName, FunctionAlias) btreemap"
  st_invocations :: "(InvocationId, Invocation) btreemap"
  st_attempts :: "(AttemptId, InvocationAttempt) btreemap"
  st_environments :: "(EnvironmentId, ExecutionEnvironment) btreemap"
  st_idempotency :: "(IdempotencyKey, IdempotencyBinding) btreemap"
  st_artifact_owners :: "(Sha256Digest, TenantId btreeset) btreemap"
  st_leases :: "(LeaseId, ExecutionLease) btreemap"
  st_dispatchers :: "(DispatcherId, DispatcherRecord) btreemap"
  st_publication :: Publication
  st_publication_generation :: u64
  st_object_refs :: "(string, InvocationId btreeset) btreemap"
  st_object_tombstones :: "(string, CollectReason \<times> Timestamp) btreemap"

definition State_default :: State where
  "State_default = \<lparr> st_functions = bt_empty, st_revisions = bt_empty,
     st_revision_counters = bt_empty, st_aliases = bt_empty, st_invocations = bt_empty,
     st_attempts = bt_empty, st_environments = bt_empty, st_idempotency = bt_empty,
     st_artifact_owners = bt_empty, st_leases = bt_empty, st_dispatchers = bt_empty,
     st_publication = bt_empty, st_publication_generation = 0, st_object_refs = bt_empty,
     st_object_tombstones = bt_empty \<rparr>"

type_synonym 'a outcome = "(RepoError + 'a) \<times> State"

definition duplicate :: "string \<Rightarrow> string \<Rightarrow> RepoError" where
  "duplicate kind i = Conflict (kind @ '' '' @ i @ '' already exists'')"

text \<open>A state change that may be refused: the state stays as it was on an error.\<close>

definition commit :: "State \<Rightarrow> RepoError + State \<Rightarrow> unit outcome" where
  "commit s r = (case r of Inl e \<Rightarrow> (Inl e, s) | Inr s' \<Rightarrow> (Inr (), s'))"

section \<open>Published configuration\<close>

definition stamp_config ::
  "(ConfigRows \<Rightarrow> RepoError + ConfigObservation list) \<Rightarrow> u64 \<Rightarrow> State \<Rightarrow> StampedConfig outcome" where
  "stamp_config observe since s =
     (case observe \<lparr> cr_functions = bt_values (st_functions s),
                     cr_aliases = bt_values (st_aliases s),
                     cr_revisions = bt_values (st_revisions s) \<rparr> of
        Inl e \<Rightarrow> (Inl e, s)
      | Inr observed \<Rightarrow>
          (case stamp (st_publication s) (st_publication_generation s) observed of
             (rows, counter, _) \<Rightarrow>
               (Inr \<lparr> sc_generation = counter, sc_entries = above rows since \<rparr>,
                s\<lparr>st_publication := rows, st_publication_generation := counter\<rparr>)))"

section \<open>Functions\<close>

definition functions_insert :: "Function \<Rightarrow> State \<Rightarrow> unit outcome" where
  "functions_insert f s =
     (if bt_contains_key (st_functions s) (fn_id f)
      then (Inl (duplicate ''function'' (as_str (fn_id f))), s)
      else if (\<exists>g\<in>set (bt_values (st_functions s)).
                 fn_tenant_id g = fn_tenant_id f \<and> fn_name g = fn_name f \<and> \<not> fn_is_deleted g)
              \<and> \<not> fn_is_deleted f
      then (Inl (Conflict (''function name `'' @ as_str (fn_name f) @ ''` already exists'')), s)
      else (Inr (), s\<lparr>st_functions := bt_insert (fn_id f) f (st_functions s)\<rparr>))"

definition functions_get :: "FunctionId \<Rightarrow> State \<Rightarrow> Function option" where
  "functions_get i s = bt_get (st_functions s) i"

definition functions_find_by_name :: "TenantId \<Rightarrow> FunctionName \<Rightarrow> State \<Rightarrow> Function option" where
  "functions_find_by_name tenant name s =
     find (\<lambda>f. fn_tenant_id f = tenant \<and> fn_name f = name \<and> \<not> fn_is_deleted f)
       (bt_values (st_functions s))"

definition functions_list :: "TenantId \<Rightarrow> State \<Rightarrow> Function list" where
  "functions_list tenant s =
     sort_key (\<lambda>f. (fn_created_at f, fn_id f))
       (filter (\<lambda>f. fn_tenant_id f = tenant) (bt_values (st_functions s)))"

definition functions_update :: "Function \<Rightarrow> State \<Rightarrow> unit outcome" where
  "functions_update f s = commit s
     (and_then (table_update function_update (''function '' @ as_str (fn_id f)) (fn_id f) f
                  (st_functions s))
        (\<lambda>m. Inr (s\<lparr>st_functions := m\<rparr>)))"

section \<open>Revisions\<close>

definition allocate_number :: "FunctionId \<Rightarrow> State \<Rightarrow> u64 outcome" where
  "allocate_number f s =
     (let c = (case bt_get (st_revision_counters s) f of None \<Rightarrow> 0 | Some c \<Rightarrow> c) + 1
      in (Inr c, s\<lparr>st_revision_counters := bt_insert f c (st_revision_counters s)\<rparr>))"

definition revisions_insert :: "FunctionRevision \<Rightarrow> State \<Rightarrow> unit outcome" where
  "revisions_insert r s =
     (if bt_contains_key (st_revisions s) (rev_id r)
      then (Inl (duplicate ''revision'' (as_str (rev_id r))), s)
      else commit s (and_then (revision_insert (bt_get (st_functions s) (rev_function_id r)) r) (\<lambda>_.
        if \<exists>q\<in>set (bt_values (st_revisions s)).
             rev_function_id q = rev_function_id r \<and> rev_number q = rev_number r
        then Inl (Conflict (''revision number '' @ show_u (rev_number r)
                    @ '' already exists for function '' @ as_str (rev_function_id r)))
        else Inr (s\<lparr>st_revisions := bt_insert (rev_id r) r (st_revisions s)\<rparr>))))"

definition revisions_get :: "RevisionId \<Rightarrow> State \<Rightarrow> FunctionRevision option" where
  "revisions_get i s = bt_get (st_revisions s) i"

definition revisions_list_by_function :: "FunctionId \<Rightarrow> State \<Rightarrow> FunctionRevision list" where
  "revisions_list_by_function f s =
     sort_key rev_number (filter (\<lambda>r. rev_function_id r = f) (bt_values (st_revisions s)))"

definition revisions_update :: "FunctionRevision \<Rightarrow> State \<Rightarrow> unit outcome" where
  "revisions_update r s = commit s
     (and_then (table_update revision_update (''revision '' @ as_str (rev_id r)) (rev_id r) r
                  (st_revisions s))
        (\<lambda>m. Inr (s\<lparr>st_revisions := m\<rparr>)))"

section \<open>Aliases\<close>

definition aliases_get :: "FunctionId \<Rightarrow> AliasName \<Rightarrow> State \<Rightarrow> FunctionAlias option" where
  "aliases_get f name s = bt_get (st_aliases s) (f, name)"

definition aliases_list :: "FunctionId \<Rightarrow> State \<Rightarrow> FunctionAlias list" where
  "aliases_list f s =
     sort_key al_name (filter (\<lambda>a. al_function_id a = f) (bt_values (st_aliases s)))"

definition aliases_insert :: "FunctionAlias \<Rightarrow> State \<Rightarrow> unit outcome" where
  "aliases_insert a s =
     (let key = (al_function_id a, al_name a) in
      if bt_contains_key (st_aliases s) key
      then (Inl (Conflict (''alias `'' @ as_str (al_name a) @ ''` already exists'')), s)
      else commit s (and_then (alias_target (bt_get (st_functions s) (al_function_id a))
                                 (bt_get (st_revisions s) (al_revision_id a)) a)
             (\<lambda>_. Inr (s\<lparr>st_aliases := bt_insert key a (st_aliases s)\<rparr>))))"

definition aliases_compare_and_set :: "FunctionAlias \<Rightarrow> u64 \<Rightarrow> State \<Rightarrow> bool outcome" where
  "aliases_compare_and_set a expected_generation s =
     (let key = (al_function_id a, al_name a) in
      case bt_get (st_aliases s) key of
        None \<Rightarrow> (Inl (NotFound (''alias `'' @ as_str (al_name a) @ ''`'')), s)
      | Some current \<Rightarrow>
          if al_generation current \<noteq> expected_generation then (Inr False, s)
          else case and_then (alias_update current a) (\<lambda>_.
                      alias_target (bt_get (st_functions s) (al_function_id a))
                        (bt_get (st_revisions s) (al_revision_id a)) a) of
                 Inl e \<Rightarrow> (Inl e, s)
               | Inr _ \<Rightarrow> (Inr True, s\<lparr>st_aliases := bt_insert key a (st_aliases s)\<rparr>))"

section \<open>Invocations and attempts\<close>

definition set_binding_expiry :: "State \<Rightarrow> Invocation \<Rightarrow> Duration option \<Rightarrow> State" where
  "set_binding_expiry s i retention =
     (if inv_idempotency_key i = None \<or> \<not> IS_is_terminal (inv_status i) then s
      else
        let expires_at = map_option (\<lambda>r. (case inv_finished_at i of
                             Some t \<Rightarrow> t | None \<Rightarrow> inv_accepted_at i) + r) retention
        in s\<lparr>st_idempotency := bt_map (\<lambda>_ b. if bnd_invocation_id b = inv_id i
                                then b\<lparr>bnd_expires_at := expires_at\<rparr> else b) (st_idempotency s)\<rparr>)"

definition insert_invocation :: "State \<Rightarrow> Invocation \<Rightarrow> u64 \<Rightarrow> RepoError + State" where
  "insert_invocation s i max_inline_bytes =
     (if bt_contains_key (st_invocations s) (inv_id i)
      then Inl (duplicate ''invocation'' (as_str (inv_id i)))
      else and_then (invocation_insert (bt_get (st_functions s) (inv_function_id i)) i max_inline_bytes)
             (\<lambda>_. Inr (s\<lparr>st_invocations := bt_insert (inv_id i) i (st_invocations s)\<rparr>)))"

definition invocations_insert :: "StoreConfig \<Rightarrow> Invocation \<Rightarrow> State \<Rightarrow> unit outcome" where
  "invocations_insert cfg i s =
     commit s (insert_invocation s i (max_response_bytes (cfg_limits cfg)))"

definition invocations_get :: "InvocationId \<Rightarrow> State \<Rightarrow> Invocation option" where
  "invocations_get i s = bt_get (st_invocations s) i"

definition invocations_update :: "StoreConfig \<Rightarrow> Invocation \<Rightarrow> State \<Rightarrow> unit outcome" where
  "invocations_update cfg i s = commit s
     (case bt_get (st_invocations s) (inv_id i) of
        None \<Rightarrow> Inl (NotFound (''invocation '' @ as_str (inv_id i)))
      | Some slot \<Rightarrow>
          and_then (invocation_update (max_response_bytes (cfg_limits cfg)) slot i) (\<lambda>w.
            Inr (if w = Apply
                 then set_binding_expiry
                        (s\<lparr>st_invocations := bt_insert (inv_id i) i (st_invocations s)\<rparr>) i
                        (cfg_idempotency_retention cfg)
                 else s)))"

text \<open>Newest first: a stable descending sort is the reversed stable sort of the reversed list.\<close>

definition invocations_list_by_function :: "FunctionId \<Rightarrow> usize \<Rightarrow> State \<Rightarrow> Invocation list" where
  "invocations_list_by_function f limit s =
     take limit (rev (sort_key (\<lambda>i. (inv_accepted_at i, inv_id i))
       (rev (filter (\<lambda>i. inv_function_id i = f) (bt_values (st_invocations s))))))"

definition invocations_insert_attempt :: "InvocationAttempt \<Rightarrow> State \<Rightarrow> unit outcome" where
  "invocations_insert_attempt a s =
     (if bt_contains_key (st_attempts s) (att_id a)
      then (Inl (duplicate ''attempt'' (as_str (att_id a))), s)
      else commit s (and_then (attempt_insert (bt_get (st_invocations s) (att_invocation_id a)) a)
             (\<lambda>_. Inr (s\<lparr>st_attempts := bt_insert (att_id a) a (st_attempts s)\<rparr>))))"

definition invocations_get_attempt :: "AttemptId \<Rightarrow> State \<Rightarrow> InvocationAttempt option" where
  "invocations_get_attempt i s = bt_get (st_attempts s) i"

definition invocations_update_attempt :: "InvocationAttempt \<Rightarrow> State \<Rightarrow> unit outcome" where
  "invocations_update_attempt a s = commit s
     (and_then (table_update attempt_update (''attempt '' @ as_str (att_id a)) (att_id a) a
                  (st_attempts s))
        (\<lambda>m. Inr (s\<lparr>st_attempts := m\<rparr>)))"

definition attempts_of :: "InvocationId \<Rightarrow> State \<Rightarrow> InvocationAttempt list" where
  "attempts_of i s =
     sort_key att_number (filter (\<lambda>a. att_invocation_id a = i) (bt_values (st_attempts s)))"

section \<open>Environments\<close>

definition environments_insert :: "ExecutionEnvironment \<Rightarrow> State \<Rightarrow> unit outcome" where
  "environments_insert e s =
     (if bt_contains_key (st_environments s) (env_id e)
      then (Inl (duplicate ''environment'' (as_str (env_id e))), s)
      else commit s (and_then (environment_insert (bt_get (st_revisions s) (env_revision_id e)) e)
             (\<lambda>_. Inr (s\<lparr>st_environments := bt_insert (env_id e) e (st_environments s)\<rparr>))))"

definition environments_get :: "EnvironmentId \<Rightarrow> State \<Rightarrow> ExecutionEnvironment option" where
  "environments_get i s = bt_get (st_environments s) i"

definition environments_update :: "ExecutionEnvironment \<Rightarrow> State \<Rightarrow> unit outcome" where
  "environments_update e s = commit s
     (and_then (table_update environment_update (''environment '' @ as_str (env_id e)) (env_id e) e
                  (st_environments s))
        (\<lambda>m. Inr (s\<lparr>st_environments := m\<rparr>)))"

definition list_active :: "State \<Rightarrow> ExecutionEnvironment list" where
  "list_active s = filter (\<lambda>e. \<not> env_is_terminal e) (bt_values (st_environments s))"

section \<open>Idempotency keys\<close>

definition live_binding :: "State \<Rightarrow> IdempotencyKey \<Rightarrow> Timestamp \<Rightarrow> IdempotencyBinding option" where
  "live_binding s key now =
     (case bt_get (st_idempotency s) key of
        None \<Rightarrow> None
      | Some b \<Rightarrow>
          if bt_contains_key (st_invocations s) (bnd_invocation_id b)
             \<and> opt_is_none_or (\<lambda>e. e > now) (bnd_expires_at b)
          then Some b else None)"

definition idempotency_lookup ::
  "TenantId \<Rightarrow> FunctionId \<Rightarrow> string \<Rightarrow> Timestamp \<Rightarrow> State \<Rightarrow> IdempotencyBinding option" where
  "idempotency_lookup tenant f key now s = live_binding s (tenant, f, key) now"

definition insert_bound :: "StoreConfig \<Rightarrow> Invocation \<Rightarrow> State \<Rightarrow> IdempotencyOutcome outcome" where
  "insert_bound cfg i s =
     (let key = map_option (\<lambda>k. (inv_tenant_id i, inv_function_id i, k)) (inv_idempotency_key i) in
      case Option.bind key (\<lambda>k. live_binding s k (inv_accepted_at i)) of
        Some existing \<Rightarrow> (Inr (Existing existing), s)
      | None \<Rightarrow>
          let binding = \<lparr> bnd_invocation_id = inv_id i, bnd_input_digest = inv_input_digest i,
                          bnd_expires_at = None \<rparr> in
          (case insert_invocation s i (max_response_bytes (cfg_limits cfg)) of
             Inl e \<Rightarrow> (Inl e, s)
           | Inr s1 \<Rightarrow>
               (Inr Inserted,
                case key of None \<Rightarrow> s1
                | Some k \<Rightarrow> set_binding_expiry
                    (s1\<lparr>st_idempotency := bt_insert k binding (st_idempotency s1)\<rparr>) i
                    (cfg_idempotency_retention cfg))))"

definition purge_expired_idempotency :: "Timestamp \<Rightarrow> State \<Rightarrow> usize outcome" where
  "purge_expired_idempotency now s =
     (let kept = bt_retain (\<lambda>_ b. opt_is_none_or (\<lambda>e. e > now) (bnd_expires_at b)) (st_idempotency s)
      in (Inr (bt_len (st_idempotency s) - bt_len kept), s\<lparr>st_idempotency := kept\<rparr>))"

section \<open>Artifact owners\<close>

definition artifact_claim :: "TenantId \<Rightarrow> Sha256Digest \<Rightarrow> State \<Rightarrow> unit outcome" where
  "artifact_claim tenant digest s =
     (let owners = (case bt_get (st_artifact_owners s) digest of None \<Rightarrow> bt_empty | Some o' \<Rightarrow> o')
      in (Inr (), s\<lparr>st_artifact_owners :=
                     bt_insert digest (bt_insert tenant () owners) (st_artifact_owners s)\<rparr>))"

definition is_owned_by :: "TenantId \<Rightarrow> Sha256Digest \<Rightarrow> State \<Rightarrow> bool" where
  "is_owned_by tenant digest s =
     opt_is_some_and (\<lambda>owners. bt_contains_key owners tenant) (bt_get (st_artifact_owners s) digest)"

section \<open>Slots: helpers\<close>

definition has_unreleased_lease :: "State \<Rightarrow> EnvironmentId \<Rightarrow> bool" where
  "has_unreleased_lease s env \<longleftrightarrow>
     (\<exists>l\<in>set (bt_values (st_leases s)). lse_environment_id l = env \<and> lse_released_at l = None)"

definition fence_env ::
  "EnvironmentId \<Rightarrow> Timestamp \<Rightarrow> State \<times> ReclaimReport \<Rightarrow> State \<times> ReclaimReport" where
  "fence_env i now sr =
     (case sr of (s, report) \<Rightarrow>
      (case bt_get (st_environments s) i of
         None \<Rightarrow> (s, report)
       | Some env \<Rightarrow>
           if env_is_terminal env \<or> env_is_fenced env then (s, report)
           else (case env_fence env now of
                   Inl _ \<Rightarrow> (s, report)
                 | Inr env' \<Rightarrow>
                     (s\<lparr>st_environments := bt_insert i env' (st_environments s)\<rparr>,
                      report\<lparr>rep_fenced := rep_fenced report @ [env']\<rparr>))))"

definition settle_attempts_of ::
  "InvocationId \<Rightarrow> bool \<Rightarrow> Cause \<Rightarrow> Timestamp \<Rightarrow> State \<times> ReclaimReport \<Rightarrow> State \<times> ReclaimReport" where
  "settle_attempts_of i unknown cause now sr =
     (case sr of (s, report) \<Rightarrow>
      (s\<lparr>st_attempts := bt_map (\<lambda>_ a. if att_invocation_id a = i
                          then fst (settle_attempt_with a unknown cause now) else a) (st_attempts s)\<rparr>,
       report\<lparr>rep_attempts := rep_attempts report +
         length (filter (\<lambda>a. att_invocation_id a = i \<and> snd (settle_attempt_with a unknown cause now))
                   (bt_values (st_attempts s)))\<rparr>))"

definition settle_invocation_rows ::
  "InvocationId \<Rightarrow> Cause \<Rightarrow> Duration option \<Rightarrow> Timestamp \<Rightarrow> State \<times> ReclaimReport
     \<Rightarrow> State \<times> ReclaimReport" where
  "settle_invocation_rows i cause retention now sr =
     (case sr of (s, report) \<Rightarrow>
      (case bt_get (st_invocations s) i of
         None \<Rightarrow> (s, report)
       | Some iv \<Rightarrow>
           let settled = settle_invocation_with iv cause now in
           if \<not> survives_dispatcher iv \<and> snd settled
           then settle_attempts_of (inv_id (fst settled)) (attempts_unknown (fst settled)) cause now
                  (set_binding_expiry
                     (s\<lparr>st_invocations := bt_insert (inv_id (fst settled)) (fst settled)
                                            (st_invocations s)\<rparr>) (fst settled) retention,
                   report\<lparr>rep_invocations := rep_invocations report + 1\<rparr>)
           else settle_attempts_of (inv_id iv) (attempts_unknown iv) cause now (s, report)))"

definition cause_of :: "DispatcherRecord \<Rightarrow> bool \<Rightarrow> Cause" where
  "cause_of d proven_dead =
     (if proven_dead \<or> dsp_stopped_at d \<noteq> None then RESTARTED else LEASE_EXPIRED)"

section \<open>Dispatchers\<close>

definition register_dispatcher :: "DispatcherRecord \<Rightarrow> State \<Rightarrow> unit outcome" where
  "register_dispatcher d s =
     (if bt_contains_key (st_dispatchers s) (dsp_id d)
      then (Inl (duplicate ''dispatcher'' (as_str (dsp_id d))), s)
      else (Inr (), s\<lparr>st_dispatchers := bt_insert (dsp_id d) d (st_dispatchers s)\<rparr>))"

definition get_dispatcher :: "DispatcherId \<Rightarrow> State \<Rightarrow> DispatcherRecord option" where
  "get_dispatcher i s = bt_get (st_dispatchers s) i"

definition list_dispatchers :: "State \<Rightarrow> DispatcherRecord list" where
  "list_dispatchers s = bt_values (st_dispatchers s)"

text \<open>One lease of the renewal loop: owned, unreleased, and renewed or revived.\<close>

definition renewed_lease ::
  "DispatcherId \<Rightarrow> Duration \<Rightarrow> Timestamp \<Rightarrow> bool \<Rightarrow> ExecutionLease \<Rightarrow> ExecutionLease option" where
  "renewed_lease i ttl now revive l =
     (if lse_owner l = Some i \<and> lse_released_at l = None
      then (case (if revive then lse_revive l now ttl else lse_renew l now ttl) of
              Inr l' \<Rightarrow> Some l' | Inl _ \<Rightarrow> None)
      else None)"

definition renew_dispatcher ::
  "DispatcherId \<Rightarrow> Duration \<Rightarrow> Timestamp \<Rightarrow> bool \<Rightarrow> State \<Rightarrow> HeartbeatOutcome \<times> State" where
  "renew_dispatcher i ttl now revive s =
     (case bt_get (st_dispatchers s) i of
        None \<Rightarrow> (Fenced, s)
      | Some d \<Rightarrow>
          if \<not> dsp_is_live d \<or> (\<not> revive \<and> now \<ge> dsp_lease_expires_at d) then (Fenced, s)
          else
            let d' = d\<lparr>dsp_heartbeat_at := now,
                       dsp_lease_expires_at := max (dsp_lease_expires_at d) (now + ttl)\<rparr> in
            (Renewed (length (filter (\<lambda>l. renewed_lease i ttl now revive l \<noteq> None)
                        (bt_values (st_leases s)))),
             s\<lparr>st_dispatchers := bt_insert i d' (st_dispatchers s),
               st_leases := bt_map (\<lambda>_ l. case renewed_lease i ttl now revive l of
                              Some l' \<Rightarrow> l' | None \<Rightarrow> l) (st_leases s)\<rparr>))"

definition heartbeat ::
  "DispatcherId \<Rightarrow> Duration \<Rightarrow> Timestamp \<Rightarrow> State \<Rightarrow> HeartbeatOutcome \<times> State" where
  "heartbeat i ttl now s = renew_dispatcher i ttl now False s"

definition renew_after_store_outage ::
  "DispatcherId \<Rightarrow> Duration \<Rightarrow> Timestamp \<Rightarrow> State \<Rightarrow> HeartbeatOutcome \<times> State" where
  "renew_after_store_outage i ttl now s = renew_dispatcher i ttl now True s"

definition stop_dispatcher :: "DispatcherId \<Rightarrow> Timestamp \<Rightarrow> State \<Rightarrow> unit outcome" where
  "stop_dispatcher i now s =
     (case bt_get (st_dispatchers s) i of
        Some d \<Rightarrow> if dsp_stopped_at d = None
          then (Inr (), s\<lparr>st_dispatchers := bt_insert i (d\<lparr>dsp_stopped_at := Some now\<rparr>)
                           (st_dispatchers s)\<rparr>)
          else (Inr (), s)
      | None \<Rightarrow> (Inr (), s))"

section \<open>The warm pool\<close>

definition list_idle :: "DispatcherId option \<Rightarrow> State \<Rightarrow> ExecutionEnvironment list" where
  "list_idle owner s =
     sort_key (\<lambda>e. (env_idle_since e, env_id e))
       (filter (\<lambda>e. env_state e = ES_Idle \<and> env_owner e = owner) (bt_values (st_environments s)))"

definition claim_for_reuse ::
  "ReuseKey \<Rightarrow> DispatcherId option \<Rightarrow> Timestamp \<Rightarrow> State \<Rightarrow> ExecutionEnvironment option outcome" where
  "claim_for_reuse key owner now s =
     (case find (\<lambda>(k, e). env_state e = ES_Idle \<and> env_reuse_key e = key \<and> env_owner e = owner)
             (bt_entries (st_environments s)) of
        None \<Rightarrow> (Inr None, s)
      | Some (k, env) \<Rightarrow>
          (case env_reserve env now of
             Inl _ \<Rightarrow> (Inr None, s)
           | Inr claimed \<Rightarrow>
               (Inr (Some claimed),
                s\<lparr>st_environments := bt_insert k claimed (st_environments s)\<rparr>)))"

text \<open>The row written back: a pre-started environment passes through \<open>Busy\<close>.\<close>

definition pooled_row :: "ExecutionEnvironment \<Rightarrow> Timestamp \<Rightarrow> DomainError + ExecutionEnvironment" where
  "pooled_row env now =
     and_then (if env_state env = ES_Ready then env_mark_busy env now else Inr env)
       (\<lambda>busy. env_mark_idle busy now)"

definition release_to_pool ::
  "ExecutionEnvironment \<Rightarrow> PoolLimits \<Rightarrow> Timestamp \<Rightarrow> State \<Rightarrow> ExecutionEnvironment option outcome" where
  "release_to_pool env limits now s =
     (case bt_get (st_environments s) (env_id env) of
        None \<Rightarrow> (Inr None, s)
      | Some current \<Rightarrow>
          let prestarted = (env_state current = ES_Ready \<and> env_epoch current = 0);
              idle = filter (\<lambda>e. env_state e = ES_Idle) (bt_values (st_environments s));
              total = length idle;
              per_key = length (filter (\<lambda>e. env_reuse_key e = env_reuse_key env) idle) in
          if env_epoch current \<noteq> env_epoch env
             \<or> \<not> (env_state current = ES_Busy \<or> prestarted)
             \<or> env_is_fenced current
             \<or> has_unreleased_lease s (env_id env)
          then (Inr None, s)
          else if total \<ge> max_total_idle limits \<or> per_key \<ge> max_idle_per_key limits
          then (Inr None, s)
          else (case pooled_row env now of
                  Inl _ \<Rightarrow> (Inr None, s)
                | Inr pooled \<Rightarrow>
                    (case environment_update current pooled of
                       Inl e \<Rightarrow> (Inl e, s)
                     | Inr _ \<Rightarrow>
                         (Inr (Some pooled),
                          s\<lparr>st_environments := bt_insert (env_id pooled) pooled (st_environments s)\<rparr>))))"

definition take_idle_for_termination :: "EnvironmentId \<Rightarrow> Timestamp \<Rightarrow> State \<Rightarrow> bool outcome" where
  "take_idle_for_termination i now s =
     (case bt_get (st_environments s) i of
        Some env \<Rightarrow>
          if env_state env = ES_Idle
          then (case env_mark_draining env now of
                  Inl _ \<Rightarrow> (Inr False, s)
                | Inr env' \<Rightarrow>
                    (Inr True, s\<lparr>st_environments := bt_insert i env' (st_environments s)\<rparr>))
          else (Inr False, s)
      | None \<Rightarrow> (Inr False, s))"

section \<open>Slots and leases\<close>

text \<open>
  The checks of \<open>acquire\<close> after the shared preconditions, in the order of the source:
  \<open>Inr (Some reason)\<close> is a lost race, \<open>Inr None\<close> lets the four rows be written.
\<close>

definition acquire_checks ::
  "StoreConfig \<Rightarrow> SlotAcquire \<Rightarrow> ExecutionEnvironment \<Rightarrow> State \<Rightarrow> RepoError + string option" where
  "acquire_checks cfg request stored s =
     (let env = acq_env request; lease = acq_lease request; attempt = acq_attempt request;
          owner = the (lse_owner lease) in
      case bt_get (st_dispatchers s) owner of
        None \<Rightarrow> Inr (Some (''dispatcher '' @ as_str owner @ '' is not registered''))
      | Some d \<Rightarrow>
          if \<not> dsp_is_live d
          then Inr (Some (''dispatcher '' @ as_str owner @ '' is stopped or was reclaimed''))
          else if has_unreleased_lease s (env_id env)
          then Inr (Some (''environment '' @ as_str (env_id env) @ '' already has an unreleased lease''))
          else and_then
            (case acq_invocation request of
               None \<Rightarrow> Inr None
             | Some iv \<Rightarrow>
                 (case bt_get (st_invocations s) (inv_id iv) of
                    None \<Rightarrow> Inl (NotFound (''invocation '' @ as_str (inv_id iv)))
                  | Some old \<Rightarrow>
                      if IS_is_terminal (inv_status old)
                      then Inr (Some (''invocation '' @ as_str (inv_id iv) @ '' is already ''
                             @ IS_name (inv_status old)))
                      else and_then (invocation_update (max_response_bytes (cfg_limits cfg)) old iv)
                             (\<lambda>_. Inr None)))
            (\<lambda>lost. case lost of Some reason \<Rightarrow> Inr (Some reason)
             | None \<Rightarrow>
                if bt_contains_key (st_attempts s) (att_id attempt)
                then Inl (duplicate ''attempt'' (as_str (att_id attempt)))
                else if bt_contains_key (st_leases s) (lse_id lease)
                then Inl (duplicate ''lease'' (as_str (lse_id lease)))
                else and_then (attempt_insert (bt_get (st_invocations s) (att_invocation_id attempt))
                                 attempt) (\<lambda>_.
                     and_then (lease_insert (Some stored) lease) (\<lambda>_. Inr None))))"

definition acquire_write :: "SlotAcquire \<Rightarrow> State \<Rightarrow> State" where
  "acquire_write request s =
     s\<lparr>st_environments := bt_insert (env_id (acq_env request)) (acq_env request) (st_environments s),
       st_leases := bt_insert (lse_id (acq_lease request)) (acq_lease request) (st_leases s),
       st_attempts := bt_insert (att_id (acq_attempt request)) (acq_attempt request) (st_attempts s),
       st_invocations := (case acq_invocation request of None \<Rightarrow> st_invocations s
          | Some iv \<Rightarrow> bt_insert (inv_id iv) iv (st_invocations s))\<rparr>"

definition acquire :: "StoreConfig \<Rightarrow> SlotAcquire \<Rightarrow> State \<Rightarrow> AcquireOutcome outcome" where
  "acquire cfg request s =
     (let stored = bt_get (st_environments s) (env_id (acq_env request)) in
      case acquire_preconditions request stored of
        Inl e \<Rightarrow> (Inl e, s)
      | Inr (Some reason) \<Rightarrow> (Inr (Lost reason), s)
      | Inr None \<Rightarrow>
          (case stored of
             None \<Rightarrow> (Inl (NotFound (''environment '' @ as_str (env_id (acq_env request)))), s)
           | Some stored \<Rightarrow>
               (case acquire_checks cfg request stored s of
                  Inl e \<Rightarrow> (Inl e, s)
                | Inr (Some reason) \<Rightarrow> (Inr (Lost reason), s)
                | Inr None \<Rightarrow> (Inr Acquired, acquire_write request s))))"

definition get_lease :: "LeaseId \<Rightarrow> State \<Rightarrow> ExecutionLease option" where
  "get_lease i s = bt_get (st_leases s) i"

definition renew_lease ::
  "LeaseId \<Rightarrow> DispatcherId \<Rightarrow> u64 \<Rightarrow> Duration \<Rightarrow> Timestamp \<Rightarrow> State \<Rightarrow> bool outcome" where
  "renew_lease i owner epoch ttl now s =
     (case bt_get (st_leases s) i of
        None \<Rightarrow> (Inr False, s)
      | Some lease \<Rightarrow>
          if lse_owner lease \<noteq> Some owner \<or> lse_epoch lease \<noteq> epoch then (Inr False, s)
          else (case lse_renew lease now ttl of
                  Inl _ \<Rightarrow> (Inr False, s)
                | Inr lease' \<Rightarrow> (Inr True, s\<lparr>st_leases := bt_insert i lease' (st_leases s)\<rparr>)))"

text \<open>The environment a lease names, as \<open>complete\<close> and \<open>release_lease\<close> read it.\<close>

definition lease_env :: "State \<Rightarrow> ExecutionLease option \<Rightarrow> ExecutionEnvironment option" where
  "lease_env s lease =
     Option.bind lease (\<lambda>l. bt_get (st_environments s) (lse_environment_id l))"

definition complete :: "StoreConfig \<Rightarrow> SlotCompletion \<Rightarrow> State \<Rightarrow> CompletionOutcome outcome" where
  "complete cfg c s =
     (let attempt = cpl_attempt c; now = cpl_now c;
          lease = bt_get (st_leases s) (cpl_lease_id c) in
      case lease_is_current lease (att_id attempt) (att_epoch attempt) (lease_env s lease) of
        Some reason \<Rightarrow> (Inr (Stale reason), s)
      | None \<Rightarrow>
      (case bt_get (st_attempts s) (att_id attempt) of
        None \<Rightarrow> (Inl (NotFound (''attempt '' @ as_str (att_id attempt))), s)
      | Some old_attempt \<Rightarrow>
      if AS_is_terminal (att_status old_attempt)
      then (Inr (Stale (''attempt '' @ as_str (att_id attempt) @ '' is already settled'')), s)
      else (case attempt_update old_attempt attempt of
        Inl e \<Rightarrow> (Inl e, s)
      | Inr attempt_write \<Rightarrow>
      (case (case cpl_invocation c of
               None \<Rightarrow> Inr (Inr None)
             | Some iv \<Rightarrow>
                 (case bt_get (st_invocations s) (inv_id iv) of
                    None \<Rightarrow> Inl (NotFound (''invocation '' @ as_str (inv_id iv)))
                  | Some old \<Rightarrow>
                      if IS_is_terminal (inv_status old)
                      then Inr (Inl (''invocation '' @ as_str (inv_id iv) @ '' is already ''
                             @ IS_name (inv_status old)))
                      else and_then (invocation_update (max_response_bytes (cfg_limits cfg)) old iv)
                             (\<lambda>w. Inr (Inr (Some (iv, w))))))
       of
        Inl e \<Rightarrow> (Inl e, s)
      | Inr (Inl reason) \<Rightarrow> (Inr (Stale reason), s)
      | Inr (Inr invocation_write) \<Rightarrow>
      (case lse_release (the lease) now of
        Inl e \<Rightarrow> (Inl (Refused (DomainError_to_string e)), s)
      | Inr released \<Rightarrow>
          let s1 = s\<lparr>st_leases := bt_insert (lse_id released) released (st_leases s)\<rparr>;
              s2 = (if attempt_write = Apply
                    then s1\<lparr>st_attempts := bt_insert (att_id attempt) attempt (st_attempts s1)\<rparr>
                    else s1);
              s3 = (case invocation_write of
                      Some (iv, Apply) \<Rightarrow>
                        set_binding_expiry
                          (s2\<lparr>st_invocations := bt_insert (inv_id iv) iv (st_invocations s2)\<rparr>) iv
                          (cfg_idempotency_retention cfg)
                    | _ \<Rightarrow> s2)
          in (Inr Accepted, s3))))))"

definition release_lease ::
  "LeaseId \<Rightarrow> AttemptId \<Rightarrow> u64 \<Rightarrow> Timestamp \<Rightarrow> State \<Rightarrow> bool outcome" where
  "release_lease i attempt epoch now s =
     (let lease = bt_get (st_leases s) i in
      if lease_is_current lease attempt epoch (lease_env s lease) \<noteq> None then (Inr False, s)
      else (case lease of
              None \<Rightarrow> (Inr False, s)
            | Some l \<Rightarrow>
                (case lse_release l now of
                   Inl _ \<Rightarrow> (Inr False, s)
                 | Inr l' \<Rightarrow> (Inr True, s\<lparr>st_leases := bt_insert i l' (st_leases s)\<rparr>))))"

section \<open>Reclaim\<close>

text \<open>The first loop: which dispatchers are dead, and why; newly dead ones are marked.\<close>

type_synonym dispatcher_pass =
  "(DispatcherId, DispatcherRecord) btreemap \<times> ReclaimReport \<times> (DispatcherId, Cause) btreemap"

fun reclaim_dispatcher ::
  "ReclaimRequest \<Rightarrow> DispatcherId \<times> DispatcherRecord \<Rightarrow> dispatcher_pass \<Rightarrow> dispatcher_pass" where
  "reclaim_dispatcher request (k, d) (ds, report, dead) =
     (if dsp_id d = rcl_reclaimer request then (ds, report, dead)
      else if dsp_reclaimed_at d \<noteq> None
      then (ds, report, bt_insert (dsp_id d) (cause_of d False) dead)
      else
        let proven = (dsp_id d \<in> set (rcl_presumed_dead request)) in
        if dsp_stopped_at d = None \<and> \<not> proven
           \<and> \<not> dsp_is_expired d (rcl_now request) (rcl_skew request)
        then (ds, report, dead)
        else (bt_insert k (d\<lparr>dsp_reclaimed_at := Some (rcl_now request)\<rparr>) ds,
              report\<lparr>rep_dispatchers := rep_dispatchers report @ [dsp_id d]\<rparr>,
              bt_insert (dsp_id d) (cause_of d proven) dead))"

definition reclaim_dispatchers :: "ReclaimRequest \<Rightarrow> State \<Rightarrow> dispatcher_pass" where
  "reclaim_dispatchers request s =
     fold (reclaim_dispatcher request) (bt_entries (st_dispatchers s))
       (st_dispatchers s, ReclaimReport_default, bt_empty)"

text \<open>The leases to release: owned by a dead dispatcher, or past their own expiry.\<close>

definition lease_cause ::
  "ReclaimRequest \<Rightarrow> (DispatcherId, Cause) btreemap \<Rightarrow> ExecutionLease \<Rightarrow> Cause option" where
  "lease_cause request dead l =
     (case lse_owner l of
        None \<Rightarrow> None
      | Some owner \<Rightarrow>
          if owner = rcl_reclaimer request then None
          else (case bt_get dead owner of
                  Some cause \<Rightarrow> Some cause
                | None \<Rightarrow> if lse_is_expired l (rcl_now request) (rcl_skew request)
                          then Some LEASE_EXPIRED else None))"

definition expired_leases ::
  "ReclaimRequest \<Rightarrow> (DispatcherId, Cause) btreemap \<Rightarrow> State \<Rightarrow> (ExecutionLease \<times> Cause) list" where
  "expired_leases request dead s =
     List.map_filter (\<lambda>l. map_option (\<lambda>cause. (l, cause)) (lease_cause request dead l))
       (filter (\<lambda>l. lse_released_at l = None) (bt_values (st_leases s)))"

definition reclaim_lease_attempt ::
  "StoreConfig \<Rightarrow> Timestamp \<Rightarrow> ExecutionLease \<Rightarrow> Cause \<Rightarrow> State \<times> ReclaimReport
     \<Rightarrow> State \<times> ReclaimReport" where
  "reclaim_lease_attempt cfg now lease cause sr =
     (case sr of (s, report) \<Rightarrow>
      (case bt_get (st_attempts s) (lse_attempt_id lease) of
         None \<Rightarrow> (s, report)
       | Some att \<Rightarrow>
           let settled = settle_attempt_with att True cause now;
               s1 = s\<lparr>st_attempts := bt_insert (lse_attempt_id lease) (fst settled) (st_attempts s)\<rparr>;
               report1 = (if snd settled then report\<lparr>rep_attempts := rep_attempts report + 1\<rparr>
                          else report) in
           if opt_is_some_and (\<lambda>iv. \<not> IS_is_terminal (inv_status iv)
                                \<and> inv_attempt_ids iv \<noteq> []
                                \<and> last (inv_attempt_ids iv) = lse_attempt_id lease)
                (bt_get (st_invocations s1) (att_invocation_id att))
           then settle_invocation_rows (att_invocation_id att) cause (cfg_idempotency_retention cfg)
                  now (s1, report1)
           else (s1, report1)))"

fun reclaim_lease ::
  "StoreConfig \<Rightarrow> Timestamp \<Rightarrow> ExecutionLease \<times> Cause \<Rightarrow> State \<times> ReclaimReport
     \<Rightarrow> State \<times> ReclaimReport" where
  "reclaim_lease cfg now (lease, cause) (s, report) =
     (case lse_release lease now of
        Inl _ \<Rightarrow> (s, report)
      | Inr released \<Rightarrow>
          let sr = reclaim_lease_attempt cfg now released cause
                     (s\<lparr>st_leases := bt_insert (lse_id released) released (st_leases s)\<rparr>,
                      report\<lparr>rep_leases := rep_leases report + 1\<rparr>) in
          if opt_is_some_and (\<lambda>e. env_epoch e = lse_epoch released)
               (bt_get (st_environments (fst sr)) (lse_environment_id released))
          then fence_env (lse_environment_id released) now sr
          else sr)"

text \<open>The last loop: what a dead dispatcher accepted and created without a lease.\<close>

fun reclaim_owned ::
  "StoreConfig \<Rightarrow> Timestamp \<Rightarrow> DispatcherId \<times> Cause \<Rightarrow> State \<times> ReclaimReport
     \<Rightarrow> State \<times> ReclaimReport" where
  "reclaim_owned cfg now (owner, cause) (s, report) =
     (let invocations = map inv_id (filter (\<lambda>i. inv_dispatcher_id i = Some owner
                           \<and> \<not> IS_is_terminal (inv_status i)) (bt_values (st_invocations s)));
          settled = fold (\<lambda>i. settle_invocation_rows i cause (cfg_idempotency_retention cfg) now)
                      invocations (s, report);
          envs = map env_id (filter (\<lambda>e. env_owner e = Some owner \<and> \<not> env_is_terminal e
                    \<and> \<not> env_is_fenced e) (bt_values (st_environments (fst settled))))
      in fold (\<lambda>i. fence_env i now) envs settled)"

definition reclaimer_holds_lease :: "ReclaimRequest \<Rightarrow> State \<Rightarrow> bool" where
  "reclaimer_holds_lease request s =
     opt_is_some_and (\<lambda>d. dsp_is_live d \<and> rcl_now request < dsp_lease_expires_at d)
       (bt_get (st_dispatchers s) (rcl_reclaimer request))"

definition reclaim_expired :: "StoreConfig \<Rightarrow> ReclaimRequest \<Rightarrow> State \<Rightarrow> ReclaimReport \<times> State" where
  "reclaim_expired cfg request s =
     (if \<not> reclaimer_holds_lease request s then (ReclaimReport_default, s)
      else
        (case reclaim_dispatchers request s of (ds, report, dead) \<Rightarrow>
           let s1 = s\<lparr>st_dispatchers := ds\<rparr>;
               leased = fold (reclaim_lease cfg (rcl_now request))
                          (expired_leases request dead s1) (s1, report);
               owned = fold (reclaim_owned cfg (rcl_now request)) (bt_entries dead) leased
           in (snd owned, fst owned)))"

definition list_fenced :: "State \<Rightarrow> ExecutionEnvironment list" where
  "list_fenced s = filter (\<lambda>e. env_is_fenced e \<and> \<not> env_is_terminal e) (bt_values (st_environments s))"

definition FENCED_TERMINATED :: string where
  "FENCED_TERMINATED = ''owner lost its lease; environment fenced and terminate confirmed''"

definition confirm_terminated :: "EnvironmentId \<Rightarrow> u64 \<Rightarrow> Timestamp \<Rightarrow> State \<Rightarrow> bool outcome" where
  "confirm_terminated i epoch now s =
     (case bt_get (st_environments s) i of
        None \<Rightarrow> (Inr False, s)
      | Some env \<Rightarrow>
          if \<not> env_is_fenced env \<or> env_is_terminal env \<or> env_epoch env \<noteq> epoch then (Inr False, s)
          else (case env_mark_lost env FENCED_TERMINATED now of
                  Inl _ \<Rightarrow> (Inr False, s)
                | Inr env' \<Rightarrow>
                    (Inr True, s\<lparr>st_environments := bt_insert i env' (st_environments s)\<rparr>)))"

section \<open>Object references\<close>

definition TOMBSTONE_RETENTION_DAYS :: int where
  "TOMBSTONE_RETENTION_DAYS = 30"

text \<open>
  \<open>ObjectId::created_at_ms\<close> decodes the ULID with the \<open>ulid\<close> crate, whose decoder is the
  parameter \<open>ulid_timestamp_ms\<close>; an id that does not decode counts as created at 0.
\<close>

definition to_ascii_uppercase :: "string \<Rightarrow> string" where
  "to_ascii_uppercase = map (\<lambda>c. if is_ascii_lowercase c then char_of (byte c - 32) else c)"

definition created_at_ms :: "(string \<Rightarrow> u64 option) \<Rightarrow> ObjectId \<Rightarrow> u64" where
  "created_at_ms ulid_timestamp_ms i =
     (case ulid_timestamp_ms (to_ascii_uppercase (drop 4 (as_str i))) of Some t \<Rightarrow> t | None \<Rightarrow> 0)"

definition check_attachable ::
  "(string \<Rightarrow> u64 option) \<Rightarrow> ObjectId \<Rightarrow> Timestamp \<Rightarrow> RepoError + unit" where
  "check_attachable ulid_timestamp_ms object now =
     (let limit = now - duration_days TOMBSTONE_RETENTION_DAYS in
      if sint (created_at_ms ulid_timestamp_ms object) < timestamp_millis limit
      then Inl (Refused (''object '' @ as_str object @ '' is older than ''
             @ show_nat (nat TOMBSTONE_RETENTION_DAYS)
             @ '' days and can no longer be attached; store it again''))
      else Inr ())"

definition refs_of :: "State \<Rightarrow> ObjectId \<Rightarrow> InvocationId btreeset" where
  "refs_of s object =
     (case bt_get (st_object_refs s) (as_str object) of None \<Rightarrow> bt_empty | Some refs \<Rightarrow> refs)"

definition attach_object ::
  "(string \<Rightarrow> u64 option) \<Rightarrow> ObjectRef \<Rightarrow> InvocationId \<Rightarrow> Timestamp \<Rightarrow> State \<Rightarrow> unit outcome" where
  "attach_object ulid_timestamp_ms object invocation now s = commit s
     (and_then (check_attachable ulid_timestamp_ms (obj_id object) now) (\<lambda>_.
      case bt_get (st_invocations s) invocation of
        None \<Rightarrow> Inl (NotFound (''invocation '' @ as_str invocation))
      | Some iv \<Rightarrow>
          if inv_tenant_id iv \<noteq> scope_tenant_id (obj_scope object)
          then Inl (Refused (''object '' @ as_str (obj_id object)
                 @ '' belongs to another tenant than invocation '' @ as_str invocation))
          else (case bt_get (st_object_tombstones s) (as_str (obj_id object)) of
                  Some (reason, _) \<Rightarrow>
                    Inl (Refused (''object '' @ as_str (obj_id object) @ '' is being collected (''
                      @ CollectReason_as_str reason @ ''); store it again''))
                | None \<Rightarrow>
                    Inr (s\<lparr>st_object_refs := bt_insert (as_str (obj_id object))
                             (bt_insert invocation () (refs_of s (obj_id object)))
                             (st_object_refs s)\<rparr>))))"

definition object_references :: "ObjectId \<Rightarrow> State \<Rightarrow> InvocationId list" where
  "object_references object s = bt_keys (refs_of s object)"

definition claim_for_collection ::
  "ObjectRef \<Rightarrow> CollectReason \<Rightarrow> Timestamp \<Rightarrow> State \<Rightarrow> CollectDecision outcome" where
  "claim_for_collection object reason now s =
     (if bt_contains_key (st_object_tombstones s) (as_str (obj_id object)) then (Inr Collect, s)
      else
        let refs = bt_keys (refs_of s (obj_id object));
            live = length (filter (\<lambda>i. opt_is_none_or (\<lambda>iv. \<not> IS_is_terminal (inv_status iv))
                             (bt_get (st_invocations s) i)) refs) in
        if live > 0 then (Inr (InUse live), s)
        else if reason = Orphan \<and> refs \<noteq> [] then (Inr Referenced, s)
        else (Inr Collect,
              s\<lparr>st_object_tombstones :=
                 bt_insert (as_str (obj_id object)) (reason, now) (st_object_tombstones s)\<rparr>))"

definition forget_object :: "ObjectId \<Rightarrow> State \<Rightarrow> unit outcome" where
  "forget_object object s =
     (Inr (), s\<lparr>st_object_refs := bt_remove (as_str object) (st_object_refs s)\<rparr>)"

definition purge_tombstones :: "Timestamp \<Rightarrow> State \<Rightarrow> usize outcome" where
  "purge_tombstones before s =
     (let kept = bt_retain (\<lambda>_ t. snd t \<ge> before) (st_object_tombstones s)
      in (Inr (bt_len (st_object_tombstones s) - bt_len kept), s\<lparr>st_object_tombstones := kept\<rparr>))"

end
