(* ===== verification/Async_Types.thy ===== *)
theory Async_Types
  imports Memory_Store Sql_Env
begin

text \<open>
  The rows of asynchronous invocation: \<open>crates/application/src/repository/outbox.rs\<close> (inputs, outbox
  events, the bounds of an acceptance) and \<open>repository/dispatch.rs\<close> (dispatch records, claims, fences,
  dead letters, redrives).  A \<open>u32\<close> or \<open>u64\<close> counter is a natural number with its saturation written
  out.
\<close>

definition sat_add32 :: "nat \<Rightarrow> nat \<Rightarrow> nat" where
  "sat_add32 a b = min (a + b) u32_max"

section \<open>Inputs and the outbox\<close>

datatype AsyncInputBody = AIB_Inline string | AIB_Object ObjectRef

record AsyncInput =
  ai_invocation_id :: InvocationId
  ai_tenant_id :: TenantId
  ai_size_bytes :: u64
  ai_digest :: Sha256Digest
  ai_body :: AsyncInputBody

definition ai_storage :: "AsyncInput \<Rightarrow> string" where
  "ai_storage i = (case ai_body i of AIB_Inline _ \<Rightarrow> ''inline'' | AIB_Object _ \<Rightarrow> ''object'')"

record OutboxEvent =
  ob_event_id :: InvocationId
  ob_tenant_id :: TenantId
  ob_topic :: string
  ob_payload :: string
  ob_created_at :: Timestamp
  ob_sent_at :: "Timestamp option"
  ob_publish_attempts :: nat
  ob_next_attempt_at :: Timestamp
  ob_claimed_by :: "string option"
  ob_claim_expires_at :: "Timestamp option"
  ob_last_error :: "string option"
  ob_queue_sequence :: "nat option"
  ob_generation :: nat

definition OutboxEvent_new :: "InvocationId \<Rightarrow> TenantId \<Rightarrow> string \<Rightarrow> string \<Rightarrow> Timestamp \<Rightarrow> OutboxEvent" where
  "OutboxEvent_new event tenant topic payload now =
     \<lparr> ob_event_id = event, ob_tenant_id = tenant, ob_topic = topic, ob_payload = payload, ob_created_at = now,
       ob_sent_at = None, ob_publish_attempts = 0, ob_next_attempt_at = now, ob_claimed_by = None,
       ob_claim_expires_at = None, ob_last_error = None, ob_queue_sequence = None, ob_generation = 0 \<rparr>"

definition message_id_for :: "InvocationId \<Rightarrow> nat \<Rightarrow> string" where
  "message_id_for event generation =
     (if generation = 0 then as_str event else as_str event @ ''.g'' @ show_nat generation)"

definition ob_message_id :: "OutboxEvent \<Rightarrow> string" where
  "ob_message_id e = message_id_for (ob_event_id e) (ob_generation e)"

record BacklogLimits =
  bl_max_pending :: nat
  bl_max_pending_age :: Duration

record OutboxStats =
  os_pending :: nat
  os_oldest_pending_at :: "Timestamp option"
  os_sent :: nat

definition os_exceeds :: "OutboxStats \<Rightarrow> BacklogLimits \<Rightarrow> Timestamp \<Rightarrow> bool" where
  "os_exceeds s limits now \<longleftrightarrow>
     os_pending s \<ge> bl_max_pending limits
     \<or> opt_is_some_and (\<lambda>t. now - t \<ge> bl_max_pending_age limits) (os_oldest_pending_at s)"

datatype AsyncAcceptOutcome = AAO_Accepted | AAO_Existing IdempotencyBinding | AAO_Backlog OutboxStats

section \<open>Dispatch records\<close>

datatype DispatchState = DSP_Running | DSP_Scheduled | DSP_Done | DSP_Dead

fun DispatchState_as_str :: "DispatchState \<Rightarrow> string" where
  "DispatchState_as_str DSP_Running = ''running''"
| "DispatchState_as_str DSP_Scheduled = ''scheduled''"
| "DispatchState_as_str DSP_Done = ''done''"
| "DispatchState_as_str DSP_Dead = ''dead''"

definition DispatchState_parse :: "string \<Rightarrow> DispatchState option" where
  "DispatchState_parse raw =
     (if raw = ''running'' then Some DSP_Running else if raw = ''scheduled'' then Some DSP_Scheduled
      else if raw = ''done'' then Some DSP_Done else if raw = ''dead'' then Some DSP_Dead else None)"

record DispatchRecord =
  dr_invocation_id :: InvocationId
  dr_tenant_id :: TenantId
  dr_function_id :: FunctionId
  dr_state :: DispatchState
  dr_generation :: nat
  dr_attempts :: nat
  dr_deferrals :: nat
  dr_claimed_by :: "string option"
  dr_claim_expires_at :: "Timestamp option"
  dr_next_attempt_at :: "Timestamp option"
  dr_first_attempt_at :: "Timestamp option"
  dr_last_attempt_at :: "Timestamp option"
  dr_updated_at :: Timestamp
  dr_last_error :: "InvocationError option"

definition dr_unclaimed :: "Invocation \<Rightarrow> DispatchRecord" where
  "dr_unclaimed i =
     \<lparr> dr_invocation_id = inv_id i, dr_tenant_id = inv_tenant_id i, dr_function_id = inv_function_id i,
       dr_state = DSP_Scheduled, dr_generation = 0, dr_attempts = 0, dr_deferrals = 0, dr_claimed_by = None,
       dr_claim_expires_at = None, dr_next_attempt_at = None, dr_first_attempt_at = None,
       dr_last_attempt_at = None, dr_updated_at = inv_accepted_at i, dr_last_error = None \<rparr>"

definition claim_live :: "DispatchRecord \<Rightarrow> Timestamp \<Rightarrow> bool" where
  "claim_live r now \<longleftrightarrow> dr_state r = DSP_Running \<and> dr_claimed_by r \<noteq> None
     \<and> opt_is_some_and (\<lambda>t. t > now) (dr_claim_expires_at r)"

record ClaimRequest =
  cr_invocation_id :: InvocationId
  cr_owner :: string
  cr_generation :: nat
  cr_now :: Timestamp
  cr_ttl :: Duration

datatype ClaimOutcome =
    CO_Claimed Invocation DispatchRecord
  | CO_Terminal Invocation
  | CO_Stale nat
  | CO_Held string Timestamp
  | CO_NotDue Timestamp

datatype DispatchFence = DF_Claim string nat | DF_Unclaimed nat

fun from_claim :: "DispatchFence \<Rightarrow> bool" where
  "from_claim (DF_Claim _ _) = True"
| "from_claim (DF_Unclaimed _) = False"

section \<open>Dead letters\<close>

datatype DeadLetterReason =
    DLR_NonRetryable | DLR_AttemptsExhausted | DLR_Expired | DLR_FunctionDeleted | DLR_RevisionUnavailable | DLR_Poison

fun DeadLetterReason_as_str :: "DeadLetterReason \<Rightarrow> string" where
  "DeadLetterReason_as_str DLR_NonRetryable = ''non_retryable''"
| "DeadLetterReason_as_str DLR_AttemptsExhausted = ''attempts_exhausted''"
| "DeadLetterReason_as_str DLR_Expired = ''expired''"
| "DeadLetterReason_as_str DLR_FunctionDeleted = ''function_deleted''"
| "DeadLetterReason_as_str DLR_RevisionUnavailable = ''revision_unavailable''"
| "DeadLetterReason_as_str DLR_Poison = ''poison''"

datatype DeadLetterStatus = DLS_Open | DLS_Redriven

fun DeadLetterStatus_as_str :: "DeadLetterStatus \<Rightarrow> string" where
  "DeadLetterStatus_as_str DLS_Open = ''open''"
| "DeadLetterStatus_as_str DLS_Redriven = ''redriven''"

record DeadLetter =
  dl_id :: DeadLetterId
  dl_tenant_id :: TenantId
  dl_function_id :: "FunctionId option"
  dl_invocation_id :: "InvocationId option"
  dl_revision_id :: "RevisionId option"
  dl_reason :: DeadLetterReason
  dl_status :: DeadLetterStatus
  dl_attempts :: nat
  dl_deferrals :: nat
  dl_last_error :: "InvocationError option"
  dl_accepted_at :: "Timestamp option"
  dl_first_attempt_at :: "Timestamp option"
  dl_last_attempt_at :: "Timestamp option"
  dl_created_at :: Timestamp
  dl_input_digest :: "Sha256Digest option"
  dl_input_size_bytes :: "u64 option"
  dl_input_storage :: "string option"
  dl_message_id :: "string option"
  dl_message_sequence :: "nat option"
  dl_detail :: "string option"
  dl_redrive_count :: nat
  dl_redriven_at :: "Timestamp option"

definition origin_key :: "DeadLetter \<Rightarrow> string" where
  "origin_key d =
     (case (dl_invocation_id d, dl_message_id d) of
        (Some i, _) \<Rightarrow> ''inv:'' @ as_str i
      | (None, Some msg) \<Rightarrow>
          ''msg:'' @ msg @ '':'' @ show_nat (case dl_message_sequence d of Some n \<Rightarrow> n | None \<Rightarrow> 0)
      | (None, None) \<Rightarrow> ''dlq:'' @ as_str (dl_id d))"

record Redrive =
  rdv_id :: RedriveId
  rdv_dead_letter_id :: DeadLetterId
  rdv_tenant_id :: TenantId
  rdv_function_id :: FunctionId
  rdv_source_invocation_id :: InvocationId
  rdv_invocation_id :: InvocationId
  rdv_revision_id :: RevisionId
  rdv_revision_overridden :: bool
  rdv_requested_by :: string
  rdv_reason :: "string option"
  rdv_created_at :: Timestamp

record DispatchSettle =
  ds_fence :: DispatchFence
  ds_invocation :: Invocation
  ds_state :: DispatchState
  ds_next_attempt_at :: "Timestamp option"
  ds_last_error :: "InvocationError option"
  ds_counted :: bool
  ds_dead_letter :: "DeadLetter option"
  ds_republish :: "OutboxEvent option"
  ds_now :: Timestamp

datatype SettleOutcome = SO_Committed | SO_Lost string

record DispatchCandidate =
  dc_invocation :: Invocation
  dc_record :: DispatchRecord
  dc_outbox :: "OutboxEvent option"

record RedriveWrite =
  rdw_dead_letter_id :: DeadLetterId
  rdw_invocation :: Invocation
  rdw_input :: AsyncInput
  rdw_event :: OutboxEvent
  rdw_redrive :: Redrive

section \<open>Facts\<close>

lemma DispatchState_round_trip [simp]: "DispatchState_parse (DispatchState_as_str s) = Some s"
  by (cases s) (simp_all add: DispatchState_parse_def)

lemma message_id_for_inj:
  assumes "message_id_for i g = message_id_for i h" shows "g = h"
proof -
  have "digits_val (show_nat g) = digits_val (show_nat h)" if "g \<noteq> 0" "h \<noteq> 0"
    using assms that by (simp add: message_id_for_def)
  then show ?thesis using assms by (auto simp: message_id_for_def split: if_splits)
qed

end
