(* ===== verification/Async_Retry.thy ===== *)
theory Async_Retry
  imports App_Errors Async_Types
begin

text \<open>
  \<open>services/invoke_async/retry.rs\<close>: the retry policy of asynchronous invocations, the backoff, the
  classification of a failed run and the retry budget of a function.  \<open>u32\<close> and \<open>u64\<close> settings are
  natural numbers; the random value of a jitter is an argument.
\<close>

section \<open>Configuration\<close>

record FunctionRetryPolicy =
  fp_function_id :: FunctionId
  fp_max_attempts :: "nat option"
  fp_max_event_age_seconds :: "nat option"

record AsyncDispatchConfig =
  adc_enabled :: bool
  adc_consumer :: string
  adc_workers :: nat
  adc_ack_wait_seconds :: nat
  adc_max_deliver :: nat
  adc_fetch_wait_ms :: nat
  adc_claim_ttl_seconds :: nat
  adc_admission_wait_ms :: nat
  adc_max_attempts :: nat
  adc_max_event_age_seconds :: nat
  adc_backoff_initial_ms :: nat
  adc_backoff_max_ms :: nat
  adc_backoff_floor_ms :: nat
  adc_retry_budget :: nat
  adc_retry_budget_window_seconds :: nat
  adc_reaper_interval_seconds :: nat
  adc_stall_timeout_seconds :: nat
  adc_functions :: "FunctionRetryPolicy list"

definition AsyncDispatchConfig_default :: AsyncDispatchConfig where
  "AsyncDispatchConfig_default = \<lparr> adc_enabled = True, adc_consumer = ''dispatcher'', adc_workers = 0,
     adc_ack_wait_seconds = 300, adc_max_deliver = 1000, adc_fetch_wait_ms = 1000, adc_claim_ttl_seconds = 60,
     adc_admission_wait_ms = 2000, adc_max_attempts = 3, adc_max_event_age_seconds = 6 * 60 * 60,
     adc_backoff_initial_ms = 1000, adc_backoff_max_ms = 5 * 60 * 1000, adc_backoff_floor_ms = 100,
     adc_retry_budget = 100, adc_retry_budget_window_seconds = 60, adc_reaper_interval_seconds = 10,
     adc_stall_timeout_seconds = 15 * 60, adc_functions = [] \<rparr>"

definition retry_secs :: "nat \<Rightarrow> Duration" where
  "retry_secs n = min (int n) (i64_max div 1000) * 1000000000"

record RetryPolicy =
  pol_max_attempts :: nat
  pol_max_event_age :: Duration

definition expires_at :: "RetryPolicy \<Rightarrow> Invocation \<Rightarrow> Timestamp" where
  "expires_at p i = min (inv_accepted_at i + pol_max_event_age p) (queue_deadline (inv_deadlines i))"

definition policy_for :: "AsyncDispatchConfig \<Rightarrow> FunctionId \<Rightarrow> RetryPolicy" where
  "policy_for c f =
     (let over = find (\<lambda>p. fp_function_id p = f) (adc_functions c)
      in \<lparr> pol_max_attempts = (case Option.bind over fp_max_attempts of Some n \<Rightarrow> n | None \<Rightarrow> adc_max_attempts c),
           pol_max_event_age = retry_secs (case Option.bind over fp_max_event_age_seconds of
             Some n \<Rightarrow> n | None \<Rightarrow> adc_max_event_age_seconds c) \<rparr>)"

definition min_event_age :: "AsyncDispatchConfig \<Rightarrow> Duration" where
  "min_event_age c = retry_secs (fold min (List.map_filter fp_max_event_age_seconds (adc_functions c)) (adc_max_event_age_seconds c))"

definition workers_for :: "AsyncDispatchConfig \<Rightarrow> nat \<Rightarrow> nat" where
  "workers_for c concurrency = (if adc_workers c = 0 then max (concurrency div 2) 1 else adc_workers c)"

definition claim_ttl :: "AsyncDispatchConfig \<Rightarrow> Duration" where
  "claim_ttl c = retry_secs (adc_claim_ttl_seconds c)"

definition stall_timeout :: "AsyncDispatchConfig \<Rightarrow> Duration" where
  "stall_timeout c = retry_secs (adc_stall_timeout_seconds c)"

section \<open>Backoff\<close>

definition backoff_ceiling_ms :: "AsyncDispatchConfig \<Rightarrow> nat \<Rightarrow> nat" where
  "backoff_ceiling_ms c n = min (sat_mul64 (adc_backoff_initial_ms c) (2 ^ min (n - 1) 30)) (adc_backoff_max_ms c)"

definition backoff :: "AsyncDispatchConfig \<Rightarrow> nat \<Rightarrow> (nat \<Rightarrow> nat) \<Rightarrow> Duration" where
  "backoff c n jitter =
     (let ceil = backoff_ceiling_ms c n; ms = max (min (jitter ceil) ceil) (adc_backoff_floor_ms c)
      in min (int ms) i64_max * 1000000)"

text \<open>\<open>random\<close> is what the operating system returned, if it did; \<open>ceil + 1\<close> is on \<open>u64\<close>.\<close>

definition system_jitter :: "nat option \<Rightarrow> nat \<Rightarrow> nat" where
  "system_jitter random ceil =
     (if ceil = 0 then 0
      else (case random of Some r \<Rightarrow> r | None \<Rightarrow> ceil div 2) mod (ceil + 1))"

definition policy_ok :: "FunctionRetryPolicy \<Rightarrow> bool" where
  "policy_ok f \<longleftrightarrow> fp_max_attempts f \<noteq> Some 0 \<and> fp_max_event_age_seconds f \<noteq> Some 0"

definition adc_validate :: "AsyncDispatchConfig \<Rightarrow> string + unit" where
  "adc_validate c =
     (if adc_max_attempts c = 0 then Inl ''[async_dispatch] max_attempts must be >= 1''
      else if adc_max_event_age_seconds c = 0 \<or> adc_claim_ttl_seconds c = 0
      then Inl ''[async_dispatch] max_event_age_seconds and claim_ttl_seconds must be > 0''
      else if adc_backoff_initial_ms c = 0 \<or> adc_backoff_initial_ms c > adc_backoff_max_ms c
      then Inl ''[async_dispatch] needs 0 < backoff_initial_ms <= backoff_max_ms''
      else if adc_backoff_floor_ms c > adc_backoff_initial_ms c
      then Inl ''[async_dispatch] backoff_floor_ms must be <= backoff_initial_ms''
      else if adc_retry_budget c > 0 \<and> adc_retry_budget_window_seconds c = 0
      then Inl ''[async_dispatch] retry_budget_window_seconds must be > 0''
      else if adc_max_deliver c = 0 \<or> adc_ack_wait_seconds c = 0
      then Inl ''[async_dispatch] max_deliver and ack_wait_seconds must be > 0''
      else if \<not> list_all (\<lambda>b. is_ascii_lowercase b \<or> is_ascii_digit b \<or> b = CHR ''-'') (adc_consumer c) \<or> adc_consumer c = []
      then Inl ''[async_dispatch] consumer must be [a-z0-9-]+''
      else (case find (\<lambda>f. \<not> policy_ok f) (adc_functions c) of
              Some f \<Rightarrow> Inl (''[[async_dispatch.function]] '' @ as_str (fp_function_id f)
                         @ '': max_attempts and max_event_age_seconds must be > 0'')
            | None \<Rightarrow> Inr ()))"

section \<open>Classification\<close>

datatype Disposition = DSN_Retry | DSN_Defer | DSN_DeadLetter DeadLetterReason | DSN_Cancelled

definition INVALID_INPUT :: string where "INVALID_INPUT = ''Host.InvalidInput''"
definition INPUT_CORRUPT :: string where "INPUT_CORRUPT = ''Host.InputCorrupt''"
definition INPUT_UNAVAILABLE :: string where "INPUT_UNAVAILABLE = ''Host.InputUnavailable''"
definition RETRY_BUDGET_EXHAUSTED :: string where "RETRY_BUDGET_EXHAUSTED = ''Host.RetryBudgetExhausted''"
definition EVENT_EXPIRED :: string where "EVENT_EXPIRED = ''Host.AsyncEventExpired''"
definition RUN_ABANDONED :: string where "RUN_ABANDONED = ''Host.AsyncRunAbandoned''"
definition REVISION_UNAVAILABLE :: string where "REVISION_UNAVAILABLE = ''Host.RevisionUnavailable''"
definition ASYNC_GATEWAY_SHUTDOWN :: string where "ASYNC_GATEWAY_SHUTDOWN = ''Host.GatewayShutdown''"

definition dead_end_types :: "string list" where
  "dead_end_types = [''Host.SecretBindingUnavailable'', ''Host.ResponseTooLarge'', ''Runtime.ResponseTooLarge'',
     ''Host.UnsupportedArtifact'', ''Host.InvokeTooLarge'', ''Host.InvokeEncode'', INVALID_INPUT, INPUT_CORRUPT]"

definition deferred_types :: "string list" where
  "deferred_types = [QUEUE_TIMEOUT, CAPACITY_WAIT_TIMEOUT, QUOTA_WAIT_TIMEOUT, START_CIRCUIT_OPEN, ASYNC_GATEWAY_SHUTDOWN,
     ''Host.DispatcherFenced'', ''Host.AlreadyRunning'', ''Host.CapacityClosed'', RETRY_BUDGET_EXHAUSTED, INPUT_UNAVAILABLE,
     ''Host.UsageJournalFull'', ''Host.UsageJournalUnavailable'', ''Host.BudgetExhausted'', ''Host.BudgetUnknown'',
     ''Host.BudgetStoreUnavailable'']"

definition classify :: "InvocationError \<Rightarrow> Disposition" where
  "classify e =
     (if err_class e = EC_Cancelled then DSN_Cancelled
      else if err_type e = FUNCTION_DELETED then DSN_DeadLetter DLR_FunctionDeleted
      else if err_type e \<in> set dead_end_types then DSN_DeadLetter DLR_NonRetryable
      else if err_type e \<in> set deferred_types then DSN_Defer
      else case ControlError_from_error_type (err_type e) of
             Some kind \<Rightarrow> if kind = PolicyDenied \<or> kind = UnknownTenant then DSN_DeadLetter DLR_NonRetryable else DSN_Defer
           | None \<Rightarrow> if err_class e = EC_QueueTimeout then DSN_Defer else DSN_Retry)"

section \<open>The retry budget\<close>

type_synonym RetryBudget = "FunctionId \<rightharpoonup> Timestamp \<times> nat"

definition rb_take :: "AsyncDispatchConfig \<Rightarrow> FunctionId \<Rightarrow> Timestamp \<Rightarrow> RetryBudget \<Rightarrow> (Timestamp + unit) \<times> RetryBudget" where
  "rb_take c f now w =
     (if adc_retry_budget c = 0 then (Inr (), w)
      else let window = retry_secs (adc_retry_budget_window_seconds c);
               entry = (case w f of Some e \<Rightarrow> e | None \<Rightarrow> (now, 0));
               entry = (if now - fst entry \<ge> window then (now, 0) else entry)
           in if snd entry \<ge> adc_retry_budget c then (Inl (fst entry + window), w(f \<mapsto> entry))
              else (Inr (), w(f \<mapsto> (fst entry, snd entry + 1))))"

end
