(* ===== verification/Async_Store.thy ===== *)
theory Async_Store
  imports Async_Types
begin

text \<open>
  The durable ledger of asynchronous invocation: \<open>repository/sqlite/outbox.rs\<close> and \<open>sqlite/dispatch.rs\<close>,
  with the invocation, idempotency and object statements of \<open>sqlite/mod.rs\<close> and \<open>sqlite/objects.rs\<close> they
  call.  Each table is a map from its primary key, each statement its effect on the tables, each method
  one transaction: an error leaves no trace.  A column \<open>sent\<close> that is set is a \<open>sent_at\<close> that is not
  \<open>NULL\<close>: one statement writes both.  The text of a violated constraint comes from the engine
  (\<open>sq_check_message\<close>).
\<close>

section \<open>Tables\<close>

record AsyncDb =
  as_functions :: "(FunctionId, Function) btreemap"
  as_invocations :: "(InvocationId, Invocation) btreemap"
  as_idempotency :: "(IdempotencyKey, IdempotencyBinding) btreemap"
  as_object_refs :: "(ObjectId \<times> InvocationId, Timestamp) btreemap"
  as_tombstones :: "(ObjectId, CollectReason) btreemap"
  as_inputs :: "(InvocationId, AsyncInput) btreemap"
  as_outbox :: "(InvocationId, OutboxEvent) btreemap"
  as_dispatch :: "(InvocationId, DispatchRecord) btreemap"
  as_dead_letters :: "(DeadLetterId, DeadLetter) btreemap"
  as_redrives :: "(RedriveId, Redrive) btreemap"

definition AsyncDb_empty :: "(FunctionId, Function) btreemap \<Rightarrow> AsyncDb" where
  "AsyncDb_empty fs = \<lparr> as_functions = fs, as_invocations = bt_empty, as_idempotency = bt_empty,
     as_object_refs = bt_empty, as_tombstones = bt_empty, as_inputs = bt_empty, as_outbox = bt_empty,
     as_dispatch = bt_empty, as_dead_letters = bt_empty, as_redrives = bt_empty \<rparr>"

text \<open>\<open>SqliteStore::write\<close> and \<open>read\<close>: a transaction either commits or leaves the tables as they were.\<close>

type_synonym 'a sql_body = "AsyncDb \<Rightarrow> RepoError + 'a \<times> AsyncDb"
type_synonym 'a sql_outcome = "(RepoError + 'a) \<times> AsyncDb"

definition sql_write :: "SqlEnv \<Rightarrow> 'a sql_body \<Rightarrow> AsyncDb \<Rightarrow> 'a sql_outcome" where
  "sql_write env body db =
     (if sq_locked env then (Inl (Store_Failed (busy_message ''store'')), db)
      else case sq_fault env of
             Some (e, _) \<Rightarrow> (Inl (Store_Failed e), db)
           | None \<Rightarrow> (case body db of Inl e \<Rightarrow> (Inl e, db) | Inr (x, db') \<Rightarrow> (Inr x, db')))"

definition sql_read :: "SqlEnv \<Rightarrow> (AsyncDb \<Rightarrow> RepoError + 'a) \<Rightarrow> AsyncDb \<Rightarrow> RepoError + 'a" where
  "sql_read env f db =
     (if sq_locked env then Inl (Store_Failed (busy_message ''store''))
      else case sq_fault env of Some (e, _) \<Rightarrow> Inl (Store_Failed e) | None \<Rightarrow> f db)"

definition constraint :: "SqlEnv \<Rightarrow> string \<Rightarrow> RepoError" where
  "constraint env column = Conflict (sq_check_message env column)"

definition sql_big :: "nat \<Rightarrow> string \<Rightarrow> RepoError + unit" where
  "sql_big v what =
     (if int v \<le> i64_max then Inr () else Inl (Refused (what @ '' '' @ show_nat v @ '' does not fit a BIGINT'')))"

section \<open>Invocations and keys\<close>

definition idempotency_expires_at :: "StoreConfig \<Rightarrow> Invocation \<Rightarrow> Timestamp option" where
  "idempotency_expires_at cfg i =
     (case cfg_idempotency_retention cfg of
        None \<Rightarrow> None
      | Some r \<Rightarrow> if IS_is_terminal (inv_status i)
                  then Some ((case inv_finished_at i of Some t \<Rightarrow> t | None \<Rightarrow> inv_accepted_at i) + r) else None)"

definition set_idempotency_expiry :: "StoreConfig \<Rightarrow> Invocation \<Rightarrow> AsyncDb \<Rightarrow> AsyncDb" where
  "set_idempotency_expiry cfg i db =
     (if inv_idempotency_key i = None then db
      else db\<lparr> as_idempotency := bt_map (\<lambda>_ b. if bnd_invocation_id b = inv_id i
                 then b\<lparr> bnd_expires_at := idempotency_expires_at cfg i \<rparr> else b) (as_idempotency db) \<rparr>)"

definition update_invocation_row :: "StoreConfig \<Rightarrow> Invocation \<Rightarrow> AsyncDb \<Rightarrow> RepoError + AsyncDb" where
  "update_invocation_row cfg i db =
     (case bt_get (as_invocations db) (inv_id i) of
        Some old \<Rightarrow>
          if IS_is_terminal (inv_status old)
          then Inl (Refused (''invocation '' @ as_str (inv_id i) @ '' changed concurrently''))
          else let db = db\<lparr> as_invocations := bt_insert (inv_id i) i (as_invocations db) \<rparr>
               in Inr (if IS_is_terminal (inv_status i) then set_idempotency_expiry cfg i db else db)
      | None \<Rightarrow> Inl (Refused (''invocation '' @ as_str (inv_id i) @ '' changed concurrently'')))"

definition insert_invocation_checked :: "StoreConfig \<Rightarrow> Invocation \<Rightarrow> AsyncDb \<Rightarrow> RepoError + AsyncDb" where
  "insert_invocation_checked cfg i db =
     (if bt_contains_key (as_invocations db) (inv_id i) then Inl (duplicate ''invocation'' (as_str (inv_id i)))
      else and_then (invocation_insert (bt_get (as_functions db) (inv_function_id i)) i (max_response_bytes (cfg_limits cfg))) (\<lambda>_.
        Inr (db\<lparr> as_invocations := bt_insert (inv_id i) i (as_invocations db) \<rparr>)))"

definition sql_live_binding :: "IdempotencyKey \<Rightarrow> Timestamp \<Rightarrow> AsyncDb \<Rightarrow> IdempotencyBinding option" where
  "sql_live_binding key now db =
     (case bt_get (as_idempotency db) key of
        None \<Rightarrow> None
      | Some b \<Rightarrow> if bt_contains_key (as_invocations db) (bnd_invocation_id b) \<and> opt_is_none_or (\<lambda>e. e > now) (bnd_expires_at b)
                  then Some b else None)"

definition inv_key :: "Invocation \<Rightarrow> IdempotencyKey option" where
  "inv_key i = map_option (\<lambda>k. (inv_tenant_id i, inv_function_id i, k)) (inv_idempotency_key i)"

definition bind_idempotency :: "StoreConfig \<Rightarrow> Invocation \<Rightarrow> AsyncDb \<Rightarrow> AsyncDb" where
  "bind_idempotency cfg i db =
     (case inv_key i of
        None \<Rightarrow> db
      | Some k \<Rightarrow> db\<lparr> as_idempotency := bt_insert k
          \<lparr> bnd_invocation_id = inv_id i, bnd_input_digest = inv_input_digest i,
            bnd_expires_at = idempotency_expires_at cfg i \<rparr> (as_idempotency db) \<rparr>)"

text \<open>\<open>InvocationRepository::update\<close> of the durable store.\<close>

definition sql_invocation_update :: "StoreConfig \<Rightarrow> SqlEnv \<Rightarrow> Invocation \<Rightarrow> AsyncDb \<Rightarrow> unit sql_outcome" where
  "sql_invocation_update cfg env i = sql_write env (\<lambda>db.
     case bt_get (as_invocations db) (inv_id i) of
       None \<Rightarrow> Inl (NotFound (''invocation '' @ as_str (inv_id i)))
     | Some old \<Rightarrow>
         and_then (invocation_update (max_response_bytes (cfg_limits cfg)) old i) (\<lambda>w.
           if w = Apply then and_then (update_invocation_row cfg i db) (\<lambda>db. Inr ((), db)) else Inr ((), db)))"

definition sql_insert_bound :: "StoreConfig \<Rightarrow> SqlEnv \<Rightarrow> Invocation \<Rightarrow> AsyncDb \<Rightarrow> IdempotencyOutcome sql_outcome" where
  "sql_insert_bound cfg env i = sql_write env (\<lambda>db.
     case Option.bind (inv_key i) (\<lambda>k. sql_live_binding k (inv_accepted_at i) db) of
       Some existing \<Rightarrow> Inr (Existing existing, db)
     | None \<Rightarrow> and_then (insert_invocation_checked cfg i db) (\<lambda>db. Inr (Inserted, bind_idempotency cfg i db)))"

text \<open>\<open>InvocationRepository::insert\<close> and \<open>purge_expired_idempotency\<close> of the durable store.\<close>

definition sql_invocation_insert :: "StoreConfig \<Rightarrow> SqlEnv \<Rightarrow> Invocation \<Rightarrow> AsyncDb \<Rightarrow> unit sql_outcome" where
  "sql_invocation_insert cfg env i = sql_write env (\<lambda>db.
     and_then (insert_invocation_checked cfg i db) (\<lambda>db. Inr ((), db)))"

definition sql_purge_idempotency :: "SqlEnv \<Rightarrow> Timestamp \<Rightarrow> AsyncDb \<Rightarrow> nat sql_outcome" where
  "sql_purge_idempotency env now = sql_write env (\<lambda>db.
     let kept = bt_retain (\<lambda>_ b. opt_is_none_or (\<lambda>e. now < e) (bnd_expires_at b)) (as_idempotency db)
     in Inr (bt_len (as_idempotency db) - bt_len kept, db\<lparr> as_idempotency := kept \<rparr>))"

text \<open>
  An inline output is kept for the output retention and then replaced by its digest.  The column
  \<open>output_expires_at\<close> of a row is what \<open>output_expires_at\<close> gives for the retention in force when the row was
  written, \<open>retention (inv_id i)\<close> for the row of \<open>i\<close>.  Base64 and SHA-256 come from libraries.
\<close>

definition output_expires_at :: "Duration option \<Rightarrow> Invocation \<Rightarrow> Timestamp option" where
  "output_expires_at retention i =
     (case (retention, inv_output i) of
        (Some r, Some (Inline _ _)) \<Rightarrow>
          if IS_is_terminal (inv_status i)
          then Some ((case inv_finished_at i of Some t \<Rightarrow> t | None \<Rightarrow> inv_accepted_at i) + r) else None
      | _ \<Rightarrow> None)"

definition output_digest :: "(string \<Rightarrow> string option) \<Rightarrow> (string \<Rightarrow> string) \<Rightarrow> string \<Rightarrow> Sha256Digest" where
  "output_digest base64_decode sha256_hex bytes_base64 =
     Sha256Digest_of_bytes sha256_hex (case base64_decode bytes_base64 of Some bytes \<Rightarrow> bytes | None \<Rightarrow> bytes_base64)"

definition output_digested :: "(string \<Rightarrow> string option) \<Rightarrow> (string \<Rightarrow> string) \<Rightarrow> Invocation \<Rightarrow> Invocation" where
  "output_digested base64_decode sha256_hex i =
     (case inv_output i of
        Some (Inline bytes_base64 n) \<Rightarrow> i\<lparr> inv_output := Some (Digest (output_digest base64_decode sha256_hex bytes_base64) n) \<rparr>
      | _ \<Rightarrow> i)"

definition purge_expired_outputs ::
  "(string \<Rightarrow> string option) \<Rightarrow> (string \<Rightarrow> string) \<Rightarrow> SqlEnv \<Rightarrow> (InvocationId \<Rightarrow> Duration option) \<Rightarrow> Timestamp
     \<Rightarrow> AsyncDb \<Rightarrow> nat sql_outcome" where
  "purge_expired_outputs base64_decode sha256_hex env retention now = sql_write env (\<lambda>db.
     let expired = (\<lambda>i. opt_is_some_and (\<lambda>t. t \<le> now) (output_expires_at (retention (inv_id i)) i))
     in Inr (length (filter expired (bt_values (as_invocations db))),
             db\<lparr> as_invocations := bt_map (\<lambda>_ i. if expired i then output_digested base64_decode sha256_hex i else i)
                   (as_invocations db) \<rparr>))"

section \<open>Inputs and events\<close>

definition attach_in :: "ObjectRef \<Rightarrow> InvocationId \<Rightarrow> Timestamp \<Rightarrow> AsyncDb \<Rightarrow> RepoError + AsyncDb" where
  "attach_in object invocation now db =
     (case bt_get (as_invocations db) invocation of
        None \<Rightarrow> Inl (NotFound (''invocation '' @ as_str invocation))
      | Some i \<Rightarrow>
          if inv_tenant_id i \<noteq> scope_tenant_id (obj_scope object)
          then Inl (Refused (''object '' @ as_str (obj_id object) @ '' belongs to another tenant than invocation '' @ as_str invocation))
          else case bt_get (as_tombstones db) (obj_id object) of
                 Some reason \<Rightarrow> Inl (Refused (''object '' @ as_str (obj_id object) @ '' is being collected (''
                                   @ CollectReason_as_str reason @ ''); store it again''))
               | None \<Rightarrow> Inr (if bt_contains_key (as_object_refs db) (obj_id object, invocation) then db
                             else db\<lparr> as_object_refs := bt_insert (obj_id object, invocation) now (as_object_refs db) \<rparr>))"

definition insert_input_row :: "SqlEnv \<Rightarrow> AsyncInput \<Rightarrow> Timestamp \<Rightarrow> AsyncDb \<Rightarrow> RepoError + AsyncDb" where
  "insert_input_row env input now db =
     and_then (case ai_body input of
                 AIB_Inline _ \<Rightarrow> Inr db
               | AIB_Object object \<Rightarrow> attach_in object (ai_invocation_id input) now db) (\<lambda>db.
     and_then (sql_big (unat (ai_size_bytes input)) ''input size'') (\<lambda>_.
       if bt_contains_key (as_inputs db) (ai_invocation_id input)
       then Inl (constraint env ''invocation_inputs.invocation_id'')
       else Inr (db\<lparr> as_inputs := bt_insert (ai_invocation_id input) input (as_inputs db) \<rparr>)))"

definition new_outbox_row :: "OutboxEvent \<Rightarrow> OutboxEvent" where
  "new_outbox_row e = e\<lparr> ob_sent_at := None, ob_publish_attempts := 0, ob_claimed_by := None,
     ob_claim_expires_at := None, ob_last_error := None, ob_queue_sequence := None \<rparr>"

definition insert_outbox_row :: "SqlEnv \<Rightarrow> OutboxEvent \<Rightarrow> AsyncDb \<Rightarrow> RepoError + AsyncDb" where
  "insert_outbox_row env e db =
     and_then (sql_big (ob_generation e) ''outbox generation'') (\<lambda>_.
       if bt_contains_key (as_outbox db) (ob_event_id e) then Inl (constraint env ''outbox.event_id'')
       else Inr (db\<lparr> as_outbox := bt_insert (ob_event_id e) (new_outbox_row e) (as_outbox db) \<rparr>))"

definition pending_rows :: "AsyncDb \<Rightarrow> OutboxEvent list" where
  "pending_rows db = filter (\<lambda>e. ob_sent_at e = None) (bt_values (as_outbox db))"

definition stats_in :: "AsyncDb \<Rightarrow> OutboxStats" where
  "stats_in db =
     \<lparr> os_pending = length (pending_rows db),
       os_oldest_pending_at = (case map ob_created_at (pending_rows db) of [] \<Rightarrow> None | t # ts \<Rightarrow> Some (fold min ts t)),
       os_sent = length (filter (\<lambda>e. ob_sent_at e \<noteq> None) (bt_values (as_outbox db))) \<rparr>"

section \<open>Acceptance\<close>

definition check_accept ::
  "(string \<Rightarrow> u64 option) \<Rightarrow> Invocation \<Rightarrow> AsyncInput \<Rightarrow> OutboxEvent \<Rightarrow> RepoError + unit" where
  "check_accept ulid i input event =
     (if ai_invocation_id input \<noteq> inv_id i \<or> ob_event_id event \<noteq> inv_id i \<or> ai_tenant_id input \<noteq> inv_tenant_id i
         \<or> ob_tenant_id event \<noteq> inv_tenant_id i \<or> ai_digest input \<noteq> inv_input_digest i
         \<or> ai_size_bytes input \<noteq> inv_input_size_bytes i
      then Inl (Refused ''input, outbox event and invocation must name the same invocation, tenant and digest'')
      else case ai_body input of
             AIB_Object object \<Rightarrow> check_attachable ulid (obj_id object) (inv_accepted_at i)
           | AIB_Inline _ \<Rightarrow> Inr ())"

definition accept_in ::
  "StoreConfig \<Rightarrow> SqlEnv \<Rightarrow> Invocation \<Rightarrow> AsyncInput \<Rightarrow> OutboxEvent \<Rightarrow> BacklogLimits \<Rightarrow> AsyncAcceptOutcome sql_body" where
  "accept_in cfg env i input event backlog db =
     (let now = inv_accepted_at i
      in case Option.bind (inv_key i) (\<lambda>k. sql_live_binding k now db) of
           Some existing \<Rightarrow> Inr (AAO_Existing existing, db)
         | None \<Rightarrow>
             if os_exceeds (stats_in db) backlog now then Inr (AAO_Backlog (stats_in db), db)
             else and_then (insert_invocation_checked cfg i db) (\<lambda>db.
                  and_then (insert_input_row env input now (bind_idempotency cfg i db)) (\<lambda>db.
                  and_then (insert_outbox_row env event db) (\<lambda>db. Inr (AAO_Accepted, db)))))"

definition accept_async ::
  "StoreConfig \<Rightarrow> (string \<Rightarrow> u64 option) \<Rightarrow> SqlEnv \<Rightarrow> Invocation \<Rightarrow> AsyncInput \<Rightarrow> OutboxEvent \<Rightarrow> BacklogLimits \<Rightarrow> bool
     \<Rightarrow> AsyncDb \<Rightarrow> AsyncAcceptOutcome sql_outcome" where
  "accept_async cfg ulid env i input event backlog before_commit db =
     (case check_accept ulid i input event of
        Inl e \<Rightarrow> (Inl e, db)
      | Inr _ \<Rightarrow> sql_write env (\<lambda>db.
          and_then (accept_in cfg env i input event backlog db) (\<lambda>(outcome, db).
            if outcome = AAO_Accepted \<and> before_commit
            then Inl (Store_Failed ''failpoint accept.before_commit: the transaction is rolled back'')
            else Inr (outcome, db))) db)"

definition async_input :: "SqlEnv \<Rightarrow> InvocationId \<Rightarrow> AsyncDb \<Rightarrow> RepoError + AsyncInput option" where
  "async_input env i = sql_read env (\<lambda>db. Inr (bt_get (as_inputs db) i))"

definition outbox_event :: "SqlEnv \<Rightarrow> InvocationId \<Rightarrow> AsyncDb \<Rightarrow> RepoError + OutboxEvent option" where
  "outbox_event env i = sql_read env (\<lambda>db. Inr (bt_get (as_outbox db) i))"

definition outbox_stats :: "SqlEnv \<Rightarrow> AsyncDb \<Rightarrow> RepoError + OutboxStats" where
  "outbox_stats env = sql_read env (\<lambda>db. Inr (stats_in db))"

section \<open>Publishing\<close>

definition claimable :: "Timestamp \<Rightarrow> OutboxEvent \<Rightarrow> bool" where
  "claimable now e \<longleftrightarrow> ob_sent_at e = None \<and> ob_next_attempt_at e \<le> now
     \<and> (ob_claimed_by e = None \<or> opt_is_some_and (\<lambda>t. t \<le> now) (ob_claim_expires_at e))"

definition claimed_row :: "string \<Rightarrow> Timestamp \<Rightarrow> OutboxEvent \<Rightarrow> OutboxEvent" where
  "claimed_row owner expires e = e\<lparr> ob_claimed_by := Some owner, ob_claim_expires_at := Some expires,
     ob_publish_attempts := sat_add32 (ob_publish_attempts e) 1 \<rparr>"

definition due_rows :: "Timestamp \<Rightarrow> nat \<Rightarrow> AsyncDb \<Rightarrow> OutboxEvent list" where
  "due_rows now limit db = take limit (sort_key ob_created_at (filter (claimable now) (bt_values (as_outbox db))))"

text \<open>A read asks first whether anything is claimable, so that an idle poll takes no write lock; the write looks again.\<close>

definition claim_outbox ::
  "SqlEnv \<Rightarrow> string \<Rightarrow> Timestamp \<Rightarrow> Duration \<Rightarrow> nat \<Rightarrow> AsyncDb \<Rightarrow> OutboxEvent list sql_outcome" where
  "claim_outbox env owner now ttl most db =
     (case sql_read env (\<lambda>db. Inr (list_ex (claimable now) (bt_values (as_outbox db)))) db of
        Inl e \<Rightarrow> (Inl e, db)
      | Inr found \<Rightarrow>
          if \<not> found \<or> most = 0 then (Inr [], db)
          else sql_write env (\<lambda>db.
            let rows = map (claimed_row owner (now + ttl)) (due_rows now most db)
            in Inr (rows, db\<lparr> as_outbox := fold (\<lambda>e. bt_insert (ob_event_id e) e) rows (as_outbox db) \<rparr>)) db)"

text \<open>A row under the claim of \<open>owner\<close> that was not sent yet.\<close>

definition held_by :: "string \<Rightarrow> OutboxEvent \<Rightarrow> bool" where
  "held_by owner e \<longleftrightarrow> ob_sent_at e = None \<and> ob_claimed_by e = Some owner"

definition mark_queued_row :: "StoreConfig \<Rightarrow> InvocationId \<Rightarrow> AsyncDb \<Rightarrow> RepoError + AsyncDb" where
  "mark_queued_row cfg event db =
     (case bt_get (as_invocations db) event of
        Some i \<Rightarrow>
          if inv_status i = IS_Accepted
          then (case inv_mark_queued i of Inr i \<Rightarrow> update_invocation_row cfg i db | Inl _ \<Rightarrow> Inr db) else Inr db
      | None \<Rightarrow> Inr db)"

definition mark_outbox_sent ::
  "StoreConfig \<Rightarrow> SqlEnv \<Rightarrow> InvocationId \<Rightarrow> string \<Rightarrow> nat \<Rightarrow> Timestamp \<Rightarrow> AsyncDb \<Rightarrow> bool sql_outcome" where
  "mark_outbox_sent cfg env event owner queue_sequence now = sql_write env (\<lambda>db.
     and_then (sql_big queue_sequence ''queue sequence'') (\<lambda>_.
       case bt_get (as_outbox db) event of
         Some e \<Rightarrow>
           if held_by owner e
           then let e = e\<lparr> ob_sent_at := Some now, ob_queue_sequence := Some queue_sequence, ob_claimed_by := None,
                          ob_claim_expires_at := None, ob_last_error := None \<rparr>
                in and_then (mark_queued_row cfg event (db\<lparr> as_outbox := bt_insert event e (as_outbox db) \<rparr>)) (\<lambda>db.
                     Inr (True, db))
           else Inr (False, db)
       | None \<Rightarrow> Inr (False, db)))"

text \<open>\<open>truncate\<close>: the longest prefix within the limit that ends on a character boundary.\<close>

definition truncate_text :: "string \<Rightarrow> nat \<Rightarrow> string" where
  "truncate_text s most = (if length s \<le> most then s else take (back_to_boundary s most) s)"

definition retry_outbox ::
  "SqlEnv \<Rightarrow> InvocationId \<Rightarrow> string \<Rightarrow> Timestamp \<Rightarrow> string \<Rightarrow> AsyncDb \<Rightarrow> bool sql_outcome" where
  "retry_outbox env event owner next_attempt_at error = sql_write env (\<lambda>db.
     case bt_get (as_outbox db) event of
       Some e \<Rightarrow>
         if held_by owner e
         then Inr (True, db\<lparr> as_outbox := bt_insert event (e\<lparr> ob_claimed_by := None, ob_claim_expires_at := None,
                ob_next_attempt_at := next_attempt_at, ob_last_error := Some (truncate_text error 512) \<rparr>) (as_outbox db) \<rparr>)
         else Inr (False, db)
     | None \<Rightarrow> Inr (False, db))"

definition purge_sent_outbox :: "SqlEnv \<Rightarrow> Timestamp \<Rightarrow> AsyncDb \<Rightarrow> nat sql_outcome" where
  "purge_sent_outbox env before = sql_write env (\<lambda>db.
     let kept = bt_retain (\<lambda>_ e. opt_is_none_or (\<lambda>t. t \<ge> before) (ob_sent_at e)) (as_outbox db)
     in Inr (bt_len (as_outbox db) - bt_len kept, db\<lparr> as_outbox := kept \<rparr>))"

end
