(* ===== verification/Async_Claims.thy ===== *)
theory Async_Claims
  imports Async_Store
begin

text \<open>
  \<open>repository/sqlite/dispatch.rs\<close>: claims of runs, their renewal, the settlement of a run in one
  transaction, the candidates of the reaper, dead letters and redrives.
\<close>

section \<open>Rows\<close>

definition record_or_unclaimed :: "AsyncDb \<Rightarrow> Invocation \<Rightarrow> DispatchRecord" where
  "record_or_unclaimed db i = (case bt_get (as_dispatch db) (inv_id i) of Some r \<Rightarrow> r | None \<Rightarrow> dr_unclaimed i)"

definition write_record :: "DispatchRecord \<Rightarrow> AsyncDb \<Rightarrow> RepoError + AsyncDb" where
  "write_record r db = and_then (sql_big (dr_generation r) ''dispatch generation'') (\<lambda>_.
     Inr (db\<lparr> as_dispatch := bt_insert (dr_invocation_id r) r (as_dispatch db) \<rparr>))"

definition insert_dead_letter :: "SqlEnv \<Rightarrow> DeadLetter \<Rightarrow> bool sql_body" where
  "insert_dead_letter env d db =
     (if list_ex (\<lambda>e. origin_key e = origin_key d) (bt_values (as_dead_letters db)) then Inr (False, db)
      else if bt_contains_key (as_dead_letters db) (dl_id d) then Inl (constraint env ''dead_letters.id'')
      else Inr (True, db\<lparr> as_dead_letters := bt_insert (dl_id d) d (as_dead_letters db) \<rparr>))"

definition is_async_with_input :: "AsyncDb \<Rightarrow> Invocation \<Rightarrow> bool" where
  "is_async_with_input db i \<longleftrightarrow> inv_mode i = Async \<and> bt_contains_key (as_inputs db) (inv_id i)"

definition dispatch_record :: "SqlEnv \<Rightarrow> InvocationId \<Rightarrow> AsyncDb \<Rightarrow> RepoError + DispatchRecord option" where
  "dispatch_record env i = sql_read env (\<lambda>db. Inr (bt_get (as_dispatch db) i))"

section \<open>Claims\<close>

definition claimed_record :: "ClaimRequest \<Rightarrow> DispatchRecord \<Rightarrow> DispatchRecord" where
  "claimed_record req r = r\<lparr> dr_state := DSP_Running, dr_claimed_by := Some (cr_owner req),
     dr_claim_expires_at := Some (cr_now req + cr_ttl req), dr_attempts := sat_add32 (dr_attempts r) 1,
     dr_first_attempt_at := (case dr_first_attempt_at r of None \<Rightarrow> Some (cr_now req) | Some t \<Rightarrow> Some t),
     dr_last_attempt_at := Some (cr_now req), dr_updated_at := cr_now req \<rparr>"

definition claim_tx :: "ClaimRequest \<Rightarrow> ClaimOutcome sql_body" where
  "claim_tx req db =
     (case bt_get (as_invocations db) (cr_invocation_id req) of
        None \<Rightarrow> Inl (NotFound (''invocation '' @ as_str (cr_invocation_id req)))
      | Some i \<Rightarrow>
          if IS_is_terminal (inv_status i) then Inr (CO_Terminal i, db)
          else if \<not> is_async_with_input db i
          then Inl (Refused (''invocation '' @ as_str (cr_invocation_id req) @ '' is not an asynchronous invocation''))
          else let r = record_or_unclaimed db i
               in if cr_generation req \<noteq> dr_generation r then Inr (CO_Stale (dr_generation r), db)
                  else if claim_live r (cr_now req)
                  then Inr (CO_Held (case dr_claimed_by r of Some o' \<Rightarrow> o' | None \<Rightarrow> [])
                                    (case dr_claim_expires_at r of Some t \<Rightarrow> t | None \<Rightarrow> cr_now req), db)
                  else (case (if dr_state r = DSP_Scheduled then dr_next_attempt_at r else None) of
                          Some at \<Rightarrow>
                            if at > cr_now req then Inr (CO_NotDue at, db)
                            else and_then (write_record (claimed_record req r) db) (\<lambda>db.
                                   Inr (CO_Claimed i (claimed_record req r), db))
                        | None \<Rightarrow> and_then (write_record (claimed_record req r) db) (\<lambda>db.
                                   Inr (CO_Claimed i (claimed_record req r), db))))"

definition claim_dispatch :: "SqlEnv \<Rightarrow> ClaimRequest \<Rightarrow> AsyncDb \<Rightarrow> ClaimOutcome sql_outcome" where
  "claim_dispatch env req = sql_write env (claim_tx req)"

text \<open>The row still carries the claim a run was given.\<close>

definition holds_claim :: "string \<Rightarrow> nat \<Rightarrow> DispatchRecord \<Rightarrow> bool" where
  "holds_claim owner attempts r \<longleftrightarrow>
     dr_state r = DSP_Running \<and> dr_claimed_by r = Some owner \<and> dr_attempts r = attempts"

definition renew_dispatch_claim ::
  "SqlEnv \<Rightarrow> InvocationId \<Rightarrow> string \<Rightarrow> nat \<Rightarrow> Timestamp \<Rightarrow> Duration \<Rightarrow> AsyncDb \<Rightarrow> bool sql_outcome" where
  "renew_dispatch_claim env i owner attempts now ttl = sql_write env (\<lambda>db.
     case bt_get (as_dispatch db) i of
       Some r \<Rightarrow>
         if holds_claim owner attempts r
         then Inr (True, db\<lparr> as_dispatch := bt_insert i (r\<lparr> dr_claim_expires_at := Some (now + ttl), dr_updated_at := now \<rparr>)
                       (as_dispatch db) \<rparr>)
         else Inr (False, db)
     | None \<Rightarrow> Inr (False, db))"

section \<open>Settlement\<close>

fun fence_lost :: "DispatchFence \<Rightarrow> Timestamp \<Rightarrow> InvocationId \<Rightarrow> DispatchRecord \<Rightarrow> string option" where
  "fence_lost (DF_Claim owner attempts) now i r =
     (if holds_claim owner attempts r then None
      else Some (''the claim of invocation '' @ as_str i @ '' is no longer '' @ owner @ [CHR 0x27] @ ''s attempt '' @ show_nat attempts))"
| "fence_lost (DF_Unclaimed generation) now i r =
     (if dr_generation r \<noteq> generation \<or> claim_live r now
      then Some (''invocation '' @ as_str i @ '' moved on (generation '' @ show_nat (dr_generation r) @ '', state ''
             @ DispatchState_as_str (dr_state r) @ '')'')
      else None)"

definition settled_record :: "DispatchSettle \<Rightarrow> DispatchRecord \<Rightarrow> DispatchRecord" where
  "settled_record st r =
     (let r = (if ds_counted st then r
               else r\<lparr> dr_attempts := (if from_claim (ds_fence st) then dr_attempts r - 1 else dr_attempts r),
                       dr_deferrals := sat_add32 (dr_deferrals r) 1 \<rparr>)
      in r\<lparr> dr_state := ds_state st, dr_claimed_by := None, dr_claim_expires_at := None,
            dr_next_attempt_at := ds_next_attempt_at st,
            dr_last_error := (case ds_last_error st of None \<Rightarrow> dr_last_error r | Some e \<Rightarrow> Some e),
            dr_updated_at := ds_now st,
            dr_generation := (case ds_republish st of Some e \<Rightarrow> ob_generation e | None \<Rightarrow> dr_generation r) \<rparr>)"

definition settle_outbox :: "SqlEnv \<Rightarrow> DispatchSettle \<Rightarrow> nat \<Rightarrow> AsyncDb \<Rightarrow> RepoError + AsyncDb" where
  "settle_outbox env st generation db =
     (let i = ds_invocation st; db = db\<lparr> as_outbox := bt_remove (inv_id i) (as_outbox db) \<rparr>
      in case ds_republish st of
           None \<Rightarrow> Inr db
         | Some e \<Rightarrow>
             if ob_event_id e \<noteq> inv_id i \<or> ob_tenant_id e \<noteq> inv_tenant_id i \<or> ob_generation e \<noteq> generation + 1
             then Inl (Refused (''the next event of invocation '' @ as_str (inv_id i) @ '' must be its generation ''
                                @ show_nat (generation + 1)))
             else insert_outbox_row env e db)"

definition settle_dead_letter :: "SqlEnv \<Rightarrow> DispatchSettle \<Rightarrow> AsyncDb \<Rightarrow> RepoError + AsyncDb" where
  "settle_dead_letter env st db =
     (case ds_dead_letter st of
        None \<Rightarrow> Inr db
      | Some d \<Rightarrow>
          if dl_tenant_id d \<noteq> inv_tenant_id (ds_invocation st) \<or> dl_invocation_id d \<noteq> Some (inv_id (ds_invocation st))
          then Inl (Refused ''a dead letter must name its own invocation and tenant'')
          else and_then (insert_dead_letter env d db) (\<lambda>(_, db). Inr db))"

definition settle_tx :: "StoreConfig \<Rightarrow> SqlEnv \<Rightarrow> DispatchSettle \<Rightarrow> SettleOutcome sql_body" where
  "settle_tx cfg env st db =
     (let i = ds_invocation st
      in case bt_get (as_invocations db) (inv_id i) of
           None \<Rightarrow> Inl (NotFound (''invocation '' @ as_str (inv_id i)))
         | Some old \<Rightarrow>
             if IS_is_terminal (inv_status old)
             then Inr (SO_Lost (''invocation '' @ as_str (inv_id old) @ '' is already '' @ IS_name (inv_status old)), db)
             else let r = record_or_unclaimed db old
             in case fence_lost (ds_fence st) (ds_now st) (inv_id old) r of
                  Some reason \<Rightarrow> Inr (SO_Lost reason, db)
                | None \<Rightarrow>
                    if \<not> IS_is_terminal (inv_status i) \<and> ds_state st \<noteq> DSP_Scheduled
                    then Inl (Refused ''only a scheduled retry leaves the invocation non-terminal'')
                    else and_then (invocation_update (max_response_bytes (cfg_limits cfg)) old i) (\<lambda>w.
                         and_then (if w = Apply then update_invocation_row cfg i db else Inr db) (\<lambda>db.
                         and_then (settle_outbox env st (dr_generation r) db) (\<lambda>db.
                         and_then (write_record (settled_record st r) db) (\<lambda>db.
                         and_then (settle_dead_letter env st db) (\<lambda>db. Inr (SO_Committed, db)))))))"

definition settle_dispatch :: "StoreConfig \<Rightarrow> SqlEnv \<Rightarrow> DispatchSettle \<Rightarrow> AsyncDb \<Rightarrow> SettleOutcome sql_outcome" where
  "settle_dispatch cfg env st = sql_write env (settle_tx cfg env st)"

section \<open>The reaper's candidates\<close>

definition needs_reaper :: "Timestamp \<Rightarrow> Timestamp \<Rightarrow> Timestamp \<Rightarrow> AsyncDb \<Rightarrow> Invocation \<Rightarrow> bool" where
  "needs_reaper now quiet_before accepted_before db i \<longleftrightarrow>
     bt_contains_key (as_inputs db) (inv_id i) \<and> \<not> IS_is_terminal (inv_status i)
     \<and> (let d = bt_get (as_dispatch db) (inv_id i); o' = bt_get (as_outbox db) (inv_id i);
            expired = opt_is_some_and (\<lambda>r. opt_is_some_and (\<lambda>t. t \<le> now) (dr_claim_expires_at r)) d;
            running = opt_is_some_and (\<lambda>r. dr_state r = DSP_Running) d
        in (running \<and> expired)
           \<or> (inv_accepted_at i \<le> accepted_before \<and> (\<not> running \<or> expired))
           \<or> (opt_is_none_or (\<lambda>r. dr_state r = DSP_Scheduled) d
              \<and> opt_is_none_or (\<lambda>e. ob_sent_at e \<noteq> None) o'
              \<and> opt_is_none_or (\<lambda>e. opt_is_none_or (\<lambda>t. t \<le> quiet_before) (ob_sent_at e)) o'
              \<and> opt_is_none_or (\<lambda>r. opt_is_none_or (\<lambda>t. t \<le> quiet_before) (dr_next_attempt_at r)) d
              \<and> inv_accepted_at i \<le> quiet_before))"

definition dispatch_candidates ::
  "SqlEnv \<Rightarrow> Timestamp \<Rightarrow> Timestamp \<Rightarrow> Timestamp \<Rightarrow> nat \<Rightarrow> AsyncDb \<Rightarrow> RepoError + DispatchCandidate list" where
  "dispatch_candidates env now quiet_before accepted_before limit = sql_read env (\<lambda>db.
     Inr (map (\<lambda>i. \<lparr> dc_invocation = i, dc_record = record_or_unclaimed db i, dc_outbox = bt_get (as_outbox db) (inv_id i) \<rparr>)
       (take limit (sort_key inv_accepted_at
          (filter (needs_reaper now quiet_before accepted_before db) (bt_values (as_invocations db)))))))"

section \<open>Dead letters and redrives\<close>

definition record_poison :: "SqlEnv \<Rightarrow> DeadLetter \<Rightarrow> AsyncDb \<Rightarrow> bool sql_outcome" where
  "record_poison env d db =
     (if dl_invocation_id d \<noteq> None then (Inl (Refused ''a poison dead letter names no invocation''), db)
      else sql_write env (insert_dead_letter env d) db)"

definition dead_letter :: "SqlEnv \<Rightarrow> DeadLetterId \<Rightarrow> AsyncDb \<Rightarrow> RepoError + DeadLetter option" where
  "dead_letter env i = sql_read env (\<lambda>db. Inr (bt_get (as_dead_letters db) i))"

definition newest :: "('a \<Rightarrow> Timestamp) \<Rightarrow> 'a list \<Rightarrow> 'a list" where
  "newest created xs = rev (sort_key created xs)"

definition dead_letter_of :: "SqlEnv \<Rightarrow> InvocationId \<Rightarrow> AsyncDb \<Rightarrow> RepoError + DeadLetter option" where
  "dead_letter_of env i = sql_read env (\<lambda>db.
     Inr (case newest dl_created_at (filter (\<lambda>d. dl_invocation_id d = Some i) (bt_values (as_dead_letters db))) of
            d # _ \<Rightarrow> Some d | [] \<Rightarrow> None))"

definition list_dead_letters :: "SqlEnv \<Rightarrow> TenantId \<Rightarrow> FunctionId \<Rightarrow> nat \<Rightarrow> AsyncDb \<Rightarrow> RepoError + DeadLetter list" where
  "list_dead_letters env tenant f limit = sql_read env (\<lambda>db.
     Inr (take limit (newest dl_created_at
       (filter (\<lambda>d. dl_tenant_id d = tenant \<and> dl_function_id d = Some f) (bt_values (as_dead_letters db))))))"

definition redrives_of :: "SqlEnv \<Rightarrow> DeadLetterId \<Rightarrow> AsyncDb \<Rightarrow> RepoError + Redrive list" where
  "redrives_of env d = sql_read env (\<lambda>db.
     Inr (sort_key rdv_created_at (filter (\<lambda>r. rdv_dead_letter_id r = d) (bt_values (as_redrives db)))))"

definition redrive_creating :: "SqlEnv \<Rightarrow> InvocationId \<Rightarrow> AsyncDb \<Rightarrow> RepoError + Redrive option" where
  "redrive_creating env i = sql_read env (\<lambda>db.
     Inr (find (\<lambda>r. rdv_invocation_id r = i) (bt_values (as_redrives db))))"

definition redrive_tx :: "StoreConfig \<Rightarrow> SqlEnv \<Rightarrow> RedriveWrite \<Rightarrow> unit sql_body" where
  "redrive_tx cfg env w db =
     (let i = rdw_invocation w; input = rdw_input w; event = rdw_event w; rdv = rdw_redrive w; now = inv_accepted_at i
      in case bt_get (as_dead_letters db) (rdw_dead_letter_id w) of
           None \<Rightarrow> Inl (NotFound (''dead letter '' @ as_str (rdw_dead_letter_id w)))
         | Some dead \<Rightarrow>
             if dl_status dead \<noteq> DLS_Open
             then Inl (Conflict (''dead letter '' @ as_str (rdw_dead_letter_id w) @ '' is '' @ DeadLetterStatus_as_str (dl_status dead)))
             else if inv_tenant_id i \<noteq> dl_tenant_id dead \<or> ai_tenant_id input \<noteq> dl_tenant_id dead
                     \<or> ob_tenant_id event \<noteq> dl_tenant_id dead \<or> rdv_tenant_id rdv \<noteq> dl_tenant_id dead
                     \<or> ai_invocation_id input \<noteq> inv_id i \<or> ob_event_id event \<noteq> inv_id i \<or> rdv_invocation_id rdv \<noteq> inv_id i
                     \<or> dl_function_id dead \<noteq> Some (inv_function_id i)
                     \<or> dl_invocation_id dead \<noteq> Some (rdv_source_invocation_id rdv)
             then Inl (Refused (''a redrive must stay within its dead letter'' @ [CHR 0x27] @ ''s tenant and function''))
             else and_then (insert_invocation_checked cfg i db) (\<lambda>db.
                  and_then (insert_input_row env input now db) (\<lambda>db.
                  and_then (insert_outbox_row env event db) (\<lambda>db.
                    if bt_contains_key (as_redrives db) (rdv_id rdv) then Inl (constraint env ''redrives.id'')
                    else let dead = dead\<lparr> dl_status := DLS_Redriven, dl_redrive_count := sat_add32 (dl_redrive_count dead) 1,
                                          dl_redriven_at := Some now \<rparr>
                         in Inr ((), db\<lparr> as_redrives := bt_insert (rdv_id rdv) rdv (as_redrives db),
                                        as_dead_letters := bt_insert (dl_id dead) dead (as_dead_letters db) \<rparr>)))))"

definition redrive :: "StoreConfig \<Rightarrow> SqlEnv \<Rightarrow> RedriveWrite \<Rightarrow> AsyncDb \<Rightarrow> unit sql_outcome" where
  "redrive cfg env w = sql_write env (redrive_tx cfg env w)"

end
