(* ===== verification/Async_History.thy ===== *)
theory Async_History
  imports Async_Claims
begin

text \<open>
  Histories of the durable ledger: its transactions as data, what one of them can do to each table, and
  what every sequence of them therefore keeps.  Dispatchers, publishers and reapers of any number of
  processes are one sequence, because every method is one transaction.
\<close>

section \<open>Transactions as a sequence\<close>

text \<open>
  Every transaction that writes an invocation, a key, an input, an event, a dispatch record, a dead letter
  or a redrive.  The slot and restart transactions of the other repositories write invocations the same
  guard accepts, through the same statement: each is an \<open>AO_Update\<close>.  What other repositories do to functions, object references and
  tombstones, which these transactions only read or extend, is \<open>AO_Elsewhere\<close>: any change at all.
\<close>

datatype async_op =
    AO_Accept Invocation AsyncInput OutboxEvent BacklogLimits bool
  | AO_Insert_Bound Invocation
  | AO_Update Invocation
  | AO_Claim ClaimRequest
  | AO_Renew InvocationId string nat Timestamp Duration
  | AO_Settle DispatchSettle
  | AO_Claim_Outbox string Timestamp Duration nat
  | AO_Mark_Sent InvocationId string nat Timestamp
  | AO_Retry_Outbox InvocationId string Timestamp string
  | AO_Purge_Outbox Timestamp
  | AO_Poison DeadLetter
  | AO_Redrive RedriveWrite
  | AO_Insert Invocation
  | AO_Purge_Outputs "InvocationId \<Rightarrow> Duration option" Timestamp
  | AO_Purge_Idempotency Timestamp
  | AO_Elsewhere "(FunctionId, Function) btreemap" "(ObjectId \<times> InvocationId, Timestamp) btreemap"
      "(ObjectId, CollectReason) btreemap"

record async_port =
  ap_cfg :: StoreConfig
  ap_ulid :: "string \<Rightarrow> u64 option"
  ap_base64_decode :: "string \<Rightarrow> string option"
  ap_sha256_hex :: "string \<Rightarrow> string"

fun async_step :: "async_port \<Rightarrow> SqlEnv \<times> async_op \<Rightarrow> AsyncDb \<Rightarrow> AsyncDb" where
  "async_step p (env, AO_Accept i input event backlog fail) db =
     snd (accept_async (ap_cfg p) (ap_ulid p) env i input event backlog fail db)"
| "async_step p (env, AO_Insert_Bound i) db = snd (sql_insert_bound (ap_cfg p) env i db)"
| "async_step p (env, AO_Update i) db = snd (sql_invocation_update (ap_cfg p) env i db)"
| "async_step p (env, AO_Claim req) db = snd (claim_dispatch env req db)"
| "async_step p (env, AO_Renew i owner attempts now ttl) db = snd (renew_dispatch_claim env i owner attempts now ttl db)"
| "async_step p (env, AO_Settle st) db = snd (settle_dispatch (ap_cfg p) env st db)"
| "async_step p (env, AO_Claim_Outbox owner now ttl most) db = snd (claim_outbox env owner now ttl most db)"
| "async_step p (env, AO_Mark_Sent event owner sq now) db = snd (mark_outbox_sent (ap_cfg p) env event owner sq now db)"
| "async_step p (env, AO_Retry_Outbox event owner at error) db = snd (retry_outbox env event owner at error db)"
| "async_step p (env, AO_Purge_Outbox before) db = snd (purge_sent_outbox env before db)"
| "async_step p (env, AO_Poison d) db = snd (record_poison env d db)"
| "async_step p (env, AO_Redrive w) db = snd (redrive (ap_cfg p) env w db)"
| "async_step p (env, AO_Insert i) db = snd (sql_invocation_insert (ap_cfg p) env i db)"
| "async_step p (env, AO_Purge_Outputs retention now) db =
     snd (purge_expired_outputs (ap_base64_decode p) (ap_sha256_hex p) env retention now db)"
| "async_step p (env, AO_Purge_Idempotency now) db = snd (sql_purge_idempotency env now db)"
| "async_step p (env, AO_Elsewhere fs refs tombs) db =
     db\<lparr> as_functions := fs, as_object_refs := refs, as_tombstones := tombs \<rparr>"

fun async_run :: "async_port \<Rightarrow> (SqlEnv \<times> async_op) list \<Rightarrow> AsyncDb \<Rightarrow> AsyncDb" where
  "async_run p [] db = db"
| "async_run p (c # cs) db = async_run p cs (async_step p c db)"

lemma async_run_append: "async_run p (xs @ ys) db = async_run p ys (async_run p xs db)"
  by (induction xs arbitrary: db) simp_all

lemma sql_write_cases:
  obtains e where "sql_write env body db = (Inl e, db)"
  | x db' where "sql_write env body db = (Inr x, db')" "body db = Inr (x, db')"
  by (cases "sq_locked env"; cases "sq_fault env"; cases "body db") (auto simp: sql_write_def split: prod.splits)

lemma sql_write_Inr: "fst (sql_write env body db) = Inr x \<Longrightarrow> body db = Inr (x, snd (sql_write env body db))"
  by (rule sql_write_cases [of env body db]) auto

lemma sql_write_calm: "sql_write calm body db = (case body db of Inl e \<Rightarrow> (Inl e, db) | Inr (x, db') \<Rightarrow> (Inr x, db'))"
  by (simp add: sql_write_def calm_def)

text \<open>What a transaction leaves is what its body made of the tables, or nothing.\<close>

lemma sql_write_snd:
  "(\<And>x db'. body db = Inr (x, db') \<Longrightarrow> P db') \<Longrightarrow> P db \<Longrightarrow> P (snd (sql_write env body db))"
  by (rule sql_write_cases [of env body db]) auto

section \<open>An order every transaction respects\<close>

locale async_order =
  fixes p :: async_port and allowed :: "async_op \<Rightarrow> bool" and R :: "AsyncDb \<Rightarrow> AsyncDb \<Rightarrow> bool"
  assumes order_refl: "R db db"
    and order_trans: "R a b \<Longrightarrow> R b c \<Longrightarrow> R a c"
    and order_step: "allowed op \<Longrightarrow> R db (async_step p (env, op) db)"
begin

lemma history_order: "(\<And>env op. (env, op) \<in> set h \<Longrightarrow> allowed op) \<Longrightarrow> R db (async_run p h db)"
proof (induction h arbitrary: db)
  case (Cons c cs)
  obtain env op where c: "c = (env, op)" by force
  have "allowed op" using Cons.prems [of env op] c by simp
  then have "R db (async_step p c db)" using order_step c by simp
  moreover have "R (async_step p c db) (async_run p cs (async_step p c db))" using Cons.prems by (intro Cons.IH) auto
  ultimately show ?case using order_trans by simp
qed (simp add: order_refl)

end

section \<open>What the statements change\<close>

text \<open>Every table but those of invocations and keys, inputs and object references, events.\<close>

definition same_dispatch :: "AsyncDb \<Rightarrow> AsyncDb \<Rightarrow> bool" where
  "same_dispatch db db' \<longleftrightarrow> as_dispatch db' = as_dispatch db \<and> as_dead_letters db' = as_dead_letters db
     \<and> as_redrives db' = as_redrives db"

lemma same_dispatch_refl [simp]: "same_dispatch db db"
  by (simp add: same_dispatch_def)

lemma update_row_effect:
  assumes "update_invocation_row cfg i db = Inr db'"
  shows "as_invocations db' = bt_insert (inv_id i) i (as_invocations db)" "same_dispatch db db'"
    "as_outbox db' = as_outbox db" "as_inputs db' = as_inputs db"
    "\<exists>old. bt_get (as_invocations db) (inv_id i) = Some old \<and> \<not> IS_is_terminal (inv_status old)"
  using assms
  by (auto simp: update_invocation_row_def set_idempotency_expiry_def same_dispatch_def Let_def split: option.splits if_splits)

lemma insert_checked_effect:
  assumes "insert_invocation_checked cfg i db = Inr db'"
  shows "db' = db\<lparr> as_invocations := bt_insert (inv_id i) i (as_invocations db) \<rparr>" "bt_get (as_invocations db) (inv_id i) = None"
  using assms by (auto simp: insert_invocation_checked_def split: if_splits)

lemma bind_effect:
  "as_invocations (bind_idempotency cfg i db) = as_invocations db" "same_dispatch db (bind_idempotency cfg i db)"
  "as_outbox (bind_idempotency cfg i db) = as_outbox db" "as_inputs (bind_idempotency cfg i db) = as_inputs db"
  by (simp_all add: bind_idempotency_def same_dispatch_def split: option.split)

lemma attach_effect:
  "attach_in object i now db = Inr db' \<Longrightarrow> db' = db \<or> (\<exists>refs. db' = db\<lparr> as_object_refs := refs \<rparr>)"
  by (auto simp: attach_in_def split: option.splits if_splits)

lemma insert_input_effect:
  assumes "insert_input_row env input now db = Inr db'"
  shows "as_invocations db' = as_invocations db" "same_dispatch db db'" "as_outbox db' = as_outbox db"
    "as_inputs db' = bt_insert (ai_invocation_id input) input (as_inputs db)"
  using assms by (auto simp: insert_input_row_def same_dispatch_def split: AsyncInputBody.splits if_splits dest: attach_effect)

lemma insert_outbox_effect:
  assumes "insert_outbox_row env e db = Inr db'"
  shows "db' = db\<lparr> as_outbox := bt_insert (ob_event_id e) (new_outbox_row e) (as_outbox db) \<rparr>"
    "bt_get (as_outbox db) (ob_event_id e) = None"
  using assms by (auto simp: insert_outbox_row_def split: if_splits)

lemma write_record_effect:
  "write_record r db = Inr db' \<Longrightarrow> db' = db\<lparr> as_dispatch := bt_insert (dr_invocation_id r) r (as_dispatch db) \<rparr>"
  by (auto simp: write_record_def)

lemma insert_dead_letter_effect:
  assumes "insert_dead_letter env d db = Inr (b, db')"
  shows "db' = db \<or> (db' = db\<lparr> as_dead_letters := bt_insert (dl_id d) d (as_dead_letters db) \<rparr>
           \<and> bt_get (as_dead_letters db) (dl_id d) = None
           \<and> (\<forall>k e. bt_get (as_dead_letters db) k = Some e \<longrightarrow> origin_key e \<noteq> origin_key d))"
  using assms by (auto simp: insert_dead_letter_def list_ex_iff bt_values_iff split: if_splits)

lemma settle_outbox_effect:
  assumes "settle_outbox env st g db = Inr db'"
  shows "as_invocations db' = as_invocations db" "same_dispatch db db'" "as_inputs db' = as_inputs db"
  using assms by (auto simp: settle_outbox_def Let_def same_dispatch_def split: option.splits if_splits dest: insert_outbox_effect)

lemma settle_dead_letter_effect:
  assumes "settle_dead_letter env st db = Inr db'"
  shows "as_invocations db' = as_invocations db" "as_dispatch db' = as_dispatch db" "as_inputs db' = as_inputs db"
    "as_outbox db' = as_outbox db"
  using assms by (auto simp: settle_dead_letter_def split: option.splits if_splits dest!: insert_dead_letter_effect)

section \<open>Invocations\<close>

text \<open>
  A final invocation is kept as it is, but for an inline output that may have given way to its digest
  (\<open>dg\<close> is the digest of the text of an inline output).
\<close>

definition inv_kept :: "(string \<Rightarrow> Sha256Digest) \<Rightarrow> Invocation \<Rightarrow> Invocation \<Rightarrow> bool" where
  "inv_kept dg i i' \<longleftrightarrow> i' = i \<or>
     (\<exists>b n. inv_output i = Some (Inline b n) \<and> i' = i\<lparr> inv_output := Some (Digest (dg b) n) \<rparr>)"

text \<open>An invocation keeps its identity and, once final, everything else in this sense.\<close>

definition inv_moves :: "(string \<Rightarrow> Sha256Digest) \<Rightarrow> Invocation \<Rightarrow> Invocation \<Rightarrow> bool" where
  "inv_moves dg i i' \<longleftrightarrow> inv_identity i' = inv_identity i \<and> (IS_is_terminal (inv_status i) \<longrightarrow> inv_kept dg i i')"

definition inv_order :: "(string \<Rightarrow> Sha256Digest) \<Rightarrow> AsyncDb \<Rightarrow> AsyncDb \<Rightarrow> bool" where
  "inv_order dg db db' \<longleftrightarrow> rows_le (inv_moves dg) (as_invocations db) (as_invocations db')"

lemma inv_kept_status: "inv_kept dg i i' \<Longrightarrow> inv_status i' = inv_status i"
  by (auto simp: inv_kept_def)

lemma inv_moves_refl: "reflp (inv_moves dg)"
  by (simp add: reflp_def inv_moves_def inv_kept_def)

lemma inv_moves_trans: "transp (inv_moves dg)"
proof (rule transpI)
  fix a b c assume "inv_moves dg a b" "inv_moves dg b c"
  then show "inv_moves dg a c" by (auto simp: inv_moves_def inv_kept_def)
qed

lemma row_le_moves: "row_le inv_identity inv_final i i' \<Longrightarrow> inv_moves dg i i'"
  by (auto simp: row_le_def inv_moves_def inv_kept_def)

lemma inv_order_refl [simp]: "inv_order dg db db"
  by (simp add: inv_order_def rows_le_refl inv_moves_refl)

lemma inv_order_trans: "inv_order dg a b \<Longrightarrow> inv_order dg b c \<Longrightarrow> inv_order dg a c"
  unfolding inv_order_def by (rule rows_le_trans [OF inv_moves_trans])

text \<open>One transaction writes each invocation under its own id.\<close>

definition inv_change :: "(string \<Rightarrow> Sha256Digest) \<Rightarrow> AsyncDb \<Rightarrow> AsyncDb \<Rightarrow> bool" where
  "inv_change dg db db' \<longleftrightarrow> inv_order dg db db' \<and>
     (\<forall>k i. bt_get (as_invocations db') k = Some i \<longrightarrow>
        inv_id i = k \<or> (\<exists>old. bt_get (as_invocations db) k = Some old \<and> inv_id old = inv_id i))"

lemma inv_change_same: "as_invocations db' = as_invocations db \<Longrightarrow> inv_change dg db db'"
  by (auto simp: inv_change_def inv_order_def rows_le_refl inv_moves_refl)

lemma inv_change_then: "inv_change dg a b \<Longrightarrow> as_invocations c = as_invocations b \<Longrightarrow> inv_change dg a c"
  by (simp add: inv_change_def inv_order_def)

lemma inv_change_new:
  "bt_get (as_invocations db) (inv_id i) = None \<Longrightarrow> as_invocations db' = bt_insert (inv_id i) i (as_invocations db) \<Longrightarrow> inv_change dg db db'"
  unfolding inv_change_def inv_order_def by (auto intro!: rows_le_insert inv_moves_refl)

lemma inv_change_row:
  assumes "bt_get (as_invocations db) (inv_id i) = Some old" "row_le inv_identity inv_final old i"
    and "as_invocations db' = bt_insert (inv_id i) i (as_invocations db)"
  shows "inv_change dg db db'"
  unfolding inv_change_def inv_order_def using assms row_le_moves by (auto intro!: rows_le_insert inv_moves_refl)

text \<open>The purge of expired outputs.\<close>

lemma output_digested_moves:
  "inv_moves (output_digest base64_decode sha256_hex) i (output_digested base64_decode sha256_hex i)"
  "inv_id (output_digested base64_decode sha256_hex i) = inv_id i"
  by (auto simp: inv_moves_def inv_kept_def output_digested_def inv_identity_def split: option.split PayloadRef.split)

lemma purge_outputs_change:
  assumes "as_invocations db' = bt_map (\<lambda>_ i. if expired i then output_digested base64_decode sha256_hex i else i) (as_invocations db)"
  shows "inv_change (output_digest base64_decode sha256_hex) db db'"
proof -
  let ?dg = "output_digest base64_decode sha256_hex"
  have "inv_moves ?dg i i" for i using inv_moves_refl by (simp add: reflp_def)
  then have "inv_moves ?dg i (if expired i then output_digested base64_decode sha256_hex i else i)" for i
    by (simp add: output_digested_moves)
  then have "inv_order ?dg db db'" by (simp add: inv_order_def rows_le_def assms)
  then show ?thesis by (auto simp: inv_change_def assms output_digested_moves(2))
qed

lemma accept_in_effect:
  assumes "accept_in cfg env i input event backlog db = Inr (out, db')"
  shows "inv_change dg db db' \<and> same_dispatch db db'"
proof (cases "out = AAO_Accepted")
  case True
  then obtain a b where a: "insert_invocation_checked cfg i db = Inr a"
      and b: "insert_input_row env input (inv_accepted_at i) (bind_idempotency cfg i a) = Inr b"
      and c: "insert_outbox_row env event b = Inr db'"
    using assms by (auto simp: accept_in_def Let_def split: option.splits if_splits)
  note eff = insert_checked_effect [OF a] insert_input_effect [OF b] insert_outbox_effect [OF c]
  show ?thesis using eff inv_change_new [of db i db']
    by (simp add: same_dispatch_def bind_effect bind_effect(2) [unfolded same_dispatch_def])
next
  case False
  then have "db' = db" using assms by (auto simp: accept_in_def Let_def split: option.splits if_splits)
  then show ?thesis by (simp add: inv_change_same)
qed

lemma redrive_tx_effect:
  assumes "redrive_tx cfg env w db = Inr (u, db')"
  obtains dead dead' where "bt_get (as_dead_letters db) (rdw_dead_letter_id w) = Some dead" "dl_status dead = DLS_Open"
    "dl_id dead' = dl_id dead" "origin_key dead' = origin_key dead" "dl_status dead' = DLS_Redriven"
    "as_dead_letters db' = bt_insert (dl_id dead) dead' (as_dead_letters db)"
    "\<And>dg. inv_change dg db db'" "as_dispatch db' = as_dispatch db"
proof -
  let ?i = "rdw_invocation w"
  obtain dead where dead: "bt_get (as_dead_letters db) (rdw_dead_letter_id w) = Some dead" "dl_status dead = DLS_Open"
    using assms by (auto simp: redrive_tx_def Let_def split: option.splits if_splits)
  let ?dead = "dead\<lparr> dl_status := DLS_Redriven, dl_redrive_count := sat_add32 (dl_redrive_count dead) 1,
                    dl_redriven_at := Some (inv_accepted_at ?i) \<rparr>"
  obtain a b c where a: "insert_invocation_checked cfg ?i db = Inr a"
      and b: "insert_input_row env (rdw_input w) (inv_accepted_at ?i) a = Inr b"
      and c: "insert_outbox_row env (rdw_event w) b = Inr c"
      and db': "db' = c\<lparr> as_redrives := bt_insert (rdv_id (rdw_redrive w)) (rdw_redrive w) (as_redrives c),
                        as_dead_letters := bt_insert (dl_id ?dead) ?dead (as_dead_letters c) \<rparr>"
    using assms dead by (auto simp: redrive_tx_def Let_def split: if_splits)
  note eff = insert_checked_effect [OF a] insert_input_effect [OF b] insert_outbox_effect [OF c]
  show thesis
  proof (rule that [OF dead])
    show "inv_change dg db db'" for dg using eff inv_change_new [of db ?i db'] db' by simp
    show "as_dead_letters db' = bt_insert (dl_id dead) ?dead (as_dead_letters db)" "as_dispatch db' = as_dispatch db"
      using eff db' by (simp_all add: same_dispatch_def)
  qed (simp_all add: origin_key_def split: option.split)
qed

lemma mark_queued_effect:
  assumes "mark_queued_row cfg k db = Inr db'" "\<And>i. bt_get (as_invocations db) k = Some i \<Longrightarrow> inv_id i = k"
  shows "inv_change dg db db' \<and> same_dispatch db db'"
proof -
  consider "db' = db" | i i' where "bt_get (as_invocations db) k = Some i" "inv_status i = IS_Accepted"
      "inv_mark_queued i = Inr i'" "update_invocation_row cfg i' db = Inr db'"
    using assms by (auto simp: mark_queued_row_def split: option.splits if_splits sum.splits)
  then show ?thesis
  proof cases
    case (2 i i')
    have i': "i' = i\<lparr> inv_status := IS_Queued \<rparr>" using 2(2,3) by (simp add: inv_mark_queued_def split: if_splits)
    have "row_le inv_identity inv_final i i'" using 2(2) by (simp add: row_le_def i' inv_identity_def)
    then have "inv_change dg db db'"
      using 2(1) update_row_effect(1) [OF 2(4)] assms(2) [OF 2(1)] inv_change_row [of db i' i db'] by (simp add: i')
    then show ?thesis using update_row_effect(2) [OF 2(4)] by simp
  qed (simp add: inv_change_same)
qed

text \<open>A claim that is granted, and one that is not.\<close>

definition keys_ok :: "AsyncDb \<Rightarrow> bool" where
  "keys_ok db \<longleftrightarrow> (\<forall>k i. bt_get (as_invocations db) k = Some i \<longrightarrow> inv_id i = k)
     \<and> (\<forall>k r. bt_get (as_dispatch db) k = Some r \<longrightarrow> dr_invocation_id r = k)
     \<and> (\<forall>k d. bt_get (as_dead_letters db) k = Some d \<longrightarrow> dl_id d = k)"

lemma record_id: "keys_ok db \<Longrightarrow> dr_invocation_id (record_or_unclaimed db i) = inv_id i"
  by (auto simp: record_or_unclaimed_def keys_ok_def dr_unclaimed_def split: option.split)

lemma claim_tx_effect:
  assumes "claim_tx req db = Inr (out, db')" and ok: "keys_ok db"
  obtains (refused) "db' = db" "\<And>i r. out \<noteq> CO_Claimed i r"
    | (granted) i r where "out = CO_Claimed i (claimed_record req r)" "bt_get (as_invocations db) (cr_invocation_id req) = Some i"
        "\<not> IS_is_terminal (inv_status i)" "r = record_or_unclaimed db i" "dr_generation r = cr_generation req"
        "\<not> claim_live r (cr_now req)"
        "db' = db\<lparr> as_dispatch := bt_insert (cr_invocation_id req) (claimed_record req r) (as_dispatch db) \<rparr>"
proof (cases "\<exists>i r. out = CO_Claimed i r")
  case True
  then obtain i where i: "bt_get (as_invocations db) (cr_invocation_id req) = Some i" "\<not> IS_is_terminal (inv_status i)"
      "dr_generation (record_or_unclaimed db i) = cr_generation req" "\<not> claim_live (record_or_unclaimed db i) (cr_now req)"
      "out = CO_Claimed i (claimed_record req (record_or_unclaimed db i))"
      "write_record (claimed_record req (record_or_unclaimed db i)) db = Inr db'"
    using assms(1) by (auto simp: claim_tx_def Let_def split: option.splits if_splits)
  have "inv_id i = cr_invocation_id req" using i(1) ok by (simp add: keys_ok_def)
  then have "dr_invocation_id (claimed_record req (record_or_unclaimed db i)) = cr_invocation_id req"
    using record_id [OF ok] by (simp add: claimed_record_def)
  then show thesis using granted [OF i(5,1,2) refl i(3,4)] write_record_effect [OF i(6)] by simp
next
  case False
  then have "db' = db" using assms(1) by (auto simp: claim_tx_def Let_def split: option.splits if_splits)
  then show thesis using refused False by blast
qed

text \<open>A settlement that commits, and one that does not.\<close>

lemma settled_record_id [simp]: "dr_invocation_id (settled_record st r) = dr_invocation_id r"
  by (simp add: settled_record_def Let_def)

lemma settle_tx_effect:
  assumes "settle_tx cfg env st db = Inr (out, db')" and ok: "keys_ok db"
  obtains (lost) "db' = db" "out \<noteq> SO_Committed"
    | (committed) old where "out = SO_Committed" "bt_get (as_invocations db) (inv_id (ds_invocation st)) = Some old"
        "\<not> IS_is_terminal (inv_status old)"
        "fence_lost (ds_fence st) (ds_now st) (inv_id old) (record_or_unclaimed db old) = None"
        "IS_is_terminal (inv_status (ds_invocation st)) \<or> ds_state st = DSP_Scheduled"
        "bt_get (as_invocations db') (inv_id (ds_invocation st)) = Some (ds_invocation st)" "\<And>dg. inv_change dg db db'"
        "as_dispatch db' = bt_insert (inv_id (ds_invocation st)) (settled_record st (record_or_unclaimed db old)) (as_dispatch db)"
        "\<exists>mid. as_dead_letters mid = as_dead_letters db \<and> settle_dead_letter env st mid = Inr db'"
proof (cases out)
  case SO_Committed
  let ?i = "ds_invocation st"
  obtain old w a b c where old: "bt_get (as_invocations db) (inv_id ?i) = Some old" "\<not> IS_is_terminal (inv_status old)"
      "fence_lost (ds_fence st) (ds_now st) (inv_id old) (record_or_unclaimed db old) = None"
      "IS_is_terminal (inv_status ?i) \<or> ds_state st = DSP_Scheduled"
      and w: "invocation_update (max_response_bytes (cfg_limits cfg)) old ?i = Inr w"
      and a: "(if w = Apply then update_invocation_row cfg ?i db else Inr db) = Inr a"
      and b: "settle_outbox env st (dr_generation (record_or_unclaimed db old)) a = Inr b"
      and c: "write_record (settled_record st (record_or_unclaimed db old)) b = Inr c"
      and d: "settle_dead_letter env st c = Inr db'"
    using assms(1) SO_Committed by (auto simp: settle_tx_def Let_def split: option.splits if_splits)
  have a': "same_dispatch db a" "\<And>dg. inv_change dg db a" "bt_get (as_invocations a) (inv_id ?i) = Some ?i"
  proof -
    have "(w = Apply \<and> update_invocation_row cfg ?i db = Inr a) \<or> (?i = old \<and> a = db)"
      using a w inv_row.guard_Unchanged [of _ old ?i] by (cases w) auto
    then show "same_dispatch db a" "\<And>dg. inv_change dg db a" "bt_get (as_invocations a) (inv_id ?i) = Some ?i"
      using update_row_effect [of cfg ?i db a] inv_change_row [OF old(1) inv_row.guard_row_le [OF w]] old(1) by (auto simp: inv_change_same)
  qed
  note eff = settle_outbox_effect [OF b] write_record_effect [OF c] settle_dead_letter_effect [OF d]
  have "inv_id old = inv_id ?i" using old(1) ok by (simp add: keys_ok_def)
  then have key: "dr_invocation_id (record_or_unclaimed db old) = inv_id ?i" using record_id [OF ok] by simp
  show thesis
  proof (rule committed [OF SO_Committed old])
    have "as_invocations db' = as_invocations a" using eff by simp
    then show "bt_get (as_invocations db') (inv_id ?i) = Some ?i" "\<And>dg. inv_change dg db db'"
      using a' inv_change_then [OF a'(2)] by simp_all
    show "as_dispatch db' = bt_insert (inv_id ?i) (settled_record st (record_or_unclaimed db old)) (as_dispatch db)"
      using eff a'(1) key by (simp add: same_dispatch_def)
    show "\<exists>mid. as_dead_letters mid = as_dead_letters db \<and> settle_dead_letter env st mid = Inr db'"
      using eff a'(1) d by (intro exI [of _ c]) (simp add: same_dispatch_def)
  qed
next
  case (SO_Lost m)
  then have "db' = db" using assms(1) by (auto simp: settle_tx_def Let_def split: option.splits if_splits)
  then show thesis using lost SO_Lost by simp
qed

section \<open>One transaction\<close>

text \<open>The dispatch row a claim or a settlement starts from.\<close>

definition row_or_fresh :: "DispatchRecord option \<Rightarrow> DispatchRecord \<Rightarrow> bool" where
  "row_or_fresh old r \<longleftrightarrow> old = Some r \<or> (old = None \<and> (\<exists>i. r = dr_unclaimed i))"

lemma record_or_unclaimed_row:
  "inv_id i = k \<Longrightarrow> row_or_fresh (bt_get (as_dispatch db) k) (record_or_unclaimed db i)"
  by (auto simp: row_or_fresh_def record_or_unclaimed_def split: option.split)

text \<open>What an operation can make of the dispatch row of \<open>k\<close>.\<close>

inductive dispatch_row_step :: "async_op \<Rightarrow> InvocationId \<Rightarrow> DispatchRecord option \<Rightarrow> DispatchRecord option \<Rightarrow> bool" where
  Row_Same: "dispatch_row_step op k old old"
| Row_Claim: "\<lbrakk>row_or_fresh old r; \<not> claim_live r (cr_now req); cr_invocation_id req = k\<rbrakk> \<Longrightarrow>
     dispatch_row_step (AO_Claim req) k old (Some (claimed_record req r))"
| Row_Renew: "holds_claim owner n r \<Longrightarrow>
     dispatch_row_step (AO_Renew k owner n now ttl) k (Some r) (Some (r\<lparr> dr_claim_expires_at := Some (now + ttl), dr_updated_at := now \<rparr>))"
| Row_Settle: "\<lbrakk>row_or_fresh old r; fence_lost (ds_fence st) (ds_now st) k r = None; inv_id (ds_invocation st) = k\<rbrakk> \<Longrightarrow>
     dispatch_row_step (AO_Settle st) k old (Some (settled_record st r))"

inductive_cases row_step_claim: "dispatch_row_step (AO_Claim req) k old new"
inductive_cases row_step_settle: "dispatch_row_step (AO_Settle st) k old new"

text \<open>Dead letters are never rewritten but to be marked redriven.\<close>

definition dead_row_step :: "DeadLetter option \<Rightarrow> DeadLetter option \<Rightarrow> bool" where
  "dead_row_step old new \<longleftrightarrow>
     (case old of None \<Rightarrow> True
      | Some d \<Rightarrow> opt_is_some_and (\<lambda>d'. dl_id d' = dl_id d \<and> origin_key d' = origin_key d
                    \<and> (dl_status d = DLS_Redriven \<longrightarrow> d' = d)) new)"

definition tx_effect :: "(string \<Rightarrow> Sha256Digest) \<Rightarrow> async_op \<Rightarrow> AsyncDb \<Rightarrow> AsyncDb \<Rightarrow> bool" where
  "tx_effect dg op db db' \<longleftrightarrow> inv_change dg db db' \<and> keys_ok db'
     \<and> (\<forall>k. dispatch_row_step op k (bt_get (as_dispatch db) k) (bt_get (as_dispatch db') k))
     \<and> (\<forall>k. dead_row_step (bt_get (as_dead_letters db) k) (bt_get (as_dead_letters db') k))"

lemma dead_row_refl [simp]: "dead_row_step d d"
  by (simp add: dead_row_step_def split: option.split)

lemma keys_inv: "\<lbrakk>keys_ok db; inv_change dg db db'; bt_get (as_invocations db') k = Some i\<rbrakk> \<Longrightarrow> inv_id i = k"
  unfolding keys_ok_def inv_change_def by metis

lemma effect_frame:
  assumes "keys_ok db" "inv_change dg db db'" "same_dispatch db db'"
  shows "tx_effect dg op db db'"
  using assms keys_inv [OF assms(1,2)] by (auto simp: tx_effect_def same_dispatch_def keys_ok_def intro: Row_Same)

lemma effect_refl: "keys_ok db \<Longrightarrow> tx_effect dg op db db"
  by (simp add: effect_frame inv_change_same)

lemma effect_dispatch:
  assumes "keys_ok db" "inv_change dg db db'" "as_dispatch db' = bt_insert k r (as_dispatch db)" "dr_invocation_id r = k"
    "dispatch_row_step op k (bt_get (as_dispatch db) k) (Some r)"
    "\<And>k d. bt_get (as_dead_letters db') k = Some d \<Longrightarrow> dl_id d = k"
    "\<And>k. dead_row_step (bt_get (as_dead_letters db) k) (bt_get (as_dead_letters db') k)"
  shows "tx_effect dg op db db'"
  using assms keys_inv [OF assms(1,2)] by (auto simp: tx_effect_def keys_ok_def intro: Row_Same)

lemma effect_dead:
  assumes "keys_ok db" "inv_change dg db db'" "as_dispatch db' = as_dispatch db"
    "\<And>k d. bt_get (as_dead_letters db') k = Some d \<Longrightarrow> dl_id d = k"
    "\<And>k. dead_row_step (bt_get (as_dead_letters db) k) (bt_get (as_dead_letters db') k)"
  shows "tx_effect dg op db db'"
  using assms keys_inv [OF assms(1,2)] by (auto simp: tx_effect_def keys_ok_def intro: Row_Same)

lemma insert_dead_rows:
  assumes "insert_dead_letter env d db = Inr (b, db')" "\<And>k e. bt_get (as_dead_letters db) k = Some e \<Longrightarrow> dl_id e = k"
  shows "bt_get (as_dead_letters db') k = Some e \<Longrightarrow> dl_id e = k"
    and "dead_row_step (bt_get (as_dead_letters db) k) (bt_get (as_dead_letters db') k)"
  using insert_dead_letter_effect [OF assms(1)] assms(2)
  by (auto simp: dead_row_step_def split: if_splits option.splits)

lemma settle_dead_rows:
  assumes "settle_dead_letter env st db = Inr db'" "\<And>k e. bt_get (as_dead_letters db) k = Some e \<Longrightarrow> dl_id e = k"
  shows "bt_get (as_dead_letters db') k = Some e \<Longrightarrow> dl_id e = k"
    and "dead_row_step (bt_get (as_dead_letters db) k) (bt_get (as_dead_letters db') k)"
  using assms insert_dead_rows [of env _ db _ db'] by (auto simp: settle_dead_letter_def split: option.splits if_splits)

lemma claim_effect:
  assumes "claim_tx req db = Inr (out, db')" and ok: "keys_ok db"
  shows "tx_effect dg (AO_Claim req) db db'"
  using assms(1) ok
proof (cases rule: claim_tx_effect)
  case (granted i r)
  have "inv_id i = cr_invocation_id req" using granted(2) ok by (simp add: keys_ok_def)
  then have row: "row_or_fresh (bt_get (as_dispatch db) (cr_invocation_id req)) r"
    and key: "dr_invocation_id (claimed_record req r) = cr_invocation_id req"
    using record_or_unclaimed_row granted(4) record_id [OF ok, of i] by (simp_all add: claimed_record_def)
  show ?thesis
    by (rule effect_dispatch [OF ok inv_change_same _ key Row_Claim [OF row granted(6) refl]])
       (use granted(7) ok in \<open>simp_all add: keys_ok_def\<close>)
qed (simp add: effect_refl ok)

lemma settle_effect:
  assumes "settle_tx cfg env st db = Inr (out, db')" and ok: "keys_ok db"
  shows "tx_effect dg (AO_Settle st) db db'"
  using assms(1) ok
proof (cases rule: settle_tx_effect)
  case (committed old)
  have id: "inv_id old = inv_id (ds_invocation st)" using committed(2) ok by (simp add: keys_ok_def)
  have row: "row_or_fresh (bt_get (as_dispatch db) (inv_id (ds_invocation st))) (record_or_unclaimed db old)"
    and key: "dr_invocation_id (settled_record st (record_or_unclaimed db old)) = inv_id (ds_invocation st)"
    using record_or_unclaimed_row id record_id [OF ok, of old] by simp_all
  obtain mid where mid: "as_dead_letters mid = as_dead_letters db" "settle_dead_letter env st mid = Inr db'"
    using committed(9) by blast
  have keys: "dl_id e = k" if "bt_get (as_dead_letters mid) k = Some e" for k e
    using that ok unfolding mid(1) keys_ok_def by blast
  note dead = settle_dead_rows [OF mid(2) keys, unfolded mid(1)]
  show ?thesis
  proof (rule effect_dispatch [OF ok committed(7,8) key Row_Settle [OF row _ refl]])
    show "fence_lost (ds_fence st) (ds_now st) (inv_id (ds_invocation st)) (record_or_unclaimed db old) = None"
      using committed(4) unfolding id .
  qed (rule dead; assumption)+
qed (simp add: effect_refl ok)

text \<open>The other operations leave dispatch rows alone.\<close>

lemma update_effect:
  assumes "snd (sql_invocation_update cfg env i db) = db'" and ok: "keys_ok db"
  shows "inv_change dg db db' \<and> same_dispatch db db'"
proof -
  have "inv_change dg db db' \<and> same_dispatch db db'"
    if body: "(case bt_get (as_invocations db) (inv_id i) of
           None \<Rightarrow> Inl (NotFound (''invocation '' @ as_str (inv_id i)))
         | Some old \<Rightarrow> and_then (invocation_update (max_response_bytes (cfg_limits cfg)) old i) (\<lambda>w.
             if w = Apply then and_then (update_invocation_row cfg i db) (\<lambda>db. Inr ((), db)) else Inr ((), db))) = Inr (x, db')"
    for x db'
  proof -
    obtain old w where old: "bt_get (as_invocations db) (inv_id i) = Some old"
        and w: "invocation_update (max_response_bytes (cfg_limits cfg)) old i = Inr w"
        and r: "(if w = Apply then and_then (update_invocation_row cfg i db) (\<lambda>db. Inr ((), db)) else Inr ((), db)) = Inr (x, db')"
      using body by (auto split: option.splits)
    show ?thesis
    proof (cases w)
      case Apply
      then have u: "update_invocation_row cfg i db = Inr db'" using r by simp
      show ?thesis
        using inv_change_row [OF old inv_row.guard_row_le [OF w] update_row_effect(1) [OF u]] update_row_effect(2) [OF u] by simp
    qed (use r in \<open>auto simp: inv_change_same\<close>)
  qed
  then show ?thesis using assms(1) unfolding sql_invocation_update_def
    by (metis (no_types, lifting) inv_change_same same_dispatch_refl sql_write_cases snd_conv)
qed

lemma insert_bound_effect:
  "inv_change dg db (snd (sql_insert_bound cfg env i db)) \<and> same_dispatch db (snd (sql_insert_bound cfg env i db))"
  unfolding sql_insert_bound_def
proof (rule sql_write_snd)
  fix x db'
  assume *: "(case Option.bind (inv_key i) (\<lambda>k. sql_live_binding k (inv_accepted_at i) db) of
       Some existing \<Rightarrow> Inr (Existing existing, db)
     | None \<Rightarrow> and_then (insert_invocation_checked cfg i db) (\<lambda>db. Inr (Inserted, bind_idempotency cfg i db))) = Inr (x, db')"
  show "inv_change dg db db' \<and> same_dispatch db db'"
  proof (cases "Option.bind (inv_key i) (\<lambda>k. sql_live_binding k (inv_accepted_at i) db)")
    case None
    then obtain a where a: "insert_invocation_checked cfg i db = Inr a" "db' = bind_idempotency cfg i a" using * by auto
    then show ?thesis
      using insert_checked_effect [OF a(1)] inv_change_new [of db i db']
      by (simp add: bind_effect bind_effect(2) [unfolded same_dispatch_def] same_dispatch_def)
  qed (use * in \<open>simp add: inv_change_same\<close>)
qed (simp add: inv_change_same)

lemma accept_effect:
  "inv_change dg db (snd (accept_async cfg ulid env i input event backlog fail db))
   \<and> same_dispatch db (snd (accept_async cfg ulid env i input event backlog fail db))"
proof (cases "check_accept ulid i input event")
  case (Inr u)
  show ?thesis
    unfolding accept_async_def Inr sum.case
    by (rule sql_write_snd) (auto simp: inv_change_same split: if_splits prod.splits dest!: accept_in_effect)
qed (simp add: accept_async_def inv_change_same)

lemma mark_sent_effect:
  assumes ok: "keys_ok db"
  shows "inv_change dg db (snd (mark_outbox_sent cfg env event owner sq now db))
         \<and> same_dispatch db (snd (mark_outbox_sent cfg env event owner sq now db))"
  unfolding mark_outbox_sent_def
proof (rule sql_write_snd, goal_cases)
  case (1 x db')
  then consider "db' = db" | e where "mark_queued_row cfg event (db\<lparr> as_outbox := bt_insert event e (as_outbox db) \<rparr>) = Inr db'"
    by (auto simp: Let_def split: option.splits if_splits)
  then show ?case
  proof cases
    case (2 e)
    have "inv_change dg (db\<lparr> as_outbox := bt_insert event e (as_outbox db) \<rparr>) db'
          \<and> same_dispatch (db\<lparr> as_outbox := bt_insert event e (as_outbox db) \<rparr>) db'"
      using mark_queued_effect [OF 2] ok by (simp add: keys_ok_def)
    then show ?thesis by (simp add: inv_change_def inv_order_def same_dispatch_def)
  qed (simp add: inv_change_same)
qed (simp add: inv_change_same)

lemma outbox_effects:
  "inv_change dg db (snd (claim_outbox env owner now ttl most db)) \<and> same_dispatch db (snd (claim_outbox env owner now ttl most db))"
  "inv_change dg db (snd (retry_outbox env event owner at error db)) \<and> same_dispatch db (snd (retry_outbox env event owner at error db))"
  "inv_change dg db (snd (purge_sent_outbox env before db)) \<and> same_dispatch db (snd (purge_sent_outbox env before db))"
proof -
  have same: "inv_change dg db (db\<lparr> as_outbox := m \<rparr>) \<and> same_dispatch db (db\<lparr> as_outbox := m \<rparr>)" for m
    by (simp add: inv_change_same same_dispatch_def)
  show "inv_change dg db (snd (claim_outbox env owner now ttl most db)) \<and> same_dispatch db (snd (claim_outbox env owner now ttl most db))"
  proof -
    let ?body = "\<lambda>db. let rows = map (claimed_row owner (now + ttl)) (due_rows now most db)
        in Inr (rows, db\<lparr> as_outbox := fold (\<lambda>e. bt_insert (ob_event_id e) e) rows (as_outbox db) \<rparr>)"
    have "inv_change dg db (snd (sql_write env ?body db)) \<and> same_dispatch db (snd (sql_write env ?body db))"
      by (rule sql_write_snd) (auto simp: Let_def same inv_change_same)
    then show ?thesis by (cases "snd (claim_outbox env owner now ttl most db) = db")
      (auto simp: claim_outbox_def inv_change_same split: sum.splits if_splits)
  qed
  show "inv_change dg db (snd (retry_outbox env event owner at error db)) \<and> same_dispatch db (snd (retry_outbox env event owner at error db))"
    unfolding retry_outbox_def by (rule sql_write_snd) (auto simp: same inv_change_same split: option.splits if_splits)
  show "inv_change dg db (snd (purge_sent_outbox env before db)) \<and> same_dispatch db (snd (purge_sent_outbox env before db))"
    unfolding purge_sent_outbox_def by (rule sql_write_snd) (auto simp: Let_def same inv_change_same)
qed

lemma renew_effect:
  assumes ok: "keys_ok db"
  shows "tx_effect dg (AO_Renew i owner n now ttl) db (snd (renew_dispatch_claim env i owner n now ttl db))"
  unfolding renew_dispatch_claim_def
proof (rule sql_write_snd, goal_cases)
  case (1 x db')
  then consider "db' = db" | r where "bt_get (as_dispatch db) i = Some r" "holds_claim owner n r"
      "db' = db\<lparr> as_dispatch := bt_insert i (r\<lparr> dr_claim_expires_at := Some (now + ttl), dr_updated_at := now \<rparr>) (as_dispatch db) \<rparr>"
    by (auto split: option.splits if_splits)
  then show ?case
  proof cases
    case (2 r)
    have "dispatch_row_step (AO_Renew i owner n now ttl) i (bt_get (as_dispatch db) i)
            (Some (r\<lparr> dr_claim_expires_at := Some (now + ttl), dr_updated_at := now \<rparr>))"
      unfolding 2(1) by (rule Row_Renew [OF 2(2)])
    from this show ?thesis
      by (rule effect_dispatch [OF ok inv_change_same, rotated 3])
         (use 2 ok in \<open>simp_all add: keys_ok_def\<close>)
  qed (simp add: effect_refl ok)
qed (simp add: effect_refl ok)

lemma poison_effect:
  assumes ok: "keys_ok db"
  shows "tx_effect dg op db (snd (record_poison env d db))"
proof (cases "dl_invocation_id d")
  case None
  have keys: "dl_id e = k" if "bt_get (as_dead_letters db) k = Some e" for k e using that ok by (simp add: keys_ok_def)
  have "tx_effect dg op db db'" if "insert_dead_letter env d db = Inr (b, db')" for b db'
  proof (rule effect_dead [OF ok])
    show "inv_change dg db db'" "as_dispatch db' = as_dispatch db"
      using insert_dead_letter_effect [OF that] by (auto simp: inv_change_same)
  qed (rule insert_dead_rows [OF that keys]; assumption)+
  then show ?thesis using None by (auto simp: record_poison_def effect_refl ok intro: sql_write_snd)
qed (simp add: record_poison_def effect_refl ok)

lemma redrive_effect:
  assumes ok: "keys_ok db"
  shows "tx_effect dg op db (snd (redrive cfg env w db))"
  unfolding redrive_def
proof (rule sql_write_snd, goal_cases)
  case (1 x db')
  from redrive_tx_effect [OF 1] obtain dead dead' where d: "bt_get (as_dead_letters db) (rdw_dead_letter_id w) = Some dead"
      "dl_status dead = DLS_Open" "dl_id dead' = dl_id dead" "origin_key dead' = origin_key dead"
      "as_dead_letters db' = bt_insert (dl_id dead) dead' (as_dead_letters db)" "inv_change dg db db'" "as_dispatch db' = as_dispatch db"
    by metis
  have "dl_id dead = rdw_dead_letter_id w" using d(1) ok by (simp add: keys_ok_def)
  then show ?case
    using d ok by (intro effect_dead [OF ok d(6,7)]) (auto simp: keys_ok_def dead_row_step_def split: option.splits if_splits)
qed (simp add: effect_refl ok)

lemma insert_effect:
  "inv_change dg db (snd (sql_invocation_insert cfg env i db)) \<and> same_dispatch db (snd (sql_invocation_insert cfg env i db))"
  unfolding sql_invocation_insert_def
proof (rule sql_write_snd)
  fix x db' assume "and_then (insert_invocation_checked cfg i db) (\<lambda>db. Inr ((), db)) = Inr (x, db')"
  then have "insert_invocation_checked cfg i db = Inr db'" by auto
  from insert_checked_effect [OF this] show "inv_change dg db db' \<and> same_dispatch db db'"
    by (auto simp: same_dispatch_def intro!: inv_change_new)
qed (simp add: inv_change_same)

lemma purge_effects:
  "inv_change dg db (snd (sql_purge_idempotency env now db)) \<and> same_dispatch db (snd (sql_purge_idempotency env now db))"
  "inv_change (output_digest base64_decode sha256_hex) db (snd (purge_expired_outputs base64_decode sha256_hex env retention now db))
   \<and> same_dispatch db (snd (purge_expired_outputs base64_decode sha256_hex env retention now db))"
proof -
  show "inv_change dg db (snd (sql_purge_idempotency env now db)) \<and> same_dispatch db (snd (sql_purge_idempotency env now db))"
    unfolding sql_purge_idempotency_def by (rule sql_write_snd) (auto simp: Let_def inv_change_same same_dispatch_def)
  show "inv_change (output_digest base64_decode sha256_hex) db (snd (purge_expired_outputs base64_decode sha256_hex env retention now db))
     \<and> same_dispatch db (snd (purge_expired_outputs base64_decode sha256_hex env retention now db))"
    unfolding purge_expired_outputs_def
    by (rule sql_write_snd) (auto simp: Let_def inv_change_same same_dispatch_def intro!: purge_outputs_change)
qed

text \<open>The digest the purge of a port gives an inline output.\<close>

definition port_digest :: "async_port \<Rightarrow> string \<Rightarrow> Sha256Digest" where
  "port_digest p = output_digest (ap_base64_decode p) (ap_sha256_hex p)"

fun purges :: "async_op \<Rightarrow> bool" where
  "purges (AO_Purge_Outputs retention now) \<longleftrightarrow> True"
| "purges _ \<longleftrightarrow> False"

lemma step_effect_any:
  assumes ok: "keys_ok db" and "\<not> purges op"
  shows "tx_effect dg op db (async_step p (env, op) db)"
proof (cases op)
  case (AO_Claim req)
  show ?thesis unfolding AO_Claim async_step.simps claim_dispatch_def
    by (rule sql_write_snd) (auto intro: claim_effect effect_refl ok)
next
  case (AO_Settle st)
  show ?thesis unfolding AO_Settle async_step.simps settle_dispatch_def
    by (rule sql_write_snd) (auto intro: settle_effect effect_refl ok)
next
  case (AO_Update i)
  show ?thesis using effect_frame [OF ok] update_effect [OF refl ok] by (simp add: AO_Update)
next
  case (AO_Elsewhere fs refs tombs)
  show ?thesis using effect_frame [OF ok] by (simp add: AO_Elsewhere inv_change_same same_dispatch_def)
qed (use assms in \<open>simp_all add: effect_frame accept_effect insert_bound_effect mark_sent_effect outbox_effects
       renew_effect poison_effect redrive_effect insert_effect purge_effects(1)\<close>)

lemma step_effect:
  assumes ok: "keys_ok db"
  shows "tx_effect (port_digest p) op db (async_step p (env, op) db)"
proof (cases op)
  case (AO_Purge_Outputs retention now)
  show ?thesis using effect_frame [OF ok] purge_effects(2) by (simp add: AO_Purge_Outputs port_digest_def)
qed (rule step_effect_any [OF ok], simp)+

section \<open>What every history keeps\<close>

text \<open>Keys stay the ids of their rows, invocations follow their order.\<close>

definition ledger_order :: "(string \<Rightarrow> Sha256Digest) \<Rightarrow> AsyncDb \<Rightarrow> AsyncDb \<Rightarrow> bool" where
  "ledger_order dg db db' \<longleftrightarrow> (keys_ok db \<longrightarrow> keys_ok db' \<and> inv_order dg db db')"

interpretation ledger: async_order p "\<lambda>_. True" "ledger_order (port_digest p)" for p
proof
  show "ledger_order (port_digest p) db (async_step p (env, op) db)" for db env op
    using step_effect [of db p op env] by (auto simp: ledger_order_def tx_effect_def inv_change_def)
qed (auto simp: ledger_order_def intro: inv_order_trans)

lemma keys_ok_empty: "keys_ok (AsyncDb_empty fs)"
  by (simp add: keys_ok_def AsyncDb_empty_def)

lemma run_keys_ok: "keys_ok db \<Longrightarrow> keys_ok (async_run p h db)"
  using ledger.history_order [of h p db] by (simp add: ledger_order_def)

lemma run_inv_order: "keys_ok db \<Longrightarrow> inv_order (port_digest p) db (async_run p h db)"
  using ledger.history_order [of h p db] by (simp add: ledger_order_def)

text \<open>
  A final invocation is kept as it is, except that the purge replaces an inline output whose retention is
  over by its digest.
\<close>

definition output_purged :: "async_port \<Rightarrow> async_op \<Rightarrow> Invocation \<Rightarrow> Invocation \<Rightarrow> bool" where
  "output_purged p op i i' \<longleftrightarrow>
     (\<exists>retention now t b n. op = AO_Purge_Outputs retention now \<and> inv_output i = Some (Inline b n)
        \<and> output_expires_at (retention (inv_id i)) i = Some t \<and> t \<le> now
        \<and> i' = i\<lparr> inv_output := Some (Digest (port_digest p b) n) \<rparr>)"

lemma inv_kept_any:
  assumes "inv_kept (\<lambda>_. Ident []) i j" "inv_kept (\<lambda>_. Ident ''x'') i j"
  shows "j = i"
proof (rule ccontr)
  have out: "\<exists>n. inv_output j = Some (Digest d n)" if "inv_kept (\<lambda>_. d) i j" "j \<noteq> i" for d
    using that by (auto simp: inv_kept_def)
  assume "j \<noteq> i"
  then show False using out [OF assms(1)] out [OF assms(2)] by auto
qed

lemma moves_final:
  assumes "inv_order dg db db'" "bt_get (as_invocations db) k = Some i" "IS_is_terminal (inv_status i)"
  obtains i' where "bt_get (as_invocations db') k = Some i'" "inv_kept dg i i'"
  using rows_leD [OF assms(1) [unfolded inv_order_def] assms(2)] assms(3) that by (auto simp: inv_moves_def)

lemma final_step:
  assumes ok: "keys_ok db" and i: "bt_get (as_invocations db) k = Some i" "IS_is_terminal (inv_status i)"
  obtains i' where "bt_get (as_invocations (async_step p (env, op) db)) k = Some i'" "i' = i \<or> output_purged p op i i'"
proof (cases "purges op")
  case True
  then obtain retention now where op: "op = AO_Purge_Outputs retention now" by (cases op) auto
  let ?i = "output_digested (ap_base64_decode p) (ap_sha256_hex p) i"
  have "output_purged p op i ?i" if due: "opt_is_some_and (\<lambda>t. t \<le> now) (output_expires_at (retention (inv_id i)) i)"
  proof -
    obtain t where t: "output_expires_at (retention (inv_id i)) i = Some t" "t \<le> now"
      using due by (auto simp: opt_is_some_and_iff)
    then obtain b n where bn: "inv_output i = Some (Inline b n)"
      by (auto simp: output_expires_at_def split: option.splits PayloadRef.splits)
    then have "?i = i\<lparr> inv_output := Some (Digest (port_digest p b) n) \<rparr>"
      by (simp add: output_digested_def port_digest_def)
    then show ?thesis unfolding output_purged_def using op t bn by blast
  qed
  then have "\<exists>i'. bt_get (as_invocations (async_step p (env, op) db)) k = Some i' \<and> (i' = i \<or> output_purged p op i i')"
    unfolding op async_step.simps purge_expired_outputs_def
    by (rule_tac sql_write_snd) (use i in \<open>auto simp: Let_def split: if_splits\<close>)
  then show thesis using that by blast
next
  case False
  let ?db = "async_step p (env, op) db"
  have order: "inv_order dg db ?db" for dg using step_effect_any [OF ok False] by (simp add: tx_effect_def inv_change_def)
  obtain i' where i': "bt_get (as_invocations ?db) k = Some i'" "inv_kept (\<lambda>_. Ident []) i i'"
    by (rule moves_final [OF order i])
  obtain i'' where "bt_get (as_invocations ?db) k = Some i''" "inv_kept (\<lambda>_. Ident ''x'') i i''"
    by (rule moves_final [OF order i])
  then have "i' = i" using i' by (intro inv_kept_any) simp_all
  then show thesis using that i'(1) by blast
qed

lemma final_history:
  assumes "keys_ok db" "bt_get (as_invocations db) k = Some i" "IS_is_terminal (inv_status i)"
  shows "\<exists>i'. bt_get (as_invocations (async_run p h db)) k = Some i'
           \<and> (i' = i \<or> (\<exists>c\<in>set h. output_purged p (snd c) i i'))"
  using assms
proof (induction h arbitrary: db i)
  case (Cons c cs)
  obtain env op where c: "c = (env, op)" by force
  have ok: "keys_ok (async_step p c db)" using run_keys_ok [OF Cons.prems(1), of p "[c]"] by simp
  obtain j where j: "bt_get (as_invocations (async_step p c db)) k = Some j" "j = i \<or> output_purged p op i j"
    using final_step [OF Cons.prems, of p env op] c by blast
  then have "IS_is_terminal (inv_status j)" using Cons.prems(3) by (auto simp: output_purged_def)
  from Cons.IH [OF ok j(1) this] obtain i' where i': "bt_get (as_invocations (async_run p (c # cs) db)) k = Some i'"
      "i' = j \<or> (\<exists>c\<in>set cs. output_purged p (snd c) j i')" by auto
  show ?case using i' j(2) c by (auto simp: output_purged_def)
qed simp

text \<open>Redriven dead letters stay as they are.\<close>

definition dead_order :: "AsyncDb \<Rightarrow> AsyncDb \<Rightarrow> bool" where
  "dead_order db db' \<longleftrightarrow> (keys_ok db \<longrightarrow> keys_ok db' \<and>
     (\<forall>k d. bt_get (as_dead_letters db) k = Some d \<and> dl_status d = DLS_Redriven \<longrightarrow> bt_get (as_dead_letters db') k = Some d))"

interpretation deads: async_order p "\<lambda>_. True" dead_order for p
proof
  show "dead_order db (async_step p (env, op) db)" for db env op
  proof -
    have "bt_get (as_dead_letters (async_step p (env, op) db)) k = Some d"
      if "keys_ok db" "bt_get (as_dead_letters db) k = Some d" "dl_status d = DLS_Redriven" for k d
      using step_effect [OF that(1), of p op env] that(2,3) unfolding tx_effect_def
      by (auto simp: dead_row_step_def opt_is_some_and_iff dest!: spec [of _ k] split: option.splits)
    then show ?thesis using step_effect [of db p op env] by (auto simp: dead_order_def tx_effect_def)
  qed
qed (auto simp: dead_order_def)

text \<open>
  A claim is the pair of an owner and the attempt count it was given.  It is passed once the row is
  beyond it: a later run counts more attempts, and only that run can take its count back.
\<close>

definition row_passed :: "nat \<Rightarrow> DispatchRecord \<Rightarrow> bool" where
  "row_passed n r \<longleftrightarrow> n \<le> dr_attempts r \<and> (dr_state r = DSP_Running \<and> dr_claimed_by r \<noteq> None \<longrightarrow> n < dr_attempts r)"

definition claim_passed :: "InvocationId \<Rightarrow> nat \<Rightarrow> AsyncDb \<Rightarrow> bool" where
  "claim_passed i n db \<longleftrightarrow> opt_is_some_and (row_passed n) (bt_get (as_dispatch db) i)"

definition claim_held :: "InvocationId \<Rightarrow> string \<Rightarrow> nat \<Rightarrow> AsyncDb \<Rightarrow> bool" where
  "claim_held i owner n db \<longleftrightarrow> opt_is_some_and (holds_claim owner n) (bt_get (as_dispatch db) i)"

fun own_settle :: "InvocationId \<Rightarrow> string \<Rightarrow> nat \<Rightarrow> async_op \<Rightarrow> bool" where
  "own_settle i owner n (AO_Settle st) \<longleftrightarrow> ds_fence st = DF_Claim owner n \<and> inv_id (ds_invocation st) = i"
| "own_settle i owner n _ \<longleftrightarrow> False"

lemma sat_next: "n < u32_max \<Longrightarrow> n \<le> a \<Longrightarrow> n < sat_add32 a 1"
  by (simp add: sat_add32_def)

lemma fence_holds: "fence_lost (DF_Claim owner n) now k r = None \<longleftrightarrow> holds_claim owner n r"
  by simp

lemma settled_passed:
  assumes "fence_lost (ds_fence st) now k r = None" "row_passed n r"
  shows "row_passed n (settled_record st r)"
proof (cases "ds_fence st")
  case (DF_Claim owner m)
  then have "n < dr_attempts r" using assms by (auto simp: row_passed_def holds_claim_def split: if_splits)
  then show ?thesis by (auto simp: row_passed_def settled_record_def Let_def)
qed (use assms(2) in \<open>auto simp: row_passed_def settled_record_def Let_def\<close>)

lemma row_passed_step:
  assumes "dispatch_row_step op k (Some r) new" "n < u32_max" "row_passed n r"
  shows "opt_is_some_and (row_passed n) new"
  using assms
proof (cases rule: dispatch_row_step.cases)
  case (Row_Claim r' req)
  then show ?thesis using assms sat_next [of n "dr_attempts r"] by (simp add: row_or_fresh_def row_passed_def claimed_record_def)
next
  case (Row_Settle r' st)
  then show ?thesis using settled_passed assms(3) by (simp add: row_or_fresh_def)
qed (simp_all add: row_passed_def)

lemma row_held_step:
  assumes "dispatch_row_step op k (Some r) new" "n < u32_max" "holds_claim owner n r" "\<not> own_settle k owner n op"
  shows "opt_is_some_and (holds_claim owner n) new \<or> opt_is_some_and (row_passed n) new"
  using assms
proof (cases rule: dispatch_row_step.cases)
  case (Row_Claim r' req)
  then show ?thesis using assms sat_next [of n "dr_attempts r"]
    by (simp add: row_or_fresh_def row_passed_def claimed_record_def holds_claim_def)
next
  case (Row_Settle r' st)
  then have r': "r' = r" by (simp add: row_or_fresh_def)
  show ?thesis
  proof (cases "ds_fence st")
    case (DF_Claim o' m)
    then show ?thesis using Row_Settle r' assms(3,4) by (auto simp: holds_claim_def split: if_splits)
  next
    case (DF_Unclaimed g)
    then show ?thesis using Row_Settle r' assms(3) by (simp add: row_passed_def settled_record_def Let_def holds_claim_def)
  qed
qed (simp_all add: holds_claim_def)

definition claim_order :: "InvocationId \<Rightarrow> string \<Rightarrow> nat \<Rightarrow> AsyncDb \<Rightarrow> AsyncDb \<Rightarrow> bool" where
  "claim_order i owner n db db' \<longleftrightarrow> (keys_ok db \<and> n < u32_max \<longrightarrow> keys_ok db'
     \<and> (claim_passed i n db \<longrightarrow> claim_passed i n db')
     \<and> (claim_held i owner n db \<longrightarrow> claim_held i owner n db' \<or> claim_passed i n db'))"

interpretation claims: async_order p "\<lambda>op. \<not> own_settle i owner n op" "claim_order i owner n" for p i owner n
proof
  show "claim_order i owner n db (async_step p (env, op) db)" if "\<not> own_settle i owner n op" for db env op
  proof (cases "keys_ok db \<and> n < u32_max")
    case True
    then have eff: "keys_ok (async_step p (env, op) db)"
        "dispatch_row_step op i (bt_get (as_dispatch db) i) (bt_get (as_dispatch (async_step p (env, op) db)) i)"
      using step_effect [of db p op env] by (auto simp: tx_effect_def)
    show ?thesis
    proof (cases "bt_get (as_dispatch db) i")
      case None
      then show ?thesis using eff(1) by (simp add: claim_order_def claim_passed_def claim_held_def)
    next
      case (Some r)
      then show ?thesis
        using row_passed_step [OF eff(2) [unfolded Some]] row_held_step [OF eff(2) [unfolded Some]] eff(1) True that
        by (auto simp: claim_order_def claim_passed_def claim_held_def)
    qed
  qed (auto simp: claim_order_def)
qed (auto simp: claim_order_def)

definition passed_order :: "InvocationId \<Rightarrow> nat \<Rightarrow> AsyncDb \<Rightarrow> AsyncDb \<Rightarrow> bool" where
  "passed_order i n db db' \<longleftrightarrow>
     (keys_ok db \<and> n < u32_max \<longrightarrow> keys_ok db' \<and> (claim_passed i n db \<longrightarrow> claim_passed i n db'))"

interpretation passing: async_order p "\<lambda>_. True" "passed_order i n" for p i n
proof
  show "passed_order i n db (async_step p (env, op) db)" for db env op
  proof (cases "keys_ok db \<and> n < u32_max \<and> claim_passed i n db")
    case True
    then obtain r where r: "bt_get (as_dispatch db) i = Some r" "row_passed n r"
      by (auto simp: claim_passed_def opt_is_some_and_iff)
    have "keys_ok (async_step p (env, op) db)"
        "dispatch_row_step op i (Some r) (bt_get (as_dispatch (async_step p (env, op) db)) i)"
      using step_effect [of db p op env] True r(1) [symmetric] by (simp_all add: tx_effect_def)
    then show ?thesis using row_passed_step r(2) True by (auto simp: passed_order_def claim_passed_def)
  next
    case False
    then show ?thesis using step_effect [of db p op env] by (auto simp: passed_order_def tx_effect_def)
  qed
qed (auto simp: passed_order_def)

lemma passed_stays: "\<lbrakk>keys_ok db; n < u32_max; claim_passed i n db\<rbrakk> \<Longrightarrow> claim_passed i n (async_run p h db)"
  using passing.history_order [of h i n db p] by (simp add: passed_order_def)

lemma passed_not_held: "claim_passed i n db \<Longrightarrow> \<not> claim_held i owner n db"
  by (auto simp: claim_passed_def claim_held_def row_passed_def holds_claim_def opt_is_some_and_iff)

text \<open>A run between its claim and its own settlement: the row still carries its claim, or is past it for good.\<close>

lemma held_or_passed:
  assumes "keys_ok db" "n < u32_max" "claim_held i owner n db" "\<And>env op. (env, op) \<in> set h \<Longrightarrow> \<not> own_settle i owner n op"
  shows "claim_held i owner n (async_run p h db) \<or> claim_passed i n (async_run p h db)"
  using claims.history_order [of h i owner n db p] assms by (auto simp: claim_order_def)

lemma claim_passes:
  assumes ok: "keys_ok db" and n: "n < u32_max" and at: "claim_held i owner n db \<or> claim_passed i n db"
    and claim: "fst (claim_dispatch env req db) = Inr (CO_Claimed v r)" "cr_invocation_id req = i"
  shows "claim_passed i n (snd (claim_dispatch env req db))"
proof -
  have tx: "claim_tx req db = Inr (CO_Claimed v r, snd (claim_dispatch env req db))"
    using claim(1) unfolding claim_dispatch_def by (rule sql_write_Inr)
  from tx ok show ?thesis
  proof (cases rule: claim_tx_effect)
    case (granted v' r')
    have "inv_id v' = i" using granted(2) ok claim(2) by (simp add: keys_ok_def)
    then have "n \<le> dr_attempts r'"
      using at granted(4) by (auto simp: claim_held_def claim_passed_def record_or_unclaimed_def opt_is_some_and_iff
          holds_claim_def row_passed_def)
    then have "n < sat_add32 (dr_attempts r') 1" by (rule sat_next [OF n])
    then show ?thesis using granted(7) claim(2)
      by (simp add: claim_passed_def row_passed_def claimed_record_def)
  qed blast
qed

lemma settle_needs_claim:
  assumes ok: "keys_ok db" and c: "fst (settle_dispatch cfg env st db) = Inr SO_Committed"
    and f: "ds_fence st = DF_Claim owner n" "inv_id (ds_invocation st) = i"
  shows "claim_held i owner n db"
proof -
  have tx: "settle_tx cfg env st db = Inr (SO_Committed, snd (settle_dispatch cfg env st db))"
    using c unfolding settle_dispatch_def by (rule sql_write_Inr)
  from tx ok show ?thesis
  proof (cases rule: settle_tx_effect)
    case (committed old)
    then have "holds_claim owner n (record_or_unclaimed db old)" "inv_id old = i"
      using f ok by (auto simp: keys_ok_def split: if_splits)
    then show ?thesis
      by (auto simp: claim_held_def record_or_unclaimed_def holds_claim_def dr_unclaimed_def split: option.splits)
  qed simp
qed

text \<open>Another settlement of the invocation that commits also ends the claim.\<close>

lemma settle_passes:
  fixes p :: async_port
  assumes ok: "keys_ok db" and n: "n < u32_max" and at: "claim_held i owner n db \<or> claim_passed i n db"
    and c: "fst (settle_dispatch (ap_cfg p) env st db) = Inr SO_Committed" "inv_id (ds_invocation st) = i"
    and other: "ds_fence st \<noteq> DF_Claim owner n"
  shows "claim_passed i n (snd (settle_dispatch (ap_cfg p) env st db))"
proof -
  let ?db = "snd (settle_dispatch (ap_cfg p) env st db)"
  have "claim_order i owner n db (async_step p (env, AO_Settle st) db)" by (rule claims.order_step) (use other in simp)
  then have "claim_held i owner n ?db \<or> claim_passed i n ?db" using ok n at by (auto simp: claim_order_def)
  moreover have "\<not> claim_held i owner n ?db"
  proof -
    have tx: "settle_tx (ap_cfg p) env st db = Inr (SO_Committed, ?db)"
      using c(1) unfolding settle_dispatch_def by (rule sql_write_Inr)
    from tx ok show ?thesis
      by (cases rule: settle_tx_effect) (use c(2) in \<open>auto simp: claim_held_def holds_claim_def settled_record_def Let_def\<close>)
  qed
  ultimately show ?thesis by simp
qed

end
