(* ===== verification/Async_Dispatch.thy ===== *)
theory Async_Dispatch
  imports Async_Retry Async_History
begin

text \<open>
  \<open>services/invoke_async/dispatch.rs\<close>: how one delivery of an asynchronous invocation is handled, and a
  pass of the reaper.  A handler reads and writes the ledger in several transactions; before each of
  them every other process may have run any transactions of its own (\<open>dp_other\<close>).  The clock, the
  queue, the object store, the run itself, the configuration cache, JSON and random values are
  parameters, asked again at each use (\<open>dw_tick\<close> counts the uses).  What the handler did to its message
  is the list \<open>dw_acts\<close>, and \<open>dw_claim\<close> notes the claim the ledger granted it, its owner and attempt count:
  two traces that nothing of the handler reads.
\<close>

section \<open>Data\<close>

definition INVOKE_TOPIC :: string where "INVOKE_TOPIC = ''invoke''"
definition ENVELOPE_VERSION :: u32 where "ENVELOPE_VERSION = 1"

record InvokeEnvelope =
  ev_version :: u32
  ev_invocation_id :: InvocationId
  ev_tenant_id :: TenantId
  ev_function_id :: FunctionId
  ev_revision_id :: RevisionId
  ev_event_kind :: EventKind
  ev_input_digest :: Sha256Digest
  ev_input_size_bytes :: u64
  ev_input_storage :: string
  ev_accepted_at :: Timestamp
  ev_queue_deadline :: Timestamp
  ev_trace_id :: string
  ev_generation :: nat

record Delivery =
  dv_sequence :: nat
  dv_tenant_id :: TenantId
  dv_message_id :: string
  dv_payload :: string
  dv_delivery_count :: nat

datatype HandleOutcome =
    HO_Completed string
  | HO_Rescheduled Timestamp bool
  | HO_DeadLettered DeadLetterReason
  | HO_Skipped string
  | HO_NotDue Timestamp
  | HO_Poison
  | HO_Failed string
  | HO_LostClaim

fun metric_label :: "HandleOutcome \<Rightarrow> string" where
  "metric_label (HO_Completed _) = ''completed''"
| "metric_label (HO_Rescheduled _ _) = ''rescheduled''"
| "metric_label (HO_DeadLettered _) = ''dead_lettered''"
| "metric_label (HO_Skipped why) =
     (if why = ''terminal'' then ''skipped_terminal'' else if why = ''stale_generation'' then ''skipped_stale'' else ''skipped_claimed'')"
| "metric_label (HO_NotDue _) = ''not_due''"
| "metric_label HO_Poison = ''poison''"
| "metric_label (HO_Failed _) = ''failed''"
| "metric_label HO_LostClaim = ''lost_claim''"

record ReapReport =
  rep_examined :: nat
  rep_abandoned :: nat
  rep_republished :: nat
  rep_dead_lettered :: nat
  rep_lost :: nat
  rep_failed :: nat

definition ReapReport_default :: ReapReport where
  "ReapReport_default = \<lparr> rep_examined = 0, rep_abandoned = 0, rep_republished = 0, rep_dead_lettered = 0, rep_lost = 0, rep_failed = 0 \<rparr>"

record Decision =
  dec_invocation :: Invocation
  dec_state :: DispatchState
  dec_next_attempt_at :: "Timestamp option"
  dec_error :: "InvocationError option"
  dec_counted :: bool
  dec_dead :: "DeadLetterReason option"

fun RepoError_to_string :: "RepoError \<Rightarrow> string" where
  "RepoError_to_string (NotFound what) = what @ '' not found''"
| "RepoError_to_string (Conflict what) = ''conflict: '' @ what"
| "RepoError_to_string (Refused what) = ''refused: '' @ what"
| "RepoError_to_string (Io err) = ''io: '' @ err"
| "RepoError_to_string (Serialization m) = ''serialization: '' @ m"
| "RepoError_to_string (Store_Failed m) = ''store: '' @ m"

section \<open>The dispatcher and its world\<close>

datatype QueueAct = Q_Ack | Q_Nak Duration | Q_Term

record AsyncDispatcher =
  dp_port :: async_port
  dp_config :: AsyncDispatchConfig
  dp_owner :: string
  dp_other :: "nat \<Rightarrow> (SqlEnv \<times> async_op) list"
  dp_env :: "nat \<Rightarrow> SqlEnv"
  dp_clock :: "nat \<Rightarrow> Timestamp"
  dp_ids :: "nat \<Rightarrow> DeadLetterId"
  dp_jitter :: "nat \<Rightarrow> nat"
  dp_fires :: "string \<Rightarrow> bool"
  dp_parse :: "string \<Rightarrow> string + InvokeEnvelope"
  dp_json :: "InvokeEnvelope \<Rightarrow> string + string"
  dp_input_json :: "string \<Rightarrow> string option"
  dp_sha256_hex :: "string \<Rightarrow> string"
  dp_rfc3339 :: "Timestamp \<Rightarrow> string"
  dp_deleted :: "FunctionId \<Rightarrow> bool"
  dp_resolve :: "Invocation \<Rightarrow> AppError + RevisionId"
  dp_objects :: "(ObjectRef \<Rightarrow> string + string) option"
  dp_run :: "Invocation \<Rightarrow> InvocationError + PayloadRef option \<times> u16 option"
  dp_queue_idle :: bool

record DispatchWorld =
  dw_db :: AsyncDb
  dw_budget :: RetryBudget
  dw_tick :: nat
  dw_acts :: "QueueAct list"
  dw_claim :: "(string \<times> nat) option"

type_synonym 'a action = "DispatchWorld \<Rightarrow> (AppError + 'a) \<times> DispatchWorld"

definition give :: "'a \<Rightarrow> 'a action" where
  "give x s = (Inr x, s)"

definition fail :: "AppError \<Rightarrow> 'a action" where
  "fail e s = (Inl e, s)"

definition act_bind :: "'a action \<Rightarrow> ('a \<Rightarrow> 'b action) \<Rightarrow> 'b action" where
  "act_bind m f s = (case m s of (Inl e, s) \<Rightarrow> (Inl e, s) | (Inr x, s) \<Rightarrow> f x s)"

definition db_write :: "AsyncDispatcher \<Rightarrow> (SqlEnv \<Rightarrow> AsyncDb \<Rightarrow> 'a sql_outcome) \<Rightarrow> 'a action" where
  "db_write d f s =
     (let t = dw_tick s; r = f (dp_env d t) (async_run (dp_port d) (dp_other d t) (dw_db s))
      in (map_err from_RepoError (fst r), s\<lparr> dw_db := snd r, dw_tick := t + 1 \<rparr>))"

definition db_read_raw :: "AsyncDispatcher \<Rightarrow> (SqlEnv \<Rightarrow> AsyncDb \<Rightarrow> RepoError + 'a) \<Rightarrow> (RepoError + 'a) action" where
  "db_read_raw d f s =
     (let t = dw_tick s; db = async_run (dp_port d) (dp_other d t) (dw_db s)
      in (Inr (f (dp_env d t) db), s\<lparr> dw_db := db, dw_tick := t + 1 \<rparr>))"

definition db_read :: "AsyncDispatcher \<Rightarrow> (SqlEnv \<Rightarrow> AsyncDb \<Rightarrow> RepoError + 'a) \<Rightarrow> 'a action" where
  "db_read d f = act_bind (db_read_raw d f) (\<lambda>r. case r of Inl e \<Rightarrow> fail (from_RepoError e) | Inr x \<Rightarrow> give x)"

definition sql_get :: "InvocationId \<Rightarrow> SqlEnv \<Rightarrow> AsyncDb \<Rightarrow> RepoError + Invocation option" where
  "sql_get i env = sql_read env (\<lambda>db. Inr (bt_get (as_invocations db) i))"

definition clock_now :: "AsyncDispatcher \<Rightarrow> Timestamp action" where
  "clock_now d s = (Inr (dp_clock d (dw_tick s)), s\<lparr> dw_tick := dw_tick s + 1 \<rparr>)"

definition next_dead_letter_id :: "AsyncDispatcher \<Rightarrow> DeadLetterId action" where
  "next_dead_letter_id d s = (Inr (dp_ids d (dw_tick s)), s\<lparr> dw_tick := dw_tick s + 1 \<rparr>)"

text \<open>The answer of the queue is ignored: a lost acknowledgement is a redelivery.\<close>

definition queue_act :: "QueueAct \<Rightarrow> unit action" where
  "queue_act a s = (Inr (), s\<lparr> dw_acts := dw_acts s @ [a] \<rparr>)"

definition take_retry :: "AsyncDispatcher \<Rightarrow> FunctionId \<Rightarrow> Timestamp \<Rightarrow> (Timestamp + unit) action" where
  "take_retry d f now s =
     (let r = rb_take (dp_config d) f now (dw_budget s) in (Inr (fst r), s\<lparr> dw_budget := snd r \<rparr>))"

definition note_claim :: "string \<Rightarrow> nat \<Rightarrow> unit action" where
  "note_claim owner attempts s = (Inr (), s\<lparr> dw_claim := Some (owner, attempts) \<rparr>)"

definition ack_as :: "HandleOutcome \<Rightarrow> HandleOutcome action" where
  "ack_as out = act_bind (queue_act Q_Ack) (\<lambda>_. give out)"

section \<open>Settlements\<close>

definition settle_failed :: "Invocation \<Rightarrow> InvocationError \<Rightarrow> Timestamp \<Rightarrow> Invocation" where
  "settle_failed i e now =
     (if err_class e = EC_OutcomeUnknown \<and> inv_status i = IS_Running
      then (case inv_mark_outcome_unknown i (err_message e) now of
              Inr i' \<Rightarrow> (case inv_status i' of
                          IS_OutcomeUnknown e' \<Rightarrow> i'\<lparr> inv_status := IS_OutcomeUnknown (e'\<lparr> err_type := err_type e \<rparr>) \<rparr>
                        | _ \<Rightarrow> i')
            | Inl _ \<Rightarrow> i)
      else if err_class e = EC_OutcomeUnknown \<or> err_class e = EC_Cancelled
      then (case inv_mark_failed i (InvocationError_new EC_PlatformError (err_type e) (err_message e)) now of
              Inr i' \<Rightarrow> i' | Inl _ \<Rightarrow> i)
      else (case inv_mark_failed i e now of Inr i' \<Rightarrow> i' | Inl _ \<Rightarrow> i))"

definition next_event :: "AsyncDispatcher \<Rightarrow> Invocation \<Rightarrow> DispatchRecord \<Rightarrow> Timestamp \<Rightarrow> OutboxEvent action" where
  "next_event d i r due =
     act_bind (db_read d (\<lambda>env. async_input env (inv_id i))) (\<lambda>input.
       case input of
         None \<Rightarrow> fail (AE_Platform ''the invocation has no stored input'')
       | Some input \<Rightarrow>
           let generation = dr_generation r + 1;
               envelope = \<lparr> ev_version = ENVELOPE_VERSION, ev_invocation_id = inv_id i, ev_tenant_id = inv_tenant_id i,
                 ev_function_id = inv_function_id i, ev_revision_id = inv_revision_id i, ev_event_kind = inv_event_kind i,
                 ev_input_digest = inv_input_digest i, ev_input_size_bytes = inv_input_size_bytes i,
                 ev_input_storage = ai_storage input, ev_accepted_at = inv_accepted_at i,
                 ev_queue_deadline = queue_deadline (inv_deadlines i), ev_trace_id = inv_trace_id i,
                 ev_generation = generation \<rparr>
           in case dp_json d envelope of
                Inl e \<Rightarrow> fail (AE_Platform (''envelope: '' @ e))
              | Inr payload \<Rightarrow> give ((OutboxEvent_new (inv_id i) (inv_tenant_id i) INVOKE_TOPIC payload due)\<lparr> ob_generation := generation \<rparr>))"

definition dead_letter_counts :: "DispatchRecord \<Rightarrow> bool \<Rightarrow> bool \<Rightarrow> nat \<times> nat" where
  "dead_letter_counts r counted claim =
     (if counted then (dr_attempts r, dr_deferrals r)
      else if claim then (dr_attempts r - 1, sat_add32 (dr_deferrals r) 1)
      else (dr_attempts r, sat_add32 (dr_deferrals r) 1))"

definition dead_letter_for ::
  "AsyncDispatcher \<Rightarrow> Invocation \<Rightarrow> DispatchRecord \<Rightarrow> DeadLetterReason \<Rightarrow> InvocationError option \<Rightarrow> bool \<Rightarrow> bool \<Rightarrow> DeadLetter action" where
  "dead_letter_for d i r reason error counted claim =
     act_bind (clock_now d) (\<lambda>now.
     act_bind (db_read d (\<lambda>env. async_input env (inv_id i))) (\<lambda>input.
     act_bind (next_dead_letter_id d) (\<lambda>k.
       give \<lparr> dl_id = k, dl_tenant_id = inv_tenant_id i, dl_function_id = Some (inv_function_id i),
              dl_invocation_id = Some (inv_id i), dl_revision_id = Some (inv_revision_id i), dl_reason = reason,
              dl_status = DLS_Open, dl_attempts = fst (dead_letter_counts r counted claim),
              dl_deferrals = snd (dead_letter_counts r counted claim), dl_last_error = error,
              dl_accepted_at = Some (inv_accepted_at i), dl_first_attempt_at = dr_first_attempt_at r,
              dl_last_attempt_at = dr_last_attempt_at r, dl_created_at = now,
              dl_input_digest = Some (inv_input_digest i), dl_input_size_bytes = Some (inv_input_size_bytes i),
              dl_input_storage = map_option ai_storage input, dl_message_id = None, dl_message_sequence = None,
              dl_detail = None, dl_redrive_count = 0, dl_redriven_at = None \<rparr>)))"

definition commit_decision :: "AsyncDispatcher \<Rightarrow> DispatchRecord \<Rightarrow> DispatchFence \<Rightarrow> Decision \<Rightarrow> SettleOutcome action" where
  "commit_decision d r fence dec =
     act_bind (clock_now d) (\<lambda>now.
     act_bind (case (dec_state dec, dec_next_attempt_at dec) of
                 (DSP_Scheduled, Some due) \<Rightarrow> act_bind (next_event d (dec_invocation dec) r due) (\<lambda>e. give (Some e))
               | _ \<Rightarrow> give None) (\<lambda>republish.
     act_bind (case dec_dead dec of
                 Some reason \<Rightarrow> act_bind (dead_letter_for d (dec_invocation dec) r reason (dec_error dec) (dec_counted dec) (from_claim fence))
                   (\<lambda>x. give (Some x))
               | None \<Rightarrow> give None) (\<lambda>dead.
       db_write d (\<lambda>env. settle_dispatch (ap_cfg (dp_port d)) env
         \<lparr> ds_fence = fence, ds_invocation = dec_invocation dec, ds_state = dec_state dec,
           ds_next_attempt_at = dec_next_attempt_at dec, ds_last_error = dec_error dec, ds_counted = dec_counted dec,
           ds_dead_letter = dead, ds_republish = republish, ds_now = now \<rparr>))))"

definition decision_outcome :: "AsyncDispatcher \<Rightarrow> Decision \<Rightarrow> HandleOutcome action" where
  "decision_outcome d dec =
     (case (dec_dead dec, dec_state dec) of
        (Some reason, _) \<Rightarrow> give (HO_DeadLettered reason)
      | (None, DSP_Scheduled) \<Rightarrow>
          (case dec_next_attempt_at dec of
             Some due \<Rightarrow> give (HO_Rescheduled due (dec_counted dec))
           | None \<Rightarrow> act_bind (clock_now d) (\<lambda>now. give (HO_Rescheduled now (dec_counted dec))))
      | (None, _) \<Rightarrow> give (HO_Completed (IS_name (inv_status (dec_invocation dec)))))"

definition commit_and_ack :: "AsyncDispatcher \<Rightarrow> DispatchRecord \<Rightarrow> DispatchFence \<Rightarrow> Decision \<Rightarrow> HandleOutcome action" where
  "commit_and_ack d r fence dec =
     act_bind (decision_outcome d dec) (\<lambda>out.
     act_bind (commit_decision d r fence dec) (\<lambda>res.
       case res of
         SO_Lost _ \<Rightarrow> ack_as HO_LostClaim
       | SO_Committed \<Rightarrow>
           if dp_fires d ''dispatch.after_commit''
           then give (HO_Failed ''failpoint dispatch.after_commit: committed, the ACK was lost'')
           else ack_as out))"

definition dead_letter_and_ack ::
  "AsyncDispatcher \<Rightarrow> Invocation \<Rightarrow> DispatchRecord \<Rightarrow> DispatchFence \<Rightarrow> DeadLetterReason \<Rightarrow> InvocationError \<Rightarrow> bool \<Rightarrow> HandleOutcome action" where
  "dead_letter_and_ack d i r fence reason error counted =
     act_bind (clock_now d) (\<lambda>now.
       commit_and_ack d r fence \<lparr> dec_invocation = settle_failed i error now, dec_state = DSP_Dead, dec_next_attempt_at = None,
         dec_error = Some error, dec_counted = counted, dec_dead = Some reason \<rparr>)"

definition schedule_and_ack ::
  "AsyncDispatcher \<Rightarrow> Invocation \<Rightarrow> DispatchRecord \<Rightarrow> DispatchFence \<Rightarrow> RetryPolicy \<Rightarrow> InvocationError \<Rightarrow> bool \<Rightarrow> Timestamp option
     \<Rightarrow> HandleOutcome action" where
  "schedule_and_ack d i r fence policy error counted not_before =
     act_bind (clock_now d) (\<lambda>now.
       let attempts = (if from_claim fence \<and> \<not> counted then dr_attempts r - 1 else dr_attempts r)
       in if counted \<and> attempts \<ge> pol_max_attempts policy
          then dead_letter_and_ack d i r fence DLR_AttemptsExhausted error True
          else let tries = (if counted then attempts else sat_add32 (dr_deferrals r) 1);
                   delay = backoff (dp_config d) (max tries 1) (dp_jitter d);
                   next = (case not_before of Some due \<Rightarrow> max (now + delay) due | None \<Rightarrow> now + delay)
               in if next \<ge> expires_at policy i then dead_letter_and_ack d i r fence DLR_Expired error counted
                  else (case inv_mark_requeued i of
                          Inl e \<Rightarrow> fail (AE_Platform (''cannot requeue invocation '' @ as_str (inv_id i) @ '': '' @ DomainError_to_string e))
                        | Inr i' \<Rightarrow>
                            if dp_fires d ''dispatch.before_retry_commit'' then give (HO_Failed ''failpoint dispatch.before_retry_commit'')
                            else commit_and_ack d r fence \<lparr> dec_invocation = i', dec_state = DSP_Scheduled, dec_next_attempt_at = Some next,
                                   dec_error = Some error, dec_counted = counted, dec_dead = None \<rparr>))"

definition defer_and_ack ::
  "AsyncDispatcher \<Rightarrow> Invocation \<Rightarrow> DispatchRecord \<Rightarrow> DispatchFence \<Rightarrow> RetryPolicy \<Rightarrow> InvocationError \<Rightarrow> HandleOutcome action" where
  "defer_and_ack d i r fence policy error = schedule_and_ack d i r fence policy error False None"

definition complete_and_ack ::
  "AsyncDispatcher \<Rightarrow> Invocation \<Rightarrow> DispatchRecord \<Rightarrow> DispatchFence \<Rightarrow> PayloadRef option \<Rightarrow> u16 option \<Rightarrow> HandleOutcome action" where
  "complete_and_ack d i r fence output http_status =
     act_bind (clock_now d) (\<lambda>now.
       case inv_mark_succeeded i output http_status now of
         Inl e \<Rightarrow> schedule_and_ack d i r fence (policy_for (dp_config d) (inv_function_id i))
                    (InvocationError_new EC_OutcomeUnknown ''Host.OutcomeUnknown''
                       (''the run succeeded but could not be recorded: '' @ DomainError_to_string e)) True None
       | Inr i' \<Rightarrow> commit_and_ack d r fence \<lparr> dec_invocation = i', dec_state = DSP_Done, dec_next_attempt_at = None,
                    dec_error = None, dec_counted = True, dec_dead = None \<rparr>)"

definition cancel_and_ack :: "AsyncDispatcher \<Rightarrow> Invocation \<Rightarrow> DispatchFence \<Rightarrow> HandleOutcome action" where
  "cancel_and_ack d i fence =
     act_bind (clock_now d) (\<lambda>now.
       let i' = (case inv_mark_cancelled i now of Inr i' \<Rightarrow> i' | Inl _ \<Rightarrow> i)
       in act_bind (db_read d (\<lambda>env. dispatch_record env (inv_id i'))) (\<lambda>r.
            commit_and_ack d (case r of Some r \<Rightarrow> r | None \<Rightarrow> dr_unclaimed i') fence
              \<lparr> dec_invocation = i', dec_state = DSP_Done, dec_next_attempt_at = None, dec_error = None,
                dec_counted = True, dec_dead = None \<rparr>))"

section \<open>One delivery\<close>

definition pre_run_dead_end ::
  "AsyncDispatcher \<Rightarrow> Invocation \<Rightarrow> DispatchRecord \<Rightarrow> RetryPolicy \<Rightarrow> Timestamp \<Rightarrow> (DeadLetterReason \<times> InvocationError) option" where
  "pre_run_dead_end d i r policy now =
     (if now \<ge> expires_at policy i
      then Some (DLR_Expired, case dr_last_error r of Some e \<Rightarrow> e | None \<Rightarrow>
             InvocationError_new EC_QueueTimeout EVENT_EXPIRED
               (''the event is older than its maximum age ('' @ show_nat (nat (pol_max_event_age policy div 1000000000))
                @ '' s) or queue deadline''))
      else if dr_attempts r \<ge> pol_max_attempts policy
      then Some (DLR_AttemptsExhausted, case dr_last_error r of Some e \<Rightarrow> e | None \<Rightarrow>
             InvocationError_new EC_OutcomeUnknown RUN_ABANDONED ''every attempt ended without a recorded result'')
      else if dp_deleted d (inv_function_id i)
      then Some (DLR_FunctionDeleted, InvocationError_new EC_PlatformError FUNCTION_DELETED
             ''the function was deleted before the invocation could run'')
      else None)"

fun resolve_error :: "RevisionId \<Rightarrow> AppError \<Rightarrow> InvocationError" where
  "resolve_error pinned (AE_FunctionDeleted m) = InvocationError_new EC_PlatformError FUNCTION_DELETED m"
| "resolve_error pinned (AE_NotFound m) = InvocationError_new EC_PlatformError REVISION_UNAVAILABLE
     (''the pinned revision '' @ as_str pinned @ '' cannot run: '' @ m)"
| "resolve_error pinned (AE_RevisionNotReady m) = InvocationError_new EC_PlatformError REVISION_UNAVAILABLE
     (''the pinned revision '' @ as_str pinned @ '' cannot run: '' @ m)"
| "resolve_error pinned (AE_Control kind m) = InvocationError_new EC_PlatformError (ControlError_error_type kind) m"
| "resolve_error pinned other = InvocationError_new EC_PlatformError (ControlError_error_type StoreUnavailable) (AppError_to_string other)"

definition resolve_pinned :: "AsyncDispatcher \<Rightarrow> Invocation \<Rightarrow> InvocationError + unit" where
  "resolve_pinned d i =
     (case dp_resolve d i of
        Inl e \<Rightarrow> Inl (resolve_error (inv_revision_id i) e)
      | Inr found \<Rightarrow> if found = inv_revision_id i then Inr ()
                   else Inl (InvocationError_new EC_PlatformError REVISION_UNAVAILABLE ''the pinned revision did not resolve''))"

definition read_object :: "AsyncDispatcher \<Rightarrow> Invocation \<Rightarrow> ObjectRef \<Rightarrow> InvocationError + string" where
  "read_object d i object =
     (if scope_tenant_id (obj_scope object) \<noteq> inv_tenant_id i
      then Inl (InvocationError_new EC_PlatformError INPUT_CORRUPT (''the input object is not the invocation'' @ [CHR 0x27] @ ''s''))
      else case dp_objects d of
             None \<Rightarrow> Inl (InvocationError_new EC_PlatformError INPUT_UNAVAILABLE
                       ''the input is in the object store, but none is configured'')
           | Some get \<Rightarrow>
               (case get object of
                  Inr bytes \<Rightarrow> Inr bytes
                | Inl code \<Rightarrow> Inl (InvocationError_new EC_PlatformError INPUT_UNAVAILABLE (''reading the input object ('' @ code @ '')''))))"

definition check_input :: "AsyncDispatcher \<Rightarrow> Invocation \<Rightarrow> string \<Rightarrow> InvocationError + unit" where
  "check_input d i bytes =
     (if Sha256Digest_of_bytes (dp_sha256_hex d) bytes \<noteq> inv_input_digest i
      then Inl (InvocationError_new EC_PlatformError INPUT_CORRUPT ''the stored input does not match the accepted digest'')
      else case dp_input_json d bytes of
             Some e \<Rightarrow> Inl (InvocationError_new EC_PlatformError INVALID_INPUT (''the input is not a JSON event: '' @ e))
           | None \<Rightarrow> Inr ())"

definition read_input :: "AsyncDispatcher \<Rightarrow> Invocation \<Rightarrow> (InvocationError + unit) action" where
  "read_input d i =
     act_bind (db_read_raw d (\<lambda>env. async_input env (inv_id i))) (\<lambda>r. give (
       case r of
         Inl e \<Rightarrow> Inl (InvocationError_new EC_PlatformError INPUT_UNAVAILABLE (''reading the input: '' @ RepoError_to_string e))
       | Inr (Some input) \<Rightarrow>
           if ai_tenant_id input = inv_tenant_id i
           then and_then (case ai_body input of AIB_Inline bytes \<Rightarrow> Inr bytes | AIB_Object object \<Rightarrow> read_object d i object)
                  (check_input d i)
           else Inl (InvocationError_new EC_PlatformError INPUT_CORRUPT ''the invocation has no stored input'')
       | Inr None \<Rightarrow> Inl (InvocationError_new EC_PlatformError INPUT_CORRUPT ''the invocation has no stored input'')))"

definition poison :: "AsyncDispatcher \<Rightarrow> Delivery \<Rightarrow> string \<Rightarrow> HandleOutcome action" where
  "poison d dv detail =
     act_bind (next_dead_letter_id d) (\<lambda>k.
     act_bind (clock_now d) (\<lambda>now.
     act_bind (db_write d (\<lambda>env. record_poison env
       \<lparr> dl_id = k, dl_tenant_id = dv_tenant_id dv, dl_function_id = None, dl_invocation_id = None, dl_revision_id = None,
         dl_reason = DLR_Poison, dl_status = DLS_Open, dl_attempts = 0, dl_deferrals = 0, dl_last_error = None,
         dl_accepted_at = None, dl_first_attempt_at = None, dl_last_attempt_at = None, dl_created_at = now,
         dl_input_digest = Some (Sha256Digest_of_bytes (dp_sha256_hex d) (dv_payload dv)),
         dl_input_size_bytes = Some (of_nat (length (dv_payload dv))), dl_input_storage = None,
         dl_message_id = Some (dv_message_id dv), dl_message_sequence = Some (dv_sequence dv), dl_detail = Some detail,
         dl_redrive_count = 0, dl_redriven_at = None \<rparr>)) (\<lambda>_.
     act_bind (queue_act Q_Term) (\<lambda>_. give HO_Poison))))"

text \<open>Steps 5 to 7, after the claim: the input, the run, the settlement.\<close>

definition handle_claimed ::
  "AsyncDispatcher \<Rightarrow> Invocation \<Rightarrow> DispatchRecord \<Rightarrow> RetryPolicy \<Rightarrow> HandleOutcome action" where
  "handle_claimed d i r policy =
     (let fence = DF_Claim (dp_owner d) (dr_attempts r)
      in if dp_fires d ''dispatch.after_claim'' then give (HO_Failed ''failpoint dispatch.after_claim'')
         else act_bind (read_input d i) (\<lambda>payload.
           case payload of
             Inl error \<Rightarrow>
               (case classify error of
                  DSN_DeadLetter reason \<Rightarrow> dead_letter_and_ack d i r fence reason error True
                | _ \<Rightarrow> defer_and_ack d i r fence policy error)
           | Inr _ \<Rightarrow>
               act_bind (db_read d (\<lambda>env. sql_read env (\<lambda>_. Inr ()))) (\<lambda>_.
                 let outcome = dp_run d i
                 in if dp_fires d ''dispatch.before_commit''
                    then give (HO_Failed (''failpoint dispatch.before_commit: the run'' @ [CHR 0x27]
                           @ ''s side effects happened, nothing is committed''))
                    else act_bind (db_read d (sql_get (inv_id i))) (\<lambda>current.
                      case current of
                        None \<Rightarrow> fail (AE_NotFound ''invocation not found'')
                      | Some current \<Rightarrow>
                          (case outcome of
                             Inr (output, http_status) \<Rightarrow> complete_and_ack d current r fence output http_status
                           | Inl error \<Rightarrow>
                               (case classify error of
                                  DSN_Cancelled \<Rightarrow> cancel_and_ack d current fence
                                | DSN_DeadLetter reason \<Rightarrow> dead_letter_and_ack d current r fence reason error True
                                | DSN_Defer \<Rightarrow> defer_and_ack d current r fence policy error
                                | DSN_Retry \<Rightarrow> schedule_and_ack d current r fence policy error True None))))))"

definition nak_due :: "Timestamp \<Rightarrow> Timestamp \<Rightarrow> HandleOutcome action" where
  "nak_due now due = act_bind (queue_act (Q_Nak (if due < now then 0 else due - now))) (\<lambda>_. give (HO_NotDue due))"

definition claim_and_run ::
  "AsyncDispatcher \<Rightarrow> InvokeEnvelope \<Rightarrow> Invocation \<Rightarrow> RetryPolicy \<Rightarrow> Timestamp \<Rightarrow> HandleOutcome action" where
  "claim_and_run d ev i policy now =
     act_bind (db_write d (\<lambda>env. claim_dispatch env
       \<lparr> cr_invocation_id = inv_id i, cr_owner = dp_owner d, cr_generation = ev_generation ev, cr_now = now,
         cr_ttl = claim_ttl (dp_config d) \<rparr>)) (\<lambda>claimed.
       case claimed of
         CO_Claimed i r \<Rightarrow>
           act_bind (note_claim (dp_owner d) (dr_attempts r)) (\<lambda>_. handle_claimed d i r policy)
       | CO_Terminal _ \<Rightarrow> ack_as (HO_Skipped ''terminal'')
       | CO_Stale _ \<Rightarrow> ack_as (HO_Skipped ''stale_generation'')
       | CO_Held _ _ \<Rightarrow> ack_as (HO_Skipped ''claimed'')
       | CO_NotDue due \<Rightarrow> nak_due now due)"

text \<open>Step 4: what is checked before anything runs.\<close>

definition handle_due ::
  "AsyncDispatcher \<Rightarrow> InvokeEnvelope \<Rightarrow> Invocation \<Rightarrow> DispatchRecord \<Rightarrow> Timestamp \<Rightarrow> HandleOutcome action" where
  "handle_due d ev i r now =
     (let policy = policy_for (dp_config d) (inv_function_id i); fence = DF_Unclaimed (dr_generation r)
      in case pre_run_dead_end d i r policy now of
           Some (reason, error) \<Rightarrow> dead_letter_and_ack d i r fence reason error True
         | None \<Rightarrow>
             (case resolve_pinned d i of
                Inl error \<Rightarrow>
                  (case classify error of
                     DSN_DeadLetter reason \<Rightarrow> dead_letter_and_ack d i r fence reason error True
                   | _ \<Rightarrow> defer_and_ack d i r fence policy error)
              | Inr _ \<Rightarrow>
                  if dr_attempts r > 0
                  then act_bind (take_retry d (inv_function_id i) now) (\<lambda>taken.
                    case taken of
                      Inr _ \<Rightarrow> claim_and_run d ev i policy now
                    | Inl next_window \<Rightarrow>
                        schedule_and_ack d i r fence policy
                          (InvocationError_new EC_PlatformError RETRY_BUDGET_EXHAUSTED
                            (''the retry budget of function '' @ as_str (inv_function_id i) @ '' (''
                             @ show_nat (adc_retry_budget (dp_config d)) @ '' per ''
                             @ show_nat (adc_retry_budget_window_seconds (dp_config d)) @ '' s) is spent until ''
                             @ dp_rfc3339 d next_window)) False (Some next_window))
                  else claim_and_run d ev i policy now))"

text \<open>Steps 2 and 3: an invocation that is already final, another generation, a live claim, a later schedule.\<close>

definition handle_known :: "AsyncDispatcher \<Rightarrow> InvokeEnvelope \<Rightarrow> Invocation \<Rightarrow> HandleOutcome action" where
  "handle_known d ev i =
     (if IS_is_terminal (inv_status i) then ack_as (HO_Skipped ''terminal'')
      else act_bind (clock_now d) (\<lambda>now.
           act_bind (db_read d (\<lambda>env. dispatch_record env (inv_id i))) (\<lambda>found.
             let r = (case found of Some r \<Rightarrow> r | None \<Rightarrow> dr_unclaimed i)
             in if ev_generation ev \<noteq> dr_generation r then ack_as (HO_Skipped ''stale_generation'')
                else if claim_live r now then ack_as (HO_Skipped ''claimed'')
                else (case (if dr_state r = DSP_Scheduled then dr_next_attempt_at r else None) of
                        Some due \<Rightarrow> if due > now then nak_due now due else handle_due d ev i r now
                      | None \<Rightarrow> handle_due d ev i r now))))"

definition NO_INVOCATION :: string where
  "NO_INVOCATION = ''the event names no invocation of this tenant''"

definition handle_inner :: "AsyncDispatcher \<Rightarrow> Delivery \<Rightarrow> HandleOutcome action" where
  "handle_inner d dv =
     (case dp_parse d (dv_payload dv) of
        Inl e \<Rightarrow> poison d dv (''the envelope is not decodable: '' @ e)
      | Inr ev \<Rightarrow>
          if ev_version ev \<noteq> ENVELOPE_VERSION then poison d dv (''unsupported envelope version '' @ show_u (ev_version ev))
          else if message_id_for (ev_invocation_id ev) (ev_generation ev) \<noteq> dv_message_id dv \<or> ev_tenant_id ev \<noteq> dv_tenant_id dv
          then poison d dv ''the envelope does not match its message id or routing tenant''
          else act_bind (db_read d (sql_get (ev_invocation_id ev))) (\<lambda>found.
                 case found of
                   None \<Rightarrow> poison d dv NO_INVOCATION
                 | Some i \<Rightarrow>
                     if inv_tenant_id i \<noteq> dv_tenant_id dv \<or> inv_function_id i \<noteq> ev_function_id ev
                        \<or> inv_revision_id i \<noteq> ev_revision_id ev \<or> inv_input_digest i \<noteq> ev_input_digest ev \<or> inv_mode i \<noteq> Async
                     then poison d dv NO_INVOCATION
                     else handle_known d ev i))"

definition handle :: "AsyncDispatcher \<Rightarrow> Delivery \<Rightarrow> DispatchWorld \<Rightarrow> HandleOutcome \<times> DispatchWorld" where
  "handle d dv s =
     (case handle_inner d dv (s\<lparr> dw_claim := None \<rparr>) of
        (Inr out, s) \<Rightarrow> (out, s)
      | (Inl e, s) \<Rightarrow>
          (HO_Failed (AppError_to_string e),
           s\<lparr> dw_acts := dw_acts s @ [Q_Nak (int (adc_backoff_initial_ms (dp_config d)) * 1000000)] \<rparr>))"

section \<open>The reaper\<close>

definition reap_error :: "DispatchRecord \<Rightarrow> bool \<Rightarrow> DeadLetterReason \<times> InvocationError" where
  "reap_error r expired =
     (if expired
      then (DLR_Expired, case dr_last_error r of Some e \<Rightarrow> e | None \<Rightarrow>
              InvocationError_new EC_QueueTimeout EVENT_EXPIRED ''the event is older than its maximum age or queue deadline'')
      else (DLR_AttemptsExhausted, InvocationError_new EC_OutcomeUnknown RUN_ABANDONED
              ''the dispatcher running this attempt stopped before recording a result; the handler may have run''))"

text \<open>What the reaper decides for a candidate, and which counter it moves; \<open>None\<close> leaves the candidate alone.\<close>

definition reap_decision ::
  "AsyncDispatcher \<Rightarrow> Timestamp \<Rightarrow> DispatchCandidate \<Rightarrow> (Decision \<times> (ReapReport \<Rightarrow> ReapReport)) option" where
  "reap_decision d now c =
     (let i = dc_invocation c; r = dc_record c; policy = policy_for (dp_config d) (inv_function_id i);
          abandoned = (dr_state r = DSP_Running \<and> \<not> claim_live r now); expired = (now \<ge> expires_at policy i);
          (reason, error) = reap_error r expired
      in if abandoned \<or> expired
         then if abandoned \<and> reason = DLR_AttemptsExhausted \<and> dr_attempts r < pol_max_attempts policy
              then (case inv_mark_requeued i of
                      Inl _ \<Rightarrow> None
                    | Inr i' \<Rightarrow>
                        Some (\<lparr> dec_invocation = i', dec_state = DSP_Scheduled,
                                dec_next_attempt_at = Some (now + backoff (dp_config d) (max (dr_attempts r) 1) (dp_jitter d)),
                                dec_error = Some error, dec_counted = True, dec_dead = None \<rparr>,
                              \<lambda>rep. rep\<lparr> rep_abandoned := rep_abandoned rep + 1 \<rparr>))
              else Some (\<lparr> dec_invocation = settle_failed i error now, dec_state = DSP_Dead, dec_next_attempt_at = None,
                           dec_error = Some error, dec_counted = True, dec_dead = Some reason \<rparr>,
                         \<lambda>rep. rep\<lparr> rep_dead_lettered := rep_dead_lettered rep + 1 \<rparr>)
         else if opt_is_some_and (\<lambda>e. ob_sent_at e = None) (dc_outbox c) \<or> \<not> dp_queue_idle d then None
         else (case inv_mark_requeued i of
                 Inl _ \<Rightarrow> None
               | Inr i' \<Rightarrow>
                   Some (\<lparr> dec_invocation = i', dec_state = DSP_Scheduled, dec_next_attempt_at = Some now, dec_error = None,
                           dec_counted = True, dec_dead = None \<rparr>,
                         \<lambda>rep. rep\<lparr> rep_republished := rep_republished rep + 1 \<rparr>)))"

definition reap_one :: "AsyncDispatcher \<Rightarrow> Timestamp \<Rightarrow> DispatchCandidate \<Rightarrow> ReapReport \<times> DispatchWorld \<Rightarrow> ReapReport \<times> DispatchWorld" where
  "reap_one d now c = (\<lambda>(rep, s).
     let rep = rep\<lparr> rep_examined := rep_examined rep + 1 \<rparr>
     in case reap_decision d now c of
          None \<Rightarrow> (rep, s)
        | Some (dec, count) \<Rightarrow>
            (case commit_decision d (dc_record c) (DF_Unclaimed (dr_generation (dc_record c))) dec s of
               (Inr SO_Committed, s) \<Rightarrow> (count rep, s)
             | (Inr (SO_Lost _), s) \<Rightarrow> (let rep = count rep in (rep\<lparr> rep_lost := rep_lost rep + 1 \<rparr>, s))
             | (Inl _, s) \<Rightarrow> (let rep = count rep in (rep\<lparr> rep_failed := rep_failed rep + 1 \<rparr>, s))))"

definition reap :: "AsyncDispatcher \<Rightarrow> DispatchWorld \<Rightarrow> ReapReport \<times> DispatchWorld" where
  "reap d s =
     (let now = dp_clock d (dw_tick s); s = s\<lparr> dw_tick := dw_tick s + 1 \<rparr>
      in case db_read_raw d (\<lambda>env. dispatch_candidates env now (now - stall_timeout (dp_config d))
                (now - min_event_age (dp_config d)) 256) s of
           (Inr (Inr cs), s) \<Rightarrow> fold (reap_one d now) cs (ReapReport_default, s)
         | (_, s) \<Rightarrow> (ReapReport_default\<lparr> rep_failed := 1 \<rparr>, s))"

end
