(* ===== verification/Async_Delivery.thy ===== *)
theory Async_Delivery
  imports Async_Dispatch
begin

text \<open>
  What handling a delivery leaves behind: the message is acknowledged only when the ledger has recorded
  what happens next, and each outcome says what it has recorded.
\<close>

section \<open>What a committed settlement wrote\<close>

lemma insert_dead_letter_there:
  assumes "insert_dead_letter env d db = Inr (b, db')"
  shows "\<exists>k e. bt_get (as_dead_letters db') k = Some e \<and> origin_key e = origin_key d"
proof (cases "list_ex (\<lambda>e. origin_key e = origin_key d) (bt_values (as_dead_letters db))")
  case True
  then have "db' = db" using assms by (simp add: insert_dead_letter_def)
  then show ?thesis using True unfolding list_ex_iff by (metis bt_values_iff)
next
  case False
  then show ?thesis using assms by (intro exI [of _ "dl_id d"] exI [of _ d]) (auto simp: insert_dead_letter_def split: if_splits)
qed

lemma settle_tx_wrote:
  assumes "settle_tx cfg env st db = Inr (SO_Committed, db')"
  shows "ds_republish st = Some e \<Longrightarrow> bt_get (as_outbox db') (inv_id (ds_invocation st)) = Some (new_outbox_row e)"
    and "ds_dead_letter st \<noteq> None \<Longrightarrow>
           \<exists>k d. bt_get (as_dead_letters db') k = Some d \<and> origin_key d = ''inv:'' @ as_str (inv_id (ds_invocation st))"
proof -
  let ?i = "ds_invocation st"
  obtain g a b c r where b: "settle_outbox env st g a = Inr b" and c: "write_record r b = Inr c"
      and d: "settle_dead_letter env st c = Inr db'"
    using assms by (auto simp: settle_tx_def Let_def split: option.splits if_splits)
  note eff = write_record_effect [OF c] settle_dead_letter_effect [OF d]
  show "bt_get (as_outbox db') (inv_id ?i) = Some (new_outbox_row e)" if "ds_republish st = Some e"
    using b that eff by (auto simp: settle_outbox_def Let_def split: if_splits dest!: insert_outbox_effect(1))
  show "\<exists>k d. bt_get (as_dead_letters db') k = Some d \<and> origin_key d = ''inv:'' @ as_str (inv_id ?i)"
    if letter: "ds_dead_letter st \<noteq> None"
  proof -
    obtain x y where x: "ds_dead_letter st = Some x" "insert_dead_letter env x c = Inr (y, db')"
        "dl_invocation_id x = Some (inv_id ?i)"
      using d letter by (auto simp: settle_dead_letter_def split: if_splits)
    have "\<exists>k e. bt_get (as_dead_letters db') k = Some e \<and> origin_key e = origin_key x"
      by (rule insert_dead_letter_there [OF x(2)])
    then show ?thesis using x(3) by (simp add: origin_key_def)
  qed
qed

section \<open>Outcomes and the message\<close>

text \<open>The reasons the dispatcher gives.\<close>

definition run_reasons :: "DeadLetterReason set" where
  "run_reasons = {DLR_NonRetryable, DLR_AttemptsExhausted, DLR_Expired, DLR_FunctionDeleted}"

text \<open>
  Somebody else has the invocation: it is final, or its dispatch record is not where this delivery left
  it.  A handler without a claim finds another generation or a claim; one with the claim \<open>(owner, n)\<close> finds
  that the record does not carry this claim any more.
\<close>

definition taken_over :: "InvokeEnvelope \<Rightarrow> (string \<times> nat) option \<Rightarrow> AsyncDb \<Rightarrow> bool" where
  "taken_over ev c db \<longleftrightarrow>
     (\<exists>i. bt_get (as_invocations db) (ev_invocation_id ev) = Some i
        \<and> (IS_is_terminal (inv_status i)
           \<or> (let r = record_or_unclaimed db i
              in case c of
                   None \<Rightarrow> dr_generation r \<noteq> ev_generation ev \<or> (dr_state r = DSP_Running \<and> dr_claimed_by r \<noteq> None)
                 | Some (owner, n) \<Rightarrow> dr_state r \<noteq> DSP_Running \<or> dr_claimed_by r \<noteq> Some owner \<or> dr_attempts r \<noteq> n)))"

text \<open>What the ledger says when a delivery was answered with \<open>out\<close>; \<open>c\<close> is the claim the handler was granted.\<close>

definition recorded :: "InvokeEnvelope \<Rightarrow> (string \<times> nat) option \<Rightarrow> HandleOutcome \<Rightarrow> AsyncDb \<Rightarrow> bool" where
  "recorded ev c out db =
     (let k = ev_invocation_id ev in
      case out of
        HO_Completed name \<Rightarrow>
          (\<exists>i. bt_get (as_invocations db) k = Some i \<and> IS_is_terminal (inv_status i) \<and> IS_name (inv_status i) = name)
      | HO_DeadLettered reason \<Rightarrow>
          reason \<in> run_reasons \<and> (\<exists>i. bt_get (as_invocations db) k = Some i \<and> IS_is_terminal (inv_status i))
          \<and> (\<exists>x d. bt_get (as_dead_letters db) x = Some d \<and> origin_key d = ''inv:'' @ as_str k)
      | HO_Rescheduled due counted \<Rightarrow>
          (\<exists>i r e. bt_get (as_invocations db) k = Some i \<and> \<not> IS_is_terminal (inv_status i) \<and> due < queue_deadline (inv_deadlines i)
             \<and> bt_get (as_dispatch db) k = Some r \<and> dr_state r = DSP_Scheduled \<and> dr_next_attempt_at r = Some due
             \<and> bt_get (as_outbox db) k = Some e \<and> ob_sent_at e = None \<and> ob_generation e = dr_generation r)
      | HO_Skipped why \<Rightarrow>
          (\<exists>i. bt_get (as_invocations db) k = Some i
             \<and> (why = ''terminal'' \<and> IS_is_terminal (inv_status i)
                \<or> why = ''stale_generation'' \<and> dr_generation (record_or_unclaimed db i) \<noteq> ev_generation ev
                \<or> why = ''claimed'' \<and> dr_state (record_or_unclaimed db i) = DSP_Running \<and> dr_claimed_by (record_or_unclaimed db i) \<noteq> None))
      | HO_LostClaim \<Rightarrow> taken_over ev c db
      | HO_Poison \<Rightarrow> False
      | HO_NotDue _ \<Rightarrow> True
      | HO_Failed _ \<Rightarrow> True)"

fun acts_for :: "HandleOutcome \<Rightarrow> QueueAct list \<Rightarrow> bool" where
  "acts_for (HO_NotDue _) as \<longleftrightarrow> (\<exists>t. as = [Q_Nak t])"
| "acts_for HO_Poison as \<longleftrightarrow> as = [Q_Term]"
| "acts_for (HO_Failed _) as \<longleftrightarrow> as = []"
| "acts_for _ as \<longleftrightarrow> as = [Q_Ack]"

text \<open>
  An action that starts with the claim \<open>c\<close> in a state of \<open>P\<close> and ends with an outcome, the message answered
  as it has to be and the ledger saying so; with an error the message is not answered.
\<close>

definition answered :: "InvokeEnvelope \<Rightarrow> DispatchWorld \<Rightarrow> AppError + HandleOutcome \<Rightarrow> DispatchWorld \<Rightarrow> bool" where
  "answered ev s r s' \<longleftrightarrow> keys_ok (dw_db s')
     \<and> (\<exists>as. dw_acts s' = dw_acts s @ as
            \<and> (case r of Inl _ \<Rightarrow> as = [] | Inr out \<Rightarrow> acts_for out as \<and> recorded ev (dw_claim s') out (dw_db s')))"

definition settles :: "(string \<times> nat) option \<Rightarrow> (DispatchWorld \<Rightarrow> bool) \<Rightarrow> InvokeEnvelope \<Rightarrow> HandleOutcome action \<Rightarrow> bool" where
  "settles c P ev m \<longleftrightarrow> (\<forall>s r s'. keys_ok (dw_db s) \<and> dw_claim s = c \<and> P s \<and> m s = (r, s') \<longrightarrow> answered ev s r s')"

abbreviation settles_all :: "(string \<times> nat) option \<Rightarrow> InvokeEnvelope \<Rightarrow> HandleOutcome action \<Rightarrow> bool" where
  "settles_all c \<equiv> settles c (\<lambda>_. True)"

text \<open>An action that leaves the message, the claim and the keys alone.\<close>

definition silent :: "'a action \<Rightarrow> bool" where
  "silent m \<longleftrightarrow> (\<forall>s r s'. keys_ok (dw_db s) \<and> m s = (r, s') \<longrightarrow>
     keys_ok (dw_db s') \<and> dw_acts s' = dw_acts s \<and> dw_claim s' = dw_claim s)"

lemma act_bind_cases:
  assumes "act_bind m f s = (r, s')"
  obtains (fails) e where "m s = (Inl e, s')" "r = Inl e" | (goes) x t where "m s = (Inr x, t)" "f x t = (r, s')"
  using assms by (cases "m s"; cases "fst (m s)") (auto simp: act_bind_def)

lemma act_bind_give: "act_bind (give x) f = f x"
  by (simp add: act_bind_def give_def fun_eq_iff)

lemma silentD:
  "\<lbrakk>silent m; keys_ok (dw_db s); m s = (r, s')\<rbrakk> \<Longrightarrow>
     keys_ok (dw_db s') \<and> dw_acts s' = dw_acts s \<and> dw_claim s' = dw_claim s"
  unfolding silent_def by blast

lemma settlesD: "\<lbrakk>settles c P ev m; keys_ok (dw_db s); dw_claim s = c; P s; m s = (r, s')\<rbrakk> \<Longrightarrow> answered ev s r s'"
  unfolding settles_def by blast

lemma settlesI:
  "(\<And>s r s'. \<lbrakk>keys_ok (dw_db s); dw_claim s = c; P s; m s = (r, s')\<rbrakk> \<Longrightarrow> answered ev s r s') \<Longrightarrow> settles c P ev m"
  unfolding settles_def by blast

text \<open>What a silent action has read is known to what follows.\<close>

lemma settles_bind_post:
  assumes m: "silent m" and post: "\<And>s x t. \<lbrakk>keys_ok (dw_db s); P s; m s = (Inr x, t)\<rbrakk> \<Longrightarrow> Q x t"
    and f: "\<And>x. settles c (Q x) ev (f x)"
  shows "settles c P ev (act_bind m f)"
proof (rule settlesI)
  fix s r s' assume ok: "keys_ok (dw_db s)" "P s" and c: "dw_claim s = c" and run: "act_bind m f s = (r, s')"
  from run show "answered ev s r s'"
  proof (cases rule: act_bind_cases)
    case (fails e)
    then show ?thesis using silentD [OF m ok(1)] by (fastforce simp: answered_def)
  next
    case (goes x t)
    have t: "keys_ok (dw_db t)" "dw_acts t = dw_acts s" "dw_claim t = c" using silentD [OF m ok(1) goes(1)] c by auto
    show ?thesis using settlesD [OF f t(1,3) post [OF ok goes(1)] goes(2)] t(2) by (simp add: answered_def)
  qed
qed

lemma settles_bind: "silent m \<Longrightarrow> (\<And>x. settles_all c ev (f x)) \<Longrightarrow> settles c P ev (act_bind m f)"
  by (rule settles_bind_post) simp_all

text \<open>A claim that was granted is the claim of what follows.\<close>

lemma settles_note: "settles_all (Some (owner, n)) ev m \<Longrightarrow> settles c P ev (act_bind (note_claim owner n) (\<lambda>_. m))"
proof (rule settlesI)
  fix s r s'
  assume m: "settles_all (Some (owner, n)) ev m" and ok: "keys_ok (dw_db s)"
    and run: "act_bind (note_claim owner n) (\<lambda>_. m) s = (r, s')"
  let ?s = "s\<lparr> dw_claim := Some (owner, n) \<rparr>"
  have "m ?s = (r, s')" using run by (simp add: act_bind_def note_claim_def)
  then have "answered ev ?s r s'" using m ok by (intro settlesD [OF m]) simp_all
  then show "answered ev s r s'" by (simp add: answered_def)
qed

lemmas one_act = settles_def answered_def ack_as_def act_bind_def queue_act_def give_def

lemma settles_failed: "settles c P ev (give (HO_Failed m))"
  by (simp add: one_act recorded_def Let_def)

lemma settles_fail: "settles c P ev (fail e)"
  by (simp add: settles_def answered_def fail_def)

lemma settles_lost: "(\<And>s. \<lbrakk>keys_ok (dw_db s); P s\<rbrakk> \<Longrightarrow> taken_over ev c (dw_db s)) \<Longrightarrow> settles c P ev (ack_as HO_LostClaim)"
  by (simp add: one_act recorded_def Let_def)

lemma settles_ack:
  "(\<And>s. \<lbrakk>keys_ok (dw_db s); P s\<rbrakk> \<Longrightarrow> recorded ev c out (dw_db s)) \<Longrightarrow> acts_for out [Q_Ack] \<Longrightarrow> settles c P ev (ack_as out)"
  by (simp add: one_act)

lemma settles_skip:
  "(\<And>s. \<lbrakk>keys_ok (dw_db s); P s\<rbrakk> \<Longrightarrow> recorded ev c (HO_Skipped why) (dw_db s)) \<Longrightarrow> settles c P ev (ack_as (HO_Skipped why))"
  by (rule settles_ack) simp_all

lemma settles_nak: "settles c P ev (nak_due now due)"
  by (simp add: one_act nak_due_def recorded_def Let_def)

lemma silent_bind: "silent m \<Longrightarrow> (\<And>x. silent (f x)) \<Longrightarrow> silent (act_bind m f)"
  unfolding silent_def by (intro allI impI, elim conjE act_bind_cases) (metis, metis)

lemma silent_basic [simp]:
  "silent (give x)" "silent (fail e)" "silent (clock_now d)" "silent (next_dead_letter_id d)" "silent (take_retry d f now)"
  by (simp_all add: silent_def give_def fail_def clock_now_def next_dead_letter_id_def take_retry_def Let_def)

lemma silent_read_raw [simp]: "silent (db_read_raw d f)"
  by (auto simp: silent_def db_read_raw_def Let_def run_keys_ok)

lemma silent_read [simp]: "silent (db_read d f)"
  unfolding db_read_def by (rule silent_bind) (simp_all split: sum.split)

lemma silent_write:
  "(\<And>env db. keys_ok db \<Longrightarrow> keys_ok (snd (f env db))) \<Longrightarrow> silent (db_write d f)"
  by (auto simp: silent_def db_write_def Let_def run_keys_ok)

lemma step_keys: "keys_ok db \<Longrightarrow> keys_ok (async_step p c db)"
  using run_keys_ok [of db p "[c]"] by simp

lemma silent_claim [simp]: "silent (db_write d (\<lambda>env. claim_dispatch env (req :: ClaimRequest)))"
  by (rule silent_write) (metis async_step.simps(4) step_keys)

lemma silent_poison [simp]: "silent (db_write d (\<lambda>env. record_poison env x))"
  by (rule silent_write) (metis async_step.simps(11) step_keys)

lemma silent_settle [simp]: "silent (db_write d (\<lambda>env. settle_dispatch (ap_cfg (dp_port d)) env st))"
  by (rule silent_write) (metis async_step.simps(6) step_keys)

lemma silent_next_event [simp]: "silent (next_event d i r due)"
  unfolding next_event_def by (rule silent_bind) (simp_all add: Let_def split: option.split sum.split)

lemma silent_dead_letter_for [simp]: "silent (dead_letter_for d i r reason e counted claim)"
  unfolding dead_letter_for_def by (intro silent_bind) simp_all

section \<open>A committed decision\<close>

lemma db_write_Inr:
  assumes "db_write d f s = (Inr x, s')" "keys_ok (dw_db s)"
  obtains env db where "f env db = (Inr x, dw_db s')" "keys_ok db"
proof -
  let ?env = "dp_env d (dw_tick s)" and ?db = "async_run (dp_port d) (dp_other d (dw_tick s)) (dw_db s)"
  have "fst (f ?env ?db) = Inr x" "dw_db s' = snd (f ?env ?db)"
    using assms(1) by (cases "fst (f ?env ?db)"; auto simp: db_write_def Let_def)+
  then have "f ?env ?db = (Inr x, dw_db s')" by (simp add: prod_eq_iff)
  then show thesis using that run_keys_ok [OF assms(2)] by blast
qed

lemma give_Some: "act_bind m (\<lambda>x. give (Some x)) s = (Inr y, t) \<Longrightarrow> y \<noteq> None"
  by (erule act_bind_cases) (auto simp: give_def)

lemma silent_optional [simp]: "silent m \<Longrightarrow> silent (act_bind m (\<lambda>x. give (Some x)))"
  by (rule silent_bind) simp_all

lemma silent_commit [simp]: "silent (commit_decision d r fence dec)"
  unfolding commit_decision_def by (intro silent_bind) (simp_all split: DispatchState.split option.split)

lemma commit_decision_settled:
  assumes run: "commit_decision d r fence dec s = (Inr res, s')" and ok: "keys_ok (dw_db s)"
  obtains env st db where "settle_tx (ap_cfg (dp_port d)) env st db = Inr (res, dw_db s')" "keys_ok db"
    "ds_fence st = fence" "ds_invocation st = dec_invocation dec" "ds_state st = dec_state dec" "ds_next_attempt_at st = dec_next_attempt_at dec"
    "dec_state dec = DSP_Scheduled \<Longrightarrow> dec_next_attempt_at dec \<noteq> None \<Longrightarrow> ds_republish st \<noteq> None"
    "dec_dead dec \<noteq> None \<Longrightarrow> ds_dead_letter st \<noteq> None"
proof -
  let ?ev = "case (dec_state dec, dec_next_attempt_at dec) of
       (DSP_Scheduled, Some due) \<Rightarrow> act_bind (next_event d (dec_invocation dec) r due) (\<lambda>e. give (Some e)) | _ \<Rightarrow> give None"
    and ?dead = "case dec_dead dec of
       Some reason \<Rightarrow> act_bind (dead_letter_for d (dec_invocation dec) r reason (dec_error dec) (dec_counted dec) (from_claim fence))
         (\<lambda>x. give (Some x)) | None \<Rightarrow> give None"
  let ?st = "\<lambda>now republish dead. \<lparr> ds_fence = fence, ds_invocation = dec_invocation dec, ds_state = dec_state dec,
       ds_next_attempt_at = dec_next_attempt_at dec, ds_last_error = dec_error dec, ds_counted = dec_counted dec,
       ds_dead_letter = dead, ds_republish = republish, ds_now = now \<rparr>"
  obtain now t1 ev t2 dead t3 where c: "clock_now d s = (Inr now, t1)" and e: "?ev t1 = (Inr ev, t2)"
      and x: "?dead t2 = (Inr dead, t3)"
      and w: "db_write d (\<lambda>env. settle_dispatch (ap_cfg (dp_port d)) env (?st now ev dead)) t3 = (Inr res, s')"
    using run unfolding commit_decision_def by (elim act_bind_cases) auto
  have ev: "silent ?ev" and dd: "silent ?dead" by (simp_all split: DispatchState.split option.split)
  have "keys_ok (dw_db t3)"
    using silentD [OF dd _ x] silentD [OF ev _ e] silentD [OF silent_basic(3) ok c] by blast
  from db_write_Inr [OF w this] obtain env db
    where db: "settle_dispatch (ap_cfg (dp_port d)) env (?st now ev dead) db = (Inr res, dw_db s')" "keys_ok db"
    by blast
  have "settle_tx (ap_cfg (dp_port d)) env (?st now ev dead) db = Inr (res, dw_db s')"
    using sql_write_Inr [of env "settle_tx (ap_cfg (dp_port d)) env (?st now ev dead)" db] db(1)
    by (simp add: settle_dispatch_def)
  then show thesis
  proof (rule that [OF _ db(2)])
    show "ds_republish (?st now ev dead) \<noteq> None" if "dec_state dec = DSP_Scheduled" "dec_next_attempt_at dec \<noteq> None"
      using e that give_Some by auto
    show "ds_dead_letter (?st now ev dead) \<noteq> None" if "dec_dead dec \<noteq> None"
      using x that give_Some by auto
  qed simp_all
qed

text \<open>A settlement that was lost found the invocation final or its fence broken.\<close>

fun fence_of :: "InvokeEnvelope \<Rightarrow> (string \<times> nat) option \<Rightarrow> DispatchFence \<Rightarrow> bool" where
  "fence_of ev c (DF_Unclaimed g) \<longleftrightarrow> c = None \<and> g = ev_generation ev"
| "fence_of ev c (DF_Claim owner n) \<longleftrightarrow> c = Some (owner, n)"

lemma settle_tx_lost:
  assumes "settle_tx cfg env st db = Inr (SO_Lost m, db')" "inv_id (ds_invocation st) = ev_invocation_id ev"
    and "fence_of ev c (ds_fence st)"
  shows "taken_over ev c db'"
proof -
  obtain i where i: "bt_get (as_invocations db) (ev_invocation_id ev) = Some i" "db' = db"
      "IS_is_terminal (inv_status i) \<or> fence_lost (ds_fence st) (ds_now st) (inv_id i) (record_or_unclaimed db i) \<noteq> None"
    using assms(1,2) by (auto simp: settle_tx_def Let_def split: option.splits if_splits)
  show ?thesis
  proof (cases "ds_fence st")
    case (DF_Claim owner n)
    then show ?thesis using i assms(3) by (auto simp: taken_over_def Let_def holds_claim_def split: if_splits)
  next
    case (DF_Unclaimed g)
    then show ?thesis using i assms(3) by (auto simp: taken_over_def Let_def claim_live_def split: if_splits)
  qed
qed

lemma commit_decision_lost:
  assumes run: "commit_decision d r fence dec s = (Inr (SO_Lost m), s')" and ok: "keys_ok (dw_db s)"
    and dec: "inv_id (dec_invocation dec) = ev_invocation_id ev" "fence_of ev c fence"
  shows "taken_over ev c (dw_db s')"
proof -
  from run ok obtain env st db where "settle_tx (ap_cfg (dp_port d)) env st db = Inr (SO_Lost m, dw_db s')"
      "ds_fence st = fence" "ds_invocation st = dec_invocation dec"
    by (rule commit_decision_settled) blast
  then show ?thesis using settle_tx_lost dec by metis
qed

text \<open>The decisions the handler takes: a retry leaves the invocation open and before its queue deadline.\<close>

definition decision_ok :: "InvocationId \<Rightarrow> Decision \<Rightarrow> bool" where
  "decision_ok k dec \<longleftrightarrow> inv_id (dec_invocation dec) = k
     \<and> (if dec_state dec = DSP_Scheduled
        then dec_dead dec = None \<and> \<not> IS_is_terminal (inv_status (dec_invocation dec))
             \<and> opt_is_some_and (\<lambda>due. due < queue_deadline (inv_deadlines (dec_invocation dec))) (dec_next_attempt_at dec)
        else opt_is_none_or (\<lambda>reason. reason \<in> run_reasons) (dec_dead dec))"

fun decided :: "Decision \<Rightarrow> HandleOutcome" where
  "decided dec =
     (case (dec_dead dec, dec_state dec) of
        (Some reason, _) \<Rightarrow> HO_DeadLettered reason
      | (None, DSP_Scheduled) \<Rightarrow> HO_Rescheduled (the (dec_next_attempt_at dec)) (dec_counted dec)
      | (None, _) \<Rightarrow> HO_Completed (IS_name (inv_status (dec_invocation dec))))"

lemma decision_outcome_decided: "decision_ok k dec \<Longrightarrow> decision_outcome d dec = give (decided dec)"
  by (auto simp: decision_ok_def decision_outcome_def opt_is_some_and_iff split: option.splits DispatchState.splits)

lemma settled_record_scheduled:
  "ds_republish st = Some e \<Longrightarrow> dr_state (settled_record st r) = ds_state st
     \<and> dr_next_attempt_at (settled_record st r) = ds_next_attempt_at st \<and> dr_generation (settled_record st r) = ob_generation e"
  by (simp add: settled_record_def Let_def)

lemma committed_recorded:
  assumes run: "commit_decision d r fence dec s = (Inr SO_Committed, s')" and ok: "keys_ok (dw_db s)" and dec: "decision_ok (ev_invocation_id ev) dec"
  shows "recorded ev c (decided dec) (dw_db s')"
proof -
  from run ok obtain env st db where tx: "settle_tx (ap_cfg (dp_port d)) env st db = Inr (SO_Committed, dw_db s')" "keys_ok db"
      and st: "ds_invocation st = dec_invocation dec" "ds_state st = dec_state dec" "ds_next_attempt_at st = dec_next_attempt_at dec"
      and event: "dec_state dec = DSP_Scheduled \<Longrightarrow> dec_next_attempt_at dec \<noteq> None \<Longrightarrow> ds_republish st \<noteq> None"
      and dead: "dec_dead dec \<noteq> None \<Longrightarrow> ds_dead_letter st \<noteq> None"
    by (rule commit_decision_settled) blast
  from tx obtain old where old: "IS_is_terminal (inv_status (ds_invocation st)) \<or> ds_state st = DSP_Scheduled"
      "bt_get (as_invocations (dw_db s')) (inv_id (ds_invocation st)) = Some (ds_invocation st)"
      "as_dispatch (dw_db s') = bt_insert (inv_id (ds_invocation st)) (settled_record st (record_or_unclaimed db old)) (as_dispatch db)"
    by (cases rule: settle_tx_effect) auto
  note wrote = settle_tx_wrote [OF tx(1)]
  show ?thesis
  proof (cases "dec_state dec = DSP_Scheduled")
    case True
    then obtain due where due: "dec_next_attempt_at dec = Some due"
      using dec by (auto simp: decision_ok_def opt_is_some_and_iff)
    then obtain e where e: "ds_republish st = Some e" using event True by auto
    show ?thesis
      using True due dec old(2,3) st wrote(1) [OF e] settled_record_scheduled [OF e]
      by (simp add: recorded_def Let_def decision_ok_def opt_is_some_and_iff new_outbox_row_def)
  next
    case False
    then show ?thesis
      using old(1,2) st dead wrote(2) dec
      by (cases "dec_dead dec"; cases "dec_state dec") (auto simp: recorded_def Let_def decision_ok_def)
  qed
qed

lemma acts_decided: "acts_for (decided dec) as \<longleftrightarrow> as = [Q_Ack]"
  by (auto split: option.split DispatchState.split)

lemma settles_commit:
  assumes dec: "decision_ok (ev_invocation_id ev) dec" and fence: "fence_of ev c fence"
  shows "settles c P ev (commit_and_ack d r fence dec)"
proof (rule settlesI)
  fix s res s' assume ok: "keys_ok (dw_db s)" and c: "dw_claim s = c" and run: "commit_and_ack d r fence dec s = (res, s')"
  let ?f = "\<lambda>res. case res of SO_Lost _ \<Rightarrow> ack_as HO_LostClaim
       | SO_Committed \<Rightarrow>
           if dp_fires d ''dispatch.after_commit''
           then give (HO_Failed ''failpoint dispatch.after_commit: committed, the ACK was lost'')
           else ack_as (decided dec)"
  have run: "act_bind (commit_decision d r fence dec) ?f s = (res, s')"
    using run unfolding commit_and_ack_def decision_outcome_decided [OF dec] by (simp only: act_bind_give)
  from run show "answered ev s res s'"
  proof (cases rule: act_bind_cases)
    case (fails e)
    then show ?thesis using silentD [OF silent_commit ok] by (fastforce simp: answered_def)
  next
    case (goes x t)
    have t: "keys_ok (dw_db t)" "dw_acts t = dw_acts s" "dw_claim t = c" using silentD [OF silent_commit ok goes(1)] c by auto
    have "settles c (\<lambda>u. u = t) ev (?f x)"
    proof (cases x)
      case SO_Committed
      then have "recorded ev c (decided dec) (dw_db t)" using committed_recorded [OF _ ok dec] goes(1) by blast
      then show ?thesis using SO_Committed
        by (auto simp: acts_decided simp del: decided.simps intro!: settles_failed settles_ack)
    next
      case (SO_Lost m)
      have "inv_id (dec_invocation dec) = ev_invocation_id ev" using dec by (simp add: decision_ok_def)
      then have "taken_over ev c (dw_db t)" using commit_decision_lost [OF _ ok _ fence] goes(1) SO_Lost by blast
      then show ?thesis using SO_Lost by (auto intro: settles_lost)
    qed
    from settlesD [OF this t(1,3) refl goes(2)] show ?thesis using t(2) by (simp add: answered_def)
  qed
qed

section \<open>Every branch of the handler\<close>

lemma settle_failed_id [simp]:
  "inv_id (settle_failed i e now) = inv_id i" "inv_tenant_id (settle_failed i e now) = inv_tenant_id i"
  by (auto simp: settle_failed_def inv_mark_failed_def inv_mark_outcome_unknown_def and_then_Inr
      split: sum.split InvocationStatus.split if_splits)

lemma classify_reason: "classify e = DSN_DeadLetter reason \<Longrightarrow> reason \<in> run_reasons"
  by (auto simp: classify_def run_reasons_def split: if_splits option.splits)

lemma pre_run_reason: "pre_run_dead_end d i r policy now = Some (reason, e) \<Longrightarrow> reason \<in> run_reasons"
  by (auto simp: pre_run_dead_end_def run_reasons_def split: if_splits)

lemma schedule_reasons [simp]: "DLR_AttemptsExhausted \<in> run_reasons" "DLR_Expired \<in> run_reasons"
  by (simp_all add: run_reasons_def)

lemma settles_dead_letter:
  "inv_id i = ev_invocation_id ev \<Longrightarrow> fence_of ev c fence \<Longrightarrow> reason \<in> run_reasons \<Longrightarrow> settles c P ev (dead_letter_and_ack d i r fence reason e counted)"
  unfolding dead_letter_and_ack_def by (intro settles_bind settles_commit) (simp_all add: decision_ok_def)

lemma requeued_ok:
  assumes "inv_mark_requeued i = Inr i'" "due < expires_at policy i" "inv_id i = k"
  shows "decision_ok k \<lparr> dec_invocation = i', dec_state = DSP_Scheduled, dec_next_attempt_at = Some due,
           dec_error = e, dec_counted = c, dec_dead = None \<rparr>"
  using assms by (auto simp: decision_ok_def inv_mark_requeued_def expires_at_def and_then_Inr split: if_splits)

lemma settles_schedule: "inv_id i = ev_invocation_id ev \<Longrightarrow> fence_of ev c fence \<Longrightarrow> settles c P ev (schedule_and_ack d i r fence policy e counted not_before)"
  unfolding schedule_and_ack_def
  by (rule settles_bind)
     (auto simp: Let_def settles_dead_letter settles_fail settles_failed not_le split: sum.split
       intro!: settles_commit requeued_ok)

lemma settles_complete: "inv_id i = ev_invocation_id ev \<Longrightarrow> fence_of ev c fence \<Longrightarrow> settles c P ev (complete_and_ack d i r fence out status)"
  unfolding complete_and_ack_def
  by (rule settles_bind)
     (auto simp: settles_schedule decision_ok_def inv_mark_succeeded_def and_then_Inr split: sum.split if_splits
       intro!: settles_commit)

lemma settles_cancel: "inv_id i = ev_invocation_id ev \<Longrightarrow> fence_of ev c fence \<Longrightarrow> settles c P ev (cancel_and_ack d i fence)"
  unfolding cancel_and_ack_def Let_def
  by (intro settles_bind settles_commit)
     (auto simp: decision_ok_def inv_mark_cancelled_def and_then_Inr split: sum.split)

lemmas settles_outcomes = settles_dead_letter settles_schedule settles_complete settles_cancel
  settles_fail settles_failed settles_nak

lemma silent_read_input [simp]: "silent (read_input d i)"
  unfolding read_input_def by (rule silent_bind) simp_all

text \<open>A row that was read under a key has that id, and stays until the next transaction.\<close>

lemma db_read_Inr:
  assumes "db_read d f s = (Inr x, t)" "keys_ok (dw_db s)"
  shows "\<exists>env. f env (dw_db t) = Inr x" "keys_ok (dw_db t)" "inv_order (port_digest (dp_port d)) (dw_db s) (dw_db t)"
  using assms run_keys_ok [OF assms(2)] run_inv_order [OF assms(2)]
  by (auto simp: db_read_def db_read_raw_def act_bind_def Let_def give_def fail_def split: sum.splits)

lemma sql_read_Inr: "sql_read env body db = Inr x \<Longrightarrow> body db = Inr x"
  by (simp add: sql_read_def split: if_splits option.splits prod.splits)

lemma sql_get_row:
  assumes "db_read d (sql_get k) s = (Inr x, t)" "keys_ok (dw_db s)"
  shows "bt_get (as_invocations (dw_db t)) k = x \<and> (\<forall>i. x = Some i \<longrightarrow> inv_id i = k)"
proof -
  obtain env where "sql_get k env (dw_db t) = Inr x" using db_read_Inr(1) [OF assms] by blast
  then have "bt_get (as_invocations (dw_db t)) k = x" unfolding sql_get_def by (auto dest: sql_read_Inr)
  then show ?thesis using db_read_Inr(2) [OF assms] by (auto simp: keys_ok_def)
qed

lemma settles_classified:
  assumes "inv_id i = ev_invocation_id ev" "fence_of ev c fence"
  shows "settles c P ev (case classify e of DSN_DeadLetter reason \<Rightarrow> dead_letter_and_ack d i r fence reason e True
           | _ \<Rightarrow> defer_and_ack d i r fence policy e)"
  using assms by (auto simp: defer_and_ack_def settles_outcomes classify_reason split: Disposition.split)

lemma settles_run_outcome:
  assumes "inv_id i = ev_invocation_id ev" "fence_of ev c fence"
  shows "settles c P ev (case outcome of
           Inr (output, http_status) \<Rightarrow> complete_and_ack d i r fence output http_status
         | Inl error \<Rightarrow>
             (case classify error of
                DSN_Cancelled \<Rightarrow> cancel_and_ack d i fence
              | DSN_DeadLetter reason \<Rightarrow> dead_letter_and_ack d i r fence reason error True
              | DSN_Defer \<Rightarrow> defer_and_ack d i r fence policy error
              | DSN_Retry \<Rightarrow> schedule_and_ack d i r fence policy error True None))"
  using assms by (auto simp: defer_and_ack_def settles_outcomes classify_reason split: sum.split Disposition.split)

lemma settles_pure: "(Q \<Longrightarrow> settles_all c ev m) \<Longrightarrow> settles c (\<lambda>_. Q) ev m"
  unfolding settles_def by blast

lemma settles_claimed:
  assumes i: "inv_id i = ev_invocation_id ev" and c: "c = Some (dp_owner d, dr_attempts r)"
  shows "settles c P ev (handle_claimed d i r policy)"
proof (cases "dp_fires d ''dispatch.after_claim''")
  case False
  show ?thesis unfolding handle_claimed_def Let_def if_not_P [OF False]
    apply (rule settles_bind [OF silent_read_input])
    subgoal for payload
    proof (cases payload)
      case (Inl e)
      show ?thesis unfolding Inl sum.case by (rule settles_classified [OF i]) (simp add: c)
    next
      case (Inr x)
      show ?thesis unfolding Inr sum.case
        apply (rule settles_bind [OF silent_read])
        apply (split if_split, intro conjI impI, rule settles_failed)
        apply (rule settles_bind_post [OF silent_read, where Q = "\<lambda>x _. \<forall>j. x = Some j \<longrightarrow> inv_id j = inv_id i"])
         apply (blast dest: sql_get_row)
        apply (rule settles_pure)
        subgoal for _ current
          by (cases current) (simp_all add: settles_fail settles_run_outcome i c del: sum.case)
        done
    qed
    done
qed (simp add: handle_claimed_def settles_failed)

text \<open>Why a claim was refused is in the ledger.\<close>

definition claim_answer :: "InvokeEnvelope \<Rightarrow> ClaimOutcome \<Rightarrow> AsyncDb \<Rightarrow> bool" where
  "claim_answer ev out db =
     (case out of
        CO_Claimed i r \<Rightarrow> inv_id i = ev_invocation_id ev
      | CO_Terminal _ \<Rightarrow> recorded ev None (HO_Skipped ''terminal'') db
      | CO_Stale _ \<Rightarrow> recorded ev None (HO_Skipped ''stale_generation'') db
      | CO_Held _ _ \<Rightarrow> recorded ev None (HO_Skipped ''claimed'') db
      | CO_NotDue _ \<Rightarrow> True)"

lemma claim_tx_answer:
  assumes "claim_tx req db = Inr (out, db')" "keys_ok db" "cr_invocation_id req = ev_invocation_id ev" "cr_generation req = ev_generation ev"
  shows "claim_answer ev out db'"
  using assms
  by (auto simp: claim_tx_def claim_answer_def recorded_def Let_def keys_ok_def claim_live_def split: option.splits if_splits)

lemma claim_write_answer:
  assumes "db_write d (\<lambda>env. claim_dispatch env req) s = (Inr out, t)" "keys_ok (dw_db s)"
    and "cr_invocation_id req = ev_invocation_id ev" "cr_generation req = ev_generation ev"
  shows "claim_answer ev out (dw_db t)"
proof -
  obtain env db where db: "claim_dispatch env req db = (Inr out, dw_db t)" "keys_ok db"
    using db_write_Inr [OF assms(1,2)] by blast
  have "claim_tx req db = Inr (out, dw_db t)"
    using sql_write_Inr [of env "claim_tx req" db out] db(1) by (simp add: claim_dispatch_def)
  then show ?thesis using claim_tx_answer db(2) assms(3,4) by blast
qed

lemma settles_claim_and_run:
  assumes "inv_id i = ev_invocation_id ev"
  shows "settles None P ev (claim_and_run d ev i policy now)"
  unfolding claim_and_run_def
  apply (rule settles_bind_post [OF silent_claim, where Q = "\<lambda>x t. claim_answer ev x (dw_db t)"])
  subgoal by (erule claim_write_answer) (simp_all add: assms)
  subgoal for claimed
    by (cases claimed)
       (auto simp: claim_answer_def settles_nak intro!: settles_skip settles_pure [OF settles_note] settles_claimed)
  done

lemma settles_due:
  assumes "inv_id i = ev_invocation_id ev" "dr_generation r = ev_generation ev"
  shows "settles None P ev (handle_due d ev i r now)"
proof -
  let ?fence = "DF_Unclaimed (dr_generation r)"
  have fence: "fence_of ev None ?fence" using assms(2) by simp
  have taken: "settles None P ev (case taken of
      Inr _ \<Rightarrow> claim_and_run d ev i policy now
    | Inl next_window \<Rightarrow> schedule_and_ack d i r ?fence policy (e next_window) False (Some next_window))"
    for P policy e and taken :: "Timestamp + unit"
    using assms fence by (cases taken) (simp_all add: settles_claim_and_run settles_schedule)
  have resolved: "settles None P ev (if dr_attempts r > 0
      then act_bind (take_retry d (inv_function_id i) now) (\<lambda>taken. case taken of
          Inr _ \<Rightarrow> claim_and_run d ev i policy now
        | Inl next_window \<Rightarrow> schedule_and_ack d i r ?fence policy (e next_window) False (Some next_window))
      else claim_and_run d ev i policy now)" for P policy e
    using assms taken by (auto simp: settles_claim_and_run intro!: settles_bind)
  show ?thesis unfolding handle_due_def Let_def
    using assms resolved settles_classified [OF assms(1) fence] fence
    by (auto simp: settles_dead_letter pre_run_reason split: option.split sum.split)
qed

lemma record_read:
  assumes "db_read d (\<lambda>env. dispatch_record env (inv_id i)) s = (Inr found, t)" "keys_ok (dw_db s)"
    "bt_contains_key (as_invocations (dw_db s)) (inv_id i)"
  shows "bt_get (as_dispatch (dw_db t)) (inv_id i) = found \<and> bt_contains_key (as_invocations (dw_db t)) (inv_id i)"
  using db_read_Inr [OF assms(1,2)] assms(3)
  by (auto simp: dispatch_record_def inv_order_def dest!: sql_read_Inr dest: rows_leD)

lemma settles_known:
  assumes i: "inv_id i = ev_invocation_id ev"
  shows "settles None (\<lambda>s. bt_get (as_invocations (dw_db s)) (ev_invocation_id ev) = Some i) ev (handle_known d ev i)"
proof (cases "IS_is_terminal (inv_status i)")
  case False
  let ?k = "ev_invocation_id ev" and ?row = "\<lambda>found. case found of Some r \<Rightarrow> r | None \<Rightarrow> dr_unclaimed i"
  let ?Q = "\<lambda>found t. bt_get (as_dispatch (dw_db t)) ?k = found \<and> bt_contains_key (as_invocations (dw_db t)) ?k"
  have row: "\<exists>v. bt_get (as_invocations (dw_db s)) ?k = Some v
      \<and> record_or_unclaimed (dw_db s) v = (case found of Some r \<Rightarrow> r | None \<Rightarrow> dr_unclaimed v)"
      if "keys_ok (dw_db s)" "?Q found s" for s found
    using that by (auto simp: record_or_unclaimed_def keys_ok_def)
  have skip: "recorded ev None (HO_Skipped ''stale_generation'') (dw_db s)"
      if "keys_ok (dw_db s)" "?Q found s" "ev_generation ev \<noteq> dr_generation (?row found)" for s found
    using row [OF that(1,2)] that(3) by (auto simp: recorded_def Let_def dr_unclaimed_def split: option.splits)
  have held: "recorded ev None (HO_Skipped ''claimed'') (dw_db s)"
      if "keys_ok (dw_db s)" "?Q found s" "claim_live (?row found) now" for s found now
    using row [OF that(1,2)] that(3)
    by (auto simp: recorded_def Let_def dr_unclaimed_def claim_live_def split: option.splits)
  show ?thesis unfolding handle_known_def Let_def if_not_P [OF False]
    apply (rule settles_bind_post [where Q = "\<lambda>_ t. bt_contains_key (as_invocations (dw_db t)) ?k", OF silent_basic(3)])
     apply (force simp: clock_now_def bt_contains_key_def)
    apply (rule settles_bind_post [where Q = ?Q, OF silent_read])
    subgoal for now s x t
      using record_read [of d i s x t] i by auto
    subgoal for now found
      by (auto simp: settles_nak intro!: settles_skip settles_due [OF i] skip held split: option.split)
    done
qed (auto simp: handle_known_def recorded_def Let_def intro!: settles_skip)

section \<open>A whole delivery\<close>

text \<open>A poison message has a dead letter of its own.\<close>

definition poisoned :: "Delivery \<Rightarrow> AsyncDb \<Rightarrow> bool" where
  "poisoned dv db \<longleftrightarrow> (\<exists>k x. bt_get (as_dead_letters db) k = Some x
     \<and> origin_key x = ''msg:'' @ dv_message_id dv @ '':'' @ show_nat (dv_sequence dv))"

text \<open>The message after a delivery, and what the ledger then holds.\<close>

definition handled ::
  "AsyncDispatcher \<Rightarrow> Delivery \<Rightarrow> HandleOutcome \<Rightarrow> QueueAct list \<Rightarrow> (string \<times> nat) option \<Rightarrow> AsyncDb \<Rightarrow> bool" where
  "handled d dv out as c db =
     (case out of
        HO_Poison \<Rightarrow> as = [Q_Term] \<and> poisoned dv db
      | HO_Failed _ \<Rightarrow> as = [] \<or> (\<exists>t. as = [Q_Nak t])
      | HO_NotDue _ \<Rightarrow> \<exists>t. as = [Q_Nak t]
      | _ \<Rightarrow> as = [Q_Ack] \<and> (\<exists>ev. dp_parse d (dv_payload dv) = Inr ev \<and> recorded ev c out db))"

lemma record_poison_Inr:
  assumes "record_poison env x db = (Inr b, db')"
  shows "\<exists>k e. bt_get (as_dead_letters db') k = Some e \<and> origin_key e = origin_key x"
proof -
  have "fst (sql_write env (insert_dead_letter env x) db) = Inr b" "snd (sql_write env (insert_dead_letter env x) db) = db'"
    using assms by (auto simp: record_poison_def split: if_splits)
  from sql_write_Inr [OF this(1)] this(2) have "insert_dead_letter env x db = Inr (b, db')" by simp
  then show ?thesis by (rule insert_dead_letter_there)
qed

definition inner_ok :: "(DispatchWorld \<Rightarrow> bool) \<Rightarrow> AsyncDispatcher \<Rightarrow> Delivery \<Rightarrow> HandleOutcome action \<Rightarrow> bool" where
  "inner_ok P d dv m \<longleftrightarrow> (\<forall>s r s'. keys_ok (dw_db s) \<and> P s \<and> m s = (r, s') \<longrightarrow>
     (\<exists>as. dw_acts s' = dw_acts s @ as
        \<and> (case r of Inl _ \<Rightarrow> as = [] | Inr out \<Rightarrow> handled d dv out as (dw_claim s') (dw_db s'))))"

lemma inner_okD:
  "\<lbrakk>inner_ok P d dv m; keys_ok (dw_db s); P s; m s = (r, s')\<rbrakk> \<Longrightarrow> \<exists>as. dw_acts s' = dw_acts s @ as
     \<and> (case r of Inl _ \<Rightarrow> as = [] | Inr out \<Rightarrow> handled d dv out as (dw_claim s') (dw_db s'))"
  unfolding inner_ok_def by blast

lemma inner_bind_post:
  assumes m: "silent m" and post: "\<And>s x t. \<lbrakk>keys_ok (dw_db s); P s; m s = (Inr x, t)\<rbrakk> \<Longrightarrow> Q x t"
    and f: "\<And>x. inner_ok (Q x) d dv (f x)"
  shows "inner_ok P d dv (act_bind m f)"
  unfolding inner_ok_def
proof (intro allI impI, elim conjE)
  fix s r s' assume ok: "keys_ok (dw_db s)" "P s" and run: "act_bind m f s = (r, s')"
  from run show "\<exists>as. dw_acts s' = dw_acts s @ as
      \<and> (case r of Inl _ \<Rightarrow> as = [] | Inr out \<Rightarrow> handled d dv out as (dw_claim s') (dw_db s'))"
  proof (cases rule: act_bind_cases)
    case (fails e)
    then show ?thesis using silentD [OF m ok(1)] by fastforce
  next
    case (goes x t)
    have t: "keys_ok (dw_db t)" "dw_acts t = dw_acts s" using silentD [OF m ok(1) goes(1)] by auto
    show ?thesis using inner_okD [OF f t(1) post [OF ok goes(1)] goes(2)] t(2) by simp
  qed
qed

lemma inner_poison: "inner_ok P d dv (poison d dv detail)"
proof -
  let ?x = "\<lambda>k now. \<lparr> dl_id = k, dl_tenant_id = dv_tenant_id dv, dl_function_id = None, dl_invocation_id = None,
       dl_revision_id = None, dl_reason = DLR_Poison, dl_status = DLS_Open, dl_attempts = 0, dl_deferrals = 0, dl_last_error = None,
       dl_accepted_at = None, dl_first_attempt_at = None, dl_last_attempt_at = None, dl_created_at = now,
       dl_input_digest = Some (Sha256Digest_of_bytes (dp_sha256_hex d) (dv_payload dv)),
       dl_input_size_bytes = Some (of_nat (length (dv_payload dv))), dl_input_storage = None,
       dl_message_id = Some (dv_message_id dv), dl_message_sequence = Some (dv_sequence dv), dl_detail = Some detail,
       dl_redrive_count = 0, dl_redriven_at = None \<rparr>"
  have key: "origin_key (?x k now) = ''msg:'' @ dv_message_id dv @ '':'' @ show_nat (dv_sequence dv)" for k now
    by (simp add: origin_key_def)
  have wrote: "poisoned dv (dw_db t)"
    if run: "db_write d (\<lambda>env. record_poison env (?x k now)) s = (Inr b, t)" and ok: "keys_ok (dw_db s)" for s t k now b
  proof -
    obtain env db where "record_poison env (?x k now) db = (Inr b, dw_db t)" using db_write_Inr [OF run ok] by blast
    from record_poison_Inr [OF this] show ?thesis unfolding key poisoned_def .
  qed
  have ends: "inner_ok (\<lambda>t. poisoned dv (dw_db t)) d dv (act_bind (queue_act Q_Term) (\<lambda>_. give HO_Poison))"
    by (auto simp: inner_ok_def act_bind_def queue_act_def give_def handled_def)
  show ?thesis unfolding poison_def
    apply (rule inner_bind_post [where Q = "\<lambda>_ _. True", OF silent_basic(4)], rule TrueI)
    apply (rule inner_bind_post [where Q = "\<lambda>_ _. True", OF silent_basic(3)], rule TrueI)
    apply (rule inner_bind_post [where Q = "\<lambda>_ t. poisoned dv (dw_db t)", OF silent_poison])
     apply (erule (1) wrote)
    apply (rule ends)
    done
qed

lemma inner_settles:
  assumes "settles c P ev m" "dp_parse d (dv_payload dv) = Inr ev"
  shows "inner_ok (\<lambda>s. dw_claim s = c \<and> P s) d dv m"
proof -
  have handled: "handled d dv out as c' db" if "acts_for out as" "recorded ev c' out db" for out as c' db
    using that assms(2) by (cases out) (simp_all add: handled_def recorded_def)
  have "\<exists>as. dw_acts s' = dw_acts s @ as \<and> (case r of Inl _ \<Rightarrow> as = [] | Inr out \<Rightarrow> handled d dv out as (dw_claim s') (dw_db s'))"
    if "keys_ok (dw_db s)" "dw_claim s = c" "P s" "m s = (r, s')" for s r s'
    using settlesD [OF assms(1) that] handled by (cases r) (auto simp: answered_def)
  then show ?thesis unfolding inner_ok_def by blast
qed

lemma inner_ok_inner: "inner_ok (\<lambda>s. dw_claim s = None) d dv (handle_inner d dv)"
proof (cases "dp_parse d (dv_payload dv)")
  case (Inr ev)
  let ?Q = "\<lambda>found t. dw_claim t = None \<and> bt_get (as_invocations (dw_db t)) (ev_invocation_id ev) = found
       \<and> (\<forall>i. found = Some i \<longrightarrow> inv_id i = ev_invocation_id ev)"
  have known: "inner_ok (?Q (Some i)) d dv (handle_known d ev i)" for i
  proof (cases "inv_id i = ev_invocation_id ev")
    case True
    then show ?thesis using inner_settles [OF settles_known [OF True] Inr] by (simp add: inner_ok_def)
  qed (simp add: inner_ok_def)
  have found: "inner_ok (?Q found) d dv (case found of
        None \<Rightarrow> poison d dv NO_INVOCATION
      | Some i \<Rightarrow>
          if inv_tenant_id i \<noteq> dv_tenant_id dv \<or> inv_function_id i \<noteq> ev_function_id ev
             \<or> inv_revision_id i \<noteq> ev_revision_id ev \<or> inv_input_digest i \<noteq> ev_input_digest ev \<or> inv_mode i \<noteq> Async
          then poison d dv NO_INVOCATION
          else handle_known d ev i)" for found
    using known by (cases found) (auto simp: inner_poison simp del: de_Morgan_disj)
  have read: "?Q x t" if "keys_ok (dw_db s)" "dw_claim s = None" "db_read d (sql_get (ev_invocation_id ev)) s = (Inr x, t)" for s x t
    using sql_get_row [OF that(3,1)] silentD [OF silent_read that(1,3)] that(2) by simp
  show ?thesis unfolding handle_inner_def Inr sum.case
    apply (split if_split, intro conjI impI, rule inner_poison)
    apply (split if_split, intro conjI impI, rule inner_poison)
    apply (rule inner_bind_post [where Q = ?Q, OF silent_read])
     apply (erule (2) read)
    apply (rule found)
    done
qed (simp add: handle_inner_def inner_poison)

lemma handle_handled:
  assumes "keys_ok (dw_db s)" "handle d dv s = (out, s')"
  shows "\<exists>as. dw_acts s' = dw_acts s @ as \<and> handled d dv out as (dw_claim s') (dw_db s')"
proof -
  let ?s = "s\<lparr> dw_claim := None \<rparr>"
  obtain r t where run: "handle_inner d dv ?s = (r, t)" by force
  have "keys_ok (dw_db ?s)" "dw_claim ?s = None" using assms(1) by simp_all
  from inner_okD [OF inner_ok_inner this run] show ?thesis
    using assms(2) run by (cases r) (auto simp: handle_def handled_def)
qed

end
