(* ===== verification/Store_Order.thy ===== *)
theory Store_Order
  imports Memory_Store
begin

text \<open>
  Histories of the store and what no operation ever undoes.  \<open>store_op\<close> lists every
  operation that takes the write lock; a history is any list of them, so it covers every
  interleaving of concurrent callers.  \<open>state_le\<close> relates two states of one store: every row
  is still there, its identity is unchanged, and what is final stays as it is.
\<close>

section \<open>Operations and histories\<close>

datatype store_op =
    Op_stamp_config "ConfigRows \<Rightarrow> RepoError + ConfigObservation list" u64
  | Op_functions_insert Function
  | Op_functions_update Function
  | Op_allocate_number FunctionId
  | Op_revisions_insert FunctionRevision
  | Op_revisions_update FunctionRevision
  | Op_aliases_insert FunctionAlias
  | Op_aliases_compare_and_set FunctionAlias u64
  | Op_invocations_insert Invocation
  | Op_invocations_update Invocation
  | Op_insert_attempt InvocationAttempt
  | Op_update_attempt InvocationAttempt
  | Op_environments_insert ExecutionEnvironment
  | Op_environments_update ExecutionEnvironment
  | Op_insert_bound Invocation
  | Op_purge_expired_idempotency Timestamp
  | Op_artifact_claim TenantId Sha256Digest
  | Op_register_dispatcher DispatcherRecord
  | Op_heartbeat DispatcherId Duration Timestamp
  | Op_renew_after_store_outage DispatcherId Duration Timestamp
  | Op_stop_dispatcher DispatcherId Timestamp
  | Op_claim_for_reuse ReuseKey "DispatcherId option" Timestamp
  | Op_release_to_pool ExecutionEnvironment PoolLimits Timestamp
  | Op_take_idle EnvironmentId Timestamp
  | Op_acquire SlotAcquire
  | Op_renew_lease LeaseId DispatcherId u64 Duration Timestamp
  | Op_complete SlotCompletion
  | Op_release_lease LeaseId AttemptId u64 Timestamp
  | Op_reclaim_expired ReclaimRequest
  | Op_confirm_terminated EnvironmentId u64 Timestamp
  | Op_attach_object ObjectRef InvocationId Timestamp
  | Op_claim_for_collection ObjectRef CollectReason Timestamp
  | Op_forget_object ObjectId
  | Op_purge_tombstones Timestamp

fun exec :: "StoreConfig \<Rightarrow> (string \<Rightarrow> u64 option) \<Rightarrow> store_op \<Rightarrow> State \<Rightarrow> State" where
  "exec cfg u (Op_stamp_config observe since) s = snd (stamp_config observe since s)"
| "exec cfg u (Op_functions_insert f) s = snd (functions_insert f s)"
| "exec cfg u (Op_functions_update f) s = snd (functions_update f s)"
| "exec cfg u (Op_allocate_number f) s = snd (allocate_number f s)"
| "exec cfg u (Op_revisions_insert r) s = snd (revisions_insert r s)"
| "exec cfg u (Op_revisions_update r) s = snd (revisions_update r s)"
| "exec cfg u (Op_aliases_insert a) s = snd (aliases_insert a s)"
| "exec cfg u (Op_aliases_compare_and_set a g) s = snd (aliases_compare_and_set a g s)"
| "exec cfg u (Op_invocations_insert i) s = snd (invocations_insert cfg i s)"
| "exec cfg u (Op_invocations_update i) s = snd (invocations_update cfg i s)"
| "exec cfg u (Op_insert_attempt a) s = snd (invocations_insert_attempt a s)"
| "exec cfg u (Op_update_attempt a) s = snd (invocations_update_attempt a s)"
| "exec cfg u (Op_environments_insert e) s = snd (environments_insert e s)"
| "exec cfg u (Op_environments_update e) s = snd (environments_update e s)"
| "exec cfg u (Op_insert_bound i) s = snd (insert_bound cfg i s)"
| "exec cfg u (Op_purge_expired_idempotency now) s = snd (purge_expired_idempotency now s)"
| "exec cfg u (Op_artifact_claim t d) s = snd (artifact_claim t d s)"
| "exec cfg u (Op_register_dispatcher d) s = snd (register_dispatcher d s)"
| "exec cfg u (Op_heartbeat i ttl now) s = snd (heartbeat i ttl now s)"
| "exec cfg u (Op_renew_after_store_outage i ttl now) s = snd (renew_after_store_outage i ttl now s)"
| "exec cfg u (Op_stop_dispatcher i now) s = snd (stop_dispatcher i now s)"
| "exec cfg u (Op_claim_for_reuse key owner now) s = snd (claim_for_reuse key owner now s)"
| "exec cfg u (Op_release_to_pool e limits now) s = snd (release_to_pool e limits now s)"
| "exec cfg u (Op_take_idle i now) s = snd (take_idle_for_termination i now s)"
| "exec cfg u (Op_acquire request) s = snd (acquire cfg request s)"
| "exec cfg u (Op_renew_lease i owner epoch ttl now) s = snd (renew_lease i owner epoch ttl now s)"
| "exec cfg u (Op_complete c) s = snd (complete cfg c s)"
| "exec cfg u (Op_release_lease i a epoch now) s = snd (release_lease i a epoch now s)"
| "exec cfg u (Op_reclaim_expired request) s = snd (reclaim_expired cfg request s)"
| "exec cfg u (Op_confirm_terminated i epoch now) s = snd (confirm_terminated i epoch now s)"
| "exec cfg u (Op_attach_object object i now) s = snd (attach_object u object i now s)"
| "exec cfg u (Op_claim_for_collection object reason now) s =
     snd (claim_for_collection object reason now s)"
| "exec cfg u (Op_forget_object object) s = snd (forget_object object s)"
| "exec cfg u (Op_purge_tombstones before) s = snd (purge_tombstones before s)"

definition run :: "StoreConfig \<Rightarrow> (string \<Rightarrow> u64 option) \<Rightarrow> store_op list \<Rightarrow> State \<Rightarrow> State" where
  "run cfg u ops s = fold (exec cfg u) ops s"

lemma run_simps [simp]:
  "run cfg u [] s = s"
  "run cfg u (op # ops) s = run cfg u ops (exec cfg u op s)"
  by (simp_all add: run_def)

lemma run_append: "run cfg u (xs @ ys) s = run cfg u ys (run cfg u xs s)"
  by (simp add: run_def)

text \<open>An invariant of every operation is an invariant of every history.\<close>

lemma run_invariant:
  assumes "P s" "\<And>op s. P s \<Longrightarrow> P (exec cfg u op s)"
  shows "P (run cfg u ops s)"
  using assms(1) by (induction ops arbitrary: s) (auto intro: assms(2))

section \<open>The order of states\<close>

definition fn_le :: "Function \<Rightarrow> Function \<Rightarrow> bool" where
  "fn_le f f' \<longleftrightarrow> row_le fn_identity fn_final f f' \<and>
     (fn_is_deleted f \<longrightarrow> fn_deleted_at f' = fn_deleted_at f \<and> fn_description f' = fn_description f)"

abbreviation rev_le :: "FunctionRevision \<Rightarrow> FunctionRevision \<Rightarrow> bool" where
  "rev_le \<equiv> row_le rev_identity rev_final"

definition al_le :: "FunctionAlias \<Rightarrow> FunctionAlias \<Rightarrow> bool" where
  "al_le a a' \<longleftrightarrow> a' = a \<or>
     al_function_id a' = al_function_id a \<and> al_tenant_id a' = al_tenant_id a \<and>
     al_name a' = al_name a \<and> al_created_at a' = al_created_at a \<and>
     al_generation a < al_generation a'"

abbreviation inv_le :: "Invocation \<Rightarrow> Invocation \<Rightarrow> bool" where
  "inv_le \<equiv> row_le inv_identity inv_final"

abbreviation att_le :: "InvocationAttempt \<Rightarrow> InvocationAttempt \<Rightarrow> bool" where
  "att_le \<equiv> row_le att_identity att_final"

definition env_le :: "ExecutionEnvironment \<Rightarrow> ExecutionEnvironment \<Rightarrow> bool" where
  "env_le e e' \<longleftrightarrow> row_le env_identity env_is_terminal e e' \<and>
     (env_fenced_at e \<noteq> None \<longrightarrow> env_fenced_at e' = env_fenced_at e \<and> env_epoch e' = env_epoch e)"

definition lse_le :: "ExecutionLease \<Rightarrow> ExecutionLease \<Rightarrow> bool" where
  "lse_le l l' \<longleftrightarrow> row_le lse_identity lse_final l l' \<and>
     (\<forall>t. lse_expires_at l = Some t \<longrightarrow> (\<exists>t'. lse_expires_at l' = Some t' \<and> t \<le> t'))"

definition dsp_le :: "DispatcherRecord \<Rightarrow> DispatcherRecord \<Rightarrow> bool" where
  "dsp_le d d' \<longleftrightarrow> dsp_id d' = dsp_id d \<and> dsp_instance d' = dsp_instance d \<and>
     dsp_hostname d' = dsp_hostname d \<and> dsp_pid d' = dsp_pid d \<and>
     dsp_started_at d' = dsp_started_at d \<and>
     (dsp_stopped_at d \<noteq> None \<longrightarrow> dsp_stopped_at d' = dsp_stopped_at d) \<and>
     (dsp_reclaimed_at d \<noteq> None \<longrightarrow> dsp_reclaimed_at d' = dsp_reclaimed_at d) \<and>
     dsp_lease_expires_at d \<le> dsp_lease_expires_at d' \<and>
     (\<not> dsp_is_live d \<longrightarrow> dsp_lease_expires_at d' = dsp_lease_expires_at d
        \<and> dsp_heartbeat_at d' = dsp_heartbeat_at d)"

lemma le_refl [simp]:
  "fn_le f f" "row_le ident_of final_of r r" "al_le a a" "env_le e e" "lse_le l l" "dsp_le d d"
  by (simp_all add: fn_le_def row_le_def al_le_def env_le_def lse_le_def dsp_le_def)

lemma le_reflp [simp]:
  "reflp fn_le" "reflp (row_le ident_of final_of)" "reflp al_le" "reflp env_le" "reflp lse_le"
  "reflp dsp_le"
  by (simp_all add: reflp_def)

lemma le_transp:
  "transp fn_le" "transp al_le" "transp env_le" "transp lse_le" "transp dsp_le"
proof -
  show "transp fn_le"
    by (rule transpI) (auto simp: fn_le_def row_le_def fn_is_deleted_def)
  show "transp al_le" by (rule transpI) (auto simp: al_le_def)
  show "transp env_le" by (rule transpI) (auto simp: env_le_def row_le_def)
  show "transp lse_le" by (rule transpI) (fastforce simp: lse_le_def row_le_def)
  show "transp dsp_le" by (rule transpI) (auto simp: dsp_le_def dsp_is_live_def)
qed

definition state_le :: "State \<Rightarrow> State \<Rightarrow> bool" where
  "state_le s s' \<longleftrightarrow>
     rows_le fn_le (st_functions s) (st_functions s') \<and>
     rows_le rev_le (st_revisions s) (st_revisions s') \<and>
     rows_le al_le (st_aliases s) (st_aliases s') \<and>
     rows_le inv_le (st_invocations s) (st_invocations s') \<and>
     rows_le att_le (st_attempts s) (st_attempts s') \<and>
     rows_le env_le (st_environments s) (st_environments s') \<and>
     rows_le lse_le (st_leases s) (st_leases s') \<and>
     rows_le dsp_le (st_dispatchers s) (st_dispatchers s')"

lemma rows_le_refl_le [simp]: "reflp R \<Longrightarrow> rows_le R m m"
  by (rule rows_le_refl)

lemma state_le_refl [simp]: "state_le s s"
  by (simp add: state_le_def)

lemma state_le_trans: "state_le s s' \<Longrightarrow> state_le s' s'' \<Longrightarrow> state_le s s''"
  unfolding state_le_def by (blast intro: rows_le_trans le_transp row_le_trans)

lemma fold_state_le:
  assumes "\<And>x sr. state_le (fst sr) (fst (f x sr))"
  shows "state_le (fst sr) (fst (fold f xs sr))"
proof (induction xs arbitrary: sr)
  case (Cons x xs)
  show ?case using state_le_trans [OF assms Cons.IH] by simp
qed simp

section \<open>Row steps\<close>

text \<open>
  \<open>rows_upd R m m'\<close>: the same keys, every row related by \<open>R\<close> -- what one write to an
  existing row and a loop over \<open>values_mut\<close> have in common.
\<close>

definition rows_upd ::
  "('v \<Rightarrow> 'v \<Rightarrow> bool) \<Rightarrow> ('k::linorder, 'v) btreemap \<Rightarrow> ('k, 'v) btreemap \<Rightarrow> bool" where
  "rows_upd R m m' \<longleftrightarrow> (\<forall>k. rel_option R (bt_get m k) (bt_get m' k))"

lemma rows_upd_get: "rows_upd R m m' \<Longrightarrow> bt_get m' k = Some v' \<Longrightarrow> \<exists>v. bt_get m k = Some v \<and> R v v'"
  unfolding rows_upd_def by (metis option_rel_Some2)

lemma rows_upd_get_old: "rows_upd R m m' \<Longrightarrow> bt_get m k = Some v \<Longrightarrow> \<exists>v'. bt_get m' k = Some v' \<and> R v v'"
  unfolding rows_upd_def by (metis option_rel_Some1)

lemma rows_upd_le: "rows_upd R m m' \<Longrightarrow> rows_le R m m'"
  unfolding rows_le_def by (metis rows_upd_get_old)

lemma rows_upd_insert:
  assumes "reflp R" "bt_get m k = Some old" "R old v"
  shows "rows_upd R m (bt_insert k v m)"
  using assms by (auto simp: rows_upd_def option.rel_refl reflpD)

lemma rows_upd_map:
  assumes "\<And>k v. bt_get m k = Some v \<Longrightarrow> R v (f k v)"
  shows "rows_upd R m (bt_map f m)"
  unfolding rows_upd_def
proof
  fix k
  show "rel_option R (bt_get m k) (bt_get (bt_map f m) k)"
    using assms by (cases "bt_get m k") auto
qed

lemma rows_upd_refl [simp]: "reflp R \<Longrightarrow> rows_upd R m m"
  by (simp add: rows_upd_def option.rel_refl reflpD)

text \<open>What may happen to an environment that is neither assigned nor fenced by the write.\<close>

definition env_keeps :: "ExecutionEnvironment \<Rightarrow> ExecutionEnvironment \<Rightarrow> bool" where
  "env_keeps e e' \<longleftrightarrow> e' = e \<or> env_identity e' = env_identity e \<and> \<not> env_is_terminal e \<and>
     env_epoch e' = env_epoch e \<and> env_fenced_at e' = env_fenced_at e"

definition lse_renewed :: "ExecutionLease \<Rightarrow> ExecutionLease \<Rightarrow> bool" where
  "lse_renewed l l' \<longleftrightarrow> l' = l \<or> (\<exists>now ttl. lse_released_at l = None \<and> l' = lse_extend l now ttl)"

lemma keeps_reflp [simp]: "reflp env_keeps" "reflp lse_renewed"
  by (simp_all add: reflp_def env_keeps_def lse_renewed_def)

text \<open>
  \<open>row_step\<close> is the abstract store: one atomic change of one table (of three for an
  assignment), with the condition under which the store makes it.  The operations of the
  store are shown to be sequences of row steps, so what every row step keeps, every
  operation and every history keeps.
\<close>

inductive row_step :: "State \<Rightarrow> State \<Rightarrow> bool" where
  unrelated: "row_step s (s\<lparr>st_revision_counters := a, st_artifact_owners := b, st_publication := c,
    st_publication_generation := d\<rparr>)"
| function_new: "\<lbrakk>bt_get (st_functions s) (fn_id f) = None;
    \<And>k g. bt_get (st_functions s) k = Some g \<Longrightarrow> fn_tenant_id g = fn_tenant_id f \<Longrightarrow>
      fn_name g = fn_name f \<Longrightarrow> fn_is_deleted g \<or> fn_is_deleted f\<rbrakk> \<Longrightarrow>
    row_step s (s\<lparr>st_functions := bt_insert (fn_id f) f (st_functions s)\<rparr>)"
| function_rows: "rows_upd fn_le (st_functions s) m \<Longrightarrow> row_step s (s\<lparr>st_functions := m\<rparr>)"
| revision_new: "\<lbrakk>bt_get (st_revisions s) (rev_id r) = None;
    \<And>k q. bt_get (st_revisions s) k = Some q \<Longrightarrow> rev_function_id q = rev_function_id r \<Longrightarrow>
      rev_number q \<noteq> rev_number r\<rbrakk> \<Longrightarrow>
    row_step s (s\<lparr>st_revisions := bt_insert (rev_id r) r (st_revisions s)\<rparr>)"
| revision_rows: "rows_upd rev_le (st_revisions s) m \<Longrightarrow> row_step s (s\<lparr>st_revisions := m\<rparr>)"
| alias_put: "\<lbrakk>\<And>old. bt_get (st_aliases s) (al_function_id a, al_name a) = Some old \<Longrightarrow> al_le old a;
    bt_get (st_revisions s) (al_revision_id a) = Some r; rev_function_id r = al_function_id a;
    rev_tenant_id r = al_tenant_id a\<rbrakk> \<Longrightarrow>
    row_step s (s\<lparr>st_aliases := bt_insert (al_function_id a, al_name a) a (st_aliases s)\<rparr>)"
| invocation_new: "bt_get (st_invocations s) (inv_id i) = None \<Longrightarrow>
    row_step s (s\<lparr>st_invocations := bt_insert (inv_id i) i (st_invocations s)\<rparr>)"
| invocation_rows: "rows_upd inv_le (st_invocations s) m \<Longrightarrow> row_step s (s\<lparr>st_invocations := m\<rparr>)"
| attempt_new: "bt_get (st_attempts s) (att_id a) = None \<Longrightarrow>
    row_step s (s\<lparr>st_attempts := bt_insert (att_id a) a (st_attempts s)\<rparr>)"
| attempt_rows: "rows_upd att_le (st_attempts s) m \<Longrightarrow> row_step s (s\<lparr>st_attempts := m\<rparr>)"
| environment_new: "bt_get (st_environments s) (env_id e) = None \<Longrightarrow>
    row_step s (s\<lparr>st_environments := bt_insert (env_id e) e (st_environments s)\<rparr>)"
| environment_rows: "rows_upd env_keeps (st_environments s) m \<Longrightarrow> row_step s (s\<lparr>st_environments := m\<rparr>)"
| fence: "\<lbrakk>bt_get (st_environments s) k = Some e; env_fenced_at e = None; env_fence e now = Inr e';
    \<not> has_unreleased_lease s k\<rbrakk> \<Longrightarrow>
    row_step s (s\<lparr>st_environments := bt_insert k e' (st_environments s)\<rparr>)"
| assign: "\<lbrakk>bt_get (st_environments s) (env_id e) = Some old; env_identity e = env_identity old;
    env_is_reusable old; env_epoch e = env_epoch old + 1;
    \<not> has_unreleased_lease s (env_id e);
    bt_get (st_leases s) (lse_id l) = None; lse_environment_id l = env_id e;
    lse_epoch l = env_epoch e; lse_owner l = env_owner old; lse_owner l \<noteq> None;
    lse_expires_at l \<noteq> None; lse_released_at l = None; lse_tenant_id l = env_tenant_id old;
    bt_get (st_attempts s) (att_id a) = None; lse_attempt_id l = att_id a;
    att_environment_id a = env_id e; att_epoch a = env_epoch e\<rbrakk> \<Longrightarrow>
    row_step s (s\<lparr>st_environments := bt_insert (env_id e) e (st_environments s),
                  st_leases := bt_insert (lse_id l) l (st_leases s),
                  st_attempts := bt_insert (att_id a) a (st_attempts s)\<rparr>)"
| renew: "rows_upd lse_renewed (st_leases s) m \<Longrightarrow> row_step s (s\<lparr>st_leases := m\<rparr>)"
| release: "bt_get (st_leases s) k = Some l \<Longrightarrow> lse_release l now = Inr l' \<Longrightarrow>
    row_step s (s\<lparr>st_leases := bt_insert k l' (st_leases s)\<rparr>)"
| dispatcher_new: "bt_get (st_dispatchers s) (dsp_id d) = None \<Longrightarrow>
    row_step s (s\<lparr>st_dispatchers := bt_insert (dsp_id d) d (st_dispatchers s)\<rparr>)"
| dispatcher_rows: "rows_upd dsp_le (st_dispatchers s) m \<Longrightarrow> row_step s (s\<lparr>st_dispatchers := m\<rparr>)"
| bind: "\<lbrakk>bt_get (st_invocations s) (inv_id i) = Some i;
    inv_idempotency_key i = Some key; bnd_invocation_id b = inv_id i;
    bnd_input_digest b = inv_input_digest i; bnd_expires_at b = None;
    \<And>old. bt_get (st_idempotency s) (inv_tenant_id i, inv_function_id i, key) = Some old \<Longrightarrow>
      bnd_expires_at old \<noteq> None\<rbrakk> \<Longrightarrow>
    row_step s (s\<lparr>st_idempotency :=
      bt_insert (inv_tenant_id i, inv_function_id i, key) b (st_idempotency s)\<rparr>)"
| bind_expiry: "bt_get (st_invocations s) (inv_id i) = Some i \<Longrightarrow>
    row_step s (set_binding_expiry s i retention)"
| unbind: "(\<And>k b. bnd_expires_at b = None \<Longrightarrow> p k b) \<Longrightarrow>
    row_step s (s\<lparr>st_idempotency := bt_retain p (st_idempotency s)\<rparr>)"
| attach: "\<lbrakk>bt_get (st_invocations s) i = Some iv;
    bt_get (st_object_tombstones s) (as_str object) = None\<rbrakk> \<Longrightarrow>
    row_step s (s\<lparr>st_object_refs := bt_insert (as_str object)
      (bt_insert i () (refs_of s object)) (st_object_refs s)\<rparr>)"
| tombstone: "(\<And>i. i \<in> set (bt_keys (refs_of s object)) \<Longrightarrow>
      \<exists>iv. bt_get (st_invocations s) i = Some iv \<and> IS_is_terminal (inv_status iv)) \<Longrightarrow>
    row_step s (s\<lparr>st_object_tombstones :=
      bt_insert (as_str object) t (st_object_tombstones s)\<rparr>)"
| forget: "row_step s (s\<lparr>st_object_refs := bt_remove k (st_object_refs s)\<rparr>)"
| untombstone: "row_step s (s\<lparr>st_object_tombstones := bt_retain q (st_object_tombstones s)\<rparr>)"

lemma set_binding_expiry_frame [simp]:
  "st_functions (set_binding_expiry s i r) = st_functions s"
  "st_revisions (set_binding_expiry s i r) = st_revisions s"
  "st_aliases (set_binding_expiry s i r) = st_aliases s"
  "st_invocations (set_binding_expiry s i r) = st_invocations s"
  "st_attempts (set_binding_expiry s i r) = st_attempts s"
  "st_environments (set_binding_expiry s i r) = st_environments s"
  "st_leases (set_binding_expiry s i r) = st_leases s"
  "st_dispatchers (set_binding_expiry s i r) = st_dispatchers s"
  "st_object_refs (set_binding_expiry s i r) = st_object_refs s"
  "st_object_tombstones (set_binding_expiry s i r) = st_object_tombstones s"
  by (simp_all add: set_binding_expiry_def Let_def)

lemma lse_extend_le: "lse_released_at l = None \<Longrightarrow> lse_le l (lse_extend l now ttl)"
  by (auto simp: lse_le_def row_le_def lse_identity_def)
     (auto simp: lse_extend_def Let_def opt_is_none_or_iff split: if_splits)

lemma lse_renewed_le: "lse_renewed l l' \<Longrightarrow> lse_le l l'"
  by (auto simp: lse_renewed_def lse_extend_le)

lemma lse_release_le: "lse_release l now = Inr l' \<Longrightarrow> lse_le l l'"
  by (auto simp: lse_release_ok lse_le_def row_le_def lse_identity_def)

lemma env_keeps_le: "env_keeps e e' \<Longrightarrow> env_le e e'"
  by (auto simp: env_keeps_def env_le_def row_le_def)

lemma env_fence_le: "env_fenced_at e = None \<Longrightarrow> env_fence e now = Inr e' \<Longrightarrow> env_le e e'"
  by (auto simp: env_fence_ok env_le_def row_le_def env_identity_def env_is_terminal_def)

text \<open>A row step moves up in the order.\<close>

lemma row_step_le: "row_step s s' \<Longrightarrow> state_le s s'"
proof (induction rule: row_step.induct)
  case (environment_rows s m)
  then show ?case
    by (auto simp: state_le_def intro: rows_le_mono [OF rows_upd_le env_keeps_le])
next
  case (renew s m)
  then show ?case
    by (auto simp: state_le_def intro: rows_le_mono [OF rows_upd_le lse_renewed_le])
next
  case (fence s k e now e')
  then show ?case
    by (auto simp: state_le_def intro!: rows_le_insert intro: env_fence_le)
next
  case (assign s e old l a)
  have "env_le old e"
    using assign.hyps by (auto simp: env_le_def row_le_def env_is_reusable_def env_is_terminal_def)
  then show ?case using assign.hyps by (auto simp: state_le_def intro!: rows_le_insert)
next
  case (release s k l now l')
  then show ?case by (auto simp: state_le_def intro!: rows_le_insert intro: lse_release_le)
qed (auto simp: state_le_def intro!: rows_le_insert intro: rows_upd_le)

lemma row_steps_le: "row_step\<^sup>*\<^sup>* s s' \<Longrightarrow> state_le s s'"
  by (induction rule: rtranclp_induct) (auto intro: state_le_trans row_step_le)

end
