(* ===== verification/Store_Invariant.thy ===== *)
theory Store_Invariant
  imports Store_Order
begin

text \<open>
  The invariant of the store, kept by every row step: rows sit under their own keys; the
  names of the live functions of a tenant and the revision numbers of a function are unique;
  an alias points at an existing revision of its function; a lease names an environment and
  an attempt that exist and agree with it, and an unreleased lease is the only one of its
  environment and at its epoch; a binding agrees with the invocation it names and expires
  only once that is terminal; a tombstoned object is referenced by terminal invocations only.
\<close>

section \<open>The parts\<close>

definition keyed :: "('v \<Rightarrow> 'k::linorder) \<Rightarrow> ('k, 'v) btreemap \<Rightarrow> bool" where
  "keyed key m \<longleftrightarrow> (\<forall>k v. bt_get m k = Some v \<longrightarrow> key v = k)"

definition keys_inv :: "State \<Rightarrow> bool" where
  "keys_inv s \<longleftrightarrow>
     keyed fn_id (st_functions s) \<and> keyed rev_id (st_revisions s) \<and>
     keyed (\<lambda>a. (al_function_id a, al_name a)) (st_aliases s) \<and>
     keyed inv_id (st_invocations s) \<and> keyed att_id (st_attempts s) \<and>
     keyed env_id (st_environments s) \<and> keyed lse_id (st_leases s) \<and>
     keyed dsp_id (st_dispatchers s)"

definition names_inv :: "State \<Rightarrow> bool" where
  "names_inv s \<longleftrightarrow>
     (\<forall>k k' f f'. bt_get (st_functions s) k = Some f \<longrightarrow> bt_get (st_functions s) k' = Some f' \<longrightarrow>
        \<not> fn_is_deleted f \<longrightarrow> \<not> fn_is_deleted f' \<longrightarrow> fn_tenant_id f = fn_tenant_id f' \<longrightarrow>
        fn_name f = fn_name f' \<longrightarrow> k = k')"

definition numbers_inv :: "State \<Rightarrow> bool" where
  "numbers_inv s \<longleftrightarrow>
     (\<forall>k k' r r'. bt_get (st_revisions s) k = Some r \<longrightarrow> bt_get (st_revisions s) k' = Some r' \<longrightarrow>
        rev_function_id r = rev_function_id r' \<longrightarrow> rev_number r = rev_number r' \<longrightarrow> k = k')"

definition aliases_inv :: "State \<Rightarrow> bool" where
  "aliases_inv s \<longleftrightarrow>
     (\<forall>k a. bt_get (st_aliases s) k = Some a \<longrightarrow>
        (\<exists>r. bt_get (st_revisions s) (al_revision_id a) = Some r \<and>
           rev_function_id r = al_function_id a \<and> rev_tenant_id r = al_tenant_id a))"

definition lease_env_ok :: "State \<Rightarrow> ExecutionLease \<Rightarrow> bool" where
  "lease_env_ok s l \<longleftrightarrow>
     (\<exists>e. bt_get (st_environments s) (lse_environment_id l) = Some e \<and>
        env_tenant_id e = lse_tenant_id l \<and> env_owner e = lse_owner l)"

definition lease_attempt_ok :: "State \<Rightarrow> ExecutionLease \<Rightarrow> bool" where
  "lease_attempt_ok s l \<longleftrightarrow>
     (\<exists>a. bt_get (st_attempts s) (lse_attempt_id l) = Some a \<and>
        att_environment_id a = lse_environment_id l \<and> att_epoch a = lse_epoch l)"

definition leases_inv :: "State \<Rightarrow> bool" where
  "leases_inv s \<longleftrightarrow>
     (\<forall>k l. bt_get (st_leases s) k = Some l \<longrightarrow>
        lse_owner l \<noteq> None \<and> lse_expires_at l \<noteq> None \<and> lease_env_ok s l \<and> lease_attempt_ok s l)"

definition slots_inv :: "State \<Rightarrow> bool" where
  "slots_inv s \<longleftrightarrow>
     (\<forall>k l e. bt_get (st_leases s) k = Some l \<longrightarrow> lse_released_at l = None \<longrightarrow>
        bt_get (st_environments s) (lse_environment_id l) = Some e \<longrightarrow> env_epoch e = lse_epoch l) \<and>
     (\<forall>k k' l l'. bt_get (st_leases s) k = Some l \<longrightarrow> bt_get (st_leases s) k' = Some l' \<longrightarrow>
        lse_released_at l = None \<longrightarrow> lse_released_at l' = None \<longrightarrow>
        lse_environment_id l = lse_environment_id l' \<longrightarrow> k = k')"

definition bindings_inv :: "State \<Rightarrow> bool" where
  "bindings_inv s \<longleftrightarrow>
     (\<forall>t f key b. bt_get (st_idempotency s) (t, f, key) = Some b \<longrightarrow>
        (\<exists>i. bt_get (st_invocations s) (bnd_invocation_id b) = Some i \<and>
           inv_tenant_id i = t \<and> inv_function_id i = f \<and> inv_idempotency_key i = Some key \<and>
           inv_input_digest i = bnd_input_digest b \<and>
           (bnd_expires_at b \<noteq> None \<longrightarrow> IS_is_terminal (inv_status i))))"

definition objects_inv :: "State \<Rightarrow> bool" where
  "objects_inv s \<longleftrightarrow>
     (\<forall>o' t refs i. bt_get (st_object_tombstones s) o' = Some t \<longrightarrow>
        bt_get (st_object_refs s) o' = Some refs \<longrightarrow> bt_get refs i = Some () \<longrightarrow>
        (\<exists>iv. bt_get (st_invocations s) i = Some iv \<and> IS_is_terminal (inv_status iv)))"

definition store_inv :: "State \<Rightarrow> bool" where
  "store_inv s \<longleftrightarrow> keys_inv s \<and> names_inv s \<and> numbers_inv s \<and> aliases_inv s \<and> leases_inv s \<and>
     slots_inv s \<and> bindings_inv s \<and> objects_inv s"

lemma store_inv_default: "store_inv State_default"
  by (simp add: store_inv_def keys_inv_def keyed_def names_inv_def numbers_inv_def aliases_inv_def
      leases_inv_def slots_inv_def bindings_inv_def objects_inv_def State_default_def)

section \<open>Keys\<close>

lemma keyedD: "keyed key m \<Longrightarrow> bt_get m k = Some v \<Longrightarrow> key v = k"
  by (simp add: keyed_def)

lemma keyed_insert: "keyed key m \<Longrightarrow> key v = k \<Longrightarrow> keyed key (bt_insert k v m)"
  by (simp add: keyed_def)

lemma keyed_upd:
  assumes "keyed key m" "rows_upd R m m'" "\<And>v v'. R v v' \<Longrightarrow> key v' = key v"
  shows "keyed key m'"
  unfolding keyed_def using assms(1,3) rows_upd_get [OF assms(2)] by (metis keyedD)

lemma le_id:
  "fn_le f f' \<Longrightarrow> fn_id f' = fn_id f" "rev_le r r' \<Longrightarrow> rev_id r' = rev_id r"
  "inv_le i i' \<Longrightarrow> inv_id i' = inv_id i" "att_le a a' \<Longrightarrow> att_id a' = att_id a"
  "env_keeps e e' \<Longrightarrow> env_id e' = env_id e" "lse_renewed l l' \<Longrightarrow> lse_id l' = lse_id l"
  "dsp_le d d' \<Longrightarrow> dsp_id d' = dsp_id d"
  by (auto simp: fn_le_def row_le_def identity_defs env_keeps_def lse_renewed_def dsp_le_def)

lemma row_step_keys: "row_step s s' \<Longrightarrow> keys_inv s \<Longrightarrow> keys_inv s'"
proof (induction rule: row_step.induct)
  case (fence s k e now e')
  then show ?case
    by (auto simp: keys_inv_def env_fence_ok intro!: keyed_insert dest: keyedD)
next
  case (release s k l now l')
  then show ?case
    by (auto simp: keys_inv_def lse_release_ok intro!: keyed_insert dest: keyedD)
qed (auto simp: keys_inv_def intro: keyed_insert keyed_upd le_id)

section \<open>Names, numbers and aliases\<close>

lemma fn_le_names:
  "fn_le f f' \<Longrightarrow> fn_tenant_id f' = fn_tenant_id f \<and> fn_name f' = fn_name f
     \<and> (\<not> fn_is_deleted f' \<longrightarrow> \<not> fn_is_deleted f)"
  by (auto simp: fn_le_def row_le_def fn_identity_def fn_is_deleted_def)

lemma names_upd:
  assumes "names_inv s" "rows_upd fn_le (st_functions s) m"
  shows "names_inv (s\<lparr>st_functions := m\<rparr>)"
  unfolding names_inv_def
proof (intro allI impI)
  fix k k' f f'
  assume "bt_get (st_functions (s\<lparr>st_functions := m\<rparr>)) k = Some f"
    "bt_get (st_functions (s\<lparr>st_functions := m\<rparr>)) k' = Some f'"
    and same: "\<not> fn_is_deleted f" "\<not> fn_is_deleted f'" "fn_tenant_id f = fn_tenant_id f'"
      "fn_name f = fn_name f'"
  then obtain g g' where "bt_get (st_functions s) k = Some g" "fn_le g f"
    "bt_get (st_functions s) k' = Some g'" "fn_le g' f'"
    using rows_upd_get [OF assms(2)] by (metis State.select_convs(1) State.update_convs(1) State.surjective)
  then show "k = k'"
    using assms(1) same fn_le_names [of g f] fn_le_names [of g' f'] by (simp add: names_inv_def)
qed

lemma row_step_names: "row_step s s' \<Longrightarrow> names_inv s \<Longrightarrow> names_inv s'"
proof (induction rule: row_step.induct)
  case (function_new s f)
  then show ?case by (auto simp: names_inv_def)
next
  case (function_rows s m)
  then show ?case by (blast intro: names_upd)
qed (auto simp: names_inv_def)

lemma rev_le_fields:
  "rev_le r r' \<Longrightarrow> rev_function_id r' = rev_function_id r \<and> rev_tenant_id r' = rev_tenant_id r
     \<and> rev_number r' = rev_number r"
  by (auto simp: row_le_def rev_identity_def)

lemma row_step_numbers: "row_step s s' \<Longrightarrow> numbers_inv s \<Longrightarrow> numbers_inv s'"
proof (induction rule: row_step.induct)
  case (revision_new s r)
  then show ?case by (auto simp: numbers_inv_def) metis+
next
  case (revision_rows s m)
  show ?case
    unfolding numbers_inv_def
  proof (intro allI impI)
    fix k k' r r'
    assume "bt_get (st_revisions (s\<lparr>st_revisions := m\<rparr>)) k = Some r"
      "bt_get (st_revisions (s\<lparr>st_revisions := m\<rparr>)) k' = Some r'"
      and same: "rev_function_id r = rev_function_id r'" "rev_number r = rev_number r'"
    then obtain q q' where "bt_get (st_revisions s) k = Some q" "rev_le q r"
      "bt_get (st_revisions s) k' = Some q'" "rev_le q' r'"
      using rows_upd_get [OF revision_rows.hyps] by auto metis
    then show "k = k'"
      using revision_rows.prems same rev_le_fields [of q r] rev_le_fields [of q' r']
      by (simp add: numbers_inv_def)
  qed
qed (auto simp: numbers_inv_def)

text \<open>An alias keeps its target because revisions only move up in the order.\<close>

lemma aliases_mono:
  assumes "aliases_inv s" "rows_le rev_le (st_revisions s) (st_revisions s')"
    "st_aliases s' = st_aliases s"
  shows "aliases_inv s'"
  unfolding aliases_inv_def assms(3)
proof (intro allI impI)
  fix k a
  assume "bt_get (st_aliases s) k = Some a"
  then obtain r where "bt_get (st_revisions s) (al_revision_id a) = Some r"
    "rev_function_id r = al_function_id a" "rev_tenant_id r = al_tenant_id a"
    using assms(1) unfolding aliases_inv_def by blast
  moreover from this(1) obtain r' where "bt_get (st_revisions s') (al_revision_id a) = Some r'"
    "rev_le r r'" using assms(2) by (auto dest: rows_leD)
  ultimately show "\<exists>r. bt_get (st_revisions s') (al_revision_id a) = Some r \<and>
      rev_function_id r = al_function_id a \<and> rev_tenant_id r = al_tenant_id a"
    using rev_le_fields by auto
qed

lemma row_step_aliases: "row_step s s' \<Longrightarrow> aliases_inv s \<Longrightarrow> aliases_inv s'"
proof (induction rule: row_step.induct)
  case (alias_put s a r)
  then show ?case by (auto simp: aliases_inv_def)
next
  case (revision_new s r)
  then show ?case by (auto intro!: aliases_mono [of s] rows_le_insert)
next
  case (revision_rows s m)
  then show ?case by (auto intro!: aliases_mono [of s] rows_upd_le)
qed (auto simp: aliases_inv_def)

section \<open>Leases and slots\<close>

lemma lease_env_ok_mono:
  assumes "state_le s s'" "lease_env_ok s l" "lse_identity l' = lse_identity l"
  shows "lease_env_ok s' l'"
proof -
  obtain e where "bt_get (st_environments s) (lse_environment_id l) = Some e"
    "env_tenant_id e = lse_tenant_id l" "env_owner e = lse_owner l"
    using assms(2) by (auto simp: lease_env_ok_def)
  moreover from this(1) obtain e' where "bt_get (st_environments s') (lse_environment_id l) = Some e'"
    "env_le e e'" using assms(1) unfolding state_le_def by (meson rows_leD)
  ultimately show ?thesis
    using assms(3) by (auto simp: lease_env_ok_def env_le_def row_le_def env_identity_def lse_identity_def)
qed

lemma lease_attempt_ok_mono:
  assumes "state_le s s'" "lease_attempt_ok s l" "lse_identity l' = lse_identity l"
  shows "lease_attempt_ok s' l'"
proof -
  obtain a where "bt_get (st_attempts s) (lse_attempt_id l) = Some a"
    "att_environment_id a = lse_environment_id l" "att_epoch a = lse_epoch l"
    using assms(2) by (auto simp: lease_attempt_ok_def)
  moreover from this(1) obtain a' where "bt_get (st_attempts s') (lse_attempt_id l) = Some a'"
    "att_le a a'" using assms(1) unfolding state_le_def by (meson rows_leD)
  ultimately show ?thesis
    using assms(3) by (auto simp: lease_attempt_ok_def row_le_def att_identity_def lse_identity_def)
qed

text \<open>Where the leases of the next state come from.\<close>

lemma row_step_lease:
  assumes "row_step s s'" "bt_get (st_leases s') k = Some l'"
  shows "(\<exists>l. bt_get (st_leases s) k = Some l \<and> lse_le l l') \<or>
     lse_owner l' \<noteq> None \<and> lse_expires_at l' \<noteq> None \<and> lease_env_ok s' l' \<and> lease_attempt_ok s' l'"
  using assms
proof (induction rule: row_step.induct)
  case (assign s e old l a)
  then show ?case
    by (auto simp: lease_env_ok_def lease_attempt_ok_def env_identity_def split: if_splits)
next
  case (renew s m)
  then have "\<exists>l. bt_get (st_leases s) k = Some l \<and> lse_renewed l l'"
    using rows_upd_get [OF renew.hyps] by simp
  then show ?case using lse_renewed_le by blast
next
  case (release s k0 l now l1)
  then show ?case by (auto split: if_splits intro: lse_release_le)
qed auto

lemma row_step_leases:
  assumes "row_step s s'" "leases_inv s"
  shows "leases_inv s'"
  unfolding leases_inv_def
proof (intro allI impI)
  fix k l'
  assume "bt_get (st_leases s') k = Some l'"
  from row_step_lease [OF assms(1) this]
  show "lse_owner l' \<noteq> None \<and> lse_expires_at l' \<noteq> None \<and> lease_env_ok s' l' \<and> lease_attempt_ok s' l'"
  proof
    assume "\<exists>l. bt_get (st_leases s) k = Some l \<and> lse_le l l'"
    then obtain l where l: "bt_get (st_leases s) k = Some l" and le: "lse_le l l'" by blast
    have id_eq: "lse_identity l' = lse_identity l" using le by (simp add: lse_le_def row_le_def)
    have old: "lse_owner l \<noteq> None" "lse_expires_at l \<noteq> None" "lease_env_ok s l" "lease_attempt_ok s l"
      using assms(2) l by (auto simp: leases_inv_def)
    then show ?thesis
      using le id_eq lease_env_ok_mono [OF row_step_le [OF assms(1)] old(3) id_eq]
        lease_attempt_ok_mono [OF row_step_le [OF assms(1)] old(4) id_eq]
      by (auto simp: lse_le_def lse_identity_def)
  qed
qed

lemma has_unreleased_lease_iff:
  "has_unreleased_lease s env \<longleftrightarrow>
     (\<exists>k l. bt_get (st_leases s) k = Some l \<and> lse_environment_id l = env \<and> lse_released_at l = None)"
  by (simp add: has_unreleased_lease_def bt_ex_values)

lemma slots_epochD:
  "slots_inv s \<Longrightarrow> bt_get (st_leases s) k = Some l \<Longrightarrow> lse_released_at l = None \<Longrightarrow>
     bt_get (st_environments s) (lse_environment_id l) = Some e \<Longrightarrow> env_epoch e = lse_epoch l"
  by (simp add: slots_inv_def)

lemma slots_uniqueD:
  "slots_inv s \<Longrightarrow> bt_get (st_leases s) k = Some l \<Longrightarrow> bt_get (st_leases s) k' = Some l' \<Longrightarrow>
     lse_released_at l = None \<Longrightarrow> lse_released_at l' = None \<Longrightarrow>
     lse_environment_id l = lse_environment_id l' \<Longrightarrow> k = k'"
  by (simp add: slots_inv_def)

text \<open>
  A step that adds no unreleased lease and keeps the epochs of the environments that have
  one keeps the slots.
\<close>

lemma slots_keep:
  assumes inv: "slots_inv s" "leases_inv s"
    and leases: "\<And>k l'. bt_get (st_leases s') k = Some l' \<Longrightarrow> lse_released_at l' = None \<Longrightarrow>
      \<exists>l. bt_get (st_leases s) k = Some l \<and> lse_released_at l = None \<and>
        lse_environment_id l' = lse_environment_id l \<and> lse_epoch l' = lse_epoch l"
    and epochs: "\<And>k e e'. has_unreleased_lease s k \<Longrightarrow> bt_get (st_environments s) k = Some e \<Longrightarrow>
      bt_get (st_environments s') k = Some e' \<Longrightarrow> env_epoch e' = env_epoch e"
  shows "slots_inv s'"
  unfolding slots_inv_def
proof (intro conjI allI impI)
  fix k l' e'
  assume l': "bt_get (st_leases s') k = Some l'" "lse_released_at l' = None"
    and e': "bt_get (st_environments s') (lse_environment_id l') = Some e'"
  obtain l where l: "bt_get (st_leases s) k = Some l" "lse_released_at l = None"
    and same: "lse_environment_id l' = lse_environment_id l" "lse_epoch l' = lse_epoch l"
    using leases [OF l'] by blast
  obtain e where e: "bt_get (st_environments s) (lse_environment_id l) = Some e"
    using inv(2) l(1) by (auto simp: leases_inv_def lease_env_ok_def)
  have "has_unreleased_lease s (lse_environment_id l)" using l by (auto simp: has_unreleased_lease_iff)
  from epochs [OF this e] e' have "env_epoch e' = env_epoch e" by (simp add: same(1))
  then show "env_epoch e' = lse_epoch l'"
    using same(2) slots_epochD [OF inv(1) l e] by simp
next
  fix k k' l l'
  assume new: "bt_get (st_leases s') k = Some l" "bt_get (st_leases s') k' = Some l'"
    "lse_released_at l = None" "lse_released_at l' = None"
    and same: "lse_environment_id l = lse_environment_id l'"
  obtain q q' where "bt_get (st_leases s) k = Some q" "lse_released_at q = None"
    "lse_environment_id l = lse_environment_id q"
    "bt_get (st_leases s) k' = Some q'" "lse_released_at q' = None"
    "lse_environment_id l' = lse_environment_id q'"
    using leases [OF new(1,3)] leases [OF new(2,4)] by blast
  then show "k = k'" using slots_uniqueD [OF inv(1), of k q k' q'] same by simp
qed

lemma row_step_slots: "row_step s s' \<Longrightarrow> leases_inv s \<Longrightarrow> slots_inv s \<Longrightarrow> slots_inv s'"
proof (induction rule: row_step.induct)
  case (environment_rows s m)
  have "env_epoch e' = env_epoch e"
    if "bt_get (st_environments s) k = Some e" "bt_get m k = Some e'" for k e e'
    using rows_upd_get [OF environment_rows.hyps that(2)] that(1) by (auto simp: env_keeps_def)
  then show ?case by (intro slots_keep [OF environment_rows.prems(2,1)]) auto
next
  case (assign s e old l a)
  have free: False if "bt_get (st_leases s) k = Some l'" "lse_released_at l' = None"
    "lse_environment_id l' = env_id e" for k l'
    using \<open>\<not> has_unreleased_lease s (env_id e)\<close> that unfolding has_unreleased_lease_iff by blast
  with assign show ?case by (auto simp: slots_inv_def dest: free)
next
  case (renew s m)
  have "\<exists>l. bt_get (st_leases s) k = Some l \<and> lse_released_at l = None \<and>
      lse_environment_id l' = lse_environment_id l \<and> lse_epoch l' = lse_epoch l"
    if "bt_get m k = Some l'" "lse_released_at l' = None" for k l'
    using rows_upd_get [OF renew.hyps that(1)] that(2) by (auto simp: lse_renewed_def)
  then show ?case by (intro slots_keep [OF renew.prems(2,1)]) auto
next
  case (release s k l now l')
  from release.hyps show ?case
    by (intro slots_keep [OF release.prems(2,1)]) (auto simp: lse_release_ok split: if_splits)
next
  case (fence s k e now e')
  from fence.hyps show ?case
    by (intro slots_keep [OF fence.prems(2,1)]) (auto split: if_splits)
next
  case (environment_new s e)
  from environment_new.hyps show ?case
    by (intro slots_keep [OF environment_new.prems(2,1)]) (auto split: if_splits)
qed (auto simp: slots_inv_def)

section \<open>Bindings and objects\<close>

lemma inv_le_binding:
  "inv_le i i' \<Longrightarrow> inv_tenant_id i' = inv_tenant_id i \<and> inv_function_id i' = inv_function_id i \<and>
     inv_idempotency_key i' = inv_idempotency_key i \<and> inv_input_digest i' = inv_input_digest i \<and>
     (IS_is_terminal (inv_status i) \<longrightarrow> IS_is_terminal (inv_status i'))"
  by (auto simp: row_le_def inv_identity_def)

lemma bindings_mono:
  assumes "bindings_inv s" "rows_le inv_le (st_invocations s) (st_invocations s')"
    "\<And>k b. bt_get (st_idempotency s') k = Some b \<Longrightarrow> bt_get (st_idempotency s) k = Some b"
  shows "bindings_inv s'"
  unfolding bindings_inv_def
proof (intro allI impI)
  fix t f key b
  assume "bt_get (st_idempotency s') (t, f, key) = Some b"
  then obtain i where i: "bt_get (st_invocations s) (bnd_invocation_id b) = Some i"
    and ok: "inv_tenant_id i = t" "inv_function_id i = f" "inv_idempotency_key i = Some key"
      "inv_input_digest i = bnd_input_digest b"
      "bnd_expires_at b \<noteq> None \<longrightarrow> IS_is_terminal (inv_status i)"
    using assms(1,3) unfolding bindings_inv_def by blast
  obtain i' where "bt_get (st_invocations s') (bnd_invocation_id b) = Some i'" "inv_le i i'"
    using rows_leD [OF assms(2) i] by blast
  then show "\<exists>i. bt_get (st_invocations s') (bnd_invocation_id b) = Some i \<and>
      inv_tenant_id i = t \<and> inv_function_id i = f \<and> inv_idempotency_key i = Some key \<and>
      inv_input_digest i = bnd_input_digest b \<and>
      (bnd_expires_at b \<noteq> None \<longrightarrow> IS_is_terminal (inv_status i))"
    using ok inv_le_binding [of i i'] by auto
qed

lemma bindings_expiry:
  assumes "bindings_inv s" "bt_get (st_invocations s) (inv_id i) = Some i"
  shows "bindings_inv (set_binding_expiry s i retention)"
proof -
  have "bindings_inv (s\<lparr>st_idempotency := bt_map (\<lambda>_ b. if bnd_invocation_id b = inv_id i
      then b\<lparr>bnd_expires_at := x\<rparr> else b) (st_idempotency s)\<rparr>)" if "IS_is_terminal (inv_status i)" for x
    using assms that by (fastforce simp: bindings_inv_def)
  then show ?thesis
    using assms(1) by (auto simp: set_binding_expiry_def Let_def)
qed

lemma row_step_bindings: "row_step s s' \<Longrightarrow> bindings_inv s \<Longrightarrow> bindings_inv s'"
proof (induction rule: row_step.induct)
  case (invocation_new s i)
  then show ?case by (auto intro!: bindings_mono [of s] rows_le_insert)
next
  case (invocation_rows s m)
  then show ?case by (auto intro!: bindings_mono [of s] rows_upd_le)
next
  case (bind s i key b)
  then show ?case by (auto simp: bindings_inv_def split: if_splits)
next
  case (bind_expiry s i retention)
  then show ?case by (blast intro: bindings_expiry)
next
  case (unbind p s)
  then show ?case
    by (auto intro!: bindings_mono [of s] simp: bt_get_retain split: option.splits if_splits)
qed (auto simp: bindings_inv_def)

lemma objects_mono:
  assumes "objects_inv s" "rows_le inv_le (st_invocations s) (st_invocations s')"
    "\<And>o' t. bt_get (st_object_tombstones s') o' = Some t \<Longrightarrow>
       \<exists>t. bt_get (st_object_tombstones s) o' = Some t"
    "\<And>o' refs. bt_get (st_object_refs s') o' = Some refs \<Longrightarrow> bt_get (st_object_refs s) o' = Some refs"
  shows "objects_inv s'"
  unfolding objects_inv_def
proof (intro allI impI)
  fix o' t refs i
  assume "bt_get (st_object_tombstones s') o' = Some t" "bt_get (st_object_refs s') o' = Some refs"
    "bt_get refs i = Some ()"
  then obtain iv where iv: "bt_get (st_invocations s) i = Some iv" "IS_is_terminal (inv_status iv)"
    using assms(1,3,4) unfolding objects_inv_def by metis
  then obtain iv' where "bt_get (st_invocations s') i = Some iv'" "inv_le iv iv'"
    using rows_leD [OF assms(2)] by blast
  then show "\<exists>iv. bt_get (st_invocations s') i = Some iv \<and> IS_is_terminal (inv_status iv)"
    using iv(2) inv_le_binding by blast
qed

lemma row_step_objects: "row_step s s' \<Longrightarrow> objects_inv s \<Longrightarrow> objects_inv s'"
proof (induction rule: row_step.induct)
  case (invocation_new s i)
  then show ?case by (auto intro!: objects_mono [of s] rows_le_insert)
next
  case (invocation_rows s m)
  then show ?case by (auto intro!: objects_mono [of s] rows_upd_le)
next
  case (attach s i iv object)
  then show ?case by (auto simp: objects_inv_def split: if_splits)
next
  case (tombstone s object t)
  then have "\<exists>iv. bt_get (st_invocations s) i = Some iv \<and> IS_is_terminal (inv_status iv)"
    if "bt_get (st_object_refs s) (as_str object) = Some refs" "bt_get refs i = Some ()" for refs i
    using that by (auto simp: refs_of_def bt_keys_iff)
  with tombstone show ?case by (auto simp: objects_inv_def split: if_splits)
next
  case (forget s k)
  then show ?case by (auto simp: objects_inv_def split: if_splits)
next
  case (untombstone s q)
  then show ?case
    by (auto intro!: objects_mono [of s] simp: bt_get_retain split: option.splits if_splits)
qed (auto simp: objects_inv_def)

section \<open>The invariant\<close>

theorem row_step_inv: "row_step s s' \<Longrightarrow> store_inv s \<Longrightarrow> store_inv s'"
  unfolding store_inv_def
  using row_step_keys row_step_names row_step_numbers row_step_aliases row_step_leases
    row_step_slots row_step_bindings row_step_objects
  by blast

lemma row_steps_inv: "row_step\<^sup>*\<^sup>* s s' \<Longrightarrow> store_inv s \<Longrightarrow> store_inv s'"
  by (induction rule: rtranclp_induct) (auto intro: row_step_inv)

end
