(* ===== verification/Store_Refinement.thy ===== *)
theory Store_Refinement
  imports Store_Invariant
begin

text \<open>
  The operations of the store refine the row steps: from a state that satisfies the
  invariant every operation, the loops of \<open>reclaim_expired\<close> included, is a sequence of row
  steps.  Hence every history keeps the invariant and moves up in the order of states.
\<close>

section \<open>Row updates behind the guards\<close>

lemma function_update_le: "function_update old new = Inr w \<Longrightarrow> fn_le old new"
  using fn_row.guard_row_le [of old new w]
  by (cases w) (auto simp: fn_le_def function_update_Apply fn_row.guard_Unchanged)

lemma environment_update_keeps: "environment_update old new = Inr w \<Longrightarrow> env_keeps old new"
  by (cases w) (auto simp: env_keeps_def environment_update_Apply env_row.guard_Unchanged)

lemma invocation_update_le: "invocation_update n old new = Inr w \<Longrightarrow> inv_le old new"
  by (rule inv_row.guard_row_le)

lemmas guard_le = function_update_le rev_row.guard_row_le invocation_update_le att_row.guard_row_le
  environment_update_keeps

lemma table_update_upd:
  assumes "table_update guard what k row m = Inr m'" "reflp R"
    "\<And>old w. guard old row = Inr w \<Longrightarrow> R old row"
  shows "rows_upd R m m'"
  using assms by (auto simp: table_update_ok intro: rows_upd_insert)

lemma steps_refl: "row_step\<^sup>*\<^sup>* s s"
  by simp

lemma step1: "row_step s s' \<Longrightarrow> row_step\<^sup>*\<^sup>* s s'"
  by (rule r_into_rtranclp)

lemma snd_commit: "snd (commit s r) = (case r of Inl _ \<Rightarrow> s | Inr s' \<Rightarrow> s')"
  by (simp add: commit_def split: sum.split)

lemma commit_steps:
  assumes "\<And>s'. r = Inr s' \<Longrightarrow> row_step\<^sup>*\<^sup>* s s'"
  shows "row_step\<^sup>*\<^sup>* s (snd (commit s r))"
  using assms by (auto simp: snd_commit split: sum.split)

lemma commit_step:
  assumes "\<And>s'. r = Inr s' \<Longrightarrow> row_step s s'"
  shows "row_step\<^sup>*\<^sup>* s (snd (commit s r))"
  using assms by (intro commit_steps) (auto intro: step1)

section \<open>Single-row operations\<close>

lemma stamp_config_steps: "row_step\<^sup>*\<^sup>* s (snd (stamp_config observe since s))"
proof -
  have "row_step s (s\<lparr>st_publication := rows, st_publication_generation := g\<rparr>)" for rows g
    using unrelated [where s = s and a = "st_revision_counters s" and b = "st_artifact_owners s"] by simp
  then show ?thesis
    by (auto simp: stamp_config_def split: sum.split prod.split intro: step1)
qed

lemma allocate_number_steps: "row_step\<^sup>*\<^sup>* s (snd (allocate_number f s))"
proof -
  have "row_step s (s\<lparr>st_revision_counters := c\<rparr>)" for c
    using unrelated [where s = s and a = c and b = "st_artifact_owners s" and c = "st_publication s"
        and d = "st_publication_generation s"]
    by simp
  then show ?thesis by (auto simp: allocate_number_def Let_def intro: step1)
qed

lemma artifact_claim_steps: "row_step\<^sup>*\<^sup>* s (snd (artifact_claim t d s))"
proof -
  have "row_step s (s\<lparr>st_artifact_owners := c\<rparr>)" for c
    using unrelated [where s = s and a = "st_revision_counters s" and b = c and c = "st_publication s"
        and d = "st_publication_generation s"]
    by simp
  then show ?thesis by (auto simp: artifact_claim_def Let_def intro: step1)
qed

lemma functions_insert_steps: "row_step\<^sup>*\<^sup>* s (snd (functions_insert f s))"
  by (auto simp: functions_insert_def bt_ex_values intro!: step1 function_new)

lemma functions_update_steps: "row_step\<^sup>*\<^sup>* s (snd (functions_update f s))"
  unfolding functions_update_def
  by (rule commit_steps)
     (auto intro!: step1 function_rows table_update_upd [where R = fn_le] intro: guard_le)

lemma revisions_insert_steps: "row_step\<^sup>*\<^sup>* s (snd (revisions_insert r s))"
  unfolding revisions_insert_def
  by (auto simp: bt_ex_values split: if_splits intro!: commit_step revision_new)

lemma revisions_update_steps: "row_step\<^sup>*\<^sup>* s (snd (revisions_update r s))"
  unfolding revisions_update_def
  by (rule commit_steps)
     (auto intro!: step1 revision_rows table_update_upd [where R = rev_le] intro: guard_le)

lemma aliases_insert_steps: "row_step\<^sup>*\<^sup>* s (snd (aliases_insert a s))"
  by (auto simp: aliases_insert_def Let_def alias_target_ok intro!: commit_step alias_put)

lemma aliases_compare_and_set_steps: "row_step\<^sup>*\<^sup>* s (snd (aliases_compare_and_set a g s))"
proof -
  have "row_step s (s\<lparr>st_aliases := bt_insert (al_function_id a, al_name a) a (st_aliases s)\<rparr>)"
    if cur: "bt_get (st_aliases s) (al_function_id a, al_name a) = Some current"
      "alias_update current a = Inr ()"
      "alias_target (bt_get (st_functions s) (al_function_id a))
         (bt_get (st_revisions s) (al_revision_id a)) a = Inr ()" for current
  proof -
    obtain r where "bt_get (st_revisions s) (al_revision_id a) = Some r"
      "rev_function_id r = al_function_id a" "rev_tenant_id r = al_tenant_id a"
      using cur(3) by (auto simp: alias_target_ok)
    moreover have "al_le current a" using cur(2) by (simp add: alias_update_ok al_le_def)
    ultimately show ?thesis using cur(1) by (intro alias_put) auto
  qed
  then show ?thesis
    by (auto simp: aliases_compare_and_set_def Let_def split: option.split sum.split intro!: step1)
qed

lemma invocations_insert_steps: "row_step\<^sup>*\<^sup>* s (snd (invocations_insert cfg i s))"
  unfolding invocations_insert_def
  by (rule commit_steps)
     (auto simp: insert_invocation_def split: if_splits intro!: step1 invocation_new)

lemma invocation_put_steps:
  assumes "bt_get (st_invocations s) (inv_id i) = Some old" "inv_le old i"
  shows "row_step\<^sup>*\<^sup>* s (s\<lparr>st_invocations := bt_insert (inv_id i) i (st_invocations s)\<rparr>)"
  using assms by (intro step1 invocation_rows rows_upd_insert) auto

lemma invocation_settled_steps:
  assumes "bt_get (st_invocations s) (inv_id i) = Some old" "inv_le old i"
  shows "row_step\<^sup>*\<^sup>* s
    (set_binding_expiry (s\<lparr>st_invocations := bt_insert (inv_id i) i (st_invocations s)\<rparr>) i retention)"
  using invocation_put_steps [OF assms]
  by (rule rtranclp.rtrancl_into_rtrancl) (rule bind_expiry, simp)

lemma invocations_update_steps: "row_step\<^sup>*\<^sup>* s (snd (invocations_update cfg i s))"
  unfolding invocations_update_def
  by (rule commit_steps)
     (auto split: option.splits intro!: invocation_settled_steps intro: guard_le)

lemma insert_attempt_steps: "row_step\<^sup>*\<^sup>* s (snd (invocations_insert_attempt a s))"
  by (auto simp: invocations_insert_attempt_def intro!: commit_step attempt_new)

lemma update_attempt_steps: "row_step\<^sup>*\<^sup>* s (snd (invocations_update_attempt a s))"
  unfolding invocations_update_attempt_def
  by (rule commit_steps)
     (auto intro!: step1 attempt_rows table_update_upd [where R = att_le] intro: guard_le)

lemma environments_insert_steps: "row_step\<^sup>*\<^sup>* s (snd (environments_insert e s))"
  by (auto simp: environments_insert_def intro!: commit_step environment_new)

lemma environments_update_steps: "row_step\<^sup>*\<^sup>* s (snd (environments_update e s))"
  unfolding environments_update_def
  by (rule commit_steps)
     (auto intro!: step1 environment_rows table_update_upd [where R = env_keeps] intro: guard_le)

section \<open>Idempotency and objects\<close>

lemma live_binding_None:
  assumes "bindings_inv s" "live_binding s key now = None" "bt_get (st_idempotency s) key = Some b"
  shows "bnd_expires_at b \<noteq> None"
proof -
  obtain t f k where key: "key = (t, f, k)" by (cases key)
  then have "bt_get (st_invocations s) (bnd_invocation_id b) \<noteq> None"
    using assms(1,3) unfolding bindings_inv_def by blast
  then show ?thesis using assms(2,3) by (auto simp: live_binding_def opt_is_none_or_iff split: if_splits)
qed

lemma insert_bound_steps:
  assumes "bindings_inv s"
  shows "row_step\<^sup>*\<^sup>* s (snd (insert_bound cfg i s))"
proof -
  have *: "row_step\<^sup>*\<^sup>* s (set_binding_expiry
      (s\<lparr>st_invocations := bt_insert (inv_id i) i (st_invocations s),
         st_idempotency := bt_insert (inv_tenant_id i, inv_function_id i, key)
           \<lparr> bnd_invocation_id = inv_id i, bnd_input_digest = inv_input_digest i, bnd_expires_at = None \<rparr>
           (st_idempotency s)\<rparr>) i retention)"
    if "bt_get (st_invocations s) (inv_id i) = None" "inv_idempotency_key i = Some key"
      and free: "live_binding s (inv_tenant_id i, inv_function_id i, key) (inv_accepted_at i) = None"
    for key retention
  proof -
    let ?s1 = "s\<lparr>st_invocations := bt_insert (inv_id i) i (st_invocations s)\<rparr>"
    have "row_step s ?s1" using that(1) by (rule invocation_new)
    moreover have "row_step ?s1 (?s1\<lparr>st_idempotency :=
      bt_insert (inv_tenant_id i, inv_function_id i, key)
       \<lparr> bnd_invocation_id = inv_id i, bnd_input_digest = inv_input_digest i, bnd_expires_at = None \<rparr>
       (st_idempotency ?s1)\<rparr>)" (is "row_step _ ?s2")
      using that(2) live_binding_None [OF assms free] by (intro bind) auto
    moreover have "row_step ?s2 (set_binding_expiry ?s2 i retention)"
      by (rule bind_expiry) simp
    ultimately show ?thesis by (auto intro: rtranclp.rtrancl_into_rtrancl)
  qed
  show ?thesis
    by (auto simp: insert_bound_def Let_def insert_invocation_def split: option.split sum.split if_splits
        intro: * step1 invocation_new intro!: *)
qed

lemma purge_expired_idempotency_steps: "row_step\<^sup>*\<^sup>* s (snd (purge_expired_idempotency now s))"
  by (auto simp: purge_expired_idempotency_def Let_def intro!: step1 unbind)

lemma attach_object_steps: "row_step\<^sup>*\<^sup>* s (snd (attach_object u object i now s))"
  unfolding attach_object_def
  by (rule commit_steps) (auto split: option.splits if_splits intro!: step1 attach)

lemma claim_for_collection_steps: "row_step\<^sup>*\<^sup>* s (snd (claim_for_collection object reason now s))"
  by (auto simp: claim_for_collection_def Let_def filter_empty_conv opt_is_none_or_iff
      intro!: step1 tombstone)

lemma forget_object_steps: "row_step\<^sup>*\<^sup>* s (snd (forget_object object s))"
  by (auto simp: forget_object_def intro: step1 forget)

lemma purge_tombstones_steps: "row_step\<^sup>*\<^sup>* s (snd (purge_tombstones before s))"
  by (auto simp: purge_tombstones_def Let_def intro: step1 untombstone)

section \<open>Dispatchers and the pool\<close>

lemma register_dispatcher_steps: "row_step\<^sup>*\<^sup>* s (snd (register_dispatcher d s))"
  by (auto simp: register_dispatcher_def intro!: step1 dispatcher_new)

lemma stop_dispatcher_steps: "row_step\<^sup>*\<^sup>* s (snd (stop_dispatcher i now s))"
  by (auto simp: stop_dispatcher_def dsp_le_def split: option.split
      intro!: step1 dispatcher_rows rows_upd_insert)

lemma renewed_lease_renewed: "renewed_lease i ttl now revive l = Some l' \<Longrightarrow> lse_renewed l l'"
  by (auto simp: renewed_lease_def lse_renewed_def lse_renew_ok lse_revive_ok
      split: if_splits sum.splits)

lemma renew_dispatcher_steps: "row_step\<^sup>*\<^sup>* s (snd (renew_dispatcher i ttl now revive s))"
proof -
  let ?m = "bt_map (\<lambda>_ l. case renewed_lease i ttl now revive l of Some l' \<Rightarrow> l' | None \<Rightarrow> l) (st_leases s)"
  have "rows_upd lse_renewed (st_leases s) ?m"
    by (rule rows_upd_map)
       (auto split: option.split intro: renewed_lease_renewed reflpD [OF keeps_reflp(2)])
  then have leases: "row_step s1 (s1\<lparr>st_leases := ?m\<rparr>)" if "st_leases s1 = st_leases s" for s1
    using that by (intro renew) simp
  have "row_step\<^sup>*\<^sup>* s (s\<lparr>st_dispatchers := bt_insert i (d\<lparr>dsp_heartbeat_at := now,
      dsp_lease_expires_at := max (dsp_lease_expires_at d) (now + ttl)\<rparr>) (st_dispatchers s),
      st_leases := ?m\<rparr>)" if "bt_get (st_dispatchers s) i = Some d" "dsp_is_live d" for d
  proof -
    let ?s1 = "s\<lparr>st_dispatchers := bt_insert i (d\<lparr>dsp_heartbeat_at := now,
      dsp_lease_expires_at := max (dsp_lease_expires_at d) (now + ttl)\<rparr>) (st_dispatchers s)\<rparr>"
    have "row_step s ?s1"
      using that by (intro dispatcher_rows rows_upd_insert [of _ _ _ d]) (auto simp: dsp_le_def)
    moreover have "row_step ?s1 (?s1\<lparr>st_leases := ?m\<rparr>)" by (rule leases) simp
    ultimately show ?thesis by (auto intro: rtranclp.rtrancl_into_rtrancl)
  qed
  then show ?thesis by (auto simp: renew_dispatcher_def Let_def split: option.split)
qed

lemma environment_put_steps:
  assumes "bt_get (st_environments s) k = Some e" "env_keeps e e'"
  shows "row_step\<^sup>*\<^sup>* s (s\<lparr>st_environments := bt_insert k e' (st_environments s)\<rparr>)"
  using assms by (intro step1 environment_rows rows_upd_insert) auto

lemma env_transition_keeps: "env_transition e to now = Inr e' \<Longrightarrow> env_keeps e e'"
  by (auto simp: env_transition_ok env_keeps_def env_identity_def env_is_terminal_def)

lemma env_reserve_keeps: "env_reserve e now = Inr e' \<Longrightarrow> env_keeps e e'"
  by (auto simp: env_reserve_ok env_keeps_def env_identity_def env_is_terminal_def)

lemma find_entry:
  "find P (bt_entries m) = Some (k, v) \<Longrightarrow> bt_get m k = Some v \<and> P (k, v)"
  by (auto simp: find_Some_iff bt_get_entries)

lemma claim_for_reuse_steps: "row_step\<^sup>*\<^sup>* s (snd (claim_for_reuse key owner now s))"
  by (auto simp: claim_for_reuse_def split: option.split sum.split dest!: find_entry
      intro!: environment_put_steps intro: env_reserve_keeps)

lemma claim_for_reuse_ok:
  assumes "fst (claim_for_reuse key owner now s) = Inr (Some c)"
  shows "\<exists>k e. bt_get (st_environments s) k = Some e \<and> env_state e = ES_Idle \<and> env_reuse_key e = key \<and>
    env_owner e = owner \<and> env_reserve e now = Inr c \<and>
    snd (claim_for_reuse key owner now s) = s\<lparr>st_environments := bt_insert k c (st_environments s)\<rparr>"
  using assms
  by (auto simp: claim_for_reuse_def split: option.splits sum.splits prod.splits dest!: find_entry)
    blast

lemma pooled_row_ok: "pooled_row env now = Inr pooled \<Longrightarrow>
    env_identity pooled = env_identity env \<and> env_epoch pooled = env_epoch env \<and>
    env_fenced_at pooled = env_fenced_at env \<and> env_state pooled = ES_Idle"
  by (auto simp: pooled_row_def env_mark_defs env_transition_ok env_identity_def split: if_splits)

lemma pooled_row_id: "pooled_row env now = Inr pooled \<Longrightarrow> env_id pooled = env_id env"
  using pooled_row_ok by (simp add: env_identity_def)

lemma release_to_pool_steps: "row_step\<^sup>*\<^sup>* s (snd (release_to_pool env limits now s))"
  by (auto simp: release_to_pool_def Let_def pooled_row_id split: option.split sum.split
      intro!: environment_put_steps intro: guard_le)

lemma take_idle_steps: "row_step\<^sup>*\<^sup>* s (snd (take_idle_for_termination i now s))"
  by (auto simp: take_idle_for_termination_def env_mark_draining_def split: option.split sum.split
      intro!: environment_put_steps intro: env_transition_keeps)

lemma confirm_terminated_steps: "row_step\<^sup>*\<^sup>* s (snd (confirm_terminated i epoch now s))"
  by (auto simp: confirm_terminated_def env_mark_lost_def split: option.split sum.split
      intro!: environment_put_steps intro: env_transition_keeps)

section \<open>Slots and leases\<close>

lemma acquire_checks_ok:
  "acquire_checks cfg request stored s = Inr None \<longleftrightarrow>
     (\<exists>d. bt_get (st_dispatchers s) (the (lse_owner (acq_lease request))) = Some d \<and> dsp_is_live d) \<and>
     \<not> has_unreleased_lease s (env_id (acq_env request)) \<and>
     (\<forall>iv. acq_invocation request = Some iv \<longrightarrow>
        (\<exists>old w. bt_get (st_invocations s) (inv_id iv) = Some old \<and>
           \<not> IS_is_terminal (inv_status old) \<and>
           invocation_update (max_response_bytes (cfg_limits cfg)) old iv = Inr w)) \<and>
     bt_get (st_attempts s) (att_id (acq_attempt request)) = None \<and>
     bt_get (st_leases s) (lse_id (acq_lease request)) = None \<and>
     attempt_insert (bt_get (st_invocations s) (att_invocation_id (acq_attempt request)))
       (acq_attempt request) = Inr () \<and>
     lse_tenant_id (acq_lease request) = env_tenant_id stored"
  by (auto simp: acquire_checks_def Let_def lease_insert_def split: option.splits if_splits)

lemma acquire_cases:
  obtains (acquired) stored where
    "acquire cfg request s = (Inr Acquired, acquire_write request s)"
    "bt_get (st_environments s) (env_id (acq_env request)) = Some stored"
    "acquire_preconditions request (Some stored) = Inr None"
    "acquire_checks cfg request stored s = Inr None"
  | (not_acquired) r where "acquire cfg request s = (r, s)" "r \<noteq> Inr Acquired"
proof -
  have "(\<exists>stored. acquire cfg request s = (Inr Acquired, acquire_write request s) \<and>
      bt_get (st_environments s) (env_id (acq_env request)) = Some stored \<and>
      acquire_preconditions request (Some stored) = Inr None \<and>
      acquire_checks cfg request stored s = Inr None) \<or>
    (\<exists>r. acquire cfg request s = (r, s) \<and> r \<noteq> Inr Acquired)"
    by (auto simp: acquire_def Let_def split: sum.split option.split)
  then show thesis using that by blast
qed

lemma acquire_write_steps:
  assumes "bt_get (st_environments s) (env_id (acq_env request)) = Some stored"
    "acquire_preconditions request (Some stored) = Inr None"
    "acquire_checks cfg request stored s = Inr None"
  shows "row_step\<^sup>*\<^sup>* s (acquire_write request s)"
proof -
  let ?s1 = "s\<lparr>st_environments := bt_insert (env_id (acq_env request)) (acq_env request) (st_environments s),
     st_leases := bt_insert (lse_id (acq_lease request)) (acq_lease request) (st_leases s),
     st_attempts := bt_insert (att_id (acq_attempt request)) (acq_attempt request) (st_attempts s)\<rparr>"
  have "row_step s ?s1"
    using assms by (intro assign [where old = stored])
      (auto simp: acquire_preconditions_ok acquire_checks_ok)
  then have *: "row_step\<^sup>*\<^sup>* s ?s1" by (rule step1)
  show ?thesis
  proof (cases "acq_invocation request")
    case None
    then have "acquire_write request s = ?s1" by (simp add: acquire_write_def)
    then show ?thesis using * by simp
  next
    case (Some iv)
    then obtain old where "bt_get (st_invocations s) (inv_id iv) = Some old" "inv_le old iv"
      using assms(3) by (auto simp: acquire_checks_ok intro: guard_le)
    then have "row_step\<^sup>*\<^sup>* ?s1 (?s1\<lparr>st_invocations := bt_insert (inv_id iv) iv (st_invocations ?s1)\<rparr>)"
      by (intro invocation_put_steps) auto
    moreover have "acquire_write request s
        = ?s1\<lparr>st_invocations := bt_insert (inv_id iv) iv (st_invocations ?s1)\<rparr>"
      using Some by (simp add: acquire_write_def)
    ultimately show ?thesis using * by (metis rtranclp_trans)
  qed
qed

lemma acquire_steps: "row_step\<^sup>*\<^sup>* s (snd (acquire cfg request s))"
  by (cases rule: acquire_cases [of cfg request s]) (auto intro: acquire_write_steps)

lemma renew_lease_steps: "row_step\<^sup>*\<^sup>* s (snd (renew_lease i owner epoch ttl now s))"
proof -
  have "lse_renewed l l'" if "lse_renew l now ttl = Inr l'" for l l'
    using that by (auto simp: lse_renewed_def lse_renew_ok lse_is_active_def)
  then show ?thesis
    by (auto simp: renew_lease_def split: option.split sum.split intro!: step1 renew rows_upd_insert)
qed

lemma release_lease_steps: "row_step\<^sup>*\<^sup>* s (snd (release_lease i a epoch now s))"
  by (auto simp: release_lease_def Let_def split: option.split sum.split intro: step1 release)

text \<open>An accepted completion: the conditions, and the rows written.\<close>

definition completion_accepted :: "StoreConfig \<Rightarrow> SlotCompletion \<Rightarrow> State \<Rightarrow> State \<Rightarrow> bool" where
  "completion_accepted cfg c s s' \<longleftrightarrow>
     (\<exists>l old_attempt w.
        bt_get (st_leases s) (cpl_lease_id c) = Some l \<and>
        lease_is_current (Some l) (att_id (cpl_attempt c)) (att_epoch (cpl_attempt c))
          (bt_get (st_environments s) (lse_environment_id l)) = None \<and>
        bt_get (st_attempts s) (att_id (cpl_attempt c)) = Some old_attempt \<and>
        \<not> AS_is_terminal (att_status old_attempt) \<and>
        attempt_update old_attempt (cpl_attempt c) = Inr w \<and>
        (let s1 = s\<lparr>st_leases := bt_insert (lse_id l) (l\<lparr>lse_released_at := Some (cpl_now c)\<rparr>) (st_leases s)\<rparr>;
             s2 = (if w = Apply then s1\<lparr>st_attempts :=
                     bt_insert (att_id (cpl_attempt c)) (cpl_attempt c) (st_attempts s1)\<rparr> else s1)
         in case cpl_invocation c of
              None \<Rightarrow> s' = s2
            | Some iv \<Rightarrow>
                \<exists>old wi. bt_get (st_invocations s) (inv_id iv) = Some old \<and>
                  \<not> IS_is_terminal (inv_status old) \<and>
                  invocation_update (max_response_bytes (cfg_limits cfg)) old iv = Inr wi \<and>
                  s' = (if wi = Apply then set_binding_expiry
                           (s2\<lparr>st_invocations := bt_insert (inv_id iv) iv (st_invocations s2)\<rparr>) iv
                           (cfg_idempotency_retention cfg) else s2)))"

lemma complete_cases:
  obtains (accepted) s' where "complete cfg c s = (Inr Accepted, s')" "completion_accepted cfg c s s'"
  | (not_accepted) r where "complete cfg c s = (r, s)" "r \<noteq> Inr Accepted"
proof -
  have "(\<exists>s'. complete cfg c s = (Inr Accepted, s') \<and> completion_accepted cfg c s s') \<or>
      (\<exists>r. complete cfg c s = (r, s) \<and> r \<noteq> Inr Accepted)"
  proof (cases "bt_get (st_leases s) (cpl_lease_id c)")
    case None
    then show ?thesis by (simp add: complete_def Let_def lease_is_current_def)
  next
    case (Some l)
    let ?cur = "lease_is_current (Some l) (att_id (cpl_attempt c)) (att_epoch (cpl_attempt c))
          (bt_get (st_environments s) (lse_environment_id l))"
    show ?thesis
    proof (cases ?cur)
      case None
      then have "lse_release l now = Inr (l\<lparr>lse_released_at := Some now\<rparr>)" for now
        by (auto simp: lease_is_current_None lse_release_ok)
      then show ?thesis
        using Some None
        by (auto simp: complete_def completion_accepted_def Let_def lease_env_def
            split: option.splits sum.splits if_splits Write.splits)
    next
      case (Some reason)
      then show ?thesis
        using \<open>bt_get (st_leases s) (cpl_lease_id c) = Some l\<close>
        by (auto simp: complete_def Let_def lease_env_def)
    qed
  qed
  then show thesis using that by blast
qed

lemma attempt_put_steps:
  assumes "bt_get (st_attempts s) k = Some old" "att_le old a"
  shows "row_step\<^sup>*\<^sup>* s (s\<lparr>st_attempts := bt_insert k a (st_attempts s)\<rparr>)"
  using assms by (intro step1 attempt_rows rows_upd_insert) auto

lemma completion_accepted_steps:
  assumes "completion_accepted cfg c s s'" "keys_inv s"
  shows "row_step\<^sup>*\<^sup>* s s'"
proof -
  obtain l old_attempt w where
    l: "bt_get (st_leases s) (cpl_lease_id c) = Some l" and
    current: "lease_is_current (Some l) (att_id (cpl_attempt c)) (att_epoch (cpl_attempt c))
          (bt_get (st_environments s) (lse_environment_id l)) = None" and
    a: "bt_get (st_attempts s) (att_id (cpl_attempt c)) = Some old_attempt"
       "attempt_update old_attempt (cpl_attempt c) = Inr w" and
    rest: "let s1 = s\<lparr>st_leases := bt_insert (lse_id l) (l\<lparr>lse_released_at := Some (cpl_now c)\<rparr>) (st_leases s)\<rparr>;
             s2 = (if w = Apply then s1\<lparr>st_attempts :=
                     bt_insert (att_id (cpl_attempt c)) (cpl_attempt c) (st_attempts s1)\<rparr> else s1)
         in case cpl_invocation c of
              None \<Rightarrow> s' = s2
            | Some iv \<Rightarrow>
                \<exists>old wi. bt_get (st_invocations s) (inv_id iv) = Some old \<and>
                  \<not> IS_is_terminal (inv_status old) \<and>
                  invocation_update (max_response_bytes (cfg_limits cfg)) old iv = Inr wi \<and>
                  s' = (if wi = Apply then set_binding_expiry
                           (s2\<lparr>st_invocations := bt_insert (inv_id iv) iv (st_invocations s2)\<rparr>) iv
                           (cfg_idempotency_retention cfg) else s2)"
    using assms(1) unfolding completion_accepted_def by blast
  define s1 where "s1 = s\<lparr>st_leases := bt_insert (lse_id l) (l\<lparr>lse_released_at := Some (cpl_now c)\<rparr>) (st_leases s)\<rparr>"
  define s2 where "s2 = (if w = Apply then s1\<lparr>st_attempts :=
                     bt_insert (att_id (cpl_attempt c)) (cpl_attempt c) (st_attempts s1)\<rparr> else s1)"
  have "lse_id l = cpl_lease_id c" using assms(2) l by (auto simp: keys_inv_def dest: keyedD)
  then have "row_step s s1"
    unfolding s1_def using l current
    by (intro release) (auto simp: lse_release_ok lease_is_current_None)
  moreover have "row_step\<^sup>*\<^sup>* s1 s2"
    using a attempt_put_steps [of s1] by (auto simp: s2_def s1_def intro: guard_le)
  moreover have "row_step\<^sup>*\<^sup>* s2 s'"
  proof (cases "cpl_invocation c")
    case None
    then show ?thesis using rest by (simp add: Let_def s1_def s2_def)
  next
    case (Some iv)
    then obtain old wi where old: "bt_get (st_invocations s) (inv_id iv) = Some old"
      "invocation_update (max_response_bytes (cfg_limits cfg)) old iv = Inr wi"
      and s': "s' = (if wi = Apply then set_binding_expiry
             (s2\<lparr>st_invocations := bt_insert (inv_id iv) iv (st_invocations s2)\<rparr>) iv
             (cfg_idempotency_retention cfg) else s2)"
      using rest by (auto simp: Let_def s1_def s2_def)
    have "bt_get (st_invocations s2) (inv_id iv) = Some old" using old(1) by (simp add: s2_def s1_def)
    from invocation_settled_steps [OF this invocation_update_le [OF old(2)]] s'
    show ?thesis by simp
  qed
  ultimately show ?thesis by auto
qed

lemma complete_steps: "keys_inv s \<Longrightarrow> row_step\<^sup>*\<^sup>* s (snd (complete cfg c s))"
  by (cases rule: complete_cases [of cfg c s]) (auto intro: completion_accepted_steps)

section \<open>Reclaim\<close>

text \<open>What the settlement helpers leave alone.\<close>

lemma settle_attempts_of_frame [simp]:
  "st_leases (fst (settle_attempts_of i unknown cause now sr)) = st_leases (fst sr)"
  "st_environments (fst (settle_attempts_of i unknown cause now sr)) = st_environments (fst sr)"
  "st_dispatchers (fst (settle_attempts_of i unknown cause now sr)) = st_dispatchers (fst sr)"
  "st_invocations (fst (settle_attempts_of i unknown cause now sr)) = st_invocations (fst sr)"
  by (simp_all add: settle_attempts_of_def split: prod.split)

lemma settle_invocation_rows_frame [simp]:
  "st_leases (fst (settle_invocation_rows i cause retention now sr)) = st_leases (fst sr)"
  "st_environments (fst (settle_invocation_rows i cause retention now sr)) = st_environments (fst sr)"
  "st_dispatchers (fst (settle_invocation_rows i cause retention now sr)) = st_dispatchers (fst sr)"
  by (simp_all add: settle_invocation_rows_def Let_def split: prod.split option.split)

lemma fence_env_frame [simp]:
  "st_leases (fst (fence_env i now sr)) = st_leases (fst sr)"
  "st_dispatchers (fst (fence_env i now sr)) = st_dispatchers (fst sr)"
  "st_invocations (fst (fence_env i now sr)) = st_invocations (fst sr)"
  "st_attempts (fst (fence_env i now sr)) = st_attempts (fst sr)"
  by (simp_all add: fence_env_def split: prod.split option.split sum.split)

lemma reclaim_lease_attempt_frame [simp]:
  "st_leases (fst (reclaim_lease_attempt cfg now l cause sr)) = st_leases (fst sr)"
  "st_environments (fst (reclaim_lease_attempt cfg now l cause sr)) = st_environments (fst sr)"
  "st_dispatchers (fst (reclaim_lease_attempt cfg now l cause sr)) = st_dispatchers (fst sr)"
  by (simp_all add: reclaim_lease_attempt_def Let_def split: prod.split option.split)

lemma settle_attempts_of_steps:
  "row_step\<^sup>*\<^sup>* (fst sr) (fst (settle_attempts_of i unknown cause now sr))"
  by (auto simp: settle_attempts_of_def settle_attempt_row split: prod.split
      intro!: step1 attempt_rows rows_upd_map)

lemma settle_invocation_rows_steps:
  assumes "keys_inv (fst sr)"
  shows "row_step\<^sup>*\<^sup>* (fst sr) (fst (settle_invocation_rows i cause retention now sr))"
proof (cases "bt_get (st_invocations (fst sr)) i")
  case None
  then show ?thesis by (cases sr) (simp add: settle_invocation_rows_def)
next
  case (Some iv)
  let ?settled = "fst (settle_invocation_with iv cause now)"
  let ?s1 = "set_binding_expiry ((fst sr)\<lparr>st_invocations := bt_insert (inv_id ?settled) ?settled
       (st_invocations (fst sr))\<rparr>) ?settled retention"
  have "inv_id iv = i" using assms Some by (auto simp: keys_inv_def dest: keyedD)
  then have "inv_id ?settled = i" using settle_invocation_row(1) [of iv cause now]
    by (simp add: row_le_def inv_identity_def)
  then have settled: "row_step\<^sup>*\<^sup>* (fst sr) ?s1"
    using Some by (intro invocation_settled_steps [of _ _ iv]) (auto simp: settle_invocation_row)
  have "row_step\<^sup>*\<^sup>* ?s1 (fst (settle_attempts_of j u cause now (?s1, rep)))" for j u rep
    using settle_attempts_of_steps [of "(?s1, rep)"] by simp
  with settled have "row_step\<^sup>*\<^sup>* (fst sr) (fst (settle_attempts_of j u cause now (?s1, rep)))" for j u rep
    by (meson rtranclp_trans)
  then show ?thesis
    using Some settle_attempts_of_steps
    by (auto simp: settle_invocation_rows_def Let_def split: prod.split)
qed

lemma fence_env_steps:
  assumes "\<not> has_unreleased_lease (fst sr) i"
  shows "row_step\<^sup>*\<^sup>* (fst sr) (fst (fence_env i now sr))"
  using assms
  by (auto simp: fence_env_def env_is_fenced_def split: prod.split option.split sum.split
      intro!: step1 intro: fence)

lemma fence_env_fold_steps:
  assumes "\<And>i. i \<in> set is \<Longrightarrow> \<not> has_unreleased_lease (fst sr) i"
  shows "row_step\<^sup>*\<^sup>* (fst sr) (fst (fold (\<lambda>i. fence_env i now) is sr))"
  using assms
proof (induction "is" arbitrary: sr)
  case (Cons i "is")
  have "row_step\<^sup>*\<^sup>* (fst sr) (fst (fence_env i now sr))" using Cons.prems by (intro fence_env_steps) simp
  moreover have "row_step\<^sup>*\<^sup>* (fst (fence_env i now sr))
      (fst (fold (\<lambda>i. fence_env i now) is (fence_env i now sr)))"
    using Cons.prems unfolding has_unreleased_lease_def by (intro Cons.IH) (auto simp: has_unreleased_lease_def)
  ultimately show ?case by simp
qed simp

text \<open>The dispatcher pass, row by row.\<close>

definition dsp_dead :: "ReclaimRequest \<Rightarrow> DispatcherRecord \<Rightarrow> bool" where
  "dsp_dead request d \<longleftrightarrow> dsp_id d \<noteq> rcl_reclaimer request \<and>
     (dsp_reclaimed_at d \<noteq> None \<or> dsp_stopped_at d \<noteq> None \<or>
      dsp_id d \<in> set (rcl_presumed_dead request) \<or>
      dsp_is_expired d (rcl_now request) (rcl_skew request))"

definition dsp_cause :: "ReclaimRequest \<Rightarrow> DispatcherRecord \<Rightarrow> Cause" where
  "dsp_cause request d = cause_of d (dsp_reclaimed_at d = None \<and> dsp_id d \<in> set (rcl_presumed_dead request))"

definition dsp_marked :: "ReclaimRequest \<Rightarrow> DispatcherRecord \<Rightarrow> DispatcherRecord" where
  "dsp_marked request d =
     (if dsp_dead request d \<and> dsp_reclaimed_at d = None
      then d\<lparr>dsp_reclaimed_at := Some (rcl_now request)\<rparr> else d)"

lemma reclaim_dispatcher_eq:
  "\<exists>report'. reclaim_dispatcher request (k, d) (ds, report, dead) =
     (if dsp_dead request d \<and> dsp_reclaimed_at d = None then bt_insert k (dsp_marked request d) ds else ds,
      report',
      if dsp_dead request d then bt_insert (dsp_id d) (dsp_cause request d) dead else dead)"
  by (auto simp: dsp_dead_def dsp_cause_def dsp_marked_def Let_def)

lemma reclaim_dispatcher_fold:
  assumes "\<And>k d. (k, d) \<in> set es \<Longrightarrow> dsp_id d = k \<and> bt_get ds k = Some d"
    "distinct (map fst es)"
    "fold (reclaim_dispatcher request) es (ds, report, dead) = (ds', report', dead')"
  shows "bt_get ds' k = (case map_of es k of
      Some d \<Rightarrow> Some (dsp_marked request d) | None \<Rightarrow> bt_get ds k) \<and>
    bt_get dead' k = (case map_of es k of
      Some d \<Rightarrow> if dsp_dead request d then Some (dsp_cause request d) else bt_get dead k
    | None \<Rightarrow> bt_get dead k)"
  using assms
proof (induction es arbitrary: ds report dead)
  case (Cons kd es)
  obtain k0 d0 where kd: "kd = (k0, d0)" by (cases kd)
  have d0: "dsp_id d0 = k0" "bt_get ds k0 = Some d0" using Cons.prems(1) [of k0 d0] by (simp_all add: kd)
  let ?ds = "if dsp_dead request d0 \<and> dsp_reclaimed_at d0 = None
    then bt_insert k0 (dsp_marked request d0) ds else ds"
  let ?dead = "if dsp_dead request d0 then bt_insert (dsp_id d0) (dsp_cause request d0) dead else dead"
  obtain report1 where one: "reclaim_dispatcher request (k0, d0) (ds, report, dead) = (?ds, report1, ?dead)"
    using reclaim_dispatcher_eq [of request k0 d0 ds report dead] by blast
  have fold1: "fold (reclaim_dispatcher request) es (?ds, report1, ?dead) = (ds', report', dead')"
    using Cons.prems(3) one kd by simp
  have notin: "k0 \<notin> fst ` set es" using Cons.prems(2) kd by auto
  have pre: "dsp_id d = k \<and> bt_get ?ds k = Some d" if "(k, d) \<in> set es" for k d
  proof -
    have "k \<noteq> k0" using that notin by force
    then show ?thesis using Cons.prems(1) [of k d] that by auto
  qed
  have "map_of es k0 = None" using notin by (simp add: map_of_eq_None_iff)
  moreover have "dsp_marked request d0 = d0" if "\<not> (dsp_dead request d0 \<and> dsp_reclaimed_at d0 = None)"
    using that by (simp only: dsp_marked_def if_False)
  ultimately show ?case
    using Cons.IH [OF pre _ fold1] Cons.prems(2) kd d0
    by (cases "k = k0") (auto split: option.splits if_splits)
qed simp

lemma reclaim_dispatchers_get:
  assumes "keys_inv s" "reclaim_dispatchers request s = (ds, report, dead)"
  shows "bt_get ds k = map_option (dsp_marked request) (bt_get (st_dispatchers s) k)"
    and "bt_get dead k = (case bt_get (st_dispatchers s) k of
      Some d \<Rightarrow> if dsp_dead request d then Some (dsp_cause request d) else None | None \<Rightarrow> None)"
proof -
  have entries: "dsp_id d = k \<and> bt_get (st_dispatchers s) k = Some d"
    if "(k, d) \<in> set (bt_entries (st_dispatchers s))" for k d
    using that assms(1) by (auto simp: bt_get_entries [symmetric] keys_inv_def dest: keyedD)
  have "distinct (map fst (bt_entries (st_dispatchers s)))"
    using bt_keys_distinct [of "st_dispatchers s"] by (simp add: bt_keys_def)
  note get = reclaim_dispatcher_fold [OF entries this assms(2) [unfolded reclaim_dispatchers_def]]
  show "bt_get ds k = map_option (dsp_marked request) (bt_get (st_dispatchers s) k)"
    using get [of k] by (auto simp: bt_get.rep_eq [symmetric] split: option.splits)
  show "bt_get dead k = (case bt_get (st_dispatchers s) k of
      Some d \<Rightarrow> if dsp_dead request d then Some (dsp_cause request d) else None | None \<Rightarrow> None)"
    using get [of k] by (auto simp: bt_get.rep_eq [symmetric] split: option.splits)
qed

lemma dsp_marked_le: "dsp_le d (dsp_marked request d)"
  by (auto simp: dsp_marked_def dsp_le_def dsp_is_live_def)

lemma reclaim_dispatchers_steps:
  assumes "keys_inv s" "reclaim_dispatchers request s = (ds, report, dead)"
  shows "row_step\<^sup>*\<^sup>* s (s\<lparr>st_dispatchers := ds\<rparr>)"
proof -
  have "rows_upd dsp_le (st_dispatchers s) ds"
    unfolding rows_upd_def reclaim_dispatchers_get(1) [OF assms]
    by (auto simp: option.rel_map dsp_marked_le intro: option.rel_refl)
  then show ?thesis by (intro step1 dispatcher_rows)
qed

text \<open>One lease: released, its attempt and invocation settled, its environment fenced.\<close>

definition lse_reclaimed :: "Timestamp \<Rightarrow> ExecutionLease \<Rightarrow> ExecutionLease" where
  "lse_reclaimed now l = l\<lparr>lse_released_at := Some now\<rparr>"

lemma reclaim_lease_attempt_steps:
  assumes "keys_inv (fst sr)"
  shows "row_step\<^sup>*\<^sup>* (fst sr) (fst (reclaim_lease_attempt cfg now l cause sr))"
proof (cases "bt_get (st_attempts (fst sr)) (lse_attempt_id l)")
  case None
  then show ?thesis by (cases sr) (simp add: reclaim_lease_attempt_def)
next
  case (Some att)
  let ?a = "fst (settle_attempt_with att True cause now)"
  let ?s1 = "(fst sr)\<lparr>st_attempts := bt_insert (lse_attempt_id l) ?a (st_attempts (fst sr))\<rparr>"
  have put: "row_step\<^sup>*\<^sup>* (fst sr) ?s1"
    using Some by (intro attempt_put_steps [of _ _ att]) (auto simp: settle_attempt_row)
  have keys: "keys_inv ?s1"
    using assms put Some settle_attempt_row(1) [of att True cause now]
    by (auto simp: keys_inv_def row_le_def att_identity_def intro!: keyed_insert dest: keyedD)
  then have "row_step\<^sup>*\<^sup>* (fst sr) (fst (settle_invocation_rows i cause ret now (?s1, rep)))" for i ret rep
    using put settle_invocation_rows_steps [of "(?s1, rep)"] by (simp add: rtranclp_trans)
  then show ?thesis
    using Some put by (cases sr) (auto simp: reclaim_lease_attempt_def Let_def)
qed

lemma reclaim_lease_ok:
  assumes "store_inv s" "bt_get (st_leases s) (lse_id l) = Some l" "lse_released_at l = None"
  shows "row_step\<^sup>*\<^sup>* s (fst (reclaim_lease cfg now (l, cause) (s, report)))"
    and "st_leases (fst (reclaim_lease cfg now (l, cause) (s, report)))
      = bt_insert (lse_id l) (lse_reclaimed now l) (st_leases s)"
proof -
  let ?l = "lse_reclaimed now l"
  let ?s1 = "s\<lparr>st_leases := bt_insert (lse_id l) ?l (st_leases s)\<rparr>"
  let ?sr = "reclaim_lease_attempt cfg now ?l cause (?s1, report\<lparr>rep_leases := rep_leases report + 1\<rparr>)"
  have rel: "lse_release l now = Inr ?l" using assms(3) by (simp add: lse_release_ok lse_reclaimed_def)
  have ids: "lse_id ?l = lse_id l" "lse_environment_id ?l = lse_environment_id l"
    by (simp_all add: lse_reclaimed_def)
  have eq: "reclaim_lease cfg now (l, cause) (s, report) =
      (if opt_is_some_and (\<lambda>e. env_epoch e = lse_epoch ?l)
            (bt_get (st_environments (fst ?sr)) (lse_environment_id ?l))
       then fence_env (lse_environment_id ?l) now ?sr else ?sr)"
    by (simp add: rel ids Let_def)
  show "st_leases (fst (reclaim_lease cfg now (l, cause) (s, report)))
      = bt_insert (lse_id l) ?l (st_leases s)"
    unfolding eq by simp
  have s1: "row_step s ?s1" using assms(2) rel by (intro release) auto
  then have "keys_inv ?s1" using assms(1) row_step_inv store_inv_def by blast
  then have sr: "row_step\<^sup>*\<^sup>* s (fst ?sr)"
    using s1 reclaim_lease_attempt_steps [of "(?s1, report\<lparr>rep_leases := rep_leases report + 1\<rparr>)"]
    by (simp add: converse_rtranclp_into_rtranclp)
  have "\<not> has_unreleased_lease (fst ?sr) (lse_environment_id l)"
  proof
    assume "has_unreleased_lease (fst ?sr) (lse_environment_id l)"
    then obtain k l' where l': "k \<noteq> lse_id l" "bt_get (st_leases s) k = Some l'"
      "lse_environment_id l' = lse_environment_id l" "lse_released_at l' = None"
      by (auto simp: has_unreleased_lease_iff lse_reclaimed_def split: if_splits)
    moreover have "slots_inv s" using assms(1) by (simp add: store_inv_def)
    ultimately show False using slots_uniqueD [of s k l' "lse_id l" l] assms(2,3) by simp
  qed
  then have "row_step\<^sup>*\<^sup>* s (fst (fence_env (lse_environment_id l) now ?sr))"
    using sr fence_env_steps by (meson rtranclp_trans)
  then show "row_step\<^sup>*\<^sup>* s (fst (reclaim_lease cfg now (l, cause) (s, report)))"
    unfolding eq using sr by (simp add: ids)
qed

lemma reclaim_leases_ok:
  assumes "store_inv (fst sr)" "distinct (map (\<lambda>(l, c). lse_id l) xs)"
    "\<And>l c. (l, c) \<in> set xs \<Longrightarrow> bt_get (st_leases (fst sr)) (lse_id l) = Some l \<and> lse_released_at l = None"
  shows "row_step\<^sup>*\<^sup>* (fst sr) (fst (fold (reclaim_lease cfg now) xs sr)) \<and>
    (\<forall>k. bt_get (st_leases (fst (fold (reclaim_lease cfg now) xs sr))) k =
       (if k \<in> (\<lambda>(l, c). lse_id l) ` set xs
        then map_option (lse_reclaimed now) (bt_get (st_leases (fst sr)) k)
        else bt_get (st_leases (fst sr)) k))"
  using assms
proof (induction xs arbitrary: sr)
  case (Cons x xs)
  obtain l c where x: "x = (l, c)" by (cases x)
  obtain s report where sr: "sr = (s, report)" by (cases sr)
  have l: "bt_get (st_leases s) (lse_id l) = Some l" "lse_released_at l = None"
    using Cons.prems(3) by (auto simp: x sr)
  let ?sr1 = "reclaim_lease cfg now (l, c) (s, report)"
  have inv: "store_inv s" using Cons.prems(1) by (simp add: sr)
  note one = reclaim_lease_ok [OF inv l, of cfg now c report]
  have inv1: "store_inv (fst ?sr1)" using one(1) inv row_steps_inv by blast
  have later: "bt_get (st_leases (fst ?sr1)) (lse_id l') = Some l' \<and> lse_released_at l' = None"
    if "(l', c') \<in> set xs" for l' c'
  proof -
    have "lse_id l' \<noteq> lse_id l" using that Cons.prems(2) x by force
    then show ?thesis using Cons.prems(3) [of l' c'] that
      by (simp add: one(2) sr del: reclaim_lease.simps)
  qed
  have notin: "lse_id l \<notin> (\<lambda>(l, c). lse_id l) ` set xs" using Cons.prems(2) x by auto
  have "row_step\<^sup>*\<^sup>* (fst ?sr1) (fst (fold (reclaim_lease cfg now) xs ?sr1)) \<and>
    (\<forall>k. bt_get (st_leases (fst (fold (reclaim_lease cfg now) xs ?sr1))) k =
       (if k \<in> (\<lambda>(l, c). lse_id l) ` set xs
        then map_option (lse_reclaimed now) (bt_get (st_leases (fst ?sr1)) k)
        else bt_get (st_leases (fst ?sr1)) k))"
    using Cons.prems(2) x by (intro Cons.IH inv1 later) auto
  then show ?case
    using one notin l by (auto simp: x sr one(2) intro: rtranclp_trans simp del: reclaim_lease.simps)
qed simp

text \<open>Which leases a reclaim releases.\<close>

lemma expired_leases_iff:
  "(l, c) \<in> set (expired_leases request dead s) \<longleftrightarrow>
     l \<in> set (bt_values (st_leases s)) \<and> lse_released_at l = None \<and>
     lease_cause request dead l = Some c"
  by (auto simp: expired_leases_def map_filter_def image_iff)

lemma expired_leases_distinct:
  assumes "keys_inv s"
  shows "distinct (map (\<lambda>(l, c). lse_id l) (expired_leases request dead s))"
proof -
  let ?f = "\<lambda>l. map_option (\<lambda>cause. (l, cause)) (lease_cause request dead l)"
  have "map lse_id (bt_values (st_leases s)) = bt_keys (st_leases s)"
    using assms unfolding bt_values_def bt_keys_def map_map
    by (intro map_cong refl) (auto simp: keys_inv_def bt_get_entries [symmetric] dest: keyedD)
  then have "distinct (map lse_id (bt_values (st_leases s)))" by simp
  then have "distinct (map lse_id (filter (\<lambda>l. lse_released_at l = None) (bt_values (st_leases s))))"
    by (rule distinct_map_filter)
  then have "distinct (map lse_id (filter (\<lambda>l. ?f l \<noteq> None)
      (filter (\<lambda>l. lse_released_at l = None) (bt_values (st_leases s)))))"
    by (rule distinct_map_filter)
  moreover have "map (\<lambda>(l, c). lse_id l) (List.map_filter ?f xs) = map lse_id (filter (\<lambda>l. ?f l \<noteq> None) xs)"
    for xs by (induction xs) (auto simp: map_filter_def)
  ultimately show ?thesis unfolding expired_leases_def by simp
qed

text \<open>The leases after the lease loop: exactly the ones with a cause are released.\<close>

definition leased_state ::
  "StoreConfig \<Rightarrow> ReclaimRequest \<Rightarrow> (DispatcherId, Cause) btreemap \<Rightarrow> State \<times> ReclaimReport
     \<Rightarrow> State \<times> ReclaimReport" where
  "leased_state cfg request dead sr =
     fold (reclaim_lease cfg (rcl_now request)) (expired_leases request dead (fst sr)) sr"

lemma leased_state_ok:
  assumes "store_inv (fst sr)"
  shows "row_step\<^sup>*\<^sup>* (fst sr) (fst (leased_state cfg request dead sr))"
    and "bt_get (st_leases (fst (leased_state cfg request dead sr))) k =
      map_option (\<lambda>l. if lse_released_at l = None \<and> lease_cause request dead l \<noteq> None
                      then lse_reclaimed (rcl_now request) l else l) (bt_get (st_leases (fst sr)) k)"
proof -
  have keyed: "keyed lse_id (st_leases (fst sr))" and keys: "keys_inv (fst sr)"
    using assms by (auto simp: store_inv_def keys_inv_def)
  have in_store: "bt_get (st_leases (fst sr)) (lse_id l) = Some l \<and> lse_released_at l = None"
    if "(l, c) \<in> set (expired_leases request dead (fst sr))" for l c
    using that keyed by (auto simp: expired_leases_iff bt_values_iff dest: keyedD)
  have ok: "row_step\<^sup>*\<^sup>* (fst sr) (fst (fold (reclaim_lease cfg (rcl_now request))
        (expired_leases request dead (fst sr)) sr)) \<and>
      (\<forall>k. bt_get (st_leases (fst (fold (reclaim_lease cfg (rcl_now request))
          (expired_leases request dead (fst sr)) sr))) k =
        (if k \<in> (\<lambda>(l, c). lse_id l) ` set (expired_leases request dead (fst sr))
         then map_option (lse_reclaimed (rcl_now request)) (bt_get (st_leases (fst sr)) k)
         else bt_get (st_leases (fst sr)) k))"
    by (rule reclaim_leases_ok [OF assms expired_leases_distinct [OF keys]]) (rule in_store)
  show "row_step\<^sup>*\<^sup>* (fst sr) (fst (leased_state cfg request dead sr))"
    unfolding leased_state_def using ok by blast
  have mem: "k \<in> (\<lambda>(l, c). lse_id l) ` set (expired_leases request dead (fst sr)) \<longleftrightarrow>
      lse_released_at l = None \<and> lease_cause request dead l \<noteq> None"
    if "bt_get (st_leases (fst sr)) k = Some l" for l
  proof
    assume "k \<in> (\<lambda>(l, c). lse_id l) ` set (expired_leases request dead (fst sr))"
    then obtain l' c where l': "(l', c) \<in> set (expired_leases request dead (fst sr))" "lse_id l' = k"
      by auto
    then have "l' = l" using in_store [OF l'(1)] that by simp
    then show "lse_released_at l = None \<and> lease_cause request dead l \<noteq> None"
      using l'(1) by (simp add: expired_leases_iff)
  next
    assume "lse_released_at l = None \<and> lease_cause request dead l \<noteq> None"
    moreover have "l \<in> set (bt_values (st_leases (fst sr)))" using that by (auto simp: bt_values_iff)
    ultimately obtain c where "(l, c) \<in> set (expired_leases request dead (fst sr))"
      by (auto simp: expired_leases_iff)
    then show "k \<in> (\<lambda>(l, c). lse_id l) ` set (expired_leases request dead (fst sr))"
      using keyedD [OF keyed that] by force
  qed
  show "bt_get (st_leases (fst (leased_state cfg request dead sr))) k =
      map_option (\<lambda>l. if lse_released_at l = None \<and> lease_cause request dead l \<noteq> None
                      then lse_reclaimed (rcl_now request) l else l) (bt_get (st_leases (fst sr)) k)"
    using ok mem unfolding leased_state_def by (cases "bt_get (st_leases (fst sr)) k") auto
qed

text \<open>One settled invocation, one fenced environment.\<close>

definition inv_settled :: "State \<Rightarrow> InvocationId \<Rightarrow> bool" where
  "inv_settled s i \<longleftrightarrow> (\<forall>iv. bt_get (st_invocations s) i = Some iv \<longrightarrow>
     inv_mode iv = Async \<or> IS_is_terminal (inv_status iv))"

definition env_settled :: "State \<Rightarrow> EnvironmentId \<Rightarrow> bool" where
  "env_settled s i \<longleftrightarrow> (\<forall>e. bt_get (st_environments s) i = Some e \<longrightarrow>
     env_is_terminal e \<or> env_fenced_at e \<noteq> None)"

lemma settle_invocation_rows_settled:
  assumes "keys_inv (fst sr)"
  shows "inv_settled (fst (settle_invocation_rows i cause retention now sr)) i"
proof (cases "bt_get (st_invocations (fst sr)) i")
  case None
  then show ?thesis by (cases sr) (simp add: settle_invocation_rows_def inv_settled_def)
next
  case (Some iv)
  have "inv_id iv = i" using assms Some by (auto simp: keys_inv_def dest: keyedD)
  then have "inv_id (fst (settle_invocation_with iv cause now)) = i"
    using settle_invocation_row(1) [of iv cause now] by (simp add: row_le_def inv_identity_def)
  then show ?thesis
    using Some settle_invocation_row(2) [of iv cause now]
    by (cases sr) (auto simp: settle_invocation_rows_def Let_def inv_settled_def survives_dispatcher_def
        settle_invocation_with_eq split: if_splits)
qed

lemma fence_env_settled: "env_settled (fst (fence_env i now sr)) i"
  by (auto simp: fence_env_def env_settled_def env_is_fenced_def env_fence_ok env_is_terminal_def
      env_fence_def split: prod.split option.splits sum.splits if_splits)

lemma inv_settled_mono:
  assumes "row_step\<^sup>*\<^sup>* s s'" "inv_settled s i" "bt_get (st_invocations s) i \<noteq> None"
  shows "inv_settled s' i"
proof -
  obtain iv where iv: "bt_get (st_invocations s) i = Some iv" using assms(3) by blast
  then obtain iv' where "bt_get (st_invocations s') i = Some iv'" "inv_le iv iv'"
    using row_steps_le [OF assms(1)] unfolding state_le_def by (meson rows_leD)
  then show ?thesis
    using assms(2) iv by (auto simp: inv_settled_def row_le_def inv_identity_def)
qed

lemma env_settled_mono:
  assumes "row_step\<^sup>*\<^sup>* s s'" "env_settled s i" "bt_get (st_environments s) i \<noteq> None"
  shows "env_settled s' i"
proof -
  obtain e where e: "bt_get (st_environments s) i = Some e" using assms(3) by blast
  then obtain e' where "bt_get (st_environments s') i = Some e'" "env_le e e'"
    using row_steps_le [OF assms(1)] unfolding state_le_def by (meson rows_leD)
  then show ?thesis
    using assms(2) e by (auto simp: env_settled_def env_le_def row_le_def)
qed

text \<open>A loop that settles one row per iteration settles them all.\<close>

lemma fold_settles:
  assumes step: "\<And>x sr. x \<in> A \<Longrightarrow> J (fst sr) \<Longrightarrow>
      row_step\<^sup>*\<^sup>* (fst sr) (fst (f x sr)) \<and> J (fst (f x sr)) \<and> Q x (fst (f x sr))"
    and mono: "\<And>x s s'. row_step\<^sup>*\<^sup>* s s' \<Longrightarrow> Q x s \<Longrightarrow> Q x s'"
    and start: "J (fst sr)" "set xs \<subseteq> A"
  shows "row_step\<^sup>*\<^sup>* (fst sr) (fst (fold f xs sr)) \<and> J (fst (fold f xs sr)) \<and>
    (\<forall>x\<in>set xs. Q x (fst (fold f xs sr)))"
  using start
proof (induction xs arbitrary: sr)
  case (Cons x xs)
  let ?sr = "f x sr"
  have one: "row_step\<^sup>*\<^sup>* (fst sr) (fst ?sr)" "J (fst ?sr)" "Q x (fst ?sr)"
    using step [of x sr] Cons.prems by auto
  have rest: "row_step\<^sup>*\<^sup>* (fst ?sr) (fst (fold f xs ?sr))" "J (fst (fold f xs ?sr))"
    "\<forall>x\<in>set xs. Q x (fst (fold f xs ?sr))"
    using Cons.IH [OF one(2)] Cons.prems(2) by auto
  have "Q x (fst (fold f xs ?sr))" using mono [OF rest(1) one(3)] .
  then have "\<forall>y\<in>set (x # xs). Q y (fst (fold f (x # xs) sr))" using rest(3) by simp
  then show ?case using rtranclp_trans [OF one(1) rest(1)] rest(2) by simp
qed simp

definition inv_gone :: "InvocationId \<Rightarrow> State \<Rightarrow> bool" where
  "inv_gone i s \<longleftrightarrow> inv_settled s i \<and> bt_get (st_invocations s) i \<noteq> None"

definition env_gone :: "EnvironmentId \<Rightarrow> State \<Rightarrow> bool" where
  "env_gone i s \<longleftrightarrow> env_settled s i \<and> bt_get (st_environments s) i \<noteq> None"

lemma steps_keep_rows:
  assumes "row_step\<^sup>*\<^sup>* s s'"
  shows "bt_get (st_invocations s) i \<noteq> None \<Longrightarrow> bt_get (st_invocations s') i \<noteq> None"
    and "bt_get (st_environments s) j \<noteq> None \<Longrightarrow> bt_get (st_environments s') j \<noteq> None"
  using row_steps_le [OF assms] unfolding state_le_def by (auto dest!: rows_leD)

lemma gone_mono:
  "row_step\<^sup>*\<^sup>* s s' \<Longrightarrow> inv_gone i s \<Longrightarrow> inv_gone i s'"
  "row_step\<^sup>*\<^sup>* s s' \<Longrightarrow> env_gone j s \<Longrightarrow> env_gone j s'"
  using steps_keep_rows inv_settled_mono env_settled_mono
  unfolding inv_gone_def env_gone_def by blast+

text \<open>No lease of a dead dispatcher is left when the last loop starts.\<close>

definition owner_free :: "DispatcherId \<Rightarrow> State \<Rightarrow> bool" where
  "owner_free owner s \<longleftrightarrow>
     (\<forall>k l. bt_get (st_leases s) k = Some l \<longrightarrow> lse_owner l = Some owner \<longrightarrow> lse_released_at l \<noteq> None)"

lemma owner_free_env:
  assumes "owner_free owner s" "leases_inv s" "bt_get (st_environments s) i = Some e"
    "env_owner e = Some owner"
  shows "\<not> has_unreleased_lease s i"
proof
  assume "has_unreleased_lease s i"
  then obtain k l where l: "bt_get (st_leases s) k = Some l" "lse_environment_id l = i"
    "lse_released_at l = None" by (auto simp: has_unreleased_lease_iff)
  obtain e' where "bt_get (st_environments s) (lse_environment_id l) = Some e'"
    "env_owner e' = lse_owner l"
    using assms(2) l(1) unfolding leases_inv_def lease_env_ok_def by blast
  then have "lse_owner l = Some owner" using l(2) assms(3,4) by simp
  then show False using assms(1) l(1,3) unfolding owner_free_def by blast
qed

lemma settle_loop:
  fixes cause retention now
  defines "f \<equiv> \<lambda>i. settle_invocation_rows i cause retention now"
  assumes "store_inv (fst sr)" "\<And>i. i \<in> set is \<Longrightarrow> bt_get (st_invocations (fst sr)) i \<noteq> None"
  shows "row_step\<^sup>*\<^sup>* (fst sr) (fst (fold f is sr)) \<and> (\<forall>i\<in>set is. inv_gone i (fst (fold f is sr)))"
    and "st_leases (fst (fold f is sr)) = st_leases (fst sr)"
proof -
  let ?J = "\<lambda>s. store_inv s \<and> (\<forall>i\<in>set is. bt_get (st_invocations s) i \<noteq> None)"
  have one: "row_step\<^sup>*\<^sup>* (fst sr) (fst (f x sr)) \<and> ?J (fst (f x sr)) \<and> inv_gone x (fst (f x sr))"
    if "x \<in> set is" "?J (fst sr)" for x and sr :: "State \<times> ReclaimReport"
  proof -
    have "keys_inv (fst sr)" using that(2) by (simp add: store_inv_def)
    then have steps: "row_step\<^sup>*\<^sup>* (fst sr) (fst (f x sr))" and "inv_settled (fst (f x sr)) x"
      unfolding f_def by (simp_all add: settle_invocation_rows_steps settle_invocation_rows_settled)
    moreover have "?J (fst (f x sr))"
      using that(2) row_steps_inv [OF steps] steps_keep_rows(1) [OF steps] by blast
    ultimately show ?thesis using that(1) by (auto simp: inv_gone_def)
  qed
  have start: "?J (fst sr)" using assms(2,3) by blast
  have all: "row_step\<^sup>*\<^sup>* (fst sr) (fst (fold f is sr)) \<and> ?J (fst (fold f is sr)) \<and>
      (\<forall>i\<in>set is. inv_gone i (fst (fold f is sr)))"
    by (rule fold_settles [of "set is" ?J f inv_gone, OF one gone_mono(1) start subset_refl])
  show "row_step\<^sup>*\<^sup>* (fst sr) (fst (fold f is sr)) \<and> (\<forall>i\<in>set is. inv_gone i (fst (fold f is sr)))"
    using all by blast
  show "st_leases (fst (fold f is sr)) = st_leases (fst sr)"
    unfolding f_def by (induction "is" arbitrary: sr) simp_all
qed

lemma fence_loop:
  fixes now
  defines "f \<equiv> \<lambda>i. fence_env i now"
  assumes "\<And>i. i \<in> set is \<Longrightarrow> \<not> has_unreleased_lease (fst sr) i"
    "\<And>i. i \<in> set is \<Longrightarrow> bt_get (st_environments (fst sr)) i \<noteq> None"
  shows "row_step\<^sup>*\<^sup>* (fst sr) (fst (fold f is sr)) \<and> (\<forall>i\<in>set is. env_gone i (fst (fold f is sr)))"
    and "st_leases (fst (fold f is sr)) = st_leases (fst sr)"
proof -
  let ?J = "\<lambda>s. st_leases s = st_leases (fst sr) \<and> (\<forall>i\<in>set is. bt_get (st_environments s) i \<noteq> None)"
  have one: "row_step\<^sup>*\<^sup>* (fst sr1) (fst (f x sr1)) \<and> ?J (fst (f x sr1)) \<and> env_gone x (fst (f x sr1))"
    if "x \<in> set is" "?J (fst sr1)" for x sr1
  proof -
    have "\<not> has_unreleased_lease (fst sr1) x"
      using assms(2) [OF that(1)] that(2) by (simp add: has_unreleased_lease_def)
    then have steps: "row_step\<^sup>*\<^sup>* (fst sr1) (fst (f x sr1))"
      unfolding f_def by (rule fence_env_steps)
    moreover have "?J (fst (f x sr1))"
      using that(2) steps_keep_rows(2) [OF steps] by (simp add: f_def)
    ultimately show ?thesis using that(1) fence_env_settled by (auto simp: env_gone_def f_def)
  qed
  have start: "?J (fst sr)" using assms(3) by blast
  have all: "row_step\<^sup>*\<^sup>* (fst sr) (fst (fold f is sr)) \<and> ?J (fst (fold f is sr)) \<and>
      (\<forall>i\<in>set is. env_gone i (fst (fold f is sr)))"
    by (rule fold_settles [of "set is" ?J f env_gone, OF one gone_mono(2) start subset_refl])
  show "row_step\<^sup>*\<^sup>* (fst sr) (fst (fold f is sr)) \<and> (\<forall>i\<in>set is. env_gone i (fst (fold f is sr)))"
    using all by blast
  show "st_leases (fst (fold f is sr)) = st_leases (fst sr)"
    unfolding f_def by (induction "is" arbitrary: sr) simp_all
qed

text \<open>Everything a dispatcher owned in \<open>s0\<close> is settled in \<open>s\<close>.\<close>

definition owner_gone :: "State \<Rightarrow> DispatcherId \<Rightarrow> State \<Rightarrow> bool" where
  "owner_gone s0 owner s \<longleftrightarrow>
     (\<forall>i iv. bt_get (st_invocations s0) i = Some iv \<longrightarrow> inv_dispatcher_id iv = Some owner \<longrightarrow> inv_gone i s) \<and>
     (\<forall>i e. bt_get (st_environments s0) i = Some e \<longrightarrow> env_owner e = Some owner \<longrightarrow> env_gone i s)"

lemma owner_gone_mono: "row_step\<^sup>*\<^sup>* s s' \<Longrightarrow> owner_gone s0 owner s \<Longrightarrow> owner_gone s0 owner s'"
  using gone_mono unfolding owner_gone_def by blast

lemma row_steps_rows:
  assumes "row_step\<^sup>*\<^sup>* s s'"
  shows "bt_get (st_invocations s) i = Some iv \<Longrightarrow> \<exists>iv'. bt_get (st_invocations s') i = Some iv' \<and> inv_le iv iv'"
    and "bt_get (st_environments s) j = Some e \<Longrightarrow> \<exists>e'. bt_get (st_environments s') j = Some e' \<and> env_le e e'"
  using row_steps_le [OF assms] unfolding state_le_def by (meson rows_leD)+

lemma reclaim_owned_ok:
  assumes inv: "store_inv (fst sr)" and s0: "row_step\<^sup>*\<^sup>* s0 (fst sr)" and free: "owner_free owner (fst sr)"
  shows "row_step\<^sup>*\<^sup>* (fst sr) (fst (reclaim_owned cfg now (owner, cause) sr))"
    and "st_leases (fst (reclaim_owned cfg now (owner, cause) sr)) = st_leases (fst sr)"
    and "owner_gone s0 owner (fst (reclaim_owned cfg now (owner, cause) sr))"
proof -
  obtain s report where sr: "sr = (s, report)" by (cases sr)
  define todo where "todo = map inv_id (filter (\<lambda>i. inv_dispatcher_id i = Some owner
      \<and> \<not> IS_is_terminal (inv_status i)) (bt_values (st_invocations s)))"
  define mid where "mid = fold (\<lambda>i. settle_invocation_rows i cause (cfg_idempotency_retention cfg) now)
      todo (s, report)"
  define js where "js = map env_id (filter (\<lambda>e. env_owner e = Some owner \<and> \<not> env_is_terminal e
      \<and> \<not> env_is_fenced e) (bt_values (st_environments (fst mid))))"
  have eq: "reclaim_owned cfg now (owner, cause) sr = fold (\<lambda>i. fence_env i now) js mid"
    by (simp add: sr todo_def mid_def js_def Let_def)
  have keyed: "keyed inv_id (st_invocations s)" using inv by (simp add: sr store_inv_def keys_inv_def)
  have "bt_get (st_invocations s) i \<noteq> None" if "i \<in> set todo" for i
    using that keyed by (auto simp: todo_def bt_values_iff dest: keyedD)
  then have mid: "row_step\<^sup>*\<^sup>* s (fst mid)" "\<forall>i\<in>set todo. inv_gone i (fst mid)" "st_leases (fst mid) = st_leases s"
    using settle_loop [of "(s, report)" todo] inv by (simp_all add: sr mid_def)
  have inv_mid: "store_inv (fst mid)" using row_steps_inv [OF mid(1)] inv by (simp add: sr)
  then have keyed_mid: "keyed env_id (st_environments (fst mid))" and leases_mid: "leases_inv (fst mid)"
    by (simp_all add: store_inv_def keys_inv_def)
  have free_mid: "owner_free owner (fst mid)" using free mid(3) by (simp add: owner_free_def sr)
  have js: "\<exists>e. bt_get (st_environments (fst mid)) j = Some e \<and> env_owner e = Some owner" if "j \<in> set js" for j
    using that keyed_mid by (auto simp: js_def bt_values_iff dest: keyedD)
  have "\<not> has_unreleased_lease (fst mid) j" if "j \<in> set js" for j
    using js [OF that] owner_free_env [OF free_mid leases_mid] by blast
  moreover have "bt_get (st_environments (fst mid)) j \<noteq> None" if "j \<in> set js" for j
    using js [OF that] by auto
  ultimately have last: "row_step\<^sup>*\<^sup>* (fst mid) (fst (fold (\<lambda>i. fence_env i now) js mid))"
      "\<forall>j\<in>set js. env_gone j (fst (fold (\<lambda>i. fence_env i now) js mid))"
      "st_leases (fst (fold (\<lambda>i. fence_env i now) js mid)) = st_leases (fst mid)"
    using fence_loop [of js mid now] by blast+
  show "row_step\<^sup>*\<^sup>* (fst sr) (fst (reclaim_owned cfg now (owner, cause) sr))"
    "st_leases (fst (reclaim_owned cfg now (owner, cause) sr)) = st_leases (fst sr)"
    unfolding eq using last(1,3) mid(1,3) by (auto simp: sr)
  have s0_mid: "row_step\<^sup>*\<^sup>* s0 (fst mid)" using s0 mid(1) by (simp add: sr)
  show "owner_gone s0 owner (fst (reclaim_owned cfg now (owner, cause) sr))"
    unfolding owner_gone_def eq
  proof (intro conjI allI impI)
    fix i iv
    assume "bt_get (st_invocations s0) i = Some iv" "inv_dispatcher_id iv = Some owner"
    then obtain iv' where iv': "bt_get (st_invocations s) i = Some iv'" "inv_dispatcher_id iv' = Some owner"
      using row_steps_rows(1) [OF s0] by (fastforce simp: sr row_le_def inv_identity_def)
    have "inv_gone i (fst mid)"
    proof (cases "IS_is_terminal (inv_status iv')")
      case True
      then have "inv_gone i s" using iv' by (simp add: inv_gone_def inv_settled_def)
      then show ?thesis using gone_mono(1) [OF mid(1)] by blast
    next
      case False
      then have "i \<in> set todo" using iv' keyedD [OF keyed iv'(1)] by (auto simp: todo_def bt_values_iff image_iff)
      then show ?thesis using mid(2) by blast
    qed
    then show "inv_gone i (fst (fold (\<lambda>i. fence_env i now) js mid))"
      using gone_mono(1) [OF last(1)] by blast
  next
    fix j e
    assume "bt_get (st_environments s0) j = Some e" "env_owner e = Some owner"
    then obtain e' where e': "bt_get (st_environments (fst mid)) j = Some e'" "env_owner e' = Some owner"
      using row_steps_rows(2) [OF s0_mid] by (fastforce simp: env_le_def row_le_def env_identity_def)
    show "env_gone j (fst (fold (\<lambda>i. fence_env i now) js mid))"
    proof (cases "env_is_terminal e' \<or> env_is_fenced e'")
      case True
      then have "env_gone j (fst mid)" using e' by (auto simp: env_gone_def env_settled_def env_is_fenced_def)
      then show ?thesis using gone_mono(2) [OF last(1)] by blast
    next
      case False
      then have "j \<in> set js" using e' keyedD [OF keyed_mid e'(1)] by (auto simp: js_def bt_values_iff image_iff)
      then show ?thesis using last(2) by blast
    qed
  qed
qed

text \<open>The whole pass, for a reclaimer that holds its own lease.\<close>

lemma lease_cause_dead:
  "lse_owner l = Some owner \<Longrightarrow> owner \<noteq> rcl_reclaimer request \<Longrightarrow> bt_get dead owner = Some c \<Longrightarrow>
     lease_cause request dead l = Some c"
  by (simp add: lease_cause_def)

lemma reclaim_expired_parts:
  fixes cfg
  assumes inv: "store_inv s" and holds: "reclaimer_holds_lease request s"
    and pass: "reclaim_dispatchers request s = (ds, report, dead)"
  defines "s' \<equiv> snd (reclaim_expired cfg request s)"
  shows "row_step\<^sup>*\<^sup>* s s'"
    and "st_leases s' = st_leases (fst (leased_state cfg request dead (s\<lparr>st_dispatchers := ds\<rparr>, report)))"
    and "bt_get dead owner \<noteq> None \<Longrightarrow> owner_gone s owner s'"
proof -
  define s1 where "s1 = s\<lparr>st_dispatchers := ds\<rparr>"
  define mid where "mid = leased_state cfg request dead (s1, report)"
  have keys: "keys_inv s" using inv by (simp add: store_inv_def)
  have s1: "row_step\<^sup>*\<^sup>* s s1" unfolding s1_def by (rule reclaim_dispatchers_steps [OF keys pass])
  have inv1: "store_inv (fst (s1, report))" using row_steps_inv [OF s1 inv] by simp
  have mid: "row_step\<^sup>*\<^sup>* s1 (fst mid)" using leased_state_ok(1) [OF inv1] by (simp add: mid_def)
  have s_mid: "row_step\<^sup>*\<^sup>* s (fst mid)" using s1 mid by simp
  have eq: "s' = fst (fold (reclaim_owned cfg (rcl_now request)) (bt_entries dead) mid)"
    unfolding s'_def reclaim_expired_def using holds pass
    by (simp add: mid_def leased_state_def s1_def Let_def)
  have not_self: "owner \<noteq> rcl_reclaimer request" if "bt_get dead owner \<noteq> None" for owner
    using that keys reclaim_dispatchers_get(2) [OF keys pass, of owner]
    by (auto simp: dsp_dead_def keys_inv_def split: option.splits if_splits dest: keyedD)
  have free: "owner_free owner (fst mid)" if dead: "bt_get dead owner \<noteq> None" for owner
    unfolding owner_free_def
  proof (intro allI impI)
    fix k l
    assume l: "bt_get (st_leases (fst mid)) k = Some l" "lse_owner l = Some owner"
    then obtain l0 where l0: "bt_get (st_leases s1) k = Some l0"
      "l = (if lse_released_at l0 = None \<and> lease_cause request dead l0 \<noteq> None
            then lse_reclaimed (rcl_now request) l0 else l0)"
      using leased_state_ok(2) [OF inv1, of cfg request dead k] by (auto simp: mid_def)
    then have "lse_owner l0 = Some owner" using l(2) by (auto simp: lse_reclaimed_def split: if_splits)
    then have "lease_cause request dead l0 \<noteq> None"
      using lease_cause_dead [OF _ not_self [OF dead]] dead by auto
    then show "lse_released_at l \<noteq> None" using l0(2) by (auto simp: lse_reclaimed_def)
  qed
  let ?J = "\<lambda>s2. store_inv s2 \<and> row_step\<^sup>*\<^sup>* s s2 \<and> st_leases s2 = st_leases (fst mid)"
  have one: "row_step\<^sup>*\<^sup>* (fst sr) (fst (reclaim_owned cfg (rcl_now request) x sr)) \<and>
      ?J (fst (reclaim_owned cfg (rcl_now request) x sr)) \<and>
      owner_gone s (fst x) (fst (reclaim_owned cfg (rcl_now request) x sr))"
    if "x \<in> set (bt_entries dead)" "?J (fst sr)" for x sr
  proof -
    obtain owner cause where x: "x = (owner, cause)" by (cases x)
    have "bt_get dead owner = Some cause" using that(1) by (simp add: x bt_get_entries)
    then have "owner_free owner (fst sr)" using free [of owner] that(2) by (simp add: owner_free_def)
    moreover have "store_inv (fst sr)" "row_step\<^sup>*\<^sup>* s (fst sr)" using that(2) by auto
    ultimately have ok: "row_step\<^sup>*\<^sup>* (fst sr) (fst (reclaim_owned cfg (rcl_now request) x sr))"
      "st_leases (fst (reclaim_owned cfg (rcl_now request) x sr)) = st_leases (fst sr)"
      "owner_gone s owner (fst (reclaim_owned cfg (rcl_now request) x sr))"
      unfolding x using reclaim_owned_ok [of sr s owner cfg "rcl_now request" cause] by simp_all
    have "row_step\<^sup>*\<^sup>* s (fst (reclaim_owned cfg (rcl_now request) x sr))"
      using that(2) ok(1) by (meson rtranclp_trans)
    moreover have "store_inv (fst (reclaim_owned cfg (rcl_now request) x sr))"
      using that(2) row_steps_inv [OF ok(1)] by blast
    ultimately show ?thesis using ok that(2) by (simp add: x del: reclaim_owned.simps)
  qed
  have start: "?J (fst mid)" using row_steps_inv [OF s_mid inv] s_mid by simp
  have all: "row_step\<^sup>*\<^sup>* (fst mid) s' \<and> ?J s' \<and> (\<forall>x\<in>set (bt_entries dead). owner_gone s (fst x) s')"
    unfolding eq
    by (rule fold_settles [of "set (bt_entries dead)" ?J "reclaim_owned cfg (rcl_now request)"
          "\<lambda>x. owner_gone s (fst x)", OF one owner_gone_mono start subset_refl])
  show "row_step\<^sup>*\<^sup>* s s'"
    "st_leases s' = st_leases (fst (leased_state cfg request dead (s\<lparr>st_dispatchers := ds\<rparr>, report)))"
    using all by (simp_all add: mid_def s1_def)
  show "owner_gone s owner s'" if dead_owner: "bt_get dead owner \<noteq> None"
  proof -
    obtain c where "(owner, c) \<in> set (bt_entries dead)"
      using dead_owner by (auto simp: bt_get_entries)
    then show ?thesis using all by force
  qed
qed

lemma reclaim_expired_steps: "store_inv s \<Longrightarrow> row_step\<^sup>*\<^sup>* s (snd (reclaim_expired cfg request s))"
proof (cases "reclaimer_holds_lease request s")
  case True
  assume "store_inv s"
  moreover obtain ds report dead where "reclaim_dispatchers request s = (ds, report, dead)"
    by (cases "reclaim_dispatchers request s")
  ultimately show ?thesis using reclaim_expired_parts(1) [OF _ True] by blast
qed (simp add: reclaim_expired_def)

text \<open>The leases and the dispatchers after a reclaim.\<close>

lemma reclaim_leases_get:
  assumes "store_inv s" "reclaimer_holds_lease request s"
    and "reclaim_dispatchers request s = (ds, report, dead)"
  shows "bt_get (st_leases (snd (reclaim_expired cfg request s))) k =
    map_option (\<lambda>l. if lse_released_at l = None \<and> lease_cause request dead l \<noteq> None
      then lse_reclaimed (rcl_now request) l else l) (bt_get (st_leases s) k)"
proof -
  have keys: "keys_inv s" using assms(1) by (simp add: store_inv_def)
  have "store_inv (fst (s\<lparr>st_dispatchers := ds\<rparr>, report))"
    using row_steps_inv [OF reclaim_dispatchers_steps [OF keys assms(3)] assms(1)] by simp
  from leased_state_ok(2) [OF this, of cfg request dead k]
  show ?thesis using reclaim_expired_parts(2) [OF assms] by simp
qed

lemma reclaim_dead_get:
  assumes "store_inv s" "reclaim_dispatchers request s = (ds, report, dead)"
  shows "bt_get dead k \<noteq> None \<longleftrightarrow> (\<exists>d. bt_get (st_dispatchers s) k = Some d \<and> dsp_dead request d)"
  using reclaim_dispatchers_get(2) [OF _ assms(2)] assms(1)
  by (auto simp: store_inv_def split: option.splits)

lemma fold_dispatchers:
  assumes "\<And>x sr. st_dispatchers (fst (f x sr)) = st_dispatchers (fst sr)"
  shows "st_dispatchers (fst (fold f xs sr)) = st_dispatchers (fst sr)"
  using assms by (induction xs arbitrary: sr) simp_all

lemma reclaim_lease_dispatchers:
  "st_dispatchers (fst (reclaim_lease cfg now x sr)) = st_dispatchers (fst sr)"
  by (cases x; cases sr) (simp add: Let_def split: sum.split)

lemma reclaim_owned_dispatchers:
  "st_dispatchers (fst (reclaim_owned cfg now x sr)) = st_dispatchers (fst sr)"
  by (cases x; cases sr) (simp add: Let_def fold_dispatchers)

lemma reclaim_dispatchers_after:
  assumes "reclaimer_holds_lease request s" "reclaim_dispatchers request s = (ds, report, dead)"
  shows "st_dispatchers (snd (reclaim_expired cfg request s)) = ds"
  using assms
  by (simp add: reclaim_expired_def Let_def fold_dispatchers reclaim_owned_dispatchers
      reclaim_lease_dispatchers)

section \<open>Histories\<close>

theorem exec_steps: "store_inv s \<Longrightarrow> row_step\<^sup>*\<^sup>* s (exec cfg u op s)"
proof (cases op)
  case (Op_reclaim_expired request)
  then show "store_inv s \<Longrightarrow> ?thesis" by (simp add: reclaim_expired_steps)
next
  case (Op_complete c)
  then show "store_inv s \<Longrightarrow> ?thesis" by (simp add: complete_steps store_inv_def)
next
  case (Op_insert_bound i)
  then show "store_inv s \<Longrightarrow> ?thesis" by (simp add: insert_bound_steps store_inv_def)
qed (simp_all add: stamp_config_steps functions_insert_steps functions_update_steps
    allocate_number_steps revisions_insert_steps revisions_update_steps aliases_insert_steps
    aliases_compare_and_set_steps invocations_insert_steps invocations_update_steps
    insert_attempt_steps update_attempt_steps environments_insert_steps environments_update_steps
    purge_expired_idempotency_steps artifact_claim_steps
    register_dispatcher_steps heartbeat_def renew_after_store_outage_def renew_dispatcher_steps
    stop_dispatcher_steps claim_for_reuse_steps release_to_pool_steps take_idle_steps acquire_steps
    renew_lease_steps release_lease_steps confirm_terminated_steps attach_object_steps
    claim_for_collection_steps forget_object_steps purge_tombstones_steps)

lemma exec_inv: "store_inv s \<Longrightarrow> store_inv (exec cfg u op s)"
  using exec_steps row_steps_inv by blast

lemma run_inv: "store_inv s \<Longrightarrow> store_inv (run cfg u ops s)"
  by (rule run_invariant) (auto intro: exec_inv)

lemma run_steps: "store_inv s \<Longrightarrow> row_step\<^sup>*\<^sup>* s (run cfg u ops s)"
proof (induction ops arbitrary: s)
  case (Cons op ops)
  have "row_step\<^sup>*\<^sup>* (exec cfg u op s) (run cfg u ops (exec cfg u op s))"
    using Cons by (blast intro: exec_inv)
  then show ?case using exec_steps [OF Cons.prems, of cfg u op] by simp
qed simp

lemma run_le: "store_inv s \<Longrightarrow> state_le s (run cfg u ops s)"
  using run_steps row_steps_le by blast

text \<open>A store starts empty.\<close>

lemma history_inv: "store_inv (run cfg u ops State_default)"
  by (rule run_inv) (rule store_inv_default)

end
