(* ===== verification/Samples.thy ===== *)
theory Samples
  imports Store_Refinement
begin

text \<open>
  Concrete rows and a concrete history, on which the properties of the store are evaluated:
  two dispatchers, one function with a ready revision and an alias, one invocation with an
  idempotency key, and one environment acquired for it.
\<close>

definition smp_tenant :: TenantId where "smp_tenant = Ident ''tn_a''"

definition smp_dispatcher :: "DispatcherId \<Rightarrow> Timestamp \<Rightarrow> DispatcherRecord" where
  "smp_dispatcher i expires = \<lparr> dsp_id = i, dsp_instance = ''gw'', dsp_hostname = ''host'',
     dsp_pid = 1, dsp_started_at = 0, dsp_heartbeat_at = 0, dsp_lease_expires_at = expires,
     dsp_stopped_at = None, dsp_reclaimed_at = None \<rparr>"

definition smp_fn :: Function where
  "smp_fn = \<lparr> fn_id = Ident ''fn_1'', fn_tenant_id = smp_tenant, fn_name = Ident ''hello'',
     fn_description = '''', fn_created_at = 0, fn_updated_at = 0, fn_deleted_at = None,
     fn_drained_at = None \<rparr>"

definition smp_spec :: RevisionSpec where
  "smp_spec = \<lparr> artifact = Binary (Ident ''d'') 10,
     runtime = \<lparr> rt_protocol = ''tachyon-runtime-v1'', rt_architecture = X86_64 \<rparr>,
     resources = ResourceProfile_default, execution = ExecutionPolicy_default, egress = EP_None,
     egress_allow = [], env_vars = [], secrets = [], spec_description = '''',
     placement = \<lparr> region = None \<rparr>,
     restore = \<lparr> rs_policy = Disabled, rs_synthetic_init_sample = False \<rparr> \<rparr>"

definition smp_rev :: FunctionRevision where
  "smp_rev = \<lparr> rev_id = Ident ''rev_1'', rev_function_id = Ident ''fn_1'', rev_tenant_id = smp_tenant,
     rev_number = 1, rev_spec = smp_spec, rev_spec_digest = Ident ''sd'', rev_status = RS_Ready,
     rev_created_at = 0, rev_updated_at = 0 \<rparr>"

definition smp_alias :: FunctionAlias where
  "smp_alias = al_new (Ident ''fn_1'') smp_tenant (Ident ''live'') (Ident ''rev_1'') 0"

definition smp_inv :: Invocation where
  "smp_inv = \<lparr> inv_id = Ident ''inv_1'', inv_tenant_id = smp_tenant, inv_function_id = Ident ''fn_1'',
     inv_alias = None, inv_revision_id = Ident ''rev_1'', inv_alias_generation = None,
     inv_mode = Sync, inv_event_kind = Json, inv_status = IS_Accepted,
     inv_deadlines = \<lparr> queue_deadline = 5, init_deadline = None, execution_deadline = None,
                        client_deadline = 9 \<rparr>,
     inv_idempotency_key = Some ''k'', inv_input_digest = Ident ''in'', inv_input_size_bytes = 2,
     inv_output = None, inv_http_status = None, inv_trace_id = ''t'', inv_accepted_at = 0,
     inv_started_at = None, inv_finished_at = None, inv_attempt_ids = [],
     inv_dispatcher_id = Some (Ident ''dsp_1'') \<rparr>"

definition smp_running :: Invocation where
  "smp_running = smp_inv\<lparr>inv_status := IS_Running, inv_started_at := Some 2,
     inv_attempt_ids := [Ident ''att_1'']\<rparr>"

definition smp_key :: ReuseKey where
  "smp_key = \<lparr> rk_tenant_id = smp_tenant, rk_revision_id = Ident ''rev_1'',
     rk_execution_role_version = 1, rk_configuration_version = 1,
     rk_resource_profile_digest = ''p'', rk_runtime_profile = ''r'',
     rk_network_policy_version = 1, rk_secret_binding_generation = 1 \<rparr>"

definition smp_env :: ExecutionEnvironment where
  "smp_env = (env_owned_by (env_request (Ident ''env_1'') smp_tenant (Ident ''rev_1'') Fake smp_key 0)
     (Ident ''dsp_1''))\<lparr>env_state := ES_Ready, env_ready_at := Some 1\<rparr>"

definition smp_busy :: ExecutionEnvironment where
  "smp_busy = smp_env\<lparr>env_state := ES_Busy, env_epoch := 1\<rparr>"

definition smp_lease :: "LeaseId \<Rightarrow> AttemptId \<Rightarrow> ExecutionLease" where
  "smp_lease i a = lse_owned_by (lse_acquire i (Ident ''env_1'') a smp_tenant 1 100 2)
     (Ident ''dsp_1'') 10"

definition smp_attempt :: "AttemptId \<Rightarrow> InvocationAttempt" where
  "smp_attempt a = att_dispatch a (Ident ''inv_1'') smp_tenant 1 (Ident ''env_1'') 1 Cold 2"

definition smp_acquire :: SlotAcquire where
  "smp_acquire = \<lparr> acq_env = smp_busy, acq_expected_epoch = 0,
     acq_lease = smp_lease (Ident ''lse_1'') (Ident ''att_1''),
     acq_attempt = smp_attempt (Ident ''att_1''), acq_invocation = Some smp_running \<rparr>"

text \<open>A second caller that read the same environment.\<close>

definition smp_rival :: SlotAcquire where
  "smp_rival = smp_acquire\<lparr>acq_lease := smp_lease (Ident ''lse_2'') (Ident ''att_2''),
     acq_attempt := smp_attempt (Ident ''att_2''), acq_invocation := None\<rparr>"

definition smp_completion :: SlotCompletion where
  "smp_completion = \<lparr> cpl_lease_id = Ident ''lse_1'',
     cpl_attempt = (smp_attempt (Ident ''att_1''))\<lparr>att_status := AS_Succeeded, att_finished_at := Some 4\<rparr>,
     cpl_invocation = Some (smp_running\<lparr>inv_status := IS_Succeeded, inv_finished_at := Some 4\<rparr>),
     cpl_now = 4 \<rparr>"

definition smp_cfg :: StoreConfig where
  "smp_cfg = \<lparr> cfg_limits = Limits_default, cfg_idempotency_retention = Some 1000 \<rparr>"

definition smp_ulid :: "string \<Rightarrow> u64 option" where
  "smp_ulid s = Some 1000"

definition smp_setup :: "store_op list" where
  "smp_setup = [Op_register_dispatcher (smp_dispatcher (Ident ''dsp_1'') 10),
     Op_register_dispatcher (smp_dispatcher (Ident ''dsp_2'') 1000),
     Op_functions_insert smp_fn, Op_revisions_insert smp_rev, Op_aliases_insert smp_alias,
     Op_insert_bound smp_inv, Op_environments_insert smp_env]"

text \<open>The other dispatcher reclaims at 20, past the expiry at 10 plus a skew of 5.\<close>

definition smp_reclaim :: ReclaimRequest where
  "smp_reclaim = \<lparr> rcl_reclaimer = Ident ''dsp_2'', rcl_now = 20, rcl_skew = 5,
     rcl_presumed_dead = [] \<rparr>"

abbreviation smp_run :: "store_op list \<Rightarrow> State" where
  "smp_run ops \<equiv> run smp_cfg smp_ulid ops State_default"

definition smp_state :: State where
  "smp_state = smp_run smp_setup"

lemma smp_state_inv: "store_inv smp_state"
  unfolding smp_state_def by (rule history_inv)

lemmas smp_defs = smp_tenant_def smp_dispatcher_def smp_fn_def smp_spec_def smp_rev_def smp_alias_def
  smp_inv_def smp_running_def smp_key_def smp_env_def smp_busy_def smp_lease_def smp_attempt_def
  smp_acquire_def smp_rival_def smp_completion_def smp_cfg_def smp_reclaim_def

text \<open>The state after the set-up, row by row.\<close>

lemma smp_state_eq:
  "smp_state = State_default\<lparr>
     st_dispatchers := bt_insert (Ident ''dsp_2'') (smp_dispatcher (Ident ''dsp_2'') 1000)
       (bt_insert (Ident ''dsp_1'') (smp_dispatcher (Ident ''dsp_1'') 10) bt_empty),
     st_functions := bt_insert (Ident ''fn_1'') smp_fn bt_empty,
     st_revisions := bt_insert (Ident ''rev_1'') smp_rev bt_empty,
     st_aliases := bt_insert (Ident ''fn_1'', Ident ''live'') smp_alias bt_empty,
     st_invocations := bt_insert (Ident ''inv_1'') smp_inv bt_empty,
     st_idempotency := bt_insert (smp_tenant, Ident ''fn_1'', ''k'')
       \<lparr> bnd_invocation_id = Ident ''inv_1'', bnd_input_digest = Ident ''in'', bnd_expires_at = None \<rparr>
       bt_empty,
     st_environments := bt_insert (Ident ''env_1'') smp_env bt_empty\<rparr>"
  by (simp add: smp_state_def smp_setup_def State_default_def
      register_dispatcher_def functions_insert_def revisions_insert_def aliases_insert_def
      insert_bound_def environments_insert_def insert_invocation_def set_binding_expiry_def
      live_binding_def commit_def revision_insert_def alias_target_def environment_insert_def
      invocation_insert_def bounded_output_def smp_dispatcher_def smp_fn_def smp_rev_def smp_alias_def
      smp_inv_def smp_env_def smp_key_def al_new_def env_request_def env_owned_by_def
      same_tenant_def bt_ex_values Let_def)

definition smp_leased :: State where
  "smp_leased = acquire_write smp_acquire smp_state"

lemma smp_preconditions: "acquire_preconditions smp_acquire (Some smp_env) = Inr None"
  by (simp add: acquire_preconditions_ok smp_acquire_def smp_busy_def smp_env_def smp_lease_def
      smp_attempt_def lse_owned_by_def lse_acquire_def att_dispatch_def env_owned_by_def
      env_request_def env_is_reusable_def env_identity_def)

lemma smp_acquired: "acquire smp_cfg smp_acquire smp_state = (Inr Acquired, smp_leased)"
proof -
  have env: "bt_get (st_environments smp_state) (env_id (acq_env smp_acquire)) = Some smp_env"
    by (simp add: smp_state_eq smp_acquire_def smp_busy_def smp_env_def env_owned_by_def env_request_def)
  have "acquire_checks smp_cfg smp_acquire smp_env smp_state = Inr None"
    by (simp add: acquire_checks_ok smp_state_eq State_default_def has_unreleased_lease_iff
        smp_acquire_def smp_busy_def smp_env_def smp_lease_def smp_attempt_def smp_dispatcher_def
        lse_owned_by_def lse_acquire_def att_dispatch_def env_owned_by_def env_request_def
        dsp_is_live_def smp_inv_def smp_running_def invocation_update_def bounded_output_def
        attempt_insert_def same_tenant_def)
  then show ?thesis
    using env smp_preconditions by (simp add: acquire_def smp_leased_def)
qed

lemma smp_leased_eq:
  "smp_leased = smp_state\<lparr>
     st_environments := bt_insert (Ident ''env_1'') smp_busy (st_environments smp_state),
     st_leases := bt_insert (Ident ''lse_1'') (smp_lease (Ident ''lse_1'') (Ident ''att_1'')) bt_empty,
     st_attempts := bt_insert (Ident ''att_1'') (smp_attempt (Ident ''att_1'')) bt_empty,
     st_invocations := bt_insert (Ident ''inv_1'') smp_running (st_invocations smp_state)\<rparr>"
  by (simp add: smp_leased_def acquire_write_def smp_acquire_def smp_busy_def smp_env_def smp_lease_def
      smp_attempt_def smp_running_def smp_inv_def lse_owned_by_def lse_acquire_def att_dispatch_def
      env_owned_by_def env_request_def smp_state_eq State_default_def)

lemma smp_leased_run: "smp_leased = smp_run (smp_setup @ [Op_acquire smp_acquire])"
  by (simp add: run_append smp_state_def [symmetric] smp_acquired)

lemma smp_leased_inv: "store_inv smp_leased"
  unfolding smp_leased_run by (rule history_inv)

lemma smp_completed: "fst (complete smp_cfg smp_completion smp_leased) = Inr Accepted"
  by (simp add: complete_def Let_def smp_leased_eq smp_state_eq State_default_def smp_completion_def
      lease_env_def lease_is_current_def smp_lease_def smp_attempt_def smp_busy_def smp_env_def
      lse_owned_by_def lse_acquire_def att_dispatch_def env_owned_by_def env_request_def
      lse_accepts_def env_is_fenced_def AS_is_terminal_def attempt_update_def smp_running_def
      smp_inv_def invocation_update_def bounded_output_def lse_release_def)

end
