(* ===== verification/Async_Properties.thy ===== *)
theory Async_Properties
  imports Async_Delivery Samples
begin

text \<open>
  What asynchronous invocation promises: one run at a time, one outcome, one redrive of a dead letter, and
  a message that is acknowledged only when the ledger says what happens next.
\<close>

section \<open>A concrete ledger\<close>

definition smp_port :: async_port where
  "smp_port = \<lparr> ap_cfg = smp_cfg, ap_ulid = smp_ulid, ap_base64_decode = \<lambda>_. None, ap_sha256_hex = \<lambda>b. b \<rparr>"

definition smp_async :: Invocation where
  "smp_async = smp_inv\<lparr> inv_mode := Async, inv_idempotency_key := None, inv_dispatcher_id := None \<rparr>"

definition smp_input :: AsyncInput where
  "smp_input = \<lparr> ai_invocation_id = Ident ''inv_1'', ai_tenant_id = smp_tenant, ai_size_bytes = 2, ai_digest = Ident ''in'',
     ai_body = AIB_Inline ''{}'' \<rparr>"

definition smp_event :: OutboxEvent where
  "smp_event = OutboxEvent_new (Ident ''inv_1'') smp_tenant ''invoke'' ''e'' 0"

definition smp_accept :: async_op where
  "smp_accept = AO_Accept smp_async smp_input smp_event \<lparr> bl_max_pending = 9, bl_max_pending_age = 9 \<rparr> False"

definition smp_adb :: AsyncDb where
  "smp_adb = AsyncDb_empty (bt_insert (Ident ''fn_1'') smp_fn bt_empty)"

definition smp_claim :: "string \<Rightarrow> ClaimRequest" where
  "smp_claim owner = \<lparr> cr_invocation_id = Ident ''inv_1'', cr_owner = owner, cr_generation = 0, cr_now = 1, cr_ttl = 10 \<rparr>"

definition smp_dead :: DeadLetter where
  "smp_dead = \<lparr> dl_id = Ident ''dlq_1'', dl_tenant_id = smp_tenant, dl_function_id = Some (Ident ''fn_1''),
     dl_invocation_id = Some (Ident ''inv_1''), dl_revision_id = None, dl_reason = DLR_NonRetryable, dl_status = DLS_Open,
     dl_attempts = 1, dl_deferrals = 0, dl_last_error = None, dl_accepted_at = Some 0, dl_first_attempt_at = Some 1,
     dl_last_attempt_at = Some 1, dl_created_at = 2, dl_input_digest = None, dl_input_size_bytes = None,
     dl_input_storage = None, dl_message_id = None, dl_message_sequence = None, dl_detail = None,
     dl_redrive_count = 0, dl_redriven_at = None \<rparr>"

definition smp_settle :: DispatchSettle where
  "smp_settle = \<lparr> ds_fence = DF_Claim ''a'' 1,
     ds_invocation = smp_async\<lparr> inv_status := IS_Failed (InvocationError_new EC_PlatformError ''Host.InputCorrupt'' ''m''),
                                inv_finished_at := Some 2 \<rparr>,
     ds_state = DSP_Dead, ds_next_attempt_at = None, ds_last_error = None, ds_counted = True,
     ds_dead_letter = Some smp_dead, ds_republish = None, ds_now = 2 \<rparr>"

definition smp_redrive :: RedriveWrite where
  "smp_redrive = \<lparr> rdw_dead_letter_id = Ident ''dlq_1'',
     rdw_invocation = smp_async\<lparr> inv_id := Ident ''inv_2'', inv_accepted_at := 3 \<rparr>,
     rdw_input = smp_input\<lparr> ai_invocation_id := Ident ''inv_2'' \<rparr>,
     rdw_event = smp_event\<lparr> ob_event_id := Ident ''inv_2'' \<rparr>,
     rdw_redrive = \<lparr> rdv_id = Ident ''rdv_1'', rdv_dead_letter_id = Ident ''dlq_1'', rdv_tenant_id = smp_tenant,
       rdv_function_id = Ident ''fn_1'', rdv_source_invocation_id = Ident ''inv_1'', rdv_invocation_id = Ident ''inv_2'',
       rdv_revision_id = Ident ''rev_1'', rdv_revision_overridden = False, rdv_requested_by = ''u'', rdv_reason = None,
       rdv_created_at = 3 \<rparr> \<rparr>"

definition smp_accepted :: AsyncDb where
  "smp_accepted = async_run smp_port [(calm, smp_accept)] smp_adb"

definition smp_claimed :: AsyncDb where
  "smp_claimed = snd (claim_dispatch calm (smp_claim ''a'') smp_accepted)"

definition smp_settled :: AsyncDb where
  "smp_settled = snd (settle_dispatch smp_cfg calm smp_settle smp_claimed)"

lemmas smp_rows = smp_async_def smp_inv_def smp_input_def smp_event_def smp_tenant_def smp_fn_def OutboxEvent_new_def
lemmas smp_statements = sql_write_calm insert_invocation_checked_def bind_idempotency_def inv_key_def insert_input_row_def
  insert_outbox_row_def new_outbox_row_def invocation_insert_def bounded_output_def same_tenant_def sql_big_def i64_max_def

lemma smp_empty_stats: "os_exceeds (stats_in smp_adb) \<lparr> bl_max_pending = 9, bl_max_pending_age = 9 \<rparr> 0 = False"
  by code_simp

lemma smp_accepted_eq: "smp_accepted = smp_adb\<lparr> as_invocations := bt_insert (Ident ''inv_1'') smp_async bt_empty,
    as_inputs := bt_insert (Ident ''inv_1'') smp_input bt_empty, as_outbox := bt_insert (Ident ''inv_1'') smp_event bt_empty \<rparr>"
proof -
  have "accept_in smp_cfg calm smp_async smp_input smp_event \<lparr> bl_max_pending = 9, bl_max_pending_age = 9 \<rparr> smp_adb =
      Inr (AAO_Accepted, smp_adb\<lparr> as_invocations := bt_insert (Ident ''inv_1'') smp_async bt_empty,
        as_inputs := bt_insert (Ident ''inv_1'') smp_input bt_empty, as_outbox := bt_insert (Ident ''inv_1'') smp_event bt_empty \<rparr>)"
    using smp_empty_stats by (simp add: accept_in_def smp_statements smp_rows smp_adb_def AsyncDb_empty_def)
  moreover have "check_accept smp_ulid smp_async smp_input smp_event = Inr ()" by (simp add: check_accept_def smp_rows)
  ultimately show ?thesis
    by (simp add: smp_accepted_def smp_accept_def smp_port_def accept_async_def sql_write_calm)
qed

definition smp_record :: DispatchRecord where
  "smp_record = claimed_record (smp_claim ''a'') (dr_unclaimed smp_async)"

lemma smp_claim_granted: "claim_dispatch calm (smp_claim ''a'') smp_accepted = (Inr (CO_Claimed smp_async smp_record), smp_claimed)"
  and smp_claimed_eq: "smp_claimed = smp_accepted\<lparr> as_dispatch := bt_insert (Ident ''inv_1'') smp_record bt_empty \<rparr>"
proof -
  have "claim_tx (smp_claim ''a'') smp_accepted = Inr (CO_Claimed smp_async smp_record,
      smp_accepted\<lparr> as_dispatch := bt_insert (Ident ''inv_1'') smp_record bt_empty \<rparr>)"
    by (simp add: claim_tx_def Let_def record_or_unclaimed_def is_async_with_input_def claim_live_def smp_claim_def smp_record_def
        smp_accepted_eq smp_adb_def AsyncDb_empty_def dr_unclaimed_def smp_async_def smp_inv_def write_record_def claimed_record_def
        sql_big_def i64_max_def)
  then show "claim_dispatch calm (smp_claim ''a'') smp_accepted = (Inr (CO_Claimed smp_async smp_record), smp_claimed)"
      "smp_claimed = smp_accepted\<lparr> as_dispatch := bt_insert (Ident ''inv_1'') smp_record bt_empty \<rparr>"
    by (simp_all add: smp_claimed_def claim_dispatch_def sql_write_calm)
qed

lemmas smp_claimed_rows = smp_claimed_eq smp_accepted_eq smp_adb_def AsyncDb_empty_def smp_record_def claimed_record_def
  dr_unclaimed_def smp_claim_def smp_async_def smp_inv_def

lemma smp_rival_held: "claim_dispatch calm (smp_claim ''b'') smp_claimed = (Inr (CO_Held ''a'' 11), smp_claimed)"
  by (simp add: claim_dispatch_def sql_write_calm claim_tx_def Let_def record_or_unclaimed_def is_async_with_input_def claim_live_def
      smp_claimed_rows)

lemma bt_values_empty [simp]: "bt_values bt_empty = []"
  by (metis bt_get_empty bt_values_iff last_in_set option.distinct(1))

lemmas smp_settlement = settle_dispatch_def sql_write_calm settle_tx_def Let_def record_or_unclaimed_def holds_claim_def
  invocation_update_def bounded_output_def update_invocation_row_def set_idempotency_expiry_def settle_outbox_def
  settled_record_def write_record_def sql_big_def i64_max_def settle_dead_letter_def insert_dead_letter_def sat_add32_def u32_max_def

lemma smp_settle_commits: "fst (settle_dispatch smp_cfg calm smp_settle smp_claimed) = Inr SO_Committed"
  by (simp add: smp_settlement smp_settle_def smp_dead_def smp_claimed_rows)

lemma smp_settled_dead: "as_dead_letters smp_settled = bt_insert (Ident ''dlq_1'') smp_dead bt_empty"
  by (simp add: smp_settled_def smp_settlement smp_settle_def smp_dead_def smp_claimed_rows)

lemma smp_settled_rows: "as_functions smp_settled = as_functions smp_adb" "as_redrives smp_settled = bt_empty"
  "bt_get (as_invocations smp_settled) (Ident ''inv_2'') = None" "bt_get (as_inputs smp_settled) (Ident ''inv_2'') = None"
  "bt_get (as_outbox smp_settled) (Ident ''inv_2'') = None"
  by (simp_all add: smp_settled_def smp_settlement smp_settle_def smp_dead_def smp_claimed_rows)

lemma smp_redrives: "fst (redrive smp_cfg calm smp_redrive smp_settled) = Inr ()"
  by (simp add: redrive_def sql_write_calm redrive_tx_def Let_def smp_settled_dead smp_settled_rows smp_redrive_def smp_statements smp_rows
     smp_dead_def smp_adb_def AsyncDb_empty_def)

section \<open>One run at a time\<close>

lemma reachable_keys: "keys_ok (async_run p h (AsyncDb_empty fs))"
  by (rule run_keys_ok [OF keys_ok_empty])

lemma claim_grants:
  assumes "keys_ok db" "claim_dispatch env req db = (Inr (CO_Claimed i r), db')"
  shows "keys_ok db'" "claim_held (cr_invocation_id req) (cr_owner req) (dr_attempts r) db'"
proof -
  have tx: "claim_tx req db = Inr (CO_Claimed i r, db')"
    using sql_write_Inr [of env "claim_tx req" db] assms(2) by (simp add: claim_dispatch_def)
  show "keys_ok db'" using step_keys [OF assms(1), of undefined "(env, AO_Claim req)"] assms(2) by simp
  from tx assms(1) show "claim_held (cr_invocation_id req) (cr_owner req) (dr_attempts r) db'"
    by (cases rule: claim_tx_effect) (auto simp: claim_held_def holds_claim_def claimed_record_def)
qed

lemma not_passed_before:
  assumes "keys_ok db" "n < u32_max" "h = xs @ c # ys" "claim_passed i n (async_step p c (async_run p xs db))"
  shows "\<not> claim_held i owner n (async_run p h db)"
proof -
  have "keys_ok (async_step p c (async_run p xs db))" using assms(1) by (intro step_keys run_keys_ok)
  from passed_stays [OF this assms(2,4), of p ys] show ?thesis
    by (intro passed_not_held) (simp add: assms(3) async_run_append)
qed

text \<open>
  C8: A run that records its result was the only run of its invocation: between the claim that started
  it and the settlement that carries this claim no other claim of the invocation was granted and no
  other settlement of it committed, whatever transactions of whatever processes came in between.
\<close>

theorem async_run_exclusive:
  assumes "claim_dispatch env req (async_run p h0 (AsyncDb_empty fs)) = (Inr (CO_Claimed i r), db)"
    and "dr_attempts r < u32_max"
    and "list_all (\<lambda>(_, op). \<not> own_settle (cr_invocation_id req) (cr_owner req) (dr_attempts r) op) h"
    and "fst (settle_dispatch (ap_cfg p) env' st (async_run p h db)) = Inr SO_Committed"
    and "ds_fence st = DF_Claim (cr_owner req) (dr_attempts r)" "inv_id (ds_invocation st) = cr_invocation_id req"
  shows "(\<forall>xs e other ys j r'. h = xs @ (e, AO_Claim other) # ys \<and> cr_invocation_id other = cr_invocation_id req \<longrightarrow>
            fst (claim_dispatch e other (async_run p xs db)) \<noteq> Inr (CO_Claimed j r'))
       \<and> (\<forall>xs e other ys. h = xs @ (e, AO_Settle other) # ys \<and> inv_id (ds_invocation other) = cr_invocation_id req \<longrightarrow>
            fst (settle_dispatch (ap_cfg p) e other (async_run p xs db)) \<noteq> Inr SO_Committed)"
proof -
  let ?k = "cr_invocation_id req" and ?o = "cr_owner req" and ?n = "dr_attempts r"
  have ok: "keys_ok db" and held: "claim_held ?k ?o ?n db" using claim_grants [OF reachable_keys assms(1)] by auto
  have own: "\<not> own_settle ?k ?o ?n op" if "(e, op) \<in> set h" for e op using assms(3) that by (auto simp: list_all_iff)
  have last: "claim_held ?k ?o ?n (async_run p h db)"
    using settle_needs_claim [OF run_keys_ok [OF ok] assms(4,5,6)] .
  have at: "claim_held ?k ?o ?n (async_run p xs db) \<or> claim_passed ?k ?n (async_run p xs db)" if "h = xs @ ys" for xs ys
    using held_or_passed [OF ok assms(2) held] own that by auto
  have claims: "fst (claim_dispatch e other (async_run p xs db)) \<noteq> Inr (CO_Claimed j r')"
    if "h = xs @ (e, AO_Claim other) # ys" "cr_invocation_id other = ?k" for xs e other ys j r'
    using claim_passes [OF run_keys_ok [OF ok] assms(2) at [OF that(1)] _ that(2)]
      not_passed_before [OF ok assms(2) that(1)] last by auto
  have settles: "fst (settle_dispatch (ap_cfg p) e other (async_run p xs db)) \<noteq> Inr SO_Committed"
    if "h = xs @ (e, AO_Settle other) # ys" "inv_id (ds_invocation other) = ?k" for xs e other ys
  proof -
    have "ds_fence other \<noteq> DF_Claim ?o ?n" using own [of e "AO_Settle other"] that by auto
    then show ?thesis
      using settle_passes [OF run_keys_ok [OF ok] assms(2) at [OF that(1)] _ that(2)]
        not_passed_before [OF ok assms(2) that(1)] last by auto
  qed
  show ?thesis using claims settles by blast
qed

theorem async_run_exclusive_witness:
  "fst (settle_dispatch smp_cfg calm smp_settle (async_run smp_port [(calm, AO_Claim (smp_claim ''b''))] smp_claimed)) = Inr SO_Committed
   \<and> fst (claim_dispatch calm (smp_claim ''b'') smp_claimed) \<noteq> Inr (CO_Claimed smp_async smp_record)"
proof -
  have held: "async_run smp_port [(calm, AO_Claim (smp_claim ''b''))] smp_claimed = smp_claimed" by (simp add: smp_rival_held)
  have granted: "claim_dispatch calm (smp_claim ''a'') (async_run smp_port [(calm, smp_accept)] (AsyncDb_empty (bt_insert (Ident ''fn_1'') smp_fn bt_empty)))
      = (Inr (CO_Claimed smp_async smp_record), smp_claimed)"
    using smp_claim_granted by (simp add: smp_accepted_def smp_adb_def)
  have "dr_attempts smp_record = 1" by (simp add: smp_record_def claimed_record_def dr_unclaimed_def sat_add32_def u32_max_def)
  moreover have "ap_cfg smp_port = smp_cfg" by (simp add: smp_port_def)
  moreover note smp_settle_commits
  ultimately show ?thesis
    using async_run_exclusive [OF granted, of "[(calm, AO_Claim (smp_claim ''b''))]" calm smp_settle] held
    by (force simp: u32_max_def smp_settle_def smp_claim_def smp_async_def smp_inv_def)
qed

section \<open>One outcome\<close>

lemma terminal_refuses:
  assumes "bt_get (as_invocations db) k = Some i" "IS_is_terminal (inv_status i)"
  shows "inv_id (ds_invocation st) = k \<Longrightarrow> settle_dispatch cfg env st db \<noteq> (Inr SO_Committed, db')"
    and "inv_id (ds_invocation st) = k \<Longrightarrow> snd (settle_dispatch cfg env st db) = db"
    and "cr_invocation_id req = k \<Longrightarrow> fst (claim_dispatch env req db) \<noteq> Inr (CO_Claimed j r)"
    and "cr_invocation_id req = k \<Longrightarrow> snd (claim_dispatch env req db) = db"
proof -
  show "snd (settle_dispatch cfg env st db) = db" if "inv_id (ds_invocation st) = k"
    unfolding settle_dispatch_def by (rule sql_write_snd) (use assms that in \<open>auto simp: settle_tx_def Let_def\<close>)
  show "snd (claim_dispatch env req db) = db" if "cr_invocation_id req = k"
    unfolding claim_dispatch_def by (rule sql_write_snd) (use assms that in \<open>auto simp: claim_tx_def\<close>)
  show "settle_dispatch cfg env st db \<noteq> (Inr SO_Committed, db')" if "inv_id (ds_invocation st) = k"
    using assms that sql_write_Inr [of env "settle_tx cfg env st" db SO_Committed]
    by (auto simp: settle_dispatch_def settle_tx_def Let_def)
  show "fst (claim_dispatch env req db) \<noteq> Inr (CO_Claimed j r)" if "cr_invocation_id req = k"
    using assms that sql_write_Inr [of env "claim_tx req" db "CO_Claimed j r"] by (auto simp: claim_dispatch_def claim_tx_def)
qed

text \<open>
  C9: A final result is recorded once: after a settlement that makes the invocation final, every history
  of transactions keeps the invocation as it was recorded, with one exception: once the retention of an
  inline output is over, the purge replaces it by its digest and length and changes nothing else.  No later
  settlement or claim of the invocation succeeds or changes anything.
\<close>

theorem async_outcome_once:
  assumes "settle_dispatch (ap_cfg p) env st (async_run p h0 (AsyncDb_empty fs)) = (Inr SO_Committed, db)"
    and "IS_is_terminal (inv_status (ds_invocation st))"
  shows "(\<exists>i. bt_get (as_invocations (async_run p h db)) (inv_id (ds_invocation st)) = Some i
       \<and> (i = ds_invocation st
          \<or> (\<exists>env retention now t b n. (env, AO_Purge_Outputs retention now) \<in> set h
               \<and> inv_output (ds_invocation st) = Some (Inline b n)
               \<and> output_expires_at (retention (inv_id (ds_invocation st))) (ds_invocation st) = Some t \<and> t \<le> now
               \<and> i = (ds_invocation st)\<lparr> inv_output := Some (Digest (port_digest p b) n) \<rparr>)))
    \<and> (\<forall>e other. inv_id (ds_invocation other) = inv_id (ds_invocation st) \<longrightarrow>
          fst (settle_dispatch (ap_cfg p) e other (async_run p h db)) \<noteq> Inr SO_Committed
          \<and> snd (settle_dispatch (ap_cfg p) e other (async_run p h db)) = async_run p h db)
    \<and> (\<forall>e req j r. cr_invocation_id req = inv_id (ds_invocation st) \<longrightarrow>
          fst (claim_dispatch e req (async_run p h db)) \<noteq> Inr (CO_Claimed j r)
          \<and> snd (claim_dispatch e req (async_run p h db)) = async_run p h db)"
proof -
  let ?k = "inv_id (ds_invocation st)" and ?start = "async_run p h0 (AsyncDb_empty fs)" and ?db = "async_run p h db"
  have tx: "settle_tx (ap_cfg p) env st ?start = Inr (SO_Committed, db)"
    using sql_write_Inr [of env "settle_tx (ap_cfg p) env st" ?start] assms(1) by (simp add: settle_dispatch_def)
  from tx reachable_keys have wrote: "bt_get (as_invocations db) ?k = Some (ds_invocation st)"
    by (cases rule: settle_tx_effect) auto
  have "keys_ok db" using step_keys [OF reachable_keys, of p "(env, AO_Settle st)"] assms(1) by (metis async_step.simps(6) snd_conv)
  then obtain i where row: "bt_get (as_invocations ?db) ?k = Some i"
      and same: "i = ds_invocation st \<or> (\<exists>c\<in>set h. output_purged p (snd c) (ds_invocation st) i)"
    using final_history [OF _ wrote assms(2), of p h] by blast
  then have "IS_is_terminal (inv_status i)" using assms(2) by (auto simp: output_purged_def)
  note refuses = terminal_refuses [OF row this]
  have "i = ds_invocation st
        \<or> (\<exists>env retention now t b n. (env, AO_Purge_Outputs retention now) \<in> set h
             \<and> inv_output (ds_invocation st) = Some (Inline b n)
             \<and> output_expires_at (retention ?k) (ds_invocation st) = Some t \<and> t \<le> now
             \<and> i = (ds_invocation st)\<lparr> inv_output := Some (Digest (port_digest p b) n) \<rparr>)"
    using same unfolding output_purged_def by (metis prod.collapse)
  then show ?thesis using row refuses by (metis prod.collapse)
qed

theorem async_outcome_once_witness:
  "bt_get (as_invocations (async_run smp_port [(calm, AO_Claim (smp_claim ''b''))] smp_settled)) (Ident ''inv_1'') = Some (ds_invocation smp_settle)
   \<and> fst (settle_dispatch smp_cfg calm smp_settle (async_run smp_port [] smp_settled)) \<noteq> Inr SO_Committed"
proof -
  let ?h0 = "[(calm, smp_accept), (calm, AO_Claim (smp_claim ''a''))]"
  have cfg: "ap_cfg smp_port = smp_cfg" by (simp add: smp_port_def)
  have "async_run smp_port ?h0 (AsyncDb_empty (bt_insert (Ident ''fn_1'') smp_fn bt_empty)) = smp_claimed"
    using smp_claim_granted by (simp add: smp_accepted_def smp_adb_def)
  then have committed: "settle_dispatch (ap_cfg smp_port) calm smp_settle
      (async_run smp_port ?h0 (AsyncDb_empty (bt_insert (Ident ''fn_1'') smp_fn bt_empty))) = (Inr SO_Committed, smp_settled)"
    using smp_settle_commits by (simp add: cfg smp_settled_def prod_eq_iff)
  have final: "IS_is_terminal (inv_status (ds_invocation smp_settle))" "inv_id (ds_invocation smp_settle) = Ident ''inv_1''"
    by (simp_all add: smp_settle_def smp_async_def smp_inv_def)
  note once = async_outcome_once [OF committed final(1)]
  have "bt_get (as_invocations (async_run smp_port [(calm, AO_Claim (smp_claim ''b''))] smp_settled)) (Ident ''inv_1'')
      = Some (ds_invocation smp_settle)"
    using conjunct1 [OF once [of "[(calm, AO_Claim (smp_claim ''b''))]"], unfolded final(2)]
    by (auto simp del: async_run.simps)
  moreover have "fst (settle_dispatch smp_cfg calm smp_settle (async_run smp_port [] smp_settled)) \<noteq> Inr SO_Committed"
    using conjunct1 [OF conjunct2 [OF once [of "[]"]], unfolded cfg] by blast
  ultimately show ?thesis ..
qed

section \<open>One redrive\<close>

text \<open>
  C26: A dead letter is redriven once: after a redrive of it, every later redrive of it, in every history, is
  refused and changes nothing; when nothing else fails it is refused because the dead letter is redriven.
\<close>

theorem redrive_once:
  assumes "redrive (ap_cfg p) env w (async_run p h0 (AsyncDb_empty fs)) = (Inr (), db)"
    and "rdw_dead_letter_id w' = rdw_dead_letter_id w"
  shows "fst (redrive (ap_cfg p) e w' (async_run p h db)) \<noteq> Inr () \<and> snd (redrive (ap_cfg p) e w' (async_run p h db)) = async_run p h db
    \<and> fst (redrive (ap_cfg p) calm w' (async_run p h db))
        = Inl (Conflict (''dead letter '' @ as_str (rdw_dead_letter_id w) @ '' is redriven''))"
proof -
  let ?k = "rdw_dead_letter_id w" and ?start = "async_run p h0 (AsyncDb_empty fs)" and ?db = "async_run p h db"
  have tx: "redrive_tx (ap_cfg p) env w ?start = Inr ((), db)"
    using sql_write_Inr [of env "redrive_tx (ap_cfg p) env w" ?start] assms(1) by (simp add: redrive_def)
  then obtain dead dead' where dead: "bt_get (as_dead_letters ?start) ?k = Some dead" "dl_status dead' = DLS_Redriven"
      "as_dead_letters db = bt_insert (dl_id dead) dead' (as_dead_letters ?start)"
    by (rule redrive_tx_effect)
  have "dl_id dead = ?k" using dead(1) reachable_keys [of p h0 fs] by (simp add: keys_ok_def)
  then have "bt_get (as_dead_letters db) ?k = Some dead'" using dead(3) by simp
  moreover have "keys_ok db" using step_keys [OF reachable_keys, of p "(env, AO_Redrive w)"] assms(1) by (metis async_step.simps(12) snd_conv)
  ultimately have row: "bt_get (as_dead_letters ?db) ?k = Some dead'"
    using deads.history_order [of h db p] dead(2) by (simp add: dead_order_def)
  have refused: "redrive_tx (ap_cfg p) e w' ?db = Inl (Conflict (''dead letter '' @ as_str ?k @ '' is redriven''))" for e
    using row dead(2) assms(2) by (simp add: redrive_tx_def Let_def)
  have "fst (redrive (ap_cfg p) e w' ?db) \<noteq> Inr ()"
    using sql_write_Inr [of e "redrive_tx (ap_cfg p) e w'" ?db "()"] refused by (auto simp: redrive_def)
  moreover have "snd (redrive (ap_cfg p) e w' ?db) = ?db"
    unfolding redrive_def by (rule sql_write_snd) (simp_all add: refused)
  ultimately show ?thesis using refused by (simp add: redrive_def sql_write_calm)
qed

theorem redrive_once_witness:
  "fst (redrive smp_cfg calm smp_redrive smp_settled) = Inr ()
   \<and> fst (redrive smp_cfg calm smp_redrive (snd (redrive smp_cfg calm smp_redrive smp_settled)))
       = Inl (Conflict (''dead letter '' @ ''dlq_1'' @ '' is redriven''))"
proof -
  let ?h0 = "[(calm, smp_accept), (calm, AO_Claim (smp_claim ''a'')), (calm, AO_Settle smp_settle)]"
  have cfg: "ap_cfg smp_port = smp_cfg" by (simp add: smp_port_def)
  have "async_run smp_port ?h0 (AsyncDb_empty (bt_insert (Ident ''fn_1'') smp_fn bt_empty)) = smp_settled"
    using smp_claim_granted by (simp add: smp_accepted_def smp_adb_def smp_settled_def cfg)
  then have run: "redrive (ap_cfg smp_port) calm smp_redrive (async_run smp_port ?h0 (AsyncDb_empty (bt_insert (Ident ''fn_1'') smp_fn bt_empty)))
      = (Inr (), snd (redrive smp_cfg calm smp_redrive smp_settled))"
    using smp_redrives by (simp add: cfg prod_eq_iff)
  show ?thesis
    using redrive_once [OF run refl, of calm "[]"] smp_redrives by (simp add: cfg smp_redrive_def as_str_def)
qed

section \<open>Deliveries\<close>















section \<open>Unavailable revisions\<close>

text \<open>
  How the code treats a pinned revision that does not resolve.  The documents of the repository say
  that such a delivery is dead-lettered at once with the reason \<open>revision_unavailable\<close>; the code gives
  the run the error \<open>Host.RevisionUnavailable\<close>, which \<open>classify\<close> retries, and defers it.
\<close>

lemma unresolved_revision_deferred:
  assumes "dp_resolve d i = Inl (AE_NotFound m) \<or> dp_resolve d i = Inl (AE_RevisionNotReady m)"
    and "pre_run_dead_end d i r (policy_for (dp_config d) (inv_function_id i)) now = None"
  shows "\<exists>e. err_type e = REVISION_UNAVAILABLE \<and> classify e = DSN_Retry
         \<and> handle_due d ev i r now
             = schedule_and_ack d i r (DF_Unclaimed (dr_generation r)) (policy_for (dp_config d) (inv_function_id i)) e False None"
proof -
  define e where "e = InvocationError_new EC_PlatformError REVISION_UNAVAILABLE
    (''the pinned revision '' @ as_str (inv_revision_id i) @ '' cannot run: '' @ m)"
  have "resolve_pinned d i = Inl e" using assms(1) by (auto simp: resolve_pinned_def e_def)
  moreover have retry: "classify e = DSN_Retry" by (simp add: e_def InvocationError_new_def REVISION_UNAVAILABLE_def, code_simp)
  ultimately have "handle_due d ev i r now
      = schedule_and_ack d i r (DF_Unclaimed (dr_generation r)) (policy_for (dp_config d) (inv_function_id i)) e False None"
    using assms(2) by (simp add: handle_due_def Let_def defer_and_ack_def)
  then show ?thesis using retry by (intro exI [of _ e]) (simp add: e_def InvocationError_new_def)
qed

end
