(* ===== verification/Rating.thy ===== *)
theory Rating
  imports Usage Machine_Ints "HOL-Library.Option_ord"
begin

text \<open>
  \<open>crates/application/src/usage/rating.rs\<close>: provisional rating of usage events, with the report
  structures of \<open>crates/api-types/src/lib.rs\<close>.  Quantities are natural numbers; \<open>saturating_add\<close>
  and \<open>unwrap_or(u64::MAX)\<close> stop at the width, the plain \<open>+=\<close> wraps at it.  The day of an instant
  comes from the time library and is the parameter \<open>day_of\<close>.
\<close>

section \<open>Report structures\<close>

record OutcomeCounts =
  oc_succeeded :: nat
  oc_failed :: nat
  oc_timeout :: nat
  oc_cancelled :: nat
  oc_outcome_unknown :: nat

record SegmentTotals =
  st_queue_wait_ms :: nat
  st_vm_base_boot_ms :: nat
  st_user_init_ms :: nat
  st_handler_ms :: nat
  st_teardown_ms :: nat
  st_idle_pooled_ms :: nat

record UsageQuantities =
  uq_invocations :: nat
  uq_attempts :: nat
  uq_retries :: nat
  uq_outcomes :: OutcomeCounts
  uq_segments_ms :: SegmentTotals
  uq_billable_ms :: nat
  uq_vcpu_milli_ms :: nat
  uq_mib_ms :: nat
  uq_request_bytes :: nat
  uq_response_bytes :: nat

record UnmeteredUsage =
  um_attempts :: nat
  um_segments :: SegmentTotals
  um_bytes :: nat

record HostCostFacts =
  hc_environments_stopped :: nat
  hc_environment_lifetime_ms :: nat
  hc_idle_pooled_ms :: nat
  hc_teardown_ms :: nat
  hc_boot_without_attempt_ms :: nat
  hc_cgroup_cpu_usec :: nat
  hc_cgroup_cpu_unknown :: nat
  hc_cgroup_memory_peak_bytes_max :: nat

record ProvisionalCharges =
  pc_vcpu :: nat
  pc_memory :: nat
  pc_invocations :: nat
  pc_transfer :: nat
  pc_total :: nat

record GuestReportedTotals =
  gt_handler_ms :: nat
  gt_init_ms :: nat

record UsageReportLine =
  rl_function_id :: "string option"
  rl_day :: "string option"
  rl_usage :: UsageQuantities
  rl_unmetered :: UnmeteredUsage
  rl_cost :: HostCostFacts
  rl_provisional_charges_micros :: ProvisionalCharges
  rl_guest_reported :: GuestReportedTotals

text \<open>\<open>#[derive(Default)]\<close>.\<close>

definition OutcomeCounts_default :: OutcomeCounts where
  "OutcomeCounts_default = \<lparr> oc_succeeded = 0, oc_failed = 0, oc_timeout = 0, oc_cancelled = 0,
     oc_outcome_unknown = 0 \<rparr>"

definition SegmentTotals_default :: SegmentTotals where
  "SegmentTotals_default = \<lparr> st_queue_wait_ms = 0, st_vm_base_boot_ms = 0, st_user_init_ms = 0,
     st_handler_ms = 0, st_teardown_ms = 0, st_idle_pooled_ms = 0 \<rparr>"

definition UsageQuantities_default :: UsageQuantities where
  "UsageQuantities_default = \<lparr> uq_invocations = 0, uq_attempts = 0, uq_retries = 0,
     uq_outcomes = OutcomeCounts_default, uq_segments_ms = SegmentTotals_default, uq_billable_ms = 0,
     uq_vcpu_milli_ms = 0, uq_mib_ms = 0, uq_request_bytes = 0, uq_response_bytes = 0 \<rparr>"

definition UnmeteredUsage_default :: UnmeteredUsage where
  "UnmeteredUsage_default =
     \<lparr> um_attempts = 0, um_segments = SegmentTotals_default, um_bytes = 0 \<rparr>"

definition HostCostFacts_default :: HostCostFacts where
  "HostCostFacts_default = \<lparr> hc_environments_stopped = 0, hc_environment_lifetime_ms = 0,
     hc_idle_pooled_ms = 0, hc_teardown_ms = 0, hc_boot_without_attempt_ms = 0,
     hc_cgroup_cpu_usec = 0, hc_cgroup_cpu_unknown = 0, hc_cgroup_memory_peak_bytes_max = 0 \<rparr>"

definition ProvisionalCharges_default :: ProvisionalCharges where
  "ProvisionalCharges_default =
     \<lparr> pc_vcpu = 0, pc_memory = 0, pc_invocations = 0, pc_transfer = 0, pc_total = 0 \<rparr>"

definition GuestReportedTotals_default :: GuestReportedTotals where
  "GuestReportedTotals_default = \<lparr> gt_handler_ms = 0, gt_init_ms = 0 \<rparr>"

definition UsageReportLine_default :: UsageReportLine where
  "UsageReportLine_default = \<lparr> rl_function_id = None, rl_day = None,
     rl_usage = UsageQuantities_default, rl_unmetered = UnmeteredUsage_default,
     rl_cost = HostCostFacts_default,
     rl_provisional_charges_micros = ProvisionalCharges_default,
     rl_guest_reported = GuestReportedTotals_default \<rparr>"

section \<open>Price tables\<close>

definition SEGMENT_NAMES :: "string list" where
  "SEGMENT_NAMES = [''queue_wait_ms'', ''vm_base_boot_ms'', ''user_init_ms'', ''handler_ms'',
     ''teardown_ms'', ''idle_pooled_ms'']"

definition VCPU_MILLI_MS_PER_VCPU_SECOND :: nat where
  "VCPU_MILLI_MS_PER_VCPU_SECOND = 1000 * 1000"

definition MIB_MS_PER_GIB_SECOND :: nat where
  "MIB_MS_PER_GIB_SECOND = 1024 * 1000"

definition BYTES_PER_GB :: nat where
  "BYTES_PER_GB = 1000000000"

record UnitPrices =
  up_vcpu_second :: nat
  up_gib_second :: nat
  up_invocation :: nat
  up_gb_transferred :: nat

record PriceTable =
  pt_version :: string
  pt_effective_from :: Timestamp
  pt_currency :: string
  pt_billable_segments :: "string list"
  pt_unit_prices_micros :: UnitPrices

text \<open>2026-09-01T00:00:00Z, in nanoseconds of the Unix epoch.\<close>

definition PriceTable_builtin :: PriceTable where
  "PriceTable_builtin = \<lparr> pt_version = ''provisional-dev-2026-09-v1'',
     pt_effective_from = 1788220800 * 1000 * nanos_per_milli, pt_currency = ''JPY'',
     pt_billable_segments = [''user_init_ms'', ''handler_ms''],
     pt_unit_prices_micros = \<lparr> up_vcpu_second = 2500, up_gib_second = 400, up_invocation = 30,
       up_gb_transferred = 15000000 \<rparr> \<rparr>"

text \<open>
  \<open>str::trim\<close> removes the code points with the Unicode property \<open>White_Space\<close>, here as their
  UTF-8 encodings; in UTF-8 text a byte match at either end is a match of code points.
\<close>

definition utf8_spaces :: "string list" where
  "utf8_spaces =
     map (\<lambda>b. [char_of b]) [9, 10, 11, 12, 13, 32 :: nat]
     @ map (map char_of)
         [[0xC2, 0x85], [0xC2, 0xA0], [0xE1, 0x9A, 0x80], [0xE2, 0x80, 0x80], [0xE2, 0x80, 0x81],
          [0xE2, 0x80, 0x82], [0xE2, 0x80, 0x83], [0xE2, 0x80, 0x84], [0xE2, 0x80, 0x85],
          [0xE2, 0x80, 0x86], [0xE2, 0x80, 0x87], [0xE2, 0x80, 0x88], [0xE2, 0x80, 0x89],
          [0xE2, 0x80, 0x8A], [0xE2, 0x80, 0xA8], [0xE2, 0x80, 0xA9], [0xE2, 0x80, 0xAF],
          [0xE2, 0x81, 0x9F], [0xE3, 0x80, 0x80 :: nat]]"

definition space_len :: "string list \<Rightarrow> string \<Rightarrow> nat" where
  "space_len spaces s =
     (case find (\<lambda>w. take (length w) s = w) spaces of None \<Rightarrow> 0 | Some w \<Rightarrow> length w)"

lemma space_len_le: "space_len spaces s \<le> length s"
proof (cases "find (\<lambda>w. take (length w) s = w) spaces")
  case (Some w)
  then have "take (length w) s = w" by (auto simp: find_Some_iff)
  then have "length w = min (length s) (length w)" by (metis length_take)
  then show ?thesis
    using Some by (simp add: space_len_def)
qed (simp add: space_len_def)

function skip_spaces :: "string list \<Rightarrow> string \<Rightarrow> string" where
  "skip_spaces spaces s =
     (if space_len spaces s = 0 then s else skip_spaces spaces (drop (space_len spaces s) s))"
  by pat_completeness auto
termination
proof (relation "measure (\<lambda>(spaces, s). length s)")
  fix spaces s
  assume "space_len spaces s \<noteq> 0"
  then show "((spaces, drop (space_len spaces s) s), spaces, s) \<in> measure (\<lambda>(spaces, s). length s)"
    using space_len_le [of spaces s] by simp
qed simp

declare skip_spaces.simps [simp del]

fun str_join :: "string \<Rightarrow> string list \<Rightarrow> string" where
  "str_join sep [] = []"
| "str_join sep [x] = x"
| "str_join sep (x # y # xs) = x @ sep @ str_join sep (y # xs)"

definition str_trim :: "string \<Rightarrow> string" where
  "str_trim s =
     rev (skip_spaces (map rev utf8_spaces) (rev (skip_spaces utf8_spaces s)))"

definition PriceTable_validate :: "PriceTable \<Rightarrow> string + unit" where
  "PriceTable_validate t =
     (if str_trim (pt_version t) = [] then Inl ''price table: version must not be empty''
      else if str_trim (pt_currency t) = [] then Inl ''price table: currency must not be empty''
      else try_each
        (\<lambda>s. if s \<notin> set SEGMENT_NAMES
             then Inl (''price table: unknown billable segment `'' @ s @ ''` (known: ''
                        @ str_join '', '' SEGMENT_NAMES @ '')'')
             else Inr ())
        (pt_billable_segments t))"

section \<open>Charges\<close>

definition round_half_up_div :: "nat \<Rightarrow> nat \<Rightarrow> nat" where
  "round_half_up_div n d = n div d + (if n mod d * 2 \<ge> d then 1 else 0)"

definition charge :: "nat \<Rightarrow> nat \<Rightarrow> nat \<Rightarrow> nat" where
  "charge quantity unit_price per =
     min (round_half_up_div (min (quantity * unit_price) u128_max) per) u64_max"

text \<open>\<open>std::time::Duration\<close> is a number of nanoseconds.\<close>

definition ceil_ms :: "nat \<Rightarrow> nat" where
  "ceil_ms d = min ((d div 1000 + 999) div 1000) u64_max"

section \<open>Grouping\<close>

record GroupBy =
  gb_function :: bool
  gb_day :: bool

fun str_split :: "char \<Rightarrow> string \<Rightarrow> string list" where
  "str_split c [] = [[]]"
| "str_split c (x # xs) =
     (if x = c then [] # str_split c xs
      else case str_split c xs of p # ps \<Rightarrow> (x # p) # ps | [] \<Rightarrow> [[x]])"

fun GroupBy_parts :: "string list \<Rightarrow> GroupBy \<Rightarrow> string + GroupBy" where
  "GroupBy_parts [] g = Inr g"
| "GroupBy_parts (part # parts) g =
     (if part = ''function'' then GroupBy_parts parts (g\<lparr> gb_function := True \<rparr>)
      else if part = ''day'' then GroupBy_parts parts (g\<lparr> gb_day := True \<rparr>)
      else if part = ''none'' then GroupBy_parts parts g
      else Inl (''group_by: unknown key `'' @ part @ ''` (use function, day, function,day or none)''))"

definition GroupBy_parse :: "string option \<Rightarrow> string + GroupBy" where
  "GroupBy_parse raw =
     (case raw of
        None \<Rightarrow> Inr \<lparr> gb_function = True, gb_day = True \<rparr>
      | Some raw \<Rightarrow>
          GroupBy_parts (filter (\<lambda>p. p \<noteq> []) (map str_trim (str_split CHR '','' raw)))
            \<lparr> gb_function = False, gb_day = False \<rparr>)"

definition GroupBy_keys :: "GroupBy \<Rightarrow> string list" where
  "GroupBy_keys g =
     (if gb_function g then [''function''] else []) @ (if gb_day g then [''day''] else [])"

section \<open>Accumulation\<close>

record Acc =
  acc_usage :: UsageQuantities
  acc_vcpu_milli_ms :: nat
  acc_mib_ms :: nat
  acc_transfer_bytes :: nat
  acc_unmetered :: UnmeteredUsage
  acc_cost :: HostCostFacts
  acc_guest :: GuestReportedTotals

definition Acc_default :: Acc where
  "Acc_default = \<lparr> acc_usage = UsageQuantities_default, acc_vcpu_milli_ms = 0, acc_mib_ms = 0,
     acc_transfer_bytes = 0, acc_unmetered = UnmeteredUsage_default,
     acc_cost = HostCostFacts_default, acc_guest = GuestReportedTotals_default \<rparr>"

definition add_segments :: "string \<Rightarrow> nat \<Rightarrow> SegmentTotals \<Rightarrow> SegmentTotals" where
  "add_segments name v t =
     (if name = ''queue_wait_ms'' then t\<lparr> st_queue_wait_ms := sat_add64 (st_queue_wait_ms t) v \<rparr>
      else if name = ''vm_base_boot_ms'' then t\<lparr> st_vm_base_boot_ms := sat_add64 (st_vm_base_boot_ms t) v \<rparr>
      else if name = ''user_init_ms'' then t\<lparr> st_user_init_ms := sat_add64 (st_user_init_ms t) v \<rparr>
      else if name = ''handler_ms'' then t\<lparr> st_handler_ms := sat_add64 (st_handler_ms t) v \<rparr>
      else if name = ''teardown_ms'' then t\<lparr> st_teardown_ms := sat_add64 (st_teardown_ms t) v \<rparr>
      else if name = ''idle_pooled_ms'' then t\<lparr> st_idle_pooled_ms := sat_add64 (st_idle_pooled_ms t) v \<rparr>
      else t)"

text \<open>The loop over the named segments: metered totals, unmetered counts, and the two locals
  \<open>billable_ms\<close> and \<open>any_unknown_billable\<close>.\<close>

definition segment_step ::
  "PriceTable \<Rightarrow> string \<times> Metered \<Rightarrow> SegmentTotals \<times> SegmentTotals \<times> nat \<times> bool
     \<Rightarrow> SegmentTotals \<times> SegmentTotals \<times> nat \<times> bool" where
  "segment_step table nm st =
     (case nm of (name, m) \<Rightarrow> case st of (metered, unmetered, billable_ms, any_unknown) \<Rightarrow>
        let (metered, unmetered) =
              (case ratable_value m of
                 Some v \<Rightarrow> (add_segments name v metered, unmetered)
               | None \<Rightarrow> (metered, add_segments name 1 unmetered))
        in if name \<in> set (pt_billable_segments table)
           then (case ratable_value m of
                   Some v \<Rightarrow> (metered, unmetered, sat_add64 billable_ms v, any_unknown)
                 | None \<Rightarrow> (metered, unmetered, billable_ms, True))
           else (metered, unmetered, billable_ms, any_unknown))"

definition count_outcome :: "UsageOutcome option \<Rightarrow> OutcomeCounts \<Rightarrow> OutcomeCounts" where
  "count_outcome outcome c =
     (case outcome of
        Some UO_Succeeded \<Rightarrow> c\<lparr> oc_succeeded := wrap_add64 (oc_succeeded c) 1 \<rparr>
      | Some UO_Failed \<Rightarrow> c\<lparr> oc_failed := wrap_add64 (oc_failed c) 1 \<rparr>
      | Some UO_Timeout \<Rightarrow> c\<lparr> oc_timeout := wrap_add64 (oc_timeout c) 1 \<rparr>
      | Some UO_Cancelled \<Rightarrow> c\<lparr> oc_cancelled := wrap_add64 (oc_cancelled c) 1 \<rparr>
      | _ \<Rightarrow> c\<lparr> oc_outcome_unknown := wrap_add64 (oc_outcome_unknown c) 1 \<rparr>)"

definition acc_add_bytes :: "UsageBytes \<Rightarrow> Acc \<Rightarrow> Acc" where
  "acc_add_bytes b a =
     (case (ratable_value (ub_request_bytes b), ratable_value (ub_response_bytes b)) of
        (Some req, Some resp) \<Rightarrow>
          a\<lparr> acc_usage := (acc_usage a)\<lparr>
                uq_request_bytes := sat_add64 (uq_request_bytes (acc_usage a)) req,
                uq_response_bytes := sat_add64 (uq_response_bytes (acc_usage a)) resp \<rparr>,
             acc_transfer_bytes := wrap_add128 (acc_transfer_bytes a) (req + resp) \<rparr>
      | (req, resp) \<Rightarrow>
          let a = a\<lparr> acc_unmetered := (acc_unmetered a)\<lparr> um_bytes := wrap_add64 (um_bytes (acc_unmetered a)) 1 \<rparr> \<rparr>;
              a = (case req of None \<Rightarrow> a | Some req \<Rightarrow>
                a\<lparr> acc_usage := (acc_usage a)\<lparr>
                     uq_request_bytes := sat_add64 (uq_request_bytes (acc_usage a)) req \<rparr>,
                   acc_transfer_bytes := wrap_add128 (acc_transfer_bytes a) req \<rparr>)
          in (case resp of None \<Rightarrow> a | Some resp \<Rightarrow>
                a\<lparr> acc_usage := (acc_usage a)\<lparr>
                     uq_response_bytes := sat_add64 (uq_response_bytes (acc_usage a)) resp \<rparr>,
                   acc_transfer_bytes := wrap_add128 (acc_transfer_bytes a) resp \<rparr>))"

definition acc_add_attempt :: "PriceTable \<Rightarrow> UsageEvent \<Rightarrow> Acc \<Rightarrow> Acc" where
  "acc_add_attempt table e a =
     (let u = acc_usage a;
          u = u\<lparr> uq_attempts := wrap_add64 (uq_attempts u) 1 \<rparr>;
          u = (case ue_attempt_kind e of
                 Some AK_Retry \<Rightarrow> u\<lparr> uq_retries := wrap_add64 (uq_retries u) 1 \<rparr>
               | _ \<Rightarrow> u\<lparr> uq_invocations := wrap_add64 (uq_invocations u) 1 \<rparr>);
          u = u\<lparr> uq_outcomes := count_outcome (ue_outcome e) (uq_outcomes u) \<rparr>;
          (metered, unmetered, billable_ms, any_unknown) =
            fold (segment_step table) (us_named (ue_segments e))
              (uq_segments_ms u, um_segments (acc_unmetered a), 0, False);
          cpu = ur_requested_cpu_millis (ue_resources e);
          mem = ur_requested_memory_mib (ue_resources e);
          any_unknown = (if cpu = 0 \<or> mem = 0 then True else any_unknown);
          um = (acc_unmetered a)\<lparr> um_segments := unmetered \<rparr>;
          um = (if any_unknown then um\<lparr> um_attempts := wrap_add64 (um_attempts um) 1 \<rparr> else um);
          u = u\<lparr> uq_segments_ms := metered,
                 uq_billable_ms := sat_add64 (uq_billable_ms u) billable_ms \<rparr>
      in acc_add_bytes (ue_bytes e)
           (a\<lparr> acc_usage := u, acc_unmetered := um,
               acc_vcpu_milli_ms := wrap_add128 (acc_vcpu_milli_ms a) (billable_ms * cpu),
               acc_mib_ms := wrap_add128 (acc_mib_ms a) (billable_ms * mem) \<rparr>))"

definition cost_add_stop :: "UsageEvent \<Rightarrow> HostCostFacts \<Rightarrow> HostCostFacts" where
  "cost_add_stop e c =
     (let s = ue_segments e;
          c = c\<lparr> hc_environments_stopped := wrap_add64 (hc_environments_stopped c) 1 \<rparr>;
          c = c\<lparr> hc_environment_lifetime_ms := sat_add64 (hc_environment_lifetime_ms c)
                   (case ue_monotonic_duration_ms e of Some d \<Rightarrow> d | None \<Rightarrow> 0) \<rparr>;
          c = c\<lparr> hc_idle_pooled_ms := sat_acc (hc_idle_pooled_ms c) (ratable_value (us_idle_pooled_ms s)) \<rparr>;
          c = c\<lparr> hc_teardown_ms := sat_acc (hc_teardown_ms c) (ratable_value (us_teardown_ms s)) \<rparr>;
          c = (if ue_attempt_id e = None \<and> ue_outcome e \<noteq> None
               then c\<lparr> hc_boot_without_attempt_ms := sat_add64 (hc_boot_without_attempt_ms c)
                       (sat_add64 (case ratable_value (us_vm_base_boot_ms s) of Some v \<Rightarrow> v | None \<Rightarrow> 0)
                                  (case ratable_value (us_user_init_ms s) of Some v \<Rightarrow> v | None \<Rightarrow> 0)) \<rparr>
               else c);
          c = (case ratable_value (ur_cgroup_cpu_usec (ue_resources e)) of
                 Some v \<Rightarrow> c\<lparr> hc_cgroup_cpu_usec := sat_add64 (hc_cgroup_cpu_usec c) v \<rparr>
               | None \<Rightarrow> c\<lparr> hc_cgroup_cpu_unknown := wrap_add64 (hc_cgroup_cpu_unknown c) 1 \<rparr>)
      in (case ratable_value (ur_cgroup_memory_peak_bytes (ue_resources e)) of
            Some v \<Rightarrow> c\<lparr> hc_cgroup_memory_peak_bytes_max := max (hc_cgroup_memory_peak_bytes_max c) v \<rparr>
          | None \<Rightarrow> c))"

definition acc_add_stop :: "UsageEvent \<Rightarrow> Acc \<Rightarrow> Acc" where
  "acc_add_stop e a = a\<lparr> acc_cost := cost_add_stop e (acc_cost a) \<rparr>"

definition acc_add :: "PriceTable \<Rightarrow> UsageEvent \<Rightarrow> Acc \<Rightarrow> Acc" where
  "acc_add table e a =
     (let a = (case ue_event_type e of
                 UE_AttemptSettled \<Rightarrow> acc_add_attempt table e a
               | UE_EnvironmentStopped \<Rightarrow> acc_add_stop e a
               | UE_EnvironmentStarted \<Rightarrow> a
               | UE_HandlerStarted \<Rightarrow> a
               | UE_HandlerFinished \<Rightarrow> a);
          a = a\<lparr> acc_guest := (acc_guest a)\<lparr>
                gt_handler_ms := sat_acc (gt_handler_ms (acc_guest a)) (gr_handler_ms (ue_guest_reported e)) \<rparr> \<rparr>
      in a\<lparr> acc_guest := (acc_guest a)\<lparr>
              gt_init_ms := sat_acc (gt_init_ms (acc_guest a)) (gr_init_ms (ue_guest_reported e)) \<rparr> \<rparr>)"

definition acc_finish :: "PriceTable \<Rightarrow> Acc \<Rightarrow> UsageReportLine" where
  "acc_finish table a =
     (let p = pt_unit_prices_micros table;
          u = (acc_usage a)\<lparr> uq_vcpu_milli_ms := min (acc_vcpu_milli_ms a) u64_max,
                uq_mib_ms := min (acc_mib_ms a) u64_max \<rparr>;
          vcpu = charge (acc_vcpu_milli_ms a) (up_vcpu_second p) VCPU_MILLI_MS_PER_VCPU_SECOND;
          memory = charge (acc_mib_ms a) (up_gib_second p) MIB_MS_PER_GIB_SECOND;
          invocations = charge (uq_invocations u) (up_invocation p) 1;
          transfer = charge (acc_transfer_bytes a) (up_gb_transferred p) BYTES_PER_GB
      in \<lparr> rl_function_id = None, rl_day = None, rl_usage = u, rl_unmetered = acc_unmetered a,
           rl_cost = acc_cost a,
           rl_provisional_charges_micros =
             \<lparr> pc_vcpu = vcpu, pc_memory = memory, pc_invocations = invocations, pc_transfer = transfer,
               pc_total = sat_add64 (sat_add64 (sat_add64 vcpu memory) invocations) transfer \<rparr>,
           rl_guest_reported = acc_guest a \<rparr>)"

section \<open>Rating\<close>

definition sum_segments :: "SegmentTotals \<Rightarrow> SegmentTotals \<Rightarrow> SegmentTotals" where
  "sum_segments a b =
     \<lparr> st_queue_wait_ms = sat_add64 (st_queue_wait_ms a) (st_queue_wait_ms b),
       st_vm_base_boot_ms = sat_add64 (st_vm_base_boot_ms a) (st_vm_base_boot_ms b),
       st_user_init_ms = sat_add64 (st_user_init_ms a) (st_user_init_ms b),
       st_handler_ms = sat_add64 (st_handler_ms a) (st_handler_ms b),
       st_teardown_ms = sat_add64 (st_teardown_ms a) (st_teardown_ms b),
       st_idle_pooled_ms = sat_add64 (st_idle_pooled_ms a) (st_idle_pooled_ms b) \<rparr>"

definition sum_outcomes :: "OutcomeCounts \<Rightarrow> OutcomeCounts \<Rightarrow> OutcomeCounts" where
  "sum_outcomes a b =
     \<lparr> oc_succeeded = wrap_add64 (oc_succeeded a) (oc_succeeded b),
       oc_failed = wrap_add64 (oc_failed a) (oc_failed b),
       oc_timeout = wrap_add64 (oc_timeout a) (oc_timeout b),
       oc_cancelled = wrap_add64 (oc_cancelled a) (oc_cancelled b),
       oc_outcome_unknown = wrap_add64 (oc_outcome_unknown a) (oc_outcome_unknown b) \<rparr>"

definition sum_usage :: "UsageQuantities \<Rightarrow> UsageQuantities \<Rightarrow> UsageQuantities" where
  "sum_usage u l =
     \<lparr> uq_invocations = wrap_add64 (uq_invocations u) (uq_invocations l),
       uq_attempts = wrap_add64 (uq_attempts u) (uq_attempts l),
       uq_retries = wrap_add64 (uq_retries u) (uq_retries l),
       uq_outcomes = sum_outcomes (uq_outcomes u) (uq_outcomes l),
       uq_segments_ms = sum_segments (uq_segments_ms u) (uq_segments_ms l),
       uq_billable_ms = sat_add64 (uq_billable_ms u) (uq_billable_ms l),
       uq_vcpu_milli_ms = sat_add64 (uq_vcpu_milli_ms u) (uq_vcpu_milli_ms l),
       uq_mib_ms = sat_add64 (uq_mib_ms u) (uq_mib_ms l),
       uq_request_bytes = sat_add64 (uq_request_bytes u) (uq_request_bytes l),
       uq_response_bytes = sat_add64 (uq_response_bytes u) (uq_response_bytes l) \<rparr>"

definition sum_cost :: "HostCostFacts \<Rightarrow> HostCostFacts \<Rightarrow> HostCostFacts" where
  "sum_cost c l =
     \<lparr> hc_environments_stopped = wrap_add64 (hc_environments_stopped c) (hc_environments_stopped l),
       hc_environment_lifetime_ms = sat_add64 (hc_environment_lifetime_ms c) (hc_environment_lifetime_ms l),
       hc_idle_pooled_ms = sat_add64 (hc_idle_pooled_ms c) (hc_idle_pooled_ms l),
       hc_teardown_ms = sat_add64 (hc_teardown_ms c) (hc_teardown_ms l),
       hc_boot_without_attempt_ms = sat_add64 (hc_boot_without_attempt_ms c) (hc_boot_without_attempt_ms l),
       hc_cgroup_cpu_usec = sat_add64 (hc_cgroup_cpu_usec c) (hc_cgroup_cpu_usec l),
       hc_cgroup_cpu_unknown = wrap_add64 (hc_cgroup_cpu_unknown c) (hc_cgroup_cpu_unknown l),
       hc_cgroup_memory_peak_bytes_max =
         max (hc_cgroup_memory_peak_bytes_max c) (hc_cgroup_memory_peak_bytes_max l) \<rparr>"

definition sum_charges :: "ProvisionalCharges \<Rightarrow> ProvisionalCharges \<Rightarrow> ProvisionalCharges" where
  "sum_charges p l =
     \<lparr> pc_vcpu = sat_add64 (pc_vcpu p) (pc_vcpu l),
       pc_memory = sat_add64 (pc_memory p) (pc_memory l),
       pc_invocations = sat_add64 (pc_invocations p) (pc_invocations l),
       pc_transfer = sat_add64 (pc_transfer p) (pc_transfer l),
       pc_total = sat_add64 (pc_total p) (pc_total l) \<rparr>"

definition sum_line :: "UsageReportLine \<Rightarrow> UsageReportLine \<Rightarrow> UsageReportLine" where
  "sum_line l t = t\<lparr>
     rl_usage := sum_usage (rl_usage t) (rl_usage l),
     rl_unmetered :=
       \<lparr> um_attempts = wrap_add64 (um_attempts (rl_unmetered t)) (um_attempts (rl_unmetered l)),
         um_segments = sum_segments (um_segments (rl_unmetered t)) (um_segments (rl_unmetered l)),
         um_bytes = wrap_add64 (um_bytes (rl_unmetered t)) (um_bytes (rl_unmetered l)) \<rparr>,
     rl_cost := sum_cost (rl_cost t) (rl_cost l),
     rl_provisional_charges_micros :=
       sum_charges (rl_provisional_charges_micros t) (rl_provisional_charges_micros l),
     rl_guest_reported :=
       \<lparr> gt_handler_ms = sat_add64 (gt_handler_ms (rl_guest_reported t)) (gt_handler_ms (rl_guest_reported l)),
         gt_init_ms = sat_add64 (gt_init_ms (rl_guest_reported t)) (gt_init_ms (rl_guest_reported l)) \<rparr> \<rparr>"

definition sum_lines :: "UsageReportLine list \<Rightarrow> UsageReportLine" where
  "sum_lines lines = fold sum_line lines UsageReportLine_default"

type_synonym group_key = "string option \<times> string option"

definition group_key_of :: "(Timestamp \<Rightarrow> string) \<Rightarrow> GroupBy \<Rightarrow> UsageEvent \<Rightarrow> group_key" where
  "group_key_of day_of group_by e =
     (if gb_function group_by
      then Some (case ue_function_id e of None \<Rightarrow> ''unattributed'' | Some f \<Rightarrow> as_str f) else None,
      if gb_day group_by then Some (day_of (ue_observed_at e)) else None)"

definition group_step ::
  "(Timestamp \<Rightarrow> string) \<Rightarrow> PriceTable \<Rightarrow> GroupBy \<Rightarrow> UsageEvent
     \<Rightarrow> (group_key, Acc) btreemap \<Rightarrow> (group_key, Acc) btreemap" where
  "group_step day_of table group_by e groups =
     (let k = group_key_of day_of group_by e;
          acc = (case bt_get groups k of Some a \<Rightarrow> a | None \<Rightarrow> Acc_default)
      in bt_insert k (acc_add table e acc) groups)"

definition rate ::
  "(Timestamp \<Rightarrow> string) \<Rightarrow> UsageEvent list \<Rightarrow> PriceTable \<Rightarrow> GroupBy
     \<Rightarrow> UsageReportLine list \<times> UsageReportLine" where
  "rate day_of events table group_by =
     (let groups = fold (group_step day_of table group_by) events bt_empty;
          lines = map (\<lambda>((function, day), acc).
                    (acc_finish table acc)\<lparr> rl_function_id := function, rl_day := day \<rparr>)
                  (bt_entries groups)
      in (lines, sum_lines lines))"

end
