(* ===== verification/Snapshots.thy ===== *)
theory Snapshots
  imports Revisions Rating
begin

unbundle bit_operations_syntax

text \<open>
  \<open>crates/domain/src/snapshot.rs\<close>: the manifest of a snapshot, what a host would load it into, the
  field by field comparison of the two, and the signature of a manifest.  The JSON text of a
  manifest, SHA-256 and the hexadecimal codec come from libraries and are the parameter \<open>SnapCodec\<close>.
\<close>

section \<open>The manifest\<close>

definition SNAPSHOT_MANIFEST_VERSION :: u32 where
  "SNAPSHOT_MANIFEST_VERSION = 1"

record RuntimeProfile =
  rp_provider_kind :: string
  rp_provider_version :: string
  rp_vmm_sha256 :: Sha256Digest
  rp_kernel_sha256 :: Sha256Digest
  rp_rootfs_sha256 :: Sha256Digest
  rp_bridge_protocol_version :: u32
  rp_jailer_mode :: string
  rp_cgroup_mode :: string
  rp_host_kernel :: string

record HostCpuIdentity =
  hi_arch :: string
  hi_cpu_model_hash :: Sha256Digest
  hi_kvm_capabilities_hash :: Sha256Digest

record DriveSlot =
  drv_drive_id :: string
  drv_path_in_vmm :: string
  drv_read_only :: bool
  drv_root_device :: bool

record DeviceModel =
  dm_drives :: "DriveSlot list"
  dm_vsock_guest_cid :: u32
  dm_vsock_port :: u32
  dm_doorbell_port :: u32
  dm_network_interfaces :: u32

record StorageLayout =
  sl_scratch_mib :: u32

record NetworkProfile =
  np_egress :: EgressProfile
  np_allowlist_digest :: "Sha256Digest option"

text \<open>\<open>allow_json\<close> is the JSON text of an allowlist.\<close>

definition NetworkProfile_of ::
  "(string \<Rightarrow> string) \<Rightarrow> (EgressAllowRule list \<Rightarrow> string) \<Rightarrow> RevisionSpec \<Rightarrow> NetworkProfile" where
  "NetworkProfile_of sha256_hex allow_json spec =
     \<lparr> np_egress = egress spec,
       np_allowlist_digest = (if egress spec = EP_Restricted
         then Some (Sha256Digest_of_bytes sha256_hex (allow_json (egress_allow spec))) else None) \<rparr>"

record ArtifactDigest =
  ad_sha256 :: Sha256Digest
  ad_size_bytes :: u64

record SnapshotArtifacts =
  sa_memory :: ArtifactDigest
  sa_vmstate :: ArtifactDigest
  sa_scratch :: ArtifactDigest
  sa_function_drive :: ArtifactDigest

record SnapshotManifest =
  sm_manifest_version :: u32
  sm_snapshot_id :: SnapshotId
  sm_tenant_id :: TenantId
  sm_function_id :: FunctionId
  sm_revision_id :: RevisionId
  sm_revision_spec_digest :: Sha256Digest
  sm_runtime :: RuntimeProfile
  sm_host_cpu :: HostCpuIdentity
  sm_devices :: DeviceModel
  sm_memory_mib :: u32
  sm_vcpus :: u32
  sm_storage :: StorageLayout
  sm_network :: NetworkProfile
  sm_encryption_key_generation :: string
  sm_secret_generation :: string
  sm_created_at :: Timestamp
  sm_expires_at :: Timestamp
  sm_source_environment_id :: EnvironmentId
  sm_source_boot_id :: string
  sm_sdk_lifecycle_version :: u32
  sm_checkpoint_phase :: string
  sm_artifacts :: SnapshotArtifacts

datatype SnapshotState = SS_Active | SS_Revoked string | SS_Quarantined string | SS_Expired

fun SnapshotState_name :: "SnapshotState \<Rightarrow> string" where
  "SnapshotState_name SS_Active = ''active''"
| "SnapshotState_name (SS_Revoked _) = ''revoked''"
| "SnapshotState_name (SS_Quarantined _) = ''quarantined''"
| "SnapshotState_name SS_Expired = ''expired''"

record RestoreTarget =
  rt_tenant_id :: TenantId
  rt_function_id :: FunctionId
  rt_revision_id :: RevisionId
  rt_revision_spec_digest :: Sha256Digest
  rt_runtime :: RuntimeProfile
  rt_host_cpu :: HostCpuIdentity
  rt_devices :: DeviceModel
  rt_memory_mib :: u32
  rt_vcpus :: u32
  rt_storage :: StorageLayout
  rt_network :: NetworkProfile
  rt_encryption_key_generation :: string
  rt_secret_generation :: string
  rt_sdk_lifecycle_version :: u32

section \<open>Compatibility\<close>

datatype IncompatibleReason =
    IR_ManifestVersion u32 | IR_TenantMismatch | IR_FunctionMismatch | IR_RevisionMismatch
  | IR_SpecDigestMismatch | IR_RuntimeMismatch string | IR_HostCpuMismatch string
  | IR_DeviceModelMismatch | IR_MemoryMismatch | IR_VcpuMismatch | IR_StorageMismatch
  | IR_NetworkMismatch | IR_EgressUnsupported | IR_KeyGenerationChanged
  | IR_SecretGenerationChanged | IR_LifecycleVersionMismatch | IR_CheckpointPhase string
  | IR_Expired | IR_Revoked string | IR_Quarantined string

fun IncompatibleReason_code :: "IncompatibleReason \<Rightarrow> string" where
  "IncompatibleReason_code (IR_ManifestVersion _) = ''manifest_version''"
| "IncompatibleReason_code IR_TenantMismatch = ''tenant_mismatch''"
| "IncompatibleReason_code IR_FunctionMismatch = ''function_mismatch''"
| "IncompatibleReason_code IR_RevisionMismatch = ''revision_mismatch''"
| "IncompatibleReason_code IR_SpecDigestMismatch = ''spec_digest_mismatch''"
| "IncompatibleReason_code (IR_RuntimeMismatch _) = ''runtime_mismatch''"
| "IncompatibleReason_code (IR_HostCpuMismatch _) = ''host_cpu_mismatch''"
| "IncompatibleReason_code IR_DeviceModelMismatch = ''device_model_mismatch''"
| "IncompatibleReason_code IR_MemoryMismatch = ''memory_mismatch''"
| "IncompatibleReason_code IR_VcpuMismatch = ''vcpu_mismatch''"
| "IncompatibleReason_code IR_StorageMismatch = ''storage_mismatch''"
| "IncompatibleReason_code IR_NetworkMismatch = ''network_mismatch''"
| "IncompatibleReason_code IR_EgressUnsupported = ''egress_unsupported''"
| "IncompatibleReason_code IR_KeyGenerationChanged = ''key_generation_changed''"
| "IncompatibleReason_code IR_SecretGenerationChanged = ''secret_generation_changed''"
| "IncompatibleReason_code IR_LifecycleVersionMismatch = ''lifecycle_version_mismatch''"
| "IncompatibleReason_code (IR_CheckpointPhase _) = ''checkpoint_phase''"
| "IncompatibleReason_code IR_Expired = ''expired''"
| "IncompatibleReason_code (IR_Revoked _) = ''revoked''"
| "IncompatibleReason_code (IR_Quarantined _) = ''quarantined''"

fun IncompatibleReason_to_string :: "IncompatibleReason \<Rightarrow> string" where
  "IncompatibleReason_to_string (IR_ManifestVersion found) = ''manifest_version '' @ show_u found @ '' unsupported''"
| "IncompatibleReason_to_string (IR_RuntimeMismatch field) = ''runtime_mismatch ('' @ field @ '')''"
| "IncompatibleReason_to_string (IR_HostCpuMismatch field) = ''host_cpu_mismatch ('' @ field @ '')''"
| "IncompatibleReason_to_string (IR_CheckpointPhase found) = ''checkpoint_phase `'' @ found @ ''`''"
| "IncompatibleReason_to_string (IR_Revoked reason) = ''revoked ('' @ reason @ '')''"
| "IncompatibleReason_to_string (IR_Quarantined reason) = ''quarantined ('' @ reason @ '')''"
| "IncompatibleReason_to_string other = IncompatibleReason_code other"

datatype Compatibility = Compatible | Incompatible "IncompatibleReason list"

fun is_compatible :: "Compatibility \<Rightarrow> bool" where
  "is_compatible Compatible = True"
| "is_compatible (Incompatible _) = False"

fun compat_reasons :: "Compatibility \<Rightarrow> IncompatibleReason list" where
  "compat_reasons Compatible = []"
| "compat_reasons (Incompatible reasons) = reasons"

definition CHECKPOINT_PHASE :: string where
  "CHECKPOINT_PHASE = ''checkpoint''"

definition push_if :: "bool \<Rightarrow> 'a \<Rightarrow> 'a list" where
  "push_if b x = (if b then [x] else [])"

fun state_reasons :: "SnapshotState \<Rightarrow> IncompatibleReason list" where
  "state_reasons SS_Active = []"
| "state_reasons (SS_Revoked reason) = [IR_Revoked reason]"
| "state_reasons (SS_Quarantined reason) = [IR_Quarantined reason]"
| "state_reasons SS_Expired = [IR_Expired]"

definition field_reasons :: "(string \<Rightarrow> IncompatibleReason) \<Rightarrow> (string \<times> bool) list \<Rightarrow> IncompatibleReason list" where
  "field_reasons mk fs = concat (map (\<lambda>(field, same). push_if (\<not> same) (mk field)) fs)"

definition runtime_fields :: "RuntimeProfile \<Rightarrow> RuntimeProfile \<Rightarrow> (string \<times> bool) list" where
  "runtime_fields m t =
     [(''provider_kind'', rp_provider_kind m = rp_provider_kind t),
      (''provider_version'', rp_provider_version m = rp_provider_version t),
      (''vmm_sha256'', rp_vmm_sha256 m = rp_vmm_sha256 t),
      (''kernel_sha256'', rp_kernel_sha256 m = rp_kernel_sha256 t),
      (''rootfs_sha256'', rp_rootfs_sha256 m = rp_rootfs_sha256 t),
      (''bridge_protocol_version'', rp_bridge_protocol_version m = rp_bridge_protocol_version t),
      (''jailer_mode'', rp_jailer_mode m = rp_jailer_mode t),
      (''cgroup_mode'', rp_cgroup_mode m = rp_cgroup_mode t),
      (''host_kernel'', rp_host_kernel m = rp_host_kernel t)]"

definition host_cpu_fields :: "HostCpuIdentity \<Rightarrow> HostCpuIdentity \<Rightarrow> (string \<times> bool) list" where
  "host_cpu_fields m t =
     [(''arch'', hi_arch m = hi_arch t), (''cpu_model_hash'', hi_cpu_model_hash m = hi_cpu_model_hash t),
      (''kvm_capabilities_hash'', hi_kvm_capabilities_hash m = hi_kvm_capabilities_hash t)]"

definition check_compatibility :: "SnapshotManifest \<Rightarrow> SnapshotState \<Rightarrow> RestoreTarget \<Rightarrow> Timestamp \<Rightarrow> Compatibility" where
  "check_compatibility m state t now =
     (if sm_tenant_id m \<noteq> rt_tenant_id t then Incompatible [IR_TenantMismatch]
      else let reasons =
             push_if (sm_manifest_version m \<noteq> SNAPSHOT_MANIFEST_VERSION) (IR_ManifestVersion (sm_manifest_version m))
             @ state_reasons state
             @ push_if (now \<ge> sm_expires_at m \<and> state \<noteq> SS_Expired) IR_Expired
             @ push_if (sm_function_id m \<noteq> rt_function_id t) IR_FunctionMismatch
             @ push_if (sm_revision_id m \<noteq> rt_revision_id t) IR_RevisionMismatch
             @ push_if (sm_revision_spec_digest m \<noteq> rt_revision_spec_digest t) IR_SpecDigestMismatch
             @ field_reasons IR_RuntimeMismatch (runtime_fields (sm_runtime m) (rt_runtime t))
             @ field_reasons IR_HostCpuMismatch (host_cpu_fields (sm_host_cpu m) (rt_host_cpu t))
             @ push_if (sm_devices m \<noteq> rt_devices t) IR_DeviceModelMismatch
             @ push_if (sm_memory_mib m \<noteq> rt_memory_mib t) IR_MemoryMismatch
             @ push_if (sm_vcpus m \<noteq> rt_vcpus t) IR_VcpuMismatch
             @ push_if (sm_storage m \<noteq> rt_storage t) IR_StorageMismatch
             @ push_if (sm_network m \<noteq> rt_network t) IR_NetworkMismatch
             @ push_if (np_egress (sm_network m) \<noteq> EP_None \<or> np_egress (rt_network t) \<noteq> EP_None) IR_EgressUnsupported
             @ push_if (sm_encryption_key_generation m \<noteq> rt_encryption_key_generation t) IR_KeyGenerationChanged
             @ push_if (sm_secret_generation m \<noteq> rt_secret_generation t) IR_SecretGenerationChanged
             @ push_if (sm_sdk_lifecycle_version m \<noteq> rt_sdk_lifecycle_version t) IR_LifecycleVersionMismatch
             @ push_if (sm_checkpoint_phase m \<noteq> CHECKPOINT_PHASE) (IR_CheckpointPhase (sm_checkpoint_phase m))
           in if reasons = [] then Compatible else Incompatible reasons)"

section \<open>Signatures\<close>

record SnapCodec =
  sc_json :: "SnapshotManifest \<Rightarrow> string"
  sc_parse :: "string \<Rightarrow> string + SnapshotManifest"
  sc_sha256 :: "string \<Rightarrow> string"
  sc_hex_encode :: "string \<Rightarrow> string"
  sc_hex_decode :: "string \<Rightarrow> string option"

definition sc_digest :: "SnapCodec \<Rightarrow> string \<Rightarrow> Sha256Digest" where
  "sc_digest cx bytes = Sha256Digest_of_bytes (\<lambda>b. sc_hex_encode cx (sc_sha256 cx b)) bytes"

datatype ManifestError =
    ME_KeyMismatch string string | ME_BadSignature | ME_DigestMismatch | ME_Malformed string | ME_NotCanonical

fun ManifestError_to_string :: "ManifestError \<Rightarrow> string" where
  "ManifestError_to_string (ME_KeyMismatch expected found) =
     ''manifest signature key '' @ found @ '' is not the configured key '' @ expected"
| "ManifestError_to_string ME_BadSignature = ''manifest signature does not verify''"
| "ManifestError_to_string ME_DigestMismatch = ''manifest digest does not match its content''"
| "ManifestError_to_string (ME_Malformed e) = ''manifest is not valid: '' @ e"
| "ManifestError_to_string ME_NotCanonical = ''manifest is not in canonical form''"

record SnapshotSigningKey =
  sk_key :: string
  sk_id :: string

definition SigningKey_from_bytes :: "SnapCodec \<Rightarrow> string \<Rightarrow> SnapshotSigningKey" where
  "SigningKey_from_bytes cx key =
     \<lparr> sk_key = key, sk_id = ''s1-'' @ take 16 (Sha256Digest_hex (sc_digest cx
         (''tachyon-serverless/snapshot-signing-key-id/v1'' @ [CHR 0x00] @ key))) \<rparr>"

definition SigningKey_from_hex :: "SnapCodec \<Rightarrow> string \<Rightarrow> DomainError + SnapshotSigningKey" where
  "SigningKey_from_hex cx text =
     (case sc_hex_decode cx (str_trim text) of
        None \<Rightarrow> Inl (Validation ''snapshot signing key'' ''must be 64 hex characters'')
      | Some bytes \<Rightarrow>
          if length bytes = 32 then Inr (SigningKey_from_bytes cx bytes)
          else Inl (Validation ''snapshot signing key'' ''must be 32 bytes (64 hex)''))"

definition xor_byte :: "char \<Rightarrow> char \<Rightarrow> char" where
  "xor_byte a b = char_of ((of_char a :: nat) XOR of_char b)"

definition hmac_sha256 :: "(string \<Rightarrow> string) \<Rightarrow> string \<Rightarrow> string \<Rightarrow> string" where
  "hmac_sha256 sha256 key message =
     (let BLOCK = 64;
          k0 = (if length key > BLOCK then take 32 (sha256 key) else key);
          k = k0 @ replicate (BLOCK - length k0) (CHR 0x00);
          ipad = map (xor_byte (char_of (0x36 :: nat))) k;
          opad = map (xor_byte (char_of (0x5C :: nat))) k;
          inner = sha256 (ipad @ message)
      in sha256 (opad @ inner))"

definition signed_message :: "string \<Rightarrow> string \<Rightarrow> string" where
  "signed_message key_id canonical =
     ''tachyon-serverless/snapshot-manifest/v1'' @ [CHR 0x00] @ key_id @ [CHR 0x00] @ canonical"

definition sk_mac :: "SnapCodec \<Rightarrow> SnapshotSigningKey \<Rightarrow> string \<Rightarrow> string" where
  "sk_mac cx k message = hmac_sha256 (sc_sha256 cx) (sk_key k) message"

definition constant_time_eq :: "string \<Rightarrow> string \<Rightarrow> bool" where
  "constant_time_eq a b \<longleftrightarrow> length a = length b
     \<and> foldl (\<lambda>acc (x, y). acc OR (of_char x XOR of_char y)) (0 :: nat) (zip a b) = 0"

record SealedManifest =
  se_manifest :: string
  se_digest :: Sha256Digest
  se_key_id :: string
  se_signature :: string

definition sk_seal :: "SnapCodec \<Rightarrow> SnapshotSigningKey \<Rightarrow> SnapshotManifest \<Rightarrow> SealedManifest" where
  "sk_seal cx k manifest =
     (let canonical = sc_json cx manifest
      in \<lparr> se_manifest = canonical, se_digest = sc_digest cx canonical, se_key_id = sk_id k,
           se_signature = sc_hex_encode cx (sk_mac cx k (signed_message (sk_id k) canonical)) \<rparr>)"

definition sk_verify :: "SnapCodec \<Rightarrow> SnapshotSigningKey \<Rightarrow> SealedManifest \<Rightarrow> ManifestError + SnapshotManifest" where
  "sk_verify cx k sealed =
     (if se_key_id sealed \<noteq> sk_id k then Inl (ME_KeyMismatch (sk_id k) (se_key_id sealed))
      else let expected = sk_mac cx k (signed_message (sk_id k) (se_manifest sealed))
      in case sc_hex_decode cx (se_signature sealed) of
           None \<Rightarrow> Inl ME_BadSignature
         | Some given \<Rightarrow>
             if \<not> constant_time_eq expected given then Inl ME_BadSignature
             else if sc_digest cx (se_manifest sealed) \<noteq> se_digest sealed then Inl ME_DigestMismatch
             else case sc_parse cx (se_manifest sealed) of
                    Inl e \<Rightarrow> Inl (ME_Malformed e)
                  | Inr manifest \<Rightarrow>
                      if sc_json cx manifest \<noteq> se_manifest sealed then Inl ME_NotCanonical else Inr manifest)"

section \<open>Facts\<close>

lemma push_if_empty [simp]: "push_if b x = [] \<longleftrightarrow> \<not> b"
  by (simp add: push_if_def)

lemma field_reasons_empty: "field_reasons mk fs = [] \<longleftrightarrow> (\<forall>(_, same)\<in>set fs. same)"
  by (induction fs) (auto simp: field_reasons_def)

lemma runtime_fields_same: "field_reasons mk (runtime_fields m t) = [] \<longleftrightarrow> m = t"
  by (cases m; cases t) (auto simp: field_reasons_empty runtime_fields_def)

lemma host_cpu_fields_same: "field_reasons mk (host_cpu_fields m t) = [] \<longleftrightarrow> m = t"
  by (cases m; cases t) (auto simp: field_reasons_empty host_cpu_fields_def)

lemma state_reasons_empty [simp]: "state_reasons state = [] \<longleftrightarrow> state = SS_Active"
  by (cases state) simp_all

lemma fold_or_zero:
  "foldl (\<lambda>acc (x, y). acc OR (of_char x XOR of_char y)) (acc :: nat) zs = 0 \<longleftrightarrow> acc = 0 \<and> (\<forall>(x, y)\<in>set zs. x = y)"
proof (induction zs arbitrary: acc)
  case (Cons p zs)
  obtain x y where p: "p = (x, y)" by force
  have "of_char x XOR of_char y = (0 :: nat) \<longleftrightarrow> (of_char x :: nat) = of_char y"
    by (auto simp: bit_eq_iff bit_simps)
  then show ?case using Cons by (auto simp: p or_eq_0_iff)
qed simp

lemma constant_time_eq_iff [simp]: "constant_time_eq a b \<longleftrightarrow> a = b"
proof -
  have "(\<forall>(x, y)\<in>set (zip a b). x = y) \<longleftrightarrow> a = b" if "length a = length b"
    using that by (induction a b rule: list_induct2) auto
  then show ?thesis by (auto simp: constant_time_eq_def fold_or_zero)
qed

text \<open>No reason but the first is about tenants.\<close>

lemma push_if_set: "x \<in> set (push_if b y) \<longleftrightarrow> b \<and> x = y"
  by (auto simp: push_if_def)

lemma compatible_none:
  "is_compatible (if foreign then Incompatible [r] else if rs = [] then Compatible else Incompatible rs) \<longleftrightarrow> \<not> foreign \<and> rs = []"
  by simp

lemma field_reasons_set: "(\<And>f. mk f \<noteq> x) \<Longrightarrow> x \<notin> set (field_reasons mk fs)"
  by (induction fs) (auto simp: field_reasons_def push_if_def)

lemma state_reasons_set: "IR_TenantMismatch \<notin> set (state_reasons state)"
  by (cases state) simp_all

lemmas other_reasons = push_if_set field_reasons_set state_reasons_set

text \<open>What a verified manifest is: the text of what was sealed, under the right key, digest and signature.\<close>

lemma sk_verify_Inr:
  "sk_verify cx k sealed = Inr m \<longleftrightarrow>
     se_key_id sealed = sk_id k
     \<and> sc_hex_decode cx (se_signature sealed) = Some (sk_mac cx k (signed_message (sk_id k) (se_manifest sealed)))
     \<and> se_digest sealed = sc_digest cx (se_manifest sealed)
     \<and> sc_parse cx (se_manifest sealed) = Inr m \<and> sc_json cx m = se_manifest sealed"
  by (auto simp: sk_verify_def Let_def split: option.split sum.split)

end
