(* ===== verification/Cron.thy ===== *)
theory Cron
  imports Memory_Store Rating
begin

unbundle bit_operations_syntax

text \<open>
  \<open>crates/application/src/services/triggers/cron.rs\<close>: cron expressions and the search for the next
  scheduled time.  The calendar (years, months and weekdays of a day, the first day of a month) and
  the time zones come from libraries: they are the parameters \<open>Calendar\<close> and \<open>Zone\<close>.  A local time is
  a number of seconds since the start of day 0, an instant a number of nanoseconds.  The search is a
  partial function and reading an expression has a loop with fuel: \<open>None\<close> is a run that does not end.
  The panic of the date library on an addition past its last representable date is not modelled.
\<close>

section \<open>Fields\<close>

record Field =
  fd_bits :: u64
  fd_any :: bool

definition fd_matches :: "Field \<Rightarrow> nat \<Rightarrow> bool" where
  "fd_matches f v \<longleftrightarrow> v < 64 \<and> (fd_bits f AND push_bit v 1) \<noteq> 0"

record CronSchedule =
  cs_seconds :: Field
  cs_minutes :: Field
  cs_hours :: Field
  cs_days :: Field
  cs_months :: Field
  cs_weekdays :: Field
  cs_has_seconds :: bool

definition MONTHS :: "string list" where
  "MONTHS = [''JAN'', ''FEB'', ''MAR'', ''APR'', ''MAY'', ''JUN'', ''JUL'', ''AUG'', ''SEP'', ''OCT'', ''NOV'', ''DEC'']"

definition WEEKDAYS :: "string list" where
  "WEEKDAYS = [''SUN'', ''MON'', ''TUE'', ''WED'', ''THU'', ''FRI'', ''SAT'']"

text \<open>\<open>u32::from_str\<close>.\<close>

definition u32_parse :: "string \<Rightarrow> nat option" where
  "u32_parse s =
     (let digits = (if s \<noteq> [] \<and> hd s = CHR ''+'' \<and> tl s \<noteq> [] then tl s else s) in
      if digits \<noteq> [] \<and> list_all is_ascii_digit digits \<and> digits_val digits < 2 ^ 32
      then Some (digits_val digits) else None)"

fun position :: "'a \<Rightarrow> 'a list \<Rightarrow> nat option" where
  "position x [] = None"
| "position x (y # ys) = (if x = y then Some 0 else map_option Suc (position x ys))"

definition cron_value :: "string \<Rightarrow> nat \<Rightarrow> nat \<Rightarrow> string list \<Rightarrow> nat \<Rightarrow> string + nat" where
  "cron_value raw lo hi names names_from =
     (case u32_parse raw of
        Some n \<Rightarrow>
          if n < lo \<or> n > hi then Inl (''`'' @ raw @ ''` is outside '' @ show_nat lo @ ''-'' @ show_nat hi) else Inr n
      | None \<Rightarrow>
          (case position (to_ascii_uppercase raw) names of
             Some i \<Rightarrow> Inr (i + names_from)
           | None \<Rightarrow> Inl (''`'' @ raw @ ''` is not a number or a name'')))"

text \<open>
  The loop over a stepped range; \<open>v += step\<close> is on \<open>u32\<close> and wraps in a release build.  Out of fuel is
  \<open>None\<close> and stays so up to the schedule: with a step of at least 1 the loop takes at most one turn per
  value up to \<open>hi\<close> and one to leave, so the fuel \<open>hi + 2\<close> is enough; with a step of 0 no fuel is.
\<close>

fun bits_loop :: "nat \<Rightarrow> nat \<Rightarrow> nat \<Rightarrow> nat \<Rightarrow> u64 \<Rightarrow> u64 option" where
  "bits_loop 0 v hi step bits = None"
| "bits_loop (Suc fuel) v hi step bits =
     (if v \<le> hi then bits_loop fuel ((v + step) mod 2 ^ 32) hi step (bits OR push_bit v 1) else Some bits)"

definition cron_step :: "string \<Rightarrow> string + string \<times> nat" where
  "cron_step part =
     (case split_once (CHR ''/'') part of
        Some (r, s) \<Rightarrow>
          (case u32_parse s of
             None \<Rightarrow> Inl (''step `'' @ s @ ''` is not a number'')
           | Some s \<Rightarrow> if s = 0 then Inl ''a step must be >= 1'' else Inr (r, s))
      | None \<Rightarrow> Inr (part, 1))"

definition cron_range ::
  "string \<Rightarrow> string \<Rightarrow> nat \<Rightarrow> nat \<Rightarrow> string list \<Rightarrow> nat \<Rightarrow> string + nat \<times> nat" where
  "cron_range part rng lo hi names names_from =
     (if rng = ''*'' then Inr (lo, hi)
      else case split_once (CHR ''-'') rng of
             Some (a, b) \<Rightarrow>
               and_then (cron_value a lo hi names names_from) (\<lambda>a.
               and_then (cron_value b lo hi names names_from) (\<lambda>b.
                 if a > b then Inl (''range `'' @ rng @ ''` is reversed'') else Inr (a, b)))
           | None \<Rightarrow>
               and_then (cron_value rng lo hi names names_from) (\<lambda>a.
                 Inr (if CHR ''/'' \<in> set part then (a, hi) else (a, a))))"

text \<open>The operator \<open>?\<close> on a computation that may not end.\<close>

fun and_ends :: "(string + 'a) option \<Rightarrow> ('a \<Rightarrow> (string + 'b) option) \<Rightarrow> (string + 'b) option" where
  "and_ends None f = None"
| "and_ends (Some (Inl e)) f = Some (Inl e)"
| "and_ends (Some (Inr x)) f = f x"

fun field_parts :: "nat \<Rightarrow> nat \<Rightarrow> string list \<Rightarrow> nat \<Rightarrow> string list \<Rightarrow> Field \<Rightarrow> (string + Field) option" where
  "field_parts lo hi names names_from [] f = Some (Inr f)"
| "field_parts lo hi names names_from (part # parts) f =
     and_ends (Some (cron_step part)) (\<lambda>(rng, step).
     and_ends (Some (cron_range part rng lo hi names names_from)) (\<lambda>(a, b).
       case bits_loop (b + 2) a b step (fd_bits f) of
         None \<Rightarrow> None
       | Some bits \<Rightarrow> field_parts lo hi names names_from parts
           (f\<lparr> fd_any := fd_any f \<or> (rng = ''*'' \<and> step = 1), fd_bits := bits \<rparr>)))"

definition cron_field :: "string \<Rightarrow> nat \<Rightarrow> nat \<Rightarrow> string list \<Rightarrow> nat \<Rightarrow> (string + Field) option" where
  "cron_field raw lo hi names names_from =
     (if raw = [] then Some (Inl ''empty field'')
      else field_parts lo hi names names_from (str_split (CHR '','') raw) \<lparr> fd_bits = 0, fd_any = False \<rparr>)"

section \<open>The search\<close>

record Calendar =
  cal_year :: "int \<Rightarrow> int"
  cal_month :: "int \<Rightarrow> nat"
  cal_day :: "int \<Rightarrow> nat"
  cal_weekday :: "int \<Rightarrow> nat"
  cal_first_of :: "int \<Rightarrow> nat \<Rightarrow> int option"
  cal_succ :: "int \<Rightarrow> int option"

definition SEARCH_YEARS :: int where
  "SEARCH_YEARS = 5"

definition MAX_LOCAL_STEPS :: nat where
  "MAX_LOCAL_STEPS = 200000"

definition day_matches :: "Calendar \<Rightarrow> CronSchedule \<Rightarrow> int \<Rightarrow> bool" where
  "day_matches cal s d =
     (let dom = fd_matches (cs_days s) (cal_day cal d);
          dow = fd_matches (cs_weekdays s) (cal_weekday cal d)
      in case (fd_any (cs_days s), fd_any (cs_weekdays s)) of
           (True, True) \<Rightarrow> True
         | (True, False) \<Rightarrow> dow
         | (False, True) \<Rightarrow> dom
         | (False, False) \<Rightarrow> dom \<or> dow)"

definition day_of_secs :: "int \<Rightarrow> int" where
  "day_of_secs t = t div 86400"

definition hour_of :: "int \<Rightarrow> nat" where
  "hour_of t = nat (t mod 86400 div 3600)"

definition minute_of :: "int \<Rightarrow> nat" where
  "minute_of t = nat (t mod 3600 div 60)"

definition second_of :: "int \<Rightarrow> nat" where
  "second_of t = nat (t mod 60)"

partial_function (option) next_local_loop :: "Calendar \<Rightarrow> CronSchedule \<Rightarrow> int \<Rightarrow> int \<Rightarrow> int option option" where
  "next_local_loop cal s limit t =
     (if cal_year cal (day_of_secs t) > limit then Some None
      else if \<not> fd_matches (cs_months s) (cal_month cal (day_of_secs t)) then
        (case (if cal_month cal (day_of_secs t) = 12 then cal_first_of cal (cal_year cal (day_of_secs t) + 1) 1
               else cal_first_of cal (cal_year cal (day_of_secs t)) (cal_month cal (day_of_secs t) + 1)) of
           None \<Rightarrow> Some None
         | Some d \<Rightarrow> next_local_loop cal s limit (d * 86400))
      else if \<not> day_matches cal s (day_of_secs t) then
        (case cal_succ cal (day_of_secs t) of
           None \<Rightarrow> Some None
         | Some d \<Rightarrow> next_local_loop cal s limit (d * 86400))
      else if \<not> fd_matches (cs_hours s) (hour_of t) then
        next_local_loop cal s limit (day_of_secs t * 86400 + int (hour_of t) * 3600 + 3600)
      else if \<not> fd_matches (cs_minutes s) (minute_of t) then
        next_local_loop cal s limit (day_of_secs t * 86400 + int (hour_of t) * 3600 + int (minute_of t) * 60 + 60)
      else if \<not> fd_matches (cs_seconds s) (second_of t) then next_local_loop cal s limit (t + 1)
      else Some (Some t))"

text \<open>\<open>next_local_after\<close>: \<open>after\<close> in nanoseconds of local time.\<close>

definition next_local_after :: "Calendar \<Rightarrow> CronSchedule \<Rightarrow> int \<Rightarrow> int option option" where
  "next_local_after cal s after =
     (let after = after div 1000000000
      in next_local_loop cal s (cal_year cal (day_of_secs after) + SEARCH_YEARS) (after + 1))"

section \<open>Expressions\<close>

text \<open>\<open>str::split_whitespace\<close>.\<close>

function split_ws :: "string \<Rightarrow> string \<Rightarrow> string list" where
  "split_ws word s =
     (if s = [] then (if word = [] then [] else [word])
      else if space_len utf8_spaces s = 0 then split_ws (word @ [hd s]) (tl s)
      else (if word = [] then [] else [word]) @ split_ws [] (drop (space_len utf8_spaces s) s))"
  by pat_completeness auto
termination
  by (relation "measure (\<lambda>(w, s). length s)") auto

declare split_ws.simps [simp del]

definition expand_macro :: "string \<Rightarrow> string + string" where
  "expand_macro e =
     (if e \<in> {''@yearly'', ''@annually''} then Inr ''0 0 1 1 *''
      else if e = ''@monthly'' then Inr ''0 0 1 * *''
      else if e = ''@weekly'' then Inr ''0 0 * * 0''
      else if e \<in> {''@daily'', ''@midnight''} then Inr ''0 0 * * *''
      else if e = ''@hourly'' then Inr ''0 * * * *''
      else if strip_prefix ''@'' e \<noteq> None then Inl (''unknown macro `'' @ e @ ''`'')
      else Inr e)"

definition in_context :: "string \<Rightarrow> (string + 'a) option \<Rightarrow> (string + 'a) option" where
  "in_context name r = map_option (map_err (\<lambda>e. name @ '': '' @ e)) r"

definition parse_fields :: "string list \<Rightarrow> (string + CronSchedule) option" where
  "parse_fields parts =
     (if length parts \<noteq> 5 \<and> length parts \<noteq> 6
      then Some (Inl (''a cron expression has 5 fields (minute hour day month weekday) or 6 with a leading second, not ''
                @ show_nat (length parts)))
      else let has_seconds = (length parts = 6); rest = (if has_seconds then tl parts else parts)
      in and_ends (if has_seconds then in_context ''second'' (cron_field (hd parts) 0 59 [] 0)
                   else Some (Inr \<lparr> fd_bits = 1, fd_any = False \<rparr>)) (\<lambda>seconds.
         and_ends (in_context ''minute'' (cron_field (rest ! 0) 0 59 [] 0)) (\<lambda>minutes.
         and_ends (in_context ''hour'' (cron_field (rest ! 1) 0 23 [] 0)) (\<lambda>hours.
         and_ends (in_context ''day-of-month'' (cron_field (rest ! 2) 1 31 [] 0)) (\<lambda>days.
         and_ends (in_context ''month'' (cron_field (rest ! 3) 1 12 MONTHS 1)) (\<lambda>months.
         and_ends (in_context ''day-of-week'' (cron_field (rest ! 4) 0 7 WEEKDAYS 0)) (\<lambda>weekdays.
           Some (Inr \<lparr> cs_seconds = seconds, cs_minutes = minutes, cs_hours = hours, cs_days = days, cs_months = months,
                 cs_weekdays = (if fd_matches weekdays 7 then weekdays\<lparr> fd_bits := fd_bits weekdays OR 1 \<rparr> else weekdays),
                 cs_has_seconds = has_seconds \<rparr>))))))))"

text \<open>\<open>probe\<close> is 2000-01-01T00:00:00 in local time.\<close>

definition CronSchedule_parse :: "Calendar \<Rightarrow> int \<Rightarrow> string \<Rightarrow> (string + CronSchedule) option" where
  "CronSchedule_parse cal probe expression =
     and_ends (Some (expand_macro (str_trim expression))) (\<lambda>e.
     and_ends (parse_fields (split_ws [] e)) (\<lambda>schedule.
       map_option (\<lambda>r. case r of
           None \<Rightarrow> Inl (''`'' @ expression @ ''` never matches within '' @ show_nat (nat SEARCH_YEARS) @ '' years'')
         | Some _ \<Rightarrow> Inr schedule) (next_local_after cal schedule probe)))"

section \<open>Instants\<close>

datatype LocalResult = LR_None | LR_Single int | LR_Ambiguous int int

record Zone =
  zn_local :: "int \<Rightarrow> int"
  zn_from_local :: "int \<Rightarrow> LocalResult"

fun next_after_loop :: "nat \<Rightarrow> Calendar \<Rightarrow> Zone \<Rightarrow> CronSchedule \<Rightarrow> int \<Rightarrow> int \<Rightarrow> int option option" where
  "next_after_loop 0 cal tz s after local = Some None"
| "next_after_loop (Suc n) cal tz s after local =
     (case next_local_after cal s local of
        None \<Rightarrow> None
      | Some None \<Rightarrow> Some None
      | Some (Some t) \<Rightarrow>
          (let local = t * 1000000000
           in case zn_from_local tz local of
                LR_None \<Rightarrow> next_after_loop n cal tz s after local
              | LR_Single u \<Rightarrow> if u > after then Some (Some u) else next_after_loop n cal tz s after local
              | LR_Ambiguous u _ \<Rightarrow> if u > after then Some (Some u) else next_after_loop n cal tz s after local))"

definition next_after :: "Calendar \<Rightarrow> Zone \<Rightarrow> CronSchedule \<Rightarrow> int \<Rightarrow> int option option" where
  "next_after cal tz s after = next_after_loop MAX_LOCAL_STEPS cal tz s after (zn_local tz after)"

text \<open>\<open>between\<close>; the recursion is on the number of times that may still be returned.\<close>

fun between_loop :: "nat \<Rightarrow> Calendar \<Rightarrow> Zone \<Rightarrow> CronSchedule \<Rightarrow> int \<Rightarrow> int \<Rightarrow> (int list \<times> bool) option" where
  "between_loop room cal tz s cursor until =
     (case next_after cal tz s cursor of
        None \<Rightarrow> None
      | Some None \<Rightarrow> Some ([], False)
      | Some (Some t) \<Rightarrow>
          if t > until then Some ([], False)
          else (case room of
                  0 \<Rightarrow> Some ([], True)
                | Suc n \<Rightarrow> map_option (\<lambda>(ts, more). (t # ts, more)) (between_loop n cal tz s t until)))"

declare between_loop.simps [simp del]

definition between :: "Calendar \<Rightarrow> Zone \<Rightarrow> CronSchedule \<Rightarrow> int \<Rightarrow> int \<Rightarrow> nat \<Rightarrow> (int list \<times> bool) option" where
  "between cal tz s after until most = between_loop most cal tz s after until"

section \<open>What the search finds\<close>

text \<open>The times an expression names.\<close>

definition cron_matches :: "Calendar \<Rightarrow> CronSchedule \<Rightarrow> int \<Rightarrow> bool" where
  "cron_matches cal s t \<longleftrightarrow>
     fd_matches (cs_months s) (cal_month cal (day_of_secs t)) \<and> day_matches cal s (day_of_secs t)
     \<and> fd_matches (cs_hours s) (hour_of t) \<and> fd_matches (cs_minutes s) (minute_of t) \<and> fd_matches (cs_seconds s) (second_of t)"

text \<open>
  What the search relies on of the calendar: months run from 1 to 12, never go back and never stop,
  the first day of a month and the next day are right where the library gives them.
\<close>

definition month_index :: "Calendar \<Rightarrow> int \<Rightarrow> int" where
  "month_index cal d = cal_year cal d * 12 + int (cal_month cal d) - 1"

definition calendar_sane :: "Calendar \<Rightarrow> bool" where
  "calendar_sane cal \<longleftrightarrow>
     (\<forall>d. 1 \<le> cal_month cal d \<and> cal_month cal d \<le> 12)
     \<and> (\<forall>d e. d \<le> e \<longrightarrow> month_index cal d \<le> month_index cal e)
     \<and> (\<forall>i. \<exists>d. i \<le> month_index cal d)
     \<and> (\<forall>y m d. cal_first_of cal y m = Some d \<longrightarrow> (\<forall>e. d \<le> e \<longleftrightarrow> y * 12 + int m - 1 \<le> month_index cal e))
     \<and> (\<forall>d e. cal_succ cal d = Some e \<longrightarrow> e = d + 1)"

text \<open>The library's calendar ends somewhere; it reaches over the years \<open>lo\<close> to \<open>hi\<close> when it has every month and day of them.\<close>

definition calendar_reaches :: "Calendar \<Rightarrow> int \<Rightarrow> int \<Rightarrow> bool" where
  "calendar_reaches cal lo hi \<longleftrightarrow>
     (\<forall>y m. lo \<le> y \<and> y \<le> hi \<and> 1 \<le> m \<and> m \<le> 12 \<longrightarrow> cal_first_of cal y m \<noteq> None)
     \<and> (\<forall>d. lo \<le> cal_year cal d \<and> cal_year cal d \<le> hi \<longrightarrow> cal_succ cal d \<noteq> None)"

lemma hour_of_alt: "hour_of t = nat (t div 3600 mod 24)"
proof -
  have "t mod 86400 = 3600 * (t div 3600 mod 24) + t mod 3600"
    using zmod_zmult2_eq [of 24 t 3600] by simp
  then show ?thesis by (simp add: hour_of_def)
qed

lemma minute_of_alt: "minute_of t = nat (t div 60 mod 60)"
proof -
  have "t mod 3600 = 60 * (t div 60 mod 60) + t mod 60"
    using zmod_zmult2_eq [of 60 t 60] by simp
  then show ?thesis by (simp add: minute_of_def)
qed

lemma day_of_hours: "day_of_secs t = t div 3600 div 24"
  using zdiv_zmult2_eq [of 24 t 3600] by (simp add: day_of_secs_def)

lemma hours_of_minutes: "t div 3600 = t div 60 div (60 :: int)"
  using zdiv_zmult2_eq [of 60 t 60] by simp

lemma int_div_less:
  assumes "(0 :: int) < k"
  shows "t div k < n \<longleftrightarrow> t < n * k"
proof -
  have eq: "t = t div k * k + t mod k" and small: "0 \<le> t mod k" "t mod k < k" using assms by simp_all
  show ?thesis
  proof
    assume "t div k < n"
    then have "(t div k + 1) * k \<le> n * k" using assms by (intro mult_right_mono) simp_all
    then have "t div k * k + k \<le> n * k" by (simp add: distrib_right)
    then show "t < n * k" using eq small by linarith
  next
    assume less: "t < n * k"
    show "t div k < n"
    proof (rule ccontr)
      assume "\<not> t div k < n"
      then have "n * k \<le> t div k * k" using assms by (intro mult_right_mono) simp_all
      then show False using less eq small by linarith
    qed
  qed
qed

lemma same_quotient:
  assumes "(0 :: int) < k" "t \<le> v" "v < t div k * k + k"
  shows "v div k = t div k"
proof -
  have "v < (t div k + 1) * k" using assms(3) by (simp add: distrib_right)
  then have "v div k < t div k + 1" using int_div_less [OF assms(1)] by blast
  moreover have "t div k \<le> v div k" using assms by (simp add: zdiv_mono1)
  ultimately show ?thesis by simp
qed

lemma next_hour: "day_of_secs t * 86400 + int (hour_of t) * 3600 + 3600 = t div 3600 * 3600 + 3600"
proof -
  define h where "h = t div 3600"
  have "h = 24 * (h div 24) + h mod 24" by simp
  then have "h div 24 * 86400 + h mod 24 * 3600 = h * 3600" by linarith
  then show ?thesis by (simp add: hour_of_alt day_of_hours h_def)
qed

lemma next_minute:
  "day_of_secs t * 86400 + int (hour_of t) * 3600 + int (minute_of t) * 60 + 60 = t div 60 * 60 + 60"
proof -
  define m where "m = t div 60"
  have "m = 60 * (m div 60) + m mod 60" by simp
  then have "m div 60 * 3600 + m mod 60 * 60 = m * 60" by linarith
  then show ?thesis using next_hour [of t] by (simp add: minute_of_alt hours_of_minutes m_def)
qed

text \<open>The stretches the search skips hold no match.\<close>

lemma skip_hour:
  assumes "\<not> fd_matches (cs_hours s) (hour_of t)" "t \<le> v" "v < t div 3600 * 3600 + 3600"
  shows "\<not> cron_matches cal s v"
  using assms same_quotient [OF _ assms(2,3)] by (simp add: cron_matches_def hour_of_alt)

lemma skip_minute:
  assumes "\<not> fd_matches (cs_minutes s) (minute_of t)" "t \<le> v" "v < t div 60 * 60 + 60"
  shows "\<not> cron_matches cal s v"
  using assms same_quotient [OF _ assms(2,3)] by (simp add: cron_matches_def minute_of_alt)

lemma skip_day:
  assumes "\<not> day_matches cal s (day_of_secs t)" "t \<le> v" "v < (day_of_secs t + 1) * 86400"
  shows "\<not> cron_matches cal s v"
proof -
  have "v div 86400 = t div 86400" using assms by (intro same_quotient) (simp_all add: day_of_secs_def algebra_simps)
  then show ?thesis using assms(1) by (simp add: cron_matches_def day_of_secs_def)
qed

lemma day_mono: "t \<le> v \<Longrightarrow> day_of_secs t \<le> day_of_secs v"
  by (simp add: day_of_secs_def zdiv_mono1)

lemma sane_month: "calendar_sane cal \<Longrightarrow> 1 \<le> cal_month cal d \<and> cal_month cal d \<le> 12"
  by (simp add: calendar_sane_def)

lemma sane_mono: "\<lbrakk>calendar_sane cal; d \<le> e\<rbrakk> \<Longrightarrow> month_index cal d \<le> month_index cal e"
  by (simp add: calendar_sane_def)

lemma years_mono: "\<lbrakk>calendar_sane cal; d \<le> e\<rbrakk> \<Longrightarrow> cal_year cal d \<le> cal_year cal e"
  using sane_mono [of cal d e] sane_month [of cal d] sane_month [of cal e] by (simp add: month_index_def)

lemma skip_month:
  assumes ok: "calendar_sane cal" and no: "\<not> fd_matches (cs_months s) (cal_month cal (day_of_secs t))"
    and first: "\<And>e. d \<le> e \<longleftrightarrow> month_index cal (day_of_secs t) + 1 \<le> month_index cal e" and v: "t \<le> v" "v < d * 86400"
  shows "\<not> cron_matches cal s v"
proof -
  let ?i = "month_index cal"
  have "?i (day_of_secs t) \<le> ?i (day_of_secs v)" using sane_mono [OF ok] day_mono [OF v(1)] by blast
  moreover have "day_of_secs v < d" using v(2) by (simp add: day_of_secs_def int_div_less)
  then have "?i (day_of_secs v) \<le> ?i (day_of_secs t)" using first [of "day_of_secs v"] by auto
  ultimately have "?i (day_of_secs v) = ?i (day_of_secs t)" by simp
  then have "cal_month cal (day_of_secs v) = cal_month cal (day_of_secs t)"
    using sane_month [OF ok, of "day_of_secs v"] sane_month [OF ok, of "day_of_secs t"]
    by (simp add: month_index_def) presburger
  then show ?thesis using no by (simp add: cron_matches_def)
qed

lemma next_local_over: "limit < cal_year cal (day_of_secs t) \<Longrightarrow> next_local_loop cal s limit t = Some None"
  by (simp add: next_local_loop.simps)

lemma next_local_hit:
  "\<lbrakk>cal_year cal (day_of_secs t) \<le> limit; cron_matches cal s t\<rbrakk> \<Longrightarrow> next_local_loop cal s limit t = Some (Some t)"
  by (simp add: next_local_loop.simps cron_matches_def)

text \<open>The first day of the month after that of \<open>t\<close>, as the loop asks for it.\<close>

definition next_month :: "Calendar \<Rightarrow> int \<Rightarrow> int option" where
  "next_month cal d =
     (if cal_month cal d = 12 then cal_first_of cal (cal_year cal d + 1) 1
      else cal_first_of cal (cal_year cal d) (cal_month cal d + 1))"

lemma next_month_first:
  assumes ok: "calendar_sane cal" and d: "next_month cal x = Some d"
  shows "d \<le> e \<longleftrightarrow> month_index cal x + 1 \<le> month_index cal e"
proof -
  have first: "\<And>y m d e. cal_first_of cal y m = Some d \<Longrightarrow> d \<le> e \<longleftrightarrow> y * 12 + int m - 1 \<le> month_index cal e"
    using ok unfolding calendar_sane_def by blast
  show ?thesis
    using d first [of "cal_year cal x + 1" 1 d e] first [of "cal_year cal x" "cal_month cal x + 1" d e]
    by (auto simp: next_month_def month_index_def split: if_splits)
qed

lemma next_month_reached:
  "\<lbrakk>calendar_sane cal; calendar_reaches cal (cal_year cal x) (limit + 1); cal_year cal x \<le> limit\<rbrakk> \<Longrightarrow> next_month cal x \<noteq> None"
  using sane_month [of cal x] unfolding calendar_reaches_def next_month_def by auto

lemma later_day: "t < (day_of_secs t + 1) * 86400"
  using int_div_less [of 86400 t "t div 86400 + 1"] by (simp add: day_of_secs_def)

lemma later_quotient: "(0 :: int) < k \<Longrightarrow> t < t div k * k + k"
  using int_div_less [of k t "t div k + 1"] by (simp add: distrib_right)

lemma month_step:
  assumes ok: "calendar_sane cal" and d: "next_month cal (day_of_secs t) = Some d"
    and no: "\<not> fd_matches (cs_months s) (cal_month cal (day_of_secs t))"
  shows "t < d * 86400" and "\<And>v. t \<le> v \<Longrightarrow> v < d * 86400 \<Longrightarrow> \<not> cron_matches cal s v"
proof -
  have "day_of_secs t < d" using next_month_first [OF ok d, of "day_of_secs t"] by simp
  then show "t < d * 86400" by (simp add: day_of_secs_def int_div_less)
  show "\<And>v. t \<le> v \<Longrightarrow> v < d * 86400 \<Longrightarrow> \<not> cron_matches cal s v"
    using skip_month [OF ok no next_month_first [OF ok d]] by blast
qed

lemmas next_local_unfold = next_local_loop.simps [folded next_month_def]

text \<open>A turn of the loop ends at the end of the calendar or moves on past times that do not match.\<close>

lemma next_local_step:
  assumes ok: "calendar_sane cal" and year: "cal_year cal (day_of_secs t) \<le> limit" and no: "\<not> cron_matches cal s t"
  obtains (ends) "next_local_loop cal s limit t = Some None" "\<not> calendar_reaches cal (cal_year cal (day_of_secs t)) (limit + 1)"
    | (moves) t' where "t < t'" "next_local_loop cal s limit t = next_local_loop cal s limit t'"
        "\<And>v. t \<le> v \<Longrightarrow> v < t' \<Longrightarrow> \<not> cron_matches cal s v"
proof -
  let ?d = "day_of_secs t"
  consider (month) "\<not> fd_matches (cs_months s) (cal_month cal ?d)"
    | (day) "fd_matches (cs_months s) (cal_month cal ?d)" "\<not> day_matches cal s ?d"
    | (hour) "fd_matches (cs_months s) (cal_month cal ?d)" "day_matches cal s ?d" "\<not> fd_matches (cs_hours s) (hour_of t)"
    | (minute) "fd_matches (cs_months s) (cal_month cal ?d)" "day_matches cal s ?d"
        "fd_matches (cs_hours s) (hour_of t)" "\<not> fd_matches (cs_minutes s) (minute_of t)"
    | (second) "fd_matches (cs_months s) (cal_month cal ?d)" "day_matches cal s ?d"
        "fd_matches (cs_hours s) (hour_of t)" "fd_matches (cs_minutes s) (minute_of t)"
        "\<not> fd_matches (cs_seconds s) (second_of t)"
    using no unfolding cron_matches_def by blast
  then show thesis
  proof cases
    case month
    show thesis
    proof (cases "next_month cal ?d")
      case None
      then have "\<not> calendar_reaches cal (cal_year cal ?d) (limit + 1)" using next_month_reached [OF ok _ year] by blast
      then show thesis using ends None year month by (simp add: next_local_unfold)
    next
      case (Some d)
      then have "next_local_loop cal s limit t = next_local_loop cal s limit (d * 86400)"
        using year month by (subst next_local_unfold) simp
      then show thesis using moves [of "d * 86400"] month_step [OF ok Some month] by blast
    qed
  next
    case day
    show thesis
    proof (cases "cal_succ cal ?d")
      case None
      have "\<not> calendar_reaches cal (cal_year cal ?d) (limit + 1)"
      proof
        assume "calendar_reaches cal (cal_year cal ?d) (limit + 1)"
        then show False using None year unfolding calendar_reaches_def by force
      qed
      then show thesis using ends None year day by (simp add: next_local_unfold)
    next
      case (Some d)
      then have "d = ?d + 1" using ok by (simp add: calendar_sane_def)
      then have "next_local_loop cal s limit t = next_local_loop cal s limit ((?d + 1) * 86400)"
        using year day Some by (subst next_local_unfold) simp
      then show thesis using moves later_day skip_day [OF day(2)] by blast
    qed
  next
    case hour
    then have "next_local_loop cal s limit t = next_local_loop cal s limit (t div 3600 * 3600 + 3600)"
      using year by (subst next_local_unfold) (simp add: next_hour)
    then show thesis using moves [of "t div 3600 * 3600 + 3600"] later_quotient [of 3600 t] skip_hour [OF hour(3)] by simp
  next
    case minute
    then have "next_local_loop cal s limit t = next_local_loop cal s limit (t div 60 * 60 + 60)"
      using year by (subst next_local_unfold) (simp add: next_minute)
    then show thesis using moves [of "t div 60 * 60 + 60"] later_quotient [of 60 t] skip_minute [OF minute(4)] by simp
  next
    case second
    then have "next_local_loop cal s limit t = next_local_loop cal s limit (t + 1)"
      using year by (subst next_local_unfold) simp
    moreover have "\<not> cron_matches cal s v" if "t \<le> v" "v < t + 1" for v using that no by (simp add: order_antisym)
    ultimately show thesis using moves [of "t + 1"] by simp
  qed
qed

text \<open>
  The first match from \<open>t\<close> on, no later than the year \<open>limit\<close>; nothing found means that there is
  none, when the calendar reaches over the years searched.
\<close>

definition first_match :: "Calendar \<Rightarrow> CronSchedule \<Rightarrow> int \<Rightarrow> int \<Rightarrow> int option \<Rightarrow> bool" where
  "first_match cal s limit t r \<longleftrightarrow>
     (case r of
        None \<Rightarrow> calendar_reaches cal (cal_year cal (day_of_secs t)) (limit + 1) \<longrightarrow>
                  (\<forall>v. t \<le> v \<and> cal_year cal (day_of_secs v) \<le> limit \<longrightarrow> \<not> cron_matches cal s v)
      | Some u \<Rightarrow> t \<le> u \<and> cal_year cal (day_of_secs u) \<le> limit \<and> cron_matches cal s u
                  \<and> (\<forall>v. t \<le> v \<and> v < u \<longrightarrow> \<not> cron_matches cal s v))"

lemma first_match_skip:
  assumes ok: "calendar_sane cal" and m: "first_match cal s limit t' r" and less: "t < t'"
    and skip: "\<And>v. t \<le> v \<Longrightarrow> v < t' \<Longrightarrow> \<not> cron_matches cal s v"
  shows "first_match cal s limit t r"
proof (cases r)
  case None
  have "cal_year cal (day_of_secs t) \<le> cal_year cal (day_of_secs t')"
    using years_mono [OF ok] day_mono less by simp
  then have "calendar_reaches cal (cal_year cal (day_of_secs t)) (limit + 1) \<Longrightarrow>
             calendar_reaches cal (cal_year cal (day_of_secs t')) (limit + 1)" unfolding calendar_reaches_def by force
  moreover have "\<not> cron_matches cal s v"
    if "\<forall>v. t' \<le> v \<and> cal_year cal (day_of_secs v) \<le> limit \<longrightarrow> \<not> cron_matches cal s v"
       "t \<le> v" "cal_year cal (day_of_secs v) \<le> limit" for v
    using that skip [of v] by (cases "v < t'") auto
  ultimately show ?thesis using m None unfolding first_match_def by simp
next
  case (Some u)
  then show ?thesis using m skip less unfolding first_match_def by simp (metis linorder_not_less)
qed

lemma next_local_exact:
  assumes ok: "calendar_sane cal"
  shows "\<exists>r. next_local_loop cal s limit t = Some r \<and> first_match cal s limit t r"
proof -
  obtain D where "limit * 12 + 12 \<le> month_index cal D" using ok unfolding calendar_sane_def by blast
  then have D: "limit < cal_year cal D" using sane_month [OF ok, of D] by (simp add: month_index_def)
  show ?thesis
  proof (induction "nat (D * 86400 - t)" arbitrary: t rule: less_induct)
    case less
    consider "limit < cal_year cal (day_of_secs t)" | "cal_year cal (day_of_secs t) \<le> limit" "cron_matches cal s t"
      | (skip) "cal_year cal (day_of_secs t) \<le> limit" "\<not> cron_matches cal s t" by fastforce
    then show ?case
    proof cases
      case 1
      then have "limit < cal_year cal (day_of_secs v)" if "t \<le> v" for v
        using years_mono [OF ok day_mono [OF that]] by simp
      then have "first_match cal s limit t None" unfolding first_match_def by (auto simp: linorder_not_le [symmetric])
      then show ?thesis using 1 by (simp add: next_local_over)
    next
      case 2
      then show ?thesis by (auto simp: next_local_hit first_match_def)
    next
      case skip
      show ?thesis
      proof (rule next_local_step [OF ok skip])
        assume "next_local_loop cal s limit t = Some None" "\<not> calendar_reaches cal (cal_year cal (day_of_secs t)) (limit + 1)"
        then show ?thesis by (simp add: first_match_def)
      next
        fix t' assume t': "t < t'" "next_local_loop cal s limit t = next_local_loop cal s limit t'"
          "\<And>v. t \<le> v \<Longrightarrow> v < t' \<Longrightarrow> \<not> cron_matches cal s v"
        have "\<not> D \<le> day_of_secs t" using years_mono [OF ok, of D "day_of_secs t"] D skip(1) by fastforce
        then have "t < D * 86400" by (simp add: day_of_secs_def int_div_less [symmetric])
        then have "nat (D * 86400 - t') < nat (D * 86400 - t)" using t'(1) by simp
        from less [OF this] obtain r where "next_local_loop cal s limit t' = Some r" "first_match cal s limit t' r" by blast
        then show ?thesis using t'(2) first_match_skip [OF ok _ t'(1,3)] by auto
      qed
    qed
  qed
qed

lemma next_local_after_exact:
  assumes ok: "calendar_sane cal"
  obtains r where "next_local_after cal s after = Some r"
    "first_match cal s (cal_year cal (day_of_secs (after div 1000000000)) + SEARCH_YEARS) (after div 1000000000 + 1) r"
  using next_local_exact [OF ok, of s _ "after div 1000000000 + 1"] that
  unfolding next_local_after_def Let_def by blast

section \<open>What the instants are\<close>

text \<open>The instant of a matching local time, the earlier one where the zone repeats it.\<close>

definition scheduled :: "Calendar \<Rightarrow> Zone \<Rightarrow> CronSchedule \<Rightarrow> int \<Rightarrow> bool" where
  "scheduled cal tz s u \<longleftrightarrow>
     (\<exists>t. cron_matches cal s t
          \<and> (zn_from_local tz (t * 1000000000) = LR_Single u \<or> (\<exists>w. zn_from_local tz (t * 1000000000) = LR_Ambiguous u w)))"

lemma next_after_loop_sound:
  assumes ok: "calendar_sane cal"
  shows "\<exists>r. next_after_loop n cal tz s after local = Some r \<and> (\<forall>u. r = Some u \<longrightarrow> after < u \<and> scheduled cal tz s u)"
proof (induction n arbitrary: local)
  case 0
  show ?case by simp
next
  case (Suc n)
  obtain r where r: "next_local_after cal s local = Some r"
    "first_match cal s (cal_year cal (day_of_secs (local div 1000000000)) + SEARCH_YEARS) (local div 1000000000 + 1) r"
    by (rule next_local_after_exact [OF ok])
  show ?case
  proof (cases r)
    case None
    then show ?thesis using r by simp
  next
    case (Some t)
    then have "cron_matches cal s t" using r(2) by (simp add: first_match_def)
    then show ?thesis using r(1) Some Suc [of "t * 1000000000"]
      by (auto simp: Let_def scheduled_def split: LocalResult.split)
  qed
qed

lemma next_after_sound:
  assumes "calendar_sane cal"
  obtains r where "next_after cal tz s after = Some r" "\<And>u. r = Some u \<Longrightarrow> after < u \<and> scheduled cal tz s u"
  using next_after_loop_sound [OF assms, of MAX_LOCAL_STEPS tz s after "zn_local tz after"] that
  unfolding next_after_def by blast

lemma between_loop_sound:
  assumes ok: "calendar_sane cal"
  shows "\<exists>ts left. between_loop room cal tz s after until = Some (ts, left)
           \<and> length ts \<le> room \<and> (left \<longrightarrow> length ts = room) \<and> sorted_wrt (<) ts
           \<and> (\<forall>u \<in> set ts. after < u \<and> u \<le> until \<and> scheduled cal tz s u)"
proof (induction room arbitrary: after)
  case 0
  obtain r where "next_after cal tz s after = Some r" by (rule next_after_sound [OF ok])
  then show ?case by (auto simp: between_loop.simps split: option.split)
next
  case (Suc n)
  obtain r where r: "next_after cal tz s after = Some r" "\<And>u. r = Some u \<Longrightarrow> after < u \<and> scheduled cal tz s u"
    by (rule next_after_sound [OF ok]) blast
  show ?case
  proof (cases r)
    case None
    then show ?thesis using r(1) by (auto simp: between_loop.simps)
  next
    case (Some t)
    obtain ts left where ts: "between_loop n cal tz s t until = Some (ts, left)" "length ts \<le> n" "left \<longrightarrow> length ts = n"
        "sorted_wrt (<) ts" "\<forall>u \<in> set ts. t < u \<and> u \<le> until \<and> scheduled cal tz s u" using Suc [of t] by blast
    have "after < t" "scheduled cal tz s t" using r(2) Some by blast+
    then show ?thesis using r(1) Some ts by (subst between_loop.simps) (force intro: less_trans)
  qed
qed

text \<open>A zone with one offset, such as \<open>UTC\<close> or \<open>Asia/Tokyo\<close>: there the search misses nothing.\<close>

definition fixed_offset :: "Zone \<Rightarrow> int \<Rightarrow> bool" where
  "fixed_offset tz off \<longleftrightarrow> (\<forall>u. zn_local tz u = u + off) \<and> (\<forall>l. zn_from_local tz l = LR_Single (l - off))"

definition local_year :: "Calendar \<Rightarrow> int \<Rightarrow> int \<Rightarrow> int" where
  "local_year cal off u = cal_year cal (day_of_secs ((u + off) div 1000000000))"

lemma scheduled_fixed:
  "fixed_offset tz off \<Longrightarrow> scheduled cal tz s u \<longleftrightarrow> (\<exists>t. cron_matches cal s t \<and> u = t * 1000000000 - off)"
  by (auto simp: scheduled_def fixed_offset_def)

lemma local_year_mono: "\<lbrakk>calendar_sane cal; u \<le> v\<rbrakk> \<Longrightarrow> local_year cal off u \<le> local_year cal off v"
  unfolding local_year_def by (intro years_mono day_mono zdiv_mono1) simp_all

lemma next_after_fixed:
  assumes zone: "fixed_offset tz off" and r: "next_local_after cal s (after + off) = Some r"
    and later: "\<And>t. r = Some t \<Longrightarrow> after + off < t * 1000000000"
  shows "next_after cal tz s after = Some (map_option (\<lambda>t. t * 1000000000 - off) r)"
proof -
  obtain n where n: "MAX_LOCAL_STEPS = Suc n" by (metis MAX_LOCAL_STEPS_def numeral_eq_Suc)
  show ?thesis
    unfolding next_after_def n
    using zone r later by (cases r) (simp_all add: fixed_offset_def Let_def less_diff_eq)
qed

lemma next_after_exact:
  assumes ok: "calendar_sane cal" and zone: "fixed_offset tz off"
    and reach: "calendar_reaches cal (local_year cal off after) (local_year cal off after + SEARCH_YEARS + 1)"
  obtains (none) "next_after cal tz s after = Some None"
      "\<And>u. after < u \<Longrightarrow> local_year cal off u \<le> local_year cal off after + SEARCH_YEARS \<Longrightarrow> \<not> scheduled cal tz s u"
    | (some) u where "next_after cal tz s after = Some (Some u)" "after < u" "scheduled cal tz s u"
      "\<And>v. after < v \<Longrightarrow> v < u \<Longrightarrow> \<not> scheduled cal tz s v"
proof -
  let ?l = "(after + off) div 1000000000"
  let ?y = "cal_year cal (day_of_secs ?l) + SEARCH_YEARS"
  obtain r where r: "next_local_after cal s (after + off) = Some r" "first_match cal s ?y (?l + 1) r"
    by (rule next_local_after_exact [OF ok])
  have start: "?l + 1 \<le> t \<longleftrightarrow> after + off < t * 1000000000" for t
    using int_div_less [of 1000000000 "after + off" t] by (simp add: add1_zle_eq)
  have "after + off < t * 1000000000" if "r = Some t" for t using r(2) that start by (simp add: first_match_def)
  note found = next_after_fixed [OF zone r(1) this]
  have year: "cal_year cal (day_of_secs ?l) \<le> cal_year cal (day_of_secs (?l + 1))" by (intro years_mono [OF ok] day_mono) simp
  show thesis
  proof (cases r)
    case None
    have "calendar_reaches cal (cal_year cal (day_of_secs (?l + 1))) (?y + 1)"
      using reach year unfolding calendar_reaches_def local_year_def by force
    then have empty: "\<And>v. ?l + 1 \<le> v \<Longrightarrow> cal_year cal (day_of_secs v) \<le> ?y \<Longrightarrow> \<not> cron_matches cal s v"
      using r(2) None by (simp add: first_match_def)
    show thesis
    proof (rule none)
      show "next_after cal tz s after = Some None" using found None by simp
      show "\<not> scheduled cal tz s u" if "after < u" "local_year cal off u \<le> local_year cal off after + SEARCH_YEARS" for u
        using that empty start by (auto simp: scheduled_fixed [OF zone] local_year_def)
    qed
  next
    case (Some t)
    show thesis
    proof (rule some [of "t * 1000000000 - off"])
      show "next_after cal tz s after = Some (Some (t * 1000000000 - off))" using found Some by simp
      show "after < t * 1000000000 - off" "scheduled cal tz s (t * 1000000000 - off)"
        using r(2) Some start by (auto simp: first_match_def scheduled_fixed [OF zone] less_diff_eq)
      show "\<not> scheduled cal tz s v" if "after < v" "v < t * 1000000000 - off" for v
        using that r(2) Some start by (auto simp: first_match_def scheduled_fixed [OF zone] less_diff_eq)
    qed
  qed
qed

lemma between_loop_complete:
  assumes ok: "calendar_sane cal" and zone: "fixed_offset tz off"
    and reach: "calendar_reaches cal (local_year cal off after) (local_year cal off until + SEARCH_YEARS + 1)"
    and near: "local_year cal off until \<le> local_year cal off after + SEARCH_YEARS" and le: "after \<le> until"
    and res: "between_loop room cal tz s after until = Some (ts, left)" and u: "scheduled cal tz s u" "after < u" "u \<le> until"
  shows "u \<in> set ts \<or> (left \<and> (\<forall>w \<in> set ts. w < u))"
  using reach near le res u
proof (induction room arbitrary: after ts)
  case 0
  have "calendar_reaches cal (local_year cal off after) (local_year cal off after + SEARCH_YEARS + 1)"
    using 0(1) local_year_mono [OF ok 0(3), of off] unfolding calendar_reaches_def by force
  from ok zone this show ?case
  proof (cases rule: next_after_exact [where s = s])
    case none
    then show ?thesis using 0 local_year_mono [OF ok 0(7), of off] by fastforce
  next
    case (some v)
    then show ?thesis using 0 by (auto simp: between_loop.simps split: if_splits)
  qed
next
  case (Suc n)
  have "calendar_reaches cal (local_year cal off after) (local_year cal off after + SEARCH_YEARS + 1)"
    using Suc.prems(1) local_year_mono [OF ok Suc.prems(3), of off] unfolding calendar_reaches_def by force
  from ok zone this show ?case
  proof (cases rule: next_after_exact [where s = s])
    case none
    then show ?thesis using Suc.prems local_year_mono [OF ok Suc.prems(7), of off] by fastforce
  next
    case (some v)
    then have "v \<le> u" using Suc.prems(5,6) by (meson linorder_not_less)
    then obtain ts' where ts': "between_loop n cal tz s v until = Some (ts', left)" "ts = v # ts'"
      using some(1) Suc.prems(4,7) by (auto simp: between_loop.simps [of "Suc n"])
    have mono: "local_year cal off after \<le> local_year cal off v" using local_year_mono [OF ok] some(2) by simp
    show ?thesis
    proof (cases "v = u")
      case False
      then have "u \<in> set ts' \<or> (left \<and> (\<forall>w \<in> set ts'. w < u))"
        using \<open>v \<le> u\<close> Suc.prems mono by (intro Suc.IH [OF _ _ _ ts'(1)]) (force simp: calendar_reaches_def)+
      then show ?thesis using ts'(2) False \<open>v \<le> u\<close> by auto
    qed (simp add: ts'(2))
  qed
qed

end
