(* ===== verification/Cron_Text.thy ===== *)
theory Cron_Text
  imports Cron
begin

unbundle bit_operations_syntax

text \<open>
  What the text of a cron expression means: a grammar of the parts of a field, the times an
  expression names by it, and that the schedule the code reads from the text matches exactly them.
  Reading always ends.
\<close>

section \<open>What a field holds\<close>

lemma fd_matches_bit: "fd_matches f v \<longleftrightarrow> v < 64 \<and> bit (fd_bits f) v"
  unfolding fd_matches_def using bit_iff_and_push_bit_not_eq_0 [of "fd_bits f" v] by blast

lemma bits_loop_bits:
  assumes "0 < step" "hi < 64" "hi + step < 2 ^ 32" "Suc hi - v < fuel"
  shows "\<exists>b. bits_loop fuel v hi step bits = Some b
             \<and> (\<forall>i. bit b i \<longleftrightarrow> bit bits i \<or> (v \<le> i \<and> i \<le> hi \<and> step dvd i - v))"
  using assms
proof (induction fuel arbitrary: v bits)
  case 0
  then show ?case by simp
next
  case (Suc fuel)
  show ?case
  proof (cases "v \<le> hi")
    case True
    have mod: "(v + step) mod 2 ^ 32 = v + step" using True Suc.prems(3) by (intro mod_less) linarith
    have "Suc hi - (v + step) < fuel" using True Suc.prems(1,4) by linarith
    from Suc.IH [OF Suc.prems(1-3) this, of "bits OR push_bit v 1"] obtain b where
      b: "bits_loop fuel (v + step) hi step (bits OR push_bit v 1) = Some b"
         "\<And>i. bit b i \<longleftrightarrow> bit (bits OR push_bit v 1) i \<or> (v + step \<le> i \<and> i \<le> hi \<and> step dvd i - (v + step))" by blast
    have shift: "(v \<le> i \<and> i \<le> hi \<and> step dvd i - v) \<longleftrightarrow> i = v \<or> (v + step \<le> i \<and> i \<le> hi \<and> step dvd i - (v + step))" for i
    proof (cases "v + step \<le> i")
      case True
      then have "i - v = (i - (v + step)) + step" by simp
      then show ?thesis using True by (metis add_leD1 dvd_add_triv_right_iff not_add_less1 order_le_less_trans Suc.prems(1) less_add_same_cancel1 nat_less_le)
    next
      case False
      then show ?thesis using \<open>v \<le> hi\<close> nat_dvd_not_less [of "i - v" step] by (cases "i = v") auto
    qed
    have "bit (bits OR push_bit v 1) i \<longleftrightarrow> bit bits i \<or> i = v" for i
      using True Suc.prems(2) by (auto simp: bit_simps)
    then show ?thesis using True b mod shift by auto
  next
    case False
    then show ?thesis by auto
  qed
qed

text \<open>
  The loop ends for every step, also when \<open>v += step\<close> wraps: a step that large takes \<open>v\<close> past the end
  at once or leads down to 0.
\<close>

lemma bits_loop_down:
  assumes "hi < step" "step < 2 ^ 32" "hi < 2 ^ 31" "v < fuel"
  shows "\<exists>b. bits_loop (Suc fuel) v hi step bits = Some b"
  using assms
proof (induction v arbitrary: fuel bits rule: less_induct)
  case (less v)
  show ?case
  proof (cases "v \<le> hi \<and> 2 ^ 32 \<le> v + step")
    case True
    then have "v + step - 2 ^ 32 < 2 ^ 32" using less.prems by linarith
    then have mod: "(v + step) mod 2 ^ 32 = v + step - 2 ^ 32" using True by (metis le_mod_geq mod_less)
    obtain f where f: "fuel = Suc f" using less.prems(4) by (cases fuel) auto
    have "v + step - 2 ^ 32 < v" "v + step - 2 ^ 32 < f" using less.prems f True by linarith+
    from less.IH [OF this(1) less.prems(1-3) this(2)] show ?thesis using True mod f by simp
  next
    case False
    obtain f where f: "fuel = Suc f" using less.prems(4) by (cases fuel) auto
    then show ?thesis using False less.prems(1) by (cases "v \<le> hi") auto
  qed
qed

text \<open>Such a step names more values than the expression does: \<open>5/4294967295\<close> holds 0 to 5.\<close>

lemma bits_loop_wraps:
  "bits_loop (Suc (Suc (Suc (Suc (Suc (Suc (Suc n))))))) 5 59 4294967295 0 = Some 63"
  by simp

lemma cron_value_bound:
  "\<lbrakk>cron_value raw lo hi names names_from = Inr n; names_from + length names \<le> Suc hi\<rbrakk> \<Longrightarrow> n \<le> hi"
proof -
  have pos: "position x xs = Some i \<Longrightarrow> i < length xs" for x and xs :: "string list" and i
    by (induction xs arbitrary: i) (auto split: if_splits)
  show "\<lbrakk>cron_value raw lo hi names names_from = Inr n; names_from + length names \<le> Suc hi\<rbrakk> \<Longrightarrow> n \<le> hi"
    by (auto simp: cron_value_def split: option.splits if_splits dest!: pos)
qed

lemma cron_range_bound:
  assumes "cron_range part rng lo hi names names_from = Inr (a, b)" "names_from + length names \<le> Suc hi"
  shows "b \<le> hi"
  using assms by (auto simp: cron_range_def split: if_splits option.splits sum.splits dest: cron_value_bound)

lemma split_once_Some: "split_once d s = Some (x, y) \<longleftrightarrow> s = x @ d # y \<and> d \<notin> set x"
proof
  show "split_once d s = Some (x, y) \<Longrightarrow> s = x @ d # y \<and> d \<notin> set x"
    by (induction s arbitrary: x) (auto split: if_splits)
qed (simp add: split_once_append)

lemma split_once_None: "split_once d s = None \<longleftrightarrow> d \<notin> set s"
  by (induction s) auto

section \<open>The meaning of a field\<close>

text \<open>The text of a value has none of the separators.\<close>

definition plain_text :: "string \<Rightarrow> bool" where
  "plain_text a \<longleftrightarrow> CHR ''-'' \<notin> set a \<and> CHR ''/'' \<notin> set a"

text \<open>The values one part of a field names, by the forms a part may have.\<close>

inductive part_names :: "nat \<Rightarrow> nat \<Rightarrow> string list \<Rightarrow> nat \<Rightarrow> string \<Rightarrow> nat \<Rightarrow> bool"
  for lo hi names names_from where
  All: "lo \<le> v \<Longrightarrow> v \<le> hi \<Longrightarrow> part_names lo hi names names_from ''*'' v"
| All_Step: "u32_parse n = Some k \<Longrightarrow> 0 < k \<Longrightarrow> lo \<le> v \<Longrightarrow> v \<le> hi \<Longrightarrow> k dvd v - lo \<Longrightarrow>
    part_names lo hi names names_from (''*/'' @ n) v"
| One: "plain_text a \<Longrightarrow> a \<noteq> ''*'' \<Longrightarrow> cron_value a lo hi names names_from = Inr v \<Longrightarrow> part_names lo hi names names_from a v"
| One_Step: "plain_text a \<Longrightarrow> a \<noteq> ''*'' \<Longrightarrow> cron_value a lo hi names names_from = Inr x \<Longrightarrow>
    u32_parse n = Some k \<Longrightarrow> 0 < k \<Longrightarrow> x \<le> v \<Longrightarrow> v \<le> hi \<Longrightarrow> k dvd v - x \<Longrightarrow> part_names lo hi names names_from (a @ ''/'' @ n) v"
| Range: "plain_text a \<Longrightarrow> CHR ''/'' \<notin> set b \<Longrightarrow> cron_value a lo hi names names_from = Inr x \<Longrightarrow>
    cron_value b lo hi names names_from = Inr y \<Longrightarrow> x \<le> v \<Longrightarrow> v \<le> y \<Longrightarrow>
    part_names lo hi names names_from (a @ ''-'' @ b) v"
| Range_Step: "plain_text a \<Longrightarrow> CHR ''/'' \<notin> set b \<Longrightarrow> cron_value a lo hi names names_from = Inr x \<Longrightarrow>
    cron_value b lo hi names names_from = Inr y \<Longrightarrow> u32_parse n = Some k \<Longrightarrow> 0 < k \<Longrightarrow> x \<le> v \<Longrightarrow> v \<le> y \<Longrightarrow>
    k dvd v - x \<Longrightarrow> part_names lo hi names names_from (a @ ''-'' @ b @ ''/'' @ n) v"

text \<open>A part that leaves the field open: the star with no step but 1.\<close>

definition part_open :: "string \<Rightarrow> bool" where
  "part_open part \<longleftrightarrow> part = ''*'' \<or> (\<exists>n. part = ''*/'' @ n \<and> u32_parse n = Some 1)"

definition field_names :: "nat \<Rightarrow> nat \<Rightarrow> string list \<Rightarrow> nat \<Rightarrow> string \<Rightarrow> nat \<Rightarrow> bool" where
  "field_names lo hi names names_from raw v \<longleftrightarrow>
     (\<exists>part\<in>set (str_split (CHR '','') raw). part_names lo hi names names_from part v)"

definition field_open :: "string \<Rightarrow> bool" where
  "field_open raw \<longleftrightarrow> (\<exists>part\<in>set (str_split (CHR '','') raw). part_open part)"

text \<open>
  The seconds a list of five or six field texts names.  A day has to be named by its number and its
  weekday where one of the two fields is open, and by one of them otherwise; Sunday is 0 and 7.
\<close>

definition fields_name :: "Calendar \<Rightarrow> string list \<Rightarrow> int \<Rightarrow> bool" where
  "fields_name cal parts t \<longleftrightarrow>
     (let rest = (if length parts = 6 then drop 1 parts else parts);
          w = cal_weekday cal (day_of_secs t);
          dom = field_names 1 31 [] 0 (rest ! 2) (cal_day cal (day_of_secs t));
          dow = (field_names 0 7 WEEKDAYS 0 (rest ! 4) w \<or> (w = 0 \<and> field_names 0 7 WEEKDAYS 0 (rest ! 4) 7))
      in (if length parts = 6 then field_names 0 59 [] 0 (parts ! 0) (second_of t) else second_of t = 0)
         \<and> field_names 0 59 [] 0 (rest ! 0) (minute_of t) \<and> field_names 0 23 [] 0 (rest ! 1) (hour_of t)
         \<and> field_names 1 12 MONTHS 1 (rest ! 3) (cal_month cal (day_of_secs t))
         \<and> (if field_open (rest ! 2) \<or> field_open (rest ! 4)
            then (field_open (rest ! 2) \<or> dom) \<and> (field_open (rest ! 4) \<or> dow) else dom \<or> dow))"

definition expression_names :: "Calendar \<Rightarrow> string \<Rightarrow> int \<Rightarrow> bool" where
  "expression_names cal expression t \<longleftrightarrow>
     (\<exists>e. expand_macro (str_trim expression) = Inr e \<and> fields_name cal (split_ws [] e) t)"

text \<open>The step a part writes, 1 if none; and the expressions whose steps cannot wrap \<open>u32\<close>.\<close>

definition part_step :: "string \<Rightarrow> nat" where
  "part_step part =
     (case split_once (CHR ''/'') part of None \<Rightarrow> 1 | Some (_, n) \<Rightarrow> (case u32_parse n of None \<Rightarrow> 1 | Some k \<Rightarrow> k))"

definition field_steps_fit :: "string \<Rightarrow> bool" where
  "field_steps_fit raw \<longleftrightarrow> (\<forall>part\<in>set (str_split (CHR '','') raw). part_step part < 2 ^ 32 - 59)"

definition steps_fit :: "string \<Rightarrow> bool" where
  "steps_fit expression \<longleftrightarrow>
     (\<forall>e. expand_macro (str_trim expression) = Inr e \<longrightarrow> (\<forall>raw\<in>set (split_ws [] e). field_steps_fit raw))"

section \<open>Reading a part\<close>

lemma cron_step_Inr:
  "cron_step part = Inr (rng, k) \<longleftrightarrow>
     (CHR ''/'' \<notin> set part \<and> rng = part \<and> k = 1)
     \<or> (\<exists>n. part = rng @ CHR ''/'' # n \<and> CHR ''/'' \<notin> set rng \<and> u32_parse n = Some k \<and> 0 < k)"
proof (cases "split_once (CHR ''/'') part")
  case None
  moreover have "CHR ''/'' \<notin> set part" using split_once_None [THEN iffD1, OF None] .
  ultimately show ?thesis by (auto simp: cron_step_def)
next
  case (Some p)
  obtain r n where p: "p = (r, n)" by (cases p)
  then have part: "part = r @ CHR ''/'' # n" "CHR ''/'' \<notin> set r" using Some by (simp_all add: split_once_Some)
  have same: "part = r' @ CHR ''/'' # n' \<and> CHR ''/'' \<notin> set r' \<longleftrightarrow> r' = r \<and> n' = n" for r' n'
    using Some p split_once_Some [of "CHR ''/''" part r' n'] by auto
  have "CHR ''/'' \<in> set part" by (simp add: part(1))
  then have "(CHR ''/'' \<notin> set part \<and> rng = part \<and> k = 1)
     \<or> (\<exists>n. part = rng @ CHR ''/'' # n \<and> CHR ''/'' \<notin> set rng \<and> u32_parse n = Some k \<and> 0 < k)
     \<longleftrightarrow> rng = r \<and> u32_parse n = Some k \<and> 0 < k" using same [of rng] by blast
  moreover have "cron_step part = Inr (rng, k) \<longleftrightarrow> rng = r \<and> u32_parse n = Some k \<and> 0 < k"
    using Some p by (cases "u32_parse n") (auto simp: cron_step_def)
  ultimately show ?thesis by simp
qed

lemma cron_step_bounds: "cron_step part = Inr (rng, k) \<Longrightarrow> 0 < k \<and> k < 2 ^ 32 \<and> k = part_step part"
  by (auto simp: cron_step_def part_step_def u32_parse_def Let_def split: option.splits prod.splits if_splits)

lemma cron_range_Inr:
  "cron_range part rng lo hi names names_from = Inr (a, b) \<longleftrightarrow>
     (rng = ''*'' \<and> a = lo \<and> b = hi)
     \<or> (\<exists>x y. rng = x @ CHR ''-'' # y \<and> CHR ''-'' \<notin> set x \<and> cron_value x lo hi names names_from = Inr a
          \<and> cron_value y lo hi names names_from = Inr b \<and> a \<le> b)
     \<or> (rng \<noteq> ''*'' \<and> CHR ''-'' \<notin> set rng \<and> cron_value rng lo hi names names_from = Inr a
          \<and> b = (if CHR ''/'' \<in> set part then hi else a))"
proof (cases "split_once (CHR ''-'') rng")
  case None
  have no: "CHR ''-'' \<notin> set rng" using split_once_None [THEN iffD1, OF None] .
  then have "rng \<noteq> x @ CHR ''-'' # y" for x y by auto
  then show ?thesis using None no
    by (cases "cron_value rng lo hi names names_from") (auto simp: cron_range_def)
next
  case (Some p)
  obtain x y where p: "p = (x, y)" by (cases p)
  then have rng: "rng = x @ CHR ''-'' # y" using Some by (simp add: split_once_Some)
  then have star: "rng \<noteq> ''*''" "CHR ''-'' \<in> set rng" by (auto simp: append_eq_Cons_conv)
  have same: "rng = x' @ CHR ''-'' # y' \<and> CHR ''-'' \<notin> set x' \<longleftrightarrow> x' = x \<and> y' = y" for x' y'
    using Some p split_once_Some [of "CHR ''-''" rng x' y'] by auto
  have "cron_range part rng lo hi names names_from = Inr (a, b) \<longleftrightarrow>
      cron_value x lo hi names names_from = Inr a \<and> cron_value y lo hi names names_from = Inr b \<and> a \<le> b"
    using Some p star
    by (cases "cron_value x lo hi names names_from"; cases "cron_value y lo hi names names_from")
       (auto simp: cron_range_def)
  then show ?thesis using same star by blast
qed

text \<open>What the code takes a part to cover is what the grammar says.\<close>

lemma part_read:
  assumes "cron_step part = Inr (rng, k)" "cron_range part rng lo hi names names_from = Inr (a, b)"
  shows "(a \<le> v \<and> v \<le> b \<and> k dvd v - a) \<longleftrightarrow> part_names lo hi names names_from part v"
proof
  assume v: "a \<le> v \<and> v \<le> b \<and> k dvd v - a"
  from assms(1) [unfolded cron_step_Inr] show "part_names lo hi names names_from part v"
  proof (elim disjE exE conjE)
    assume whole: "CHR ''/'' \<notin> set part" "rng = part"
    from assms(2) [unfolded cron_range_Inr] v whole show ?thesis
      by (auto simp: plain_text_def intro: part_names.All part_names.One part_names.Range [simplified])
  next
    fix n assume split: "part = rng @ CHR ''/'' # n" "CHR ''/'' \<notin> set rng" "u32_parse n = Some k" "0 < k"
    from assms(2) [unfolded cron_range_Inr] v split show ?thesis
      by (auto simp: plain_text_def intro: part_names.All_Step [simplified] part_names.One_Step [simplified]
          part_names.Range_Step [simplified])
  qed
next
  have read: "a = x \<and> b = y \<and> k = j"
    if "cron_step part = Inr (r, j)" "cron_range part r lo hi names names_from = Inr (x, y)" for r j x y
    using that assms by simp
  assume "part_names lo hi names names_from part v"
  then show "a \<le> v \<and> v \<le> b \<and> k dvd v - a"
  proof cases
    case All
    then show ?thesis using read [of part 1 lo hi] by (auto simp: cron_step_Inr cron_range_Inr)
  next
    case (All_Step n j)
    then show ?thesis using read [of "''*''" j lo hi] by (auto simp: cron_step_Inr cron_range_Inr)
  next
    case One
    then show ?thesis using read [of part 1 v v] by (auto simp: cron_step_Inr cron_range_Inr plain_text_def)
  next
    case (One_Step r x n j)
    then show ?thesis using read [of r j x hi] by (auto simp: cron_step_Inr cron_range_Inr plain_text_def)
  next
    case (Range c d x y)
    moreover have "cron_range part part lo hi names names_from = Inr (x, y)"
      using Range unfolding cron_range_Inr plain_text_def by (intro disjI2 disjI1 exI [of _ c] exI [of _ d]) auto
    ultimately show ?thesis using read [of part 1 x y] by (auto simp: cron_step_Inr plain_text_def)
  next
    case (Range_Step c d x y n j)
    moreover have "cron_range part (c @ ''-'' @ d) lo hi names names_from = Inr (x, y)"
      using Range_Step unfolding cron_range_Inr plain_text_def by (intro disjI2 disjI1 exI [of _ c] exI [of _ d]) auto
    ultimately show ?thesis using read [of "c @ ''-'' @ d" j x y] by (auto simp: cron_step_Inr plain_text_def)
  qed
qed

lemma part_open_read: "cron_step part = Inr (rng, k) \<Longrightarrow> rng = ''*'' \<and> k = 1 \<longleftrightarrow> part_open part"
  by (auto simp: cron_step_Inr part_open_def append_eq_Cons_conv)

section \<open>Reading a field\<close>

lemma and_ends_Inr: "and_ends r f = Some (Inr y) \<longleftrightarrow> (\<exists>x. r = Some (Inr x) \<and> f x = Some (Inr y))"
  by (cases "(r, f)" rule: and_ends.cases) auto

lemma and_ends_ends:
  assumes "\<exists>p. r = Some p" "\<And>x. r = Some (Inr x) \<Longrightarrow> \<exists>p. f x = Some p"
  shows "\<exists>p. and_ends r f = Some p"
  using assms by (cases "(r, f)" rule: and_ends.cases) auto

lemma bits_loop_ends:
  assumes "0 < step" "step < 2 ^ 32" "hi < 64"
  shows "\<exists>b. bits_loop (hi + 2) v hi step bits = Some b"
proof (cases "v \<le> hi \<and> hi < step")
  case True
  then show ?thesis using bits_loop_down [of hi step v "hi + 1" bits] assms by auto
next
  case False
  show ?thesis
  proof (cases "v \<le> hi")
    case True
    then have "\<exists>b. bits_loop (hi + 2) v hi step bits = Some b \<and>
        (\<forall>i. bit b i \<longleftrightarrow> bit bits i \<or> (v \<le> i \<and> i \<le> hi \<and> step dvd i - v))"
      using False assms by (intro bits_loop_bits) auto
    then show ?thesis by blast
  qed (simp add: numeral_2_eq_2)
qed

text \<open>Reading a field ends, whatever the text.\<close>

lemma field_parts_ends:
  assumes "hi < 64" "names_from + length names \<le> Suc hi"
  shows "\<exists>p. field_parts lo hi names names_from parts f = Some p"
proof (induction parts arbitrary: f)
  case (Cons part parts)
  show ?case
    unfolding field_parts.simps
  proof (rule and_ends_ends, blast, clarify, rule and_ends_ends, blast, clarify)
    fix rng step a b
    assume step: "cron_step part = Inr (rng, step)" and ab: "cron_range part rng lo hi names names_from = Inr (a, b)"
    obtain bits where "bits_loop (b + 2) a b step (fd_bits f) = Some bits"
      using bits_loop_ends [of step b a "fd_bits f"] cron_step_bounds [OF step] cron_range_bound [OF ab assms(2)] assms(1)
      by force
    then show "\<exists>p. (case bits_loop (b + 2) a b step (fd_bits f) of None \<Rightarrow> None
        | Some bits \<Rightarrow> field_parts lo hi names names_from parts
            (f\<lparr> fd_any := fd_any f \<or> (rng = ''*'' \<and> step = 1), fd_bits := bits \<rparr>)) = Some p"
      using Cons.IH by simp
  qed
qed simp

lemma cron_field_ends:
  "hi < 64 \<Longrightarrow> names_from + length names \<le> Suc hi \<Longrightarrow> \<exists>p. cron_field raw lo hi names names_from = Some p"
  by (simp add: cron_field_def field_parts_ends)

text \<open>A field that was read holds the values its parts name, and is open when a part is.\<close>

lemma field_parts_read:
  assumes "field_parts lo hi names names_from parts f = Some (Inr g)" "hi < 64" "names_from + length names \<le> Suc hi"
    and "\<forall>part\<in>set parts. hi + part_step part < 2 ^ 32"
  shows "(\<forall>i. bit (fd_bits g) i \<longleftrightarrow> bit (fd_bits f) i \<or> (\<exists>part\<in>set parts. part_names lo hi names names_from part i))
    \<and> (fd_any g \<longleftrightarrow> fd_any f \<or> (\<exists>part\<in>set parts. part_open part))"
  using assms
proof (induction parts arbitrary: f)
  case Nil
  then show ?case by simp
next
  case (Cons part parts)
  obtain rng step a b where step: "cron_step part = Inr (rng, step)"
    and ab: "cron_range part rng lo hi names names_from = Inr (a, b)"
    using Cons.prems(1) by (auto simp: and_ends_Inr split: prod.splits)
  have "b \<le> hi" using cron_range_bound [OF ab Cons.prems(3)] .
  have s: "0 < step" "b + step < 2 ^ 32" using cron_step_bounds [OF step] Cons.prems(4) \<open>b \<le> hi\<close> by auto
  have "b < 64" "Suc b - a < b + 2" using \<open>b \<le> hi\<close> Cons.prems(2) by simp_all
  then obtain c where c: "bits_loop (b + 2) a b step (fd_bits f) = Some c"
      "\<forall>i. bit c i \<longleftrightarrow> bit (fd_bits f) i \<or> (a \<le> i \<and> i \<le> b \<and> step dvd i - a)"
    using bits_loop_bits [OF s(1) _ s(2)] by blast
  let ?f = "f\<lparr> fd_any := fd_any f \<or> (rng = ''*'' \<and> step = 1), fd_bits := c \<rparr>"
  have "field_parts lo hi names names_from parts ?f = Some (Inr g)"
    using Cons.prems(1) step ab c(1) by simp
  from Cons.IH [OF this Cons.prems(2,3)] show ?case
    using Cons.prems(4) c(2) part_read [OF step ab] part_open_read [OF step] by auto
qed

lemma part_names_le:
  assumes "part_names lo hi names names_from part v" "names_from + length names \<le> Suc hi"
  shows "v \<le> hi"
  using assms by (cases rule: part_names.cases) (auto dest: cron_value_bound)

lemma cron_field_read:
  assumes "cron_field raw lo hi names names_from = Some (Inr f)" "hi < 60" "names_from + length names \<le> Suc hi"
    and "field_steps_fit raw"
  shows "fd_matches f i \<longleftrightarrow> field_names lo hi names names_from raw i" "fd_any f \<longleftrightarrow> field_open raw"
proof -
  let ?start = "\<lparr> fd_bits = 0, fd_any = False \<rparr>"
  have "field_parts lo hi names names_from (str_split (CHR '','') raw) ?start = Some (Inr f)"
    using assms(1) by (simp add: cron_field_def split: if_splits)
  moreover have "\<forall>part\<in>set (str_split (CHR '','') raw). hi + part_step part < 2 ^ 32"
    using assms(2,4) by (force simp: field_steps_fit_def)
  ultimately have *: "(\<forall>i. bit (fd_bits f) i \<longleftrightarrow> bit (fd_bits ?start) i
        \<or> (\<exists>part\<in>set (str_split (CHR '','') raw). part_names lo hi names names_from part i))
      \<and> (fd_any f \<longleftrightarrow> fd_any ?start \<or> (\<exists>part\<in>set (str_split (CHR '','') raw). part_open part))"
    using assms(2,3) by (intro field_parts_read) auto
  moreover have "i < 64" if "field_names lo hi names names_from raw i"
    using that part_names_le [OF _ assms(3)] assms(2) by (fastforce simp: field_names_def)
  ultimately show "fd_matches f i \<longleftrightarrow> field_names lo hi names names_from raw i" "fd_any f \<longleftrightarrow> field_open raw"
    by (auto simp: fd_matches_bit field_names_def field_open_def)
qed

section \<open>Reading an expression\<close>

lemma in_context_Inr [simp]: "in_context name r = Some (Inr x) \<longleftrightarrow> r = Some (Inr x)"
  by (cases r; cases "the r") (auto simp: in_context_def)

lemma in_context_ends: "\<exists>p. r = Some p \<Longrightarrow> \<exists>p. in_context name r = Some p"
  by (auto simp: in_context_def)

lemma cron_fields_end:
  "\<exists>p. in_context n (cron_field raw 0 59 [] 0) = Some p" "\<exists>p. in_context n (cron_field raw 0 23 [] 0) = Some p"
  "\<exists>p. in_context n (cron_field raw 1 31 [] 0) = Some p" "\<exists>p. in_context n (cron_field raw 1 12 MONTHS 1) = Some p"
  "\<exists>p. in_context n (cron_field raw 0 7 WEEKDAYS 0) = Some p"
  by (intro in_context_ends cron_field_ends; simp add: MONTHS_def WEEKDAYS_def)+

lemma parse_fields_ends: "\<exists>p. parse_fields parts = Some p"
proof (cases "length parts \<noteq> 5 \<and> length parts \<noteq> 6")
  case False
  show ?thesis
    unfolding parse_fields_def Let_def if_not_P [OF False]
    by (intro and_ends_ends cron_fields_end) (auto simp: cron_fields_end)
qed (simp add: parse_fields_def)

lemma fd_matches_sunday: "fd_matches (f\<lparr> fd_bits := fd_bits f OR 1 \<rparr>) v \<longleftrightarrow> fd_matches f v \<or> v = 0"
  by (auto simp: fd_matches_bit bit_simps)

text \<open>The schedule read from the field texts matches the seconds they name.\<close>

lemma parse_fields_read:
  assumes "parse_fields parts = Some (Inr s)" "\<forall>raw\<in>set parts. field_steps_fit raw"
  shows "cron_matches cal s t \<longleftrightarrow> fields_name cal parts t"
proof -
  let ?six = "length parts = 6"
  let ?rest = "if ?six then tl parts else parts"
  have len: "\<not> (length parts \<noteq> 5 \<and> length parts \<noteq> 6)" using assms(1) by (auto simp: parse_fields_def split: if_splits)
  then have rest: "length ?rest = 5" by auto
  obtain sec mi ho da mo we where
    sec: "(if ?six then in_context ''second'' (cron_field (hd parts) 0 59 [] 0)
           else Some (Inr \<lparr> fd_bits = 1, fd_any = False \<rparr>)) = Some (Inr sec)"
    and fields: "cron_field (?rest ! 0) 0 59 [] 0 = Some (Inr mi)" "cron_field (?rest ! 1) 0 23 [] 0 = Some (Inr ho)"
      "cron_field (?rest ! 2) 1 31 [] 0 = Some (Inr da)" "cron_field (?rest ! 3) 1 12 MONTHS 1 = Some (Inr mo)"
      "cron_field (?rest ! 4) 0 7 WEEKDAYS 0 = Some (Inr we)"
    and s: "\<lparr> cs_seconds = sec, cs_minutes = mi, cs_hours = ho, cs_days = da, cs_months = mo,
       cs_weekdays = (if fd_matches we 7 then we\<lparr> fd_bits := fd_bits we OR 1 \<rparr> else we), cs_has_seconds = ?six \<rparr> = s"
    using assms(1) unfolding parse_fields_def Let_def if_not_P [OF len] and_ends_Inr in_context_Inr
      option.inject sum.inject by blast
  have "set ?rest \<subseteq> set parts" by (cases parts) auto
  then have fit: "field_steps_fit (?rest ! k)" if "k < 5" for k
    using assms(2) rest that by (metis nth_mem subsetD)
  have names: "1 + length MONTHS \<le> Suc 12" "0 + length WEEKDAYS \<le> Suc 7" by (simp_all add: MONTHS_def WEEKDAYS_def)
  have mi: "fd_matches mi v \<longleftrightarrow> field_names 0 59 [] 0 (?rest ! 0) v"
    and ho: "fd_matches ho v \<longleftrightarrow> field_names 0 23 [] 0 (?rest ! 1) v"
    and mo: "fd_matches mo v \<longleftrightarrow> field_names 1 12 MONTHS 1 (?rest ! 3) v" for v
    by (rule cron_field_read(1) [OF fields(1) _ _ fit] cron_field_read(1) [OF fields(2) _ _ fit]
        cron_field_read(1) [OF fields(4) _ names(1) fit]; simp)+
  have da: "fd_matches da v \<longleftrightarrow> field_names 1 31 [] 0 (?rest ! 2) v" "fd_any da \<longleftrightarrow> field_open (?rest ! 2)" for v
    by (rule cron_field_read [OF fields(3) _ _ fit]; simp)+
  have we: "fd_matches we v \<longleftrightarrow> field_names 0 7 WEEKDAYS 0 (?rest ! 4) v" "fd_any we \<longleftrightarrow> field_open (?rest ! 4)" for v
    by (rule cron_field_read [OF fields(5) _ names(2) fit]; simp)+
  have seconds: "fd_matches sec (second_of t) \<longleftrightarrow>
      (if ?six then field_names 0 59 [] 0 (parts ! 0) (second_of t) else second_of t = 0)"
  proof (cases ?six)
    case True
    then have "parts \<noteq> []" by auto
    then have "field_steps_fit (hd parts)" "hd parts = parts ! 0" using assms(2) by (simp_all add: hd_conv_nth)
    then show ?thesis using True sec cron_field_read(1) [of "hd parts" 0 59 "[]" 0 sec "second_of t"] by simp
  next
    case False
    then show ?thesis using sec by (auto simp: fd_matches_bit bit_1_iff)
  qed
  have drop: "(if ?six then drop 1 parts else parts) = ?rest" by (simp add: drop_Suc)
  define w where "w = cal_weekday cal (day_of_secs t)"
  define dom where "dom \<longleftrightarrow> field_names 1 31 [] 0 (?rest ! 2) (cal_day cal (day_of_secs t))"
  define dow where "dow \<longleftrightarrow> field_names 0 7 WEEKDAYS 0 (?rest ! 4) w \<or> (w = 0 \<and> field_names 0 7 WEEKDAYS 0 (?rest ! 4) 7)"
  have "fd_matches (cs_weekdays s) w \<longleftrightarrow> dow" "fd_any (cs_weekdays s) \<longleftrightarrow> field_open (?rest ! 4)"
    "fd_matches (cs_days s) (cal_day cal (day_of_secs t)) \<longleftrightarrow> dom" "fd_any (cs_days s) \<longleftrightarrow> field_open (?rest ! 2)"
    unfolding s [symmetric] dow_def dom_def by (auto simp: we da fd_matches_sunday)
  then have day: "day_matches cal s (day_of_secs t) \<longleftrightarrow>
      (if field_open (?rest ! 2) \<or> field_open (?rest ! 4)
       then (field_open (?rest ! 2) \<or> dom) \<and> (field_open (?rest ! 4) \<or> dow) else dom \<or> dow)"
    by (simp add: day_matches_def Let_def w_def split: bool.split)
  show ?thesis
    unfolding cron_matches_def fields_name_def Let_def drop day seconds [symmetric] w_def [symmetric]
      dom_def [symmetric] dow_def [symmetric]
    unfolding s [symmetric] by (simp only: CronSchedule.select_convs mi ho mo) blast
qed

lemma CronSchedule_parse_read:
  assumes "CronSchedule_parse cal probe expression = Some (Inr s)" "steps_fit expression"
  shows "cron_matches cal s t \<longleftrightarrow> expression_names cal expression t"
proof -
  obtain e where e: "expand_macro (str_trim expression) = Inr e" "parse_fields (split_ws [] e) = Some (Inr s)"
    using assms(1) unfolding CronSchedule_parse_def and_ends_Inr option.inject
    by (auto split: option.splits)
  then show ?thesis
    using parse_fields_read [OF e(2)] assms(2) by (simp add: expression_names_def steps_fit_def)
qed

lemma CronSchedule_parse_ends:
  assumes "calendar_sane cal"
  shows "\<exists>p. CronSchedule_parse cal probe expression = Some p"
proof -
  have search: "\<exists>r. next_local_after cal s probe = Some r" for s by (rule next_local_after_exact [OF assms]) blast
  show ?thesis
    unfolding CronSchedule_parse_def
    by (intro and_ends_ends parse_fields_ends) (use search in auto)
qed

section \<open>Words of a text\<close>

lemma spaces_nonempty: "\<forall>w\<in>set utf8_spaces. w \<noteq> []"
  by (simp add: utf8_spaces_def)

lemma split_ws_char:
  assumes "c \<notin> hd ` set utf8_spaces"
  shows "split_ws w (c # s) = split_ws (w @ [c]) s"
proof -
  have "take (length v) (c # s) \<noteq> v" if "v \<in> set utf8_spaces" for v
  proof (cases v)
    case Nil
    then show ?thesis using spaces_nonempty that by blast
  next
    case (Cons d v')
    then show ?thesis using assms that by force
  qed
  then have "find (\<lambda>v. take (length v) (c # s) = v) utf8_spaces = None" unfolding find_None_iff by blast
  then have "space_len utf8_spaces (c # s) = 0" by (simp only: space_len_def option.case)
  then show ?thesis by (simp add: split_ws.simps [of w "c # s"])
qed

lemma split_ws_space: "split_ws w (CHR '' '' # s) = (if w = [] then [] else [w]) @ split_ws [] s"
proof -
  have "space_len utf8_spaces (CHR '' '' # s) = 1"
    by (simp add: space_len_def utf8_spaces_def char_of_def bit_0)
  then show ?thesis by (simp add: split_ws.simps [of w "CHR '' '' # s"])
qed

lemma split_ws_end: "split_ws w [] = (if w = [] then [] else [w])"
  by (simp add: split_ws.simps)

end
