(* ===== verification/Platform_Properties.thy ===== *)
theory Platform_Properties
  imports Snapshots Cron_Text
begin

text \<open>
  What snapshots and schedules promise: a snapshot is restored only where every part of its manifest
  fits, a sealed manifest verifies as what was sealed, and a schedule fires at exactly the times its
  expression names.
\<close>

section \<open>Snapshots\<close>

text \<open>
  C25: A snapshot is compatible with a target exactly when it is active and unexpired, its manifest
  has the supported version and was taken at the checkpoint, and every field they share is the same,
  with no network access on either side.  A snapshot of another tenant is refused with that reason alone.
\<close>

theorem snapshot_compatibility_exact:
  "(is_compatible (check_compatibility m state t now) \<longleftrightarrow>
      sm_tenant_id m = rt_tenant_id t \<and> sm_manifest_version m = SNAPSHOT_MANIFEST_VERSION
      \<and> state = SS_Active \<and> now < sm_expires_at m
      \<and> sm_function_id m = rt_function_id t \<and> sm_revision_id m = rt_revision_id t
      \<and> sm_revision_spec_digest m = rt_revision_spec_digest t
      \<and> sm_runtime m = rt_runtime t \<and> sm_host_cpu m = rt_host_cpu t \<and> sm_devices m = rt_devices t
      \<and> sm_memory_mib m = rt_memory_mib t \<and> sm_vcpus m = rt_vcpus t \<and> sm_storage m = rt_storage t
      \<and> sm_network m = rt_network t \<and> np_egress (sm_network m) = EP_None
      \<and> sm_encryption_key_generation m = rt_encryption_key_generation t
      \<and> sm_secret_generation m = rt_secret_generation t
      \<and> sm_sdk_lifecycle_version m = rt_sdk_lifecycle_version t \<and> sm_checkpoint_phase m = CHECKPOINT_PHASE)
   \<and> (compat_reasons (check_compatibility m state t now) = [IR_TenantMismatch] \<longleftrightarrow> sm_tenant_id m \<noteq> rt_tenant_id t)"
proof
  show "is_compatible (check_compatibility m state t now) \<longleftrightarrow>
      sm_tenant_id m = rt_tenant_id t \<and> sm_manifest_version m = SNAPSHOT_MANIFEST_VERSION
      \<and> state = SS_Active \<and> now < sm_expires_at m
      \<and> sm_function_id m = rt_function_id t \<and> sm_revision_id m = rt_revision_id t
      \<and> sm_revision_spec_digest m = rt_revision_spec_digest t
      \<and> sm_runtime m = rt_runtime t \<and> sm_host_cpu m = rt_host_cpu t \<and> sm_devices m = rt_devices t
      \<and> sm_memory_mib m = rt_memory_mib t \<and> sm_vcpus m = rt_vcpus t \<and> sm_storage m = rt_storage t
      \<and> sm_network m = rt_network t \<and> np_egress (sm_network m) = EP_None
      \<and> sm_encryption_key_generation m = rt_encryption_key_generation t
      \<and> sm_secret_generation m = rt_secret_generation t
      \<and> sm_sdk_lifecycle_version m = rt_sdk_lifecycle_version t \<and> sm_checkpoint_phase m = CHECKPOINT_PHASE"
    unfolding check_compatibility_def Let_def compatible_none append_is_Nil_conv push_if_empty state_reasons_empty
      runtime_fields_same host_cpu_fields_same by auto
  show "compat_reasons (check_compatibility m state t now) = [IR_TenantMismatch] \<longleftrightarrow> sm_tenant_id m \<noteq> rt_tenant_id t"
  proof (cases "sm_tenant_id m = rt_tenant_id t")
    case True
    then have "IR_TenantMismatch \<notin> set (compat_reasons (check_compatibility m state t now))"
      by (simp add: other_reasons check_compatibility_def Let_def)
    then show ?thesis using True by force
  qed (simp add: check_compatibility_def)
qed

text \<open>A manifest and a codec that knows only it.\<close>

definition sample_artifact :: ArtifactDigest where
  "sample_artifact = \<lparr> ad_sha256 = Ident ''sha256:a'', ad_size_bytes = 1 \<rparr>"

definition sample_manifest :: SnapshotManifest where
  "sample_manifest = \<lparr> sm_manifest_version = 1, sm_snapshot_id = Ident ''snap_a'', sm_tenant_id = Ident ''tn_a'',
     sm_function_id = Ident ''fn_a'', sm_revision_id = Ident ''rev_a'', sm_revision_spec_digest = Ident ''sha256:b'',
     sm_runtime = \<lparr> rp_provider_kind = ''firecracker'', rp_provider_version = ''1'', rp_vmm_sha256 = Ident ''sha256:c'',
       rp_kernel_sha256 = Ident ''sha256:d'', rp_rootfs_sha256 = Ident ''sha256:e'', rp_bridge_protocol_version = 1,
       rp_jailer_mode = ''on'', rp_cgroup_mode = ''v2'', rp_host_kernel = ''6'' \<rparr>,
     sm_host_cpu = \<lparr> hi_arch = ''x86_64'', hi_cpu_model_hash = Ident ''sha256:f'', hi_kvm_capabilities_hash = Ident ''sha256:0'' \<rparr>,
     sm_devices = \<lparr> dm_drives = [], dm_vsock_guest_cid = 3, dm_vsock_port = 1, dm_doorbell_port = 2, dm_network_interfaces = 0 \<rparr>,
     sm_memory_mib = 128, sm_vcpus = 1, sm_storage = \<lparr> sl_scratch_mib = 64 \<rparr>,
     sm_network = \<lparr> np_egress = EP_None, np_allowlist_digest = None \<rparr>,
     sm_encryption_key_generation = ''k1'', sm_secret_generation = ''none'', sm_created_at = 0, sm_expires_at = 100,
     sm_source_environment_id = Ident ''env_a'', sm_source_boot_id = ''b'', sm_sdk_lifecycle_version = 1,
     sm_checkpoint_phase = CHECKPOINT_PHASE,
     sm_artifacts = \<lparr> sa_memory = sample_artifact, sa_vmstate = sample_artifact, sa_scratch = sample_artifact,
       sa_function_drive = sample_artifact \<rparr> \<rparr>"

definition sample_codec :: SnapCodec where
  "sample_codec = \<lparr> sc_json = (\<lambda>_. ''{}''), sc_parse = (\<lambda>s. if s = ''{}'' then Inr sample_manifest else Inl ''unknown''),
     sc_sha256 = (\<lambda>s. take 32 (s @ replicate 32 (CHR ''0''))), sc_hex_encode = (\<lambda>s. CHR ''x'' # s),
     sc_hex_decode = (\<lambda>s. case s of c # r \<Rightarrow> if c = CHR ''x'' then Some r else None | [] \<Rightarrow> None) \<rparr>"

text \<open>
  C31: A sealed manifest verifies under its key and gives back what was sealed.  Whatever verifies is
  the canonical text of the manifest it gives, with its digest and with the keyed signature over it;
  under a key of another id nothing verifies.
\<close>

theorem manifest_seal_verify:
  assumes "sc_parse cx (sc_json cx m) = Inr m"
    and "\<And>b. sc_hex_decode cx (sc_hex_encode cx b) = Some b"
  shows "sk_verify cx k (sk_seal cx k m) = Inr m
     \<and> (sk_id k' \<noteq> sk_id k \<longrightarrow> sk_verify cx k' (sk_seal cx k m) = Inl (ME_KeyMismatch (sk_id k') (sk_id k)))
     \<and> (sk_verify cx k sealed = Inr m' \<longleftrightarrow>
          se_key_id sealed = sk_id k
          \<and> sc_hex_decode cx (se_signature sealed) = Some (hmac_sha256 (sc_sha256 cx) (sk_key k)
               (''tachyon-serverless/snapshot-manifest/v1'' @ [CHR 0x00] @ sk_id k @ [CHR 0x00] @ se_manifest sealed))
          \<and> se_digest sealed = sc_digest cx (se_manifest sealed)
          \<and> sc_parse cx (se_manifest sealed) = Inr m' \<and> sc_json cx m' = se_manifest sealed)"
proof (intro conjI)
  show "sk_verify cx k (sk_seal cx k m) = Inr m"
    using assms by (simp add: sk_verify_Inr sk_seal_def Let_def)
  show "sk_id k' \<noteq> sk_id k \<longrightarrow> sk_verify cx k' (sk_seal cx k m) = Inl (ME_KeyMismatch (sk_id k') (sk_id k))"
    by (auto simp: sk_verify_def sk_seal_def Let_def)
qed (auto simp: sk_verify_Inr sk_mac_def signed_message_def)

theorem manifest_seal_verify_witness:
  "sk_verify sample_codec (SigningKey_from_bytes sample_codec ''key'')
     (sk_seal sample_codec (SigningKey_from_bytes sample_codec ''key'') sample_manifest) = Inr sample_manifest"
  by (rule conjunct1 [OF manifest_seal_verify]) (simp_all add: sample_codec_def)

section \<open>Schedules\<close>

text \<open>A calendar of twelve months of thirty days, and the schedule of every full minute.\<close>

definition thirty_days :: Calendar where
  "thirty_days = \<lparr> cal_year = (\<lambda>d. d div 360), cal_month = (\<lambda>d. nat (d div 30 mod 12) + 1), cal_day = (\<lambda>d. nat (d mod 30) + 1),
     cal_weekday = (\<lambda>d. nat (d mod 7)), cal_first_of = (\<lambda>y m. Some ((y * 12 + int m - 1) * 30)), cal_succ = (\<lambda>d. Some (d + 1)) \<rparr>"

definition every_minute :: CronSchedule where
  "every_minute = (let f = (\<lambda>b. \<lparr> fd_bits = b, fd_any = True \<rparr>)
     in \<lparr> cs_seconds = \<lparr> fd_bits = 1, fd_any = False \<rparr>, cs_minutes = f (mask 60), cs_hours = f (mask 24), cs_days = f (mask 32 - 1),
          cs_months = f (mask 13 - 1), cs_weekdays = f (mask 8), cs_has_seconds = False \<rparr>)"

definition utc :: Zone where
  "utc = \<lparr> zn_local = (\<lambda>u. u), zn_from_local = LR_Single \<rparr>"

lemma thirty_days_index: "month_index thirty_days d = d div 30"
proof -
  have "d div 360 = d div 30 div 12" using zdiv_zmult2_eq [of 12 d 30] by simp
  moreover have "d div 30 = 12 * (d div 30 div 12) + d div 30 mod 12" by simp
  ultimately show ?thesis by (simp add: month_index_def thirty_days_def)
qed

lemma thirty_days_sane: "calendar_sane thirty_days"
proof -
  have "\<exists>d. i \<le> d div (30 :: int)" for i by (rule exI [of _ "i * 30"]) simp
  moreover have "(y * 12 + int m - 1) * 30 \<le> e \<longleftrightarrow> y * 12 + int m - 1 \<le> e div 30" for y m e
    using int_div_less [of 30 e "y * 12 + int m - 1"] by (simp add: linorder_not_less [symmetric])
  moreover have "nat (x mod 12) \<le> 11" for x :: int
    using pos_mod_bound [of 12 x] by (simp add: nat_le_iff)
  ultimately show ?thesis
    unfolding calendar_sane_def thirty_days_index
    by (simp add: thirty_days_def zdiv_mono1)
qed

lemma thirty_days_reaches: "calendar_reaches thirty_days lo hi"
  by (simp add: calendar_reaches_def thirty_days_def)

lemma utc_fixed: "fixed_offset utc 0"
  by (simp add: fixed_offset_def utc_def)

lemma every_minute_matches: "cron_matches thirty_days every_minute 60"
  by code_simp

text \<open>The schedule of the first second of a year, with the text it is read from.\<close>

definition yearly :: CronSchedule where
  "yearly = (let f = (\<lambda>b. \<lparr> fd_bits = b, fd_any = False \<rparr>)
     in \<lparr> cs_seconds = f 1, cs_minutes = f 1, cs_hours = f 1, cs_days = f 2, cs_months = f 2,
          cs_weekdays = \<lparr> fd_bits = 255, fd_any = True \<rparr>, cs_has_seconds = False \<rparr>)"

lemma yearly_words: "split_ws [] ''0 0 1 1 *'' = [''0'', ''0'', ''1'', ''1'', ''*'']"
proof -
  have "CHR ''0'' \<notin> hd ` set utf8_spaces" "CHR ''1'' \<notin> hd ` set utf8_spaces" "CHR ''*'' \<notin> hd ` set utf8_spaces"
    by code_simp+
  then show ?thesis by (simp add: split_ws_char split_ws_space split_ws_end)
qed

lemma yearly_text: "expand_macro (str_trim ''0 0 1 1 *'') = Inr ''0 0 1 1 *''"
  by code_simp

lemma yearly_fields:
  "cron_field ''0'' 0 59 [] 0 = Some (Inr \<lparr> fd_bits = 1, fd_any = False \<rparr>)"
  "cron_field ''0'' 0 23 [] 0 = Some (Inr \<lparr> fd_bits = 1, fd_any = False \<rparr>)"
  "cron_field ''1'' 1 31 [] 0 = Some (Inr \<lparr> fd_bits = 2, fd_any = False \<rparr>)"
  "cron_field ''1'' 1 12 MONTHS 1 = Some (Inr \<lparr> fd_bits = 2, fd_any = False \<rparr>)"
  "cron_field ''*'' 0 7 WEEKDAYS 0 = Some (Inr \<lparr> fd_bits = 255, fd_any = True \<rparr>)"
proof -
  have st: "cron_step ''0'' = Inr (''0'', 1)" "cron_step ''1'' = Inr (''1'', 1)" "cron_step ''*'' = Inr (''*'', 1)"
    by (simp_all add: cron_step_def)
  have "u32_parse ''0'' = Some 0" "u32_parse ''1'' = Some 1"
    by (simp_all add: u32_parse_def is_ascii_digit_def digits_val_def digit_val_def byte_def)
  then have r: "cron_range ''0'' ''0'' 0 59 [] 0 = Inr (0, 0)" "cron_range ''0'' ''0'' 0 23 [] 0 = Inr (0, 0)"
    "cron_range ''1'' ''1'' 1 31 [] 0 = Inr (1, 1)" "cron_range ''1'' ''1'' 1 12 MONTHS 1 = Inr (1, 1)"
    "cron_range ''*'' ''*'' 0 7 WEEKDAYS 0 = Inr (0, 7)"
    by (simp_all add: cron_range_def cron_value_def)
  have n: "(0 + 2 :: nat) = Suc (Suc 0)" "(1 + 2 :: nat) = Suc (Suc (Suc 0))"
    "(7 + 2 :: nat) = Suc (Suc (Suc (Suc (Suc (Suc (Suc (Suc (Suc 0))))))))" by simp_all
  have bits: "bits_loop (0 + 2) 0 0 1 0 = Some 1" "bits_loop (1 + 2) 1 1 1 0 = Some 2" "bits_loop (7 + 2) 0 7 1 0 = Some 255"
    unfolding n bits_loop.simps by simp_all
  have parts: "str_split (CHR '','') ''0'' = [''0'']" "str_split (CHR '','') ''1'' = [''1'']" "str_split (CHR '','') ''*'' = [''*'']"
    by simp_all
  note step = field_parts.simps st r and_ends.simps prod.case Field.select_convs Field.update_convs bits option.case
  show "cron_field ''0'' 0 59 [] 0 = Some (Inr \<lparr> fd_bits = 1, fd_any = False \<rparr>)"
    "cron_field ''0'' 0 23 [] 0 = Some (Inr \<lparr> fd_bits = 1, fd_any = False \<rparr>)"
    "cron_field ''1'' 1 31 [] 0 = Some (Inr \<lparr> fd_bits = 2, fd_any = False \<rparr>)"
    "cron_field ''1'' 1 12 MONTHS 1 = Some (Inr \<lparr> fd_bits = 2, fd_any = False \<rparr>)"
    "cron_field ''*'' 0 7 WEEKDAYS 0 = Some (Inr \<lparr> fd_bits = 255, fd_any = True \<rparr>)"
    unfolding cron_field_def parts step by simp_all
qed

lemma yearly_parts: "parse_fields [''0'', ''0'', ''1'', ''1'', ''*''] = Some (Inr yearly)"
  by (simp add: parse_fields_def yearly_fields in_context_def yearly_def Let_def fd_matches_bit del: One_nat_def)

lemma yearly_first: "next_local_after thirty_days yearly (- 1000000000) = Some (Some 0)"
  unfolding next_local_after_def Let_def
  by (subst next_local_loop.simps) (simp add: thirty_days_def yearly_def day_of_secs_def SEARCH_YEARS_def
    day_matches_def hour_of_def minute_of_def second_of_def fd_matches_bit)

lemma yearly_read: "CronSchedule_parse thirty_days (- 1000000000) ''0 0 1 1 *'' = Some (Inr yearly)"
  by (simp add: CronSchedule_parse_def yearly_words yearly_parts yearly_text yearly_first)

lemma yearly_fit: "steps_fit ''0 0 1 1 *''"
  by (simp add: steps_fit_def yearly_words yearly_text field_steps_fit_def part_step_def)

lemma yearly_matches: "cron_matches thirty_days yearly 0"
  by (simp add: cron_matches_def thirty_days_def yearly_def day_of_secs_def
    day_matches_def hour_of_def minute_of_def second_of_def fd_matches_bit)
text \<open>
  C23: Reading an expression ends, whatever the text, and so does the search for the next time of a
  schedule.  What the search returns is the first second after the given time that the schedule
  matches; nothing is returned only when it matches no time up to five years on (or the calendar ends
  before).  A schedule that was read from an expression matches exactly the seconds the text names:
  those where every field, taken as its comma separated stars, values and ranges with their steps,
  names the second, minute, hour, month and day (for steps that do not wrap \<open>u32\<close>).
\<close>

theorem cron_next_exact:
  assumes "calendar_sane cal"
  shows "(\<exists>p. CronSchedule_parse cal probe expression = Some p)
         \<and> (\<exists>r. next_local_after cal s after = Some r
             \<and> first_match cal s (cal_year cal (day_of_secs (after div 1000000000)) + SEARCH_YEARS) (after div 1000000000 + 1) r)
         \<and> (CronSchedule_parse cal probe expression = Some (Inr s) \<and> steps_fit expression \<longrightarrow>
             (\<forall>t. cron_matches cal s t \<longleftrightarrow> expression_names cal expression t))"
proof (intro conjI)
  show "\<exists>r. next_local_after cal s after = Some r
             \<and> first_match cal s (cal_year cal (day_of_secs (after div 1000000000)) + SEARCH_YEARS) (after div 1000000000 + 1) r"
    by (rule next_local_after_exact [OF assms]) blast
qed (auto simp: CronSchedule_parse_ends [OF assms] CronSchedule_parse_read)

theorem cron_next_exact_witness:
  "next_local_after thirty_days every_minute 0 = Some (Some 60)
   \<and> CronSchedule_parse thirty_days (- 1000000000) ''0 0 1 1 *'' = Some (Inr yearly)
   \<and> expression_names thirty_days ''0 0 1 1 *'' 0"
proof -
  have named: "expression_names thirty_days ''0 0 1 1 *'' 0"
    using cron_next_exact [OF thirty_days_sane, where expression = "''0 0 1 1 *''" and s = yearly and probe = "- 1000000000"]
      yearly_read yearly_fit yearly_matches by blast
  obtain r where r: "next_local_after thirty_days every_minute 0 = Some r" "first_match thirty_days every_minute 5 1 r"
    using conjunct1 [OF conjunct2 [OF cron_next_exact [OF thirty_days_sane, where s = every_minute and after = 0]]]
    by (auto simp: thirty_days_def day_of_secs_def SEARCH_YEARS_def)
  have year: "cal_year thirty_days (day_of_secs 60) \<le> 5" by (simp add: thirty_days_def day_of_secs_def)
  have no: "\<not> cron_matches thirty_days every_minute v" if "1 \<le> v" "v < 60" for v
  proof -
    have "v mod 60 = v" using that by simp
    then have "second_of v \<noteq> 0" "second_of v < 60" using that by (simp_all add: second_of_def)
    then show ?thesis by (simp add: cron_matches_def every_minute_def Let_def fd_matches_bit bit_1_iff)
  qed
  have "r = Some 60"
  proof (cases r)
    case None
    then show ?thesis using r(2) every_minute_matches year thirty_days_reaches by (auto simp: first_match_def)
  next
    case (Some u)
    then have "\<not> u < 60" "\<not> 60 < u" using r(2) no every_minute_matches by (auto simp: first_match_def)
    then show ?thesis using Some by simp
  qed
  then show ?thesis using r(1) named yearly_read by simp
qed

text \<open>
  C24: The scheduled instants of a window come in order, inside the window and within the limit,
  each the instant of a matching local time.  In a zone of one offset no scheduled instant of a
  window of at most five years is missing, but for the later ones when the answer says that some
  were left out, as long as the calendar has dates for the years around the window.
\<close>

theorem cron_between_exact:
  assumes "calendar_sane cal"
  shows "\<exists>ts left. between cal tz s after until most = Some (ts, left)
     \<and> sorted_wrt (<) ts \<and> length ts \<le> most \<and> (left \<longrightarrow> length ts = most)
     \<and> (\<forall>u \<in> set ts. after < u \<and> u \<le> until \<and> scheduled cal tz s u)
     \<and> (fixed_offset tz off
         \<and> calendar_reaches cal (local_year cal off after) (local_year cal off until + SEARCH_YEARS + 1)
         \<and> local_year cal off until \<le> local_year cal off after + SEARCH_YEARS \<longrightarrow>
        (\<forall>u. scheduled cal tz s u \<and> after < u \<and> u \<le> until \<longrightarrow> u \<in> set ts \<or> (left \<and> (\<forall>w \<in> set ts. w < u))))"
proof -
  obtain ts left where ts: "between_loop most cal tz s after until = Some (ts, left)"
      "length ts \<le> most" "left \<longrightarrow> length ts = most" "sorted_wrt (<) ts"
      "\<forall>u \<in> set ts. after < u \<and> u \<le> until \<and> scheduled cal tz s u"
    using between_loop_sound [OF assms] by metis
  have "u \<in> set ts \<or> (left \<and> (\<forall>w \<in> set ts. w < u))"
    if "fixed_offset tz off" "calendar_reaches cal (local_year cal off after) (local_year cal off until + SEARCH_YEARS + 1)"
       "local_year cal off until \<le> local_year cal off after + SEARCH_YEARS" "scheduled cal tz s u" "after < u" "u \<le> until" for u
    using between_loop_complete [OF assms that(1,2,3) _ ts(1) that(4,5,6)] that(5,6) by simp
  then show ?thesis using ts unfolding between_def by blast
qed

theorem cron_between_exact_witness:
  "\<exists>ts left. between thirty_days utc every_minute 0 60000000000 5 = Some (ts, left)
     \<and> sorted_wrt (<) ts \<and> length ts \<le> 5 \<and> 60000000000 \<in> set ts"
proof -
  obtain ts left where ts: "between thirty_days utc every_minute 0 60000000000 5 = Some (ts, left)"
      "sorted_wrt (<) ts" "length ts \<le> 5" "left \<longrightarrow> length ts = 5"
      "\<forall>u \<in> set ts. 0 < u \<and> u \<le> 60000000000 \<and> scheduled thirty_days utc every_minute u"
      "60000000000 \<in> set ts \<or> (left \<and> (\<forall>w \<in> set ts. w < 60000000000))"
  proof -
    have "scheduled thirty_days utc every_minute 60000000000"
      using every_minute_matches by (auto simp: scheduled_fixed [OF utc_fixed] intro: exI [of _ 60])
    moreover have "local_year thirty_days 0 60000000000 \<le> local_year thirty_days 0 0 + SEARCH_YEARS"
      by (simp add: local_year_def thirty_days_def day_of_secs_def SEARCH_YEARS_def)
    moreover note cron_between_exact [OF thirty_days_sane, of utc every_minute 0 60000000000 5 0]
    ultimately show thesis
      by (elim exE conjE) (rule that; simp add: utc_fixed thirty_days_reaches; drule spec [of _ 60000000000]; simp)
  qed
  moreover have "\<not> (left \<and> (\<forall>w \<in> set ts. w < 60000000000))"
  proof
    assume l: "left \<and> (\<forall>w \<in> set ts. w < 60000000000)"
    then obtain w where w: "w \<in> set ts" using ts(4) by (cases ts) auto
    then obtain t where "cron_matches thirty_days every_minute t" "w = t * 1000000000"
      using ts(5) by (auto simp: scheduled_fixed [OF utc_fixed])
    moreover have "0 < t" "t < 60" using ts(5) l w calculation(2) by auto
    then have "second_of t \<noteq> 0" "second_of t < 60" by (simp_all add: second_of_def)
    ultimately show False by (simp add: cron_matches_def every_minute_def Let_def fd_matches_bit bit_1_iff)
  qed
  ultimately show ?thesis by blast
qed

end
