(* ===== verification/Budget_Config.thy ===== *)
theory Budget_Config
  imports Rating
begin

text \<open>
  \<open>crates/application/src/budget/config.rs\<close>: the alert and stop settings of a scope, the budget
  book a control plane publishes and the budget it delivers for one tenant.  Paths are strings.
\<close>

definition PERIOD_CALENDAR_MONTH_UTC :: string where
  "PERIOD_CALENDAR_MONTH_UTC = ''calendar_month_utc''"

record BudgetLimits =
  bl_soft_limit_micros :: "nat option"
  bl_alert_thresholds_percent :: "nat list"
  bl_hard_limit_micros :: "nat option"

fun thresholds_check :: "string \<Rightarrow> nat \<Rightarrow> nat list \<Rightarrow> string + unit" where
  "thresholds_check what previous [] = Inr ()"
| "thresholds_check what previous (p # ps) =
     (if p = 0 \<or> p > 1000
      then Inl (what @ '': alert thresholds must be within 1..=1000 percent, got '' @ show_nat p)
      else if p \<le> previous
      then Inl (what @ '': alert_thresholds_percent must be strictly increasing'')
      else thresholds_check what p ps)"

definition BudgetLimits_validate :: "BudgetLimits \<Rightarrow> string \<Rightarrow> string + unit" where
  "BudgetLimits_validate l what =
     (if bl_alert_thresholds_percent l \<noteq> [] \<and> bl_soft_limit_micros l = None
      then Inl (what @ '': alert_thresholds_percent needs soft_limit_micros (alerts and the hard limit are separate settings)'')
      else and_then (thresholds_check what 0 (bl_alert_thresholds_percent l)) (\<lambda>_.
        try_each (\<lambda>v. if int v > i64_max
                      then Inl (what @ '': limits must be at most '' @ show_nat (nat i64_max))
                      else Inr ())
          (concat (map (case_option [] (\<lambda>v. [v])) [bl_soft_limit_micros l, bl_hard_limit_micros l]))))"

record FunctionBudgetConfig =
  fbc_function_id :: FunctionId
  fbc_soft_limit_micros :: "nat option"
  fbc_alert_thresholds_percent :: "nat list"
  fbc_hard_limit_micros :: "nat option"

definition fbc_limits :: "FunctionBudgetConfig \<Rightarrow> BudgetLimits" where
  "fbc_limits f = \<lparr> bl_soft_limit_micros = fbc_soft_limit_micros f,
     bl_alert_thresholds_percent = fbc_alert_thresholds_percent f,
     bl_hard_limit_micros = fbc_hard_limit_micros f \<rparr>"

record TenantBudgetConfig =
  tbc_tenant_id :: TenantId
  tbc_soft_limit_micros :: "nat option"
  tbc_alert_thresholds_percent :: "nat list"
  tbc_hard_limit_micros :: "nat option"
  tbc_functions :: "FunctionBudgetConfig list"

definition tbc_limits :: "TenantBudgetConfig \<Rightarrow> BudgetLimits" where
  "tbc_limits t = \<lparr> bl_soft_limit_micros = tbc_soft_limit_micros t,
     bl_alert_thresholds_percent = tbc_alert_thresholds_percent t,
     bl_hard_limit_micros = tbc_hard_limit_micros t \<rparr>"

record BudgetBook =
  bb_tenants :: "TenantBudgetConfig list"
  bb_default_tenant :: "BudgetLimits option"

fun functions_check :: "TenantId \<Rightarrow> FunctionId btreeset \<Rightarrow> FunctionBudgetConfig list \<Rightarrow> string + unit" where
  "functions_check t seen [] = Inr ()"
| "functions_check t seen (f # fs) =
     (if bt_contains_key seen (fbc_function_id f)
      then Inl (''budget: function '' @ as_str (fbc_function_id f) @ '' of tenant '' @ as_str t @ '' is listed twice'')
      else and_then (BudgetLimits_validate (fbc_limits f) (''budget function '' @ as_str (fbc_function_id f)))
        (\<lambda>_. functions_check t (bt_insert (fbc_function_id f) () seen) fs))"

fun tenants_check :: "TenantId btreeset \<Rightarrow> TenantBudgetConfig list \<Rightarrow> string + unit" where
  "tenants_check seen [] = Inr ()"
| "tenants_check seen (t # ts) =
     (if bt_contains_key seen (tbc_tenant_id t)
      then Inl (''budget: tenant '' @ as_str (tbc_tenant_id t) @ '' is listed twice'')
      else and_then (BudgetLimits_validate (tbc_limits t) (''budget tenant '' @ as_str (tbc_tenant_id t)))
        (\<lambda>_. and_then (functions_check (tbc_tenant_id t) bt_empty (tbc_functions t))
          (\<lambda>_. tenants_check (bt_insert (tbc_tenant_id t) () seen) ts)))"

definition BudgetBook_validate :: "BudgetBook \<Rightarrow> string + unit" where
  "BudgetBook_validate b =
     and_then (tenants_check bt_empty (bb_tenants b)) (\<lambda>_.
       case bb_default_tenant b of
         None \<Rightarrow> Inr ()
       | Some d \<Rightarrow> BudgetLimits_validate d ''budget default_tenant'')"

record BudgetConfig =
  bc_enabled :: bool
  bc_period :: string
  bc_file :: "string option"
  bc_tenants :: "TenantBudgetConfig list"
  bc_default_tenant :: "BudgetLimits option"
  bc_reservation_slack_ms :: nat
  bc_expiry_grace_seconds :: nat
  bc_max_unsettled_age_seconds :: nat
  bc_settle_batch :: nat

definition BudgetConfig_default :: BudgetConfig where
  "BudgetConfig_default = \<lparr> bc_enabled = False, bc_period = PERIOD_CALENDAR_MONTH_UTC,
     bc_file = None, bc_tenants = [], bc_default_tenant = None, bc_reservation_slack_ms = 250,
     bc_expiry_grace_seconds = 30, bc_max_unsettled_age_seconds = 30, bc_settle_batch = 500 \<rparr>"

definition bc_publishes :: "BudgetConfig \<Rightarrow> bool" where
  "bc_publishes c \<longleftrightarrow> bc_enabled c \<or> bc_file c \<noteq> None \<or> bc_tenants c \<noteq> [] \<or> bc_default_tenant c \<noteq> None"

definition inline_book :: "BudgetConfig \<Rightarrow> BudgetBook" where
  "inline_book c = \<lparr> bb_tenants = bc_tenants c, bb_default_tenant = bc_default_tenant c \<rparr>"

definition BudgetConfig_validate :: "BudgetConfig \<Rightarrow> string + unit" where
  "BudgetConfig_validate c =
     (if bc_period c \<noteq> PERIOD_CALENDAR_MONTH_UTC
      then Inl (''[budget] period must be \"'' @ PERIOD_CALENDAR_MONTH_UTC @ ''\", got \"'' @ bc_period c @ ''\"'')
      else if bc_file c \<noteq> None \<and> (bc_tenants c \<noteq> [] \<or> bc_default_tenant c \<noteq> None)
      then Inl ''[budget] set either file or inline tenants / default_tenant, not both''
      else and_then (BudgetBook_validate (inline_book c)) (\<lambda>_.
        if bc_max_unsettled_age_seconds c = 0
        then Inl ''[budget] max_unsettled_age_seconds must be >= 1''
        else if bc_settle_batch c = 0 then Inl ''[budget] settle_batch must be >= 1''
        else Inr ()))"

section \<open>Delivered budgets\<close>

record FunctionBudget =
  fb_function_id :: FunctionId
  fb_limits :: BudgetLimits

record TenantBudget =
  tb_tenant_id :: TenantId
  tb_period :: string
  tb_currency :: string
  tb_price_table_version :: string
  tb_limits :: BudgetLimits
  tb_functions :: "FunctionBudget list"

definition tb_function :: "TenantBudget \<Rightarrow> FunctionId \<Rightarrow> BudgetLimits option" where
  "tb_function b i = map_option fb_limits (find (\<lambda>f. fb_function_id f = i) (tb_functions b))"

definition budget_for :: "BudgetBook \<Rightarrow> TenantId \<Rightarrow> string \<Rightarrow> string \<Rightarrow> string \<Rightarrow> TenantBudget option" where
  "budget_for book tenant period currency price_table_version =
     map_option
       (\<lambda>(limits, functions).
          \<lparr> tb_tenant_id = tenant, tb_period = period, tb_currency = currency,
            tb_price_table_version = price_table_version, tb_limits = limits, tb_functions = functions \<rparr>)
       (case find (\<lambda>t. tbc_tenant_id t = tenant) (bb_tenants book) of
          Some t \<Rightarrow> Some (tbc_limits t,
            map (\<lambda>f. \<lparr> fb_function_id = fbc_function_id f, fb_limits = fbc_limits f \<rparr>) (tbc_functions t))
        | None \<Rightarrow> map_option (\<lambda>d. (d, [])) (bb_default_tenant book))"

section \<open>What validation guarantees\<close>

lemma thresholds_check_ok:
  "thresholds_check what previous ps = Inr u \<longleftrightarrow>
     (\<forall>p\<in>set ps. previous < p \<and> p \<le> 1000) \<and> sorted_wrt (<) ps"
proof (induction ps arbitrary: previous)
  case (Cons p ps)
  then show ?case by (auto 0 3)
qed simp

lemma BudgetLimits_validate_ok:
  assumes "BudgetLimits_validate l what = Inr u"
  shows "\<forall>v. bl_soft_limit_micros l = Some v \<longrightarrow> int v \<le> i64_max"
    and "\<forall>v. bl_hard_limit_micros l = Some v \<longrightarrow> int v \<le> i64_max"
    and "sorted_wrt (<) (bl_alert_thresholds_percent l)"
    and "\<forall>p\<in>set (bl_alert_thresholds_percent l). 0 < p \<and> p \<le> 1000"
  using assms
  by (auto simp: BudgetLimits_validate_def thresholds_check_ok try_each_ok
      split: if_splits option.splits)

end
