(* ===== verification/Budget_Store.thy ===== *)
theory Budget_Store
  imports Budget_Config BTree_Sum Sql_Env
begin

text \<open>
  \<open>crates/application/src/budget/store.rs\<close>: the budget database.  Each table is a map from its
  primary key, each statement its effect on the tables; an \<open>INTEGER\<close> column holds an \<open>i64\<close>.  An
  addition that leaves that range makes SQLite store a floating-point number instead; the model does
  not follow the database there and says so with the outcome \<open>Tx_Overflow\<close>.  The textual form of an
  instant and of a list of attempt ids comes from libraries and is the parameter \<open>Codec\<close>; what goes
  wrong outside the statements (a held connection, a disk error) is the parameter \<open>SqlEnv\<close>.  The
  store is one with a file: a dropped connection is opened again on the same rows.  Without a file
  (\<open>path\<close> is \<open>None\<close>: nothing is persisted) it would be opened on an empty database, which is not modelled.
\<close>

record Codec =
  cx_ts :: "Timestamp \<Rightarrow> string"
  cx_parse_ts :: "string \<Rightarrow> Timestamp option"
  cx_attempts_json :: "string list \<Rightarrow> string"
  cx_attempts_parse :: "string \<Rightarrow> string list option"

definition TENANT_SCOPE :: string where
  "TENANT_SCOPE = []"

definition to_i64 :: "nat \<Rightarrow> int" where
  "to_i64 v = min (int v) i64_max"

text \<open>The cast \<open>as u64\<close> of an \<open>i64\<close>.\<close>

definition as_u64 :: "int \<Rightarrow> nat" where
  "as_u64 x = nat (x mod 2 ^ 64)"

datatype ReservationState = RVS_Reserved | RVS_Settled | RVS_Released | RVS_Expired

fun ReservationState_as_str :: "ReservationState \<Rightarrow> string" where
  "ReservationState_as_str RVS_Reserved = ''reserved''"
| "ReservationState_as_str RVS_Settled = ''settled''"
| "ReservationState_as_str RVS_Released = ''released''"
| "ReservationState_as_str RVS_Expired = ''expired''"

definition ReservationState_parse :: "string \<Rightarrow> ReservationState" where
  "ReservationState_parse raw =
     (if raw = ''settled'' then RVS_Settled
      else if raw = ''released'' then RVS_Released
      else if raw = ''expired'' then RVS_Expired
      else RVS_Reserved)"

datatype BudgetScope = BSC_Tenant | BSC_Function

fun BudgetScope_as_str :: "BudgetScope \<Rightarrow> string" where
  "BudgetScope_as_str BSC_Tenant = ''tenant''"
| "BudgetScope_as_str BSC_Function = ''function''"

record LimitRefusal =
  lr_scope :: BudgetScope
  lr_hard_limit_micros :: nat
  lr_committed_micros :: nat
  lr_requested_micros :: nat

record NewReservation =
  nr_reservation_id :: string
  nr_tenant_id :: string
  nr_function_id :: string
  nr_invocation_id :: string
  nr_period :: string
  nr_amount_micros :: nat
  nr_expires_at :: Timestamp
  nr_price_table_version :: string
  nr_config_generation :: nat
  nr_tenant_limit :: "nat option"
  nr_function_limit :: "nat option"

datatype ReserveOutcome = RO_Reserved | RO_Exists ReservationState | RO_Refused LimitRefusal

record Settlement =
  se_measured_micros :: nat
  se_complete :: bool

record AlertFired =
  af_tenant_id :: string
  af_scope :: string
  af_period :: string
  af_threshold_percent :: nat
  af_soft_limit_micros :: nat
  af_consumed_micros :: nat
  af_fired_at :: Timestamp

record Transition =
  tr_state :: ReservationState
  tr_changed :: bool
  tr_alerts :: "AlertFired list"

record AlertLimits =
  al_tenant :: "BudgetLimits option"
  al_function :: "BudgetLimits option"

definition AlertLimits_default :: AlertLimits where
  "AlertLimits_default = \<lparr> al_tenant = None, al_function = None \<rparr>"

record ReservationRow =
  rw_reservation_id :: string
  rw_tenant_id :: string
  rw_function_id :: string
  rw_invocation_id :: string
  rw_period :: string
  rw_state :: ReservationState
  rw_reserved_micros :: nat
  rw_settled_micros :: nat
  rw_held_micros :: nat
  rw_overrun_micros :: nat
  rw_created_at :: "Timestamp option"
  rw_expires_at :: "Timestamp option"
  rw_finished_at :: "Timestamp option"
  rw_finished_complete :: "bool option"
  rw_attempts :: "string list"
  rw_journal_mark :: "nat option"

record ScopeTotals =
  sc_tenant_id :: string
  sc_scope :: string
  sc_period :: string
  sc_reserved_micros :: nat
  sc_settled_micros :: nat
  sc_held_micros :: nat
  sc_overrun_micros :: nat
  sc_active :: nat
  sc_reservations :: nat
  sc_settlements :: nat
  sc_releases :: nat
  sc_expiries :: nat
  sc_refusals :: nat

definition sc_committed :: "ScopeTotals \<Rightarrow> nat" where
  "sc_committed t = sat_add64 (sat_add64 (sc_reserved_micros t) (sc_settled_micros t)) (sc_held_micros t)"

definition sc_consumed :: "ScopeTotals \<Rightarrow> nat" where
  "sc_consumed t = sat_add64 (sc_settled_micros t) (sc_held_micros t)"

record StoreStats =
  ss_active_reservations :: nat
  ss_finished_unsettled :: nat
  ss_oldest_finished_unsettled_at :: "Timestamp option"

section \<open>Tables\<close>

record reservation_rec =
  rr_reservation_id :: string
  rr_tenant_id :: string
  rr_function_id :: string
  rr_invocation_id :: string
  rr_period :: string
  rr_state :: string
  rr_reserved_micros :: int
  rr_settled_micros :: int
  rr_held_micros :: int
  rr_overrun_micros :: int
  rr_price_table_version :: string
  rr_config_generation :: int
  rr_created_at :: string
  rr_expires_at :: string
  rr_finished_at :: "string option"
  rr_finished_complete :: "int option"
  rr_attempts :: "string option"
  rr_journal_mark :: "int option"
  rr_closed_at :: "string option"
  rr_close_reason :: "string option"

record totals_rec =
  tt_reserved_micros :: int
  tt_settled_micros :: int
  tt_held_micros :: int
  tt_overrun_micros :: int
  tt_active :: int
  tt_reservations :: int
  tt_settlements :: int
  tt_releases :: int
  tt_expiries :: int
  tt_refusals :: int

record alert_rec =
  ar_soft_limit_micros :: int
  ar_consumed_micros :: int
  ar_fired_at :: string

type_synonym scope_key = "string \<times> string \<times> string"

record BudgetDb =
  db_reservations :: "(string, reservation_rec) btreemap"
  db_totals :: "(scope_key, totals_rec) btreemap"
  db_alerts :: "(scope_key \<times> nat, alert_rec) btreemap"

definition BudgetDb_empty :: BudgetDb where
  "BudgetDb_empty = \<lparr> db_reservations = bt_empty, db_totals = bt_empty, db_alerts = bt_empty \<rparr>"

text \<open>The column defaults of a totals row.\<close>

definition totals_zero :: totals_rec where
  "totals_zero = \<lparr> tt_reserved_micros = 0, tt_settled_micros = 0, tt_held_micros = 0,
     tt_overrun_micros = 0, tt_active = 0, tt_reservations = 0, tt_settlements = 0, tt_releases = 0,
     tt_expiries = 0, tt_refusals = 0 \<rparr>"

definition totals_at :: "BudgetDb \<Rightarrow> scope_key \<Rightarrow> totals_rec" where
  "totals_at db k = (case bt_get (db_totals db) k of Some t \<Rightarrow> t | None \<Rightarrow> totals_zero)"

definition totals_row :: "BudgetDb \<Rightarrow> string \<Rightarrow> string \<Rightarrow> string \<Rightarrow> ScopeTotals" where
  "totals_row db tenant scope period =
     (let t = totals_at db (tenant, scope, period)
      in \<lparr> sc_tenant_id = tenant, sc_scope = scope, sc_period = period,
           sc_reserved_micros = as_u64 (tt_reserved_micros t),
           sc_settled_micros = as_u64 (tt_settled_micros t),
           sc_held_micros = as_u64 (tt_held_micros t),
           sc_overrun_micros = as_u64 (tt_overrun_micros t),
           sc_active = as_u64 (tt_active t),
           sc_reservations = as_u64 (tt_reservations t),
           sc_settlements = as_u64 (tt_settlements t),
           sc_releases = as_u64 (tt_releases t),
           sc_expiries = as_u64 (tt_expiries t),
           sc_refusals = as_u64 (tt_refusals t) \<rparr>)"

definition read_row :: "Codec \<Rightarrow> reservation_rec \<Rightarrow> ReservationRow" where
  "read_row cx r =
     \<lparr> rw_reservation_id = rr_reservation_id r, rw_tenant_id = rr_tenant_id r,
       rw_function_id = rr_function_id r, rw_invocation_id = rr_invocation_id r,
       rw_period = rr_period r, rw_state = ReservationState_parse (rr_state r),
       rw_reserved_micros = as_u64 (rr_reserved_micros r),
       rw_settled_micros = as_u64 (rr_settled_micros r),
       rw_held_micros = as_u64 (rr_held_micros r),
       rw_overrun_micros = as_u64 (rr_overrun_micros r),
       rw_created_at = cx_parse_ts cx (rr_created_at r),
       rw_expires_at = cx_parse_ts cx (rr_expires_at r),
       rw_finished_at = Option.bind (rr_finished_at r) (cx_parse_ts cx),
       rw_finished_complete = map_option (\<lambda>v. v \<noteq> 0) (rr_finished_complete r),
       rw_attempts =
         (case Option.bind (rr_attempts r) (cx_attempts_parse cx) of Some a \<Rightarrow> a | None \<Rightarrow> []),
       rw_journal_mark = map_option as_u64 (rr_journal_mark r) \<rparr>"

definition get_row :: "Codec \<Rightarrow> BudgetDb \<Rightarrow> string \<Rightarrow> ReservationRow option" where
  "get_row cx db i = map_option (read_row cx) (bt_get (db_reservations db) i)"

section \<open>Transactions\<close>

datatype 'a tx = Tx_Ok 'a BudgetDb | Tx_Check string | Tx_Overflow

fun tx_bind :: "'a tx \<Rightarrow> ('a \<Rightarrow> BudgetDb \<Rightarrow> 'b tx) \<Rightarrow> 'b tx" where
  "tx_bind (Tx_Ok x db) f = f x db"
| "tx_bind (Tx_Check c) f = Tx_Check c"
| "tx_bind Tx_Overflow f = Tx_Overflow"

definition in_i64 :: "int \<Rightarrow> bool" where
  "in_i64 x \<longleftrightarrow> - i64_max - 1 \<le> x \<and> x \<le> i64_max"

record Delta =
  dl_reserved :: int
  dl_settled :: int
  dl_held :: int
  dl_overrun :: int
  dl_active :: int
  dl_reservations :: int
  dl_settlements :: int
  dl_releases :: int
  dl_expiries :: int
  dl_refusals :: int

definition Delta_default :: Delta where
  "Delta_default = \<lparr> dl_reserved = 0, dl_settled = 0, dl_held = 0, dl_overrun = 0, dl_active = 0,
     dl_reservations = 0, dl_settlements = 0, dl_releases = 0, dl_expiries = 0, dl_refusals = 0 \<rparr>"

definition totals_plus :: "totals_rec \<Rightarrow> Delta \<Rightarrow> totals_rec" where
  "totals_plus t d =
     \<lparr> tt_reserved_micros = tt_reserved_micros t + dl_reserved d,
       tt_settled_micros = tt_settled_micros t + dl_settled d,
       tt_held_micros = tt_held_micros t + dl_held d,
       tt_overrun_micros = tt_overrun_micros t + dl_overrun d,
       tt_active = tt_active t + dl_active d,
       tt_reservations = tt_reservations t + dl_reservations d,
       tt_settlements = tt_settlements t + dl_settlements d,
       tt_releases = tt_releases t + dl_releases d,
       tt_expiries = tt_expiries t + dl_expiries d,
       tt_refusals = tt_refusals t + dl_refusals d \<rparr>"

definition totals_columns :: "totals_rec \<Rightarrow> int list" where
  "totals_columns t =
     [tt_reserved_micros t, tt_settled_micros t, tt_held_micros t, tt_overrun_micros t, tt_active t,
      tt_reservations t, tt_settlements t, tt_releases t, tt_expiries t, tt_refusals t]"

text \<open>The columns with a \<open>CHECK (... >= 0)\<close>.\<close>

definition totals_checked :: "totals_rec \<Rightarrow> (string \<times> int) list" where
  "totals_checked t =
     [(''reserved_micros'', tt_reserved_micros t), (''settled_micros'', tt_settled_micros t),
      (''held_micros'', tt_held_micros t), (''overrun_micros'', tt_overrun_micros t),
      (''active'', tt_active t)]"

definition apply_delta :: "scope_key \<Rightarrow> Delta \<Rightarrow> BudgetDb \<Rightarrow> unit tx" where
  "apply_delta k d db =
     (let t = totals_plus (totals_at db k) d
      in if \<not> list_all in_i64 (totals_columns t) then Tx_Overflow
         else case find (\<lambda>(_, v). v < 0) (totals_checked t) of
                Some (c, _) \<Rightarrow> Tx_Check c
              | None \<Rightarrow> Tx_Ok () (db\<lparr> db_totals := bt_insert k t (db_totals db) \<rparr>))"

fun fire_loop ::
  "Codec \<Rightarrow> scope_key \<Rightarrow> nat \<Rightarrow> nat \<Rightarrow> Timestamp \<Rightarrow> nat list \<Rightarrow> BudgetDb \<Rightarrow> AlertFired list \<times> BudgetDb" where
  "fire_loop cx k soft consumed now [] db = ([], db)"
| "fire_loop cx k soft consumed now (p # ps) db =
     (if consumed * 100 < soft * p then fire_loop cx k soft consumed now ps db
      else case bt_get (db_alerts db) (k, p) of
             Some _ \<Rightarrow> fire_loop cx k soft consumed now ps db
           | None \<Rightarrow>
               let a = \<lparr> ar_soft_limit_micros = to_i64 soft, ar_consumed_micros = to_i64 consumed,
                         ar_fired_at = cx_ts cx now \<rparr>;
                   (fired, db') = fire_loop cx k soft consumed now ps
                     (db\<lparr> db_alerts := bt_insert (k, p) a (db_alerts db) \<rparr>)
               in (\<lparr> af_tenant_id = fst k, af_scope = fst (snd k), af_period = snd (snd k),
                     af_threshold_percent = p, af_soft_limit_micros = soft,
                     af_consumed_micros = consumed, af_fired_at = now \<rparr> # fired, db'))"

definition fire_alerts ::
  "Codec \<Rightarrow> scope_key \<Rightarrow> BudgetLimits option \<Rightarrow> Timestamp \<Rightarrow> BudgetDb \<Rightarrow> AlertFired list \<times> BudgetDb" where
  "fire_alerts cx k limits now db =
     (case limits of
        None \<Rightarrow> ([], db)
      | Some l \<Rightarrow>
          (case bl_soft_limit_micros l of
             None \<Rightarrow> ([], db)
           | Some soft \<Rightarrow>
               if bl_alert_thresholds_percent l = [] then ([], db)
               else fire_loop cx k soft (sc_consumed (totals_row db (fst k) (fst (snd k)) (snd (snd k))))
                      now (bl_alert_thresholds_percent l) db))"

section \<open>Operations\<close>

record BudgetStore =
  bs_db :: BudgetDb
  bs_open :: bool
  bs_last_error :: "string option"
  bs_forced_unavailable :: bool

text \<open>
  \<open>BudgetStore::open\<close> of a new database; \<open>e\<close> is the error of opening it, if any.
\<close>

definition BudgetStore_open :: "string option \<Rightarrow> BudgetStore" where
  "BudgetStore_open e = \<lparr> bs_db = BudgetDb_empty, bs_open = (e = None), bs_last_error = e,
     bs_forced_unavailable = False \<rparr>"

definition bs_force_unavailable :: "bool \<Rightarrow> BudgetStore \<Rightarrow> BudgetStore" where
  "bs_force_unavailable unavailable st = st\<lparr> bs_forced_unavailable := unavailable \<rparr>"

text \<open>
  \<open>with_tx\<close>: \<open>None\<close> when a column would leave the range the model follows.  A fault (an error of
  SQLite, and whether it drops the connection) rolls the transaction back.
\<close>

definition with_tx ::
  "SqlEnv \<Rightarrow> (BudgetDb \<Rightarrow> 'a tx) \<Rightarrow> BudgetStore \<Rightarrow> ((string + 'a) \<times> BudgetStore) option" where
  "with_tx env f st =
     (if bs_forced_unavailable st then Some (Inl ''budget store is unavailable (forced)'', st)
      else if sq_locked env then
        let msg = busy_message ''budget store''
        in Some (Inl msg, st\<lparr> bs_last_error := Some msg \<rparr>)
      else if \<not> bs_open st \<and> sq_open_error env \<noteq> None then
        Some (Inl (the (sq_open_error env)), st\<lparr> bs_last_error := sq_open_error env \<rparr>)
      else
        let st = st\<lparr> bs_open := True \<rparr>
        in case sq_fault env of
             Some (msg, drops) \<Rightarrow>
               Some (Inl msg, st\<lparr> bs_open := \<not> drops, bs_last_error := Some msg \<rparr>)
           | None \<Rightarrow>
               (case f (bs_db st) of
                  Tx_Ok v db \<Rightarrow> Some (Inr v, st\<lparr> bs_db := db, bs_last_error := None \<rparr>)
                | Tx_Check c \<Rightarrow>
                    Some (Inl (sq_check_message env c),
                          st\<lparr> bs_last_error := Some (sq_check_message env c) \<rparr>)
                | Tx_Overflow \<Rightarrow> None))"

text \<open>The first limit that does not admit the amount.\<close>

fun first_refusal :: "nat \<Rightarrow> (BudgetScope \<times> ScopeTotals \<times> nat option) list \<Rightarrow> LimitRefusal option" where
  "first_refusal amount [] = None"
| "first_refusal amount ((scope, totals, limit) # rest) =
     (case limit of
        None \<Rightarrow> first_refusal amount rest
      | Some l \<Rightarrow>
          if sat_add64 (sc_committed totals) amount > l
          then Some \<lparr> lr_scope = scope, lr_hard_limit_micros = l,
                      lr_committed_micros = sc_committed totals, lr_requested_micros = amount \<rparr>
          else first_refusal amount rest)"

definition reserve_tx :: "Codec \<Rightarrow> NewReservation \<Rightarrow> Timestamp \<Rightarrow> BudgetDb \<Rightarrow> ReserveOutcome tx" where
  "reserve_tx cx r now db =
     (case get_row cx db (nr_reservation_id r) of
        Some existing \<Rightarrow> Tx_Ok (RO_Exists (rw_state existing)) db
      | None \<Rightarrow>
          let tenant_key = (nr_tenant_id r, TENANT_SCOPE, nr_period r);
              function_key = (nr_tenant_id r, nr_function_id r, nr_period r)
          in case first_refusal (nr_amount_micros r)
                    [(BSC_Tenant, totals_row db (nr_tenant_id r) TENANT_SCOPE (nr_period r), nr_tenant_limit r),
                     (BSC_Function, totals_row db (nr_tenant_id r) (nr_function_id r) (nr_period r), nr_function_limit r)] of
               Some refusal \<Rightarrow>
                 let d = Delta_default\<lparr> dl_refusals := 1 \<rparr>
                 in tx_bind (apply_delta tenant_key d db) (\<lambda>_ db.
                      tx_bind (apply_delta function_key d db) (\<lambda>_ db. Tx_Ok (RO_Refused refusal) db))
             | None \<Rightarrow>
                 let row = \<lparr> rr_reservation_id = nr_reservation_id r, rr_tenant_id = nr_tenant_id r,
                             rr_function_id = nr_function_id r, rr_invocation_id = nr_invocation_id r,
                             rr_period = nr_period r, rr_state = ''reserved'',
                             rr_reserved_micros = to_i64 (nr_amount_micros r), rr_settled_micros = 0,
                             rr_held_micros = 0, rr_overrun_micros = 0,
                             rr_price_table_version = nr_price_table_version r,
                             rr_config_generation = to_i64 (nr_config_generation r),
                             rr_created_at = cx_ts cx now, rr_expires_at = cx_ts cx (nr_expires_at r),
                             rr_finished_at = None, rr_finished_complete = None, rr_attempts = None,
                             rr_journal_mark = None, rr_closed_at = None, rr_close_reason = None \<rparr>;
                     db = db\<lparr> db_reservations := bt_insert (nr_reservation_id r) row (db_reservations db) \<rparr>;
                     d = Delta_default\<lparr> dl_reserved := to_i64 (nr_amount_micros r), dl_active := 1,
                           dl_reservations := 1 \<rparr>
                 in tx_bind (apply_delta tenant_key d db) (\<lambda>_ db.
                      tx_bind (apply_delta function_key d db) (\<lambda>_ db. Tx_Ok RO_Reserved db)))"

definition reserve ::
  "Codec \<Rightarrow> SqlEnv \<Rightarrow> NewReservation \<Rightarrow> Timestamp \<Rightarrow> BudgetStore \<Rightarrow> ((string + ReserveOutcome) \<times> BudgetStore) option" where
  "reserve cx env r now st = with_tx env (reserve_tx cx r now) st"

fun recheck_refusal :: "ReservationRow \<Rightarrow> (BudgetScope \<times> ScopeTotals \<times> nat option) list \<Rightarrow> LimitRefusal option" where
  "recheck_refusal row [] = None"
| "recheck_refusal row ((scope, totals, limit) # rest) =
     (case limit of
        None \<Rightarrow> recheck_refusal row rest
      | Some l \<Rightarrow>
          if sc_committed totals > l
          then Some \<lparr> lr_scope = scope, lr_hard_limit_micros = l,
                      lr_committed_micros = sc_committed totals - rw_reserved_micros row,
                      lr_requested_micros = rw_reserved_micros row \<rparr>
          else recheck_refusal row rest)"

definition recheck ::
  "Codec \<Rightarrow> SqlEnv \<Rightarrow> string \<Rightarrow> nat option \<Rightarrow> nat option \<Rightarrow> BudgetStore
     \<Rightarrow> ((string + (LimitRefusal + ReservationState)) \<times> BudgetStore) option" where
  "recheck cx env i tenant_limit function_limit st = with_tx env (\<lambda>db.
     case get_row cx db i of
       None \<Rightarrow> Tx_Ok (Inr RVS_Released) db
     | Some row \<Rightarrow>
         if rw_state row \<noteq> RVS_Reserved then Tx_Ok (Inr (rw_state row)) db
         else case recheck_refusal row
                [(BSC_Tenant, totals_row db (rw_tenant_id row) TENANT_SCOPE (rw_period row), tenant_limit),
                 (BSC_Function, totals_row db (rw_tenant_id row) (rw_function_id row) (rw_period row), function_limit)] of
                Some refusal \<Rightarrow> Tx_Ok (Inl refusal) db
              | None \<Rightarrow> Tx_Ok (Inr RVS_Reserved) db) st"

definition finish_tx ::
  "Codec \<Rightarrow> string \<Rightarrow> string list \<Rightarrow> bool \<Rightarrow> nat option \<Rightarrow> Timestamp \<Rightarrow> BudgetDb \<Rightarrow> bool tx" where
  "finish_tx cx i attempts complete' journal_mark now db =
     (case bt_get (db_reservations db) i of
        Some row \<Rightarrow>
          if rr_state row = ''reserved'' \<and> rr_finished_at row = None
          then Tx_Ok True (db\<lparr> db_reservations := bt_insert i
                 (row\<lparr> rr_finished_at := Some (cx_ts cx now),
                       rr_finished_complete := Some (if complete' then 1 else 0),
                       rr_attempts := Some (cx_attempts_json cx attempts),
                       rr_journal_mark := map_option to_i64 journal_mark \<rparr>) (db_reservations db) \<rparr>)
          else Tx_Ok False db
      | None \<Rightarrow> Tx_Ok False db)"

definition bs_finish ::
  "Codec \<Rightarrow> SqlEnv \<Rightarrow> string \<Rightarrow> string list \<Rightarrow> bool \<Rightarrow> nat option \<Rightarrow> Timestamp \<Rightarrow> BudgetStore
     \<Rightarrow> ((string + bool) \<times> BudgetStore) option" where
  "bs_finish cx env i attempts complete' journal_mark now st =
     with_tx env (finish_tx cx i attempts complete' journal_mark now) st"

definition unchanged :: "ReservationState \<Rightarrow> Transition" where
  "unchanged s = \<lparr> tr_state = s, tr_changed = False, tr_alerts = [] \<rparr>"

type_synonym plan = "ReservationRow \<Rightarrow> (ReservationState \<times> nat \<times> nat \<times> string) option"

text \<open>
  The \<open>UPDATE ... WHERE state = 'reserved'\<close> changes one row exactly when the column holds that text.
\<close>

definition transition_tx ::
  "Codec \<Rightarrow> string \<Rightarrow> Timestamp \<Rightarrow> AlertLimits \<Rightarrow> plan \<Rightarrow> BudgetDb \<Rightarrow> Transition tx" where
  "transition_tx cx i now alerts plan db =
     (case bt_get (db_reservations db) i of
        None \<Rightarrow> Tx_Ok (unchanged RVS_Released) db
      | Some rec \<Rightarrow>
          let row = read_row cx rec
          in if rw_state row \<noteq> RVS_Reserved then Tx_Ok (unchanged (rw_state row)) db
             else case plan row of
               None \<Rightarrow> Tx_Ok (unchanged (rw_state row)) db
             | Some (to, settled, held, reason) \<Rightarrow>
                 let overrun = settled - rw_reserved_micros row
                 in if rr_state rec \<noteq> ''reserved'' then Tx_Ok (unchanged (rw_state row)) db
                    else
                      let db = db\<lparr> db_reservations := bt_insert i
                            (rec\<lparr> rr_state := ReservationState_as_str to, rr_settled_micros := to_i64 settled,
                                  rr_held_micros := to_i64 held, rr_overrun_micros := to_i64 overrun,
                                  rr_closed_at := Some (cx_ts cx now), rr_close_reason := Some reason \<rparr>)
                            (db_reservations db) \<rparr>;
                          d = Delta_default\<lparr> dl_reserved := - to_i64 (rw_reserved_micros row),
                                dl_settled := to_i64 settled, dl_held := to_i64 held,
                                dl_overrun := to_i64 overrun, dl_active := - 1,
                                dl_settlements := of_bool (to = RVS_Settled),
                                dl_releases := of_bool (to = RVS_Released),
                                dl_expiries := of_bool (to = RVS_Expired) \<rparr>;
                          tenant_key = (rw_tenant_id row, TENANT_SCOPE, rw_period row);
                          function_key = (rw_tenant_id row, rw_function_id row, rw_period row)
                      in tx_bind (apply_delta tenant_key d db) (\<lambda>_ db.
                           tx_bind (apply_delta function_key d db) (\<lambda>_ db.
                             let (fired, db) = fire_alerts cx tenant_key (al_tenant alerts) now db;
                                 (fired', db) = fire_alerts cx function_key (al_function alerts) now db
                             in Tx_Ok \<lparr> tr_state = to, tr_changed = True, tr_alerts = fired @ fired' \<rparr> db)))"

definition transition ::
  "Codec \<Rightarrow> SqlEnv \<Rightarrow> string \<Rightarrow> Timestamp \<Rightarrow> AlertLimits \<Rightarrow> plan \<Rightarrow> BudgetStore
     \<Rightarrow> ((string + Transition) \<times> BudgetStore) option" where
  "transition cx env i now alerts plan st = with_tx env (transition_tx cx i now alerts plan) st"

definition settle_plan :: "Settlement \<Rightarrow> plan" where
  "settle_plan s row =
     Some (RVS_Settled, se_measured_micros s,
       if se_complete s then 0 else rw_reserved_micros row - se_measured_micros s,
       if se_complete s then ''settled'' else ''settled_incomplete'')"

definition release_plan :: plan where
  "release_plan row =
     (if rw_finished_at row = None then Some (RVS_Released, 0, 0, ''released'') else None)"

definition expire_plan :: "Timestamp \<Rightarrow> plan" where
  "expire_plan now row =
     (if rw_finished_at row = None \<and> opt_is_some_and (\<lambda>e. e \<le> now) (rw_expires_at row)
      then Some (RVS_Expired, 0, rw_reserved_micros row, ''expired'') else None)"

definition settle ::
  "Codec \<Rightarrow> SqlEnv \<Rightarrow> string \<Rightarrow> Settlement \<Rightarrow> Timestamp \<Rightarrow> AlertLimits \<Rightarrow> BudgetStore
     \<Rightarrow> ((string + Transition) \<times> BudgetStore) option" where
  "settle cx env i s now alerts st = transition cx env i now alerts (settle_plan s) st"

definition bs_release ::
  "Codec \<Rightarrow> SqlEnv \<Rightarrow> string \<Rightarrow> Timestamp \<Rightarrow> BudgetStore \<Rightarrow> ((string + Transition) \<times> BudgetStore) option" where
  "bs_release cx env i now st = transition cx env i now AlertLimits_default release_plan st"

definition bs_expire ::
  "Codec \<Rightarrow> SqlEnv \<Rightarrow> string \<Rightarrow> Timestamp \<Rightarrow> AlertLimits \<Rightarrow> BudgetStore
     \<Rightarrow> ((string + Transition) \<times> BudgetStore) option" where
  "bs_expire cx env i now alerts st = transition cx env i now alerts (expire_plan now) st"

section \<open>Queries\<close>

definition bs_get ::
  "Codec \<Rightarrow> SqlEnv \<Rightarrow> string \<Rightarrow> BudgetStore \<Rightarrow> ((string + ReservationRow option) \<times> BudgetStore) option" where
  "bs_get cx env i st = with_tx env (\<lambda>db. Tx_Ok (get_row cx db i) db) st"

text \<open>
  \<open>rows\<close>: the selected rows in the order of a text column; rows that tie keep the order of the key.
\<close>

definition bs_rows ::
  "Codec \<Rightarrow> SqlEnv \<Rightarrow> (reservation_rec \<Rightarrow> bool) \<Rightarrow> (reservation_rec \<Rightarrow> string) \<Rightarrow> nat option \<Rightarrow> BudgetStore
     \<Rightarrow> ((string + ReservationRow list) \<times> BudgetStore) option" where
  "bs_rows cx env sql_where order limit st = with_tx env (\<lambda>db.
     let rows = sort_key order (filter sql_where (bt_values (db_reservations db)));
         rows = (case limit of None \<Rightarrow> rows | Some n \<Rightarrow> take n rows)
     in Tx_Ok (map (read_row cx) rows) db) st"

definition finished_unsettled ::
  "Codec \<Rightarrow> SqlEnv \<Rightarrow> nat \<Rightarrow> BudgetStore \<Rightarrow> ((string + ReservationRow list) \<times> BudgetStore) option" where
  "finished_unsettled cx env limit st =
     bs_rows cx env (\<lambda>r. rr_state r = ''reserved'' \<and> rr_finished_at r \<noteq> None)
       (\<lambda>r. case rr_finished_at r of Some t \<Rightarrow> t | None \<Rightarrow> []) (Some limit) st"

definition due_for_expiry ::
  "Codec \<Rightarrow> SqlEnv \<Rightarrow> Timestamp \<Rightarrow> nat \<Rightarrow> BudgetStore \<Rightarrow> ((string + ReservationRow list) \<times> BudgetStore) option" where
  "due_for_expiry cx env now limit st =
     bs_rows cx env
       (\<lambda>r. rr_state r = ''reserved'' \<and> rr_finished_at r = None \<and> rr_expires_at r \<le> cx_ts cx now)
       rr_expires_at (Some limit) st"

definition reservations_of ::
  "Codec \<Rightarrow> SqlEnv \<Rightarrow> string \<Rightarrow> string \<Rightarrow> BudgetStore \<Rightarrow> ((string + ReservationRow list) \<times> BudgetStore) option" where
  "reservations_of cx env tenant period st =
     bs_rows cx env (\<lambda>r. rr_tenant_id r = tenant \<and> rr_period r = period) rr_created_at None st"

definition bs_totals ::
  "SqlEnv \<Rightarrow> string \<Rightarrow> string \<Rightarrow> BudgetStore \<Rightarrow> ((string + ScopeTotals list) \<times> BudgetStore) option" where
  "bs_totals env tenant period st = with_tx env (\<lambda>db.
     let scopes = [s. (t, s, p) \<leftarrow> bt_keys (db_totals db), t = tenant \<and> p = period]
     in Tx_Ok ((if TENANT_SCOPE \<notin> set scopes then [totals_row db tenant TENANT_SCOPE period] else [])
               @ map (\<lambda>s. totals_row db tenant s period) scopes) db) st"

definition tenant_totals ::
  "SqlEnv \<Rightarrow> string \<Rightarrow> BudgetStore \<Rightarrow> ((string + ScopeTotals list) \<times> BudgetStore) option" where
  "tenant_totals env period st = with_tx env (\<lambda>db.
     Tx_Ok [totals_row db t TENANT_SCOPE period. (t, s, p) \<leftarrow> bt_keys (db_totals db),
              s = TENANT_SCOPE \<and> p = period] db) st"

definition bs_alerts ::
  "Codec \<Rightarrow> SqlEnv \<Rightarrow> string \<Rightarrow> string \<Rightarrow> BudgetStore \<Rightarrow> ((string + AlertFired list) \<times> BudgetStore) option" where
  "bs_alerts cx env tenant period st = with_tx env (\<lambda>db.
     Tx_Ok [\<lparr> af_tenant_id = tenant, af_scope = s, af_period = period, af_threshold_percent = th,
               af_soft_limit_micros = as_u64 (ar_soft_limit_micros a),
               af_consumed_micros = as_u64 (ar_consumed_micros a),
               af_fired_at = (case cx_parse_ts cx (ar_fired_at a) of Some x \<Rightarrow> x | None \<Rightarrow> 0) \<rparr>.
            (((t, s, p), th), a) \<leftarrow> bt_entries (db_alerts db), t = tenant \<and> p = period] db) st"

definition bs_stats :: "Codec \<Rightarrow> SqlEnv \<Rightarrow> BudgetStore \<Rightarrow> ((string + StoreStats) \<times> BudgetStore) option" where
  "bs_stats cx env st = with_tx env (\<lambda>db.
     let reserved = filter (\<lambda>r. rr_state r = ''reserved'') (bt_values (db_reservations db));
         finished = [t. Some t \<leftarrow> map rr_finished_at reserved]
     in Tx_Ok \<lparr> ss_active_reservations = length reserved, ss_finished_unsettled = length finished,
                ss_oldest_finished_unsettled_at =
                  Option.bind (if finished = [] then None else Some (Min (set finished))) (cx_parse_ts cx) \<rparr> db) st"

text \<open>\<open>verify_totals\<close>: the stored totals against the sums over the reservation rows.\<close>

definition in_scope :: "scope_key \<Rightarrow> reservation_rec \<Rightarrow> bool" where
  "in_scope k r \<longleftrightarrow> (case k of (tenant, scope, period) \<Rightarrow>
     rr_tenant_id r = tenant \<and> rr_period r = period \<and> (scope = [] \<or> rr_function_id r = scope))"

definition row_sum :: "(reservation_rec \<Rightarrow> int) \<Rightarrow> scope_key \<Rightarrow> BudgetDb \<Rightarrow> int" where
  "row_sum col k db = sum_list (map col (filter (in_scope k) (bt_values (db_reservations db))))"

definition wanted_totals :: "BudgetDb \<Rightarrow> scope_key \<Rightarrow> int list" where
  "wanted_totals db k =
     [row_sum (\<lambda>r. if rr_state r = ''reserved'' then rr_reserved_micros r else 0) k db,
      row_sum rr_settled_micros k db, row_sum rr_held_micros k db,
      row_sum (\<lambda>r. if rr_state r = ''reserved'' then 1 else 0) k db]"

definition stored_totals :: "totals_rec \<Rightarrow> int list" where
  "stored_totals t = [tt_reserved_micros t, tt_settled_micros t, tt_held_micros t, tt_active t]"

definition show_int :: "int \<Rightarrow> string" where
  "show_int x = (if x < 0 then CHR ''-'' # show_nat (nat (- x)) else show_nat (nat x))"

definition show_ints :: "int list \<Rightarrow> string" where
  "show_ints xs = ''['' @ str_join '', '' (map show_int xs) @ '']''"

definition totals_mismatch :: "BudgetDb \<Rightarrow> string option" where
  "totals_mismatch db =
     map_option
       (\<lambda>((tenant, scope, period), t).
          ''totals '' @ tenant @ ''/'' @ scope @ ''/'' @ period @ '': stored '' @ show_ints (stored_totals t)
          @ '' (reserved, settled, held, active) != rows ''
          @ show_ints (wanted_totals db (tenant, scope, period)))
       (find (\<lambda>(k, t). stored_totals t \<noteq> wanted_totals db k) (bt_entries (db_totals db)))"

definition verify_totals :: "SqlEnv \<Rightarrow> BudgetStore \<Rightarrow> ((string + unit) \<times> BudgetStore) option" where
  "verify_totals env st =
     map_option
       (apfst (\<lambda>r. and_then r (\<lambda>mismatch. case mismatch of Some m \<Rightarrow> Inl m | None \<Rightarrow> Inr ())))
       (with_tx env (\<lambda>db. Tx_Ok (totals_mismatch db) db) st)"

end
