(* ===== verification/Budget_Books.thy ===== *)
theory Budget_Books
  imports Budget_Store
begin

text \<open>
  The books of the budget store: the totals of a scope are the sums over the reservations in it,
  and each reservation keeps what it measured and held within what it reserved and overran.  The
  locale \<open>budget_invariant\<close> says what an invariant of the database owes to every transaction; its
  instances carry over to every sequence of operations.
\<close>

section \<open>Operations as a sequence\<close>

datatype bud_op =
    BO_Reserve NewReservation
  | BO_Recheck string "nat option" "nat option"
  | BO_Finish string "string list" bool "nat option"
  | BO_Settle string Settlement AlertLimits
  | BO_Release string
  | BO_Expire string AlertLimits
  | BO_Force bool

datatype bud_reply =
    RP_Reserve "string + ReserveOutcome"
  | RP_Recheck "string + (LimitRefusal + ReservationState)"
  | RP_Finish "string + bool"
  | RP_Transition "string + Transition"
  | RP_Unit

fun bud_step :: "Codec \<Rightarrow> SqlEnv \<Rightarrow> Timestamp \<Rightarrow> bud_op \<Rightarrow> BudgetStore \<Rightarrow> (bud_reply \<times> BudgetStore) option" where
  "bud_step cx env now (BO_Reserve r) st = map_option (apfst RP_Reserve) (reserve cx env r now st)"
| "bud_step cx env now (BO_Recheck i t_lim f_lim) st = map_option (apfst RP_Recheck) (recheck cx env i t_lim f_lim st)"
| "bud_step cx env now (BO_Finish i as c m) st = map_option (apfst RP_Finish) (bs_finish cx env i as c m now st)"
| "bud_step cx env now (BO_Settle i s al) st = map_option (apfst RP_Transition) (settle cx env i s now al st)"
| "bud_step cx env now (BO_Release i) st = map_option (apfst RP_Transition) (bs_release cx env i now st)"
| "bud_step cx env now (BO_Expire i al) st = map_option (apfst RP_Transition) (bs_expire cx env i now al st)"
| "bud_step cx env now (BO_Force b) st = Some (RP_Unit, bs_force_unavailable b st)"

type_synonym bud_call = "SqlEnv \<times> Timestamp \<times> bud_op"

fun bud_exec :: "Codec \<Rightarrow> bud_call list \<Rightarrow> BudgetStore \<Rightarrow> (bud_reply list \<times> BudgetStore) option" where
  "bud_exec cx [] st = Some ([], st)"
| "bud_exec cx ((env, now, op) # calls) st =
     (case bud_step cx env now op st of
        None \<Rightarrow> None
      | Some (reply, st') \<Rightarrow> map_option (apfst ((#) reply)) (bud_exec cx calls st'))"

lemma with_tx_cases:
  assumes "with_tx env f st = Some (res, st')"
  obtains "\<exists>e. res = Inl e" "bs_db st' = bs_db st"
  | v db where "res = Inr v" "f (bs_db st) = Tx_Ok v db" "bs_db st' = db"
  using assms by (auto simp: with_tx_def Let_def split: if_splits option.splits tx.splits prod.splits)

section \<open>Invariants of the database\<close>

locale budget_invariant =
  fixes cx :: Codec and allowed :: "bud_op \<Rightarrow> bool" and I :: "BudgetDb \<Rightarrow> bool"
  assumes reserve_inv: "I db \<Longrightarrow> allowed (BO_Reserve r) \<Longrightarrow> reserve_tx cx r now db = Tx_Ok out db' \<Longrightarrow> I db'"
    and finish_inv: "I db \<Longrightarrow> finish_tx cx i as c m now db = Tx_Ok b db' \<Longrightarrow> I db'"
    and settle_inv: "I db \<Longrightarrow> allowed (BO_Settle i s al) \<Longrightarrow> transition_tx cx i now al (settle_plan s) db = Tx_Ok t db' \<Longrightarrow> I db'"
    and release_inv: "I db \<Longrightarrow> transition_tx cx i now al release_plan db = Tx_Ok t db' \<Longrightarrow> I db'"
    and expire_inv: "I db \<Longrightarrow> transition_tx cx i now al (expire_plan now) db = Tx_Ok t db' \<Longrightarrow> I db'"
begin

lemma step_inv:
  assumes "I (bs_db st)" "allowed op" "bud_step cx env now op st = Some (reply, st')"
  shows "I (bs_db st')"
proof (cases op)
  case (BO_Reserve r)
  with assms(3) obtain res where "with_tx env (reserve_tx cx r now) st = Some (res, st')"
    by (auto simp: reserve_def apfst_def map_prod_def)
  then show ?thesis
    by (rule with_tx_cases) (use assms BO_Reserve reserve_inv in auto)
next
  case (BO_Recheck i t_lim f_lim)
  with assms(3) obtain res where "recheck cx env i t_lim f_lim st = Some (res, st')"
    by (auto simp: apfst_def map_prod_def)
  then show ?thesis
    unfolding recheck_def
    by (rule with_tx_cases) (use assms in \<open>auto split: option.splits if_splits\<close>)
next
  case (BO_Finish i as c m)
  with assms(3) obtain res where "with_tx env (finish_tx cx i as c m now) st = Some (res, st')"
    by (auto simp: bs_finish_def apfst_def map_prod_def)
  then show ?thesis
    by (rule with_tx_cases) (use assms finish_inv in auto)
next
  case (BO_Settle i s al)
  with assms(3) obtain res where "with_tx env (transition_tx cx i now al (settle_plan s)) st = Some (res, st')"
    by (auto simp: settle_def transition_def apfst_def map_prod_def)
  then show ?thesis
    by (rule with_tx_cases) (use assms BO_Settle settle_inv in auto)
next
  case (BO_Release i)
  with assms(3) obtain res where "with_tx env (transition_tx cx i now AlertLimits_default release_plan) st = Some (res, st')"
    by (auto simp: bs_release_def transition_def apfst_def map_prod_def)
  then show ?thesis
    by (rule with_tx_cases) (use assms release_inv in auto)
next
  case (BO_Expire i al)
  with assms(3) obtain res where "with_tx env (transition_tx cx i now al (expire_plan now)) st = Some (res, st')"
    by (auto simp: bs_expire_def transition_def apfst_def map_prod_def)
  then show ?thesis
    by (rule with_tx_cases) (use assms expire_inv in auto)
next
  case (BO_Force b)
  then show ?thesis using assms by (auto simp: bs_force_unavailable_def)
qed

lemma exec_keeps:
  "I (bs_db st) \<Longrightarrow> \<forall>(_, _, op)\<in>set calls. allowed op \<Longrightarrow> bud_exec cx calls st = Some (replies, st')
     \<Longrightarrow> I (bs_db st')"
proof (induction calls arbitrary: st replies)
  case (Cons call calls)
  obtain env now op where call: "call = (env, now, op)" by (cases call)
  obtain reply st1 replies1 where step: "bud_step cx env now op st = Some (reply, st1)"
    and rest: "bud_exec cx calls st1 = Some (replies1, st')"
    using Cons.prems(3) by (auto simp: call apfst_def map_prod_def split: option.splits)
  have "I (bs_db st1)" using step_inv [OF Cons.prems(1) _ step] Cons.prems(2) by (simp add: call)
  then show ?case using Cons.IH [OF _ _ rest] Cons.prems(2) by simp
qed simp

end

section \<open>Sums over the reservations\<close>

definition scoped :: "(reservation_rec \<Rightarrow> int) \<Rightarrow> scope_key \<Rightarrow> reservation_rec \<Rightarrow> int" where
  "scoped col k r = (if in_scope k r then col r else 0)"

lemma read_row_simps [simp]:
  "rw_state (read_row cx r) = ReservationState_parse (rr_state r)"
  "rw_reserved_micros (read_row cx r) = as_u64 (rr_reserved_micros r)"
  "rw_tenant_id (read_row cx r) = rr_tenant_id r" "rw_function_id (read_row cx r) = rr_function_id r"
  "rw_period (read_row cx r) = rr_period r" "rw_reservation_id (read_row cx r) = rr_reservation_id r"
  by (simp_all add: read_row_def)

lemma row_sum_keys:
  "row_sum col k db =
     (\<Sum>i\<in>set (bt_keys (db_reservations db)). scoped col k (the (bt_get (db_reservations db) i)))"
proof -
  let ?m = "db_reservations db"
  have "sum_list (map col (filter (in_scope k) xs)) = sum_list (map (scoped col k) xs)" for xs
    by (induction xs) (simp_all add: scoped_def)
  then have "row_sum col k db = sum_list (map (scoped col k) (bt_values ?m))"
    by (simp add: row_sum_def)
  also have "map (scoped col k) (bt_values ?m) = map (\<lambda>i. scoped col k (the (bt_get ?m i))) (bt_keys ?m)"
    by (auto simp: bt_values_def bt_keys_def comp_def simp flip: bt_get_entries)
  finally show ?thesis by (simp add: sum_list_distinct_conv_sum_set)
qed

lemma row_sum_insert:
  assumes "db_reservations db' = bt_insert i r (db_reservations db)"
  shows "row_sum col k db' = row_sum col k db + scoped col k r
    - (case bt_get (db_reservations db) i of None \<Rightarrow> 0 | Some old \<Rightarrow> scoped col k old)"
proof -
  let ?m = "db_reservations db" and ?S = "set (bt_keys (db_reservations db)) - {i}"
  have "row_sum col k db' = scoped col k r + (\<Sum>j\<in>?S. scoped col k (the (bt_get ?m j)))"
    unfolding row_sum_keys assms bt_keys_insert by (simp add: sum.insert_remove)
  moreover have "row_sum col k db = (\<Sum>j\<in>?S. scoped col k (the (bt_get ?m j)))
      + (case bt_get ?m i of None \<Rightarrow> 0 | Some old \<Rightarrow> scoped col k old)"
  proof (cases "bt_get ?m i")
    case None
    then have "?S = set (bt_keys ?m)" by (auto simp: bt_keys_iff)
    then show ?thesis using None by (simp add: row_sum_keys)
  next
    case (Some old)
    then have "i \<in> set (bt_keys ?m)" by (simp add: bt_keys_iff)
    then show ?thesis using Some by (simp add: row_sum_keys sum.remove [of _ i])
  qed
  ultimately show ?thesis by simp
qed

lemma row_sum_same:
  "db_reservations db' = db_reservations db \<Longrightarrow> row_sum col k db' = row_sum col k db"
  by (simp add: row_sum_def)

text \<open>A row of a named function is in exactly two scopes.\<close>

lemma in_scope_keys:
  assumes "rr_function_id r \<noteq> []"
  shows "in_scope k r \<longleftrightarrow> k = (rr_tenant_id r, TENANT_SCOPE, rr_period r)
    \<or> k = (rr_tenant_id r, rr_function_id r, rr_period r)"
  using assms by (cases k) (auto simp: in_scope_def TENANT_SCOPE_def)

section \<open>Effects of the statements\<close>

lemma apply_delta_ok:
  assumes "apply_delta k d db = Tx_Ok u db'"
  shows "db_reservations db' = db_reservations db" "db_alerts db' = db_alerts db"
    and "totals_at db' k' = (if k' = k then totals_plus (totals_at db k) d else totals_at db k')"
    and "list_all in_i64 (totals_columns (totals_plus (totals_at db k) d))"
  using assms
  by (auto simp: apply_delta_def totals_at_def Let_def split: if_splits option.splits)

lemma two_deltas:
  assumes "tx_bind (apply_delta k d db) (\<lambda>_ db. tx_bind (apply_delta k' d db) f) = Tx_Ok x db'"
    and "k \<noteq> k'"
  obtains db'' where "f () db'' = Tx_Ok x db'"
    and "db_reservations db'' = db_reservations db" "db_alerts db'' = db_alerts db"
    and "\<And>j. totals_at db'' j = (if j = k \<or> j = k' then totals_plus (totals_at db j) d else totals_at db j)"
proof -
  obtain db1 where 1: "apply_delta k d db = Tx_Ok () db1"
    and rest: "tx_bind (apply_delta k' d db1) f = Tx_Ok x db'"
    using assms(1) by (cases "apply_delta k d db") auto
  obtain db2 where 2: "apply_delta k' d db1 = Tx_Ok () db2" and f: "f () db2 = Tx_Ok x db'"
    using rest by (cases "apply_delta k' d db1") auto
  show thesis
    by (rule that [OF f]) (use apply_delta_ok [OF 1] apply_delta_ok [OF 2] assms(2) in auto)
qed

lemma fire_loop_tables:
  "db_reservations (snd (fire_loop cx k soft c now ps db)) = db_reservations db"
  "db_totals (snd (fire_loop cx k soft c now ps db)) = db_totals db"
  by (induction ps arbitrary: db) (auto simp: Let_def case_prod_beta split: option.split)

lemma fire_alerts_tables:
  "db_reservations (snd (fire_alerts cx k l now db)) = db_reservations db"
  "db_totals (snd (fire_alerts cx k l now db)) = db_totals db"
  by (auto simp: fire_alerts_def fire_loop_tables split: option.split)

section \<open>The books\<close>

lemma ReservationState_round [simp]: "ReservationState_parse (ReservationState_as_str s) = s"
  by (cases s) (simp_all add: ReservationState_parse_def)

lemma ReservationState_as_str_reserved [simp]: "ReservationState_as_str s = ''reserved'' \<longleftrightarrow> s = RVS_Reserved"
  by (cases s) simp_all

lemma as_u64_id [simp]: "0 \<le> x \<Longrightarrow> x \<le> i64_max \<Longrightarrow> int (as_u64 x) = x"
  by (simp add: as_u64_def i64_max_def)

lemma to_i64_bounds [simp]: "0 \<le> to_i64 v" "to_i64 v \<le> i64_max"
  by (simp_all add: to_i64_def i64_max_def)

lemma to_i64_as_u64 [simp]: "0 \<le> x \<Longrightarrow> x \<le> i64_max \<Longrightarrow> to_i64 (as_u64 x) = x"
  by (simp add: to_i64_def)

definition row_ok :: "string \<Rightarrow> reservation_rec \<Rightarrow> bool" where
  "row_ok i r \<longleftrightarrow>
     rr_reservation_id r = i \<and> rr_function_id r \<noteq> []
     \<and> (\<exists>s. rr_state r = ReservationState_as_str s)
     \<and> 0 \<le> rr_reserved_micros r \<and> rr_reserved_micros r \<le> i64_max
     \<and> 0 \<le> rr_settled_micros r \<and> 0 \<le> rr_held_micros r \<and> 0 \<le> rr_overrun_micros r
     \<and> (rr_state r = ''reserved'' \<longrightarrow>
          rr_settled_micros r = 0 \<and> rr_held_micros r = 0 \<and> rr_overrun_micros r = 0)
     \<and> rr_settled_micros r + rr_held_micros r \<le> rr_reserved_micros r + rr_overrun_micros r"

definition books_ok :: "BudgetDb \<Rightarrow> bool" where
  "books_ok db \<longleftrightarrow>
     (\<forall>i r. bt_get (db_reservations db) i = Some r \<longrightarrow> row_ok i r)
     \<and> (\<forall>k. stored_totals (totals_at db k) = wanted_totals db k
            \<and> tt_overrun_micros (totals_at db k) = row_sum rr_overrun_micros k db)"

lemma books_okD:
  assumes "books_ok db"
  shows "bt_get (db_reservations db) i = Some r \<Longrightarrow> row_ok i r"
    and "stored_totals (totals_at db k) = wanted_totals db k"
    and "tt_overrun_micros (totals_at db k) = row_sum rr_overrun_micros k db"
  using assms unfolding books_ok_def by blast+

lemma books_ok_verify:
  assumes "books_ok db"
  shows "totals_mismatch db = None"
proof -
  have "stored_totals t = wanted_totals db k" if "(k, t) \<in> set (bt_entries (db_totals db))" for k t
    using books_okD(2) [OF assms, of k] that by (simp add: totals_at_def flip: bt_get_entries)
  then show ?thesis by (auto simp: totals_mismatch_def find_None_iff)
qed

lemma books_ok_empty: "books_ok BudgetDb_empty"
  by (simp add: books_ok_def BudgetDb_empty_def totals_at_def totals_zero_def stored_totals_def
      wanted_totals_def row_sum_def bt_values_def bt_empty.rep_eq)

lemma books_ok_same_tables:
  assumes "books_ok db" "db_reservations db' = db_reservations db" "\<And>k. totals_at db' k = totals_at db k"
  shows "books_ok db'"
  using assms by (simp add: books_ok_def wanted_totals_def row_sum_same [of db' db])

text \<open>One reservation row is written and its two scopes move by the same amounts.\<close>

abbreviation open_amount :: "reservation_rec \<Rightarrow> int" where
  "open_amount r \<equiv> if rr_state r = ''reserved'' then rr_reserved_micros r else 0"

abbreviation open_count :: "reservation_rec \<Rightarrow> int" where
  "open_count r \<equiv> if rr_state r = ''reserved'' then 1 else 0"

abbreviation old_of :: "(reservation_rec \<Rightarrow> int) \<Rightarrow> reservation_rec option \<Rightarrow> int" where
  "old_of col old \<equiv> (case old of None \<Rightarrow> 0 | Some r \<Rightarrow> col r)"

lemma books_ok_write:
  assumes ok: "books_ok db"
    and new: "db_reservations db' = bt_insert i r (db_reservations db)" "row_ok i r"
    and old: "\<And>r'. bt_get (db_reservations db) i = Some r' \<Longrightarrow>
      rr_tenant_id r' = rr_tenant_id r \<and> rr_function_id r' = rr_function_id r \<and> rr_period r' = rr_period r"
    and totals: "\<And>k. totals_at db' k =
      (if k = (rr_tenant_id r, TENANT_SCOPE, rr_period r) \<or> k = (rr_tenant_id r, rr_function_id r, rr_period r)
       then totals_plus (totals_at db k) d else totals_at db k)"
    and moves: "dl_reserved d = open_amount r - old_of open_amount (bt_get (db_reservations db) i)"
      "dl_settled d = rr_settled_micros r - old_of rr_settled_micros (bt_get (db_reservations db) i)"
      "dl_held d = rr_held_micros r - old_of rr_held_micros (bt_get (db_reservations db) i)"
      "dl_overrun d = rr_overrun_micros r - old_of rr_overrun_micros (bt_get (db_reservations db) i)"
      "dl_active d = open_count r - old_of open_count (bt_get (db_reservations db) i)"
  shows "books_ok db'"
proof -
  let ?old = "bt_get (db_reservations db) i"
  have fn: "rr_function_id r \<noteq> []" using new(2) by (simp add: row_ok_def)
  have same: "in_scope k r' = in_scope k r" if "?old = Some r'" for k r'
    using old [OF that] by (simp add: in_scope_def split: prod.split)
  have sum: "row_sum col k db' = row_sum col k db
      + (if in_scope k r then col r - old_of col ?old else 0)" for col k
    using same by (simp add: row_sum_insert [OF new(1)] scoped_def split: option.split)
  have "stored_totals (totals_at db' k) = wanted_totals db' k
      \<and> tt_overrun_micros (totals_at db' k) = row_sum rr_overrun_micros k db'" for k
  proof -
    show ?thesis
      using books_okD(2,3) [OF ok, of k] totals [of k] in_scope_keys [OF fn, of k] moves
      by (simp add: stored_totals_def wanted_totals_def sum totals_plus_def)
  qed
  moreover have "row_ok j r'" if "bt_get (db_reservations db') j = Some r'" for j r'
    using that ok new by (auto simp: books_ok_def split: if_splits)
  ultimately show ?thesis by (simp add: books_ok_def)
qed

section \<open>Every transaction keeps the books\<close>

lemma scope_keys_differ: "f \<noteq> [] \<Longrightarrow> (t, TENANT_SCOPE, p) \<noteq> (t, f, p)"
  by (simp add: TENANT_SCOPE_def)

lemma reserve_tx_cases:
  assumes "reserve_tx cx r now db = Tx_Ok out db'" "nr_function_id r \<noteq> []"
  obtains (exists) s where "out = RO_Exists s" "db' = db"
  | (refused) l where "out = RO_Refused l" "db_reservations db' = db_reservations db" "db_alerts db' = db_alerts db"
      "\<And>k. totals_at db' k = (if k = (nr_tenant_id r, TENANT_SCOPE, nr_period r)
          \<or> k = (nr_tenant_id r, nr_function_id r, nr_period r)
        then totals_plus (totals_at db k) (Delta_default\<lparr> dl_refusals := 1 \<rparr>) else totals_at db k)"
  | (reserved) row where "out = RO_Reserved" "bt_get (db_reservations db) (nr_reservation_id r) = None"
      "first_refusal (nr_amount_micros r)
         [(BSC_Tenant, totals_row db (nr_tenant_id r) TENANT_SCOPE (nr_period r), nr_tenant_limit r),
          (BSC_Function, totals_row db (nr_tenant_id r) (nr_function_id r) (nr_period r), nr_function_limit r)] = None"
      "db_reservations db' = bt_insert (nr_reservation_id r) row (db_reservations db)"
      "db_alerts db' = db_alerts db"
      "rr_reservation_id row = nr_reservation_id r" "rr_tenant_id row = nr_tenant_id r"
      "rr_function_id row = nr_function_id r" "rr_period row = nr_period r" "rr_state row = ''reserved''"
      "rr_reserved_micros row = to_i64 (nr_amount_micros r)" "rr_settled_micros row = 0"
      "rr_held_micros row = 0" "rr_overrun_micros row = 0"
      "\<And>k. totals_at db' k = (if k = (nr_tenant_id r, TENANT_SCOPE, nr_period r)
          \<or> k = (nr_tenant_id r, nr_function_id r, nr_period r)
        then totals_plus (totals_at db k)
               (Delta_default\<lparr> dl_reserved := to_i64 (nr_amount_micros r), dl_active := 1, dl_reservations := 1 \<rparr>)
        else totals_at db k)"
proof -
  let ?tk = "(nr_tenant_id r, TENANT_SCOPE, nr_period r)"
  let ?fk = "(nr_tenant_id r, nr_function_id r, nr_period r)"
  let ?fr = "first_refusal (nr_amount_micros r)
     [(BSC_Tenant, totals_row db (nr_tenant_id r) TENANT_SCOPE (nr_period r), nr_tenant_limit r),
      (BSC_Function, totals_row db (nr_tenant_id r) (nr_function_id r) (nr_period r), nr_function_limit r)]"
  have keys: "?tk \<noteq> ?fk" by (rule scope_keys_differ [OF assms(2)])
  show thesis
  proof (cases "bt_get (db_reservations db) (nr_reservation_id r)")
    case (Some row)
    then show thesis using assms(1) by (intro exists) (auto simp: reserve_tx_def get_row_def)
  next
    case None
    show thesis
    proof (cases ?fr)
      case (Some l)
      let ?d = "Delta_default\<lparr> dl_refusals := 1 \<rparr>"
      have "tx_bind (apply_delta ?tk ?d db) (\<lambda>_ db. tx_bind (apply_delta ?fk ?d db)
          (\<lambda>_ db. Tx_Ok (RO_Refused l) db)) = Tx_Ok out db'"
        using assms(1) None Some by (simp add: reserve_tx_def get_row_def Let_def)
      then show thesis by (rule two_deltas [OF _ keys]) (auto intro: refused)
    next
      case fits: None
      let ?row = "\<lparr> rr_reservation_id = nr_reservation_id r, rr_tenant_id = nr_tenant_id r,
         rr_function_id = nr_function_id r, rr_invocation_id = nr_invocation_id r,
         rr_period = nr_period r, rr_state = ''reserved'',
         rr_reserved_micros = to_i64 (nr_amount_micros r), rr_settled_micros = 0,
         rr_held_micros = 0, rr_overrun_micros = 0,
         rr_price_table_version = nr_price_table_version r,
         rr_config_generation = to_i64 (nr_config_generation r),
         rr_created_at = cx_ts cx now, rr_expires_at = cx_ts cx (nr_expires_at r),
         rr_finished_at = None, rr_finished_complete = None, rr_attempts = None,
         rr_journal_mark = None, rr_closed_at = None, rr_close_reason = None \<rparr>"
      let ?db = "db\<lparr> db_reservations := bt_insert (nr_reservation_id r) ?row (db_reservations db) \<rparr>"
      let ?d = "Delta_default\<lparr> dl_reserved := to_i64 (nr_amount_micros r), dl_active := 1, dl_reservations := 1 \<rparr>"
      have "tx_bind (apply_delta ?tk ?d ?db) (\<lambda>_ db. tx_bind (apply_delta ?fk ?d db)
          (\<lambda>_ db. Tx_Ok RO_Reserved db)) = Tx_Ok out db'"
        using assms(1) None fits by (simp add: reserve_tx_def get_row_def Let_def)
      then show thesis
        by (rule two_deltas [OF _ keys])
          (rule reserved [OF _ None fits, of ?row]; simp add: totals_at_def)
    qed
  qed
qed

lemma books_ok_reserve:
  assumes "books_ok db" "reserve_tx cx r now db = Tx_Ok out db'" "nr_function_id r \<noteq> []"
  shows "books_ok db'"
  using assms(2,3)
proof (cases rule: reserve_tx_cases)
  case (refused l)
  have "wanted_totals db' k = wanted_totals db k" "row_sum rr_overrun_micros k db' = row_sum rr_overrun_micros k db" for k
    using refused(2) by (simp_all add: wanted_totals_def row_sum_def)
  moreover have "stored_totals (totals_at db' k) = stored_totals (totals_at db k)"
    "tt_overrun_micros (totals_at db' k) = tt_overrun_micros (totals_at db k)" for k
    using refused(4) [of k] by (simp_all add: stored_totals_def totals_plus_def Delta_default_def)
  ultimately show ?thesis
    using assms(1) refused(2) unfolding books_ok_def by simp
next
  case (reserved row)
  show ?thesis
    by (rule books_ok_write [OF assms(1) reserved(4)])
      (use reserved assms(3) in \<open>auto simp: row_ok_def Delta_default_def exI [of _ RVS_Reserved]\<close>)
qed (use assms(1) in simp)

lemma books_ok_finish:
  assumes "books_ok db" "finish_tx cx i as c m now db = Tx_Ok b db'"
  shows "books_ok db'"
proof (cases "db' = db")
  case False
  then obtain row row' where row: "bt_get (db_reservations db) i = Some row"
    and new: "db' = db\<lparr> db_reservations := bt_insert i row' (db_reservations db) \<rparr>"
    and row': "row' = row\<lparr> rr_finished_at := Some (cx_ts cx now),
      rr_finished_complete := Some (if c then 1 else 0),
      rr_attempts := Some (cx_attempts_json cx as), rr_journal_mark := map_option to_i64 m \<rparr>"
    using assms(2) by (auto simp: finish_tx_def split: option.splits if_splits)
  show ?thesis
    by (rule books_ok_write [OF assms(1), of db' i row' "Delta_default"])
      (use books_okD(1) [OF assms(1) row] in
        \<open>auto simp: new row row' row_ok_def totals_at_def totals_plus_def Delta_default_def\<close>)
qed (use assms(1) in simp)

text \<open>A plan closes the reservation and accounts for what it measured.\<close>

definition plan_ok :: "plan \<Rightarrow> bool" where
  "plan_ok plan \<longleftrightarrow> (\<forall>row to s h why. plan row = Some (to, s, h, why) \<longrightarrow>
     to \<noteq> RVS_Reserved \<and> s + h \<le> rw_reserved_micros row + (s - rw_reserved_micros row))"

lemma plans_ok [simp]: "plan_ok (settle_plan s)" "plan_ok release_plan" "plan_ok (expire_plan now)"
  by (auto simp: plan_ok_def settle_plan_def release_plan_def expire_plan_def split: if_splits)

lemma transition_tx_cases:
  assumes "transition_tx cx i now al plan db = Tx_Ok t db'" "books_ok db" "plan_ok plan"
  obtains (unchanged) "tr_changed t = False" "tr_alerts t = []" "db' = db"
  | (changed) row row' to s h why where "tr_changed t" "tr_state t = to"
      "bt_get (db_reservations db) i = Some row" "rr_state row = ''reserved''"
      "plan (read_row cx row) = Some (to, s, h, why)"
      "db_reservations db' = bt_insert i row' (db_reservations db)"
      "row' = row\<lparr> rr_state := ReservationState_as_str to, rr_settled_micros := to_i64 s,
         rr_held_micros := to_i64 h, rr_overrun_micros := to_i64 (s - as_u64 (rr_reserved_micros row)),
         rr_closed_at := Some (cx_ts cx now), rr_close_reason := Some why \<rparr>"
      "\<And>k. totals_at db' k = (if k = (rr_tenant_id row, TENANT_SCOPE, rr_period row)
          \<or> k = (rr_tenant_id row, rr_function_id row, rr_period row)
        then totals_plus (totals_at db k) (Delta_default\<lparr>
               dl_reserved := - rr_reserved_micros row, dl_settled := to_i64 s, dl_held := to_i64 h,
               dl_overrun := to_i64 (s - as_u64 (rr_reserved_micros row)), dl_active := - 1,
               dl_settlements := of_bool (to = RVS_Settled), dl_releases := of_bool (to = RVS_Released),
               dl_expiries := of_bool (to = RVS_Expired) \<rparr>)
        else totals_at db k)"
proof (cases "bt_get (db_reservations db) i")
  case None
  then show thesis using assms(1) by (intro unchanged) (auto simp: transition_tx_def unchanged_def)
next
  case (Some row)
  have ok: "row_ok i row" by (rule books_okD(1) [OF assms(2) Some])
  then have fn: "rr_function_id row \<noteq> []"
    and res: "0 \<le> rr_reserved_micros row" "rr_reserved_micros row \<le> i64_max" by (simp_all add: row_ok_def)
  let ?row = "read_row cx row"
  obtain s0 where s0: "rr_state row = ReservationState_as_str s0" using ok by (auto simp: row_ok_def)
  have state: "rw_state ?row = RVS_Reserved \<longleftrightarrow> rr_state row = ''reserved''"
    by (simp add: s0)
  show thesis
  proof (cases "rr_state row = ''reserved'' \<and> plan ?row \<noteq> None")
    case False
    then show thesis
      using assms(1) Some state
      by (intro unchanged) (auto simp: transition_tx_def Let_def unchanged_def split: if_splits option.splits)
  next
    case True
    then obtain to s h why where p: "plan ?row = Some (to, s, h, why)" by (cases "plan ?row") auto
    let ?row' = "row\<lparr> rr_state := ReservationState_as_str to, rr_settled_micros := to_i64 s,
         rr_held_micros := to_i64 h, rr_overrun_micros := to_i64 (s - as_u64 (rr_reserved_micros row)),
         rr_closed_at := Some (cx_ts cx now), rr_close_reason := Some why \<rparr>"
    let ?d = "Delta_default\<lparr> dl_reserved := - rr_reserved_micros row, dl_settled := to_i64 s,
         dl_held := to_i64 h, dl_overrun := to_i64 (s - as_u64 (rr_reserved_micros row)), dl_active := - 1,
         dl_settlements := of_bool (to = RVS_Settled), dl_releases := of_bool (to = RVS_Released),
         dl_expiries := of_bool (to = RVS_Expired) \<rparr>"
    let ?tk = "(rr_tenant_id row, TENANT_SCOPE, rr_period row)"
    let ?fk = "(rr_tenant_id row, rr_function_id row, rr_period row)"
    let ?f = "\<lambda>_ db. let (fired, db) = fire_alerts cx ?tk (al_tenant al) now db;
                       (fired', db) = fire_alerts cx ?fk (al_function al) now db
                   in Tx_Ok \<lparr> tr_state = to, tr_changed = True, tr_alerts = fired @ fired' \<rparr> db"
    let ?db = "db\<lparr> db_reservations := bt_insert i ?row' (db_reservations db) \<rparr>"
    have keys: "?tk \<noteq> ?fk" by (rule scope_keys_differ [OF fn])
    have "tx_bind (apply_delta ?tk ?d ?db) (\<lambda>_ db. tx_bind (apply_delta ?fk ?d db) ?f) = Tx_Ok t db'"
      using assms(1) Some True p state res
      by (simp add: transition_tx_def Let_def)
    then show thesis
    proof (rule two_deltas [OF _ keys])
      fix db''
      assume f: "?f () db'' = Tx_Ok t db'" and tables: "db_reservations db'' = db_reservations ?db"
        and totals: "\<And>j. totals_at db'' j = (if j = ?tk \<or> j = ?fk then totals_plus (totals_at ?db j) ?d else totals_at ?db j)"
      have t: "tr_changed t" "tr_state t = to" and db': "db_reservations db' = db_reservations db''"
        "totals_at db' = totals_at db''"
        using f fire_alerts_tables [of cx] by (auto simp: Let_def case_prod_beta totals_at_def)
      show thesis
        by (rule changed [OF t Some _ p, of ?row']) (use True tables totals db' in \<open>auto simp: totals_at_def\<close>)
    qed
  qed
qed

lemma closed_amounts:
  assumes "s + h \<le> r + (s - r)" "int r \<le> i64_max"
  shows "to_i64 s + to_i64 h \<le> int r + to_i64 (s - r)"
  using assms by (auto simp: to_i64_def min_def of_nat_diff)

lemma books_ok_transition:
  assumes "books_ok db" "transition_tx cx i now al plan db = Tx_Ok t db'" "plan_ok plan"
  shows "books_ok db'"
  using assms(2,1,3)
proof (cases rule: transition_tx_cases)
  case (changed row row' to s h why)
  have ok: "row_ok i row" by (rule books_okD(1) [OF assms(1) changed(3)])
  then have res: "0 \<le> rr_reserved_micros row" "rr_reserved_micros row \<le> i64_max" by (simp_all add: row_ok_def)
  have plan: "to \<noteq> RVS_Reserved" "s + h \<le> as_u64 (rr_reserved_micros row) + (s - as_u64 (rr_reserved_micros row))"
    using assms(3) changed(5) unfolding plan_ok_def by (metis read_row_simps(2))+
  have "to_i64 s + to_i64 h \<le> rr_reserved_micros row + to_i64 (s - as_u64 (rr_reserved_micros row))"
    using closed_amounts [OF plan(2)] res by simp
  then have ok': "row_ok i row'"
    using ok plan(1) by (auto simp: row_ok_def changed(7))
  show ?thesis
    by (rule books_ok_write [OF assms(1) changed(6) ok'])
      (use changed(3,4,8) plan(1) ok in \<open>auto simp: changed(7) row_ok_def Delta_default_def\<close>)
qed (use assms(1) in simp)

interpretation books: budget_invariant cx "\<lambda>op. case op of BO_Reserve r \<Rightarrow> nr_function_id r \<noteq> [] | _ \<Rightarrow> True" books_ok
  for cx
  by unfold_locales
    (auto intro: books_ok_reserve books_ok_finish books_ok_transition)

end
