(* ===== verification/Rating_Laws.thy ===== *)
theory Rating_Laws
  imports Rating "HOL-Library.Multiset"
begin

text \<open>
  What one event adds to an accumulator, component by component.  Every component is a commuting
  update that depends on the event through its ratable quantities only, which gives both the
  order-independence of a report and the irrelevance of guest-reported quantities.
\<close>

section \<open>The segment loop\<close>

definition metered_step :: "string \<times> Metered \<Rightarrow> SegmentTotals \<Rightarrow> SegmentTotals" where
  "metered_step = (\<lambda>(name, m) t. case ratable_value m of None \<Rightarrow> t | Some v \<Rightarrow> add_segments name v t)"

definition unmetered_step :: "string \<times> Metered \<Rightarrow> SegmentTotals \<Rightarrow> SegmentTotals" where
  "unmetered_step = (\<lambda>(name, m) t. case ratable_value m of None \<Rightarrow> add_segments name 1 t | Some v \<Rightarrow> t)"

definition billable_step :: "PriceTable \<Rightarrow> string \<times> Metered \<Rightarrow> nat \<Rightarrow> nat" where
  "billable_step table = (\<lambda>(name, m) b.
     if name \<in> set (pt_billable_segments table) then sat_acc b (ratable_value m) else b)"

definition unknown_billable :: "PriceTable \<Rightarrow> string \<times> Metered \<Rightarrow> bool" where
  "unknown_billable table = (\<lambda>(name, m).
     name \<in> set (pt_billable_segments table) \<and> ratable_value m = None)"

lemma segment_loop:
  "fold (segment_step table) xs (metered, unmetered, b, k) =
     (fold metered_step xs metered, fold unmetered_step xs unmetered,
      fold (billable_step table) xs b, k \<or> (\<exists>x\<in>set xs. unknown_billable table x))"
proof (induction xs arbitrary: metered unmetered b k)
  case (Cons x xs)
  obtain name m where x: "x = (name, m)" by (cases x)
  have "segment_step table x (metered, unmetered, b, k) =
      (metered_step x metered, unmetered_step x unmetered, billable_step table x b,
       k \<or> unknown_billable table x)"
    by (cases "ratable_value m")
      (auto simp: x segment_step_def metered_step_def unmetered_step_def billable_step_def
        unknown_billable_def)
  then show ?case by (simp add: Cons.IH disj_assoc)
qed simp

definition billable_of :: "PriceTable \<Rightarrow> UsageEvent \<Rightarrow> nat" where
  "billable_of table e = fold (billable_step table) (us_named (ue_segments e)) 0"

definition attempt_unmetered :: "PriceTable \<Rightarrow> UsageEvent \<Rightarrow> bool" where
  "attempt_unmetered table e \<longleftrightarrow>
     ur_requested_cpu_millis (ue_resources e) = 0 \<or> ur_requested_memory_mib (ue_resources e) = 0
     \<or> (\<exists>x\<in>set (us_named (ue_segments e)). unknown_billable table x)"

section \<open>One event\<close>

definition inc_if :: "bool \<Rightarrow> nat \<Rightarrow> nat" where
  "inc_if b x = (if b then wrap_add64 x 1 else x)"

definition usage_add :: "PriceTable \<Rightarrow> UsageEvent \<Rightarrow> UsageQuantities \<Rightarrow> UsageQuantities" where
  "usage_add table e u = u\<lparr>
     uq_attempts := wrap_add64 (uq_attempts u) 1,
     uq_retries := inc_if (ue_attempt_kind e = Some AK_Retry) (uq_retries u),
     uq_invocations := inc_if (ue_attempt_kind e \<noteq> Some AK_Retry) (uq_invocations u),
     uq_outcomes := count_outcome (ue_outcome e) (uq_outcomes u),
     uq_segments_ms := fold metered_step (us_named (ue_segments e)) (uq_segments_ms u),
     uq_billable_ms := sat_add64 (uq_billable_ms u) (billable_of table e),
     uq_request_bytes := sat_acc (uq_request_bytes u) (ratable_value (ub_request_bytes (ue_bytes e))),
     uq_response_bytes := sat_acc (uq_response_bytes u) (ratable_value (ub_response_bytes (ue_bytes e))) \<rparr>"

definition unmetered_add :: "PriceTable \<Rightarrow> UsageEvent \<Rightarrow> UnmeteredUsage \<Rightarrow> UnmeteredUsage" where
  "unmetered_add table e um = um\<lparr>
     um_attempts := inc_if (attempt_unmetered table e) (um_attempts um),
     um_segments := fold unmetered_step (us_named (ue_segments e)) (um_segments um),
     um_bytes := inc_if (ratable_value (ub_request_bytes (ue_bytes e)) = None
       \<or> ratable_value (ub_response_bytes (ue_bytes e)) = None) (um_bytes um) \<rparr>"

definition transfer_add :: "UsageBytes \<Rightarrow> nat \<Rightarrow> nat" where
  "transfer_add b x =
     (case (ratable_value (ub_request_bytes b), ratable_value (ub_response_bytes b)) of
        (None, None) \<Rightarrow> x
      | (Some req, None) \<Rightarrow> wrap_add128 x req
      | (None, Some resp) \<Rightarrow> wrap_add128 x resp
      | (Some req, Some resp) \<Rightarrow> wrap_add128 x (req + resp))"

lemma acc_add_attempt_parts:
  "acc_add_attempt table e a = a\<lparr>
     acc_usage := usage_add table e (acc_usage a),
     acc_vcpu_milli_ms := wrap_add128 (acc_vcpu_milli_ms a)
       (billable_of table e * ur_requested_cpu_millis (ue_resources e)),
     acc_mib_ms := wrap_add128 (acc_mib_ms a)
       (billable_of table e * ur_requested_memory_mib (ue_resources e)),
     acc_transfer_bytes := transfer_add (ue_bytes e) (acc_transfer_bytes a),
     acc_unmetered := unmetered_add table e (acc_unmetered a) \<rparr>"
  by (cases "ratable_value (ub_request_bytes (ue_bytes e))";
      cases "ratable_value (ub_response_bytes (ue_bytes e))")
    (auto simp: acc_add_attempt_def Let_def segment_loop billable_of_def attempt_unmetered_def
      usage_add_def unmetered_add_def transfer_add_def acc_add_bytes_def inc_if_def
      intro!: Acc.equality UsageQuantities.equality UnmeteredUsage.equality
      split: option.splits AttemptKind.splits)

definition guest_add :: "UsageEvent \<Rightarrow> GuestReportedTotals \<Rightarrow> GuestReportedTotals" where
  "guest_add e g = g\<lparr>
     gt_handler_ms := sat_acc (gt_handler_ms g) (gr_handler_ms (ue_guest_reported e)),
     gt_init_ms := sat_acc (gt_init_ms g) (gr_init_ms (ue_guest_reported e)) \<rparr>"

lemma acc_add_parts:
  "acc_add table e a =
     (case ue_event_type e of
        UE_AttemptSettled \<Rightarrow> acc_add_attempt table e a
      | UE_EnvironmentStopped \<Rightarrow> acc_add_stop e a
      | _ \<Rightarrow> a)\<lparr> acc_guest := guest_add e (acc_guest a) \<rparr>"
  by (cases "ue_event_type e")
    (simp_all add: acc_add_def guest_add_def acc_add_stop_def acc_add_attempt_parts)

section \<open>Updates commute\<close>

lemma inc_if_swap: "inc_if p (inc_if q x) = inc_if q (inc_if p x)"
  by (simp add: inc_if_def)

lemma add_segments_swap: "add_segments n v (add_segments m w t) = add_segments m w (add_segments n v t)"
  by (simp add: add_segments_def sat_add64_swap)

lemma metered_step_swap: "metered_step x (metered_step y t) = metered_step y (metered_step x t)"
  by (simp add: metered_step_def add_segments_swap split: prod.split option.split)

lemma unmetered_step_swap: "unmetered_step x (unmetered_step y t) = unmetered_step y (unmetered_step x t)"
  by (simp add: unmetered_step_def add_segments_swap split: prod.split option.split)

lemma fold_swap:
  assumes "\<And>x y s. f x (f y s) = f y (f x s)"
  shows "fold f xs (fold f ys s) = fold f ys (fold f xs s)"
proof -
  have single: "fold f xs (f y s) = f y (fold f xs s)" for xs y s
  proof (induction xs arbitrary: s)
    case (Cons x xs)
    have "fold f (x # xs) (f y s) = fold f xs (f y (f x s))"
      by (simp add: assms [of x y])
    also have "\<dots> = f y (fold f (x # xs) s)" by (simp add: Cons.IH)
    finally show ?case .
  qed simp
  show ?thesis
    by (induction ys arbitrary: s) (simp_all add: single)
qed

lemma count_outcome_swap: "count_outcome p (count_outcome q c) = count_outcome q (count_outcome p c)"
  by (simp add: count_outcome_def wrap_add64_swap split: option.split UsageOutcome.split)

lemma usage_add_swap: "usage_add table e (usage_add table e' u) = usage_add table e' (usage_add table e u)"
  by (simp add: usage_add_def accumulate_swap inc_if_swap count_outcome_swap
      fold_swap [of metered_step, OF metered_step_swap])

lemma unmetered_add_swap:
  "unmetered_add table e (unmetered_add table e' u) = unmetered_add table e' (unmetered_add table e u)"
  by (simp add: unmetered_add_def inc_if_swap fold_swap [of unmetered_step, OF unmetered_step_swap])

lemma transfer_add_swap: "transfer_add b (transfer_add b' x) = transfer_add b' (transfer_add b x)"
  by (simp add: transfer_add_def wrap_add128_swap split: option.split)

lemma guest_add_swap: "guest_add e (guest_add e' g) = guest_add e' (guest_add e g)"
  by (simp add: guest_add_def sat_acc_swap)

definition boot_wasted :: "UsageEvent \<Rightarrow> nat option" where
  "boot_wasted e =
     (if ue_attempt_id e = None \<and> ue_outcome e \<noteq> None
      then Some (sat_add64
        (case ratable_value (us_vm_base_boot_ms (ue_segments e)) of Some v \<Rightarrow> v | None \<Rightarrow> 0)
        (case ratable_value (us_user_init_ms (ue_segments e)) of Some v \<Rightarrow> v | None \<Rightarrow> 0))
      else None)"

lemma cost_add_stop_parts:
  "cost_add_stop e c = c\<lparr>
     hc_environments_stopped := wrap_add64 (hc_environments_stopped c) 1,
     hc_environment_lifetime_ms := sat_add64 (hc_environment_lifetime_ms c)
       (case ue_monotonic_duration_ms e of Some d \<Rightarrow> d | None \<Rightarrow> 0),
     hc_idle_pooled_ms := sat_acc (hc_idle_pooled_ms c) (ratable_value (us_idle_pooled_ms (ue_segments e))),
     hc_teardown_ms := sat_acc (hc_teardown_ms c) (ratable_value (us_teardown_ms (ue_segments e))),
     hc_boot_without_attempt_ms := sat_acc (hc_boot_without_attempt_ms c) (boot_wasted e),
     hc_cgroup_cpu_usec := sat_acc (hc_cgroup_cpu_usec c) (ratable_value (ur_cgroup_cpu_usec (ue_resources e))),
     hc_cgroup_cpu_unknown :=
       inc_if (ratable_value (ur_cgroup_cpu_usec (ue_resources e)) = None) (hc_cgroup_cpu_unknown c),
     hc_cgroup_memory_peak_bytes_max :=
       (case ratable_value (ur_cgroup_memory_peak_bytes (ue_resources e)) of
          Some v \<Rightarrow> max (hc_cgroup_memory_peak_bytes_max c) v
        | None \<Rightarrow> hc_cgroup_memory_peak_bytes_max c) \<rparr>"
  by (cases "ratable_value (ur_cgroup_cpu_usec (ue_resources e))";
      cases "ratable_value (ur_cgroup_memory_peak_bytes (ue_resources e))")
    (auto simp: cost_add_stop_def Let_def boot_wasted_def inc_if_def intro!: HostCostFacts.equality)

lemma cost_add_stop_swap: "cost_add_stop e (cost_add_stop e' c) = cost_add_stop e' (cost_add_stop e c)"
  by (auto simp: cost_add_stop_parts accumulate_swap inc_if_swap max.left_commute max.commute max.assoc
      intro!: HostCostFacts.equality split: option.split)

lemma acc_add_swap: "acc_add table e (acc_add table e' a) = acc_add table e' (acc_add table e a)"
  by (cases "ue_event_type e"; cases "ue_event_type e'")
    (simp_all add: acc_add_parts acc_add_attempt_parts acc_add_stop_def accumulate_swap guest_add_swap
      usage_add_swap unmetered_add_swap transfer_add_swap cost_add_stop_swap)

section \<open>Grouping\<close>

lemma group_step_swap:
  "group_step day_of table g e (group_step day_of table g e' m)
     = group_step day_of table g e' (group_step day_of table g e m)"
proof (rule bt_eqI)
  fix k
  show "bt_get (group_step day_of table g e (group_step day_of table g e' m)) k =
      bt_get (group_step day_of table g e' (group_step day_of table g e m)) k"
    by (simp add: group_step_def Let_def acc_add_swap)
qed

lemma groups_permuted:
  assumes "mset events = mset events'"
  shows "fold (group_step day_of table g) events m = fold (group_step day_of table g) events' m"
proof -
  have "fold (group_step day_of table g) events = fold (group_step day_of table g) events'"
    by (rule fold_multiset_equiv) (auto simp: fun_eq_iff group_step_swap assms)
  then show ?thesis by simp
qed

section \<open>What the guest says\<close>

text \<open>
  A quantity with what the guest said removed: the removal goes by the label the measurement
  carries, whatever the rating makes of that label.
\<close>

definition guest_removed :: "Metered \<Rightarrow> Metered" where
  "guest_removed m = (case mt_measurement m of MS_GuestReported \<Rightarrow> mt_unknown | _ \<Rightarrow> m)"

lemma ratable_guest_removed [simp]: "ratable_value (guest_removed m) = ratable_value m"
  by (cases "mt_measurement m") (simp_all add: guest_removed_def, simp add: ratable_value_def ms_ratable_def)

text \<open>An event with everything the guest reported removed.\<close>

definition host_only :: "UsageEvent \<Rightarrow> UsageEvent" where
  "host_only e = e\<lparr>
     ue_segments := \<lparr> us_queue_wait_ms = guest_removed (us_queue_wait_ms (ue_segments e)),
       us_vm_base_boot_ms = guest_removed (us_vm_base_boot_ms (ue_segments e)),
       us_user_init_ms = guest_removed (us_user_init_ms (ue_segments e)),
       us_handler_ms = guest_removed (us_handler_ms (ue_segments e)),
       us_teardown_ms = guest_removed (us_teardown_ms (ue_segments e)),
       us_idle_pooled_ms = guest_removed (us_idle_pooled_ms (ue_segments e)) \<rparr>,
     ue_resources := (ue_resources e)\<lparr>
       ur_cgroup_cpu_usec := guest_removed (ur_cgroup_cpu_usec (ue_resources e)),
       ur_cgroup_memory_peak_bytes := guest_removed (ur_cgroup_memory_peak_bytes (ue_resources e)) \<rparr>,
     ue_bytes := \<lparr> ub_request_bytes = guest_removed (ub_request_bytes (ue_bytes e)),
       ub_response_bytes = guest_removed (ub_response_bytes (ue_bytes e)) \<rparr>,
     ue_guest_reported := GuestReportedUsage_default \<rparr>"

definition forget_guest :: "Acc \<Rightarrow> Acc" where
  "forget_guest a = a\<lparr> acc_guest := GuestReportedTotals_default \<rparr>"

lemma us_named_host_only:
  "us_named (ue_segments (host_only e)) = map (\<lambda>(n, m). (n, guest_removed m)) (us_named (ue_segments e))"
  by (simp add: us_named_def host_only_def)

lemma step_guest_removed:
  "metered_step (n, guest_removed m) = metered_step (n, m)"
  "unmetered_step (n, guest_removed m) = unmetered_step (n, m)"
  "billable_step table (n, guest_removed m) = billable_step table (n, m)"
  "unknown_billable table (n, guest_removed m) = unknown_billable table (n, m)"
  by (simp_all add: fun_eq_iff metered_step_def unmetered_step_def billable_step_def unknown_billable_def)

lemma fold_host_only:
  assumes "\<And>n m. f (n, guest_removed m) = f (n, m)"
  shows "fold f (us_named (ue_segments (host_only e))) = fold f (us_named (ue_segments e))"
  by (simp add: us_named_host_only fold_map comp_def case_prod_beta assms)

lemma billable_of_host_only: "billable_of table (host_only e) = billable_of table e"
  by (simp add: billable_of_def fold_host_only step_guest_removed)

lemma attempt_unmetered_host_only: "attempt_unmetered table (host_only e) = attempt_unmetered table e"
proof -
  have "(\<exists>x\<in>set (us_named (ue_segments (host_only e))). unknown_billable table x)
      = (\<exists>x\<in>set (us_named (ue_segments e)). unknown_billable table x)"
    by (auto simp: us_named_host_only step_guest_removed case_prod_beta)
  then show ?thesis
    unfolding attempt_unmetered_def by (simp add: host_only_def)
qed

lemma forget_guest_add:
  "forget_guest (acc_add table e a) = forget_guest (acc_add table (host_only e) (forget_guest a))"
proof -
  note folds = fold_host_only [of metered_step, OF step_guest_removed(1)]
    fold_host_only [of unmetered_step, OF step_guest_removed(2)]
  have plain: "ue_event_type (host_only e) = ue_event_type e" "ue_attempt_kind (host_only e) = ue_attempt_kind e"
    "ue_outcome (host_only e) = ue_outcome e" "ue_attempt_id (host_only e) = ue_attempt_id e"
    "ue_monotonic_duration_ms (host_only e) = ue_monotonic_duration_ms e"
    "ur_requested_cpu_millis (ue_resources (host_only e)) = ur_requested_cpu_millis (ue_resources e)"
    "ur_requested_memory_mib (ue_resources (host_only e)) = ur_requested_memory_mib (ue_resources e)"
    by (simp_all add: host_only_def)
  have ratables: "ratable_value (ub_request_bytes (ue_bytes (host_only e))) = ratable_value (ub_request_bytes (ue_bytes e))"
    "ratable_value (ub_response_bytes (ue_bytes (host_only e))) = ratable_value (ub_response_bytes (ue_bytes e))"
    by (simp_all add: host_only_def)
  have parts: "usage_add table (host_only e) = usage_add table e"
    "unmetered_add table (host_only e) = unmetered_add table e"
    "transfer_add (ue_bytes (host_only e)) = transfer_add (ue_bytes e)"
    by (simp_all add: fun_eq_iff usage_add_def unmetered_add_def transfer_add_def folds plain ratables
        billable_of_host_only attempt_unmetered_host_only)
  have stop: "cost_add_stop (host_only e) = cost_add_stop e"
    by (simp add: fun_eq_iff cost_add_stop_parts plain boot_wasted_def) (simp add: host_only_def)
  show ?thesis
    by (cases "ue_event_type e")
      (simp_all add: acc_add_parts acc_add_attempt_parts acc_add_stop_def forget_guest_def plain parts
        stop billable_of_host_only)
qed

lemma forget_guest_add_same:
  "forget_guest (acc_add table e a) = forget_guest (acc_add table e (forget_guest a))"
  by (cases "ue_event_type e")
    (simp_all add: acc_add_parts acc_add_attempt_parts acc_add_stop_def forget_guest_def)

lemma forget_guest_step:
  assumes "forget_guest a = forget_guest b"
  shows "forget_guest (acc_add table (host_only e) a) = forget_guest (acc_add table e b)"
  using assms forget_guest_add [of table e b] forget_guest_add_same [of table "host_only e" a] by simp

lemma forget_guest_finish:
  "(acc_finish table a)\<lparr> rl_guest_reported := GuestReportedTotals_default \<rparr> = acc_finish table (forget_guest a)"
  by (simp add: acc_finish_def Let_def forget_guest_def)

text \<open>The groups with their guest totals forgotten.\<close>

abbreviation hosted :: "(group_key, Acc) btreemap \<Rightarrow> (group_key, Acc) btreemap" where
  "hosted m \<equiv> bt_map (\<lambda>_. forget_guest) m"

lemma hosted_group_step:
  assumes "hosted m = hosted n"
  shows "hosted (group_step day_of table g (host_only e) m) = hosted (group_step day_of table g e n)"
proof (rule bt_eqI)
  fix k
  let ?k = "group_key_of day_of g e"
  have key: "group_key_of day_of g (host_only e) = ?k"
    by (simp add: group_key_of_def host_only_def)
  have get: "map_option forget_guest (bt_get m k) = map_option forget_guest (bt_get n k)" for k
    using assms by (metis bt_get_map)
  have "forget_guest (case bt_get m ?k of Some a \<Rightarrow> a | None \<Rightarrow> Acc_default)
      = forget_guest (case bt_get n ?k of Some a \<Rightarrow> a | None \<Rightarrow> Acc_default)"
    using get [of ?k] by (auto split: option.splits)
  note forget_guest_step [OF this, of table e]
  then show "bt_get (hosted (group_step day_of table g (host_only e) m)) k
      = bt_get (hosted (group_step day_of table g e n)) k"
    using get [of k] by (simp add: group_step_def key Let_def)
qed

lemma hosted_groups:
  "hosted m = hosted n \<Longrightarrow> hosted (fold (group_step day_of table g) (map host_only events) m)
     = hosted (fold (group_step day_of table g) events n)"
  by (induction events arbitrary: m n) (simp_all add: hosted_group_step)

lemma hosted_lines:
  assumes "hosted m = hosted n"
  shows "map (\<lambda>((f, d), a). (acc_finish table a)\<lparr> rl_function_id := f, rl_day := d,
            rl_guest_reported := GuestReportedTotals_default \<rparr>) (bt_entries m)
    = map (\<lambda>((f, d), a). (acc_finish table a)\<lparr> rl_function_id := f, rl_day := d,
            rl_guest_reported := GuestReportedTotals_default \<rparr>) (bt_entries n)"
proof -
  have "map (\<lambda>((f, d), a). (acc_finish table a)\<lparr> rl_function_id := f, rl_day := d,
            rl_guest_reported := GuestReportedTotals_default \<rparr>) (bt_entries m)
    = map (\<lambda>((f, d), a). (acc_finish table a)\<lparr> rl_function_id := f, rl_day := d \<rparr>) (bt_entries (hosted m))" for m
    by (simp add: bt_map.rep_eq case_prod_beta acc_finish_def Let_def forget_guest_def)
  then show ?thesis using assms by simp
qed

text \<open>The totals of a report: their guest figures come from the guest figures of the lines only.\<close>

abbreviation unsaid :: "UsageReportLine \<Rightarrow> UsageReportLine" where
  "unsaid l \<equiv> l\<lparr> rl_guest_reported := GuestReportedTotals_default \<rparr>"

lemma sum_line_unsaid: "unsaid (sum_line l t) = unsaid (sum_line (unsaid l) (unsaid t))"
  by (simp add: sum_line_def)

lemma fold_sum_line_unsaid:
  "map unsaid ls = map unsaid ls' \<Longrightarrow> unsaid t = unsaid t' \<Longrightarrow>
     unsaid (fold sum_line ls t) = unsaid (fold sum_line ls' t')"
proof (induction ls arbitrary: ls' t t')
  case (Cons l ls)
  then obtain l' rest where ls': "ls' = l' # rest" "unsaid l = unsaid l'" "map unsaid ls = map unsaid rest"
    by (cases ls') auto
  have "unsaid (sum_line l t) = unsaid (sum_line l' t')"
    using sum_line_unsaid [of l t] sum_line_unsaid [of l' t'] ls'(2) Cons.prems(2) by simp
  then show ?case using Cons.IH [OF ls'(3)] by (simp add: ls'(1))
qed simp

lemma sum_lines_unsaid: "map unsaid ls = map unsaid ls' \<Longrightarrow> unsaid (sum_lines ls) = unsaid (sum_lines ls')"
  unfolding sum_lines_def by (rule fold_sum_line_unsaid) simp_all

end
