(* ===== verification/Budget_Charge.thy ===== *)
theory Budget_Charge
  imports Rating_Laws
begin

text \<open>
  \<open>crates/application/src/budget/charge.rs\<close>: the maximum charge a run can be rated at, and
  \<open>rated\<close> of \<open>budget/mod.rs\<close>, the charge it is settled at.
\<close>

definition UNBOUNDED_SEGMENTS :: "string list" where
  "UNBOUNDED_SEGMENTS = [''teardown_ms'', ''idle_pooled_ms'']"

record RunBounds =
  rb_cpu_millis :: nat
  rb_memory_mib :: nat
  rb_window_ms :: nat
  rb_queue_timeout_ms :: nat
  rb_init_timeout_ms :: nat
  rb_handshake_timeout_ms :: nat
  rb_execution_timeout_ms :: nat
  rb_cancel_grace_ms :: nat
  rb_request_bytes :: nat
  rb_max_response_bytes :: nat
  rb_slack_ms :: nat

record MaxCharge =
  mc_billable_ms :: nat
  mc_transfer_bytes :: nat
  mc_vcpu_micros :: nat
  mc_memory_micros :: nat
  mc_invocation_micros :: nat
  mc_transfer_micros :: nat
  mc_total_micros :: nat

definition check_table :: "PriceTable \<Rightarrow> string + unit" where
  "check_table table = try_each
     (\<lambda>s. if s \<in> set UNBOUNDED_SEGMENTS
          then Inl (''[budget] price table '' @ pt_version table @ '' bills `'' @ s
                    @ ''`, whose duration no reservation can bound; budgets need a table without it'')
          else Inr ())
     (pt_billable_segments table)"

definition segment_bound :: "RunBounds \<Rightarrow> string \<Rightarrow> nat" where
  "segment_bound b s =
     (if s = ''queue_wait_ms'' then rb_queue_timeout_ms b
      else if s = ''vm_base_boot_ms'' then rb_window_ms b
      else if s = ''user_init_ms'' then sat_add64 (rb_init_timeout_ms b) (rb_handshake_timeout_ms b)
      else if s = ''handler_ms'' then sat_add64 (rb_execution_timeout_ms b) (rb_cancel_grace_ms b)
      else rb_window_ms b)"

text \<open>The loop over the billable segments, with the locals \<open>per_attempt\<close> and
  \<open>only_single_attempt_segments\<close>.\<close>

fun bound_loop :: "RunBounds \<Rightarrow> string list \<Rightarrow> nat \<Rightarrow> bool \<Rightarrow> nat \<times> bool" where
  "bound_loop b [] per_attempt only_single = (per_attempt, only_single)"
| "bound_loop b (s # ss) per_attempt only_single =
     bound_loop b ss (sat_add64 per_attempt (segment_bound b s))
       (if s = ''user_init_ms'' \<or> s = ''handler_ms'' then only_single else False)"

definition max_charge :: "PriceTable \<Rightarrow> RunBounds \<Rightarrow> MaxCharge" where
  "max_charge table b =
     (let (per_attempt, only_single) = bound_loop b (pt_billable_segments table) 0 True;
          attempts = (if only_single then 1 else 2);
          billable_ms = sat_add64
            (min (sat_mul64 per_attempt attempts) (sat_add64 (rb_window_ms b) (rb_cancel_grace_ms b)))
            (rb_slack_ms b);
          transfer_bytes = sat_add64 (sat_mul64 (rb_request_bytes b) 2) (rb_max_response_bytes b);
          p = pt_unit_prices_micros table;
          vcpu_micros = charge (billable_ms * rb_cpu_millis b) (up_vcpu_second p) VCPU_MILLI_MS_PER_VCPU_SECOND;
          memory_micros = charge (billable_ms * rb_memory_mib b) (up_gib_second p) MIB_MS_PER_GIB_SECOND;
          invocation_micros = charge 1 (up_invocation p) 1;
          transfer_micros = charge transfer_bytes (up_gb_transferred p) BYTES_PER_GB
      in \<lparr> mc_billable_ms = billable_ms, mc_transfer_bytes = transfer_bytes,
           mc_vcpu_micros = vcpu_micros, mc_memory_micros = memory_micros,
           mc_invocation_micros = invocation_micros, mc_transfer_micros = transfer_micros,
           mc_total_micros =
             sat_add64 (sat_add64 (sat_add64 vcpu_micros memory_micros) invocation_micros) transfer_micros \<rparr>)"

definition rated :: "(Timestamp \<Rightarrow> string) \<Rightarrow> UsageEvent list \<Rightarrow> PriceTable \<Rightarrow> nat \<times> bool" where
  "rated day_of events table =
     (if events = [] then (0, True)
      else let (_, totals) = rate day_of events table \<lparr> gb_function = False, gb_day = False \<rparr>
           in (pc_total (rl_provisional_charges_micros totals),
               um_attempts (rl_unmetered totals) = 0 \<and> um_bytes (rl_unmetered totals) = 0))"

section \<open>Rounding and charges\<close>

lemma round_half_up_bounds:
  assumes "d > 0"
  shows "2 * d * round_half_up_div n d \<le> 2 * n + d" "2 * n < 2 * d * round_half_up_div n d + d"
proof -
  have n: "n = d * (n div d) + n mod d" by simp
  have r: "n mod d < d" using assms by simp
  have "2 * n = 2 * d * (n div d) + 2 * (n mod d)"
    by (subst (1) n) (simp only: distrib_left mult.assoc)
  then show "2 * d * round_half_up_div n d \<le> 2 * n + d" "2 * n < 2 * d * round_half_up_div n d + d"
    using r by (auto simp: round_half_up_div_def distrib_left)
qed

lemma round_half_up_mono:
  assumes "n \<le> m" "d > 0"
  shows "round_half_up_div n d \<le> round_half_up_div m d"
proof (rule ccontr)
  assume "\<not> ?thesis"
  then have "Suc (round_half_up_div m d) \<le> round_half_up_div n d" by simp
  then have "2 * d * round_half_up_div m d + 2 * d \<le> 2 * d * round_half_up_div n d"
    by (metis mult_le_mono2 mult_Suc_right add.commute)
  then show False
    using round_half_up_bounds [OF assms(2), of n] round_half_up_bounds [OF assms(2), of m] assms(1)
    by linarith
qed

lemma charge_mono: "q \<le> q' \<Longrightarrow> d > 0 \<Longrightarrow> charge q p d \<le> charge q' p d"
  unfolding charge_def by (intro min.mono round_half_up_mono mult_le_mono1 order_refl)

lemma charge_le [simp]: "charge q p d \<le> u64_max"
  by (simp add: charge_def)

lemma round_half_up_le: "d > 0 \<Longrightarrow> round_half_up_div n d \<le> n"
proof -
  assume d: "d > 0"
  have "n div d + 1 \<le> n" if "n mod d * 2 \<ge> d"
  proof (cases "d = 1")
    case False
    then have "n > 0" using that d by (cases n) auto
    then have "n div d < n" using div_less_dividend [of d n] False d by linarith
    then show ?thesis by simp
  qed (use that in simp)
  then show ?thesis by (simp add: round_half_up_div_def)
qed

lemma charge_exact:
  assumes "q * p \<le> u64_max" "d > 0"
  shows "charge q p d = round_half_up_div (q * p) d"
proof -
  have "q * p \<le> u128_max" using assms(1) by (simp add: u128_max_def u64_max_def)
  moreover have "round_half_up_div (q * p) d \<le> u64_max"
    using round_half_up_le [OF assms(2), of "q * p"] assms(1) by linarith
  ultimately show ?thesis by (simp add: charge_def)
qed

lemma units_pos [simp]: "0 < VCPU_MILLI_MS_PER_VCPU_SECOND" "0 < MIB_MS_PER_GIB_SECOND" "0 < BYTES_PER_GB"
  by (simp_all add: VCPU_MILLI_MS_PER_VCPU_SECOND_def MIB_MS_PER_GIB_SECOND_def BYTES_PER_GB_def)

lemma charge_parts:
  assumes "\<forall>q\<in>set qs. q * p \<le> u64_max" "d > 0"
  shows "2 * d * sum_list (map (\<lambda>q. charge q p d) qs) \<le> 2 * (sum_list qs * p) + length qs * d"
    and "qs \<noteq> [] \<Longrightarrow> 2 * (sum_list qs * p) < 2 * d * sum_list (map (\<lambda>q. charge q p d) qs) + length qs * d"
proof -
  have part: "2 * d * charge q p d \<le> 2 * (q * p) + d" "2 * (q * p) < 2 * d * charge q p d + d"
    if "q * p \<le> u64_max" for q
    using round_half_up_bounds [OF assms(2), of "q * p"] charge_exact [OF that assms(2)] by simp_all
  show "2 * d * sum_list (map (\<lambda>q. charge q p d) qs) \<le> 2 * (sum_list qs * p) + length qs * d"
    using assms(1)
  proof (induction qs)
    case (Cons q qs)
    then show ?case using part(1) [of q] by (simp add: algebra_simps)
  qed simp
  show "2 * (sum_list qs * p) < 2 * d * sum_list (map (\<lambda>q. charge q p d) qs) + length qs * d"
    if "qs \<noteq> []"
    using that assms(1)
  proof (induction qs rule: list_nonempty_induct)
    case (single q)
    then show ?case using part(2) [of q] by (simp add: algebra_simps)
  next
    case (cons q qs)
    then show ?case using part(2) [of q] by (simp add: algebra_simps)
  qed
qed

lemma charge_split:
  assumes "sum_list qs * p \<le> u64_max" "d > 0"
  shows "2 * sum_list (map (\<lambda>q. charge q p d) qs) \<le> 2 * charge (sum_list qs) p d + length qs"
    and "2 * charge (sum_list qs) p d \<le> 2 * sum_list (map (\<lambda>q. charge q p d) qs) + length qs"
proof -
  let ?S = "sum_list (map (\<lambda>q. charge q p d) qs)" and ?N = "sum_list qs * p"
  have "q * p \<le> u64_max" if "q \<in> set qs" for q
    using mult_le_mono1 [OF member_le_sum_list [OF that], of p] assms(1) by (meson le_trans zero_le)
  then have "\<forall>q\<in>set qs. q * p \<le> u64_max" by simp
  note up = charge_parts(1) [OF this assms(2)] and low = charge_parts(2) [OF this assms(2)]
  have R: "2 * d * charge (sum_list qs) p d \<le> 2 * ?N + d" "2 * ?N < 2 * d * charge (sum_list qs) p d + d"
    using round_half_up_bounds [OF assms(2), of ?N] charge_exact [OF assms] by simp_all
  have "d * (2 * ?S) < d * (2 * charge (sum_list qs) p d + length qs + 1)"
    using up R(2) by (simp add: algebra_simps)
  then have "2 * ?S < 2 * charge (sum_list qs) p d + length qs + 1"
    by (rule mult_less_cancel1 [THEN iffD1, THEN conjunct2])
  then show "2 * ?S \<le> 2 * charge (sum_list qs) p d + length qs" by simp
  show "2 * charge (sum_list qs) p d \<le> 2 * ?S + length qs"
  proof (cases "qs = []")
    case True
    then show ?thesis using assms(2) by (simp add: charge_def round_half_up_div_def)
  next
    case False
    have "d * (2 * charge (sum_list qs) p d) < d * (2 * ?S + length qs + 1)"
      using low [OF False] R(1) by (simp add: algebra_simps)
    then have "2 * charge (sum_list qs) p d < 2 * ?S + length qs + 1"
      by (rule mult_less_cancel1 [THEN iffD1, THEN conjunct2])
    then show ?thesis by simp
  qed
qed

section \<open>One ungrouped line\<close>

lemma wrap_le: "wrap_add64 a b \<le> a + b" "wrap_add128 a b \<le> a + b"
  by (simp_all add: wrap_add64_def wrap_add128_def)

definition run_acc :: "PriceTable \<Rightarrow> UsageEvent list \<Rightarrow> Acc" where
  "run_acc table events = fold (acc_add table) events Acc_default"

lemma ungrouped_fold:
  assumes "bt_get m (None, None) = Some a" "\<forall>k. k \<noteq> (None, None) \<longrightarrow> bt_get m k = None"
  shows "fold (group_step day_of table \<lparr> gb_function = False, gb_day = False \<rparr>) events m
       = bt_insert (None, None) (fold (acc_add table) events a) bt_empty"
  using assms
proof (induction events arbitrary: m a)
  case Nil
  then show ?case by (intro bt_eqI) (simp del: split_paired_All)
next
  case (Cons e events)
  show ?case
    unfolding fold_simps
    by (rule Cons.IH)
      (use Cons.prems in \<open>simp_all add: group_step_def Let_def group_key_of_def del: split_paired_All\<close>)
qed

lemma ungrouped:
  assumes "events \<noteq> []"
  shows "fold (group_step day_of table \<lparr> gb_function = False, gb_day = False \<rparr>) events bt_empty
       = bt_insert (None, None) (run_acc table events) bt_empty"
proof -
  obtain e es where events: "events = e # es" using assms by (cases events) auto
  show ?thesis
    unfolding events run_acc_def fold_simps
    by (rule ungrouped_fold) (simp_all add: group_step_def Let_def group_key_of_def)
qed

lemma bt_entries_single: "bt_entries (bt_insert k v bt_empty) = [(k, v)]"
  by (simp add: bt_insert.rep_eq bt_empty.rep_eq)

lemma rated_charge:
  assumes "events \<noteq> []"
  shows "fst (rated day_of events table)
       = pc_total (rl_provisional_charges_micros (acc_finish table (run_acc table events)))"
  using assms
  by (simp add: rated_def rate_def ungrouped bt_entries_single sum_lines_def sum_line_def
      UsageReportLine_default_def ProvisionalCharges_default_def sum_charges_def acc_finish_def Let_def
      sat_add64_def)

section \<open>What a run can be charged\<close>

text \<open>
  The documented bounds of a run: its settled attempts (at most two, one of them the first) keep
  every billable segment within that segment's timeout, run one after the other inside the run
  window, ask for the reserved resources, and move at most the request twice and one response.  When
  only initialisation and handler time are billed, only one of the attempts has any.
\<close>

definition run_within :: "PriceTable \<Rightarrow> RunBounds \<Rightarrow> UsageEvent list \<Rightarrow> bool" where
  "run_within table b events \<longleftrightarrow>
     length events \<le> 2
     \<and> (\<forall>e\<in>set events. ue_event_type e = UE_AttemptSettled)
     \<and> length (filter (\<lambda>e. ue_attempt_kind e \<noteq> Some AK_Retry) events) \<le> 1
     \<and> (\<forall>e\<in>set events. \<forall>(n, m)\<in>set (us_named (ue_segments e)).
          n \<in> set (pt_billable_segments table) \<longrightarrow>
            (case ratable_value m of None \<Rightarrow> True | Some v \<Rightarrow> v \<le> segment_bound b n))
     \<and> (set (pt_billable_segments table) \<subseteq> {''user_init_ms'', ''handler_ms''} \<longrightarrow>
          length (filter (\<lambda>e. billable_of table e \<noteq> 0) events) \<le> 1)
     \<and> sum_list (map (billable_of table) events)
          \<le> rb_window_ms b + rb_cancel_grace_ms b + rb_slack_ms b
     \<and> rb_window_ms b + rb_cancel_grace_ms b + rb_slack_ms b \<le> u64_max
     \<and> (\<forall>e\<in>set events. ur_requested_cpu_millis (ue_resources e) \<le> rb_cpu_millis b
          \<and> ur_requested_memory_mib (ue_resources e) \<le> rb_memory_mib b)
     \<and> (\<forall>e\<in>set events. case ratable_value (ub_request_bytes (ue_bytes e)) of None \<Rightarrow> True
          | Some v \<Rightarrow> v \<le> rb_request_bytes b)
     \<and> sum_list (map (\<lambda>e. case ratable_value (ub_response_bytes (ue_bytes e)) of None \<Rightarrow> 0 | Some v \<Rightarrow> v) events)
          \<le> rb_max_response_bytes b
     \<and> rb_request_bytes b * 2 + rb_max_response_bytes b \<le> u64_max"

definition transfer_of :: "UsageEvent \<Rightarrow> nat" where
  "transfer_of e =
     (case ratable_value (ub_request_bytes (ue_bytes e)) of None \<Rightarrow> 0 | Some v \<Rightarrow> v)
     + (case ratable_value (ub_response_bytes (ue_bytes e)) of None \<Rightarrow> 0 | Some v \<Rightarrow> v)"

lemma acc_grows:
  assumes "ue_event_type e = UE_AttemptSettled"
  shows "acc_vcpu_milli_ms (acc_add table e a)
      \<le> acc_vcpu_milli_ms a + billable_of table e * ur_requested_cpu_millis (ue_resources e)"
    and "acc_mib_ms (acc_add table e a)
      \<le> acc_mib_ms a + billable_of table e * ur_requested_memory_mib (ue_resources e)"
    and "acc_transfer_bytes (acc_add table e a) \<le> acc_transfer_bytes a + transfer_of e"
    and "uq_invocations (acc_usage (acc_add table e a))
      \<le> uq_invocations (acc_usage a) + (if ue_attempt_kind e \<noteq> Some AK_Retry then 1 else 0)"
  using wrap_le wrap_le(1) [of _ 1] assms
  by (simp_all add: acc_add_parts acc_add_attempt_parts transfer_add_def transfer_of_def usage_add_def
      inc_if_def split: option.split)

lemma fold_grows:
  fixes p :: "Acc \<Rightarrow> nat"
  assumes "\<And>e a. e \<in> set events \<Longrightarrow> p (acc_add table e a) \<le> p a + f e"
  shows "p (fold (acc_add table) events a) \<le> p a + sum_list (map f events)"
  using assms
proof (induction events arbitrary: a)
  case (Cons e events)
  have "p (fold (acc_add table) events (acc_add table e a)) \<le> p (acc_add table e a) + sum_list (map f events)"
    by (rule Cons.IH) (simp add: Cons.prems)
  also have "\<dots> \<le> p a + f e + sum_list (map f events)" using Cons.prems [of e a] by simp
  finally show ?case by simp
qed simp

lemma run_quantities:
  assumes "\<forall>e\<in>set events. ue_event_type e = UE_AttemptSettled"
  shows "acc_vcpu_milli_ms (run_acc table events)
      \<le> sum_list (map (\<lambda>e. billable_of table e * ur_requested_cpu_millis (ue_resources e)) events)"
    and "acc_mib_ms (run_acc table events)
      \<le> sum_list (map (\<lambda>e. billable_of table e * ur_requested_memory_mib (ue_resources e)) events)"
    and "acc_transfer_bytes (run_acc table events) \<le> sum_list (map transfer_of events)"
    and "uq_invocations (acc_usage (run_acc table events))
      \<le> length (filter (\<lambda>e. ue_attempt_kind e \<noteq> Some AK_Retry) events)"
proof -
  have zero: "acc_vcpu_milli_ms Acc_default = 0" "acc_mib_ms Acc_default = 0"
    "acc_transfer_bytes Acc_default = 0" "uq_invocations (acc_usage Acc_default) = 0"
    by (simp_all add: Acc_default_def UsageQuantities_default_def)
  have count: "length (filter (\<lambda>e. ue_attempt_kind e \<noteq> Some AK_Retry) events)
      = sum_list (map (\<lambda>e. if ue_attempt_kind e \<noteq> Some AK_Retry then 1 else 0) events)"
    by (induction events) auto
  show "acc_vcpu_milli_ms (run_acc table events)
      \<le> sum_list (map (\<lambda>e. billable_of table e * ur_requested_cpu_millis (ue_resources e)) events)"
    using fold_grows [of events acc_vcpu_milli_ms table _ Acc_default, OF acc_grows(1)] assms
    by (simp add: run_acc_def zero)
  show "acc_mib_ms (run_acc table events)
      \<le> sum_list (map (\<lambda>e. billable_of table e * ur_requested_memory_mib (ue_resources e)) events)"
    using fold_grows [of events acc_mib_ms table _ Acc_default, OF acc_grows(2)] assms
    by (simp add: run_acc_def zero)
  show "acc_transfer_bytes (run_acc table events) \<le> sum_list (map transfer_of events)"
    using fold_grows [of events acc_transfer_bytes table _ Acc_default, OF acc_grows(3)] assms
    by (simp add: run_acc_def zero)
  show "uq_invocations (acc_usage (run_acc table events))
      \<le> length (filter (\<lambda>e. ue_attempt_kind e \<noteq> Some AK_Retry) events)"
    using fold_grows [of events "\<lambda>a. uq_invocations (acc_usage a)" table _ Acc_default, OF acc_grows(4)] assms
    by (simp add: run_acc_def zero count)
qed

lemma bound_loop_closed:
  "bound_loop b ss n only =
     (if ss = [] then n else min (n + sum_list (map (segment_bound b) ss)) u64_max,
      only \<and> set ss \<subseteq> {''user_init_ms'', ''handler_ms''})"
  by (induction ss arbitrary: n only) (auto simp: sat_add64_def)

lemma sum_set_le_sum_list: "sum f (set xs) \<le> (sum_list (map f xs) :: nat)"
proof (induction xs)
  case (Cons x xs)
  then show ?case by (cases "x \<in> set xs") (simp_all add: insert_absorb)
qed simp

lemma billable_fold:
  "fold (billable_step table) xs n
     \<le> n + sum_list (map (\<lambda>(s, m). if s \<in> set (pt_billable_segments table)
                                  then (case ratable_value m of None \<Rightarrow> 0 | Some v \<Rightarrow> v) else 0) xs)"
proof (induction xs arbitrary: n)
  case (Cons x xs)
  have "billable_step table x n \<le> n + (case x of (s, m) \<Rightarrow>
      if s \<in> set (pt_billable_segments table)
      then (case ratable_value m of None \<Rightarrow> 0 | Some v \<Rightarrow> v) else 0)"
    by (auto simp: billable_step_def sat_add64_def split: prod.split option.split)
  then show ?case
    using Cons.IH [of "billable_step table x n"] by simp
qed simp

lemma billable_fold_max: "n \<le> u64_max \<Longrightarrow> fold (billable_step table) xs n \<le> u64_max"
proof (induction xs arbitrary: n)
  case (Cons x xs)
  then have "billable_step table x n \<le> u64_max"
    by (cases x, cases "ratable_value (snd x)") (auto simp: billable_step_def sat_add64_def)
  then show ?case by (simp add: Cons.IH)
qed simp

lemma us_named_distinct: "distinct (map fst (us_named s))"
  by (simp add: us_named_def)

lemma billable_bound:
  assumes "\<forall>(n, m)\<in>set (us_named (ue_segments e)). n \<in> set (pt_billable_segments table) \<longrightarrow>
      (case ratable_value m of None \<Rightarrow> True | Some v \<Rightarrow> v \<le> segment_bound b n)"
  shows "billable_of table e \<le> min (sum_list (map (segment_bound b) (pt_billable_segments table))) u64_max"
proof -
  let ?B = "pt_billable_segments table" and ?xs = "us_named (ue_segments e)"
  let ?f = "\<lambda>n. if n \<in> set ?B then segment_bound b n else 0"
  have "billable_of table e \<le> sum_list (map (\<lambda>(s, m). if s \<in> set ?B
      then (case ratable_value m of None \<Rightarrow> 0 | Some v \<Rightarrow> v) else 0) ?xs)"
    using billable_fold [of table ?xs 0] by (simp add: billable_of_def)
  also have "\<dots> \<le> sum_list (map (\<lambda>x. ?f (fst x)) ?xs)"
    using assms by (intro sum_list_mono) (fastforce split: option.splits)
  also have "\<dots> = sum_list (map ?f (map fst ?xs))" by (simp add: comp_def)
  also have "\<dots> = sum ?f (set (map fst ?xs))"
    by (rule sum_list_distinct_conv_sum_set) (rule us_named_distinct)
  also have "\<dots> = sum (segment_bound b) (set (map fst ?xs) \<inter> set ?B)"
    by (simp add: sum.inter_restrict)
  also have "\<dots> \<le> sum (segment_bound b) (set ?B)"
    by (intro sum_mono2) auto
  also have "\<dots> \<le> sum_list (map (segment_bound b) ?B)" by (rule sum_set_le_sum_list)
  finally show ?thesis
    using billable_fold_max [of 0 table ?xs] by (simp add: billable_of_def)
qed

lemma sum_list_bound: "\<forall>x\<in>set xs. f x \<le> (m :: nat) \<Longrightarrow> sum_list (map f xs) \<le> length xs * m"
  by (induction xs) (auto simp: add_le_mono)

lemma sum_le_one_nonzero:
  assumes "length (filter (\<lambda>x. f x \<noteq> 0) xs) \<le> 1" "\<forall>x\<in>set xs. f x \<le> (m :: nat)"
  shows "sum_list (map f xs) \<le> m"
proof -
  have "sum_list (map f xs) = sum_list (map f (filter (\<lambda>x. f x \<noteq> 0) xs))"
    by (induction xs) auto
  also have "\<dots> \<le> length (filter (\<lambda>x. f x \<noteq> 0) xs) * m"
    using assms(2) by (intro sum_list_bound) auto
  also have "\<dots> \<le> m" using assms(1) mult_le_mono1 [of _ 1 m] by simp
  finally show ?thesis .
qed

lemma run_billable:
  assumes "run_within table b events"
  shows "sum_list (map (billable_of table) events) \<le> mc_billable_ms (max_charge table b)"
proof -
  let ?S = "sum_list (map (billable_of table) events)"
  let ?pa = "min (sum_list (map (segment_bound b) (pt_billable_segments table))) u64_max"
  let ?single = "set (pt_billable_segments table) \<subseteq> {''user_init_ms'', ''handler_ms''}"
  have each: "\<forall>e\<in>set events. billable_of table e \<le> ?pa"
    using assms billable_bound by (auto simp: run_within_def)
  have "?S \<le> ?pa * (if ?single then 1 else 2)"
  proof (cases ?single)
    case True
    then show ?thesis
      using assms each sum_le_one_nonzero [of "billable_of table" events ?pa] by (simp add: run_within_def)
  next
    case False
    have "?S \<le> length events * ?pa" using each by (intro sum_list_bound) auto
    also have "\<dots> \<le> 2 * ?pa" using assms by (intro mult_le_mono1) (simp add: run_within_def)
    finally show ?thesis using False by simp
  qed
  moreover have "?S \<le> rb_window_ms b + rb_cancel_grace_ms b + rb_slack_ms b"
    "rb_window_ms b + rb_cancel_grace_ms b + rb_slack_ms b \<le> u64_max"
    using assms by (simp_all add: run_within_def)
  moreover have "mc_billable_ms (max_charge table b) = sat_add64
      (min (sat_mul64 ?pa (if ?single then 1 else 2)) (sat_add64 (rb_window_ms b) (rb_cancel_grace_ms b)))
      (rb_slack_ms b)"
    by (simp add: max_charge_def Let_def bound_loop_closed)
  ultimately show ?thesis
    by (simp add: sat_add64_def sat_mul64_def min_def split: if_splits)
qed

lemma run_resources:
  assumes "run_within table b events"
  shows "sum_list (map (\<lambda>e. billable_of table e * ur_requested_cpu_millis (ue_resources e)) events)
      \<le> mc_billable_ms (max_charge table b) * rb_cpu_millis b"
    and "sum_list (map (\<lambda>e. billable_of table e * ur_requested_memory_mib (ue_resources e)) events)
      \<le> mc_billable_ms (max_charge table b) * rb_memory_mib b"
proof -
  have weigh: "sum_list (map (\<lambda>e. billable_of table e * w e) events)
      \<le> mc_billable_ms (max_charge table b) * m" if "\<forall>e\<in>set events. w e \<le> m" for w m
  proof -
    have "sum_list (map (\<lambda>e. billable_of table e * w e) events)
        \<le> sum_list (map (\<lambda>e. billable_of table e * m) events)"
      using that by (intro sum_list_mono) simp
    also have "\<dots> = sum_list (map (billable_of table) events) * m"
      by (simp add: sum_list_mult_const)
    also have "\<dots> \<le> mc_billable_ms (max_charge table b) * m"
      by (intro mult_le_mono1 run_billable assms)
    finally show ?thesis .
  qed
  show "sum_list (map (\<lambda>e. billable_of table e * ur_requested_cpu_millis (ue_resources e)) events)
      \<le> mc_billable_ms (max_charge table b) * rb_cpu_millis b"
    "sum_list (map (\<lambda>e. billable_of table e * ur_requested_memory_mib (ue_resources e)) events)
      \<le> mc_billable_ms (max_charge table b) * rb_memory_mib b"
    using assms by (auto intro: weigh simp: run_within_def)
qed

lemma run_transfer:
  assumes "run_within table b events"
  shows "sum_list (map transfer_of events) \<le> mc_transfer_bytes (max_charge table b)"
proof -
  let ?req = "\<lambda>e. case ratable_value (ub_request_bytes (ue_bytes e)) of None \<Rightarrow> 0 | Some v \<Rightarrow> v"
  let ?resp = "\<lambda>e. case ratable_value (ub_response_bytes (ue_bytes e)) of None \<Rightarrow> 0 | Some v \<Rightarrow> v"
  have "sum_list (map transfer_of events) = sum_list (map ?req events) + sum_list (map ?resp events)"
    by (simp add: transfer_of_def [abs_def] sum_list_addf)
  moreover have "sum_list (map ?req events) \<le> length events * rb_request_bytes b"
    using assms by (intro sum_list_bound) (auto simp: run_within_def split: option.splits)
  moreover have "length events * rb_request_bytes b \<le> 2 * rb_request_bytes b"
    using assms by (intro mult_le_mono1) (simp add: run_within_def)
  moreover have "sum_list (map ?resp events) \<le> rb_max_response_bytes b"
    and small: "rb_request_bytes b * 2 + rb_max_response_bytes b \<le> u64_max"
    using assms by (simp_all add: run_within_def)
  moreover have "mc_transfer_bytes (max_charge table b) = rb_request_bytes b * 2 + rb_max_response_bytes b"
  proof -
    have "sat_mul64 (rb_request_bytes b) 2 = rb_request_bytes b * 2"
      using small by (simp add: sat_mul64_def)
    then show ?thesis
      by (simp add: max_charge_def Let_def case_prod_beta sat_add64_small [OF small])
  qed
  ultimately show ?thesis by linarith
qed

lemma max_charge_total:
  "mc_total_micros (max_charge table b) =
     sat_add64 (sat_add64 (sat_add64
       (charge (mc_billable_ms (max_charge table b) * rb_cpu_millis b)
         (up_vcpu_second (pt_unit_prices_micros table)) VCPU_MILLI_MS_PER_VCPU_SECOND)
       (charge (mc_billable_ms (max_charge table b) * rb_memory_mib b)
         (up_gib_second (pt_unit_prices_micros table)) MIB_MS_PER_GIB_SECOND))
       (charge 1 (up_invocation (pt_unit_prices_micros table)) 1))
       (charge (mc_transfer_bytes (max_charge table b))
         (up_gb_transferred (pt_unit_prices_micros table)) BYTES_PER_GB)"
  by (simp add: max_charge_def Let_def case_prod_beta)

lemma rated_le_max_charge:
  assumes "run_within table b events"
  shows "fst (rated day_of events table) \<le> mc_total_micros (max_charge table b)"
proof (cases "events = []")
  case False
  let ?m = "max_charge table b" and ?a = "run_acc table events" and ?p = "pt_unit_prices_micros table"
  have settled: "\<forall>e\<in>set events. ue_event_type e = UE_AttemptSettled"
    and first: "length (filter (\<lambda>e. ue_attempt_kind e \<noteq> Some AK_Retry) events) \<le> 1"
    using assms by (simp_all add: run_within_def)
  note q = run_quantities [OF settled, of table]
  have "acc_vcpu_milli_ms ?a \<le> mc_billable_ms ?m * rb_cpu_millis b"
    "acc_mib_ms ?a \<le> mc_billable_ms ?m * rb_memory_mib b"
    using q(1,2) run_resources [OF assms] by linarith+
  moreover have "acc_transfer_bytes ?a \<le> mc_transfer_bytes ?m"
    using q(3) run_transfer [OF assms] by linarith
  moreover have "uq_invocations (acc_usage ?a) \<le> 1" using q(4) first by linarith
  ultimately show ?thesis
    by (simp add: rated_charge [OF False] acc_finish_def max_charge_total Let_def)
      (intro sat_add64_mono charge_mono; simp)
qed (simp add: rated_def)

end
