(* ===== verification/Budget_Limits.thy ===== *)
theory Budget_Limits
  imports Budget_Books Budget_Charge
begin

text \<open>
  Further invariants of the budget database: hard limits, closed reservations, and which alerts have
  fired.
\<close>

section \<open>Ranges\<close>

definition tot_range :: "BudgetDb \<Rightarrow> bool" where
  "tot_range db \<longleftrightarrow> (\<forall>k t. bt_get (db_totals db) k = Some t \<longrightarrow> list_all in_i64 (totals_columns t))"

lemma tx_bind_ok:
  "tx_bind m f = Tx_Ok x db' \<longleftrightarrow> (\<exists>y db. m = Tx_Ok y db \<and> f y db = Tx_Ok x db')"
  by (cases m) auto

lemma tot_range_reservations [simp]: "tot_range (db\<lparr> db_reservations := m \<rparr>) = tot_range db"
  by (simp add: tot_range_def)

lemma tot_range_delta: "apply_delta k d db = Tx_Ok u db' \<Longrightarrow> tot_range db \<Longrightarrow> tot_range db'"
  unfolding tot_range_def
  by (auto simp: apply_delta_def Let_def split: if_splits option.splits)

lemma tot_range_reserve: "reserve_tx cx r now db = Tx_Ok out db' \<Longrightarrow> tot_range db \<Longrightarrow> tot_range db'"
  by (auto simp: reserve_tx_def Let_def tx_bind_ok split: option.splits
      dest!: tot_range_delta)

lemma tot_range_finish: "finish_tx cx i as c m now db = Tx_Ok out db' \<Longrightarrow> tot_range db \<Longrightarrow> tot_range db'"
  by (auto simp: finish_tx_def split: option.splits if_splits)

lemma tot_range_fire [simp]: "tot_range (snd (fire_alerts cx k l now db)) = tot_range db"
  by (simp add: tot_range_def fire_alerts_tables)

lemma tot_range_transition:
  "transition_tx cx i now al plan db = Tx_Ok out db' \<Longrightarrow> tot_range db \<Longrightarrow> tot_range db'"
  by (auto simp: transition_tx_def Let_def tx_bind_ok case_prod_beta split: option.splits if_splits prod.splits
      dest!: tot_range_delta)

lemma tot_range_at: "tot_range db \<Longrightarrow> list_all in_i64 (totals_columns (totals_at db k))"
proof (cases "bt_get (db_totals db) k")
  case None
  then show ?thesis
    by (simp add: totals_at_def totals_zero_def totals_columns_def in_i64_def i64_max_def)
next
  case (Some t)
  moreover assume "tot_range db"
  ultimately show ?thesis unfolding tot_range_def totals_at_def by (simp del: split_paired_All)
qed

lemma row_sum_nonneg:
  assumes "books_ok db" "\<And>i r. row_ok i r \<Longrightarrow> 0 \<le> col r"
  shows "0 \<le> row_sum col k db"
  unfolding row_sum_def using books_okD(1) [OF assms(1)] assms(2)
  by (intro sum_list_nonneg) (auto simp: bt_values_iff)

lemma totals_nonneg:
  assumes "books_ok db"
  shows "0 \<le> tt_reserved_micros (totals_at db k)" "0 \<le> tt_settled_micros (totals_at db k)"
    "0 \<le> tt_held_micros (totals_at db k)" "0 \<le> tt_overrun_micros (totals_at db k)"
  using books_okD(2,3) [OF assms, of k] row_sum_nonneg [OF assms]
  by (auto simp: stored_totals_def wanted_totals_def row_ok_def)

section \<open>Hard limits\<close>

definition committed_at :: "BudgetDb \<Rightarrow> scope_key \<Rightarrow> int" where
  "committed_at db k = tt_reserved_micros (totals_at db k) + tt_settled_micros (totals_at db k)
     + tt_held_micros (totals_at db k)"

definition limit_of :: "scope_key \<Rightarrow> NewReservation \<Rightarrow> nat option" where
  "limit_of k r = (if fst (snd k) = TENANT_SCOPE then nr_tenant_limit r else nr_function_limit r)"

definition reserves_in :: "scope_key \<Rightarrow> NewReservation \<Rightarrow> bool" where
  "reserves_in k r \<longleftrightarrow> k = (nr_tenant_id r, TENANT_SCOPE, nr_period r)
     \<or> k = (nr_tenant_id r, nr_function_id r, nr_period r)"

definition limited :: "scope_key \<Rightarrow> nat \<Rightarrow> bud_op \<Rightarrow> bool" where
  "limited k L op \<longleftrightarrow> (case op of
       BO_Reserve r \<Rightarrow> nr_function_id r \<noteq> [] \<and> (reserves_in k r \<longrightarrow> limit_of k r = Some L)
     | _ \<Rightarrow> True)"

definition within_limit :: "scope_key \<Rightarrow> nat \<Rightarrow> BudgetDb \<Rightarrow> bool" where
  "within_limit k L db \<longleftrightarrow> books_ok db \<and> tot_range db \<and> int L \<le> i64_max
     \<and> committed_at db k \<le> int L + tt_overrun_micros (totals_at db k)"

lemma committed_row:
  assumes "books_ok db" "tot_range db" "sat_add64 (sc_committed (totals_row db t s p)) a \<le> L" "int L \<le> i64_max"
  shows "committed_at db (t, s, p) + int a \<le> int L"
proof -
  let ?t = "totals_at db (t, s, p)"
  have L: "L < u64_max" using assms(4) by (simp add: i64_max_def u64_max_def)
  have "int (as_u64 (tt_reserved_micros ?t)) = tt_reserved_micros ?t"
    "int (as_u64 (tt_settled_micros ?t)) = tt_settled_micros ?t"
    "int (as_u64 (tt_held_micros ?t)) = tt_held_micros ?t"
    using totals_nonneg [OF assms(1), of "(t, s, p)"] tot_range_at [OF assms(2), of "(t, s, p)"]
    by (auto simp: totals_columns_def in_i64_def)
  moreover have "as_u64 (tt_reserved_micros ?t) + as_u64 (tt_settled_micros ?t) + as_u64 (tt_held_micros ?t) + a \<le> L"
    using assms(3) L by (auto simp: sc_committed_def totals_row_def Let_def sat_add64_def min_def split: if_splits)
  ultimately show ?thesis unfolding committed_at_def by linarith
qed

lemma first_refusal_none:
  "first_refusal a xs = None \<longleftrightarrow> (\<forall>(s, t, l)\<in>set xs. \<forall>v. l = Some v \<longrightarrow> sat_add64 (sc_committed t) a \<le> v)"
  by (induction a xs rule: first_refusal.induct) (auto split: option.splits)

lemma committed_plus: "committed_at db' k = committed_at db k + (dl_reserved d + dl_settled d + dl_held d)"
  if "totals_at db' k = totals_plus (totals_at db k) d"
  using that by (simp add: committed_at_def totals_plus_def)

lemma within_limit_reserve:
  assumes "within_limit k L db" "limited k L (BO_Reserve r)" "reserve_tx cx r now db = Tx_Ok out db'"
  shows "within_limit k L db'"
proof -
  have ok: "books_ok db" "tot_range db" and small: "int L \<le> i64_max" and fn: "nr_function_id r \<noteq> []"
    and lim: "reserves_in k r \<Longrightarrow> limit_of k r = Some L"
    using assms(1,2) by (simp_all add: within_limit_def limited_def)
  have base: "committed_at db k \<le> int L + tt_overrun_micros (totals_at db k)"
    using assms(1) by (simp add: within_limit_def)
  have "committed_at db' k \<le> int L + tt_overrun_micros (totals_at db' k)"
    using assms(3) fn
  proof (cases rule: reserve_tx_cases)
    case (refused l)
    then show ?thesis
      using base by (simp add: committed_at_def totals_plus_def Delta_default_def)
  next
    case (reserved row)
    show ?thesis
    proof (cases "reserves_in k r")
      case False
      then have "totals_at db' k = totals_at db k" using reserved(15) [of k] by (auto simp: reserves_in_def)
      then show ?thesis using base by (simp add: committed_at_def)
    next
      case True
      let ?d = "Delta_default\<lparr> dl_reserved := to_i64 (nr_amount_micros r), dl_active := 1, dl_reservations := 1 \<rparr>"
      have t: "totals_at db' k = totals_plus (totals_at db k) ?d"
        using True reserved(15) [of k] by (auto simp: reserves_in_def)
      have "sat_add64 (sc_committed (totals_row db (fst k) (fst (snd k)) (snd (snd k)))) (nr_amount_micros r) \<le> L"
        using reserved(3) [unfolded first_refusal_none] True lim [OF True] fn
        by (auto simp: reserves_in_def limit_of_def TENANT_SCOPE_def split: if_splits)
      then have "committed_at db k + int (nr_amount_micros r) \<le> int L"
        using committed_row [OF ok] small by (cases k) simp
      moreover have "to_i64 (nr_amount_micros r) \<le> int (nr_amount_micros r)" by (simp add: to_i64_def)
      ultimately show ?thesis
        using committed_plus [OF t] totals_nonneg(4) [OF ok(1), of k]
        by (simp add: t totals_plus_def Delta_default_def)
    qed
  qed (use base in simp)
  then show ?thesis
    using books_ok_reserve [OF ok(1) assms(3) fn] tot_range_reserve [OF assms(3) ok(2)] small
    by (simp add: within_limit_def)
qed

lemma within_limit_finish:
  assumes "within_limit k L db" "finish_tx cx i as c m now db = Tx_Ok b db'"
  shows "within_limit k L db'"
proof -
  have "totals_at db' k = totals_at db k"
    using assms(2) by (auto simp: finish_tx_def totals_at_def split: option.splits if_splits)
  then show ?thesis
    using assms books_ok_finish tot_range_finish unfolding within_limit_def committed_at_def by metis
qed

lemma within_limit_transition:
  assumes "within_limit k L db" "transition_tx cx i now al plan db = Tx_Ok t db'" "plan_ok plan"
  shows "within_limit k L db'"
proof -
  have ok: "books_ok db" "tot_range db" "int L \<le> i64_max" and base: "committed_at db k \<le> int L + tt_overrun_micros (totals_at db k)"
    using assms(1) by (simp_all add: within_limit_def)
  have "committed_at db' k \<le> int L + tt_overrun_micros (totals_at db' k)"
    using assms(2) ok(1) assms(3)
  proof (cases rule: transition_tx_cases)
    case (changed row row' to s h why)
    have "row_ok i row'"
      using books_ok_transition [OF ok(1) assms(2,3)] by (rule books_okD(1)) (simp add: changed(6))
    then have "to_i64 s + to_i64 h \<le> rr_reserved_micros row + to_i64 (s - as_u64 (rr_reserved_micros row))"
      by (simp add: row_ok_def changed(7))
    then show ?thesis
      using changed(8) [of k] base by (auto simp: committed_at_def totals_plus_def Delta_default_def)
  qed (use base in simp)
  then show ?thesis
    using books_ok_transition [OF ok(1) assms(2,3)] tot_range_transition [OF assms(2) ok(2)] ok(3)
    by (simp add: within_limit_def)
qed

interpretation hard_limit: budget_invariant cx "limited k L" "within_limit k L" for cx k L
  by unfold_locales
    (auto intro: within_limit_reserve within_limit_finish within_limit_transition)

section \<open>Closed reservations\<close>

definition closed_as :: "string \<Rightarrow> reservation_rec \<Rightarrow> BudgetDb \<Rightarrow> bool" where
  "closed_as i r db \<longleftrightarrow> books_ok db \<and> bt_get (db_reservations db) i = Some r \<and> rr_state r \<noteq> ''reserved''"

abbreviation names_functions :: "bud_op \<Rightarrow> bool" where
  "names_functions op \<equiv> case op of BO_Reserve r \<Rightarrow> nr_function_id r \<noteq> [] | _ \<Rightarrow> True"

lemma closed_as_reserve:
  assumes "closed_as i r db" "names_functions (BO_Reserve q)" "reserve_tx cx q now db = Tx_Ok out db'"
  shows "closed_as i r db'"
proof -
  have fn: "nr_function_id q \<noteq> []" using assms(2) by simp
  have "bt_get (db_reservations db') i = Some r"
    using assms(3) fn by (cases rule: reserve_tx_cases) (use assms(1) in \<open>auto simp: closed_as_def\<close>)
  then show ?thesis
    using assms books_ok_reserve [OF _ assms(3) fn] by (simp add: closed_as_def)
qed

lemma closed_as_finish:
  assumes "closed_as i r db" "finish_tx cx j as c m now db = Tx_Ok b db'"
  shows "closed_as i r db'"
  using assms books_ok_finish [OF _ assms(2)]
  by (auto simp: closed_as_def finish_tx_def split: option.splits if_splits)

lemma closed_as_transition:
  assumes "closed_as i r db" "transition_tx cx j now al plan db = Tx_Ok t db'" "plan_ok plan"
  shows "closed_as i r db'"
proof -
  have ok: "books_ok db" using assms(1) by (simp add: closed_as_def)
  have "bt_get (db_reservations db') i = Some r"
    using assms(2) ok assms(3)
    by (cases rule: transition_tx_cases) (use assms(1) in \<open>auto simp: closed_as_def\<close>)
  then show ?thesis
    using assms(1) books_ok_transition [OF ok assms(2,3)] by (simp add: closed_as_def)
qed

interpretation closed: budget_invariant cx names_functions "closed_as i r" for cx i r
  by unfold_locales (auto intro: closed_as_reserve closed_as_finish closed_as_transition)

section \<open>Alerts\<close>

definition alert_key :: "AlertFired \<Rightarrow> scope_key \<times> nat" where
  "alert_key a = ((af_tenant_id a, af_scope a, af_period a), af_threshold_percent a)"

abbreviation fired_keys :: "BudgetDb \<Rightarrow> (scope_key \<times> nat) set" where
  "fired_keys db \<equiv> set (bt_keys (db_alerts db))"

text \<open>A list of alerts that were not in the table, each once, and are in it now.\<close>

definition newly_fired :: "AlertFired list \<Rightarrow> BudgetDb \<Rightarrow> BudgetDb \<Rightarrow> bool" where
  "newly_fired fired db db' \<longleftrightarrow> distinct (map alert_key fired)
     \<and> alert_key ` set fired \<inter> fired_keys db = {}
     \<and> fired_keys db' = fired_keys db \<union> alert_key ` set fired"

lemma newly_fired_none: "db_alerts db' = db_alerts db \<Longrightarrow> newly_fired [] db db'"
  by (simp add: newly_fired_def)

lemma newly_fired_append:
  "newly_fired xs db db1 \<Longrightarrow> newly_fired ys db1 db' \<Longrightarrow> newly_fired (xs @ ys) db db'"
  by (auto simp: newly_fired_def)

lemma fire_loop_newly: "newly_fired (fst (fire_loop cx k soft c now ps db)) db (snd (fire_loop cx k soft c now ps db))"
proof (induction ps arbitrary: db)
  case (Cons p ps)
  show ?case
  proof (cases "c * 100 < soft * p \<or> bt_get (db_alerts db) (k, p) \<noteq> None")
    case True
    then show ?thesis using Cons.IH [of db] by (auto split: option.split)
  next
    case False
    let ?a = "\<lparr> ar_soft_limit_micros = to_i64 soft, ar_consumed_micros = to_i64 c, ar_fired_at = cx_ts cx now \<rparr>"
    let ?db = "db\<lparr> db_alerts := bt_insert (k, p) ?a (db_alerts db) \<rparr>"
    let ?f = "\<lparr> af_tenant_id = fst k, af_scope = fst (snd k), af_period = snd (snd k),
      af_threshold_percent = p, af_soft_limit_micros = soft, af_consumed_micros = c, af_fired_at = now \<rparr>"
    have "newly_fired [?f] db ?db"
      using False by (simp add: newly_fired_def alert_key_def bt_keys_iff)
    from newly_fired_append [OF this Cons.IH [of ?db]] show ?thesis
      using False by (simp add: Let_def case_prod_beta)
  qed
qed (simp add: newly_fired_none)

lemma fire_alerts_newly:
  "newly_fired (fst (fire_alerts cx k l now db)) db (snd (fire_alerts cx k l now db))"
  by (auto simp: fire_alerts_def newly_fired_none fire_loop_newly split: option.split)

lemma apply_delta_alerts: "apply_delta k d db = Tx_Ok u db' \<Longrightarrow> db_alerts db' = db_alerts db"
  by (rule apply_delta_ok(2))

lemma newly_fired_from: "db_alerts db0 = db_alerts db \<Longrightarrow> newly_fired xs db0 db' = newly_fired xs db db'"
  by (simp add: newly_fired_def)

lemma transition_newly:
  assumes "transition_tx cx i now al plan db = Tx_Ok t db'"
  shows "newly_fired (tr_alerts t) db db'"
proof (cases "tr_changed t")
  case False
  then have "tr_alerts t = []" "db_alerts db' = db_alerts db"
    using assms by (auto simp: transition_tx_def Let_def tx_bind_ok unchanged_def case_prod_beta
        split: option.splits if_splits prod.splits)
  then show ?thesis by (simp add: newly_fired_none)
next
  case True
  then obtain k k' db0 where db0: "db_alerts db0 = db_alerts db"
    and t: "tr_alerts t = fst (fire_alerts cx k (al_tenant al) now db0)
        @ fst (fire_alerts cx k' (al_function al) now (snd (fire_alerts cx k (al_tenant al) now db0)))"
    and db': "db' = snd (fire_alerts cx k' (al_function al) now (snd (fire_alerts cx k (al_tenant al) now db0)))"
    using assms by (auto simp: transition_tx_def Let_def tx_bind_ok unchanged_def case_prod_beta
        split: option.splits if_splits prod.splits dest!: apply_delta_alerts)
  show ?thesis
    unfolding t db' newly_fired_from [OF db0, symmetric]
    by (rule newly_fired_append [OF fire_alerts_newly fire_alerts_newly])
qed

fun alerts_of :: "bud_reply \<Rightarrow> AlertFired list" where
  "alerts_of (RP_Transition (Inr t)) = tr_alerts t"
| "alerts_of _ = []"

lemma reserve_alerts: "reserve_tx cx r now db = Tx_Ok out db' \<Longrightarrow> db_alerts db' = db_alerts db"
  by (auto simp: reserve_tx_def Let_def tx_bind_ok split: option.splits dest!: apply_delta_alerts)

lemma finish_alerts: "finish_tx cx i as c m now db = Tx_Ok out db' \<Longrightarrow> db_alerts db' = db_alerts db"
  by (auto simp: finish_tx_def split: option.splits if_splits)

lemma with_tx_transition_newly:
  assumes "with_tx env (transition_tx cx i now al plan) st = Some (res, st')"
  shows "newly_fired (alerts_of (RP_Transition res)) (bs_db st) (bs_db st')"
  using assms by (rule with_tx_cases) (auto simp: newly_fired_none transition_newly)

lemma step_newly:
  assumes "bud_step cx env now op st = Some (reply, st')"
  shows "newly_fired (alerts_of reply) (bs_db st) (bs_db st')"
proof (cases op)
  case (BO_Reserve r)
  with assms obtain res where "with_tx env (reserve_tx cx r now) st = Some (res, st')" "reply = RP_Reserve res"
    by (auto simp: reserve_def apfst_def map_prod_def)
  then show ?thesis by (auto elim!: with_tx_cases dest: reserve_alerts intro!: newly_fired_none)
next
  case (BO_Recheck i tl' fl')
  with assms obtain res where "recheck cx env i tl' fl' st = Some (res, st')" "reply = RP_Recheck res"
    by (auto simp: apfst_def map_prod_def)
  then show ?thesis
    unfolding recheck_def
    by (auto elim!: with_tx_cases intro!: newly_fired_none split: option.splits if_splits)
next
  case (BO_Finish i as c m)
  with assms obtain res where "with_tx env (finish_tx cx i as c m now) st = Some (res, st')" "reply = RP_Finish res"
    by (auto simp: bs_finish_def apfst_def map_prod_def)
  then show ?thesis by (auto elim!: with_tx_cases dest: finish_alerts intro!: newly_fired_none)
next
  case (BO_Force b)
  then show ?thesis using assms by (auto simp: bs_force_unavailable_def newly_fired_none)
qed (use assms in \<open>auto simp: settle_def bs_release_def bs_expire_def transition_def apfst_def map_prod_def
      intro: with_tx_transition_newly\<close>)

lemma exec_newly:
  "bud_exec cx calls st = Some (replies, st') \<Longrightarrow>
     newly_fired (concat (map alerts_of replies)) (bs_db st) (bs_db st')"
proof (induction calls arbitrary: st replies)
  case Nil
  then show ?case by (simp add: newly_fired_none)
next
  case (Cons call calls)
  obtain env now op where call: "call = (env, now, op)" by (cases call)
  obtain reply st1 replies1 where step: "bud_step cx env now op st = Some (reply, st1)"
    and rest: "bud_exec cx calls st1 = Some (replies1, st')" and replies: "replies = reply # replies1"
    using Cons.prems by (auto simp: call apfst_def map_prod_def split: option.splits)
  show ?case
    using newly_fired_append [OF step_newly [OF step] Cons.IH [OF rest]] by (simp add: replies)
qed

section \<open>Runs within their bounds\<close>

text \<open>
  Every reservation of the scope was made for the maximum charge of its run, and no reservation of
  the scope has overrun it.
\<close>

definition no_overrun ::
  "PriceTable \<Rightarrow> (string \<Rightarrow> RunBounds) \<Rightarrow> scope_key \<Rightarrow> nat \<Rightarrow> BudgetDb \<Rightarrow> bool" where
  "no_overrun table bounds k L db \<longleftrightarrow> within_limit k L db
     \<and> (\<forall>i r. bt_get (db_reservations db) i = Some r \<longrightarrow> in_scope k r \<longrightarrow>
          rr_overrun_micros r = 0
          \<and> rr_reserved_micros r = int (mc_total_micros (max_charge table (bounds i))))"

definition measured_run :: "PriceTable \<Rightarrow> (Timestamp \<Rightarrow> string) \<Rightarrow> (string \<Rightarrow> RunBounds) \<Rightarrow> scope_key \<Rightarrow> nat \<Rightarrow> bud_op \<Rightarrow> bool" where
  "measured_run table day_of bounds k L op \<longleftrightarrow> limited k L op
     \<and> (case op of
          BO_Reserve r \<Rightarrow> nr_amount_micros r = mc_total_micros (max_charge table (bounds (nr_reservation_id r)))
        | BO_Settle i s _ \<Rightarrow>
            \<exists>events. run_within table (bounds i) events \<and> se_measured_micros s = fst (rated day_of events table)
        | _ \<Rightarrow> True)"

lemma no_overrun_within: "no_overrun table bounds k L db \<Longrightarrow> within_limit k L db"
  by (simp add: no_overrun_def)

lemma no_overrun_row:
  assumes "no_overrun table bounds k L db" "bt_get (db_reservations db) i = Some r" "in_scope k r"
  shows "rr_overrun_micros r = 0" "rr_reserved_micros r = int (mc_total_micros (max_charge table (bounds i)))"
  using assms by (auto simp: no_overrun_def)

lemma no_overrun_total:
  assumes "no_overrun table bounds k L db"
  shows "committed_at db k \<le> int L"
proof -
  have ok: "books_ok db" using assms by (simp add: no_overrun_def within_limit_def)
  have "row_sum rr_overrun_micros k db = 0"
  proof -
    have "map rr_overrun_micros (filter (in_scope k) (bt_values (db_reservations db)))
        = map (\<lambda>_. 0) (filter (in_scope k) (bt_values (db_reservations db)))"
      using no_overrun_row(1) [OF assms] by (auto simp: bt_values_iff)
    then show ?thesis unfolding row_sum_def by (simp only: sum_list_triv)
  qed
  then show ?thesis
    using assms books_okD(3) [OF ok, of k] by (simp add: no_overrun_def within_limit_def)
qed

lemma no_overrun_reserve:
  assumes "no_overrun table bounds k L db" "measured_run table day_of bounds k L (BO_Reserve q)"
    "reserve_tx cx q now db = Tx_Ok out db'"
  shows "no_overrun table bounds k L db'"
proof -
  note w = no_overrun_within [OF assms(1)]
  have lim: "limited k L (BO_Reserve q)" and fn: "nr_function_id q \<noteq> []"
    and amount: "nr_amount_micros q = mc_total_micros (max_charge table (bounds (nr_reservation_id q)))"
    using assms(2) by (simp_all add: measured_run_def limited_def)
  note w' = within_limit_reserve [OF w lim assms(3)]
  have small: "int L \<le> i64_max" using w by (simp add: within_limit_def)
  show ?thesis
    using assms(3) fn
  proof (cases rule: reserve_tx_cases)
    case (reserved row)
    have "rr_reserved_micros row = int (nr_amount_micros q)" if "in_scope k row"
    proof -
      have in_k: "reserves_in k q"
        using that in_scope_keys [of row k] reserved(7-9) fn by (simp add: reserves_in_def)
      have "sat_add64 (sc_committed (totals_row db (fst k) (fst (snd k)) (snd (snd k)))) (nr_amount_micros q) \<le> L"
        using reserved(3) [unfolded first_refusal_none] in_k lim fn
        by (auto simp: limited_def reserves_in_def limit_of_def TENANT_SCOPE_def split: if_splits)
      then have "committed_at db k + int (nr_amount_micros q) \<le> int L"
        using committed_row [of db] w small by (cases k) (simp add: within_limit_def)
      moreover have "0 \<le> committed_at db k"
        using totals_nonneg [of db k] w by (simp add: within_limit_def committed_at_def)
      ultimately show ?thesis using small reserved(11) by (simp add: to_i64_def)
    qed
    then show ?thesis
      using assms(1) w' reserved(4,14) amount by (auto simp: no_overrun_def split: if_splits)
  qed (use assms(1) w' in \<open>auto simp: no_overrun_def\<close>)
qed

lemma no_overrun_finish:
  assumes "no_overrun table bounds k L db" "finish_tx cx i as c m now db = Tx_Ok b db'"
  shows "no_overrun table bounds k L db'"
proof -
  note w' = within_limit_finish [OF no_overrun_within [OF assms(1)] assms(2)]
  have "rr_overrun_micros r = 0 \<and> rr_reserved_micros r = int (mc_total_micros (max_charge table (bounds j)))"
    if "bt_get (db_reservations db') j = Some r" "in_scope k r" for j r
    using assms that no_overrun_row [OF assms(1), of j]
    by (auto simp: finish_tx_def in_scope_def split: option.splits if_splits prod.splits)
  then show ?thesis using w' by (simp add: no_overrun_def)
qed

lemma no_overrun_transition:
  assumes "no_overrun table bounds k L db" "transition_tx cx i now al plan db = Tx_Ok t db'" "plan_ok plan"
    and plan: "\<And>row to s h why. plan row = Some (to, s, h, why)
      \<Longrightarrow> rw_reserved_micros row = mc_total_micros (max_charge table (bounds i)) \<Longrightarrow> s \<le> rw_reserved_micros row"
  shows "no_overrun table bounds k L db'"
proof -
  note w = no_overrun_within [OF assms(1)]
  note w' = within_limit_transition [OF w assms(2,3)]
  have ok: "books_ok db" using w by (simp add: within_limit_def)
  show ?thesis
    using assms(2) ok assms(3)
  proof (cases rule: transition_tx_cases)
    case (changed row row' to s h why)
    have range: "0 \<le> rr_reserved_micros row" "rr_reserved_micros row \<le> i64_max"
      using books_okD(1) [OF ok changed(3)] by (simp_all add: row_ok_def)
    have "rr_overrun_micros row' = 0 \<and> rr_reserved_micros row' = int (mc_total_micros (max_charge table (bounds i)))"
      if "in_scope k row'"
    proof -
      have "in_scope k row" using that by (simp add: changed(7) in_scope_def split: prod.splits)
      note r = no_overrun_row(2) [OF assms(1) changed(3) this]
      then have eq: "as_u64 (rr_reserved_micros row) = mc_total_micros (max_charge table (bounds i))"
        using as_u64_id [OF range] by linarith
      then have "s \<le> as_u64 (rr_reserved_micros row)" using plan [OF changed(5)] by simp
      then show ?thesis using r by (simp add: changed(7) to_i64_def i64_max_def)
    qed
    then show ?thesis
      using assms(1) w' changed(6) by (auto simp: no_overrun_def split: if_splits)
  qed (use assms(1) w' in \<open>auto simp: no_overrun_def\<close>)
qed

interpretation money: budget_invariant cx "measured_run table day_of bounds k L" "no_overrun table bounds k L"
  for cx table day_of bounds k L
proof unfold_locales
  fix db i s al now t db'
  assume I: "no_overrun table bounds k L db" and m: "measured_run table day_of bounds k L (BO_Settle i s al)"
    and tx: "transition_tx cx i now al (settle_plan s) db = Tx_Ok t db'"
  obtain events where "run_within table (bounds i) events" "se_measured_micros s = fst (rated day_of events table)"
    using m by (auto simp: measured_run_def)
  then have "se_measured_micros s \<le> mc_total_micros (max_charge table (bounds i))"
    by (simp add: rated_le_max_charge)
  then show "no_overrun table bounds k L db'"
    using no_overrun_transition [OF I tx] by (simp add: settle_plan_def)
qed (auto intro: no_overrun_reserve no_overrun_finish no_overrun_transition
    simp: release_plan_def expire_plan_def split: if_splits)

lemma to_i64_covers: "int r \<le> i64_max \<Longrightarrow> r \<le> m + h \<Longrightarrow> int r \<le> to_i64 m + to_i64 h"
  by (auto simp: to_i64_def i64_max_def min_def)

lemma transition_keeps_committed:
  assumes "books_ok db" "transition_tx cx i now al plan db = Tx_Ok t db'" "plan_ok plan"
    and plan: "\<And>row to m h why. plan row = Some (to, m, h, why) \<Longrightarrow> rw_reserved_micros row \<le> m + h"
  shows "committed_at db k \<le> committed_at db' k"
  using assms(2,1,3)
proof (cases rule: transition_tx_cases)
  case (changed row row' to m h why)
  have range: "0 \<le> rr_reserved_micros row" "rr_reserved_micros row \<le> i64_max"
    using books_okD(1) [OF assms(1) changed(3)] by (simp_all add: row_ok_def)
  have "as_u64 (rr_reserved_micros row) \<le> m + h" using plan [OF changed(5)] by simp
  then have "rr_reserved_micros row \<le> to_i64 m + to_i64 h"
    using to_i64_covers [of "as_u64 (rr_reserved_micros row)" m h] range by simp
  then show ?thesis
    using changed(8) [of k] by (auto simp: committed_at_def totals_plus_def Delta_default_def)
qed simp

end
