(* ===== verification/Rating_Properties.thy ===== *)
theory Rating_Properties
  imports Budget_Charge
begin

text \<open>
  What makes rating trustworthy: the report depends on the set of accepted events only, not on
  their order or on anything the guest said; a charge is the exact value rounded once per line; and
  the amount a budget reserves for a run covers whatever its attempts are rated at.
\<close>

section \<open>Reports\<close>

text \<open>
  a report does not depend on the order in which the ledger returns the events, so late and
  out-of-order deliveries give the same lines and the same totals.
\<close>

theorem rating_order_independent:
  assumes "mset events = mset events'"
  shows "rate day_of events table group_by = rate day_of events' table group_by"
  by (simp add: rate_def groups_permuted [OF assms])

definition sample_attempt :: UsageEvent where
  "sample_attempt = (UsageEvent_new ''e1'' (Ident ''tn_a'') (Ident ''env_a'') UE_AttemptSettled 1 0)\<lparr>
     ue_attempt_kind := Some AK_First, ue_outcome := Some UO_Succeeded,
     ue_segments := UsageSegments_default\<lparr> us_user_init_ms := mt_host 40, us_handler_ms := mt_host 160 \<rparr>,
     ue_resources := UsageResources_default\<lparr> ur_requested_cpu_millis := 1000, ur_requested_memory_mib := 512 \<rparr>,
     ue_bytes := \<lparr> ub_request_bytes = mt_host 1000, ub_response_bytes = mt_host 3000 \<rparr>,
     ue_guest_reported := \<lparr> gr_init_ms = Some 7, gr_handler_ms = Some 1 \<rparr> \<rparr>"

definition sample_stop :: UsageEvent where
  "sample_stop = (UsageEvent_new ''e2'' (Ident ''tn_a'') (Ident ''env_a'') UE_EnvironmentStopped 2 5)\<lparr>
     ue_monotonic_duration_ms := Some 900 \<rparr>"

theorem rating_order_independent_witness:
  "rate (\<lambda>_. ''2026-09-01'') [sample_attempt, sample_stop] PriceTable_builtin \<lparr> gb_function = True, gb_day = True \<rparr>
     = rate (\<lambda>_. ''2026-09-01'') [sample_stop, sample_attempt] PriceTable_builtin \<lparr> gb_function = True, gb_day = True \<rparr>"
  by (rule rating_order_independent) simp

text \<open>
  C30: nothing the guest reported reaches a quantity, a cost fact or a charge: with every figure
  labelled \<open>MS_GuestReported\<close> and the guest's own report removed from the events, each line and the
  totals are the same but for their own \<open>guest_reported\<close> totals.
\<close>

theorem guest_never_billed:
  "map (\<lambda>l. l\<lparr> rl_guest_reported := GuestReportedTotals_default \<rparr>)
       (fst (rate day_of (map host_only events) table group_by))
   = map (\<lambda>l. l\<lparr> rl_guest_reported := GuestReportedTotals_default \<rparr>)
       (fst (rate day_of events table group_by))
   \<and> (snd (rate day_of (map host_only events) table group_by))\<lparr> rl_guest_reported := GuestReportedTotals_default \<rparr>
   = (snd (rate day_of events table group_by))\<lparr> rl_guest_reported := GuestReportedTotals_default \<rparr>"
proof -
  have "hosted (fold (group_step day_of table group_by) (map host_only events) bt_empty)
      = hosted (fold (group_step day_of table group_by) events bt_empty)"
    by (rule hosted_groups) simp
  note hosted_lines [OF this, of table]
  then have lines: "map unsaid (fst (rate day_of (map host_only events) table group_by))
      = map unsaid (fst (rate day_of events table group_by))"
    by (simp add: rate_def Let_def comp_def case_prod_unfold)
  moreover have "snd (rate day_of es table group_by) = sum_lines (fst (rate day_of es table group_by))" for es
    by (simp add: rate_def Let_def)
  ultimately show ?thesis using sum_lines_unsaid [OF lines] by simp
qed

section \<open>Charges\<close>

text \<open>
  splitting a quantity over \<open>n\<close> lines changes a charge component by at most \<open>n / 2\<close>
  micro-units, in either direction (as long as the product stays below the width of a charge).
\<close>

theorem charge_split_bound:
  assumes "sum_list qs * p \<le> u64_max" "d > 0"
  shows "\<bar>2 * int (sum_list (map (\<lambda>q. charge q p d) qs)) - 2 * int (charge (sum_list qs) p d)\<bar> \<le> int (length qs)"
  using charge_split [OF assms] by linarith

theorem charge_split_bound_witness:
  "\<bar>2 * int (charge 3 5 4 + charge 7 5 4) - 2 * int (charge 10 5 4)\<bar> \<le> 2"
  using charge_split_bound [of "[3, 7]" 5 4] by (simp add: u64_max_def)

text \<open>
  C17: the amount reserved for a run is at least what its settled attempts are rated at, whenever
  the attempts stay within the run's timeouts, resources and size limits.
\<close>

theorem reservation_covers_charge:
  assumes "run_within table b events"
  shows "fst (rated day_of events table) \<le> mc_total_micros (max_charge table b)"
  using assms by (rule rated_le_max_charge)

definition sample_bounds :: RunBounds where
  "sample_bounds = \<lparr> rb_cpu_millis = 1000, rb_memory_mib = 512, rb_window_ms = 30000,
     rb_queue_timeout_ms = 5000, rb_init_timeout_ms = 10000, rb_handshake_timeout_ms = 2000,
     rb_execution_timeout_ms = 3000, rb_cancel_grace_ms = 500, rb_request_bytes = 1000,
     rb_max_response_bytes = 6000, rb_slack_ms = 250 \<rparr>"

lemma sample_ratable [simp]:
  "us_named (ue_segments sample_attempt) =
     [(''queue_wait_ms'', mt_unknown), (''vm_base_boot_ms'', mt_unknown), (''user_init_ms'', mt_host 40),
      (''handler_ms'', mt_host 160), (''teardown_ms'', mt_unknown), (''idle_pooled_ms'', mt_unknown)]"
  "ratable_value (ub_request_bytes (ue_bytes sample_attempt)) = Some 1000"
  "ratable_value (ub_response_bytes (ue_bytes sample_attempt)) = Some 3000"
  "ur_requested_cpu_millis (ue_resources sample_attempt) = 1000"
  "ur_requested_memory_mib (ue_resources sample_attempt) = 512"
  "ue_event_type sample_attempt = UE_AttemptSettled"
  by (simp_all add: sample_attempt_def us_named_def UsageSegments_default_def UsageEvent_new_def
      UsageResources_default_def)

lemma sample_kind: "ue_attempt_kind sample_attempt = Some AK_First"
  by (simp add: sample_attempt_def)

lemma sample_billable [simp]: "billable_of PriceTable_builtin sample_attempt = 200"
  by (simp add: billable_of_def billable_step_def PriceTable_builtin_def sat_add64_def u64_max_def)

lemma sample_run_within: "run_within PriceTable_builtin sample_bounds [sample_attempt]"
  by (simp add: run_within_def sample_bounds_def segment_bound_def sat_add64_def u64_max_def)

theorem reservation_covers_charge_witness:
  "run_within PriceTable_builtin sample_bounds [sample_attempt]
   \<and> fst (rated (\<lambda>_. ''2026-09-01'') [sample_attempt] PriceTable_builtin)
       \<le> mc_total_micros (max_charge PriceTable_builtin sample_bounds)"
  using reservation_covers_charge [OF sample_run_within] sample_run_within by simp

end
