(* ===== verification/Budget_Properties.thy ===== *)
theory Budget_Properties
  imports Budget_Limits Rating_Properties
begin

text \<open>
  What the budget store promises, for every sequence of operations on a new store whatever errors
  its database runs into: the totals are the sums over the reservations, the hard limit bounds what is
  committed, a reservation is closed once, an alert fires once, and usage that could not be measured
  stays committed.
\<close>

section \<open>A concrete store\<close>

definition unary_codec :: Codec where
  "unary_codec = \<lparr> cx_ts = (\<lambda>t. replicate (nat t) CHR ''x''), cx_parse_ts = (\<lambda>s. Some (int (length s))),
     cx_attempts_json = (\<lambda>xs. concat xs), cx_attempts_parse = (\<lambda>s. Some [s]) \<rparr>"

definition sample_new :: NewReservation where
  "sample_new = \<lparr> nr_reservation_id = ''inv_1'', nr_tenant_id = ''tn_a'', nr_function_id = ''fn_1'',
     nr_invocation_id = ''inv_1'', nr_period = ''2026-09'', nr_amount_micros = 42675, nr_expires_at = 9,
     nr_price_table_version = ''v1'', nr_config_generation = 1, nr_tenant_limit = Some 50000,
     nr_function_limit = None \<rparr>"

definition sample_alerts :: AlertLimits where
  "sample_alerts = \<lparr> al_tenant = Some \<lparr> bl_soft_limit_micros = Some 1000,
     bl_alert_thresholds_percent = [50, 100], bl_hard_limit_micros = Some 50000 \<rparr>, al_function = None \<rparr>"

definition sample_calls :: "bud_call list" where
  "sample_calls =
     [(calm, 1, BO_Reserve sample_new),
      (calm, 2, BO_Finish ''inv_1'' [''att_1''] True (Some 4)),
      (calm, 3, BO_Settle ''inv_1'' \<lparr> se_measured_micros = 630, se_complete = True \<rparr> sample_alerts),
      (calm, 4, BO_Settle ''inv_1'' \<lparr> se_measured_micros = 630, se_complete = True \<rparr> sample_alerts)]"

text \<open>What the sample leaves behind: one settled reservation.\<close>

definition sample_end :: "(bud_reply list \<times> BudgetStore) option" where
  "sample_end = bud_exec unary_codec sample_calls (BudgetStore_open None)"

lemmas sample_defs = sample_calls_def calm_def sample_new_def sample_alerts_def unary_codec_def

lemmas budget_eval = sample_defs BudgetStore_open_def BudgetDb_empty_def reserve_def bs_finish_def settle_def
  bs_expire_def transition_def with_tx_def reserve_tx_def finish_tx_def transition_tx_def get_row_def
  read_row_def totals_row_def totals_at_def totals_zero_def apply_delta_def totals_plus_def
  totals_columns_def totals_checked_def in_i64_def i64_max_def Delta_default_def to_i64_def as_u64_def
  TENANT_SCOPE_def sc_committed_def sc_consumed_def sat_add64_def u64_max_def settle_plan_def
  expire_plan_def unchanged_def ReservationState_parse_def fire_alerts_def Let_def

lemma sample_runs:
  "\<exists>replies st. bud_exec unary_codec sample_calls (BudgetStore_open None) = Some (replies, st)"
  by (simp add: budget_eval)

lemma sample_closed:
  "\<exists>replies st r replies' st'.
     bud_exec unary_codec (take 3 sample_calls) (BudgetStore_open None) = Some (replies, st)
     \<and> bt_get (db_reservations (bs_db st)) ''inv_1'' = Some r \<and> rr_state r \<noteq> ''reserved''
     \<and> bud_exec unary_codec (drop 3 sample_calls) st = Some (replies', st')"
  by (simp add: budget_eval)

lemma sample_expired:
  "\<exists>replies st reply st'.
     bud_exec unary_codec (take 1 sample_calls) (BudgetStore_open None) = Some (replies, st)
     \<and> bud_step unary_codec calm 20 (BO_Expire ''inv_1'' sample_alerts) st = Some (reply, st')"
  by (simp add: budget_eval)

lemma sample_named: "\<forall>(_, _, op)\<in>set sample_calls. names_functions op"
  by (simp add: sample_calls_def sample_new_def)

section \<open>Totals\<close>

text \<open>
  C12: after any sequence of operations on a new store, with whatever database errors in between,
  the store's own check of the totals finds no difference to the sums over the reservations.
\<close>

theorem budget_totals_exact:
  assumes "bud_exec cx calls (BudgetStore_open e) = Some (replies, st)"
    and "\<forall>(_, _, op)\<in>set calls. names_functions op"
  shows "totals_mismatch (bs_db st) = None"
  using books.exec_keeps [OF _ assms(2,1)]
  by (intro books_ok_verify) (simp add: BudgetStore_open_def books_ok_empty)

theorem budget_totals_exact_witness:
  "\<exists>replies st. bud_exec unary_codec sample_calls (BudgetStore_open None) = Some (replies, st)
     \<and> totals_mismatch (bs_db st) = None"
  using sample_runs budget_totals_exact [OF _ sample_named] by blast

section \<open>Hard limits\<close>

text \<open>
  C13: while every reservation in a scope is made under the hard limit \<open>L\<close>, what the scope has
  committed (reserved, settled and held) exceeds \<open>L\<close> by at most the overruns, as long as the calls
  keep every column within \<open>i64\<close>.
\<close>

theorem hard_limit_bound:
  assumes "bud_exec cx calls (BudgetStore_open e) = Some (replies, st)"
    and "\<forall>(_, _, op)\<in>set calls. limited k L op" "int L \<le> i64_max"
  shows "committed_at (bs_db st) k \<le> int L + tt_overrun_micros (totals_at (bs_db st) k)"
proof -
  have "within_limit k L BudgetDb_empty"
    using assms(3) books_ok_empty
    by (simp add: within_limit_def committed_at_def totals_at_def tot_range_def BudgetDb_empty_def totals_zero_def)
  then have "within_limit k L (bs_db st)"
    using hard_limit.exec_keeps [OF _ assms(2,1)] by (simp add: BudgetStore_open_def)
  then show ?thesis by (simp add: within_limit_def)
qed

definition sample_scope :: scope_key where
  "sample_scope = (''tn_a'', TENANT_SCOPE, ''2026-09'')"

lemma sample_limited: "\<forall>(_, _, op)\<in>set sample_calls. limited sample_scope 50000 op"
  by (simp add: sample_calls_def sample_new_def sample_scope_def limited_def limit_of_def TENANT_SCOPE_def)

theorem hard_limit_bound_witness:
  "\<exists>replies st. bud_exec unary_codec sample_calls (BudgetStore_open None) = Some (replies, st)
     \<and> committed_at (bs_db st) sample_scope \<le> 50000 + tt_overrun_micros (totals_at (bs_db st) sample_scope)"
  using sample_runs hard_limit_bound [OF _ sample_limited] by (auto simp: i64_max_def)

text \<open>
  C14: when every run reserves its maximum charge and is settled at what its attempts, measured
  within the run's bounds, are rated at, the committed amount never exceeds the hard limit.
\<close>

theorem budget_never_exceeded:
  assumes "bud_exec cx calls (BudgetStore_open e) = Some (replies, st)"
    and "\<forall>(_, _, op)\<in>set calls. measured_run table day_of bounds k L op" "int L \<le> i64_max"
  shows "committed_at (bs_db st) k \<le> int L"
proof -
  have "no_overrun table bounds k L BudgetDb_empty"
    using assms(3) books_ok_empty
    by (simp add: no_overrun_def within_limit_def committed_at_def totals_at_def tot_range_def
        BudgetDb_empty_def totals_zero_def)
  then have "no_overrun table bounds k L (bs_db st)"
    using money.exec_keeps [OF _ assms(2,1)] by (simp add: BudgetStore_open_def)
  then show ?thesis by (rule no_overrun_total)
qed

lemma builtin_prices [simp]:
  "up_vcpu_second (pt_unit_prices_micros PriceTable_builtin) = 2500"
  "up_gib_second (pt_unit_prices_micros PriceTable_builtin) = 400"
  "up_invocation (pt_unit_prices_micros PriceTable_builtin) = 30"
  "up_gb_transferred (pt_unit_prices_micros PriceTable_builtin) = 15000000"
  "pt_billable_segments PriceTable_builtin = [''user_init_ms'', ''handler_ms'']"
  by (simp_all add: PriceTable_builtin_def)

lemma sample_run:
  "acc_vcpu_milli_ms (run_acc PriceTable_builtin [sample_attempt]) = 200000"
  "acc_mib_ms (run_acc PriceTable_builtin [sample_attempt]) = 102400"
  "acc_transfer_bytes (run_acc PriceTable_builtin [sample_attempt]) = 4000"
  "uq_invocations (acc_usage (run_acc PriceTable_builtin [sample_attempt])) = 1"
  by (simp_all add: run_acc_def acc_add_parts acc_add_attempt_parts Acc_default_def wrap_add128_def
      transfer_add_def usage_add_def UsageQuantities_default_def inc_if_def wrap_add64_def sample_kind)

lemma charge_values:
  "charge 200000 2500 1000000 = 500" "charge 102400 400 1024000 = 40" "charge 1 30 1 = 30"
  "charge 4000 15000000 1000000000 = 60" "charge (15750 * 1000) 2500 1000000 = 39375"
  "charge (15750 * 512) 400 1024000 = 3150" "charge 8000 15000000 1000000000 = 120"
  by (simp_all add: charge_def round_half_up_div_def u64_max_def u128_max_def)

lemmas units = VCPU_MILLI_MS_PER_VCPU_SECOND_def MIB_MS_PER_GIB_SECOND_def BYTES_PER_GB_def

lemma sample_rated: "fst (rated (\<lambda>_. ''2026-09-01'') [sample_attempt] PriceTable_builtin) = 630"
  by (simp add: rated_charge acc_finish_def Let_def sample_run units)
    (simp add: charge_values charge_values(3) [simplified] sat_add64_def u64_max_def)

lemma sample_max: "mc_total_micros (max_charge PriceTable_builtin sample_bounds) = 42675"
proof -
  have loop: "bound_loop sample_bounds (pt_billable_segments PriceTable_builtin) 0 True = (15500, True)"
    by (simp add: sample_bounds_def segment_bound_def sat_add64_def u64_max_def)
  have "mc_billable_ms (max_charge PriceTable_builtin sample_bounds) = 15750"
    "mc_transfer_bytes (max_charge PriceTable_builtin sample_bounds) = 8000"
    unfolding max_charge_def loop Let_def prod.case
    by (simp_all add: sample_bounds_def sat_add64_def sat_mul64_def u64_max_def)
  moreover have "rb_cpu_millis sample_bounds = 1000" "rb_memory_mib sample_bounds = 512"
    by (simp_all add: sample_bounds_def)
  ultimately show ?thesis
    by (simp only: max_charge_total builtin_prices) (simp add: units charge_values [simplified] sat_add64_def u64_max_def)
qed

lemma sample_measured:
  "\<forall>(_, _, op)\<in>set sample_calls.
     measured_run PriceTable_builtin (\<lambda>_. ''2026-09-01'') (\<lambda>_. sample_bounds) sample_scope 50000 op"
  using sample_limited sample_max sample_rated sample_run_within
  by (auto simp: sample_calls_def measured_run_def sample_new_def intro!: exI [of _ "[sample_attempt]"])

theorem budget_never_exceeded_witness:
  "\<exists>replies st. bud_exec unary_codec sample_calls (BudgetStore_open None) = Some (replies, st)
     \<and> committed_at (bs_db st) sample_scope \<le> 50000"
  using sample_runs budget_never_exceeded [OF _ sample_measured] by (auto simp: i64_max_def)

section \<open>Closed reservations, alerts and unmeasured usage\<close>

text \<open>
  C28: a reservation is closed once.  Whatever is called afterwards (a duplicate settlement, a late
  release or expiry, a reservation of the same run), its row stays as it was closed.
\<close>

theorem reservation_closed_once:
  assumes "bud_exec cx calls (BudgetStore_open e) = Some (replies, st)"
    and "\<forall>(_, _, op)\<in>set calls. names_functions op"
    and "bt_get (db_reservations (bs_db st)) i = Some r" "rr_state r \<noteq> ''reserved''"
    and "bud_exec cx later st = Some (replies', st')" "\<forall>(_, _, op)\<in>set later. names_functions op"
  shows "bt_get (db_reservations (bs_db st')) i = Some r"
proof -
  have "books_ok (bs_db st)"
    using books.exec_keeps [OF _ assms(2,1)] by (simp add: BudgetStore_open_def books_ok_empty)
  then have "closed_as i r (bs_db st)" using assms(3,4) by (simp add: closed_as_def)
  then have "closed_as i r (bs_db st')" by (rule closed.exec_keeps [OF _ assms(6,5)])
  then show ?thesis by (simp add: closed_as_def)
qed

lemma sample_parts_named:
  "\<forall>(_, _, op)\<in>set (take n sample_calls). names_functions op"
  "\<forall>(_, _, op)\<in>set (drop n sample_calls). names_functions op"
  using sample_named by (auto dest: in_set_takeD in_set_dropD)

theorem reservation_closed_once_witness:
  "\<exists>replies st r replies' st'.
     bud_exec unary_codec (take 3 sample_calls) (BudgetStore_open None) = Some (replies, st)
     \<and> bud_exec unary_codec (drop 3 sample_calls) st = Some (replies', st')
     \<and> bt_get (db_reservations (bs_db st')) ''inv_1'' = Some r"
  using sample_closed reservation_closed_once [OF _ sample_parts_named(1) _ _ _ sample_parts_named(2)] by metis

text \<open>
  an alert of a threshold fires at most once per scope and period, over any sequence of
  operations.
\<close>

theorem alert_fires_once:
  assumes "bud_exec cx calls st = Some (replies, st')"
  shows "distinct (map alert_key (concat (map alerts_of replies)))"
  using exec_newly [OF assms] by (simp add: newly_fired_def)

theorem alert_fires_once_witness:
  "\<exists>replies st. bud_exec unary_codec sample_calls (BudgetStore_open None) = Some (replies, st)
     \<and> distinct (map alert_key (concat (map alerts_of replies)))"
  using sample_runs alert_fires_once by blast

text \<open>
  a run that never reported back, or whose usage could not be fully measured, gives nothing of
  its reservation back: expiry and an incomplete settlement never lower what any scope has committed.
\<close>

theorem unmeasured_stays_committed:
  assumes "bud_exec cx calls (BudgetStore_open e) = Some (replies, st)"
    and "\<forall>(_, _, op)\<in>set calls. names_functions op"
    and "op = BO_Expire i al \<or> (op = BO_Settle i s al \<and> \<not> se_complete s)"
    and "bud_step cx env now op st = Some (reply, st')"
  shows "committed_at (bs_db st) k \<le> committed_at (bs_db st') k"
proof -
  have ok: "books_ok (bs_db st)"
    using books.exec_keeps [OF _ assms(2,1)] by (simp add: BudgetStore_open_def books_ok_empty)
  obtain plan res where tx: "with_tx env (transition_tx cx i now al plan) st = Some (res, st')"
    and which: "plan = expire_plan now \<or> (plan = settle_plan s \<and> \<not> se_complete s)"
    using assms(3,4) by (auto simp: settle_def bs_expire_def transition_def apfst_def map_prod_def)
  have plan: "plan_ok plan" "\<And>row to m h why. plan row = Some (to, m, h, why) \<Longrightarrow> rw_reserved_micros row \<le> m + h"
    using which by (auto simp: settle_plan_def expire_plan_def split: if_splits)
  show ?thesis using tx
  proof (rule with_tx_cases)
    fix t db'
    assume t: "transition_tx cx i now al plan (bs_db st) = Tx_Ok t db'" and st': "bs_db st' = db'"
    show ?thesis
      unfolding st' by (rule transition_keeps_committed [OF ok t plan])
  qed (simp add: committed_at_def)
qed

theorem unmeasured_stays_committed_witness:
  "\<exists>replies st reply st'.
     bud_exec unary_codec (take 1 sample_calls) (BudgetStore_open None) = Some (replies, st)
     \<and> bud_step unary_codec calm 20 (BO_Expire ''inv_1'' sample_alerts) st = Some (reply, st')
     \<and> committed_at (bs_db st) sample_scope \<le> committed_at (bs_db st') sample_scope"
  using sample_expired unmeasured_stays_committed [OF _ sample_parts_named(1) disjI1 [OF refl]] by metis

end
