(* ===== verification/Usage_Ledger.thy ===== *)
theory Usage_Ledger
  imports Usage_Journal
begin

text \<open>
  \<open>crates/application/src/usage/ledger.rs\<close>: the usage ledger.  It accepts events by their
  \<open>event_id\<close>, the primary key, so whatever is delivered again lands at most once.  Only the columns a
  query reads are kept apart from the JSON body; the clock of the host is \<open>received_at\<close>.
\<close>

record ledger_row =
  lw_schema_version :: nat
  lw_tenant_id :: string
  lw_function_id :: "string option"
  lw_revision_id :: "string option"
  lw_invocation_id :: "string option"
  lw_attempt_id :: "string option"
  lw_environment_id :: string
  lw_epoch :: nat
  lw_sequence :: nat
  lw_event_type :: string
  lw_observed_at :: string
  lw_received_at :: string
  lw_wall_clock_skew_ms :: int
  lw_body :: string

record LedgerDb =
  ld_events :: "(string, ledger_row) btreemap"
  ld_accepted :: nat
  ld_duplicates :: nat

definition LedgerDb_empty :: LedgerDb where
  "LedgerDb_empty = \<lparr> ld_events = bt_empty, ld_accepted = 0, ld_duplicates = 0 \<rparr>"

record UsageLedger =
  ul_db :: LedgerDb
  ul_unavailable :: bool

definition UsageLedger_open :: UsageLedger where
  "UsageLedger_open = \<lparr> ul_db = LedgerDb_empty, ul_unavailable = False \<rparr>"

definition ul_force_unavailable :: "bool \<Rightarrow> UsageLedger \<Rightarrow> UsageLedger" where
  "ul_force_unavailable unavailable l = l\<lparr> ul_unavailable := unavailable \<rparr>"

record AcceptReport =
  ac_inserted :: nat
  ac_duplicates :: nat

text \<open>\<open>num_milliseconds\<close> truncates towards zero.\<close>

definition skew_ms :: "Timestamp \<Rightarrow> Timestamp \<Rightarrow> int" where
  "skew_ms received observed =
     (let d = received - observed in if d < 0 then - ((- d) div nanos_per_milli) else d div nanos_per_milli)"

definition ledger_row_of :: "UsageCodec \<Rightarrow> Timestamp \<Rightarrow> string \<Rightarrow> UsageEvent \<Rightarrow> ledger_row" where
  "ledger_row_of cx received_at body e =
     \<lparr> lw_schema_version = ue_meter_version e, lw_tenant_id = as_str (ue_tenant_id e),
       lw_function_id = map_option as_str (ue_function_id e),
       lw_revision_id = map_option as_str (ue_revision_id e),
       lw_invocation_id = map_option as_str (ue_invocation_id e),
       lw_attempt_id = map_option as_str (ue_attempt_id e),
       lw_environment_id = as_str (ue_environment_id e), lw_epoch = ue_epoch e,
       lw_sequence = ue_sequence e, lw_event_type = UsageEventType_as_str (ue_event_type e),
       lw_observed_at = uc_ts cx (ue_observed_at e), lw_received_at = uc_ts cx received_at,
       lw_wall_clock_skew_ms = skew_ms received_at (ue_observed_at e), lw_body = body \<rparr>"

fun accept_loop ::
  "UsageCodec \<Rightarrow> Timestamp \<Rightarrow> UsageEvent list \<Rightarrow> AcceptReport \<Rightarrow> (string, ledger_row) btreemap
     \<Rightarrow> string + AcceptReport \<times> (string, ledger_row) btreemap" where
  "accept_loop cx received_at [] report m = Inr (report, m)"
| "accept_loop cx received_at (e # es) report m =
     and_then (uc_json cx e) (\<lambda>body.
       case bt_get m (ue_event_id e) of
         None \<Rightarrow> accept_loop cx received_at es (report\<lparr> ac_inserted := ac_inserted report + 1 \<rparr>)
                   (bt_insert (ue_event_id e) (ledger_row_of cx received_at body e) m)
       | Some _ \<Rightarrow> accept_loop cx received_at es (report\<lparr> ac_duplicates := ac_duplicates report + 1 \<rparr>) m)"

definition accept_db ::
  "UsageCodec \<Rightarrow> UsageEvent list \<Rightarrow> Timestamp \<Rightarrow> LedgerDb \<Rightarrow> string + AcceptReport \<times> LedgerDb" where
  "accept_db cx events received_at db =
     and_then (accept_loop cx received_at events \<lparr> ac_inserted = 0, ac_duplicates = 0 \<rparr> (ld_events db)) (\<lambda>(report, m).
       Inr (report, db\<lparr> ld_events := m, ld_accepted := ld_accepted db + ac_inserted report,
              ld_duplicates := ld_duplicates db + ac_duplicates report \<rparr>))"

text \<open>The connection, or the refusal of a caller that waited too long for it.\<close>

definition ul_connection :: "SqlEnv \<Rightarrow> string + unit" where
  "ul_connection env =
     (if sq_locked env then Inl (''usage ledger unavailable: '' @ busy_message ''usage ledger'') else Inr ())"

definition sql_ok :: "SqlEnv \<Rightarrow> string + unit" where
  "sql_ok env = (case sq_fault env of Some (msg, _) \<Rightarrow> Inl msg | None \<Rightarrow> Inr ())"

definition accept ::
  "UsageCodec \<Rightarrow> SqlEnv \<Rightarrow> UsageEvent list \<Rightarrow> Timestamp \<Rightarrow> UsageLedger \<Rightarrow> (string + AcceptReport) \<times> UsageLedger" where
  "accept cx env events received_at l =
     (if ul_unavailable l then (Inl ''usage ledger unavailable (forced)'', l)
      else case and_then (ul_connection env) (\<lambda>_. and_then (sql_ok env) (\<lambda>_.
                  accept_db cx events received_at (ul_db l))) of
             Inl e \<Rightarrow> (Inl e, l)
           | Inr (report, db) \<Rightarrow> (Inr report, l\<lparr> ul_db := db \<rparr>))"

text \<open>The selected bodies, parsed; a body of another tenant is left out.\<close>

fun parse_bodies :: "UsageCodec \<Rightarrow> string \<Rightarrow> string list \<Rightarrow> string + UsageEvent list" where
  "parse_bodies cx tenant [] = Inr []"
| "parse_bodies cx tenant (b # bs) =
     and_then (uc_parse cx b) (\<lambda>e. and_then (parse_bodies cx tenant bs) (\<lambda>es.
       Inr (if as_str (ue_tenant_id e) = tenant then e # es else es)))"

definition events_for ::
  "UsageCodec \<Rightarrow> SqlEnv \<Rightarrow> TenantId \<Rightarrow> FunctionId option \<Rightarrow> Timestamp \<Rightarrow> Timestamp \<Rightarrow> UsageLedger
     \<Rightarrow> string + UsageEvent list" where
  "events_for cx env tenant function from to l =
     and_then (ul_connection env) (\<lambda>_. and_then (sql_ok env) (\<lambda>_.
       parse_bodies cx (as_str tenant) (map (lw_body \<circ> snd)
         (sort_key (\<lambda>(i, r). (lw_observed_at r, i))
           (filter (\<lambda>(_, r). lw_tenant_id r = as_str tenant
                \<and> lw_observed_at r \<ge> uc_ts cx from \<and> lw_observed_at r < uc_ts cx to
                \<and> (case function of None \<Rightarrow> True | Some f \<Rightarrow> lw_function_id r = Some (as_str f)))
             (bt_entries (ld_events (ul_db l))))))))"

fun settled_loop :: "UsageCodec \<Rightarrow> string \<Rightarrow> (string \<times> ledger_row) list \<Rightarrow> string list \<Rightarrow> string + UsageEvent list" where
  "settled_loop cx tenant rows [] = Inr []"
| "settled_loop cx tenant rows (attempt # attempts) =
     and_then (parse_bodies cx tenant (map (lw_body \<circ> snd)
         (filter (\<lambda>(_, r). lw_tenant_id r = tenant \<and> lw_attempt_id r = Some attempt
            \<and> lw_event_type r = ''attempt_settled'') rows))) (\<lambda>es.
       and_then (settled_loop cx tenant rows attempts) (\<lambda>es'. Inr (es @ es')))"

definition attempt_settled_events ::
  "UsageCodec \<Rightarrow> SqlEnv \<Rightarrow> string \<Rightarrow> string list \<Rightarrow> UsageLedger \<Rightarrow> string + UsageEvent list" where
  "attempt_settled_events cx env tenant attempt_ids l =
     (if ul_unavailable l then Inl ''usage ledger unavailable (forced)''
      else and_then (ul_connection env) (\<lambda>_. and_then (sql_ok env) (\<lambda>_.
        settled_loop cx tenant (bt_entries (ld_events (ul_db l))) attempt_ids)))"

definition recorded_skew_ms :: "SqlEnv \<Rightarrow> string \<Rightarrow> UsageLedger \<Rightarrow> int option" where
  "recorded_skew_ms env event_id l =
     (case and_then (ul_connection env) (\<lambda>_. sql_ok env) of
        Inl _ \<Rightarrow> None
      | Inr _ \<Rightarrow> map_option lw_wall_clock_skew_ms (bt_get (ld_events (ul_db l)) event_id))"

record LedgerStats =
  ls_events :: nat
  ls_duplicates_ignored :: nat

definition ul_stats :: "SqlEnv \<Rightarrow> UsageLedger \<Rightarrow> string + LedgerStats" where
  "ul_stats env l = and_then (ul_connection env) (\<lambda>_. and_then (sql_ok env) (\<lambda>_.
     Inr \<lparr> ls_events = bt_len (ld_events (ul_db l)), ls_duplicates_ignored = ld_duplicates (ul_db l) \<rparr>))"

section \<open>Delivery\<close>

text \<open>The ledger keeps the first delivery of an event and every id it ever accepted.\<close>

lemma accept_loop_events:
  assumes "accept_loop cx now es report m = Inr (report', m')"
  shows "bt_get m' i =
    (case bt_get m i of
       Some r \<Rightarrow> Some r
     | None \<Rightarrow> map_option (\<lambda>e. ledger_row_of cx now (projr (uc_json cx e)) e) (find (\<lambda>e. ue_event_id e = i) es))"
  using assms
proof (induction es arbitrary: report m)
  case (Cons e es)
  obtain body where body: "uc_json cx e = Inr body" using Cons.prems by auto
  show ?case
  proof (cases "bt_get m (ue_event_id e)")
    case None
    then have "bt_get m' i = (case bt_get (bt_insert (ue_event_id e) (ledger_row_of cx now body e) m) i of
        Some r \<Rightarrow> Some r
      | None \<Rightarrow> map_option (\<lambda>e. ledger_row_of cx now (projr (uc_json cx e)) e) (find (\<lambda>e. ue_event_id e = i) es))"
      using Cons.prems body by (intro Cons.IH) auto
    then show ?thesis using None body by (cases "ue_event_id e = i") (auto split: option.split)
  next
    case (Some r)
    then have "bt_get m' i = (case bt_get m i of Some r \<Rightarrow> Some r
      | None \<Rightarrow> map_option (\<lambda>e. ledger_row_of cx now (projr (uc_json cx e)) e) (find (\<lambda>e. ue_event_id e = i) es))"
      using Cons.prems body by (intro Cons.IH) auto
    then show ?thesis using Some by (cases "ue_event_id e = i") (auto split: option.split)
  qed
qed (simp split: option.split)

lemma accept_db_events:
  assumes "accept_db cx es now db = Inr (report, db')"
  shows "bt_get (ld_events db') i =
    (case bt_get (ld_events db) i of
       Some r \<Rightarrow> Some r
     | None \<Rightarrow> map_option (\<lambda>e. ledger_row_of cx now (projr (uc_json cx e)) e) (find (\<lambda>e. ue_event_id e = i) es))"
  using assms accept_loop_events by (fastforce simp: accept_db_def)

lemma accept_loop_total: "\<forall>e\<in>set es. \<exists>b. uc_json cx e = Inr b \<Longrightarrow> \<exists>p. accept_loop cx now es report m = Inr p"
proof (induction es arbitrary: report m)
  case (Cons e es)
  then obtain body where "uc_json cx e = Inr body" by auto
  then show ?case using Cons by (cases "bt_get m (ue_event_id e)") simp_all
qed simp

lemma accept_db_total: "\<forall>e\<in>set es. \<exists>b. uc_json cx e = Inr b \<Longrightarrow> \<exists>report db'. accept_db cx es now db = Inr (report, db')"
  using accept_loop_total [of es cx now "\<lparr> ac_inserted = 0, ac_duplicates = 0 \<rparr>" "ld_events db"]
  by (auto simp: accept_db_def)

end
