(* ===== verification/Usage_Collector.thy ===== *)
theory Usage_Collector
  imports Usage_Ledger App_Errors Rating
begin

text \<open>
  \<open>crates/application/src/usage/config.rs\<close> and \<open>mod.rs\<close>: the configuration of metering and its
  validation, the admission of an invocation by the journal, the collector that delivers the journal
  to the ledger, the report of a tenant, and the sink the driver emits into.  Every call into a store
  meets its own environment: a function from the number of the call.  The clock is read through
  \<open>clk\<close> in the same way.
\<close>

section \<open>Configuration\<close>

datatype Profile = Dev | Production

datatype JournalFullPolicy = JP_Refuse | JP_AcceptUnmetered

fun JournalFullPolicy_as_str :: "JournalFullPolicy \<Rightarrow> string" where
  "JournalFullPolicy_as_str JP_Refuse = ''refuse''"
| "JournalFullPolicy_as_str JP_AcceptUnmetered = ''accept_unmetered''"

definition BILLING_ENABLED :: bool where
  "BILLING_ENABLED = False"

text \<open>The integers are \<open>u64\<close> and \<open>usize\<close> values; none is computed with here.\<close>

record UsageConfig =
  ug_journal_max_events :: nat
  ug_journal_max_bytes :: nat
  ug_admission_headroom_events :: nat
  ug_admission_headroom_bytes :: nat
  ug_on_journal_full :: JournalFullPolicy
  ug_collect_interval_ms :: nat
  ug_collect_batch :: nat
  ug_price_table :: "string option"
  ug_billing_enabled :: bool

definition UsageConfig_default :: UsageConfig where
  "UsageConfig_default = \<lparr> ug_journal_max_events = 100000, ug_journal_max_bytes = 64 * 1024 * 1024,
     ug_admission_headroom_events = 1000, ug_admission_headroom_bytes = 1024 * 1024,
     ug_on_journal_full = JP_Refuse, ug_collect_interval_ms = 1000, ug_collect_batch = 500,
     ug_price_table = None, ug_billing_enabled = False \<rparr>"

definition ug_limits :: "UsageConfig \<Rightarrow> JournalLimits" where
  "ug_limits c = \<lparr> jl_max_events = ug_journal_max_events c, jl_max_bytes = ug_journal_max_bytes c,
     jl_admission_headroom_events = ug_admission_headroom_events c,
     jl_admission_headroom_bytes = ug_admission_headroom_bytes c \<rparr>"

definition UsageConfig_validate :: "Profile \<Rightarrow> UsageConfig \<Rightarrow> string + unit" where
  "UsageConfig_validate profile c =
     (if ug_billing_enabled c
      then Inl ''[usage.billing] enabled = true is not supported: billing is hard-disabled in this prototype (usage is metered and rated provisionally, never invoiced)''
      else if ug_on_journal_full c = JP_AcceptUnmetered \<and> profile \<noteq> Dev
      then Inl ''[usage] on_journal_full = \"accept_unmetered\" is only allowed with profile = \"dev\": production refuses invocations it cannot meter''
      else if ug_journal_max_events c = 0 \<or> ug_journal_max_bytes c = 0
      then Inl ''[usage] journal_max_events and journal_max_bytes must be >= 1''
      else if ug_admission_headroom_events c \<ge> ug_journal_max_events c
              \<or> ug_admission_headroom_bytes c \<ge> ug_journal_max_bytes c
      then Inl ''[usage] admission_headroom_events / _bytes must be below journal_max_events / _bytes''
      else if ug_collect_interval_ms c < 10 then Inl ''[usage] collect_interval_ms must be >= 10''
      else if ug_collect_batch c = 0 then Inl ''[usage] collect_batch must be >= 1''
      else Inr ())"

section \<open>The meter\<close>

record CollectReport =
  cr_batches :: nat
  cr_read :: nat
  cr_inserted :: nat
  cr_duplicates :: nat
  cr_cursor_seq :: nat

definition CollectReport_default :: CollectReport where
  "CollectReport_default = \<lparr> cr_batches = 0, cr_read = 0, cr_inserted = 0, cr_duplicates = 0, cr_cursor_seq = 0 \<rparr>"

record CollectorStatus =
  ct_runs :: nat
  ct_last_run_at :: "Timestamp option"
  ct_last_success_at :: "Timestamp option"
  ct_last_error :: "string option"
  ct_delivered :: nat
  ct_inserted :: nat
  ct_duplicates :: nat

definition CollectorStatus_default :: CollectorStatus where
  "CollectorStatus_default = \<lparr> ct_runs = 0, ct_last_run_at = None, ct_last_success_at = None,
     ct_last_error = None, ct_delivered = 0, ct_inserted = 0, ct_duplicates = 0 \<rparr>"

datatype MeteringAdmission = Is_Metered | Is_Unmetered JournalRefusal

record UsageMeter =
  um_config :: UsageConfig
  um_journal :: UsageJournal
  um_ledger :: UsageLedger
  um_price_table :: PriceTable
  um_collector :: CollectorStatus
  um_crash_after_ledger_commit :: bool
  um_pause_flag :: "string option"

text \<open>
  \<open>UsageMeter::open\<close> on new databases.  \<open>load\<close> reads a price table file, \<open>crash_point\<close> is the value of
  the environment variable, \<open>je\<close> and \<open>le\<close> are the errors of opening the two databases.
\<close>

definition UsageMeter_open ::
  "(string \<Rightarrow> string + PriceTable) \<Rightarrow> string option \<Rightarrow> string option \<Rightarrow> string option \<Rightarrow> UsageConfig
     \<Rightarrow> string option \<Rightarrow> Profile \<Rightarrow> string + UsageMeter" where
  "UsageMeter_open load crash_point je le config data_dir profile =
     and_then (UsageConfig_validate profile config) (\<lambda>_.
     and_then (case ug_price_table config of Some path \<Rightarrow> load path | None \<Rightarrow> Inr PriceTable_builtin) (\<lambda>table.
       let dir = map_option (\<lambda>d. d @ ''/usage'') data_dir;
           journal = UsageJournal_open (map_option (\<lambda>d. d @ ''/journal.db'') dir) je (ug_limits config)
       in and_then (case le of Some e \<Rightarrow> Inl e | None \<Rightarrow> Inr UsageLedger_open) (\<lambda>ledger.
            Inr \<lparr> um_config = config, um_journal = journal, um_ledger = ledger, um_price_table = table,
                  um_collector = CollectorStatus_default,
                  um_crash_after_ledger_commit = (profile = Dev \<and> crash_point = Some ''collector.after_ledger_commit''),
                  um_pause_flag = (if profile = Dev then map_option (\<lambda>d. d @ ''/collector.pause'') dir else None) \<rparr>)))"

definition admit_refusal :: "(nat \<Rightarrow> SqlEnv) \<Rightarrow> UsageJournal \<Rightarrow> JournalRefusal option \<times> UsageJournal" where
  "admit_refusal env j =
     (case uj_admission (env 0) j of
        (Inr _, j) \<Rightarrow> (None, j)
      | (Inl JF_Full, j) \<Rightarrow> (Some JF_Full, j)
      | (Inl JF_Unavailable, j) \<Rightarrow>
          (case uj_probe (env 1) j of
             (False, j) \<Rightarrow> (Some JF_Unavailable, j)
           | (True, j) \<Rightarrow>
               (case uj_admission (env 2) j of
                  (Inr _, j) \<Rightarrow> (None, j)
                | (Inl r, j) \<Rightarrow> (Some r, j))))"

definition um_admit :: "(nat \<Rightarrow> SqlEnv) \<Rightarrow> UsageMeter \<Rightarrow> (AppError + MeteringAdmission) \<times> UsageMeter" where
  "um_admit env m =
     (case admit_refusal env (um_journal m) of
        (None, j) \<Rightarrow> (Inr Is_Metered, m\<lparr> um_journal := j \<rparr>)
      | (Some refusal, j) \<Rightarrow>
          (case ug_on_journal_full (um_config m) of
             JP_AcceptUnmetered \<Rightarrow> Inr (Is_Unmetered refusal)
           | JP_Refuse \<Rightarrow> Inl (AE_UsageJournal refusal
               (case refusal of
                  JF_Full \<Rightarrow> ''the usage journal is full: new invocations are refused until the collector catches up''
                | JF_Unavailable \<Rightarrow> ''the usage journal is unavailable: new invocations are refused until it can be written'')),
           m\<lparr> um_journal := j \<rparr>))"

section \<open>Collection\<close>

text \<open>
  How a pass of the collector goes on: it stops with a result (\<open>None\<close> when the armed crash point
  killed the process) or starts the next batch.
\<close>

type_synonym collect_result = "(string + CollectReport) option"

definition collect_batch ::
  "UsageCodec \<Rightarrow> (nat \<Rightarrow> SqlEnv) \<Rightarrow> (nat \<Rightarrow> Timestamp) \<Rightarrow> nat \<Rightarrow> CollectReport \<Rightarrow> UsageMeter
     \<Rightarrow> collect_result \<times> UsageMeter + CollectReport \<times> UsageMeter" where
  "collect_batch cx env clk k report m =
     (case read_batch cx (env k) (ug_collect_batch (um_config m)) (um_journal m) of
        (Inl e, j) \<Rightarrow> Inl (Some (Inl e), m\<lparr> um_journal := j \<rparr>)
      | (Inr (cursor, chain, entries), j) \<Rightarrow>
          if entries = [] then Inl (Some (Inr (report\<lparr> cr_cursor_seq := cursor \<rparr>)), m\<lparr> um_journal := j \<rparr>)
          else (case accept cx (env (k + 1)) (map je_event entries) (clk (k + 1)) (um_ledger m) of
                  (Inl e, l) \<Rightarrow> Inl (Some (Inl e), m\<lparr> um_journal := j, um_ledger := l \<rparr>)
                | (Inr accepted, l) \<Rightarrow>
                    let report = report\<lparr> cr_batches := cr_batches report + 1,
                          cr_read := cr_read report + length entries,
                          cr_inserted := cr_inserted report + ac_inserted accepted,
                          cr_duplicates := cr_duplicates report + ac_duplicates accepted,
                          cr_cursor_seq := cursor \<rparr>
                    in if um_crash_after_ledger_commit m then Inl (None, m\<lparr> um_journal := j, um_ledger := l \<rparr>)
                       else (case commit_cursor (env (k + 2)) cursor (je_seq (last entries)) (je_chain (last entries)) j of
                               (Inl e, j) \<Rightarrow> Inl (Some (Inl e), m\<lparr> um_journal := j, um_ledger := l \<rparr>)
                             | (Inr False, j) \<Rightarrow> Inr (report, m\<lparr> um_journal := j, um_ledger := l \<rparr>)
                             | (Inr True, j) \<Rightarrow>
                                 Inr (report\<lparr> cr_cursor_seq := je_seq (last entries) \<rparr>,
                                      m\<lparr> um_journal := j, um_ledger := l \<rparr>))))"

text \<open>The rows that wait for collection; they become fewer with every batch.\<close>

definition waiting_rows :: "UsageJournal \<Rightarrow> (nat \<times> journal_row) list" where
  "waiting_rows j = filter (\<lambda>(seq, _). seq > jd_cursor_seq (uj_db j)) (bt_entries (jd_rows (uj_db j)))"

lemma with_conn_ok:
  "with_conn env f j = (Inr v, j') \<Longrightarrow>
     v = fst (f (uj_db j)) \<and> j' = j\<lparr> uj_db := snd (f (uj_db j)) \<rparr> \<and> uj_open j"
  by (auto simp: with_conn_def Let_def split: if_splits option.splits prod.splits)

lemma with_conn_error: "with_conn env f j = (Inl e, j') \<Longrightarrow> uj_db j' = uj_db j"
  by (auto simp: with_conn_def Let_def split: if_splits option.splits prod.splits)

lemma check_rows_seqs: "check_rows cx previous rows = Inr entries \<Longrightarrow> map je_seq entries = map fst rows"
  by (induction cx previous rows arbitrary: entries rule: check_rows.induct)
     (auto split: if_splits sum.splits)

lemma read_batch_ok:
  assumes "read_batch cx env limit j = (Inr (cursor, chain, entries), j')"
  shows "j' = j" "cursor = jd_cursor_seq (uj_db j)" "chain = jd_cursor_chain (uj_db j)"
    "check_rows cx chain (take limit (waiting_rows j)) = Inr entries"
  using assms
  by (auto simp: read_batch_def rows_after_def waiting_rows_def split: sum.splits prod.splits dest!: with_conn_ok)

lemma read_batch_error: "read_batch cx env limit j = (Inl e, j') \<Longrightarrow> uj_db j' = uj_db j"
  by (auto simp: read_batch_def split: sum.splits prod.splits dest!: with_conn_ok with_conn_error)

lemma commit_cursor_ok:
  "commit_cursor env from_seq to_seq to_chain j = (Inr moved, j') \<Longrightarrow>
     (moved \<longleftrightarrow> jd_cursor_seq (uj_db j) = from_seq)
     \<and> j' = j\<lparr> uj_db := snd (commit_tx from_seq to_seq to_chain (uj_db j)) \<rparr>"
  unfolding commit_cursor_def by (drule with_conn_ok) (auto simp: commit_tx_def Let_def)

lemma commit_cursor_error: "commit_cursor env from_seq to_seq to_chain j = (Inl e, j') \<Longrightarrow> uj_db j' = uj_db j"
  unfolding commit_cursor_def by (rule with_conn_error)

text \<open>Committing the last of the waiting rows leaves strictly fewer of them.\<close>

lemma waiting_rows_commit:
  assumes "(to_seq, r) \<in> set (waiting_rows j)"
    and "uj_db j' = snd (commit_tx (jd_cursor_seq (uj_db j)) to_seq to_chain (uj_db j))"
  shows "length (waiting_rows j') < length (waiting_rows j)"
proof -
  have above: "jd_cursor_seq (uj_db j) < to_seq"
    using assms(1) by (simp add: waiting_rows_def)
  have "waiting_rows j' = filter (\<lambda>(seq, _). to_seq < seq) (waiting_rows j)"
    using above assms(2)
    by (auto simp: waiting_rows_def commit_tx_def Let_def bt_retain.rep_eq intro!: filter_cong)
  also have "length \<dots> < length (waiting_rows j)"
    using assms(1) by (intro length_filter_less [where x = "(to_seq, r)"]) auto
  finally show ?thesis .
qed

lemma last_entry_waits:
  assumes "check_rows cx chain (take limit (waiting_rows j)) = Inr entries" "entries \<noteq> []"
  obtains r where "(je_seq (last entries), r) \<in> set (waiting_rows j)"
proof -
  have "je_seq (last entries) \<in> set (map je_seq entries)" using assms(2) by simp
  then show thesis
    using that check_rows_seqs [OF assms(1)] by (auto dest!: in_set_takeD)
qed

lemma collect_batch_continues:
  assumes "collect_batch cx env clk k report m = Inr (report', m')"
  obtains entries where "entries \<noteq> []"
    "check_rows cx (jd_cursor_chain (uj_db (um_journal m)))
       (take (ug_collect_batch (um_config m)) (waiting_rows (um_journal m))) = Inr entries"
    "uj_db (um_journal m') = snd (commit_tx (jd_cursor_seq (uj_db (um_journal m))) (je_seq (last entries))
       (je_chain (last entries)) (uj_db (um_journal m)))"
proof -
  obtain cursor chain entries j l accepted moved j' where *:
    "read_batch cx (env k) (ug_collect_batch (um_config m)) (um_journal m) = (Inr (cursor, chain, entries), j)"
    "entries \<noteq> []"
    "accept cx (env (k + 1)) (map je_event entries) (clk (k + 1)) (um_ledger m) = (Inr accepted, l)"
    "commit_cursor (env (k + 2)) cursor (je_seq (last entries)) (je_chain (last entries)) j = (Inr moved, j')"
    "um_journal m' = j'"
    using assms
    by (auto simp: collect_batch_def Let_def split: prod.splits sum.splits if_splits bool.splits)
  show thesis
    using that [OF *(2)] read_batch_ok [OF *(1)] commit_cursor_ok [OF *(4)] *(5) by simp
qed

lemma collect_batch_progress:
  assumes "collect_batch cx env clk k report m = Inr (report', m')"
  shows "length (waiting_rows (um_journal m')) < length (waiting_rows (um_journal m))"
  using assms by (rule collect_batch_continues) (metis last_entry_waits waiting_rows_commit)

function collect_loop ::
  "UsageCodec \<Rightarrow> (nat \<Rightarrow> SqlEnv) \<Rightarrow> (nat \<Rightarrow> Timestamp) \<Rightarrow> nat \<Rightarrow> CollectReport \<Rightarrow> UsageMeter
     \<Rightarrow> collect_result \<times> UsageMeter" where
  "collect_loop cx env clk k report m =
     (case collect_batch cx env clk k report m of
        Inl r \<Rightarrow> r
      | Inr (report, m) \<Rightarrow> collect_loop cx env clk (k + 3) report m)"
  by pat_completeness auto
termination
  by (relation "measure (\<lambda>(_, _, _, _, _, m). length (waiting_rows (um_journal m)))")
     (auto dest: collect_batch_progress)

declare collect_loop.simps [simp del]

definition collect_locked ::
  "UsageCodec \<Rightarrow> (nat \<Rightarrow> SqlEnv) \<Rightarrow> (nat \<Rightarrow> Timestamp) \<Rightarrow> UsageMeter \<Rightarrow> collect_result \<times> UsageMeter" where
  "collect_locked cx env clk m =
     collect_loop cx env clk 1 CollectReport_default (m\<lparr> um_journal := snd (uj_probe (env 0) (um_journal m)) \<rparr>)"

definition collect_outcome :: "Timestamp \<Rightarrow> collect_result \<times> UsageMeter \<Rightarrow> collect_result \<times> UsageMeter" where
  "collect_outcome after res =
     (case res of
        (None, m) \<Rightarrow> (None, m)
      | (Some (Inr r), m) \<Rightarrow>
          (Some (Inr r), m\<lparr> um_collector := (um_collector m)\<lparr> ct_last_success_at := Some after, ct_last_error := None,
             ct_delivered := ct_delivered (um_collector m) + cr_read r,
             ct_inserted := ct_inserted (um_collector m) + cr_inserted r,
             ct_duplicates := ct_duplicates (um_collector m) + cr_duplicates r \<rparr> \<rparr>)
      | (Some (Inl e), m) \<Rightarrow> (Some (Inl e), m\<lparr> um_collector := (um_collector m)\<lparr> ct_last_error := Some e \<rparr> \<rparr>))"

text \<open>
  \<open>collect\<close>: \<open>exists\<close> says whether the pause flag file is there; \<open>after\<close> is the instant after the pass.
\<close>

definition um_collect ::
  "UsageCodec \<Rightarrow> (nat \<Rightarrow> SqlEnv) \<Rightarrow> (nat \<Rightarrow> Timestamp) \<Rightarrow> (string \<Rightarrow> bool) \<Rightarrow> Timestamp \<Rightarrow> UsageMeter
     \<Rightarrow> collect_result \<times> UsageMeter" where
  "um_collect cx env clk exists after m =
     (let m = m\<lparr> um_collector := (um_collector m)\<lparr> ct_runs := ct_runs (um_collector m) + 1,
                   ct_last_run_at := Some (clk 0) \<rparr> \<rparr>
      in case um_pause_flag m of
           Some flag \<Rightarrow>
             if exists flag
             then (let e = ''collector paused by '' @ flag @ '' (dev profile, test only)''
                   in (Some (Inl e), m\<lparr> um_collector := (um_collector m)\<lparr> ct_last_error := Some e \<rparr> \<rparr>))
             else collect_outcome after (collect_locked cx env clk m)
         | None \<Rightarrow> collect_outcome after (collect_locked cx env clk m))"

section \<open>Status and report\<close>

record UsageStatus =
  us_accepting :: bool
  us_metered :: bool
  us_policy :: string
  us_billing_enabled :: bool
  us_price_table_version :: string
  us_journal :: JournalStatus
  us_collector :: CollectorStatus
  us_ledger :: "LedgerStats option"

definition um_status :: "(nat \<Rightarrow> SqlEnv) \<Rightarrow> UsageMeter \<Rightarrow> UsageStatus \<times> UsageMeter" where
  "um_status env m =
     (let (journal, j) = uj_status (env 0) (env 1) (um_journal m);
          metered = js_healthy journal \<and> js_admitting journal
      in (\<lparr> us_accepting = (metered \<or> ug_on_journal_full (um_config m) = JP_AcceptUnmetered),
            us_metered = metered, us_policy = JournalFullPolicy_as_str (ug_on_journal_full (um_config m)),
            us_billing_enabled = BILLING_ENABLED, us_price_table_version = pt_version (um_price_table m),
            us_journal = journal, us_collector = um_collector m,
            us_ledger = (case ul_stats (env 2) (um_ledger m) of Inl _ \<Rightarrow> None | Inr s \<Rightarrow> Some s) \<rparr>,
          m\<lparr> um_journal := j \<rparr>))"

definition MAX_REPORT_DAYS :: int where
  "MAX_REPORT_DAYS = 92"

definition nanos_per_day :: int where
  "nanos_per_day = 24 * 60 * 60 * 1000 * nanos_per_milli"

definition PROVISIONAL_NOTICE :: string where
  "PROVISIONAL_NOTICE = ''provisional usage estimate: not an invoice, nothing is charged, billing is disabled in this prototype''"

record UsageQuery =
  uq_from :: "Timestamp option"
  uq_to :: "Timestamp option"
  uq_group_by :: "string option"
  uq_function_id :: "FunctionId option"

record UsageReportResponse =
  ur_provisional :: bool
  ur_not_an_invoice :: bool
  ur_billing_enabled :: bool
  ur_notice :: string
  ur_tenant_id :: string
  ur_function_id :: "string option"
  ur_from :: Timestamp
  ur_to :: Timestamp
  ur_group_by :: "string list"
  ur_price_table :: PriceTable
  ur_lines :: "UsageReportLine list"
  ur_totals :: UsageReportLine
  ur_unjournaled_events :: nat
  ur_collected_through :: "Timestamp option"

text \<open>The range a query asks for, or why it is refused; \<open>rfc3339\<close> prints an instant.\<close>

definition report_range ::
  "(Timestamp \<Rightarrow> string) \<Rightarrow> PriceTable \<Rightarrow> Timestamp \<Rightarrow> UsageQuery \<Rightarrow> AppError + Timestamp \<times> Timestamp" where
  "report_range rfc3339 table now query =
     (let to = (case uq_to query of Some t \<Rightarrow> t | None \<Rightarrow> now);
          from = (case uq_from query of Some t \<Rightarrow> t
                  | None \<Rightarrow> max (to - 31 * nanos_per_day) (pt_effective_from table))
      in if from \<ge> to then Inl (AE_InvalidRequest ''usage: `from` must be before `to`'')
         else if to - from > MAX_REPORT_DAYS * nanos_per_day
         then Inl (AE_InvalidRequest (''usage: the range must not exceed '' @ show_nat (nat MAX_REPORT_DAYS) @ '' days''))
         else if from < pt_effective_from table
         then Inl (AE_InvalidRequest (''usage: `from` is before the price table's effective_from (''
                @ rfc3339 (pt_effective_from table) @ ''); one report is rated with one table''))
         else Inr (from, to))"

definition um_report ::
  "UsageCodec \<Rightarrow> (nat \<Rightarrow> SqlEnv) \<Rightarrow> (Timestamp \<Rightarrow> string) \<Rightarrow> (Timestamp \<Rightarrow> string) \<Rightarrow> Timestamp \<Rightarrow> Principal
     \<Rightarrow> UsageQuery \<Rightarrow> UsageMeter \<Rightarrow> (AppError + UsageReportResponse) \<times> UsageMeter" where
  "um_report cx env rfc3339 day_of now caller query m =
     (case and_then (require_invoke caller) (\<lambda>_.
           and_then (report_range rfc3339 (um_price_table m) now query) (\<lambda>(from, to).
           and_then (map_err AE_InvalidRequest (GroupBy_parse (uq_group_by query))) (\<lambda>group_by.
           and_then (map_err (\<lambda>e. AE_Platform (''usage ledger: '' @ e))
               (events_for cx (env 0) (pr_tenant_id caller) (uq_function_id query) from to (um_ledger m))) (\<lambda>events.
             Inr (from, to, group_by, events))))) of
        Inl e \<Rightarrow> (Inl e, m)
      | Inr (from, to, group_by, events) \<Rightarrow>
          (let (lines, totals) = rate day_of events (um_price_table m) group_by;
               (unjournaled, j) = unjournaled_for (env 1) (as_str (pr_tenant_id caller)) (um_journal m)
           in (Inr \<lparr> ur_provisional = True, ur_not_an_invoice = True, ur_billing_enabled = BILLING_ENABLED,
                     ur_notice = PROVISIONAL_NOTICE, ur_tenant_id = as_str (pr_tenant_id caller),
                     ur_function_id = map_option as_str (uq_function_id query), ur_from = from, ur_to = to,
                     ur_group_by = GroupBy_keys group_by, ur_price_table = um_price_table m,
                     ur_lines = lines, ur_totals = totals, ur_unjournaled_events = unjournaled,
                     ur_collected_through = ct_last_success_at (um_collector m) \<rparr>,
               m\<lparr> um_journal := j \<rparr>)))"

text \<open>A report bound: \<open>rfc\<close> and \<open>ymd\<close> are the parsers of the date library.\<close>

definition parse_report_time ::
  "(string \<Rightarrow> Timestamp option) \<Rightarrow> (string \<Rightarrow> Timestamp option) \<Rightarrow> string option \<Rightarrow> string
     \<Rightarrow> AppError + Timestamp option" where
  "parse_report_time rfc ymd raw what =
     (case raw of
        None \<Rightarrow> Inr None
      | Some raw \<Rightarrow>
          if raw = [] then Inr None
          else case rfc raw of
                 Some t \<Rightarrow> Inr (Some t)
               | None \<Rightarrow>
                   (case ymd raw of
                      Some t \<Rightarrow> Inr (Some t)
                    | None \<Rightarrow> Inl (AE_InvalidRequest (''usage: `'' @ what @ ''` must be RFC 3339 or YYYY-MM-DD, got `'' @ raw @ ''`''))))"

section \<open>The sink\<close>

text \<open>\<open>crates/application/src/local_ports.rs\<close>: the in-memory view keeps the first event of each id.\<close>

record InMemoryUsageSink =
  ms_events :: "UsageEvent list"
  ms_seen :: "string btreeset"

definition ms_record :: "UsageEvent \<Rightarrow> InMemoryUsageSink \<Rightarrow> InMemoryUsageSink" where
  "ms_record event s =
     (if bt_contains_key (ms_seen s) (ue_event_id event) then s
      else s\<lparr> ms_seen := bt_insert (ue_event_id event) () (ms_seen s), ms_events := ms_events s @ [event] \<rparr>)"

definition ms_events_for_invocation :: "InvocationId \<Rightarrow> InMemoryUsageSink \<Rightarrow> UsageEvent list" where
  "ms_events_for_invocation i s = filter (\<lambda>e. ue_invocation_id e = Some i) (ms_events s)"

definition sink_record ::
  "UsageCodec \<Rightarrow> SqlEnv \<Rightarrow> Timestamp \<Rightarrow> UsageEvent \<Rightarrow> UsageMeter \<times> InMemoryUsageSink \<Rightarrow> UsageMeter \<times> InMemoryUsageSink" where
  "sink_record cx env now event ms =
     ((fst ms)\<lparr> um_journal := snd (uj_append cx env event now (um_journal (fst ms))) \<rparr>, ms_record event (snd ms))"

end
