(* ===== verification/Usage_Pipeline.thy ===== *)
theory Usage_Pipeline
  imports Usage_Collector
begin

text \<open>
  The usage pipeline as a whole: any number of appenders and collectors, in any number of processes,
  interleave their transactions on one journal file and one ledger.  A state keeps the two databases,
  what each collector holds between its transactions, and the list of the events the journal took, in
  the order of their sequence numbers.  A crash of a collector loses what it holds and nothing else.
\<close>

section \<open>Steps\<close>

record usage_pipe =
  pp_db :: JournalDb
  pp_ledger :: LedgerDb
  pp_collectors :: "nat \<Rightarrow> (nat \<times> JournalEntry list \<times> bool) option"
  pp_appended :: "UsageEvent list"

definition pipe_init :: usage_pipe where
  "pipe_init = \<lparr> pp_db = JournalDb_empty, pp_ledger = LedgerDb_empty, pp_collectors = (\<lambda>_. None),
     pp_appended = [] \<rparr>"

text \<open>
  A step of a process uses its own handle \<open>j\<close> of the journal file (its own connection, notes and
  hooks) or \<open>l\<close> of the ledger.
\<close>

inductive pipe_step :: "UsageCodec \<Rightarrow> JournalLimits \<Rightarrow> usage_pipe \<Rightarrow> usage_pipe \<Rightarrow> bool" for cx limits where
  Append: "uj_db j = pp_db s \<Longrightarrow> uj_limits j = limits \<Longrightarrow> uj_append cx env e now j = (r, j') \<Longrightarrow>
     pipe_step cx limits s (s\<lparr> pp_db := uj_db j',
       pp_appended := (if is_ok r then pp_appended s @ [e] else pp_appended s) \<rparr>)"
| Probe: "uj_db j = pp_db s \<Longrightarrow> uj_path j \<noteq> None \<Longrightarrow> uj_probe env j = (b, j') \<Longrightarrow>
     pipe_step cx limits s (s\<lparr> pp_db := uj_db j' \<rparr>)"
| Read: "uj_db j = pp_db s \<Longrightarrow> read_batch cx env limit j = (Inr (c, chain, entries), j') \<Longrightarrow> entries \<noteq> [] \<Longrightarrow>
     pipe_step cx limits s (s\<lparr> pp_db := uj_db j',
       pp_collectors := (pp_collectors s)(i \<mapsto> (c, entries, False)) \<rparr>)"
| Deliver: "pp_collectors s i = Some (c, entries, False) \<Longrightarrow> ul_db l = pp_ledger s \<Longrightarrow>
     accept cx env (map je_event entries) now l = (Inr report, l') \<Longrightarrow>
     pipe_step cx limits s (s\<lparr> pp_ledger := ul_db l',
       pp_collectors := (pp_collectors s)(i \<mapsto> (c, entries, True)) \<rparr>)"
| Commit: "pp_collectors s i = Some (c, entries, True) \<Longrightarrow> uj_db j = pp_db s \<Longrightarrow>
     commit_cursor env c (je_seq (last entries)) (je_chain (last entries)) j = (r, j') \<Longrightarrow>
     pipe_step cx limits s (s\<lparr> pp_db := uj_db j', pp_collectors := (pp_collectors s)(i := None) \<rparr>)"
| Crash: "pipe_step cx limits s (s\<lparr> pp_collectors := (pp_collectors s)(i := None) \<rparr>)"

inductive pipe_reach :: "UsageCodec \<Rightarrow> JournalLimits \<Rightarrow> usage_pipe \<Rightarrow> bool" for cx limits where
  Pipe_Init: "pipe_reach cx limits pipe_init"
| Pipe_Step: "pipe_reach cx limits s \<Longrightarrow> pipe_step cx limits s s' \<Longrightarrow> pipe_reach cx limits s'"

text \<open>What the pipeline relies on: the JSON text of an event parses back to it.\<close>

definition codec_ok :: "UsageCodec \<Rightarrow> bool" where
  "codec_ok cx \<longleftrightarrow> (\<forall>e b. uc_json cx e = Inr b \<longrightarrow> uc_parse cx b = Inr e)"

section \<open>The invariant\<close>

text \<open>The chain after the first \<open>k\<close> events.\<close>

fun chain_at :: "UsageCodec \<Rightarrow> UsageEvent list \<Rightarrow> nat \<Rightarrow> string" where
  "chain_at cx es 0 = GENESIS_CHAIN"
| "chain_at cx es (Suc k) = chain_next cx (chain_at cx es k) (projr (uc_json cx (es ! k)))"

lemma chain_at_append: "k \<le> length es \<Longrightarrow> chain_at cx (es @ es') k = chain_at cx es k"
  by (induction k) (simp_all add: nth_append)

text \<open>The row with sequence number \<open>Suc k\<close> holds the \<open>k\<close>-th event.\<close>

definition row_of :: "UsageCodec \<Rightarrow> UsageEvent list \<Rightarrow> nat \<Rightarrow> journal_row \<Rightarrow> bool" where
  "row_of cx es k r \<longleftrightarrow>
     uc_json cx (es ! k) = Inr (jr_body r) \<and> jr_event_id r = ue_event_id (es ! k)
     \<and> jr_body_bytes r = length (jr_body r) \<and> jr_chain r = chain_at cx es (Suc k)"

definition journal_ok :: "UsageCodec \<Rightarrow> JournalLimits \<Rightarrow> UsageEvent list \<Rightarrow> JournalDb \<Rightarrow> bool" where
  "journal_ok cx limits es db \<longleftrightarrow>
     jd_sequence db = length es \<and> jd_cursor_seq db \<le> length es
     \<and> set (bt_keys (jd_rows db)) = {jd_cursor_seq db <.. length es}
     \<and> (\<forall>k r. bt_get (jd_rows db) (Suc k) = Some r \<longrightarrow> row_of cx es k r)
     \<and> jd_cursor_chain db = chain_at cx es (jd_cursor_seq db)
     \<and> jd_pending_events db = bt_len (jd_rows db) \<and> jd_pending_bytes db = bt_sum jr_body_bytes (jd_rows db)
     \<and> jd_pending_events db \<le> jl_max_events limits \<and> jd_pending_bytes db \<le> jl_max_bytes limits"

text \<open>Every accepted id stands for the first event that was appended under it.\<close>

definition ledger_ok :: "UsageCodec \<Rightarrow> UsageEvent list \<Rightarrow> LedgerDb \<Rightarrow> bool" where
  "ledger_ok cx es l \<longleftrightarrow>
     (\<forall>i r. bt_get (ld_events l) i = Some r \<longrightarrow>
        (\<exists>e now. find (\<lambda>e. ue_event_id e = i) es = Some e \<and> r = ledger_row_of cx now (projr (uc_json cx e)) e))"

definition delivered :: "UsageEvent list \<Rightarrow> LedgerDb \<Rightarrow> bool" where
  "delivered es l \<longleftrightarrow> (\<forall>e\<in>set es. bt_get (ld_events l) (ue_event_id e) \<noteq> None)"

definition holding_ok :: "UsageCodec \<Rightarrow> UsageEvent list \<Rightarrow> JournalDb \<Rightarrow> LedgerDb \<Rightarrow> nat \<Rightarrow> JournalEntry list \<Rightarrow> bool \<Rightarrow> bool" where
  "holding_ok cx es db l c entries fin \<longleftrightarrow>
     entries \<noteq> [] \<and> c \<le> jd_cursor_seq db \<and> c + length entries \<le> length es
     \<and> map je_event entries = take (length entries) (drop c es)
     \<and> je_seq (last entries) = c + length entries
     \<and> je_chain (last entries) = chain_at cx es (c + length entries)
     \<and> (fin \<longrightarrow> delivered (take (c + length entries) es) l)"

definition pipe_ok :: "UsageCodec \<Rightarrow> JournalLimits \<Rightarrow> usage_pipe \<Rightarrow> bool" where
  "pipe_ok cx limits s \<longleftrightarrow>
     (\<forall>e\<in>set (pp_appended s). is_ok (uc_json cx e))
     \<and> journal_ok cx limits (pp_appended s) (pp_db s) \<and> ledger_ok cx (pp_appended s) (pp_ledger s)
     \<and> delivered (take (jd_cursor_seq (pp_db s)) (pp_appended s)) (pp_ledger s)
     \<and> (\<forall>i c entries fin. pp_collectors s i = Some (c, entries, fin) \<longrightarrow>
          holding_ok cx (pp_appended s) (pp_db s) (pp_ledger s) c entries fin)"

section \<open>Reading the chain\<close>

lemma bt_entries_keys: "bt_entries m = map (\<lambda>k. (k, the (bt_get m k))) (bt_keys m)"
proof -
  have "(fst p, the (bt_get m (fst p))) = p" if "p \<in> set (bt_entries m)" for p
    using that bt_get_entries [of m "fst p" "snd p"] by simp
  then show ?thesis by (simp add: bt_keys_def comp_def map_idI)
qed

lemma keys_interval:
  assumes "set (bt_keys m) = {a <.. b}"
  shows "bt_keys m = [Suc a..<Suc b]"
proof (rule strict_sorted_equal)
  show "sorted_wrt (<) (bt_keys m)" by (rule bt_entries_sorted)
  show "set (bt_keys m) = set [Suc a..<Suc b]"
    by (simp only: assms set_upt atLeastLessThanSuc_atLeastAtMost atLeastSucAtMost_greaterThanAtMost)
qed (rule sorted_wrt_upt)

definition honest_entry :: "UsageCodec \<Rightarrow> UsageEvent list \<Rightarrow> nat \<Rightarrow> JournalEntry" where
  "honest_entry cx es k = \<lparr> je_seq = Suc k, je_event = es ! k, je_chain = chain_at cx es (Suc k) \<rparr>"

lemma check_rows_honest:
  assumes "codec_ok cx" "c \<le> m" "\<And>k. c \<le> k \<Longrightarrow> k < m \<Longrightarrow> row_of cx es k (row (Suc k))"
  shows "check_rows cx (chain_at cx es c) (map (\<lambda>k. (k, row k)) [Suc c..<Suc m]) = Inr (map (honest_entry cx es) [c..<m])"
  using assms(2,3)
proof (induction "m - c" arbitrary: c)
  case (Suc d)
  then have less: "c < m" by simp
  have row: "row_of cx es c (row (Suc c))" using Suc.prems less by simp
  have "check_rows cx (chain_at cx es (Suc c)) (map (\<lambda>k. (k, row k)) [Suc (Suc c)..<Suc m])
      = Inr (map (honest_entry cx es) [Suc c..<m])"
    using less Suc.hyps(2) Suc.prems by (intro Suc.hyps(1)) auto
  moreover have "uc_parse cx (jr_body (row (Suc c))) = Inr (es ! c)"
    using row assms(1) by (simp add: codec_ok_def row_of_def)
  ultimately show ?case
    using row less by (simp add: upt_conv_Cons row_of_def honest_entry_def del: upt_Suc)
qed simp

lemma journal_waiting:
  assumes "journal_ok cx limits es (uj_db j)"
  shows "waiting_rows j = map (\<lambda>k. (k, the (bt_get (jd_rows (uj_db j)) k))) [Suc (jd_cursor_seq (uj_db j))..<Suc (length es)]"
proof -
  have keys: "set (bt_keys (jd_rows (uj_db j))) = {jd_cursor_seq (uj_db j) <.. length es}"
    using assms by (simp add: journal_ok_def)
  then have "waiting_rows j = bt_entries (jd_rows (uj_db j))"
    by (auto simp: waiting_rows_def bt_entries_keys filter_id_conv)
  then show ?thesis by (simp add: bt_entries_keys keys_interval [OF keys])
qed

text \<open>A batch of an untouched journal always passes the check, and is the next stretch of events.\<close>

lemma journal_batch:
  assumes "codec_ok cx" "journal_ok cx limits es (uj_db j)"
  shows "check_rows cx (jd_cursor_chain (uj_db j)) (take limit (waiting_rows j)) =
    Inr (map (honest_entry cx es) [jd_cursor_seq (uj_db j)..<min (jd_cursor_seq (uj_db j) + limit) (length es)])"
proof -
  let ?c = "jd_cursor_seq (uj_db j)" and ?rows = "jd_rows (uj_db j)"
  let ?m = "min (?c + limit) (length es)"
  have ok: "?c \<le> length es" "jd_cursor_chain (uj_db j) = chain_at cx es ?c"
    and keys: "set (bt_keys ?rows) = {?c <.. length es}"
    and row: "\<And>k r. bt_get ?rows (Suc k) = Some r \<Longrightarrow> row_of cx es k r"
    using assms(2) by (auto simp: journal_ok_def)
  have "take limit [Suc ?c..<Suc (length es)] = [Suc ?c..<Suc ?m]"
    using ok(1) by (simp add: take_upt min_def del: upt_Suc)
  then have "take limit (waiting_rows j) = map (\<lambda>k. (k, the (bt_get ?rows k))) [Suc ?c..<Suc ?m]"
    by (simp add: journal_waiting [OF assms(2)] take_map del: upt_Suc)
  moreover have "row_of cx es k (the (bt_get ?rows (Suc k)))" if "?c \<le> k" "k < ?m" for k
  proof -
    have "Suc k \<in> set (bt_keys ?rows)" using that keys by auto
    then show ?thesis using row by (auto simp: bt_keys_iff)
  qed
  ultimately show ?thesis
    using check_rows_honest [OF assms(1), of ?c ?m es "\<lambda>k. the (bt_get ?rows k)"] ok by simp
qed

section \<open>Steps keep the invariant\<close>

lemma find_append: "find P (xs @ ys) = (case find P xs of Some x \<Rightarrow> Some x | None \<Rightarrow> find P ys)"
  by (induction xs) auto

lemma find_member: "x \<in> set xs \<Longrightarrow> find (\<lambda>y. f y = f x) xs \<noteq> None"
  by (auto simp: find_None_iff)

lemma delivered_mono:
  "delivered es l \<Longrightarrow> set es' \<subseteq> set es \<Longrightarrow> (\<And>i. bt_get (ld_events l) i \<noteq> None \<Longrightarrow> bt_get (ld_events l') i \<noteq> None)
     \<Longrightarrow> delivered es' l'"
  by (auto simp: delivered_def)

lemma last_chain_ok:
  assumes "journal_ok cx limits es db"
  shows "last_chain db = chain_at cx es (length es)"
proof (cases "jd_cursor_seq db < length es")
  case True
  have keys: "set (bt_keys (jd_rows db)) = {jd_cursor_seq db <.. length es}"
    and row: "\<And>k r. bt_get (jd_rows db) (Suc k) = Some r \<Longrightarrow> row_of cx es k r"
    using assms by (auto simp: journal_ok_def)
  obtain n where n: "length es = Suc n" using True by (cases "length es") auto
  have "length es \<in> set (bt_keys (jd_rows db))" using True keys by simp
  then obtain r where r: "bt_get (jd_rows db) (length es) = Some r" by (auto simp: bt_keys_iff)
  have "rev (bt_values (jd_rows db)) = r # rev (map (\<lambda>k. the (bt_get (jd_rows db) k)) [Suc (jd_cursor_seq db)..<length es])"
    using True r by (simp add: bt_values_def bt_entries_keys keys_interval [OF keys])
  then show ?thesis using row [of n r] r n by (simp add: last_chain_def row_of_def)
next
  case False
  then have "bt_keys (jd_rows db) = []" "jd_cursor_seq db = length es"
    using assms by (auto simp: journal_ok_def)
  then show ?thesis
    using assms by (simp add: last_chain_def bt_values_def bt_entries_keys journal_ok_def)
qed

lemma append_tx_ok:
  assumes ok: "journal_ok cx limits es db" and body: "uc_json cx e = Inr body"
    and res: "append_tx cx limits e body now db = (Some seq, db')"
  shows "journal_ok cx limits (es @ [e]) db' \<and> jd_cursor_seq db' = jd_cursor_seq db"
proof -
  let ?n = "length es"
  define r where "r = \<lparr> jr_event_id = ue_event_id e, jr_tenant_id = as_str (ue_tenant_id e), jr_body = body,
     jr_body_bytes = length body, jr_chain = chain_next cx (last_chain db) body, jr_appended_at = uc_ts cx now \<rparr>"
  have room: "jd_pending_events db + 1 \<le> jl_max_events limits" "jd_pending_bytes db + length body \<le> jl_max_bytes limits"
    and db': "db' = db\<lparr> jd_rows := bt_insert (Suc ?n) r (jd_rows db), jd_sequence := Suc ?n,
       jd_pending_events := jd_pending_events db + 1, jd_pending_bytes := jd_pending_bytes db + length body \<rparr>"
    using res ok by (auto simp: append_tx_def Let_def r_def journal_ok_def split: if_splits)
  have keys: "set (bt_keys (jd_rows db)) = {jd_cursor_seq db <.. ?n}" and c: "jd_cursor_seq db \<le> ?n"
    and rows: "\<And>k r. bt_get (jd_rows db) (Suc k) = Some r \<Longrightarrow> row_of cx es k r"
    using ok by (auto simp: journal_ok_def)
  have new: "bt_get (jd_rows db) (Suc ?n) = None"
    using keys bt_keys_iff [of "Suc ?n" "jd_rows db"] by auto
  have "row_of cx (es @ [e]) k r'" if "bt_get (jd_rows db) (Suc k) = Some r'" for k r'
  proof -
    have "Suc k \<in> set (bt_keys (jd_rows db))" using that by (auto simp: bt_keys_iff)
    then have "k < ?n" using keys by simp
    then show ?thesis
      using rows [OF that] chain_at_append [of "Suc k" es cx "[e]"]
      by (simp add: row_of_def nth_append del: chain_at.simps)
  qed
  moreover have "row_of cx (es @ [e]) ?n r"
    using body chain_at_append [of ?n es cx "[e]"] by (simp add: row_of_def r_def last_chain_ok [OF ok])
  ultimately have "row_of cx (es @ [e]) k r'" if "bt_get (jd_rows db') (Suc k) = Some r'" for k r'
    using that by (auto simp: db' split: if_splits)
  moreover have "jd_cursor_chain db = chain_at cx (es @ [e]) (jd_cursor_seq db)"
    using ok c by (simp add: journal_ok_def chain_at_append)
  moreover have "set (bt_keys (jd_rows db')) = {jd_cursor_seq db <.. Suc ?n}"
    using keys c by (auto simp: db')
  ultimately show ?thesis
    using room ok c by (auto simp: journal_ok_def db' bt_len_sum bt_sum_insert_new [OF new] r_def)
qed

lemma append_tx_refused:
  "append_tx cx limits e body now db = (None, db') \<Longrightarrow> \<exists>losses. db' = db\<lparr> jd_losses := losses \<rparr>"
  by (auto simp: append_tx_def Let_def split: if_splits)

lemma journal_ok_losses [simp]: "journal_ok cx limits es (db\<lparr> jd_losses := x \<rparr>) = journal_ok cx limits es db"
  by (simp add: journal_ok_def)

lemma uj_append_ok:
  assumes "uj_append cx env e now j = (Inr seq, j')"
  obtains body where "uc_json cx e = Inr body" "append_tx cx (uj_limits j) e body now (uj_db j) = (Some seq, uj_db j')"
  using assms
  by (auto simp: uj_append_def Let_def split: sum.splits prod.splits option.splits dest!: with_conn_ok)

lemma uj_append_refused:
  "uj_append cx env e now j = (Inl r, j') \<Longrightarrow> \<exists>losses. uj_db j' = (uj_db j)\<lparr> jd_losses := losses \<rparr>"
proof -
  assume *: "uj_append cx env e now j = (Inl r, j')"
  have same: "\<exists>losses. uj_db j = (uj_db j)\<lparr> jd_losses := losses \<rparr>"
    by (rule exI [of _ "jd_losses (uj_db j)"]) simp
  show ?thesis
    using * same append_tx_refused [of cx "uj_limits j" e _ now "uj_db j"]
    by (auto simp: uj_append_def Let_def note_unavailable_loss_def split: sum.splits prod.splits option.splits
        dest!: with_conn_ok with_conn_error) (metis prod.collapse)
qed

lemma ledger_ok_append: "ledger_ok cx es l \<Longrightarrow> ledger_ok cx (es @ es') l"
  by (fastforce simp: ledger_ok_def find_append)

lemma holding_ok_append:
  assumes "holding_ok cx es db l c entries fin" "jd_cursor_seq db' = jd_cursor_seq db"
  shows "holding_ok cx (es @ es') db' l c entries fin"
  using assms by (simp add: holding_ok_def chain_at_append)

lemma pipe_ok_append:
  assumes ok: "pipe_ok cx limits s" and j: "uj_db j = pp_db s" "uj_limits j = limits"
    and res: "uj_append cx env e now j = (r, j')"
  shows "pipe_ok cx limits (s\<lparr> pp_db := uj_db j', pp_appended := (if is_ok r then pp_appended s @ [e] else pp_appended s) \<rparr>)"
proof (cases r)
  case (Inl f)
  then obtain losses where "uj_db j' = (pp_db s)\<lparr> jd_losses := losses \<rparr>"
    using uj_append_refused res j by fastforce
  then show ?thesis using ok Inl by (simp add: pipe_ok_def holding_ok_def)
next
  case (Inr seq)
  obtain body where body: "uc_json cx e = Inr body"
    and tx: "append_tx cx limits e body now (pp_db s) = (Some seq, uj_db j')"
    using uj_append_ok [OF res [unfolded Inr]] j by metis
  have "journal_ok cx limits (pp_appended s @ [e]) (uj_db j')" and c: "jd_cursor_seq (uj_db j') = jd_cursor_seq (pp_db s)"
    using append_tx_ok [OF _ body tx] ok by (auto simp: pipe_ok_def)
  moreover have "jd_cursor_seq (pp_db s) \<le> length (pp_appended s)"
    using ok by (simp add: pipe_ok_def journal_ok_def)
  ultimately show ?thesis
    using ok Inr body
    by (auto simp: pipe_ok_def ledger_ok_append intro: holding_ok_append [OF _ c])
qed

lemma pipe_ok_read:
  assumes codec: "codec_ok cx" and ok: "pipe_ok cx limits s" and j: "uj_db j = pp_db s"
    and res: "read_batch cx env limit j = (Inr (c, chain, entries), j')" "entries \<noteq> []"
  shows "pipe_ok cx limits (s\<lparr> pp_db := uj_db j', pp_collectors := (pp_collectors s)(i \<mapsto> (c, entries, False)) \<rparr>)"
proof -
  let ?es = "pp_appended s"
  have c: "c = jd_cursor_seq (pp_db s)" and j': "j' = j" using read_batch_ok [OF res(1)] j by simp_all
  have "journal_ok cx limits ?es (uj_db j)" using ok j by (simp add: pipe_ok_def)
  then have "entries = map (honest_entry cx ?es) [c..<min (c + limit) (length ?es)]"
    using read_batch_ok [OF res(1)] journal_batch [OF codec, of limits ?es j limit] by simp
  then obtain m where entries: "entries = map (honest_entry cx ?es) [c..<m]" and m: "m \<le> length ?es" by simp
  then have "c < m" using res(2) by auto
  then obtain n where n: "m = Suc n" "c \<le> n" by (cases m) auto
  have "map je_event entries = take (length entries) (drop c ?es)"
    using m by (intro nth_equalityI) (auto simp: entries honest_entry_def)
  moreover have "last entries = honest_entry cx ?es n" using n by (simp add: entries)
  ultimately have "holding_ok cx ?es (pp_db s) (pp_ledger s) c entries False"
    using res(2) c m n by (auto simp: holding_ok_def honest_entry_def entries simp del: chain_at.simps)
  then show ?thesis using ok j j' by (simp add: pipe_ok_def)
qed

lemma accept_ok:
  "accept cx env es now l = (Inr report, l') \<Longrightarrow> accept_db cx es now (ul_db l) = Inr (report, ul_db l')"
  by (auto simp: accept_def split: if_splits sum.splits prod.splits)

lemma pipe_ok_deliver:
  assumes ok: "pipe_ok cx limits s" and held: "pp_collectors s i = Some (c, entries, False)"
    and l: "ul_db l = pp_ledger s" and res: "accept cx env (map je_event entries) now l = (Inr report, l')"
  shows "pipe_ok cx limits (s\<lparr> pp_ledger := ul_db l', pp_collectors := (pp_collectors s)(i \<mapsto> (c, entries, True)) \<rparr>)"
proof -
  let ?es = "pp_appended s" and ?n = "length entries"
  have hold: "holding_ok cx ?es (pp_db s) (pp_ledger s) c entries False"
    using ok held by (simp add: pipe_ok_def)
  then have batch: "map je_event entries = take ?n (drop c ?es)" by (simp add: holding_ok_def)
  have get: "bt_get (ld_events (ul_db l')) k = (case bt_get (ld_events (pp_ledger s)) k of Some r \<Rightarrow> Some r
      | None \<Rightarrow> map_option (\<lambda>e. ledger_row_of cx now (projr (uc_json cx e)) e)
          (find (\<lambda>e. ue_event_id e = k) (take ?n (drop c ?es))))" for k
    by (rule accept_db_events [OF accept_ok [OF res, unfolded l batch]])
  then have mono: "bt_get (ld_events (ul_db l')) k \<noteq> None" if "bt_get (ld_events (pp_ledger s)) k \<noteq> None" for k
    using that by auto
  have old: "delivered (take c ?es) (pp_ledger s)"
    using ok hold set_take_subset_set_take [of c "jd_cursor_seq (pp_db s)" ?es]
    by (auto simp: pipe_ok_def holding_ok_def intro: delivered_mono)
  have split: "?es = take c ?es @ take ?n (drop c ?es) @ drop (c + ?n) ?es"
    by (metis append_take_drop_id drop_drop add.commute)
  have "ledger_ok cx ?es (ul_db l')"
    unfolding ledger_ok_def
  proof (intro allI impI)
    fix k r assume r: "bt_get (ld_events (ul_db l')) k = Some r"
    show "\<exists>e now. find (\<lambda>e. ue_event_id e = k) ?es = Some e \<and> r = ledger_row_of cx now (projr (uc_json cx e)) e"
    proof (cases "bt_get (ld_events (pp_ledger s)) k")
      case None
      then have "find (\<lambda>e. ue_event_id e = k) (take c ?es) = None"
        using old by (auto simp: delivered_def find_None_iff)
      then show ?thesis
        using r None get [of k] by (subst split) (auto simp: find_append)
    next
      case (Some r')
      then show ?thesis using r ok get [of k] by (simp add: pipe_ok_def ledger_ok_def)
    qed
  qed
  moreover have "delivered (take (c + ?n) ?es) (ul_db l')"
  proof -
    have "delivered (take c ?es) (ul_db l')" using old mono by (auto intro: delivered_mono)
    moreover have "delivered (take ?n (drop c ?es)) (ul_db l')"
      by (auto simp: delivered_def get split: option.split dest: find_member)
    ultimately show ?thesis by (auto simp: delivered_def take_add)
  qed
  moreover have "holding_ok cx ?es (pp_db s) (ul_db l') c' entries' fin"
    if "holding_ok cx ?es (pp_db s) (pp_ledger s) c' entries' fin" for c' entries' fin
    using that mono by (auto simp: holding_ok_def intro: delivered_mono)
  ultimately show ?thesis
    using ok hold mono by (auto simp: pipe_ok_def holding_ok_def intro: delivered_mono)
qed

lemma sum_list_filter_split:
  "sum_list (map f xs) = sum_list (map f (filter P xs)) + (sum_list (map f (filter (\<lambda>x. \<not> P x) xs)) :: nat)"
  by (induction xs) auto

lemma commit_tx_ok:
  assumes ok: "journal_ok cx limits es db" and n: "jd_cursor_seq db < to_seq" "to_seq \<le> length es"
    and chain: "to_chain = chain_at cx es to_seq"
    and db': "db' = snd (commit_tx (jd_cursor_seq db) to_seq to_chain db)"
  shows "journal_ok cx limits es db' \<and> jd_cursor_seq db' = to_seq"
proof -
  let ?c = "jd_cursor_seq db" and ?rows = "jd_rows db"
  let ?done = "\<lambda>(seq, _). ?c < seq \<and> seq \<le> to_seq"
  have keys: "set (bt_keys ?rows) = {?c <.. length es}" using ok by (simp add: journal_ok_def)
  have in_keys: "?c < k" if "(k, r) \<in> set (bt_entries ?rows)" for k r
    using that keys by (force simp: bt_keys_def)
  have rest: "bt_entries (jd_rows db') = filter (\<lambda>p. \<not> ?done p) (bt_entries ?rows)"
    using in_keys by (auto simp: db' commit_tx_def Let_def bt_retain.rep_eq intro!: filter_cong)
  have len: "bt_len ?rows = length (filter ?done (bt_entries ?rows)) + bt_len (jd_rows db')"
    unfolding bt_len_def rest using sum_length_filter_compl [of ?done "bt_entries ?rows"] by simp
  have bytes: "bt_sum jr_body_bytes ?rows
      = sum_list (map (\<lambda>(_, r). jr_body_bytes r) (filter ?done (bt_entries ?rows))) + bt_sum jr_body_bytes (jd_rows db')"
    using sum_list_filter_split [of "jr_body_bytes \<circ> snd" "bt_entries ?rows" ?done]
    by (simp add: bt_sum_def bt_values_def rest comp_def case_prod_unfold)
  have "set (bt_keys (jd_rows db')) = {to_seq <.. length es}"
  proof -
    have "k \<in> set (bt_keys (jd_rows db')) \<longleftrightarrow> k \<in> set (bt_keys ?rows) \<and> to_seq < k" for k
      by (auto simp: bt_keys_iff db' commit_tx_def Let_def bt_get_retain split: option.splits if_splits)
    then show ?thesis using keys n by auto
  qed
  moreover have "row_of cx es k r" if "bt_get (jd_rows db') (Suc k) = Some r" for k r
    using that ok by (auto simp: db' commit_tx_def Let_def bt_get_retain journal_ok_def split: option.splits if_splits)
  moreover have "jd_cursor_seq db' = to_seq" "jd_cursor_chain db' = to_chain" "jd_sequence db' = jd_sequence db"
      "jd_pending_events db' = bt_len (jd_rows db')" "jd_pending_bytes db' = bt_sum jr_body_bytes (jd_rows db')"
    using ok len bytes by (simp_all add: db' commit_tx_def Let_def journal_ok_def)
  ultimately show ?thesis
    using ok n chain len bytes by (simp add: journal_ok_def)
qed

lemma pipe_ok_commit:
  assumes ok: "pipe_ok cx limits s" and held: "pp_collectors s i = Some (c, entries, True)" and j: "uj_db j = pp_db s"
    and res: "commit_cursor env c (je_seq (last entries)) (je_chain (last entries)) j = (r, j')"
  shows "pipe_ok cx limits (s\<lparr> pp_db := uj_db j', pp_collectors := (pp_collectors s)(i := None) \<rparr>)"
proof (cases "r = Inr True")
  case True
  let ?es = "pp_appended s" and ?n = "c + length entries"
  have hold: "holding_ok cx ?es (pp_db s) (pp_ledger s) c entries True" using ok held by (simp add: pipe_ok_def)
  have c: "c = jd_cursor_seq (pp_db s)"
    and db': "uj_db j' = snd (commit_tx c (je_seq (last entries)) (je_chain (last entries)) (pp_db s))"
    using commit_cursor_ok [OF res [unfolded True]] j by simp_all
  have "journal_ok cx limits ?es (uj_db j') \<and> jd_cursor_seq (uj_db j') = ?n"
    using commit_tx_ok [of cx limits ?es "pp_db s" ?n "chain_at cx ?es ?n" "uj_db j'"] ok hold c db'
    by (auto simp: pipe_ok_def holding_ok_def)
  then show ?thesis
    using ok hold c by (auto simp: pipe_ok_def holding_ok_def split: if_splits) fastforce+
next
  case False
  then have "uj_db j' = pp_db s"
    using res j by (cases r) (auto dest: commit_cursor_error dest!: commit_cursor_ok simp: commit_tx_def Let_def)
  then show ?thesis using ok by (simp add: pipe_ok_def)
qed

lemma uj_probe_durable: "uj_path j \<noteq> None \<Longrightarrow> uj_db (snd (uj_probe env j)) = uj_db j"
  by (auto simp: uj_probe_def split: option.split)

lemma pipe_ok_init: "pipe_ok cx limits pipe_init"
  by (auto simp: pipe_ok_def pipe_init_def journal_ok_def JournalDb_empty_def ledger_ok_def delivered_def
      LedgerDb_empty_def bt_len_sum bt_keys_def bt_empty.rep_eq)

lemma pipe_ok_step:
  assumes "codec_ok cx" "pipe_step cx limits s s'" "pipe_ok cx limits s"
  shows "pipe_ok cx limits s'"
  using assms(2)
proof cases
  case (Append j env e now r j')
  then show ?thesis using pipe_ok_append assms(3) by simp
next
  case (Probe j env b j')
  then show ?thesis using uj_probe_durable [of j env] assms(3) by simp
next
  case (Read j env limit c chain entries j' i)
  then show ?thesis using pipe_ok_read assms(1,3) by simp
next
  case (Deliver i c entries l env now report l')
  then show ?thesis using pipe_ok_deliver assms(3) by simp
next
  case (Commit i c entries j env r j')
  then show ?thesis using pipe_ok_commit assms(3) by simp
next
  case (Crash i)
  then show ?thesis using assms(3) by (auto simp: pipe_ok_def split: if_splits)
qed

lemma pipe_reach_ok: "codec_ok cx \<Longrightarrow> pipe_reach cx limits s \<Longrightarrow> pipe_ok cx limits s"
  by (erule pipe_reach.induct) (auto intro: pipe_ok_init pipe_ok_step)

end
