(* ===== verification/Usage_Drain.thy ===== *)
theory Usage_Drain
  imports Usage_Pipeline Rating_Laws
begin

text \<open>
  A pass of the collector that meets no fault drains the journal: it delivers every event and ends.
  What the ledger then answers to a report is the list of the appended events, each id once.
\<close>

section \<open>Draining\<close>

definition quiet :: "SqlEnv \<Rightarrow> bool" where
  "quiet env \<longleftrightarrow> \<not> sq_locked env \<and> sq_open_error env = None \<and> sq_fault env = None"

definition usable :: "UsageJournal \<Rightarrow> bool" where
  "usable j \<longleftrightarrow> uj_open j \<and> \<not> uj_forced_unavailable j"

lemma with_conn_quiet:
  "quiet env \<Longrightarrow> usable j \<Longrightarrow> with_conn env f j = (Inr (fst (f (uj_db j))), j\<lparr> uj_db := snd (f (uj_db j)) \<rparr>)"
  by (simp add: with_conn_def quiet_def usable_def case_prod_beta)

lemma read_batch_quiet:
  "quiet env \<Longrightarrow> usable j \<Longrightarrow> read_batch cx env limit j =
     (and_then (check_rows cx (jd_cursor_chain (uj_db j)) (take limit (waiting_rows j)))
        (\<lambda>entries. Inr (jd_cursor_seq (uj_db j), jd_cursor_chain (uj_db j), entries)), j)"
  by (simp add: read_batch_def with_conn_quiet rows_after_def waiting_rows_def)

text \<open>What the two stores of a meter hold, as a state of the pipeline without collectors.\<close>

definition meter_pipe :: "UsageEvent list \<Rightarrow> UsageMeter \<Rightarrow> usage_pipe" where
  "meter_pipe es m = \<lparr> pp_db = uj_db (um_journal m), pp_ledger = ul_db (um_ledger m),
     pp_collectors = (\<lambda>_. None), pp_appended = es \<rparr>"

lemma accept_loop_counts:
  "accept_loop cx now es report m = Inr (report', m') \<Longrightarrow>
     ac_inserted report' + ac_duplicates report' = ac_inserted report + ac_duplicates report + length es"
  by (induction es arbitrary: report m) (force split: option.splits)+

lemma accept_quiet:
  assumes "quiet env" "\<not> ul_unavailable l" "\<forall>e\<in>set es. is_ok (uc_json cx e)"
  obtains report l' where "accept cx env es now l = (Inr report, l')"
    "ac_inserted report + ac_duplicates report = length es" "\<not> ul_unavailable l'"
proof -
  have "\<forall>e\<in>set es. \<exists>b. uc_json cx e = Inr b" using assms(3) is_ok.elims(2) by blast
  then obtain report db where db: "accept_db cx es now (ul_db l) = Inr (report, db)"
    using accept_db_total by blast
  then have "ac_inserted report + ac_duplicates report = length es"
    using accept_loop_counts [of cx now es "\<lparr> ac_inserted = 0, ac_duplicates = 0 \<rparr>"] by (auto simp: accept_db_def)
  then show thesis
    using that [of report "l\<lparr> ul_db := db \<rparr>"] assms(1,2) db
    by (simp add: accept_def ul_connection_def sql_ok_def quiet_def)
qed

text \<open>The fixed facts of a pass that can succeed.\<close>

definition can_collect :: "UsageMeter \<Rightarrow> bool" where
  "can_collect m \<longleftrightarrow> \<not> ul_unavailable (um_ledger m) \<and> \<not> um_crash_after_ledger_commit m
     \<and> 0 < ug_collect_batch (um_config m)"

definition same_service :: "UsageMeter \<Rightarrow> UsageMeter \<Rightarrow> bool" where
  "same_service m m' \<longleftrightarrow> um_config m' = um_config m \<and> um_price_table m' = um_price_table m
     \<and> um_collector m' = um_collector m \<and> um_pause_flag m' = um_pause_flag m"

lemma collect_batch_quiet:
  assumes codec: "codec_ok cx" and ok: "pipe_ok cx limits (meter_pipe es m)" and env: "\<And>k. quiet (env k)"
    and m: "usable (um_journal m)" "can_collect m"
  shows "(\<exists>c. waiting_rows (um_journal m) = [] \<and> collect_batch cx env clk k report m
            = Inl (Some (Inr (report\<lparr> cr_cursor_seq := c \<rparr>)), m))
    \<or> (\<exists>report' m' n. collect_batch cx env clk k report m = Inr (report', m') \<and> usable (um_journal m') \<and> can_collect m'
          \<and> pipe_ok cx limits (meter_pipe es m') \<and> same_service m m'
          \<and> cr_read report' = cr_read report + n
          \<and> cr_inserted report' + cr_duplicates report' = cr_inserted report + cr_duplicates report + n
          \<and> length (waiting_rows (um_journal m)) = n + length (waiting_rows (um_journal m')))"
proof -
  let ?j = "um_journal m" and ?c = "jd_cursor_seq (uj_db (um_journal m))" and ?limit = "ug_collect_batch (um_config m)"
  have jok: "journal_ok cx limits es (uj_db ?j)" using ok by (simp add: pipe_ok_def meter_pipe_def)
  have count: "length (waiting_rows j) = length es - jd_cursor_seq (uj_db j)"
    if "journal_ok cx limits es (uj_db j)" for j
    by (simp add: journal_waiting [OF that] del: upt_Suc)
  define entries where "entries = map (honest_entry cx es) [?c..<min (?c + ?limit) (length es)]"
  have read: "read_batch cx (env k) ?limit ?j = (Inr (?c, jd_cursor_chain (uj_db ?j), entries), ?j)"
    by (simp add: read_batch_quiet [OF env m(1)] journal_batch [OF codec jok] entries_def)
  show ?thesis
  proof (cases "entries = []")
    case True
    then have "waiting_rows ?j = []" using m(2) jok count [OF jok] by (auto simp: entries_def can_collect_def)
    then show ?thesis using read True by (auto simp: collect_batch_def)
  next
    case False
    let ?s = "meter_pipe es m"
    define s1 where "s1 = ?s\<lparr> pp_db := uj_db ?j, pp_collectors := (pp_collectors ?s)(0 \<mapsto> (?c, entries, False)) \<rparr>"
    have s1: "pipe_ok cx limits s1"
      unfolding s1_def by (rule pipe_ok_read [OF codec ok _ read False]) (simp add: meter_pipe_def)
    then have "holding_ok cx es (uj_db ?j) (ul_db (um_ledger m)) ?c entries False"
      by (simp add: s1_def pipe_ok_def meter_pipe_def)
    then have hold: "map je_event entries = take (length entries) (drop ?c es)" "je_seq (last entries) = ?c + length entries"
        "?c + length entries \<le> length es"
      by (simp_all add: holding_ok_def)
    then have "\<forall>e\<in>set (map je_event entries). is_ok (uc_json cx e)"
      using ok by (auto simp: pipe_ok_def meter_pipe_def dest!: in_set_takeD in_set_dropD)
    then obtain acc l where acc: "accept cx (env (k + 1)) (map je_event entries) (clk (k + 1)) (um_ledger m) = (Inr acc, l)"
        "ac_inserted acc + ac_duplicates acc = length entries" "\<not> ul_unavailable l"
      using m(2) unfolding can_collect_def by (metis accept_quiet env length_map)
    define s2 where "s2 = s1\<lparr> pp_ledger := ul_db l, pp_collectors := (pp_collectors s1)(0 \<mapsto> (?c, entries, True)) \<rparr>"
    have s2: "pipe_ok cx limits s2"
      unfolding s2_def by (rule pipe_ok_deliver [OF s1 _ _ acc(1)]) (simp_all add: s1_def meter_pipe_def)
    obtain j' where commit: "commit_cursor (env (k + 2)) ?c (je_seq (last entries)) (je_chain (last entries)) ?j = (Inr True, j')"
        and j': "usable j'" "uj_db j' = snd (commit_tx ?c (je_seq (last entries)) (je_chain (last entries)) (uj_db ?j))"
      using m(1) by (simp add: with_conn_quiet [OF env m(1)] commit_cursor_def commit_tx_def Let_def usable_def)
    define m' where "m' = m\<lparr> um_journal := j', um_ledger := l \<rparr>"
    have "pipe_ok cx limits (s2\<lparr> pp_db := uj_db j', pp_collectors := (pp_collectors s2)(0 := None) \<rparr>)"
      by (rule pipe_ok_commit [OF s2 _ _ commit]) (simp_all add: s1_def s2_def meter_pipe_def)
    also have "s2\<lparr> pp_db := uj_db j', pp_collectors := (pp_collectors s2)(0 := None) \<rparr> = meter_pipe es m'"
      by (simp add: s1_def s2_def meter_pipe_def m'_def fun_eq_iff)
    finally have s3: "pipe_ok cx limits (meter_pipe es m')" .
    have "jd_cursor_seq (uj_db j') = ?c + length entries"
      using j' hold by (simp add: commit_tx_def Let_def)
    then have "length (waiting_rows ?j) = length entries + length (waiting_rows j')"
      using count [OF jok] count [of j'] s3 hold by (simp add: pipe_ok_def meter_pipe_def m'_def)
    then show ?thesis
      using read False acc commit s3 j'(1) m(2)
      by (intro disjI2) (simp add: collect_batch_def can_collect_def same_service_def m'_def Let_def)
  qed
qed

lemma collect_loop_drains:
  assumes "codec_ok cx" "\<And>k. quiet (env k)" "pipe_ok cx limits (meter_pipe es m)" "usable (um_journal m)" "can_collect m"
  shows "\<exists>report' m'. collect_loop cx env clk k report m = (Some (Inr report'), m')
    \<and> pipe_ok cx limits (meter_pipe es m') \<and> waiting_rows (um_journal m') = [] \<and> same_service m m'
    \<and> cr_read report' = cr_read report + length (waiting_rows (um_journal m))
    \<and> cr_inserted report' + cr_duplicates report'
        = cr_inserted report + cr_duplicates report + length (waiting_rows (um_journal m))"
  using assms
proof (induction cx env clk k report m rule: collect_loop.induct)
  case (1 cx env clk k report m)
  note step = collect_batch_quiet [where env = env and clk = clk and k = k and report = report, OF 1(2,4,3,5,6)]
  show ?case
  proof (cases "waiting_rows (um_journal m) = []")
    case True
    then have "\<exists>c. collect_batch cx env clk k report m = Inl (Some (Inr (report\<lparr> cr_cursor_seq := c \<rparr>)), m)"
      using step collect_batch_progress by fastforce
    then show ?thesis using True 1(4) by (subst collect_loop.simps) (auto simp: same_service_def)
  next
    case False
    then obtain report1 m1 n where *: "collect_batch cx env clk k report m = Inr (report1, m1)"
        "usable (um_journal m1)" "can_collect m1" "pipe_ok cx limits (meter_pipe es m1)" "same_service m m1"
        "cr_read report1 = cr_read report + n"
        "cr_inserted report1 + cr_duplicates report1 = cr_inserted report + cr_duplicates report + n"
        "length (waiting_rows (um_journal m)) = n + length (waiting_rows (um_journal m1))"
      using step by blast
    have "\<exists>report' m'. collect_loop cx env clk (k + 3) report1 m1 = (Some (Inr report'), m')
      \<and> pipe_ok cx limits (meter_pipe es m') \<and> waiting_rows (um_journal m') = [] \<and> same_service m1 m'
      \<and> cr_read report' = cr_read report1 + length (waiting_rows (um_journal m1))
      \<and> cr_inserted report' + cr_duplicates report'
          = cr_inserted report1 + cr_duplicates report1 + length (waiting_rows (um_journal m1))"
      using 1(1) [OF *(1) refl 1(2,3) *(4,2,3)] .
    then show ?thesis
      using *(1,5-8) by (subst collect_loop.simps) (auto simp: same_service_def)
  qed
qed

text \<open>With the journal drained, every appended event is in the ledger.\<close>

lemma drained_delivered:
  assumes "pipe_ok cx limits (meter_pipe es m)" "waiting_rows (um_journal m) = []"
  shows "delivered es (ul_db (um_ledger m))" "jd_pending_events (uj_db (um_journal m)) = 0"
proof -
  have ok: "journal_ok cx limits es (uj_db (um_journal m))" using assms(1) by (simp add: pipe_ok_def meter_pipe_def)
  then have "length es \<le> jd_cursor_seq (uj_db (um_journal m))"
    using journal_waiting [OF ok] assms(2) by (simp split: if_splits)
  then show "delivered es (ul_db (um_ledger m))" using assms(1) by (simp add: pipe_ok_def meter_pipe_def)
  show "jd_pending_events (uj_db (um_journal m)) = 0"
    using ok \<open>length es \<le> _\<close> by (simp add: journal_ok_def bt_len_def bt_entries_keys)
qed

lemma waiting_is_pending:
  assumes "journal_ok cx limits es (uj_db j)"
  shows "length (waiting_rows j) = jd_pending_events (uj_db j)"
proof -
  have "bt_keys (jd_rows (uj_db j)) = [Suc (jd_cursor_seq (uj_db j))..<Suc (length es)]"
    using assms by (intro keys_interval) (simp add: journal_ok_def)
  then show ?thesis
    using assms by (simp add: journal_waiting [OF assms] journal_ok_def bt_len_def bt_entries_keys del: upt_Suc)
qed

lemma uj_probe_quiet:
  assumes "quiet env" "\<not> uj_forced_unavailable j" "uj_open j \<or> uj_path j \<noteq> None"
  shows "usable (snd (uj_probe env j))" "uj_db (snd (uj_probe env j)) = uj_db j"
  using assms by (auto simp: uj_probe_def quiet_def usable_def split: option.split)

section \<open>What the ledger answers\<close>

text \<open>The events that count: the first of each id.\<close>

fun first_events :: "UsageEvent list \<Rightarrow> UsageEvent list" where
  "first_events [] = []"
| "first_events (e # es) = e # filter (\<lambda>x. ue_event_id x \<noteq> ue_event_id e) (first_events es)"

lemma first_events_iff: "x \<in> set (first_events es) \<longleftrightarrow> find (\<lambda>e. ue_event_id e = ue_event_id x) es = Some x"
  by (induction es) auto

lemma distinct_first_events: "distinct (map ue_event_id (first_events es))"
  by (induction es) (auto simp: distinct_map inj_on_def)

text \<open>Which of them a report of a tenant over a range counts.\<close>

definition in_report :: "TenantId \<Rightarrow> FunctionId option \<Rightarrow> Timestamp \<Rightarrow> Timestamp \<Rightarrow> UsageEvent \<Rightarrow> bool" where
  "in_report tenant function from to e \<longleftrightarrow>
     ue_tenant_id e = tenant \<and> from \<le> ue_observed_at e \<and> ue_observed_at e < to
     \<and> (case function of None \<Rightarrow> True | Some f \<Rightarrow> ue_function_id e = Some f)"

lemma as_str_eq [simp]: "as_str x = as_str y \<longleftrightarrow> x = y"
  by (cases x; cases y) simp

lemma parse_bodies_of:
  assumes "codec_ok cx" "\<forall>e\<in>set es. as_str (ue_tenant_id e) = tenant \<and> uc_json cx e = Inr (b e)"
  shows "parse_bodies cx tenant (map b es) = Inr es"
  using assms(2) by (induction es) (use assms(1) in \<open>auto simp: codec_ok_def\<close>)

definition selects :: "UsageCodec \<Rightarrow> TenantId \<Rightarrow> FunctionId option \<Rightarrow> Timestamp \<Rightarrow> Timestamp \<Rightarrow> ledger_row \<Rightarrow> bool" where
  "selects cx tenant function from to r \<longleftrightarrow> lw_tenant_id r = as_str tenant
     \<and> lw_observed_at r \<ge> uc_ts cx from \<and> lw_observed_at r < uc_ts cx to
     \<and> (case function of None \<Rightarrow> True | Some f \<Rightarrow> lw_function_id r = Some (as_str f))"

lemma selects_row:
  assumes "strict_mono_on (insert from (insert to (ue_observed_at ` set es))) (uc_ts cx)" "e \<in> set es"
  shows "selects cx tenant function from to (ledger_row_of cx now body e) = in_report tenant function from to e"
proof -
  let ?T = "insert from (insert to (ue_observed_at ` set es))"
  have "uc_ts cx from \<le> uc_ts cx (ue_observed_at e) \<longleftrightarrow> from \<le> ue_observed_at e"
    "uc_ts cx (ue_observed_at e) < uc_ts cx to \<longleftrightarrow> ue_observed_at e < to"
    using strict_mono_on_less_eq [OF assms(1)] strict_mono_on_less [OF assms(1)] assms(2) by auto
  then show ?thesis by (auto simp: selects_def in_report_def ledger_row_of_def split: option.split)
qed

lemma events_for_exact:
  assumes codec: "codec_ok cx" and json: "\<forall>e\<in>set es. is_ok (uc_json cx e)" and env: "quiet env"
    and ledger: "ledger_ok cx es (ul_db l)" "delivered es (ul_db l)"
    and ts: "strict_mono_on (insert from (insert to (ue_observed_at ` set es))) (uc_ts cx)"
  shows "\<exists>events. events_for cx env tenant function from to l = Inr events
    \<and> mset events = mset (filter (in_report tenant function from to) (first_events es))"
proof -
  let ?m = "ld_events (ul_db l)" and ?P = "in_report tenant function from to"
  define rows where "rows = sort_key (\<lambda>(i, r). (lw_observed_at r, i)) (filter (\<lambda>(_, r). selects cx tenant function from to r) (bt_entries ?m))"
  define f where "f = (\<lambda>(i, r :: ledger_row). the (find (\<lambda>e. ue_event_id e = i) es))"
  have row: "ue_event_id (f (i, r)) = i \<and> f (i, r) \<in> set (first_events es) \<and> lw_body r = projr (uc_json cx (f (i, r)))
      \<and> selects cx tenant function from to r = ?P (f (i, r)) \<and> f (i, r) \<in> set es"
    if member: "(i, r) \<in> set (bt_entries ?m)" for i r
  proof -
    obtain e now where e: "find (\<lambda>e. ue_event_id e = i) es = Some e" "r = ledger_row_of cx now (projr (uc_json cx e)) e"
      using ledger(1) member unfolding ledger_ok_def bt_get_entries by blast
    then have "e \<in> set es" "ue_event_id e = i" by (auto simp: find_Some_iff)
    then show ?thesis using e selects_row [OF ts] by (auto simp: f_def first_events_iff ledger_row_of_def)
  qed
  have kept: "f p \<in> set es \<and> f p \<in> set (first_events es) \<and> ?P (f p)" if p: "p \<in> set rows" for p
  proof -
    obtain i r where ir: "p = (i, r)" by force
    have "(i, r) \<in> set (bt_entries ?m)" "selects cx tenant function from to r" using p by (auto simp: rows_def ir)
    then show ?thesis using row unfolding ir by blast
  qed
  have "events_for cx env tenant function from to l = parse_bodies cx (as_str tenant) (map (lw_body \<circ> snd) rows)"
    using env by (simp add: events_for_def ul_connection_def sql_ok_def quiet_def rows_def selects_def)
  also have "map (lw_body \<circ> snd) rows = map (\<lambda>e. projr (uc_json cx e)) (map f rows)"
    using row by (auto simp: rows_def)
  also have "parse_bodies cx (as_str tenant) \<dots> = Inr (map f rows)"
  proof (rule parse_bodies_of [OF codec])
    have "as_str (ue_tenant_id (f p)) = as_str tenant \<and> uc_json cx (f p) = Inr (projr (uc_json cx (f p)))"
      if "p \<in> set rows" for p
      using kept [OF that] json by (cases "uc_json cx (f p)") (auto simp: in_report_def)
    then show "\<forall>e\<in>set (map f rows). as_str (ue_tenant_id e) = as_str tenant \<and> uc_json cx e = Inr (projr (uc_json cx e))"
      by (simp add: ball_simps)
  qed
  finally have res: "events_for cx env tenant function from to l = Inr (map f rows)" .
  have keys: "map (ue_event_id \<circ> f) rows = map fst rows" using row by (auto simp: rows_def)
  have "distinct (map fst (filter (\<lambda>(_, r). selects cx tenant function from to r) (bt_entries ?m)))"
    using bt_keys_distinct [of ?m] by (auto simp: bt_keys_def distinct_map intro: inj_on_subset)
  then have "distinct (map fst rows)"
    by (simp add: rows_def distinct_map)
  then have "distinct (map f rows)" using keys by (metis distinct_map map_map)
  moreover have "distinct (filter ?P (first_events es))"
    using distinct_first_events [of es] by (simp add: distinct_map)
  moreover have "set (map f rows) = set (filter ?P (first_events es))"
  proof -
    have "f p \<in> set (filter ?P (first_events es))" if "p \<in> set rows" for p
      using kept [OF that] by simp
    moreover have "x \<in> f ` set rows" if "x \<in> set (first_events es)" "?P x" for x
    proof -
      have x: "find (\<lambda>e. ue_event_id e = ue_event_id x) es = Some x" using that(1) by (simp add: first_events_iff)
      then have "x \<in> set es" by (auto simp: find_Some_iff)
      then obtain r where "bt_get ?m (ue_event_id x) = Some r" using ledger(2) by (auto simp: delivered_def)
      then have "(ue_event_id x, r) \<in> set (bt_entries ?m)" by (simp add: bt_get_entries)
      moreover have "f (ue_event_id x, r) = x" using x by (simp add: f_def)
      ultimately have "(ue_event_id x, r) \<in> set rows" using row that(2) by (auto simp: rows_def)
      then show ?thesis using \<open>f (ue_event_id x, r) = x\<close> by force
    qed
    ultimately show ?thesis by auto
  qed
  ultimately have "mset (map f rows) = mset (filter ?P (first_events es))"
    by (simp only: set_eq_iff_mset_eq_distinct)
  then show ?thesis using res by blast
qed

end
