(* ===== verification/Usage_Properties.thy ===== *)
theory Usage_Properties
  imports Usage_Drain
begin

text \<open>
  The promises of metering: an event the journal took is counted once and never lost, the journal
  stays within its bounds and counts what it refuses, a pass of the collector drains it, its chain
  shows tampering, and a report is the rating of the appended events.
\<close>

section \<open>Samples\<close>

text \<open>A codec of two events, enough for the pipeline to run.\<close>

definition usage_sample :: "string \<Rightarrow> UsageEvent" where
  "usage_sample i = UsageEvent_new i (Ident ''tn_a'') (Ident ''env_a'') UE_HandlerFinished 1 (if i = ''e1'' then 1 else 2)"

definition usage_sample_codec :: UsageCodec where
  "usage_sample_codec = \<lparr>
     uc_json = (\<lambda>e. if e = usage_sample ''e1'' then Inr ''{1}'' else if e = usage_sample ''e2'' then Inr ''{2}'' else Inl ''no''),
     uc_parse = (\<lambda>b. if b = ''{1}'' then Inr (usage_sample ''e1'') else if b = ''{2}'' then Inr (usage_sample ''e2'') else Inl ''no''),
     uc_sha256_hex = (\<lambda>b. ''h'' @ map (\<lambda>c. if c = CHR 0x0A then CHR ''n'' else c) b),
     uc_ts = (\<lambda>t. if t < 0 then ''-'' else ''0'' @ replicate (nat t) (CHR ''x'')) \<rparr>"

definition usage_sample_limits :: JournalLimits where
  "usage_sample_limits = \<lparr> jl_max_events = 2, jl_max_bytes = 100, jl_admission_headroom_events = 1,
     jl_admission_headroom_bytes = 10 \<rparr>"

lemma usage_sample_codec_ok: "codec_ok usage_sample_codec"
  by (auto simp: codec_ok_def usage_sample_codec_def split: if_splits)

definition usage_sample_journal :: UsageJournal where
  "usage_sample_journal = UsageJournal_open (Some ''/data/usage/journal.db'') None usage_sample_limits"

definition usage_sample_pipe :: usage_pipe where
  "usage_sample_pipe = pipe_init\<lparr>
     pp_db := uj_db (snd (uj_append usage_sample_codec calm (usage_sample ''e1'') 5 usage_sample_journal)),
     pp_appended := [usage_sample ''e1''] \<rparr>"

lemma usage_sample_append:
  "fst (uj_append usage_sample_codec calm (usage_sample ''e1'') 5 usage_sample_journal) = Inr 1"
  by (simp add: uj_append_def usage_sample_codec_def with_conn_def calm_def usage_sample_journal_def
      UsageJournal_open_def append_tx_def JournalDb_empty_def usage_sample_limits_def Let_def)

lemma usage_sample_reach: "pipe_reach usage_sample_codec usage_sample_limits usage_sample_pipe"
proof -
  let ?r = "uj_append usage_sample_codec calm (usage_sample ''e1'') 5 usage_sample_journal"
  have "pipe_step usage_sample_codec usage_sample_limits pipe_init (pipe_init\<lparr> pp_db := uj_db (snd ?r),
      pp_appended := (if is_ok (fst ?r) then pp_appended pipe_init @ [usage_sample ''e1''] else pp_appended pipe_init) \<rparr>)"
    by (rule Append [where j = usage_sample_journal and env = calm and now = 5])
       (simp_all add: usage_sample_journal_def UsageJournal_open_def pipe_init_def)
  then show ?thesis
    using Pipe_Step [OF Pipe_Init]
    by (simp add: usage_sample_append usage_sample_pipe_def) (simp add: pipe_init_def)
qed

section \<open>Delivery\<close>

text \<open>
  C11: whatever appenders and collectors do, in whatever order and however often a collector dies
  between delivering a batch and moving the cursor, every event the journal took is in the ledger or
  still in the journal, and what the ledger holds under an id is the first event appended under it.
\<close>

theorem usage_exactly_once:
  assumes "codec_ok cx" "pipe_reach cx limits s"
  shows "(\<forall>e\<in>set (pp_appended s). bt_get (ld_events (pp_ledger s)) (ue_event_id e) \<noteq> None
      \<or> (\<exists>k r. bt_get (jd_rows (pp_db s)) k = Some r \<and> uc_parse cx (jr_body r) = Inr e))
    \<and> (\<forall>i r. bt_get (ld_events (pp_ledger s)) i = Some r \<longrightarrow>
         (\<exists>e. find (\<lambda>e. ue_event_id e = i) (pp_appended s) = Some e \<and> uc_parse cx (lw_body r) = Inr e))"
proof -
  let ?es = "pp_appended s"
  have ok: "pipe_ok cx limits s" using assms by (rule pipe_reach_ok)
  then have json: "\<And>e. e \<in> set ?es \<Longrightarrow> is_ok (uc_json cx e)" and jok: "journal_ok cx limits ?es (pp_db s)"
    by (auto simp: pipe_ok_def)
  have "bt_get (ld_events (pp_ledger s)) (ue_event_id e) \<noteq> None
      \<or> (\<exists>k r. bt_get (jd_rows (pp_db s)) k = Some r \<and> uc_parse cx (jr_body r) = Inr e)" if member: "e \<in> set ?es" for e
  proof -
    obtain k where k: "k < length ?es" "e = ?es ! k" using member by (auto simp: in_set_conv_nth)
    show ?thesis
    proof (cases "k < jd_cursor_seq (pp_db s)")
      case True
      then have "e \<in> set (take (jd_cursor_seq (pp_db s)) ?es)" using k by (auto simp: in_set_conv_nth)
      then show ?thesis using ok by (auto simp: pipe_ok_def delivered_def)
    next
      case False
      then have "Suc k \<in> set (bt_keys (jd_rows (pp_db s)))" using jok k by (simp add: journal_ok_def)
      then obtain r where r: "bt_get (jd_rows (pp_db s)) (Suc k) = Some r" by (auto simp: bt_keys_iff)
      then have "row_of cx ?es k r" using jok by (simp add: journal_ok_def)
      then have "uc_parse cx (jr_body r) = Inr e" using assms(1) k by (simp add: row_of_def codec_ok_def)
      then show ?thesis using r by blast
    qed
  qed
  moreover have "\<exists>e. find (\<lambda>e. ue_event_id e = i) ?es = Some e \<and> uc_parse cx (lw_body r) = Inr e"
    if row: "bt_get (ld_events (pp_ledger s)) i = Some r" for i r
  proof -
    obtain e now where e: "find (\<lambda>e. ue_event_id e = i) ?es = Some e" "r = ledger_row_of cx now (projr (uc_json cx e)) e"
      using ok row unfolding pipe_ok_def ledger_ok_def by blast
    then have "is_ok (uc_json cx e)" by (intro json) (auto simp: find_Some_iff)
    then have "uc_parse cx (lw_body r) = Inr e"
      using assms(1) e(2) by (cases "uc_json cx e") (auto simp: codec_ok_def ledger_row_of_def)
    then show ?thesis using e(1) by blast
  qed
  ultimately show ?thesis by blast
qed

theorem usage_exactly_once_witness:
  "(\<exists>r. bt_get (ld_events (pp_ledger usage_sample_pipe)) ''e1'' = Some r)
   \<or> (\<exists>k r. bt_get (jd_rows (pp_db usage_sample_pipe)) k = Some r \<and> uc_parse usage_sample_codec (jr_body r) = Inr (usage_sample ''e1''))"
  using usage_exactly_once [OF usage_sample_codec_ok usage_sample_reach]
  by (simp add: usage_sample_pipe_def usage_sample_def UsageEvent_new_def)

text \<open>
  C27: the counters of the journal are exact and its bounds hold in every reachable state.  An
  admission is given only while room for at least the headroom of events and of bytes is left, and
  it is refused as full only when at most the headroom of one of them is left.
\<close>

theorem journal_bounded:
  assumes "codec_ok cx" "pipe_reach cx limits s"
  shows "jd_pending_events (pp_db s) = bt_len (jd_rows (pp_db s)) \<and> bt_len (jd_rows (pp_db s)) \<le> jl_max_events limits
    \<and> jd_pending_bytes (pp_db s) = bt_sum jr_body_bytes (jd_rows (pp_db s))
    \<and> bt_sum jr_body_bytes (jd_rows (pp_db s)) \<le> jl_max_bytes limits
    \<and> (\<forall>env j j'. uj_db j = pp_db s \<and> uj_limits j = limits \<and> uj_admission env j = (Inr (), j') \<longrightarrow>
         bt_len (jd_rows (pp_db s)) + jl_admission_headroom_events limits \<le> jl_max_events limits
         \<and> bt_sum jr_body_bytes (jd_rows (pp_db s)) + jl_admission_headroom_bytes limits \<le> jl_max_bytes limits)
    \<and> (\<forall>env j j'. uj_db j = pp_db s \<and> uj_limits j = limits \<and> uj_admission env j = (Inl JF_Full, j') \<longrightarrow>
         jl_max_events limits \<le> bt_len (jd_rows (pp_db s)) + jl_admission_headroom_events limits
         \<or> jl_max_bytes limits \<le> bt_sum jr_body_bytes (jd_rows (pp_db s)) + jl_admission_headroom_bytes limits)"
proof -
  have "journal_ok cx limits (pp_appended s) (pp_db s)" using pipe_reach_ok [OF assms] by (simp add: pipe_ok_def)
  then have *: "jd_pending_events (pp_db s) = bt_len (jd_rows (pp_db s))" "jd_pending_bytes (pp_db s) = bt_sum jr_body_bytes (jd_rows (pp_db s))"
      "jd_pending_events (pp_db s) \<le> jl_max_events limits" "jd_pending_bytes (pp_db s) \<le> jl_max_bytes limits"
    by (simp_all add: journal_ok_def)
  have "bt_len (jd_rows (pp_db s)) + jl_admission_headroom_events limits \<le> jl_max_events limits
      \<and> bt_sum jr_body_bytes (jd_rows (pp_db s)) + jl_admission_headroom_bytes limits \<le> jl_max_bytes limits"
    if "uj_db j = pp_db s" "uj_limits j = limits" "uj_admission env j = (Inr (), j')" for env j j'
    using that * by (auto simp: uj_admission_def Let_def split: sum.splits prod.splits if_splits dest!: with_conn_ok)
  moreover have "jl_max_events limits \<le> bt_len (jd_rows (pp_db s)) + jl_admission_headroom_events limits
      \<or> jl_max_bytes limits \<le> bt_sum jr_body_bytes (jd_rows (pp_db s)) + jl_admission_headroom_bytes limits"
    if "uj_db j = pp_db s" "uj_limits j = limits" "uj_admission env j = (Inl JF_Full, j')" for env j j'
    using that * by (auto simp: uj_admission_def Let_def split: sum.splits prod.splits if_splits dest!: with_conn_ok)
  ultimately show ?thesis using * by auto
qed

text \<open>An empty journal admits, the one with a pending event is down to its headroom.\<close>

lemma usage_sample_admission:
  "uj_admission calm usage_sample_journal = (Inr (), usage_sample_journal)"
  "fst (uj_admission calm (usage_sample_journal\<lparr> uj_db := pp_db usage_sample_pipe \<rparr>)) = Inl JF_Full"
  by (simp_all add: uj_admission_def with_conn_def calm_def usage_sample_journal_def UsageJournal_open_def
      JournalDb_empty_def usage_sample_limits_def usage_sample_pipe_def uj_append_def usage_sample_codec_def
      append_tx_def Let_def)

theorem journal_bounded_witness:
  "bt_len (jd_rows (pp_db usage_sample_pipe)) \<le> 2 \<and> bt_sum jr_body_bytes (jd_rows (pp_db usage_sample_pipe)) \<le> 100
   \<and> fst (uj_admission calm usage_sample_journal) = Inr () \<and> bt_len (jd_rows (pp_db pipe_init)) + 1 \<le> 2
   \<and> bt_sum jr_body_bytes (jd_rows (pp_db pipe_init)) + 10 \<le> 100
   \<and> (2 \<le> bt_len (jd_rows (pp_db usage_sample_pipe)) + 1
      \<or> 100 \<le> bt_sum jr_body_bytes (jd_rows (pp_db usage_sample_pipe)) + 10)"
proof -
  let ?full = "usage_sample_journal\<lparr> uj_db := pp_db usage_sample_pipe \<rparr>"
  have limits: "jl_max_events usage_sample_limits = 2" "jl_max_bytes usage_sample_limits = 100"
    "jl_admission_headroom_events usage_sample_limits = 1" "jl_admission_headroom_bytes usage_sample_limits = 10"
    by (simp_all add: usage_sample_limits_def)
  have j: "uj_limits usage_sample_journal = usage_sample_limits" "uj_db usage_sample_journal = pp_db pipe_init"
    by (simp_all add: usage_sample_journal_def UsageJournal_open_def pipe_init_def)
  obtain j' where full: "uj_admission calm ?full = (Inl JF_Full, j')"
    using usage_sample_admission(2) by (metis prod.collapse)
  note at_start = journal_bounded [OF usage_sample_codec_ok Pipe_Init, of usage_sample_limits, unfolded limits]
  note with_event = journal_bounded [OF usage_sample_codec_ok usage_sample_reach, unfolded limits]
  have "bt_len (jd_rows (pp_db pipe_init)) + 1 \<le> 2 \<and> bt_sum jr_body_bytes (jd_rows (pp_db pipe_init)) + 10 \<le> 100"
    using at_start j usage_sample_admission(1) by blast
  moreover have "2 \<le> bt_len (jd_rows (pp_db usage_sample_pipe)) + 1
      \<or> 100 \<le> bt_sum jr_body_bytes (jd_rows (pp_db usage_sample_pipe)) + 10"
    using with_event full j(1) by (metis UsageJournal.select_convs(2,4) UsageJournal.surjective UsageJournal.update_convs(2))
  ultimately show ?thesis using with_event by (simp add: usage_sample_admission(1))
qed

section \<open>Refusals are counted\<close>

definition lost_for :: "string \<Rightarrow> UsageJournal \<Rightarrow> nat" where
  "lost_for tenant j = (case bt_get (uj_lost_unavailable j) tenant of Some n \<Rightarrow> n | None \<Rightarrow> 0)
     + (case bt_get (jd_losses (uj_db j)) tenant of Some n \<Rightarrow> n | None \<Rightarrow> 0)"

text \<open>What an append that is taken leaves in the journal: one more row, behind all the others.\<close>

lemma append_tx_stores:
  assumes ok: "journal_ok cx limits es db" and body: "uc_json cx e = Inr body"
    and res: "append_tx cx limits' e body now db = (Some seq, db')"
  shows "seq = length es + 1 \<and> bt_get (jd_rows db) seq = None
    \<and> (\<forall>k. k \<noteq> seq \<longrightarrow> bt_get (jd_rows db') k = bt_get (jd_rows db) k)
    \<and> (\<exists>r. bt_get (jd_rows db') seq = Some r \<and> jr_body r = body \<and> jr_event_id r = ue_event_id e
         \<and> jr_tenant_id r = as_str (ue_tenant_id e) \<and> jr_body_bytes r = length body
         \<and> jr_chain r = chain_at cx (es @ [e]) seq \<and> jr_appended_at r = uc_ts cx now)
    \<and> jd_losses db' = jd_losses db"
proof -
  have "Suc (length es) \<notin> set (bt_keys (jd_rows db))" using ok by (simp add: journal_ok_def)
  then have "bt_get (jd_rows db) (Suc (length es)) = None" by (simp add: bt_keys_iff)
  moreover have "chain_at cx (es @ [e]) (length es + 1) = chain_next cx (last_chain db) body"
    using chain_at_append [of "length es" es cx "[e]"] last_chain_ok [OF ok] body by simp
  moreover have "jd_sequence db = length es" using ok by (simp add: journal_ok_def)
  ultimately show ?thesis
    using res by (auto simp: append_tx_def Let_def split: if_splits)
qed

text \<open>
  C29: no event vanishes without a trace.  An append to the journal of a running pipeline either
  stores the event and counts nothing as lost: under the next sequence number, where no row was, with
  every other row kept, a row whose body reads back as the event, with its id, tenant, byte count,
  the instant and the chain value of all events appended so far; or it leaves every row as it is and
  counts exactly one unjournaled event, of the event's tenant.
\<close>

theorem append_counted:
  assumes "codec_ok cx" "pipe_reach cx limits s" "uj_db j = pp_db s"
  shows "case uj_append cx env e now j of
     (Inr seq, j') \<Rightarrow> seq = length (pp_appended s) + 1 \<and> bt_get (jd_rows (uj_db j)) seq = None
       \<and> (\<forall>k. k \<noteq> seq \<longrightarrow> bt_get (jd_rows (uj_db j')) k = bt_get (jd_rows (uj_db j)) k)
       \<and> (\<exists>r. bt_get (jd_rows (uj_db j')) seq = Some r \<and> uc_parse cx (jr_body r) = Inr e
            \<and> jr_event_id r = ue_event_id e \<and> jr_tenant_id r = as_str (ue_tenant_id e)
            \<and> jr_body_bytes r = length (jr_body r) \<and> jr_chain r = chain_at cx (pp_appended s @ [e]) seq
            \<and> jr_appended_at r = uc_ts cx now)
       \<and> (\<forall>t. lost_for t j' = lost_for t j)
   | (Inl _, j') \<Rightarrow> jd_rows (uj_db j') = jd_rows (uj_db j)
       \<and> (\<forall>t. lost_for t j' = lost_for t j + (if t = as_str (ue_tenant_id e) then 1 else 0))"
proof (cases "uc_json cx e")
  case (Inl m)
  then show ?thesis by (simp add: uj_append_def Let_def note_unavailable_loss_def lost_for_def)
next
  case (Inr body)
  obtain r j1 where r: "with_conn env (append_tx cx (uj_limits j) e body now) j = (r, j1)" by force
  show ?thesis
  proof (cases r)
    case (Inl m)
    have "j1\<lparr> uj_open := uj_open j, uj_last_error := uj_last_error j \<rparr> = j"
      using r Inl by (auto simp: with_conn_def Let_def split: if_splits option.splits prod.splits)
    then have "uj_db j1 = uj_db j" "uj_lost_unavailable j1 = uj_lost_unavailable j"
      by (metis UsageJournal.ext_inject UsageJournal.surjective UsageJournal.update_convs)+
    then show ?thesis
      using r Inl \<open>uc_json cx e = Inr body\<close> by (simp add: uj_append_def Let_def note_unavailable_loss_def lost_for_def)
  next
    case (Inr taken)
    have tx: "append_tx cx (uj_limits j) e body now (uj_db j) = (taken, uj_db j1)"
        "uj_lost_unavailable j1 = uj_lost_unavailable j"
      using with_conn_ok [OF r [unfolded Inr]] by auto
    have jok: "journal_ok cx limits (pp_appended s) (uj_db j)" and parse: "uc_parse cx body = Inr e"
      using pipe_reach_ok [OF assms(1,2)] assms(1,3) \<open>uc_json cx e = Inr body\<close>
      by (simp_all add: pipe_ok_def codec_ok_def)
    show ?thesis
    proof (cases taken)
      case None
      have "uj_db j1 = snd (append_tx cx (uj_limits j) e body now (uj_db j))"
        "fst (append_tx cx (uj_limits j) e body now (uj_db j)) = None" using tx(1) None by simp_all
      then show ?thesis
        using tx(2) r Inr None \<open>uc_json cx e = Inr body\<close>
        by (simp add: uj_append_def append_tx_def Let_def lost_for_def split: if_splits)
    next
      case (Some seq)
      then show ?thesis
        using append_tx_stores [OF jok \<open>uc_json cx e = Inr body\<close> tx(1) [unfolded Some]] tx(2) r Inr parse
          \<open>uc_json cx e = Inr body\<close>
        by (auto simp: uj_append_def Let_def lost_for_def)
    qed
  qed
qed

text \<open>The second event of the sample goes behind the first one.\<close>

theorem append_counted_witness:
  "\<exists>j' r. uj_append usage_sample_codec calm (usage_sample ''e2'') 6
       (usage_sample_journal\<lparr> uj_db := pp_db usage_sample_pipe \<rparr>) = (Inr 2, j')
     \<and> bt_get (jd_rows (uj_db j')) 1 = bt_get (jd_rows (pp_db usage_sample_pipe)) 1
     \<and> bt_get (jd_rows (uj_db j')) 2 = Some r \<and> uc_parse usage_sample_codec (jr_body r) = Inr (usage_sample ''e2'')"
proof -
  let ?j = "usage_sample_journal\<lparr> uj_db := pp_db usage_sample_pipe \<rparr>"
  have "fst (uj_append usage_sample_codec calm (usage_sample ''e2'') 6 ?j) = Inr 2"
    by (simp add: uj_append_def with_conn_def calm_def usage_sample_journal_def UsageJournal_open_def
        JournalDb_empty_def usage_sample_limits_def usage_sample_pipe_def usage_sample_codec_def
        append_tx_def Let_def usage_sample_def UsageEvent_new_def)
  then obtain j' where "uj_append usage_sample_codec calm (usage_sample ''e2'') 6 ?j = (Inr 2, j')"
    by (metis prod.collapse)
  then show ?thesis
    using append_counted [OF usage_sample_codec_ok usage_sample_reach, where j = ?j and env = calm and e = "usage_sample ''e2''" and now = 6] by auto
qed

section \<open>Collection\<close>

definition usage_sample_meter :: UsageMeter where
  "usage_sample_meter = \<lparr> um_config = UsageConfig_default,
     um_journal = snd (uj_append usage_sample_codec calm (usage_sample ''e1'') 5 usage_sample_journal),
     um_ledger = UsageLedger_open, um_price_table = PriceTable_builtin\<lparr> pt_effective_from := 0 \<rparr>,
     um_collector = CollectorStatus_default, um_crash_after_ledger_commit = False, um_pause_flag = None \<rparr>"

lemma quiet_calm: "\<forall>k::nat. quiet calm"
  by (simp add: quiet_def calm_def)

lemma usage_sample_meter_stores:
  "uj_db (um_journal usage_sample_meter) = pp_db usage_sample_pipe" "ul_db (um_ledger usage_sample_meter) = pp_ledger usage_sample_pipe"
  "can_collect usage_sample_meter" "\<not> uj_forced_unavailable (um_journal usage_sample_meter)" "uj_open (um_journal usage_sample_meter)"
  by (simp_all add: usage_sample_meter_def usage_sample_pipe_def pipe_init_def UsageLedger_open_def can_collect_def
      UsageConfig_default_def uj_append_def usage_sample_codec_def with_conn_def calm_def usage_sample_journal_def
      UsageJournal_open_def append_tx_def JournalDb_empty_def usage_sample_limits_def Let_def)

text \<open>The pass over any reachable pair of stores, as one lemma for the two properties below.\<close>

lemma collect_complete:
  assumes "codec_ok cx" "pipe_reach cx limits s" "uj_db (um_journal m) = pp_db s" "ul_db (um_ledger m) = pp_ledger s"
    "can_collect m" "\<not> uj_forced_unavailable (um_journal m)" "uj_open (um_journal m) \<or> uj_path (um_journal m) \<noteq> None"
    "um_pause_flag m = None" "\<forall>k. quiet (env k)"
  shows "\<exists>report m'. um_collect cx env clk exists after m = (Some (Inr report), m')
    \<and> cr_read report = jd_pending_events (pp_db s) \<and> cr_inserted report + cr_duplicates report = cr_read report
    \<and> jd_pending_events (uj_db (um_journal m')) = 0 \<and> delivered (pp_appended s) (ul_db (um_ledger m'))
    \<and> ledger_ok cx (pp_appended s) (ul_db (um_ledger m')) \<and> um_price_table m' = um_price_table m
    \<and> ct_last_error (um_collector m') = None \<and> ct_last_success_at (um_collector m') = Some after"
proof -
  define m0 where "m0 = m\<lparr> um_collector := (um_collector m)\<lparr> ct_runs := ct_runs (um_collector m) + 1, ct_last_run_at := Some (clk 0) \<rparr>,
     um_journal := snd (uj_probe (env 0) (um_journal m)) \<rparr>"
  have j: "usable (um_journal m0)" "uj_db (um_journal m0) = pp_db s"
    using uj_probe_quiet [OF assms(9) [rule_format] assms(6,7)] assms(3) by (simp_all add: m0_def)
  have ok: "pipe_ok cx limits s" using assms(1,2) by (rule pipe_reach_ok)
  then have "pipe_ok cx limits (meter_pipe (pp_appended s) m0)"
    using j assms(4) by (simp add: pipe_ok_def meter_pipe_def m0_def)
  moreover have "can_collect m0" using assms(5) by (simp add: can_collect_def m0_def)
  ultimately obtain report m' where
    run: "collect_loop cx env clk 1 CollectReport_default m0 = (Some (Inr report), m')"
    and ok': "pipe_ok cx limits (meter_pipe (pp_appended s) m')" "waiting_rows (um_journal m') = []"
    and same: "same_service m0 m'"
    and counts: "cr_read report = length (waiting_rows (um_journal m0))"
      "cr_inserted report + cr_duplicates report = length (waiting_rows (um_journal m0))"
    using collect_loop_drains [OF assms(1) assms(9) [rule_format], where m = m0 and clk = clk and k = 1 and report = CollectReport_default] j(1)
    by (fastforce simp: CollectReport_default_def)
  have "length (waiting_rows (um_journal m0)) = jd_pending_events (pp_db s)"
    using waiting_is_pending [of cx limits "pp_appended s" "um_journal m0"] ok j(2) by (simp add: pipe_ok_def)
  moreover have "ledger_ok cx (pp_appended s) (ul_db (um_ledger m'))"
    using ok'(1) by (simp add: pipe_ok_def meter_pipe_def)
  moreover have "um_collect cx env clk exists after m = collect_outcome after (Some (Inr report), m')"
    using assms(8) run by (simp add: um_collect_def collect_locked_def m0_def Let_def)
  ultimately show ?thesis
    using drained_delivered [OF ok'] counts same by (simp add: collect_outcome_def same_service_def m0_def)
qed

text \<open>
  C16: a pass of the collector that meets no fault terminates with the journal drained: it read
  exactly the pending events, counted each as inserted or duplicate, and left every event the
  journal ever took in the ledger.
\<close>

theorem collect_drains:
  assumes "codec_ok cx" "pipe_reach cx limits s" "uj_db (um_journal m) = pp_db s" "ul_db (um_ledger m) = pp_ledger s"
    "can_collect m" "\<not> uj_forced_unavailable (um_journal m)" "uj_open (um_journal m) \<or> uj_path (um_journal m) \<noteq> None"
    "um_pause_flag m = None" "\<forall>k. quiet (env k)"
  shows "\<exists>report m'. um_collect cx env clk exists after m = (Some (Inr report), m')
    \<and> cr_read report = jd_pending_events (pp_db s) \<and> cr_inserted report + cr_duplicates report = cr_read report
    \<and> jd_pending_events (uj_db (um_journal m')) = 0 \<and> delivered (pp_appended s) (ul_db (um_ledger m'))
    \<and> ct_last_error (um_collector m') = None \<and> ct_last_success_at (um_collector m') = Some after"
  using collect_complete [OF assms] by blast

theorem collect_drains_witness:
  "\<exists>report m'. um_collect usage_sample_codec (\<lambda>_. calm) (\<lambda>_. 7) (\<lambda>_. False) 8 usage_sample_meter = (Some (Inr report), m')
     \<and> jd_pending_events (uj_db (um_journal m')) = 0 \<and> delivered [usage_sample ''e1''] (ul_db (um_ledger m'))"
  using collect_drains [OF usage_sample_codec_ok usage_sample_reach usage_sample_meter_stores(1-4) _ _ quiet_calm, of "\<lambda>_. 7" "\<lambda>_. False" 8]
    usage_sample_meter_stores(5)
  by (auto simp: usage_sample_meter_def usage_sample_pipe_def)

section \<open>Reports\<close>

text \<open>
  C15: after such a pass the report of a tenant is the rating of the events the journal took, each
  id once, of that tenant, in the requested range and of the requested function, with nothing
  missing and nothing from another tenant, whatever the order of delivery was.
\<close>

theorem usage_report_exact:
  assumes "codec_ok cx" "pipe_reach cx limits s" "uj_db (um_journal m) = pp_db s" "ul_db (um_ledger m) = pp_ledger s"
    "can_collect m" "\<not> uj_forced_unavailable (um_journal m)" "uj_open (um_journal m) \<or> uj_path (um_journal m) \<noteq> None"
    "um_pause_flag m = None" "\<forall>k. quiet (env k)" "\<forall>k. quiet (env' k)"
    and "pr_has caller Role_Invoke" "report_range rfc3339 (um_price_table m) now query = Inr (from, to)"
    "GroupBy_parse (uq_group_by query) = Inr g"
    and "strict_mono_on (insert from (insert to (ue_observed_at ` set (pp_appended s)))) (uc_ts cx)"
  shows "\<exists>response m''. um_report cx env' rfc3339 day_of now caller query (snd (um_collect cx env clk exists after m)) = (Inr response, m'')
    \<and> (ur_lines response, ur_totals response) = rate day_of
        (filter (in_report (pr_tenant_id caller) (uq_function_id query) from to) (first_events (pp_appended s)))
        (um_price_table m) g
    \<and> ur_provisional response \<and> \<not> ur_billing_enabled response"
proof -
  obtain report m' where m': "um_collect cx env clk exists after m = (Some (Inr report), m')"
      "delivered (pp_appended s) (ul_db (um_ledger m'))" "ledger_ok cx (pp_appended s) (ul_db (um_ledger m'))"
      "um_price_table m' = um_price_table m"
    using collect_complete [OF assms(1-9)] by blast
  have "\<forall>e\<in>set (pp_appended s). is_ok (uc_json cx e)"
    using pipe_reach_ok [OF assms(1,2)] by (simp add: pipe_ok_def)
  then obtain events where ev: "events_for cx (env' 0) (pr_tenant_id caller) (uq_function_id query) from to (um_ledger m') = Inr events"
      "mset events = mset (filter (in_report (pr_tenant_id caller) (uq_function_id query) from to) (first_events (pp_appended s)))"
    using events_for_exact [OF assms(1) _ assms(10) [rule_format] m'(3,2) assms(14)] by blast
  have "rate day_of events (um_price_table m) g = rate day_of
      (filter (in_report (pr_tenant_id caller) (uq_function_id query) from to) (first_events (pp_appended s))) (um_price_table m) g"
    by (simp add: rate_def groups_permuted [OF ev(2)])
  then show ?thesis
    using m'(1,4) ev(1) assms(11-13)
    by (auto simp: um_report_def require_invoke_def require_role_def BILLING_ENABLED_def split: prod.splits)
qed

definition usage_sample_caller :: Principal where
  "usage_sample_caller = \<lparr> pr_subject = ''ci'', pr_tenant_id = Ident ''tn_a'', pr_roles = [Role_Invoke] \<rparr>"

definition usage_sample_query :: UsageQuery where
  "usage_sample_query = \<lparr> uq_from = Some 0, uq_to = Some 9, uq_group_by = None, uq_function_id = None \<rparr>"

lemma usage_sample_times:
  "strict_mono_on (insert 0 (insert 9 (ue_observed_at ` set (pp_appended usage_sample_pipe)))) (uc_ts usage_sample_codec)"
  by (auto simp: strict_mono_on_def usage_sample_pipe_def usage_sample_def UsageEvent_new_def usage_sample_codec_def
      numeral_eq_Suc)

theorem usage_report_exact_witness:
  "\<exists>response m''. um_report usage_sample_codec (\<lambda>_. calm) (\<lambda>_. ''t'') (\<lambda>_. ''d'') 9 usage_sample_caller usage_sample_query
        (snd (um_collect usage_sample_codec (\<lambda>_. calm) (\<lambda>_. 7) (\<lambda>_. False) 8 usage_sample_meter)) = (Inr response, m'')
     \<and> \<not> ur_billing_enabled response"
proof -
  have "report_range (\<lambda>_. ''t'') (um_price_table usage_sample_meter) 9 usage_sample_query = Inr (0, 9)"
    by (simp add: report_range_def usage_sample_query_def usage_sample_meter_def MAX_REPORT_DAYS_def nanos_per_day_def)
  moreover have "GroupBy_parse (uq_group_by usage_sample_query) = Inr \<lparr> gb_function = True, gb_day = True \<rparr>"
    by (simp add: GroupBy_parse_def usage_sample_query_def)
  moreover have "pr_has usage_sample_caller Role_Invoke" by (simp add: pr_has_def usage_sample_caller_def)
  ultimately show ?thesis
    using usage_report_exact [OF usage_sample_codec_ok usage_sample_reach usage_sample_meter_stores(1-4) _ _ quiet_calm quiet_calm _ _ _ usage_sample_times,
        of usage_sample_caller "\<lambda>_. ''t''" 9 usage_sample_query "\<lparr> gb_function = True, gb_day = True \<rparr>" "\<lambda>_. ''d''" "\<lambda>_. 7" "\<lambda>_. False" 8]
      usage_sample_meter_stores(5)
    by (fastforce simp: usage_sample_meter_def)
qed

section \<open>Tampering\<close>

lemma check_rows_chain:
  "check_rows cx previous rows = Inr entries \<Longrightarrow> rows \<noteq> [] \<Longrightarrow>
     je_chain (last entries) = foldl (chain_next cx) previous (map (jr_body \<circ> snd) rows)"
proof (induction cx previous rows arbitrary: entries rule: check_rows.induct)
  case (2 cx previous seq r rows)
  then obtain event rest where *: "chain_next cx previous (jr_body r) = jr_chain r" "uc_parse cx (jr_body r) = Inr event"
      "check_rows cx (jr_chain r) rows = Inr rest"
      "entries = \<lparr> je_seq = seq, je_event = event, je_chain = jr_chain r \<rparr> # rest"
    by (auto split: if_splits sum.splits)
  show ?case
  proof (cases rows)
    case Nil
    then show ?thesis using * by simp
  next
    case (Cons p ps)
    then have "rest \<noteq> []" using check_rows_seqs [OF *(3)] by auto
    then show ?thesis using 2 * Cons by simp
  qed
qed simp

lemma split_at_newline:
  assumes "x @ n # a = y @ n # b" "n \<notin> set x" "n \<notin> set y"
  shows "x = y \<and> a = b"
proof -
  have first: "takeWhile (\<lambda>c. c \<noteq> n) (z @ n # zs) = z" if "n \<notin> set z" for z zs
    using that by (induction z) auto
  then have "x = y" using arg_cong [OF assms(1), of "takeWhile (\<lambda>c. c \<noteq> n)"] assms(2,3) by simp
  then show ?thesis using assms(1) by simp
qed

lemma chain_determines_bodies:
  assumes "\<forall>b. CHR 0x0A \<notin> set (uc_sha256_hex cx b)" "CHR 0x0A \<notin> set previous"
    "\<forall>x y. uc_sha256_hex cx x = uc_sha256_hex cx y \<longrightarrow> x = y"
    "length xs = length ys" "foldl (chain_next cx) previous xs = foldl (chain_next cx) previous ys"
  shows "xs = ys"
  using assms(4,5)
proof (induction xs arbitrary: ys rule: rev_induct)
  case (snoc x xs)
  then obtain ys' y where ys: "ys = ys' @ [y]" by (metis append_butlast_last_id length_0_conv snoc_eq_iff_butlast)
  have line: "CHR 0x0A \<notin> set (foldl (chain_next cx) previous zs)" for zs
    using assms(1,2) by (cases zs rule: rev_cases) (simp_all add: chain_next_def)
  have "uc_sha256_hex cx (foldl (chain_next cx) previous xs @ CHR 0x0A # x)
      = uc_sha256_hex cx (foldl (chain_next cx) previous ys' @ CHR 0x0A # y)"
    using snoc.prems(2) by (simp add: ys chain_next_def [of cx _ x] chain_next_def [of cx _ y])
  then have "foldl (chain_next cx) previous xs = foldl (chain_next cx) previous ys' \<and> x = y"
    using assms(3) split_at_newline [OF _ line line] by blast
  then show ?case using snoc by (simp add: ys)
qed simp

text \<open>
  two stretches of the journal that pass the collector's check from the same cursor and end in
  the same chain value hold the same bodies, unless the digest has a collision: a modified, reordered
  or replaced row changes every later chain value.
\<close>

theorem journal_tamper_evident:
  assumes "\<forall>b. CHR 0x0A \<notin> set (uc_sha256_hex cx b)" "CHR 0x0A \<notin> set previous"
    "check_rows cx previous rows = Inr entries" "check_rows cx previous rows' = Inr entries'"
    "length rows = length rows'" "rows \<noteq> []" "je_chain (last entries) = je_chain (last entries')"
  shows "map (jr_body \<circ> snd) rows = map (jr_body \<circ> snd) rows' \<or> (\<exists>x y. x \<noteq> y \<and> uc_sha256_hex cx x = uc_sha256_hex cx y)"
proof -
  have "rows' \<noteq> []" using assms(5,6) by auto
  then have "foldl (chain_next cx) previous (map (jr_body \<circ> snd) rows) = foldl (chain_next cx) previous (map (jr_body \<circ> snd) rows')"
    using check_rows_chain [OF assms(3,6)] check_rows_chain [OF assms(4)] assms(7) by metis
  then show ?thesis using chain_determines_bodies [OF assms(1,2)] assms(5) by (metis length_map)
qed

theorem journal_tamper_evident_witness:
  "let r = (1, \<lparr> jr_event_id = ''e1'', jr_tenant_id = ''tn_a'', jr_body = ''{1}'', jr_body_bytes = 3, jr_chain = ''hgenesisn{1}'', jr_appended_at = '''' \<rparr>)
   in map (jr_body \<circ> snd) [r] = [''{1}''] \<or> (\<exists>x y. x \<noteq> y \<and> uc_sha256_hex usage_sample_codec x = uc_sha256_hex usage_sample_codec y)"
proof -
  let ?r = "(1 :: nat, \<lparr> jr_event_id = ''e1'', jr_tenant_id = ''tn_a'', jr_body = ''{1}'', jr_body_bytes = 3, jr_chain = ''hgenesisn{1}'', jr_appended_at = '''' \<rparr>)"
  have "check_rows usage_sample_codec ''genesis'' [?r] = Inr [\<lparr> je_seq = 1, je_event = usage_sample ''e1'', je_chain = ''hgenesisn{1}'' \<rparr>]"
    by (simp add: chain_next_def usage_sample_codec_def)
  from journal_tamper_evident [OF _ _ this this] show ?thesis by (simp add: usage_sample_codec_def Let_def)
qed

section \<open>Refusals\<close>

text \<open>
  a refusal answers with the same code whether it is answered directly or recorded on an
  accepted invocation and answered later; the type a control or budget refusal is recorded under
  identifies it; and every error answers a 4xx or 5xx status.
\<close>

theorem refusal_code_stable:
  "AppError_code (AE_Invocation i (InvocationError_new c (ControlError_error_type k) m)) = AppError_code (AE_Control k m')
   \<and> AppError_code (AE_Invocation i (InvocationError_new c (BudgetRefusal_error_type b) m)) = AppError_code (AE_Budget b m')
   \<and> AppError_code (AE_Invocation i (InvocationError_new c (error_type_for RR_CircuitOpen) m)) = AppError_code (AE_Admission RR_CircuitOpen m')
   \<and> AppError_code (AE_Invocation i (InvocationError_new c (error_type_for RR_FunctionDeleted) m)) = AppError_code (AE_FunctionDeleted m')
   \<and> ControlError_from_error_type (ControlError_error_type k) = Some k
   \<and> BudgetRefusal_from_error_type (BudgetRefusal_error_type b) = Some b
   \<and> ap_error_type (to_api_body req (AE_Control k m)) = ap_error_type (to_api_body req (AE_Invocation i (InvocationError_new c (ControlError_error_type k) m)))
   \<and> 400 \<le> AppError_http_status e \<and> AppError_http_status e < 600"
  using http_status_is_error [of "AppError_code e"]
  by (simp add: invocation_code_def InvocationError_new_def ControlError_round_trip BudgetRefusal_round_trip
      reason_of_control reason_of_budget budget_of_control reason_round_trip AppError_http_status_def to_api_body_def
      del: error_type_for.simps)

end
