(* ===== verification/Slot_Port.thy ===== *)
theory Slot_Port
  imports Slot
begin

text \<open>
  The slot port (\<open>SlotStore\<close> of \<open>repository/slot.rs\<close>) as its clients, the invoke pipeline
  and the dispatchers, rely on it: \<open>history\<close> is a store whose operations keep an invariant
  and only move up in an order; \<open>slot_port\<close> adds what an acquire and a completion promise.
  The consequences are proved once here and hold for every store that satisfies the laws.
\<close>

section \<open>Histories\<close>

locale history =
  fixes exec :: "'op \<Rightarrow> 's \<Rightarrow> 's"
    and ok :: "'s \<Rightarrow> bool"
    and le :: "'s \<Rightarrow> 's \<Rightarrow> bool"
  assumes exec_ok: "ok s \<Longrightarrow> ok (exec op s)"
    and exec_le: "ok s \<Longrightarrow> le s (exec op s)"
    and le_reflexive: "le s s"
    and le_transitive: "le s s' \<Longrightarrow> le s' s'' \<Longrightarrow> le s s''"
begin

lemma fold_ok: "ok s \<Longrightarrow> ok (fold exec ops s)"
  by (induction ops arbitrary: s) (auto intro: exec_ok)

lemma fold_le: "ok s \<Longrightarrow> le s (fold exec ops s)"
proof (induction ops arbitrary: s)
  case (Cons op ops)
  have "le (exec op s) (fold exec ops (exec op s))" using Cons by (blast intro: exec_ok)
  then show ?case using le_transitive [OF exec_le [OF Cons.prems]] by simp
qed (simp add: le_reflexive)

text \<open>What is preserved upwards, once true, is true for ever.\<close>

lemma fold_stable:
  assumes "ok s" "P s" "\<And>s s'. le s s' \<Longrightarrow> P s \<Longrightarrow> P s'"
  shows "P (fold exec ops s)"
  using assms fold_le by blast

end

section \<open>Slots\<close>

locale slot_port = history exec ok le
  for exec :: "'op \<Rightarrow> 's \<Rightarrow> 's" and ok :: "'s \<Rightarrow> bool" and le :: "'s \<Rightarrow> 's \<Rightarrow> bool" +
  fixes slot_of :: "'s \<Rightarrow> LeaseId \<Rightarrow> EnvironmentId option"
    and held :: "'s \<Rightarrow> LeaseId \<Rightarrow> bool"
    and port_acquire :: "SlotAcquire \<Rightarrow> 's \<Rightarrow> (RepoError + AcquireOutcome) \<times> 's"
    and port_complete :: "SlotCompletion \<Rightarrow> 's \<Rightarrow> (RepoError + CompletionOutcome) \<times> 's"
  assumes exclusive: "ok s \<Longrightarrow> held s l \<Longrightarrow> held s l' \<Longrightarrow> slot_of s l = slot_of s l' \<Longrightarrow> l = l'"
    and held_slot: "held s l \<Longrightarrow> slot_of s l \<noteq> None"
    and slot_fixed: "le s s' \<Longrightarrow> slot_of s l = Some e \<Longrightarrow> slot_of s' l = Some e"
    and release_final: "le s s' \<Longrightarrow> slot_of s l \<noteq> None \<Longrightarrow> \<not> held s l \<Longrightarrow> \<not> held s' l"
    and acquire_won: "ok s \<Longrightarrow> port_acquire r s = (Inr Acquired, s') \<Longrightarrow>
      held s' (lse_id (acq_lease r)) \<and> slot_of s' (lse_id (acq_lease r)) = Some (env_id (acq_env r)) \<and>
      slot_of s (lse_id (acq_lease r)) = None \<and>
      (\<forall>l. held s l \<longrightarrow> slot_of s l \<noteq> Some (env_id (acq_env r))) \<and> ok s' \<and> le s s'"
    and acquire_not_won: "port_acquire r s = (o', s') \<Longrightarrow> o' \<noteq> Inr Acquired \<Longrightarrow> s' = s"
    and complete_accepted: "ok s \<Longrightarrow> port_complete c s = (Inr Accepted, s') \<Longrightarrow>
      held s (cpl_lease_id c) \<and> slot_of s' (cpl_lease_id c) = slot_of s (cpl_lease_id c) \<and>
      \<not> held s' (cpl_lease_id c) \<and> ok s' \<and> le s s'"
    and complete_not_accepted: "port_complete c s = (p', s') \<Longrightarrow> p' \<noteq> Inr Accepted \<Longrightarrow> s' = s"
begin

text \<open>While a lease is held, no other acquire of its environment is won.\<close>

lemma no_second_acquire:
  assumes "ok s" "port_acquire r s = (Inr Acquired, s1)"
    and "s2 = fold exec ops s1" "held s2 (lse_id (acq_lease r))"
    and "env_id (acq_env r') = env_id (acq_env r)"
  shows "fst (port_acquire r' s2) \<noteq> Inr Acquired \<and> snd (port_acquire r' s2) = s2"
proof -
  note won = acquire_won [OF assms(1,2)]
  have "ok s2" using won fold_ok assms(3) by blast
  have "le s1 s2" using won fold_le assms(3) by blast
  then have slot: "slot_of s2 (lse_id (acq_lease r)) = Some (env_id (acq_env r'))"
    using won slot_fixed assms(5) by metis
  have "fst (port_acquire r' s2) \<noteq> Inr Acquired"
  proof
    assume "fst (port_acquire r' s2) = Inr Acquired"
    then have "port_acquire r' s2 = (Inr Acquired, snd (port_acquire r' s2))"
      by (metis prod.collapse)
    then show False using acquire_won [OF \<open>ok s2\<close>] slot assms(4) by blast
  qed
  moreover from this have "snd (port_acquire r' s2) = s2"
    using acquire_not_won [of r' s2 "fst (port_acquire r' s2)"] by simp
  ultimately show ?thesis by blast
qed

text \<open>A lease completes at most once, whatever happens in between.\<close>

lemma completes_once:
  assumes "ok s" "port_complete c s = (Inr Accepted, s1)"
    and "s2 = fold exec ops s1" "cpl_lease_id c' = cpl_lease_id c"
  shows "fst (port_complete c' s2) \<noteq> Inr Accepted \<and> snd (port_complete c' s2) = s2"
proof -
  note acc = complete_accepted [OF assms(1,2)]
  have "ok s2" using acc fold_ok assms(3) by blast
  have le: "le s1 s2" using acc fold_le assms(3) by blast
  have "slot_of s1 (cpl_lease_id c) \<noteq> None" using acc held_slot by metis
  then have free: "\<not> held s2 (cpl_lease_id c)" using release_final [OF le] acc by blast
  have "fst (port_complete c' s2) \<noteq> Inr Accepted"
  proof
    assume "fst (port_complete c' s2) = Inr Accepted"
    then have "port_complete c' s2 = (Inr Accepted, snd (port_complete c' s2))"
      by (metis prod.collapse)
    then show False using complete_accepted [OF \<open>ok s2\<close>] free assms(4) by metis
  qed
  moreover from this have "snd (port_complete c' s2) = s2"
    using complete_not_accepted [of c' s2 "fst (port_complete c' s2)"] by simp
  ultimately show ?thesis by blast
qed

text \<open>A lease that was released, by whatever operation, never completes.\<close>

lemma released_never_completes:
  assumes "ok s" "slot_of s (cpl_lease_id c) \<noteq> None" "\<not> held s (cpl_lease_id c)"
  shows "fst (port_complete c (fold exec ops s)) \<noteq> Inr Accepted \<and>
     snd (port_complete c (fold exec ops s)) = fold exec ops s"
proof -
  have "\<not> held (fold exec ops s) (cpl_lease_id c)"
    using release_final [OF fold_le [OF assms(1)]] assms(2,3) by blast
  then have "fst (port_complete c (fold exec ops s)) \<noteq> Inr Accepted"
    using complete_accepted [OF fold_ok [OF assms(1)], of c] by (metis prod.collapse)
  moreover from this have "snd (port_complete c (fold exec ops s)) = fold exec ops s"
    using complete_not_accepted [of c "fold exec ops s" "fst (port_complete c (fold exec ops s))"] by simp
  ultimately show ?thesis by blast
qed

end

end
