(* ===== verification/Store_Properties.thy ===== *)
theory Store_Properties
  imports Samples Slot_Port
begin

text \<open>
  The properties of the volatile store.  The store is an instance of the slot port; what a
  history of operations guarantees is read off the invariant, the order of states and the
  port.
\<close>

section \<open>The store satisfies the slot port\<close>

definition lease_slot :: "State \<Rightarrow> LeaseId \<Rightarrow> EnvironmentId option" where
  "lease_slot s l = map_option lse_environment_id (bt_get (st_leases s) l)"

definition lease_held :: "State \<Rightarrow> LeaseId \<Rightarrow> bool" where
  "lease_held s l = opt_is_some_and (\<lambda>x. lse_released_at x = None) (bt_get (st_leases s) l)"

lemma lease_held_iff: "lease_held s l \<longleftrightarrow> (\<exists>x. bt_get (st_leases s) l = Some x \<and> lse_released_at x = None)"
  by (simp add: lease_held_def opt_is_some_and_iff)

lemma state_le_lease:
  assumes "state_le s s'" "bt_get (st_leases s) l = Some x"
  shows "\<exists>x'. bt_get (st_leases s') l = Some x' \<and> lse_le x x'"
  using assms unfolding state_le_def by (meson rows_leD)

lemma acquire_won_lemma:
  assumes "store_inv s" "acquire cfg r s = (Inr Acquired, s')"
  shows "lease_held s' (lse_id (acq_lease r)) \<and>
    lease_slot s' (lse_id (acq_lease r)) = Some (env_id (acq_env r)) \<and>
    lease_slot s (lse_id (acq_lease r)) = None \<and>
    (\<forall>l. lease_held s l \<longrightarrow> lease_slot s l \<noteq> Some (env_id (acq_env r))) \<and> store_inv s' \<and> state_le s s'"
proof (cases rule: acquire_cases [of cfg r s])
  case (acquired stored)
  have s': "s' = acquire_write r s" using acquired(1) assms(2) by simp
  have steps: "row_step\<^sup>*\<^sup>* s s'" unfolding s' by (rule acquire_write_steps [OF acquired(2-4)])
  have pre: "lse_released_at (acq_lease r) = None" "lse_environment_id (acq_lease r) = env_id (acq_env r)"
    using acquired(3) by (auto simp: acquire_preconditions_ok)
  have chk: "\<not> has_unreleased_lease s (env_id (acq_env r))" "bt_get (st_leases s) (lse_id (acq_lease r)) = None"
    using acquired(4) by (auto simp: acquire_checks_ok)
  have "\<forall>l. lease_held s l \<longrightarrow> lease_slot s l \<noteq> Some (env_id (acq_env r))"
    using chk(1) unfolding lease_held_iff lease_slot_def has_unreleased_lease_iff by force
  then show ?thesis
    using pre chk(2) row_steps_inv [OF steps assms(1)] row_steps_le [OF steps]
    by (simp add: s' acquire_write_def lease_held_iff lease_slot_def)
next
  case (not_acquired o')
  then show ?thesis using assms(2) by simp
qed

lemma completion_accepted_lease:
  assumes "completion_accepted cfg c s s'"
  obtains l where "bt_get (st_leases s) (cpl_lease_id c) = Some l" "lse_released_at l = None"
    "st_leases s' = bt_insert (lse_id l) (l\<lparr>lse_released_at := Some (cpl_now c)\<rparr>) (st_leases s)"
proof -
  obtain l where "bt_get (st_leases s) (cpl_lease_id c) = Some l"
    "lease_is_current (Some l) (att_id (cpl_attempt c)) (att_epoch (cpl_attempt c))
          (bt_get (st_environments s) (lse_environment_id l)) = None"
    "st_leases s' = bt_insert (lse_id l) (l\<lparr>lse_released_at := Some (cpl_now c)\<rparr>) (st_leases s)"
    using assms unfolding completion_accepted_def
    by (cases "cpl_invocation c") (auto simp: Let_def split: if_splits)
  then show thesis using that by (auto simp: lease_is_current_None)
qed

lemma complete_accepted_lemma:
  assumes "store_inv s" "complete cfg c s = (Inr Accepted, s')"
  shows "lease_held s (cpl_lease_id c) \<and> lease_slot s' (cpl_lease_id c) = lease_slot s (cpl_lease_id c) \<and>
    \<not> lease_held s' (cpl_lease_id c) \<and> store_inv s' \<and> state_le s s'"
proof (cases rule: complete_cases [of cfg c s])
  case (accepted s1)
  have keys: "keys_inv s" using assms(1) by (simp add: store_inv_def)
  have acc: "completion_accepted cfg c s s'" using accepted assms(2) by simp
  note steps = completion_accepted_steps [OF acc keys]
  obtain l where l: "bt_get (st_leases s) (cpl_lease_id c) = Some l" "lse_released_at l = None"
    "st_leases s' = bt_insert (lse_id l) (l\<lparr>lse_released_at := Some (cpl_now c)\<rparr>) (st_leases s)"
    using completion_accepted_lease [OF acc] .
  have "lse_id l = cpl_lease_id c" using keys l(1) by (auto simp: keys_inv_def dest: keyedD)
  then show ?thesis
    using l row_steps_inv [OF steps assms(1)] row_steps_le [OF steps]
    by (simp add: lease_held_iff lease_slot_def)
next
  case (not_accepted o')
  then show ?thesis using assms(2) by simp
qed

interpretation memory: slot_port "exec cfg u" store_inv state_le lease_slot lease_held
    "acquire cfg" "complete cfg"
  for cfg u
proof unfold_locales
  fix s :: State and l l'
  assume "store_inv s" "lease_held s l" "lease_held s l'" "lease_slot s l = lease_slot s l'"
  then show "l = l'"
    using slots_uniqueD [of s l _ l'] by (auto simp: store_inv_def lease_held_iff lease_slot_def)
next
  fix s s' l e
  assume "state_le s s'" "lease_slot s l = Some e"
  then show "lease_slot s' l = Some e"
    using state_le_lease [of s s' l]
    by (auto simp: lease_slot_def lse_le_def row_le_def lse_identity_def)
next
  fix s s' l
  assume "state_le s s'" "lease_slot s l \<noteq> None" "\<not> lease_held s l"
  then show "\<not> lease_held s' l"
    using state_le_lease [of s s' l] by (auto simp: lease_held_iff lease_slot_def lse_le_def row_le_def)
next
  fix r s o' s'
  assume "acquire cfg r s = (o', s')" "o' \<noteq> Inr Acquired"
  then show "s' = s" by (cases rule: acquire_cases [of cfg r s]) auto
next
  fix c s o' s'
  assume "complete cfg c s = (o', s')" "o' \<noteq> Inr Accepted"
  then show "s' = s" by (cases rule: complete_cases [of cfg c s]) auto
next
  fix s s' r
  assume "store_inv s" "acquire cfg r s = (Inr Acquired, s')"
  then show "lease_held s' (lse_id (acq_lease r)) \<and>
    lease_slot s' (lse_id (acq_lease r)) = Some (env_id (acq_env r)) \<and>
    lease_slot s (lse_id (acq_lease r)) = None \<and>
    (\<forall>l. lease_held s l \<longrightarrow> lease_slot s l \<noteq> Some (env_id (acq_env r))) \<and> store_inv s' \<and> state_le s s'"
    by (rule acquire_won_lemma)
next
  fix s s' c
  assume "store_inv s" "complete cfg c s = (Inr Accepted, s')"
  then show "lease_held s (cpl_lease_id c) \<and> lease_slot s' (cpl_lease_id c) = lease_slot s (cpl_lease_id c) \<and>
    \<not> lease_held s' (cpl_lease_id c) \<and> store_inv s' \<and> state_le s s'"
    by (rule complete_accepted_lemma)
next
  fix s op
  assume "store_inv s"
  then show "store_inv (exec cfg u op s)" "state_le s (exec cfg u op s)"
    by (rule exec_inv, rule row_steps_le [OF exec_steps])
qed (auto simp: lease_held_iff lease_slot_def intro: state_le_trans)

lemma run_fold: "run cfg u ops s = fold (exec cfg u) ops s"
  by (simp add: run_def)

section \<open>Slots\<close>

text \<open>C1: In every state a store can reach from empty, by any operations in any order, an
  environment has at most one unreleased lease; the environment exists, belongs to the
  lease's tenant and owner, and stands at the lease's epoch.\<close>

theorem history_slot_exclusive:
  assumes "s = run cfg u ops State_default"
    and "bt_get (st_leases s) k = Some l" "lse_released_at l = None"
    and "bt_get (st_leases s) k' = Some l'" "lse_released_at l' = None"
    and "lse_environment_id l' = lse_environment_id l"
  shows "k' = k \<and> l' = l \<and>
    (\<exists>e. bt_get (st_environments s) (lse_environment_id l) = Some e \<and> env_epoch e = lse_epoch l \<and>
       env_owner e = lse_owner l \<and> env_tenant_id e = lse_tenant_id l)"
proof -
  have inv: "slots_inv s" "leases_inv s" using history_inv assms(1) by (auto simp: store_inv_def)
  have "k' = k" using slots_uniqueD [OF inv(1) assms(4,2,5,3,6)] .
  moreover obtain e where "bt_get (st_environments s) (lse_environment_id l) = Some e"
    "env_owner e = lse_owner l" "env_tenant_id e = lse_tenant_id l"
    using inv(2) assms(2) by (auto simp: leases_inv_def lease_env_ok_def)
  ultimately show ?thesis using slots_epochD [OF inv(1) assms(2,3)] assms(2,4) by auto
qed

theorem history_slot_exclusive_witness:
  "\<exists>e. bt_get (st_environments smp_leased) (Ident ''env_1'') = Some e \<and> env_epoch e = 1 \<and>
     env_owner e = Some (Ident ''dsp_1'') \<and> env_tenant_id e = smp_tenant"
proof -
  let ?l = "smp_lease (Ident ''lse_1'') (Ident ''att_1'')"
  have l: "bt_get (st_leases smp_leased) (Ident ''lse_1'') = Some ?l" by (simp add: smp_leased_eq)
  have "lse_released_at ?l = None" by (simp add: smp_lease_def lse_owned_by_def lse_acquire_def)
  from history_slot_exclusive [OF smp_leased_run l this l this refl]
  show ?thesis by (simp add: smp_lease_def lse_owned_by_def lse_acquire_def)
qed

text \<open>C2: Mutual exclusion of acquires.  After a won acquire, and after any further operations
  of any callers, every other acquire of the same environment fails and writes nothing as
  long as the lease is unreleased.\<close>

theorem acquire_mutual_exclusion:
  assumes "store_inv s" "acquire cfg r s = (Inr Acquired, s1)"
    and "s2 = run cfg u ops s1" "lease_held s2 (lse_id (acq_lease r))"
    and "env_id (acq_env r') = env_id (acq_env r)"
  shows "fst (acquire cfg r' s2) \<noteq> Inr Acquired \<and> snd (acquire cfg r' s2) = s2"
  using assms unfolding run_fold by (rule memory.no_second_acquire)

theorem acquire_mutual_exclusion_witness:
  "fst (acquire smp_cfg smp_rival smp_leased) \<noteq> Inr Acquired \<and>
   snd (acquire smp_cfg smp_rival smp_leased) = smp_leased"
proof -
  have "smp_leased = run smp_cfg smp_ulid [] smp_leased" by simp
  moreover have "lease_held smp_leased (lse_id (acq_lease smp_acquire))"
    by (simp add: lease_held_iff smp_leased_eq smp_acquire_def smp_lease_def lse_owned_by_def lse_acquire_def)
  moreover have "env_id (acq_env smp_rival) = env_id (acq_env smp_acquire)" by (simp add: smp_rival_def)
  ultimately show ?thesis by (rule acquire_mutual_exclusion [OF smp_state_inv smp_acquired])
qed

text \<open>C3: A lease completes at most once.  After an accepted completion, and after any further
  operations, every completion that names the same lease is refused and writes nothing.\<close>

theorem completion_exactly_once:
  assumes "store_inv s" "complete cfg c s = (Inr Accepted, s1)"
    and "s2 = run cfg u ops s1" "cpl_lease_id c' = cpl_lease_id c"
  shows "fst (complete cfg c' s2) \<noteq> Inr Accepted \<and> snd (complete cfg c' s2) = s2"
  using assms unfolding run_fold by (rule memory.completes_once)

theorem completion_exactly_once_witness:
  "fst (complete smp_cfg smp_completion (snd (complete smp_cfg smp_completion smp_leased)))
     \<noteq> Inr Accepted"
proof -
  let ?s1 = "snd (complete smp_cfg smp_completion smp_leased)"
  have "complete smp_cfg smp_completion smp_leased = (Inr Accepted, ?s1)"
    using smp_completed by (metis prod.collapse)
  moreover have "?s1 = run smp_cfg smp_ulid [] ?s1" by simp
  ultimately show ?thesis using completion_exactly_once [OF smp_leased_inv] by blast
qed

text \<open>An acquire is all or nothing.  It is won exactly when the request is well formed, the
  stored environment is reusable at the expected epoch and owned by the lease's owner, that
  dispatcher is live, the environment has no unreleased lease, the invocation can still be
  updated and the new rows are new; then the environment, the lease, the attempt and the
  invocation are written and nothing else, and otherwise the state does not change.\<close>

theorem acquire_atomic:
  "(fst (acquire cfg r s) = Inr Acquired \<longleftrightarrow>
      (\<exists>stored. bt_get (st_environments s) (env_id (acq_env r)) = Some stored \<and>
         acquire_preconditions r (Some stored) = Inr None \<and>
         (\<exists>d. bt_get (st_dispatchers s) (the (lse_owner (acq_lease r))) = Some d \<and> dsp_is_live d) \<and>
         \<not> has_unreleased_lease s (env_id (acq_env r)) \<and>
         (\<forall>iv. acq_invocation r = Some iv \<longrightarrow>
            (\<exists>old w. bt_get (st_invocations s) (inv_id iv) = Some old \<and>
               \<not> IS_is_terminal (inv_status old) \<and>
               invocation_update (max_response_bytes (cfg_limits cfg)) old iv = Inr w)) \<and>
         bt_get (st_attempts s) (att_id (acq_attempt r)) = None \<and>
         bt_get (st_leases s) (lse_id (acq_lease r)) = None \<and>
         attempt_insert (bt_get (st_invocations s) (att_invocation_id (acq_attempt r)))
           (acq_attempt r) = Inr () \<and>
         lse_tenant_id (acq_lease r) = env_tenant_id stored)) \<and>
   snd (acquire cfg r s) = (if fst (acquire cfg r s) = Inr Acquired then acquire_write r s else s)"
proof -
  have "snd (acquire cfg r s) = (if fst (acquire cfg r s) = Inr Acquired then acquire_write r s else s)"
    by (cases rule: acquire_cases [of cfg r s]) auto
  moreover have "fst (acquire cfg r s) = Inr Acquired \<longleftrightarrow>
      (\<exists>stored. bt_get (st_environments s) (env_id (acq_env r)) = Some stored \<and>
         acquire_preconditions r (Some stored) = Inr None \<and> acquire_checks cfg r stored s = Inr None)"
    by (auto simp: acquire_def Let_def split: option.splits sum.splits)
  ultimately show ?thesis unfolding acquire_checks_ok by blast
qed

theorem acquire_atomic_witness: "snd (acquire smp_cfg smp_acquire smp_state) = acquire_write smp_acquire smp_state"
  using acquire_atomic [of smp_cfg smp_acquire smp_state] smp_acquired by simp

section \<open>What is final\<close>

lemma rows_le_final:
  "rows_le (row_le ident_of final_of) m m' \<Longrightarrow> bt_get m k = Some v \<Longrightarrow> final_of v \<Longrightarrow> bt_get m' k = Some v"
  by (drule rows_leD) (auto simp: row_le_def)

lemma state_le_rows:
  assumes "state_le s s'"
  shows "rows_le (row_le fn_identity fn_final) (st_functions s) (st_functions s')"
    and "rows_le rev_le (st_revisions s) (st_revisions s')"
    and "rows_le al_le (st_aliases s) (st_aliases s')"
    and "rows_le inv_le (st_invocations s) (st_invocations s')"
    and "rows_le att_le (st_attempts s) (st_attempts s')"
    and "rows_le (row_le env_identity env_is_terminal) (st_environments s) (st_environments s')"
    and "rows_le (row_le lse_identity lse_final) (st_leases s) (st_leases s')"
proof -
  have "rows_le fn_le (st_functions s) (st_functions s')"
    "rows_le env_le (st_environments s) (st_environments s')" "rows_le lse_le (st_leases s) (st_leases s')"
    using assms by (simp_all add: state_le_def)
  then show "rows_le (row_le fn_identity fn_final) (st_functions s) (st_functions s')"
    "rows_le (row_le env_identity env_is_terminal) (st_environments s) (st_environments s')"
    "rows_le (row_le lse_identity lse_final) (st_leases s) (st_leases s')"
    by (auto elim!: rows_le_mono simp: fn_le_def env_le_def lse_le_def)
qed (use assms in \<open>simp_all add: state_le_def\<close>)

lemma rows_le_identity:
  "rows_le (row_le ident_of final_of) m m' \<Longrightarrow> bt_get m k = Some v \<Longrightarrow>
     \<exists>v'. bt_get m' k = Some v' \<and> ident_of v' = ident_of v"
  by (drule rows_leD) (auto simp: row_le_def)

text \<open>C4: Terminal is final.  Whatever is executed, a terminal invocation, attempt or
  environment, a ready or failed revision, a released lease and a drained function stay the
  row they are.\<close>

theorem final_rows_never_change:
  assumes "store_inv s" "s' = run cfg u ops s"
  shows "(bt_get (st_invocations s) i = Some iv \<and> IS_is_terminal (inv_status iv) \<longrightarrow>
            bt_get (st_invocations s') i = Some iv) \<and>
    (bt_get (st_attempts s) a = Some att \<and> AS_is_terminal (att_status att) \<longrightarrow>
            bt_get (st_attempts s') a = Some att) \<and>
    (bt_get (st_environments s) e = Some env \<and> env_is_terminal env \<longrightarrow>
            bt_get (st_environments s') e = Some env) \<and>
    (bt_get (st_revisions s) r = Some rv \<and> RS_is_terminal (rev_status rv) \<longrightarrow>
            bt_get (st_revisions s') r = Some rv) \<and>
    (bt_get (st_leases s) k = Some l \<and> lse_released_at l \<noteq> None \<longrightarrow>
            bt_get (st_leases s') k = Some l) \<and>
    (bt_get (st_functions s) f = Some fn \<and> fn_is_deleted fn \<and> fn_drained_at fn \<noteq> None \<longrightarrow>
            bt_get (st_functions s') f = Some fn)"
proof -
  note rows = state_le_rows [OF run_le [OF assms(1)], of cfg u ops, folded assms(2)]
  have "lse_released_at l \<noteq> None \<longleftrightarrow> lse_final l"
    "fn_is_deleted fn \<and> fn_drained_at fn \<noteq> None \<longleftrightarrow> fn_final fn" by (simp_all add: fn_final_def)
  then show ?thesis
    using rows_le_final [OF rows(1)] rows_le_final [OF rows(2)] rows_le_final [OF rows(4)]
      rows_le_final [OF rows(5)] rows_le_final [OF rows(6)] rows_le_final [OF rows(7)]
    by (simp only: rev_final_def inv_final_def att_final_def) blast
qed

theorem final_rows_never_change_witness:
  "bt_get (st_revisions (run smp_cfg smp_ulid [Op_revisions_update (smp_rev\<lparr>rev_status := RS_Pending\<rparr>)]
     smp_state)) (Ident ''rev_1'') = Some smp_rev"
proof -
  have "bt_get (st_revisions smp_state) (Ident ''rev_1'') = Some smp_rev" "RS_is_terminal (rev_status smp_rev)"
    by (simp_all add: smp_state_eq smp_rev_def)
  then show ?thesis using final_rows_never_change [OF smp_state_inv refl] by blast
qed

text \<open>C5: Rows never disappear, and the fields a guard calls immutable never change.  After any
  operations a row is still under its key: a function with its tenant, name and creation time; a
  revision with its function, tenant, number, spec and digest; an alias with its function, name,
  tenant and creation time, its generation larger if anything changed; an invocation with its
  tenant, function, alias, mode, event kind, idempotency key, input digest and length, trace,
  acceptance time and dispatcher; an attempt with its invocation, tenant, number, environment,
  epoch, start kind and dispatch time; an environment with its tenant, revision, provider, reuse
  key, owner and creation time; a lease with its environment, attempt, tenant, epoch, owner,
  deadline and acquisition time.  The pinned revision of an invocation is not in this list: the
  guard of the code does not compare it (\<open>invocation_revision_not_guarded\<close>).\<close>

theorem history_identity:
  assumes "store_inv s" "s' = run cfg u ops s"
  shows "(bt_get (st_functions s) f = Some fn \<longrightarrow>
      (\<exists>fn'. bt_get (st_functions s') f = Some fn' \<and> fn_tenant_id fn' = fn_tenant_id fn \<and>
         fn_name fn' = fn_name fn \<and> fn_created_at fn' = fn_created_at fn)) \<and>
    (bt_get (st_revisions s) r = Some rv \<longrightarrow>
      (\<exists>rev'. bt_get (st_revisions s') r = Some rev' \<and> rev_tenant_id rev' = rev_tenant_id rv \<and>
         rev_function_id rev' = rev_function_id rv \<and> rev_number rev' = rev_number rv \<and>
         rev_spec rev' = rev_spec rv \<and> rev_spec_digest rev' = rev_spec_digest rv \<and>
         rev_created_at rev' = rev_created_at rv)) \<and>
    (bt_get (st_aliases s) k = Some al \<longrightarrow>
      (\<exists>al'. bt_get (st_aliases s') k = Some al' \<and> al_function_id al' = al_function_id al \<and>
         al_name al' = al_name al \<and> al_tenant_id al' = al_tenant_id al \<and>
         al_created_at al' = al_created_at al \<and> k = (al_function_id al', al_name al') \<and>
         (al' = al \<or> al_generation al < al_generation al'))) \<and>
    (bt_get (st_invocations s) i = Some iv \<longrightarrow>
      (\<exists>iv'. bt_get (st_invocations s') i = Some iv' \<and> inv_tenant_id iv' = inv_tenant_id iv \<and>
         inv_function_id iv' = inv_function_id iv \<and> inv_alias iv' = inv_alias iv \<and>
         inv_mode iv' = inv_mode iv \<and> inv_event_kind iv' = inv_event_kind iv \<and>
         inv_idempotency_key iv' = inv_idempotency_key iv \<and>
         inv_input_digest iv' = inv_input_digest iv \<and>
         inv_input_size_bytes iv' = inv_input_size_bytes iv \<and> inv_trace_id iv' = inv_trace_id iv \<and>
         inv_accepted_at iv' = inv_accepted_at iv \<and> inv_dispatcher_id iv' = inv_dispatcher_id iv)) \<and>
    (bt_get (st_attempts s) a = Some att \<longrightarrow>
      (\<exists>att'. bt_get (st_attempts s') a = Some att' \<and> att_tenant_id att' = att_tenant_id att \<and>
         att_invocation_id att' = att_invocation_id att \<and> att_number att' = att_number att \<and>
         att_environment_id att' = att_environment_id att \<and> att_epoch att' = att_epoch att \<and>
         att_start_kind att' = att_start_kind att \<and> att_dispatched_at att' = att_dispatched_at att)) \<and>
    (bt_get (st_environments s) e = Some env \<longrightarrow>
      (\<exists>env'. bt_get (st_environments s') e = Some env' \<and> env_tenant_id env' = env_tenant_id env \<and>
         env_revision_id env' = env_revision_id env \<and> env_provider env' = env_provider env \<and>
         env_reuse_key env' = env_reuse_key env \<and> env_owner env' = env_owner env \<and>
         env_created_at env' = env_created_at env)) \<and>
    (bt_get (st_leases s) j = Some l \<longrightarrow>
      (\<exists>l'. bt_get (st_leases s') j = Some l' \<and> lse_environment_id l' = lse_environment_id l \<and>
         lse_attempt_id l' = lse_attempt_id l \<and> lse_tenant_id l' = lse_tenant_id l \<and>
         lse_epoch l' = lse_epoch l \<and> lse_owner l' = lse_owner l \<and>
         lse_deadline l' = lse_deadline l \<and> lse_acquired_at l' = lse_acquired_at l))"
proof -
  note rows = state_le_rows [OF run_le [OF assms(1)], of cfg u ops, folded assms(2)]
  have keyed_al: "keyed (\<lambda>a. (al_function_id a, al_name a)) (st_aliases s')"
    using run_inv [OF assms(1)] assms(2) by (simp add: store_inv_def keys_inv_def)
  have "\<exists>al'. bt_get (st_aliases s') k = Some al' \<and> al_le al al' \<and> k = (al_function_id al', al_name al')"
    if "bt_get (st_aliases s) k = Some al"
    using rows_leD [OF rows(3) that] keyedD [OF keyed_al] by metis
  then show ?thesis
    using rows_le_identity [OF rows(1), of f fn] rows_le_identity [OF rows(2), of r rv]
      rows_le_identity [OF rows(4), of i iv] rows_le_identity [OF rows(5), of a att]
      rows_le_identity [OF rows(6), of e env] rows_le_identity [OF rows(7), of j l]
    unfolding al_le_def identity_defs prod.inject by metis
qed

theorem history_identity_witness:
  "\<exists>iv'. bt_get (st_invocations (run smp_cfg smp_ulid [Op_invocations_update smp_running] smp_state))
     (Ident ''inv_1'') = Some iv' \<and> inv_tenant_id iv' = smp_tenant"
proof -
  have "bt_get (st_invocations smp_state) (Ident ''inv_1'') = Some smp_inv" "inv_tenant_id smp_inv = smp_tenant"
    by (simp_all add: smp_state_eq smp_inv_def)
  then show ?thesis using history_identity [OF smp_state_inv refl] by metis
qed

section \<open>Fencing\<close>

text \<open>C6: A fenced environment is never used again.  After any operations it is still fenced at
  the same epoch, no acquire of it is won, and the pool never hands it out.\<close>

theorem fenced_never_reused:
  assumes "store_inv s" "bt_get (st_environments s) k = Some e" "env_fenced_at e \<noteq> None"
    and "s' = run cfg u ops s"
  shows "(\<exists>e'. bt_get (st_environments s') k = Some e' \<and> env_fenced_at e' = env_fenced_at e \<and>
       env_epoch e' = env_epoch e) \<and>
    (env_id (acq_env r) = k \<longrightarrow> fst (acquire cfg r s') \<noteq> Inr Acquired) \<and>
    (\<forall>c. fst (claim_for_reuse key owner now s') = Inr (Some c) \<longrightarrow> env_id c \<noteq> k)"
proof -
  have "state_le s s'" using run_le assms by blast
  then obtain e' where e': "bt_get (st_environments s') k = Some e'" "env_le e e'"
    using assms(2) unfolding state_le_def by (meson rows_leD)
  have fenced: "env_fenced_at e' = env_fenced_at e" "env_epoch e' = env_epoch e"
    using e'(2) assms(3) by (auto simp: env_le_def)
  have inv: "store_inv s'" using run_inv assms by blast
  have "fst (acquire cfg r s') \<noteq> Inr Acquired" if "env_id (acq_env r) = k"
  proof (cases rule: acquire_cases [of cfg r s'])
    case (acquired stored)
    then show ?thesis using e' fenced assms(3) that by (auto simp: acquire_preconditions_ok env_is_reusable_def)
  qed simp
  moreover have "env_id c \<noteq> k" if claimed: "fst (claim_for_reuse key owner now s') = Inr (Some c)" for c
  proof -
    obtain j env where "bt_get (st_environments s') j = Some env" "env_reserve env now = Inr c"
      using claim_for_reuse_ok [OF claimed] by blast
    moreover from this have "env_id env = j" using inv by (auto simp: store_inv_def keys_inv_def dest: keyedD)
    ultimately show ?thesis using e' fenced assms(3) by (auto simp: env_reserve_ok)
  qed
  ultimately show ?thesis using e' fenced by blast
qed

theorem fenced_never_reused_witness:
  "fst (acquire smp_cfg smp_acquire (run smp_cfg smp_ulid [Op_environments_update smp_env]
     (smp_run [Op_environments_insert (smp_env\<lparr>env_fenced_at := Some 3\<rparr>)]))) \<noteq> Inr Acquired"
proof -
  let ?e = "smp_env\<lparr>env_fenced_at := Some 3\<rparr>"
  have inv: "store_inv (smp_run [Op_environments_insert ?e])" by (rule history_inv)
  have e: "bt_get (st_environments (smp_run [Op_environments_insert ?e])) (Ident ''env_1'') = Some ?e"
    by (simp add: environments_insert_def State_default_def commit_def environment_insert_def smp_env_def
        env_owned_by_def env_request_def smp_key_def)
  have "env_fenced_at ?e \<noteq> None" "env_id (acq_env smp_acquire) = Ident ''env_1''"
    by (simp_all add: smp_acquire_def smp_busy_def smp_env_def env_owned_by_def env_request_def)
  then show ?thesis using fenced_never_reused [OF inv e _ refl] by blast
qed

text \<open>C7: A stopped or reclaimed dispatcher is out.  After any operations neither a heartbeat nor
  a renewal after an outage revives it, and no acquire in its name is won.\<close>

theorem dead_dispatcher_fenced:
  assumes "store_inv s" "bt_get (st_dispatchers s) i = Some d" "\<not> dsp_is_live d"
    and "s' = run cfg u ops s"
  shows "heartbeat i ttl now s' = (Fenced, s') \<and> renew_after_store_outage i ttl now s' = (Fenced, s') \<and>
    (lse_owner (acq_lease r) = Some i \<longrightarrow> fst (acquire cfg r s') \<noteq> Inr Acquired)"
proof -
  have "state_le s s'" using run_le assms by blast
  then obtain d' where d': "bt_get (st_dispatchers s') i = Some d'" "dsp_le d d'"
    using assms(2) unfolding state_le_def by (meson rows_leD)
  then have dead: "\<not> dsp_is_live d'" using assms(3) by (auto simp: dsp_le_def dsp_is_live_def)
  have "fst (acquire cfg r s') \<noteq> Inr Acquired" if "lse_owner (acq_lease r) = Some i"
  proof (cases rule: acquire_cases [of cfg r s'])
    case (acquired stored)
    then show ?thesis using d'(1) dead that by (auto simp: acquire_checks_ok)
  qed simp
  then show ?thesis
    using d'(1) dead by (simp add: heartbeat_def renew_after_store_outage_def renew_dispatcher_def)
qed

theorem dead_dispatcher_fenced_witness:
  "heartbeat (Ident ''dsp_1'') 30 3 (run smp_cfg smp_ulid [] (exec smp_cfg smp_ulid
     (Op_stop_dispatcher (Ident ''dsp_1'') 2) smp_state)) =
   (Fenced, run smp_cfg smp_ulid [] (exec smp_cfg smp_ulid
     (Op_stop_dispatcher (Ident ''dsp_1'') 2) smp_state))"
proof -
  let ?s = "exec smp_cfg smp_ulid (Op_stop_dispatcher (Ident ''dsp_1'') 2) smp_state"
  let ?d = "(smp_dispatcher (Ident ''dsp_1'') 10)\<lparr>dsp_stopped_at := Some 2\<rparr>"
  have "bt_get (st_dispatchers ?s) (Ident ''dsp_1'') = Some ?d"
    by (simp add: stop_dispatcher_def smp_state_eq smp_dispatcher_def)
  moreover have "\<not> dsp_is_live ?d" by (simp add: dsp_is_live_def)
  ultimately show ?thesis
    using dead_dispatcher_fenced [OF exec_inv [OF smp_state_inv] _ _ refl] by blast
qed

section \<open>Reclaim\<close>

text \<open>Whether a reclaim releases a lease.\<close>

definition lease_reclaimable :: "ReclaimRequest \<Rightarrow> State \<Rightarrow> ExecutionLease \<Rightarrow> bool" where
  "lease_reclaimable request s l \<longleftrightarrow> lse_released_at l = None \<and>
     (\<exists>owner. lse_owner l = Some owner \<and> owner \<noteq> rcl_reclaimer request \<and>
        ((\<exists>d. bt_get (st_dispatchers s) owner = Some d \<and> dsp_dead request d) \<or>
         lse_is_expired l (rcl_now request) (rcl_skew request)))"

lemma lease_reclaimable_cause:
  assumes "store_inv s" "reclaim_dispatchers request s = (ds, report, dead)"
  shows "lease_reclaimable request s l \<longleftrightarrow> lse_released_at l = None \<and> lease_cause request dead l \<noteq> None"
proof (cases "lse_owner l")
  case (Some owner)
  then show ?thesis
    using reclaim_dead_get [OF assms, of owner]
    by (cases "bt_get dead owner") (auto simp: lease_reclaimable_def lease_cause_def)
qed (simp add: lease_reclaimable_def lease_cause_def)

text \<open>C33: Reclaim is complete.  When the reclaimer holds its own lease, every dispatcher that
  stopped, expired past the skew or was proven dead ends up marked as reclaimed, all its
  leases are released, its environments are terminal or fenced, and its synchronous
  invocations are terminal.\<close>

theorem reclaim_complete:
  assumes "store_inv s" "reclaimer_holds_lease request s"
    and "bt_get (st_dispatchers s) owner = Some d" "dsp_dead request d"
    and "s' = snd (reclaim_expired cfg request s)"
  shows "(\<exists>d'. bt_get (st_dispatchers s') owner = Some d' \<and> dsp_reclaimed_at d' \<noteq> None) \<and>
    (\<forall>k l. bt_get (st_leases s') k = Some l \<and> lse_owner l = Some owner \<longrightarrow> lse_released_at l \<noteq> None) \<and>
    (\<forall>k e. bt_get (st_environments s) k = Some e \<and> env_owner e = Some owner \<longrightarrow>
       (\<exists>e'. bt_get (st_environments s') k = Some e' \<and> (env_is_terminal e' \<or> env_fenced_at e' \<noteq> None))) \<and>
    (\<forall>i iv. bt_get (st_invocations s) i = Some iv \<and> inv_dispatcher_id iv = Some owner \<longrightarrow>
       (\<exists>iv'. bt_get (st_invocations s') i = Some iv' \<and> (inv_mode iv' = Async \<or> IS_is_terminal (inv_status iv'))))"
proof -
  obtain ds report dead where pass: "reclaim_dispatchers request s = (ds, report, dead)"
    by (cases "reclaim_dispatchers request s")
  have dead: "bt_get dead owner \<noteq> None" using reclaim_dead_get [OF assms(1) pass] assms(3,4) by blast
  have gone: "owner_gone s owner s'"
    unfolding assms(5) by (rule reclaim_expired_parts(3) [OF assms(1,2) pass dead])
  have id_d: "dsp_id d = owner" using assms(1,3) by (auto simp: store_inv_def keys_inv_def dest: keyedD)
  have "lse_released_at l \<noteq> None"
    if l: "bt_get (st_leases s') k = Some l" "lse_owner l = Some owner" for k l
  proof -
    obtain l0 where l0: "bt_get (st_leases s) k = Some l0"
      "l = (if lse_released_at l0 = None \<and> lease_cause request dead l0 \<noteq> None
            then lse_reclaimed (rcl_now request) l0 else l0)"
      using l(1) reclaim_leases_get [OF assms(1,2) pass, of cfg k] by (auto simp: assms(5))
    have "lse_owner l0 = Some owner" using l(2) l0(2) by (auto simp: lse_reclaimed_def split: if_splits)
    then have "lease_cause request dead l0 \<noteq> None"
      using dead id_d assms(4) by (auto simp: lease_cause_def dsp_dead_def split: option.splits)
    then show ?thesis using l0(2) by (auto simp: lse_reclaimed_def)
  qed
  moreover have "\<exists>d'. bt_get (st_dispatchers s') owner = Some d' \<and> dsp_reclaimed_at d' \<noteq> None"
    using reclaim_dispatchers_get(1) [OF _ pass, of owner] assms
    by (auto simp: reclaim_dispatchers_after [OF assms(2) pass] store_inv_def dsp_marked_def)
  ultimately show ?thesis
    using gone unfolding owner_gone_def inv_gone_def env_gone_def inv_settled_def env_settled_def by blast
qed

text \<open>C34: Reclaim is safe.  A reclaimer that cannot prove its own lease changes nothing and
  reports nothing.  Otherwise a lease is released exactly when it is reclaimable: its owner is
  not the reclaimer and is dead, or the lease itself is past its expiry plus the skew; every
  other lease is left as it is.\<close>

theorem reclaim_safe:
  assumes "store_inv s"
  shows "(\<not> reclaimer_holds_lease request s \<longrightarrow>
       reclaim_expired cfg request s = (ReclaimReport_default, s)) \<and>
    (reclaimer_holds_lease request s \<longrightarrow>
       (\<forall>k. bt_get (st_leases (snd (reclaim_expired cfg request s))) k =
          map_option (\<lambda>l. if lease_reclaimable request s l then lse_reclaimed (rcl_now request) l else l)
            (bt_get (st_leases s) k)))"
proof -
  obtain ds report dead where pass: "reclaim_dispatchers request s = (ds, report, dead)"
    by (cases "reclaim_dispatchers request s")
  show ?thesis
    using reclaim_leases_get [OF assms _ pass, of cfg] lease_reclaimable_cause [OF assms pass]
    by (auto simp: reclaim_expired_def)
qed

text \<open>A completion that arrives after its lease was reclaimed is stale: whatever happens
  after the reclaim, it is not accepted and writes nothing.\<close>

theorem reclaimed_completion_stale:
  assumes "store_inv s" "reclaimer_holds_lease request s"
    and "bt_get (st_leases s) (cpl_lease_id c) = Some l" "lease_reclaimable request s l"
    and "s' = run cfg u ops (snd (reclaim_expired cfg request s))"
  shows "fst (complete cfg c s') \<noteq> Inr Accepted \<and> snd (complete cfg c s') = s'"
proof -
  obtain ds report dead where pass: "reclaim_dispatchers request s = (ds, report, dead)"
    by (cases "reclaim_dispatchers request s")
  let ?s1 = "snd (reclaim_expired cfg request s)"
  have inv: "store_inv ?s1" using reclaim_expired_steps [OF assms(1)] row_steps_inv assms(1) by blast
  have "bt_get (st_leases ?s1) (cpl_lease_id c) = Some (lse_reclaimed (rcl_now request) l)"
    using reclaim_leases_get [OF assms(1,2) pass, of cfg "cpl_lease_id c"] assms(3,4)
      lease_reclaimable_cause [OF assms(1) pass, of l] by simp
  then have "lease_slot ?s1 (cpl_lease_id c) \<noteq> None" "\<not> lease_held ?s1 (cpl_lease_id c)"
    by (simp_all add: lease_slot_def lease_held_iff lse_reclaimed_def)
  then show ?thesis
    using memory.released_never_completes [OF inv] unfolding assms(5) run_fold by blast
qed

text \<open>The reclaimer of the sample holds its lease, and the other dispatcher's has expired.\<close>

lemma smp_reclaim_holds: "reclaimer_holds_lease smp_reclaim smp_leased"
  by (simp add: reclaimer_holds_lease_def smp_reclaim_def smp_leased_eq smp_state_eq smp_dispatcher_def
      dsp_is_live_def)

lemma smp_reclaim_dead:
  "bt_get (st_dispatchers smp_leased) (Ident ''dsp_1'') = Some (smp_dispatcher (Ident ''dsp_1'') 10)"
  "dsp_dead smp_reclaim (smp_dispatcher (Ident ''dsp_1'') 10)"
  by (simp_all add: smp_reclaim_def smp_leased_eq smp_state_eq smp_dispatcher_def dsp_dead_def
      dsp_is_expired_def)

lemma smp_reclaim_lease:
  "bt_get (st_leases smp_leased) (Ident ''lse_1'') = Some (smp_lease (Ident ''lse_1'') (Ident ''att_1''))"
  "lease_reclaimable smp_reclaim smp_leased (smp_lease (Ident ''lse_1'') (Ident ''att_1''))"
  by (simp_all add: lease_reclaimable_def smp_leased_eq smp_lease_def lse_owned_by_def lse_acquire_def
      smp_reclaim_def lse_is_expired_def)

theorem reclaim_complete_witness:
  "\<exists>iv'. bt_get (st_invocations (snd (reclaim_expired smp_cfg smp_reclaim smp_leased))) (Ident ''inv_1'')
     = Some iv' \<and> (inv_mode iv' = Async \<or> IS_is_terminal (inv_status iv'))"
proof -
  have "bt_get (st_invocations smp_leased) (Ident ''inv_1'') = Some smp_running \<and>
      inv_dispatcher_id smp_running = Some (Ident ''dsp_1'')"
    by (simp add: smp_leased_eq smp_running_def smp_inv_def)
  then show ?thesis
    using reclaim_complete [OF smp_leased_inv smp_reclaim_holds smp_reclaim_dead refl] by blast
qed

theorem reclaim_safe_witness:
  "bt_get (st_leases (snd (reclaim_expired smp_cfg smp_reclaim smp_leased))) (Ident ''lse_1'') =
     Some (lse_reclaimed 20 (smp_lease (Ident ''lse_1'') (Ident ''att_1'')))"
  using reclaim_safe [OF smp_leased_inv, of smp_reclaim smp_cfg] smp_reclaim_holds smp_reclaim_lease
  by (simp add: smp_reclaim_def [THEN arg_cong [of _ _ rcl_now]])

theorem reclaimed_completion_stale_witness:
  "fst (complete smp_cfg smp_completion (run smp_cfg smp_ulid []
     (snd (reclaim_expired smp_cfg smp_reclaim smp_leased)))) \<noteq> Inr Accepted"
proof -
  have "cpl_lease_id smp_completion = Ident ''lse_1''" by (simp add: smp_completion_def)
  then show ?thesis
    using reclaimed_completion_stale [OF smp_leased_inv smp_reclaim_holds _ smp_reclaim_lease(2) refl]
      smp_reclaim_lease(1) by metis
qed

end
