(* ===== verification/Ledger_Properties.thy ===== *)
theory Ledger_Properties
  imports Samples
begin

text \<open>
  Further properties of the store: renewal against reclaim, idempotency keys, aliases,
  function names, collected objects and the warm pool.
\<close>

section \<open>Renewal\<close>

lemma lse_extend_expires: "\<exists>t. lse_expires_at (lse_extend l now ttl) = Some t \<and> now + ttl \<le> t"
  by (cases "lse_expires_at l") (auto simp: lse_extend_def Let_def)

text \<open>A renewal protects what it renewed.  After a heartbeat or an outage renewal that was
  granted, a reclaim by another dispatcher whose clock is before the new expiry plus the skew
  leaves the dispatcher live and its renewed leases unreleased, unless it is proven dead.\<close>

theorem renewed_not_reclaimed:
  assumes "store_inv s" "renew_dispatcher i ttl now revive s = (Renewed n, s1)"
    and "rcl_reclaimer request \<noteq> i" "i \<notin> set (rcl_presumed_dead request)"
    and "rcl_now request < now + ttl + rcl_skew request"
    and "s2 = snd (reclaim_expired cfg request s1)"
  shows "(\<exists>d. bt_get (st_dispatchers s2) i = Some d \<and> dsp_is_live d) \<and>
    (\<forall>k l l'. bt_get (st_leases s) k = Some l \<and> renewed_lease i ttl now revive l = Some l' \<longrightarrow>
       bt_get (st_leases s2) k = Some l' \<and> lse_released_at l' = None)"
proof -
  obtain d where d: "bt_get (st_dispatchers s) i = Some d" "dsp_is_live d" and
    s1: "s1 = s\<lparr>st_dispatchers := bt_insert i (d\<lparr>dsp_heartbeat_at := now,
        dsp_lease_expires_at := max (dsp_lease_expires_at d) (now + ttl)\<rparr>) (st_dispatchers s),
      st_leases := bt_map (\<lambda>_ l. case renewed_lease i ttl now revive l of Some l' \<Rightarrow> l' | None \<Rightarrow> l) (st_leases s)\<rparr>"
    using assms(2) by (auto simp: renew_dispatcher_def Let_def split: option.splits if_splits)
  let ?d = "d\<lparr>dsp_heartbeat_at := now, dsp_lease_expires_at := max (dsp_lease_expires_at d) (now + ttl)\<rparr>"
  have inv1: "store_inv s1"
    using row_steps_inv [OF renew_dispatcher_steps [of s i ttl now revive] assms(1)] assms(2) by simp
  have keys1: "keys_inv s1" using inv1 by (simp add: store_inv_def)
  have d1: "bt_get (st_dispatchers s1) i = Some ?d" by (simp add: s1)
  have alive: "dsp_is_live ?d" "\<not> dsp_dead request ?d"
    using d(2) assms(3-5) keys1 d1
    by (auto simp: dsp_dead_def dsp_is_live_def dsp_is_expired_def keys_inv_def dest: keyedD)
  have lease: "bt_get (st_leases s1) k = Some l' \<and> lse_released_at l' = None \<and> lse_owner l' = Some i \<and>
      \<not> lse_is_expired l' (rcl_now request) (rcl_skew request)"
    if "bt_get (st_leases s) k = Some l" "renewed_lease i ttl now revive l = Some l'" for k l l'
  proof -
    have l': "l' = lse_extend l now ttl" "lse_owner l = Some i" "lse_released_at l = None"
      using that(2) by (auto simp: renewed_lease_def lse_renew_ok lse_revive_ok split: if_splits sum.splits)
    then obtain t where "lse_expires_at l' = Some t" "now + ttl \<le> t"
      using lse_extend_expires by blast
    then show ?thesis using that l' assms(5) by (auto simp: s1 lse_is_expired_def)
  qed
  show ?thesis
  proof (cases "reclaimer_holds_lease request s1")
    case False
    then have "s2 = s1" using assms(6) by (simp add: reclaim_expired_def)
    then show ?thesis using d1 alive(1) lease by blast
  next
    case True
    obtain ds report dead where pass: "reclaim_dispatchers request s1 = (ds, report, dead)"
      by (cases "reclaim_dispatchers request s1")
    have "bt_get dead i = None"
      using reclaim_dispatchers_get(2) [OF keys1 pass, of i] d1 alive(2) by simp
    then have "lease_cause request dead l' = None" if "bt_get (st_leases s) k = Some l"
      "renewed_lease i ttl now revive l = Some l'" for k l l'
      using lease [OF that] by (simp add: lease_cause_def)
    then have "bt_get (st_leases s2) k = Some l'" if "bt_get (st_leases s) k = Some l"
      "renewed_lease i ttl now revive l = Some l'" for k l l'
      using reclaim_leases_get [OF inv1 True pass, of cfg k] lease [OF that] that by (simp add: assms(6))
    moreover have "bt_get (st_dispatchers s2) i = Some ?d"
      using reclaim_dispatchers_get(1) [OF keys1 pass, of i] d1 alive(2)
      by (simp add: assms(6) reclaim_dispatchers_after [OF True pass] dsp_marked_def)
    ultimately show ?thesis using alive(1) lease by blast
  qed
qed

section \<open>Idempotency\<close>

definition key_bound :: "State \<Rightarrow> IdempotencyKey \<Rightarrow> InvocationId \<Rightarrow> bool" where
  "key_bound s key i \<longleftrightarrow> (\<exists>b. bt_get (st_idempotency s) key = Some b \<and> bnd_invocation_id b = i)"

definition inv_terminal :: "State \<Rightarrow> InvocationId \<Rightarrow> bool" where
  "inv_terminal s i \<longleftrightarrow> (\<exists>iv. bt_get (st_invocations s) i = Some iv \<and> IS_is_terminal (inv_status iv))"

lemma bindings_expired_terminal:
  assumes "bindings_inv s" "bt_get (st_idempotency s) key = Some b" "bnd_expires_at b \<noteq> None"
  shows "inv_terminal s (bnd_invocation_id b)"
  using assms by (cases key) (force simp: bindings_inv_def inv_terminal_def)

lemma set_binding_expiry_get:
  "\<exists>f. (\<forall>b. bnd_invocation_id (f b) = bnd_invocation_id b) \<and>
     bt_get (st_idempotency (set_binding_expiry s i r)) key = map_option f (bt_get (st_idempotency s) key)"
proof (cases "inv_idempotency_key i = None \<or> \<not> IS_is_terminal (inv_status i)")
  case True
  then have "bt_get (st_idempotency (set_binding_expiry s i r)) key =
      map_option (\<lambda>b. b) (bt_get (st_idempotency s) key)"
    by (auto simp: set_binding_expiry_def option.map_ident)
  then show ?thesis by (intro exI [of _ "\<lambda>b. b"]) simp
next
  case False
  let ?f = "\<lambda>b. if bnd_invocation_id b = inv_id i then b\<lparr>bnd_expires_at :=
    map_option (\<lambda>r. (case inv_finished_at i of Some t \<Rightarrow> t | None \<Rightarrow> inv_accepted_at i) + r) r\<rparr> else b"
  have "bt_get (st_idempotency (set_binding_expiry s i r)) key = map_option ?f (bt_get (st_idempotency s) key)"
    using False by (simp only: set_binding_expiry_def Let_def if_False) simp
  moreover have "\<forall>b. bnd_invocation_id (?f b) = bnd_invocation_id b" by simp
  ultimately show ?thesis by (intro exI [of _ ?f] conjI)
qed

lemma row_step_key_bound:
  assumes "row_step s s'" "bindings_inv s" "key_bound s key i" "\<not> inv_terminal s i"
  shows "key_bound s' key i"
  using assms
proof (induction rule: row_step.induct)
  case (bind s iv k b)
  then have "key \<noteq> (inv_tenant_id iv, inv_function_id iv, k)"
    using bindings_expired_terminal by (fastforce simp: key_bound_def)
  then show ?case using bind.prems by (auto simp: key_bound_def)
next
  case (bind_expiry s iv retention)
  then show ?case
    using set_binding_expiry_get [of s iv retention key] by (auto simp: key_bound_def)
next
  case (unbind p s)
  then obtain b where b: "bt_get (st_idempotency s) key = Some b" "bnd_invocation_id b = i"
    by (auto simp: key_bound_def)
  then have "bnd_expires_at b = None" using unbind.prems bindings_expired_terminal by blast
  then have "p key b" using unbind.hyps by simp
  then show ?case using b by (auto simp: key_bound_def bt_get_retain)
qed (auto simp: key_bound_def)

lemma inv_terminal_mono: "state_le s s' \<Longrightarrow> inv_terminal s i \<Longrightarrow> inv_terminal s' i"
  unfolding inv_terminal_def state_le_def by (blast dest: rows_leD inv_le_binding)

lemma row_steps_key_bound:
  assumes "row_step\<^sup>*\<^sup>* s s'" "store_inv s" "key_bound s key i"
  shows "key_bound s' key i \<or> inv_terminal s' i"
  using assms
proof (induction rule: rtranclp_induct)
  case (step y z)
  have "bindings_inv y" using row_steps_inv [OF step.hyps(1)] step.prems by (simp add: store_inv_def)
  then show ?case
    using step row_step_key_bound [OF step.hyps(2)] inv_terminal_mono [OF row_step_le [OF step.hyps(2)]]
    by blast
qed simp

lemma insert_bound_binds:
  assumes "insert_bound cfg i s = (Inr Inserted, s1)" "inv_idempotency_key i = Some key"
  shows "key_bound s1 (inv_tenant_id i, inv_function_id i, key) (inv_id i) \<and>
    bt_get (st_invocations s1) (inv_id i) = Some i"
  using assms
  by (auto simp: insert_bound_def Let_def insert_invocation_def key_bound_def set_binding_expiry_def
      split: option.splits sum.splits if_splits)

text \<open>C35: A request is admitted once.  Once an invocation was inserted under an idempotency key,
  then after any operations, as long as it is not terminal, every insert under the same
  tenant, function and key answers with that invocation and its input digest and writes
  nothing, and so does every lookup at any time.\<close>

theorem idempotent_admission:
  assumes "store_inv s" "insert_bound cfg i s = (Inr Inserted, s1)" "inv_idempotency_key i = Some key"
    and "s2 = run cfg u ops s1"
    and "bt_get (st_invocations s2) (inv_id i) = Some iv" "\<not> IS_is_terminal (inv_status iv)"
    and "inv_tenant_id j = inv_tenant_id i" "inv_function_id j = inv_function_id i"
    and "inv_idempotency_key j = Some key"
  shows "\<exists>b. bnd_invocation_id b = inv_id i \<and> bnd_input_digest b = inv_input_digest i \<and>
    insert_bound cfg j s2 = (Inr (Existing b), s2) \<and>
    (\<forall>now. idempotency_lookup (inv_tenant_id i) (inv_function_id i) key now s2 = Some b)"
proof -
  let ?k = "(inv_tenant_id i, inv_function_id i, key)"
  have inv1: "store_inv s1"
    using row_steps_inv [OF insert_bound_steps [of s cfg i] assms(1)] assms(1,2)
    by (simp add: store_inv_def)
  have steps: "row_step\<^sup>*\<^sup>* s1 s2" using run_steps [OF inv1] assms(4) by blast
  have inv2: "bindings_inv s2" using row_steps_inv [OF steps inv1] by (simp add: store_inv_def)
  have "\<not> inv_terminal s2 (inv_id i)" using assms(5,6) by (simp add: inv_terminal_def)
  then have "key_bound s2 ?k (inv_id i)"
    using row_steps_key_bound [OF steps inv1 conjunct1 [OF insert_bound_binds [OF assms(2,3)]]] by blast
  then obtain b where b: "bt_get (st_idempotency s2) ?k = Some b" "bnd_invocation_id b = inv_id i"
    by (auto simp: key_bound_def)
  have "bnd_expires_at b = None" "inv_input_digest iv = bnd_input_digest b"
    using inv2 b assms(5,6) unfolding bindings_inv_def by (force, force)
  moreover have "inv_input_digest iv = inv_input_digest i"
  proof -
    have "rows_le inv_le (st_invocations s1) (st_invocations s2)"
      using row_steps_le [OF steps] by (simp add: state_le_def)
    then show ?thesis
      using rows_leD insert_bound_binds [OF assms(2,3)] assms(5) inv_le_binding by fastforce
  qed
  ultimately have live: "live_binding s2 ?k now = Some b" for now
    using b assms(5) by (simp add: live_binding_def)
  then show ?thesis
    using b \<open>inv_input_digest iv = bnd_input_digest b\<close> \<open>inv_input_digest iv = inv_input_digest i\<close> assms(7-9)
    by (intro exI [of _ b]) (simp add: insert_bound_def idempotency_lookup_def)
qed

theorem idempotent_admission_witness:
  "\<exists>b. bnd_invocation_id b = Ident ''inv_1'' \<and>
     insert_bound smp_cfg (smp_inv\<lparr>inv_id := Ident ''inv_2''\<rparr>) (smp_run [Op_insert_bound smp_inv])
       = (Inr (Existing b), smp_run [Op_insert_bound smp_inv])"
proof -
  let ?s1 = "smp_run [Op_insert_bound smp_inv]"
  have ins: "insert_bound smp_cfg smp_inv State_default = (Inr Inserted, ?s1)"
    and get: "bt_get (st_invocations ?s1) (inv_id smp_inv) = Some smp_inv"
    by (simp_all add: insert_bound_def Let_def live_binding_def State_default_def insert_invocation_def
        invocation_insert_def bounded_output_def smp_inv_def)
  have "?s1 = run smp_cfg smp_ulid [] ?s1" by simp
  from idempotent_admission [OF store_inv_default ins _ this get, of "''k''" "smp_inv\<lparr>inv_id := Ident ''inv_2''\<rparr>"]
  show ?thesis by (auto simp: smp_inv_def)
qed

theorem renewed_not_reclaimed_witness:
  "\<exists>d. bt_get (st_dispatchers (snd (reclaim_expired smp_cfg smp_reclaim
      (snd (renew_dispatcher (Ident ''dsp_1'') 30 5 False smp_leased))))) (Ident ''dsp_1'') = Some d \<and> dsp_is_live d"
proof -
  have "renew_dispatcher (Ident ''dsp_1'') 30 5 False smp_leased =
      (Renewed (length (filter (\<lambda>l. renewed_lease (Ident ''dsp_1'') 30 5 False l \<noteq> None)
         (bt_values (st_leases smp_leased)))),
       snd (renew_dispatcher (Ident ''dsp_1'') 30 5 False smp_leased))"
    by (simp add: renew_dispatcher_def smp_leased_eq smp_state_eq smp_dispatcher_def dsp_is_live_def Let_def)
  from renewed_not_reclaimed [OF smp_leased_inv this, of smp_reclaim _ smp_cfg]
  show ?thesis by (simp add: smp_reclaim_def)
qed

section \<open>Aliases\<close>

text \<open>An alias always points at an existing revision of its own function in its own tenant, in
  every state a store can reach.\<close>

theorem alias_target_exists:
  assumes "s = run cfg u ops State_default" "bt_get (st_aliases s) k = Some a"
  shows "\<exists>r. bt_get (st_revisions s) (al_revision_id a) = Some r \<and>
    rev_function_id r = al_function_id a \<and> rev_tenant_id r = al_tenant_id a \<and>
    k = (al_function_id a, al_name a)"
proof -
  have inv: "aliases_inv s" "keys_inv s" using history_inv assms(1) by (auto simp: store_inv_def)
  obtain r where "bt_get (st_revisions s) (al_revision_id a) = Some r"
    "rev_function_id r = al_function_id a" "rev_tenant_id r = al_tenant_id a"
    using inv(1) assms(2) unfolding aliases_inv_def by blast
  moreover have "k = (al_function_id a, al_name a)"
    using inv(2) assms(2) by (auto simp: keys_inv_def dest: keyedD)
  ultimately show ?thesis by blast
qed

theorem alias_target_exists_witness:
  "\<exists>r. bt_get (st_revisions smp_state) (Ident ''rev_1'') = Some r \<and> rev_function_id r = Ident ''fn_1''"
proof -
  have "bt_get (st_aliases smp_state) (Ident ''fn_1'', Ident ''live'') = Some smp_alias"
    by (simp add: smp_state_eq)
  from alias_target_exists [OF smp_state_def this] show ?thesis by (simp add: smp_alias_def al_new_def) blast
qed

text \<open>C36: Of two compare-and-set writes that read the same generation at most one wins.  After a
  won write, and after any operations, another one that expects the generation the first one
  replaced does not win and writes nothing.\<close>

theorem alias_cas_exclusive:
  assumes "store_inv s" "aliases_compare_and_set a g s = (Inr True, s1)" "s2 = run cfg u ops s1"
    and "al_function_id b = al_function_id a" "al_name b = al_name a"
  shows "fst (aliases_compare_and_set b g s2) = Inr False \<and> snd (aliases_compare_and_set b g s2) = s2"
proof -
  let ?k = "(al_function_id a, al_name a)"
  obtain old where old: "bt_get (st_aliases s) ?k = Some old" "al_generation old = g"
    "al_generation old < al_generation a"
    and s1: "s1 = s\<lparr>st_aliases := bt_insert ?k a (st_aliases s)\<rparr>"
    using assms(2)
    by (auto simp: aliases_compare_and_set_def Let_def alias_update_ok split: option.splits if_splits sum.splits)
  have inv1: "store_inv s1"
    using row_steps_inv [OF aliases_compare_and_set_steps [of s a g] assms(1)] assms(2) by simp
  have "rows_le al_le (st_aliases s1) (st_aliases s2)"
    using run_le [OF inv1, of cfg u ops] assms(3) by (simp add: state_le_def)
  moreover have "bt_get (st_aliases s1) ?k = Some a" by (simp add: s1)
  ultimately obtain a2 where "bt_get (st_aliases s2) ?k = Some a2" "al_le a a2" by (auto dest: rows_leD)
  moreover from this(2) have "al_generation a2 \<noteq> g" using old(2,3) by (auto simp: al_le_def)
  ultimately show ?thesis using assms(4,5) by (simp add: aliases_compare_and_set_def Let_def)
qed

theorem alias_cas_exclusive_witness:
  "fst (aliases_compare_and_set (smp_alias\<lparr>al_generation := 2\<rparr>) 1
     (run smp_cfg smp_ulid [] (snd (aliases_compare_and_set (smp_alias\<lparr>al_generation := 2\<rparr>) 1 smp_state)))) = Inr False"
proof -
  let ?a = "smp_alias\<lparr>al_generation := 2\<rparr>"
  have "aliases_compare_and_set ?a 1 smp_state = (Inr True, snd (aliases_compare_and_set ?a 1 smp_state))"
    by (simp add: aliases_compare_and_set_def Let_def smp_state_eq State_default_def smp_alias_def al_new_def
        alias_update_def alias_target_def smp_fn_def smp_rev_def same_tenant_def word_le_nat_alt)
  from alias_cas_exclusive [OF smp_state_inv this refl refl refl] show ?thesis by blast
qed

section \<open>Function names\<close>

text \<open>The lookup by name is exact.  In every reachable state it finds a function if and only if
  the tenant has a live one of that name, and that function is the only one.\<close>

theorem find_by_name_exact:
  assumes "s = run cfg u ops State_default"
  shows "(functions_find_by_name tenant name s = Some f \<longleftrightarrow>
      bt_get (st_functions s) (fn_id f) = Some f \<and> fn_tenant_id f = tenant \<and> fn_name f = name \<and>
      \<not> fn_is_deleted f)"
proof -
  have names: "names_inv s" and keys: "keys_inv s" using history_inv assms by (auto simp: store_inv_def)
  let ?P = "\<lambda>f. fn_tenant_id f = tenant \<and> fn_name f = name \<and> \<not> fn_is_deleted f"
  have key: "bt_get (st_functions s) (fn_id f) = Some f" if "f \<in> set (bt_values (st_functions s))" for f
    using that keys by (auto simp: bt_values_iff keys_inv_def dest: keyedD)
  have uniq: "f = g" if "f \<in> set (bt_values (st_functions s))" "?P f"
      "g \<in> set (bt_values (st_functions s))" "?P g" for f g
  proof -
    have "fn_id f = fn_id g"
      by (rule names [unfolded names_inv_def, rule_format, OF key [OF that(1)] key [OF that(3)]])
         (use that(2,4) in auto)
    then show ?thesis using key [OF that(1)] key [OF that(3)] by (metis option.inject)
  qed
  show ?thesis
  proof
    assume "functions_find_by_name tenant name s = Some f"
    then have "f \<in> set (bt_values (st_functions s))" "?P f"
      by (auto simp: functions_find_by_name_def find_Some_iff)
    then show "bt_get (st_functions s) (fn_id f) = Some f \<and> ?P f" using key by blast
  next
    assume f: "bt_get (st_functions s) (fn_id f) = Some f \<and> ?P f"
    then have mem: "f \<in> set (bt_values (st_functions s))" by (auto simp: bt_values_iff)
    then obtain g where g: "functions_find_by_name tenant name s = Some g"
      using f find_None_iff [of ?P "bt_values (st_functions s)"]
      by (cases "functions_find_by_name tenant name s") (auto simp: functions_find_by_name_def)
    then have "g \<in> set (bt_values (st_functions s))" "?P g"
      by (auto simp: functions_find_by_name_def find_Some_iff)
    then show "functions_find_by_name tenant name s = Some f" using uniq mem f g by blast
  qed
qed

theorem find_by_name_exact_witness:
  "functions_find_by_name smp_tenant (Ident ''hello'') smp_state = Some smp_fn"
proof -
  have "bt_get (st_functions smp_state) (fn_id smp_fn) = Some smp_fn \<and> fn_tenant_id smp_fn = smp_tenant \<and>
      fn_name smp_fn = Ident ''hello'' \<and> \<not> fn_is_deleted smp_fn"
    by (simp add: smp_state_eq smp_fn_def fn_is_deleted_def)
  then show ?thesis using find_by_name_exact [OF smp_state_def, of smp_tenant "Ident ''hello''" smp_fn] by blast
qed

section \<open>Collected objects\<close>

text \<open>C37: The collector never takes an object that is in use.  Once an object was claimed for
  collection, then after any operations, as long as its tombstone is kept, every invocation
  that references it is terminal and no further invocation can be attached to it.\<close>

theorem collected_not_in_use:
  assumes "store_inv s" "claim_for_collection object reason now s = (Inr Collect, s1)"
    and "s2 = run cfg u ops s1" "bt_get (st_object_tombstones s2) (as_str (obj_id object)) = Some t"
  shows "(\<forall>i\<in>set (object_references (obj_id object) s2).
       \<exists>iv. bt_get (st_invocations s2) i = Some iv \<and> IS_is_terminal (inv_status iv)) \<and>
    fst (attach_object u object i at s2) \<noteq> Inr () \<and> snd (attach_object u object i at s2) = s2"
proof -
  have inv1: "store_inv s1"
    using row_steps_inv [OF claim_for_collection_steps [of s object reason now] assms(1)] assms(2) by simp
  then have "objects_inv s2" using run_inv [OF inv1, of cfg u ops] assms(3) by (simp add: store_inv_def)
  then have "\<forall>i\<in>set (object_references (obj_id object) s2).
       \<exists>iv. bt_get (st_invocations s2) i = Some iv \<and> IS_is_terminal (inv_status iv)"
    using assms(4) unfolding objects_inv_def
    by (fastforce simp: object_references_def refs_of_def bt_keys_iff split: option.splits)
  moreover have "fst (attach_object u object i at s2) \<noteq> Inr () \<and> snd (attach_object u object i at s2) = s2"
    using assms(4)
    by (cases "check_attachable u (obj_id object) at")
       (auto simp: attach_object_def commit_def split: option.splits sum.splits prod.splits if_splits)
  ultimately show ?thesis by blast
qed

definition smp_object :: ObjectRef where
  "smp_object = \<lparr> obj_id = Ident ''obj_1'', obj_scope = \<lparr> scope_tenant_id = smp_tenant, scope_region = ''r'' \<rparr> \<rparr>"

theorem collected_not_in_use_witness:
  "fst (attach_object smp_ulid smp_object (Ident ''inv_1'') 5
     (run smp_cfg smp_ulid [] (snd (claim_for_collection smp_object Orphan 3 smp_state)))) \<noteq> Inr ()"
proof -
  let ?s1 = "snd (claim_for_collection smp_object Orphan 3 smp_state)"
  have claim: "claim_for_collection smp_object Orphan 3 smp_state = (Inr Collect, ?s1)"
    and tomb: "bt_get (st_object_tombstones (run smp_cfg smp_ulid [] ?s1)) (as_str (obj_id smp_object))
      = Some (Orphan, 3)"
    by (simp_all add: claim_for_collection_def smp_state_eq State_default_def refs_of_def Let_def
        bt_keys_def bt_empty.rep_eq)
  show ?thesis using collected_not_in_use [OF smp_state_inv claim refl tomb] by blast
qed

section \<open>The warm pool\<close>

text \<open>A claim from the pool hands one environment to one caller.  It was idle, unfenced and of
  exactly the requested reuse key and owner; it becomes ready at the same epoch, no other row
  changes, and no claim on the resulting state returns the same environment.\<close>

theorem claim_for_reuse_exclusive:
  assumes "store_inv s" "claim_for_reuse key owner now s = (Inr (Some c), s')"
  shows "(\<exists>e. bt_get (st_environments s) (env_id c) = Some e \<and> env_state e = ES_Idle \<and>
       env_fenced_at e = None \<and> env_reuse_key e = key \<and> env_owner e = owner \<and>
       env_epoch c = env_epoch e \<and> env_state c = ES_Ready \<and> env_reuse_key c = key) \<and>
    s' = s\<lparr>st_environments := bt_insert (env_id c) c (st_environments s)\<rparr> \<and>
    (fst (claim_for_reuse key' owner' now' s') = Inr (Some c') \<longrightarrow> env_id c' \<noteq> env_id c)"
proof -
  obtain k e where e: "bt_get (st_environments s) k = Some e" "env_state e = ES_Idle" "env_reuse_key e = key"
    "env_owner e = owner" "env_reserve e now = Inr c"
    and s': "s' = s\<lparr>st_environments := bt_insert k c (st_environments s)\<rparr>"
    using claim_for_reuse_ok [of key owner now s c] assms(2) by auto
  have id_c: "env_id c = k" using e(1,5) assms(1)
    by (auto simp: env_reserve_ok store_inv_def keys_inv_def dest: keyedD)
  have inv': "store_inv s'"
    using row_steps_inv [OF claim_for_reuse_steps [of s key owner now] assms(1)] assms(2) by simp
  have "env_id c' \<noteq> env_id c" if again: "fst (claim_for_reuse key' owner' now' s') = Inr (Some c')"
  proof
    assume same: "env_id c' = env_id c"
    obtain k' e' where e': "bt_get (st_environments s') k' = Some e'" "env_state e' = ES_Idle"
      "env_reserve e' now' = Inr c'"
      using claim_for_reuse_ok [OF again] by blast
    have "env_id c' = k'" using e' inv'
      by (auto simp: env_reserve_ok store_inv_def keys_inv_def dest: keyedD)
    then have "e' = c" using e'(1) same id_c by (simp add: s')
    then show False using e(5) e'(2) by (auto simp: env_reserve_ok)
  qed
  then show ?thesis using e s' id_c by (auto simp: env_reserve_ok)
qed

lemma al_insert_filter:
  assumes "al_ok m" "map_of m k = Some v" "\<not> P v" "P v'"
  shows "length (filter P (map snd (al_insert k v' m))) = Suc (length (filter P (map snd m)))"
  using assms
proof (induction m)
  case (Cons p m)
  obtain k0 v0 where p: "p = (k0, v0)" by (cases p)
  have ok: "al_ok m" using Cons.prems(1) by (simp add: al_ok_def)
  show ?case
  proof (cases "k = k0")
    case True
    then show ?thesis using Cons.prems by (simp add: p)
  next
    case False
    then have "map_of m k = Some v" using Cons.prems(2) by (simp add: p)
    moreover from this have "k0 < k"
      using Cons.prems(1) by (auto simp: al_ok_def p dest!: map_of_SomeD)
    ultimately show ?thesis using Cons.IH [OF ok] Cons.prems(3,4) False by (auto simp: p)
  qed
qed simp

lemma bt_values_filter_insert:
  assumes "bt_get m k = Some v" "\<not> P v" "P v'"
  shows "length (filter P (bt_values (bt_insert k v' m))) = Suc (length (filter P (bt_values m)))"
  unfolding bt_values_def bt_insert.rep_eq
  using al_insert_filter [of "bt_entries m" k v P v'] assms bt_entries [of m] by (simp add: bt_get.rep_eq)

text \<open>The pool respects its caps.  An environment is only pooled when it has no unreleased
  lease, is not fenced and stands at the caller's epoch, and after it was pooled at most
  \<open>max_total_idle\<close> environments are idle in total and at most \<open>max_idle_per_key\<close> of its key.\<close>

theorem pool_caps:
  assumes "store_inv s" "release_to_pool env limits now s = (Inr (Some p), s')"
  shows "length (filter (\<lambda>e. env_state e = ES_Idle) (bt_values (st_environments s'))) \<le> max_total_idle limits \<and>
    length (filter (\<lambda>e. env_state e = ES_Idle \<and> env_reuse_key e = env_reuse_key env)
      (bt_values (st_environments s'))) \<le> max_idle_per_key limits \<and>
    \<not> has_unreleased_lease s (env_id env) \<and>
    (\<exists>e. bt_get (st_environments s) (env_id env) = Some e \<and> env_fenced_at e = None \<and>
       env_epoch e = env_epoch env)"
proof -
  let ?idle = "\<lambda>e. env_state e = ES_Idle"
  let ?keyed = "\<lambda>e. env_state e = ES_Idle \<and> env_reuse_key e = env_reuse_key env"
  obtain e where e: "bt_get (st_environments s) (env_id env) = Some e" "env_epoch e = env_epoch env"
    "\<not> env_is_fenced e" "\<not> has_unreleased_lease s (env_id env)" "env_state e = ES_Busy \<or> env_state e = ES_Ready"
    and caps: "length (filter ?idle (bt_values (st_environments s))) < max_total_idle limits"
      "length (filter ?keyed (bt_values (st_environments s))) < max_idle_per_key limits"
    and row: "pooled_row env now = Inr p" "environment_update e p \<noteq> Inl x"
    and s': "s' = s\<lparr>st_environments := bt_insert (env_id p) p (st_environments s)\<rparr>" for x
    using assms(2)
    by (auto simp: release_to_pool_def Let_def conj_commute split: option.splits sum.splits if_splits)
  have p: "env_id p = env_id env" "env_state p = ES_Idle" "env_reuse_key p = env_reuse_key env"
    using pooled_row_ok [OF row(1)] by (auto simp: env_identity_def)
  have "length (filter ?idle (bt_values (st_environments s'))) = Suc (length (filter ?idle (bt_values (st_environments s))))"
    "length (filter ?keyed (bt_values (st_environments s'))) = Suc (length (filter ?keyed (bt_values (st_environments s))))"
    unfolding s' using e(1,5) p by (auto intro!: bt_values_filter_insert [of _ _ e])
  then show ?thesis using caps e by (simp add: env_is_fenced_def)
qed

definition smp_idle :: ExecutionEnvironment where
  "smp_idle = smp_env\<lparr>env_state := ES_Idle, env_idle_since := Some 2\<rparr>"

lemma smp_pool_eq:
  "smp_run [Op_environments_insert smp_idle] =
     State_default\<lparr>st_environments := bt_insert (Ident ''env_1'') smp_idle bt_empty\<rparr>"
  by (simp add: environments_insert_def State_default_def commit_def environment_insert_def smp_idle_def
      smp_env_def env_owned_by_def env_request_def smp_key_def)

theorem claim_for_reuse_exclusive_witness:
  "\<exists>c s'. claim_for_reuse smp_key (Some (Ident ''dsp_1'')) 5 (smp_run [Op_environments_insert smp_idle])
      = (Inr (Some c), s') \<and> env_id c = Ident ''env_1'' \<and> env_state c = ES_Ready \<and>
     (fst (claim_for_reuse smp_key (Some (Ident ''dsp_1'')) 6 s') = Inr (Some smp_env) \<longrightarrow> env_id smp_env \<noteq> env_id c)"
proof -
  let ?s = "smp_run [Op_environments_insert smp_idle]"
  let ?c = "smp_idle\<lparr>env_idle_since := None, env_state := ES_Ready, env_updated_at := 5\<rparr>"
  have claim: "claim_for_reuse smp_key (Some (Ident ''dsp_1'')) 5 ?s =
      (Inr (Some ?c), ?s\<lparr>st_environments := bt_insert (Ident ''env_1'') ?c (st_environments ?s)\<rparr>)"
    unfolding smp_pool_eq
    by (simp add: claim_for_reuse_def bt_insert.rep_eq bt_empty.rep_eq env_reserve_def env_mark_ready_def
        env_transition_def smp_idle_def smp_env_def env_owned_by_def env_request_def)
  moreover have "env_id ?c = Ident ''env_1''" by (simp add: smp_idle_def smp_env_def env_owned_by_def env_request_def)
  ultimately show ?thesis
    using claim_for_reuse_exclusive [OF history_inv claim, of smp_key "Some (Ident ''dsp_1'')" 6 smp_env]
    by (intro exI [of _ ?c] exI) auto
qed

theorem pool_caps_witness:
  "\<exists>p s'. release_to_pool smp_env \<lparr> max_idle_per_key = 1, max_total_idle = 1 \<rparr> 5 smp_state = (Inr (Some p), s') \<and>
     length (filter (\<lambda>e. env_state e = ES_Idle) (bt_values (st_environments s'))) \<le> 1"
proof -
  let ?l = "\<lparr> max_idle_per_key = 1, max_total_idle = 1 \<rparr>"
  let ?p = "smp_env\<lparr>env_state := ES_Idle, env_idle_since := Some 5, env_updated_at := 5\<rparr>"
  have "\<exists>s'. release_to_pool smp_env ?l 5 smp_state = (Inr (Some ?p), s')"
    by (simp add: release_to_pool_def Let_def smp_state_eq State_default_def has_unreleased_lease_iff
        pooled_row_def env_mark_busy_def env_mark_idle_def env_transition_def environment_update_def
        environment_identity_def env_is_fenced_def env_is_terminal_def smp_env_def env_owned_by_def
        env_request_def bt_values_def bt_insert.rep_eq bt_empty.rep_eq)
  then obtain s' where "release_to_pool smp_env ?l 5 smp_state = (Inr (Some ?p), s')" by blast
  moreover from this have "length (filter (\<lambda>e. env_state e = ES_Idle) (bt_values (st_environments s'))) \<le> 1"
    using pool_caps [OF smp_state_inv] by fastforce
  ultimately show ?thesis by blast
qed

text \<open>The guard of an invocation does not protect its revision: an update that only moves an
  unfinished invocation to another revision is applied.\<close>

lemma invocation_revision_not_guarded:
  assumes "\<not> IS_is_terminal (inv_status i)" "bounded_output i m = Inr ()" "r \<noteq> inv_revision_id i"
  shows "invocation_update m i (i\<lparr>inv_revision_id := r\<rparr>) = Inr Apply"
proof -
  let ?j = "i\<lparr>inv_revision_id := r\<rparr>"
  have "inv_revision_id i \<noteq> inv_revision_id ?j" using assms(3) by simp
  then have ne: "i \<noteq> ?j" by metis
  have "bounded_output ?j m = Inr ()"
    using assms(2) by (auto simp: bounded_output_def Let_def split: option.splits PayloadRef.splits if_splits)
  then show ?thesis using assms(1) ne by (simp add: invocation_update_def)
qed

end
