(* ===== verification/Domain_Properties.thy ===== *)
theory Domain_Properties
  imports Egress Revisions Config_Stamp Samples
begin

text \<open>
  The properties of the domain types and of the configuration publication on their own:
  life cycles of environments and invocations, egress rules, identifiers, log lines,
  revision specs and the generations a data plane synchronises on.
\<close>

section \<open>Life cycles\<close>

text \<open>Life cycle of an environment.  Whatever sequence of its operations produced it, an
  environment has an idle time exactly while idle, an end time exactly when terminal, was
  ready before it is handed out and serves epoch 0 until it was assigned; once fenced, it
  stays fenced under every further sequence and is never reusable, reserved or assigned.\<close>

theorem env_lifecycle:
  assumes "env_reachable e" "env_step\<^sup>*\<^sup>* e e'"
  shows "(env_idle_since e' \<noteq> None \<longleftrightarrow> env_state e' = ES_Idle)
    \<and> (env_stopped_at e' \<noteq> None \<longleftrightarrow> ES_is_terminal (env_state e'))
    \<and> (env_is_reusable e' \<longrightarrow> env_ready_at e' \<noteq> None)
    \<and> (env_state e' \<in> {ES_Requested, ES_Provisioning, ES_Initializing} \<longrightarrow> env_epoch e' = 0)
    \<and> (env_is_fenced e \<longrightarrow> env_is_fenced e' \<and> \<not> env_is_reusable e'
         \<and> \<not> is_ok (env_reserve e' now) \<and> \<not> is_ok (env_assign e' now))"
proof -
  have "env_reachable e'"
    using assms(2,1) by (induction rule: rtranclp_induct) (auto intro: env_reachable.step)
  then have "env_wf e'" by (rule env_reachable_wf)
  moreover have "env_is_fenced e' \<and> \<not> env_is_reusable e'
      \<and> \<not> is_ok (env_reserve e' now) \<and> \<not> is_ok (env_assign e' now)" if "env_is_fenced e"
    using env_steps_fenced [OF assms(2) that env_reachable_wf [OF assms(1)]]
    by (auto simp: env_is_fenced_def env_is_reusable_def env_reserve_def env_assign_def)
  ultimately show ?thesis by (auto simp: env_wf_def env_is_reusable_def)
qed

theorem env_lifecycle_witness:
  "\<exists>e. env_reachable e \<and> env_is_fenced e \<and> \<not> is_ok (env_assign e 3)"
proof -
  let ?r = "env_request (Ident ''env_a'') smp_tenant (Ident ''rev_a'') Fake smp_key 0"
  let ?f = "?r\<lparr>env_state := ES_Draining, env_epoch := 1, env_fenced_at := Some 1, env_updated_at := 1\<rparr>"
  have "env_fence ?r 1 = Inr ?f" by (simp add: env_fence_def env_request_def)
  then have "env_reachable ?f"
    by (blast intro: env_reachable.requested env_reachable.step env_step.fence)
  moreover have "env_is_fenced ?f" by (simp add: env_is_fenced_def)
  ultimately show ?thesis using env_lifecycle [of ?f ?f 3] by blast
qed

definition smp_accepted :: Invocation where
  "smp_accepted = smp_inv\<lparr>inv_dispatcher_id := None\<rparr>"

text \<open>Life cycle of an invocation.  Along every sequence of its operations the accepted
  identity (tenant, revision, input digest, idempotency key, mode) is kept and attempts are
  only appended; it has an end time exactly when terminal, an output only on success, was
  dispatched before it succeeds or its outcome is unknown; a terminal invocation takes no
  further step.\<close>

theorem inv_lifecycle:
  assumes "inv_reachable i" "inv_step\<^sup>*\<^sup>* i i'"
  shows "inv_id i' = inv_id i \<and> inv_tenant_id i' = inv_tenant_id i
    \<and> inv_revision_id i' = inv_revision_id i \<and> inv_input_digest i' = inv_input_digest i
    \<and> inv_idempotency_key i' = inv_idempotency_key i \<and> inv_mode i' = inv_mode i
    \<and> (\<exists>ys. inv_attempt_ids i' = inv_attempt_ids i @ ys)
    \<and> (inv_finished_at i' \<noteq> None \<longleftrightarrow> IS_is_terminal (inv_status i'))
    \<and> (inv_output i' \<noteq> None \<longrightarrow> inv_status i' = IS_Succeeded)
    \<and> (inv_status i' = IS_Succeeded \<or> (\<exists>err. inv_status i' = IS_OutcomeUnknown err)
         \<longrightarrow> inv_attempt_ids i' \<noteq> [])
    \<and> (IS_is_terminal (inv_status i) \<longrightarrow> i' = i)"
proof -
  have "inv_reachable i'"
    using assms(2,1) by (induction rule: rtranclp_induct) (auto intro: inv_reachable.step)
  then have "inv_wf i'" by (rule inv_reachable_wf)
  then show ?thesis
    using inv_steps_fixed [OF assms(2)] inv_steps_terminal [OF assms(2)]
    by (auto simp: inv_wf_def)
qed

theorem inv_lifecycle_witness:
  "\<exists>i'. inv_step\<^sup>*\<^sup>* smp_accepted i' \<and> inv_id i' = inv_id smp_accepted \<and> inv_status i' = IS_Cancelled
     \<and> inv_finished_at i' \<noteq> None"
proof -
  let ?c = "smp_accepted\<lparr>inv_status := IS_Cancelled, inv_finished_at := Some 9\<rparr>"
  have "inv_mark_cancelled smp_accepted 9 = Inr ?c"
    by (simp add: inv_mark_cancelled_def inv_ensure_not_terminal_def smp_accepted_def smp_inv_def)
  then have step: "inv_step\<^sup>*\<^sup>* smp_accepted ?c" by (blast intro: inv_step.cancelled)
  have "inv_accept (inv_id smp_accepted) (inv_tenant_id smp_accepted) (inv_function_id smp_accepted)
      (inv_alias smp_accepted) (inv_revision_id smp_accepted) (inv_mode smp_accepted) (inv_event_kind smp_accepted)
      (inv_deadlines smp_accepted) (inv_idempotency_key smp_accepted) (inv_input_digest smp_accepted)
      (inv_input_size_bytes smp_accepted) (inv_trace_id smp_accepted) (inv_accepted_at smp_accepted)
      = Inr smp_accepted"
    by (simp add: inv_accept_def smp_accepted_def smp_inv_def opt_is_some_and_def)
  then have "inv_reachable smp_accepted" by (rule inv_reachable.accepted)
  from inv_lifecycle [OF this step] have "inv_id ?c = inv_id smp_accepted
      \<and> (inv_finished_at ?c \<noteq> None \<longleftrightarrow> IS_is_terminal (inv_status ?c))" by blast
  with step show ?thesis by (intro exI [of _ ?c]) simp
qed

section \<open>Egress rules\<close>

text \<open>C38: Egress rules reach public addresses only.  Every address of the network of a rule
  that passed validation is outside every blocked range (loopback, private, link-local,
  metadata, multicast and the other special ranges), whatever the prefix length.\<close>

theorem egress_rule_public:
  assumes "EgressAllowRule_validate r = Inr ()" "EgressAllowRule_network r = Inr net"
    and "Ipv4Cidr_contains net a"
  shows "is_public_ipv4 a \<and> (\<forall>b\<in>set BLOCKED_IPV4. \<exists>c. BlockedRange_cidr b = Some c \<and> \<not> Ipv4Cidr_contains c a)"
proof -
  have "is_public_ipv4 a" by (rule validated_rule_public [OF assms])
  moreover have "\<exists>c. BlockedRange_cidr b = Some c" if "b \<in> set BLOCKED_IPV4" for b
    using blocked_cidrs_parse that by (auto simp: list_all_iff)
  ultimately show ?thesis
    by (fastforce simp: is_public_ipv4_def list_ex_iff opt_is_some_and_iff)
qed

definition smp_rule :: EgressAllowRule where
  "smp_rule = \<lparr> ear_cidr = ''1.1.1.0/24'', ear_protocol = Tcp, ear_ports = [443] \<rparr>"

theorem egress_rule_public_witness: "is_public_ipv4 (addr_of_octets 1 1 1 7)"
proof -
  have net: "EgressAllowRule_network smp_rule = Inr (Ipv4Cidr_new (addr_of_octets 1 1 1 0) 24)"
    by (simp add: EgressAllowRule_network_def smp_rule_def parse_eval)
  moreover have "EgressAllowRule_validate smp_rule = Inr ()"
    by (simp add: EgressAllowRule_validate_def net)
       (simp add: smp_rule_def BLOCKED_IPV4_def BlockedRange_cidr_def parse_eval opt_is_some_and_def
         Ipv4Cidr_overlaps_def Ipv4Cidr_contains_net_def Ipv4Cidr_contains_def MAX_EGRESS_ALLOW_PORTS_def)
  ultimately show ?thesis
    using egress_rule_public [of smp_rule _ "addr_of_octets 1 1 1 7"]
    by (simp add: parse_eval Ipv4Cidr_contains_def)
qed

text \<open>Networks as address sets.  Two networks that were parsed or built overlap exactly
  when they share an address, and containment of networks is containment of their
  addresses.\<close>

theorem cidr_overlap_exact:
  "Ipv4Cidr_overlaps (Ipv4Cidr_new a p) (Ipv4Cidr_new b q) \<longleftrightarrow>
     (\<exists>x. Ipv4Cidr_contains (Ipv4Cidr_new a p) x \<and> Ipv4Cidr_contains (Ipv4Cidr_new b q) x)"
  by (rule overlaps_iff_shared_address [OF cidr_wf_new cidr_wf_new])

text \<open>C39: CIDR round trip.  The text of every network parses back to it, and whatever parses
  is a normalised network: prefix at most 32 and no host bits.\<close>

theorem cidr_round_trip:
  "Ipv4Cidr_parse (Ipv4Cidr_show (Ipv4Cidr_new a p)) = Inr (Ipv4Cidr_new a p)
   \<and> (Ipv4Cidr_parse s = Inr c \<longrightarrow>
        cidr_prefix c \<le> 32 \<and> cidr_network c AND mask_bits (cidr_prefix c) = cidr_network c
        \<and> Ipv4Cidr_parse (Ipv4Cidr_show c) = Inr c)"
  using cidr_parse_show [OF cidr_wf_new] cidr_parse_show cidr_wf_parse
  by (auto simp: cidr_wf_def)

section \<open>Identifiers\<close>

lemma is_ok_id_parse:
  "is_ok (id_parse p raw) \<longleftrightarrow> (\<exists>rest. raw = p @ ''_'' @ rest \<and> is_lower_crockford rest)"
proof -
  have "is_ok (id_parse p raw) \<longleftrightarrow> (\<exists>s. parse_prefixed p raw = Inr s)"
    by (cases "parse_prefixed p raw") (auto simp: id_parse_def)
  then show ?thesis by (simp add: parse_prefixed_ok)
qed

text \<open>Identifiers of different kinds never mix.  An identifier built from a ULID parses
  back to itself under its own prefix, parsing accepts exactly the texts \<open>prefix_ulid\<close> with a
  26-byte lowercase Crockford tail and keeps them unchanged, and no text parses under two
  different prefixes of the program.\<close>

theorem id_kinds_disjoint:
  assumes "length ulid_text = 26" "set ulid_text \<subseteq> set ''0123456789ABCDEFGHJKMNPQRSTVWXYZ''"
  shows "id_parse p (as_str (id_from_ulid p ulid_text)) = Inr (id_from_ulid p ulid_text)
    \<and> (id_parse p raw = Inr i \<longleftrightarrow>
         as_str i = raw \<and> (\<exists>rest. raw = p @ ''_'' @ rest \<and> is_lower_crockford rest))
    \<and> (p \<in> set id_prefixes \<longrightarrow> q \<in> set id_prefixes \<longrightarrow> is_ok (id_parse p raw) \<longrightarrow>
         is_ok (id_parse q raw) \<longrightarrow> p = q)"
proof (intro conjI impI)
  have "crockford_byte (if is_ascii_uppercase c then char_of (byte c + 32) else c)"
    if "c \<in> set ulid_text" for c
    by (rule crockford_lowercase) (rule subsetD [OF assms(2) that])
  then have "list_all crockford_byte (to_ascii_lowercase ulid_text)"
    unfolding to_ascii_lowercase_def list.pred_map by (simp add: list_all_iff)
  then have "is_lower_crockford (to_ascii_lowercase ulid_text)"
    using assms(1) by (simp add: is_lower_crockford_def to_ascii_lowercase_def ULID_LEN_def)
  then show "id_parse p (as_str (id_from_ulid p ulid_text)) = Inr (id_from_ulid p ulid_text)"
    by (auto simp: id_parse_ok id_from_ulid_def)
  show "id_parse p raw = Inr i \<longleftrightarrow>
      as_str i = raw \<and> (\<exists>rest. raw = p @ ''_'' @ rest \<and> is_lower_crockford rest)"
    by (rule id_parse_ok)
  assume pq: "p \<in> set id_prefixes" "q \<in> set id_prefixes"
  assume ok: "is_ok (id_parse p raw)" "is_ok (id_parse q raw)"
  obtain r where "raw = p @ ''_'' @ r" using is_ok_id_parse ok(1) by blast
  moreover obtain r' where "raw = q @ ''_'' @ r'" using is_ok_id_parse ok(2) by blast
  ultimately show "p = q"
    using prefix_before_underscore [of p r q r'] id_prefixes_no_underscore pq by simp
qed

theorem id_kinds_disjoint_witness:
  "is_ok (id_parse ''inv'' ''inv_00000000000000000000000000'')
   \<and> \<not> is_ok (id_parse ''att'' ''inv_00000000000000000000000000'')"
proof -
  let ?raw = "''inv_00000000000000000000000000''"
  have ok: "is_ok (id_parse ''inv'' ?raw)"
    by (simp add: id_parse_def parse_prefixed_def strip_prefix_def is_lower_crockford_def
        crockford_byte_def byte_def ULID_LEN_def)
  moreover have "\<not> is_ok (id_parse ''att'' ?raw)"
    using id_kinds_disjoint [of "''01ARZ3NDEKTSV4RRFFQ69G5FAV''" "''inv''" ?raw undefined "''att''"] ok
    by (auto simp: id_prefixes_def)
  ultimately show ?thesis by simp
qed

section \<open>Log lines\<close>

text \<open>A stored log line is bounded and stays valid text.  \<open>bounded_line\<close> returns a prefix of
  the line of at most \<open>max_bytes\<close> bytes that ends on a character boundary, the longest such
  prefix, and reports truncation exactly when bytes were dropped.\<close>

theorem bounded_line_longest:
  "\<exists>n. fst (bounded_line line max_bytes) = take n line \<and> n \<le> length line
     \<and> n \<le> max_bytes \<and> is_char_boundary line n
     \<and> (\<forall>m. m \<le> max_bytes \<and> is_char_boundary line m \<longrightarrow> m \<le> n)
     \<and> (snd (bounded_line line max_bytes) \<longleftrightarrow> fst (bounded_line line max_bytes) \<noteq> line)"
proof (cases "length line \<le> max_bytes")
  case True
  then show ?thesis
    by (intro exI [of _ "length line"]) (auto simp: bounded_line_def is_char_boundary_def)
next
  case False
  let ?n = "back_to_boundary line max_bytes"
  have "?n < length line" using False back_to_boundary_le [of line max_bytes] by simp
  then have "take ?n line \<noteq> line" by (metis length_take min.absorb4 nat_less_le)
  then show ?thesis
    using False \<open>?n < length line\<close> back_to_boundary_le [of line max_bytes]
      back_to_boundary_boundary [of line max_bytes]
    by (intro exI [of _ ?n]) (auto simp: bounded_line_def intro: back_to_boundary_max)
qed

theorem bounded_line_longest_witness:
  "bounded_line [CHR ''a'', CHR 0xE3, CHR 0x81, CHR 0x82] 3 = (''a'', True)"
proof -
  obtain n where "fst (bounded_line [CHR ''a'', CHR 0xE3, CHR 0x81, CHR 0x82] 3)
      = take n [CHR ''a'', CHR 0xE3, CHR 0x81, CHR 0x82]"
    and n: "is_char_boundary [CHR ''a'', CHR 0xE3, CHR 0x81, CHR 0x82] n" "n \<le> 3"
    using bounded_line_longest [of "[CHR ''a'', CHR 0xE3, CHR 0x81, CHR 0x82]" 3] by blast
  then show ?thesis
    by (simp add: bounded_line_def is_char_boundary_def byte_def numeral_3_eq_3)
qed

theorem cidr_round_trip_witness: "Ipv4Cidr_parse (Ipv4Cidr_show (Ipv4Cidr_new (addr_of_octets 10 0 0 0) 8)) =
    Inr (Ipv4Cidr_new (addr_of_octets 10 0 0 0) 8)"
  using cidr_round_trip [of "addr_of_octets 10 0 0 0" 8 "''10.0.0.0/8''"] by blast

section \<open>Revision specs\<close>

text \<open>What an accepted revision spec guarantees.  Memory, CPU, scratch space and both timeouts lie
  within the platform's limits, one invocation runs per environment, the warm floor never exceeds
  the concurrency cap, the environment variable names are distinct and none uses the reserved
  prefix, and snapshots are only asked for by specs without secrets and without egress.\<close>

theorem validated_spec_safe:
  assumes "RevisionSpec_validate s l = Inr ()"
  shows "min_memory_mib l \<le> memory_mib (resources s) \<and> memory_mib (resources s) \<le> max_memory_mib l
    \<and> min_cpu_millis l \<le> cpu_millis (resources s) \<and> cpu_millis (resources s) \<le> max_cpu_millis l
    \<and> min_ephemeral_storage_mib l \<le> ephemeral_storage_mib (resources s)
    \<and> ephemeral_storage_mib (resources s) \<le> max_ephemeral_storage_mib l
    \<and> timeout_seconds (execution s) \<noteq> 0 \<and> timeout_seconds (execution s) \<le> max_execution_timeout_seconds l
    \<and> initialization_timeout_seconds (execution s) \<noteq> 0
    \<and> initialization_timeout_seconds (execution s) \<le> max_init_timeout_seconds l
    \<and> concurrency_per_environment (execution s) = 1
    \<and> min_ready (execution s) \<le> max_concurrency (execution s) \<and> max_concurrency (execution s) \<le> 1000
    \<and> distinct (spec_env_names s)
    \<and> (\<forall>n\<in>set (spec_env_names s). n \<noteq> [] \<and> strip_prefix ''TACHYON_'' n = None)
    \<and> (rs_policy (restore s) \<noteq> Disabled \<longrightarrow> secrets s = [] \<and> egress s = EP_None)"
proof -
  note ok = assms [unfolded RevisionSpec_validate_ok]
  have "validate_env_name n = Inr ()" if "n \<in> set (spec_env_names s)" for n
    using ok that by (auto simp: spec_env_names_def validate_secret_def split: if_splits sum.splits)
  moreover have "rs_policy (restore s) \<noteq> Disabled \<longrightarrow> secrets s = [] \<and> egress s = EP_None"
    using ok by (auto simp: RestoreSettings_validate_def snapshot_eligibility_def split: if_splits)
  ultimately show ?thesis
    using ok by (auto simp: validate_resources_ok validate_execution_ok validate_env_name_ok)
qed

theorem validated_spec_safe_witness:
  "\<exists>s. RevisionSpec_validate s Limits_default = Inr () \<and> concurrency_per_environment (execution s) = 1"
proof -
  let ?s = "smp_spec\<lparr>runtime := \<lparr> rt_protocol = RUNTIME_PROTOCOL_V1, rt_architecture = X86_64 \<rparr>\<rparr>"
  have "RevisionSpec_validate ?s Limits_default = Inr ()"
    by (simp add: RevisionSpec_validate_def smp_spec_def validate_resources_def validate_execution_def
        validate_egress_def ResourceProfile_default_def ExecutionPolicy_default_def Limits_default_def
        spec_env_names_def Placement_validate_def RestoreSettings_validate_def MAX_MIN_READY_def)
  then show ?thesis using validated_spec_safe [of ?s] by blast
qed

section \<open>Configuration publication\<close>

text \<open>Publication of an observed configuration.  After \<open>stamp\<close> exactly the observed keys are
  live; a key's body is the observed one unless the observation is older than the published
  row (a stale read never rolls a route back); generations stay unique, and every row that
  changed carries a generation above the old counter.\<close>

theorem stamp_publishes:
  assumes "stamp rows counter observed = (rows', counter', changed)"
    and "pub_ok rows counter" "unat counter + bt_len rows + 2 * length observed < 2 ^ 64"
    and "distinct (map co_key observed)"
  shows "(published rows' k \<noteq> None \<longleftrightarrow> k \<in> co_key ` set observed)
    \<and> (\<forall>obs\<in>set observed. published rows' (co_key obs) =
         (if stamp_replaces rows obs then Some (co_body obs) else published rows (co_key obs)))
    \<and> live_newer rows rows' \<and> pub_ok rows' counter' \<and> counter \<le> counter'
    \<and> (bt_get rows' k = bt_get rows k \<or> (\<exists>r. bt_get rows' k = Some r \<and> counter < pr_generation r))"
  using stamp_ok [OF assms(1-3)] stamp_published [OF assms(1)] stamp_live_newer [OF assms(1)]
    fold_observation_body [OF assms(4), of _ "(rows, counter, [])"]
  by (auto simp: stamp_published_eq [OF assms(1)])

text \<open>C40: A data plane that only fetches deltas is never behind.  Take what a data plane held at
  some counter; after any number of further publications, applying the rows above that
  counter gives exactly what is published now.\<close>

theorem delta_sync_complete:
  assumes "stamps rows counter obss = (rows', counter')" "pub_ok rows counter"
    and "stamps_fit rows counter obss"
  shows "apply_entries (above rows' counter) (published rows) = published rows'"
  using stamps_ok [OF assms] by (intro above_sync) blast

definition smp_obs :: "string \<Rightarrow> u64 \<Rightarrow> string \<Rightarrow> ConfigObservation" where
  "smp_obs k v b = \<lparr> co_key = k, co_natural_version = v, co_digest = b, co_body = b \<rparr>"

theorem stamp_publishes_witness:
  "published (fst (stamp bt_empty 0 [smp_obs ''r'' 1 ''x''])) ''r'' = Some ''x''"
proof -
  obtain rows' counter' changed
    where s: "stamp bt_empty 0 [smp_obs ''r'' 1 ''x''] = (rows', counter', changed)"
    by (metis prod_cases3)
  have "pub_ok bt_empty 0" by (simp add: pub_ok_def)
  with stamp_publishes [OF s] show ?thesis
    using s by (auto simp: smp_obs_def stamp_replaces_def bt_len_def bt_empty.rep_eq)
qed

theorem delta_sync_complete_witness:
  "(let (rows, counter) = stamps bt_empty 0 [[smp_obs ''q'' 1 ''x'', smp_obs ''r'' 1 ''y'']];
        (rows', counter') = stamps rows counter [[smp_obs ''r'' 2 ''z'']]
    in apply_entries (above rows' counter) (published rows) = published rows')"
proof -
  let ?first = "[[smp_obs ''q'' 1 ''x'', smp_obs ''r'' 1 ''y'']]"
  obtain rows counter where s: "stamps bt_empty 0 ?first = (rows, counter)"
    by (metis surj_pair)
  obtain rows' counter' where s': "stamps rows counter [[smp_obs ''r'' 2 ''z'']] = (rows', counter')"
    by (metis surj_pair)
  have ok: "pub_ok bt_empty 0" by (simp add: pub_ok_def)
  have fit0: "stamps_fit bt_empty 0 ?first"
    by (simp add: bt_len_def bt_empty.rep_eq split: prod.splits)
  have pub: "pub_ok rows counter" using stamps_ok [OF s ok fit0] by simp
  have "unat counter + bt_len rows < 1000"
    using s by (auto simp: stamp_def stamp_replaces_def smp_obs_def bt_len_def bt_insert.rep_eq
        bt_empty.rep_eq)
  then have "stamps_fit rows counter [[smp_obs ''r'' 2 ''z'']]" by (simp split: prod.splits)
  from delta_sync_complete [OF s' pub this] show ?thesis unfolding s Let_def prod.case s' .
qed

end
