(* ===== verification/Admission_Ledger.thy ===== *)
theory Admission_Ledger
  imports Admission
begin

text \<open>
  The ledger invariant of the admission state machine: every running total of the state (the
  counts per state, the tenants' and revisions' in-flight numbers, the queue lengths and bytes)
  equals a recount over the reservations and the waiters, nothing exceeds its cap, and the
  reserved resources are exact and within the node in every bounded dimension.  It is what
  \<open>check_invariants\<close> recomputes in the source's tests, here for every state the operations reach.
\<close>

section \<open>Totals by tenant and revision\<close>

definition tn_queue :: "AdmissionState \<Rightarrow> TenantId \<Rightarrow> WaiterId list" where
  "tn_queue s t = (case bt_get (ad_tenants s) t of None \<Rightarrow> [] | Some e \<Rightarrow> te_queue e)"

definition tn_bytes :: "AdmissionState \<Rightarrow> TenantId \<Rightarrow> nat" where
  "tn_bytes s t = (case bt_get (ad_tenants s) t of None \<Rightarrow> 0 | Some e \<Rightarrow> te_queued_bytes e)"

definition tn_in_flight :: "AdmissionState \<Rightarrow> TenantId \<Rightarrow> nat" where
  "tn_in_flight s t = (case bt_get (ad_tenants s) t of None \<Rightarrow> 0 | Some e \<Rightarrow> te_in_flight e)"

definition rv_queued :: "AdmissionState \<Rightarrow> RevisionId \<Rightarrow> nat" where
  "rv_queued s r = (case bt_get (ad_revisions s) r of None \<Rightarrow> 0 | Some e \<Rightarrow> re_queued e)"

definition rv_counts :: "AdmissionState \<Rightarrow> RevisionId \<Rightarrow> Counts" where
  "rv_counts s r = (case bt_get (ad_revisions s) r of None \<Rightarrow> Counts_default | Some e \<Rightarrow> re_counts e)"

definition rsv_count :: "(Reservation \<Rightarrow> bool) \<Rightarrow> AdmissionState \<Rightarrow> nat" where
  "rsv_count P s = bt_sum (\<lambda>r. of_bool (P r)) (ad_reservations s)"

definition wt_sum :: "(Ticket \<Rightarrow> nat) \<Rightarrow> AdmissionState \<Rightarrow> nat" where
  "wt_sum f s = bt_sum (\<lambda>w. f (wt_ticket w)) (ad_waiters s)"

definition wt_of :: "AdmissionState \<Rightarrow> TenantId \<Rightarrow> WaiterId set" where
  "wt_of s t = {i. \<exists>w. bt_get (ad_waiters s) i = Some w \<and> tk_tenant (wt_ticket w) = t}"

section \<open>The invariant\<close>

definition queue_inv :: "AdmissionState \<Rightarrow> bool" where
  "queue_inv s \<longleftrightarrow>
     (\<forall>t. distinct (tn_queue s t) \<and> set (tn_queue s t) = wt_of s t
        \<and> tn_bytes s t = wt_sum (\<lambda>k. if tk_tenant k = t then tk_payload_bytes k else 0) s)
     \<and> (\<forall>r. rv_queued s r = wt_sum (\<lambda>k. of_bool (tk_revision k = r)) s)
     \<and> ad_queued s = wt_sum (\<lambda>_. 1) s \<and> ad_queued_bytes s = wt_sum tk_payload_bytes s
     \<and> (\<forall>i w. bt_get (ad_waiters s) i = Some w \<longrightarrow> i \<le> ad_next_id s)"

definition count_inv :: "AdmissionState \<Rightarrow> bool" where
  "count_inv s \<longleftrightarrow>
     (\<forall>st. ad_counts s st = rsv_count (\<lambda>r. rsv_state r = st) s)
     \<and> (\<forall>t. tn_in_flight s t = rsv_count (\<lambda>r. rsv_tenant r = t \<and> rs_in_flight (rsv_state r)) s)
     \<and> (\<forall>rv st. rv_counts s rv st = rsv_count (\<lambda>r. rsv_revision r = rv \<and> rsv_state r = st) s)
     \<and> (\<forall>i r. bt_get (ad_reservations s) i = Some r \<longrightarrow> i \<le> ad_next_id s)"

text \<open>A bounded dimension of the node: its projection of a resource vector and its bound.\<close>

definition dims :: "NodeCapacity \<Rightarrow> ((Resources \<Rightarrow> nat) \<times> nat option) list" where
  "dims c = [(res_cpu_millis, cap_cpu_millis c), (res_memory_mib, cap_memory_mib c),
     (res_ephemeral_storage_mib, cap_ephemeral_storage_mib c)]"

definition held :: "(Resources \<Rightarrow> nat) \<Rightarrow> AdmissionState \<Rightarrow> nat" where
  "held p s =
     bt_sum (\<lambda>r. if holds_resources (rsv_state r) then p (rsv_resources r) else 0) (ad_reservations s)"

definition resource_inv :: "AdmissionState \<Rightarrow> bool" where
  "resource_inv s \<longleftrightarrow>
     (\<forall>(p, cap)\<in>set (dims (ad_capacity s)). \<forall>c. cap = Some c \<longrightarrow> c < u64_max \<longrightarrow>
        p (ad_reserved s) = held p s \<and> held p s \<le> c)"

text \<open>\<open>mx\<close> is the \<open>execution.max_concurrency\<close> of each revision, fixed when it was created.\<close>

definition cap_inv :: "(RevisionId \<Rightarrow> nat) \<Rightarrow> AdmissionState \<Rightarrow> bool" where
  "cap_inv mx s \<longleftrightarrow>
     c_in_flight (ad_counts s) \<le> as_max_concurrency (ad_settings s)
     \<and> (\<forall>t m. tq_max_concurrency (quota_for s t) = Some m \<longrightarrow> tn_in_flight s t \<le> m)
     \<and> (\<forall>t e. bt_get (ad_tenants s) t = Some e \<longrightarrow> te_quota e = quota_for s t)
     \<and> (\<forall>r. c_in_flight (rv_counts s r) \<le> max (mx r) 1)
     \<and> (\<forall>r e. bt_get (ad_revisions s) r = Some e \<longrightarrow> re_max_environments e = max (mx r) 1)"

definition adm_inv :: "(RevisionId \<Rightarrow> nat) \<Rightarrow> AdmissionState \<Rightarrow> bool" where
  "adm_inv mx s \<longleftrightarrow> queue_inv s \<and> count_inv s \<and> resource_inv s \<and> cap_inv mx s"

section \<open>What the invariant depends on\<close>

definition strip :: "Reservation \<Rightarrow> Reservation" where
  "strip r = r\<lparr>rsv_probe := False\<rparr>"

definition view where
  "view s = (ad_settings s, ad_capacity s, ad_tenant_quotas s, ad_counts s, ad_reserved s,
     bt_map (\<lambda>_. strip) (ad_reservations s),
     bt_map (\<lambda>_ e. (re_counts e, re_queued e, re_max_environments e)) (ad_revisions s),
     bt_map (\<lambda>_ e. (te_quota e, te_in_flight e, te_queue e, te_queued_bytes e)) (ad_tenants s),
     bt_map (\<lambda>_. wt_ticket) (ad_waiters s), ad_queued s, ad_queued_bytes s, ad_next_id s)"

lemma bt_map_insert [simp]: "bt_map f (bt_insert k v m) = bt_insert k (f k v) (bt_map f m)"
  by (rule bt_eqI) simp

lemma bt_insert_same: "bt_get m k = Some v \<Longrightarrow> bt_insert k v m = m"
  by (rule bt_eqI) simp

lemma bt_entries_map: "bt_entries (bt_map f m) = map (\<lambda>(k, v). (k, f k v)) (bt_entries m)"
  by (rule bt_map.rep_eq)

lemma bt_sum_map: "bt_sum f (bt_map (\<lambda>_. g) m) = bt_sum (\<lambda>v. f (g v)) m"
  by (simp add: bt_sum_def bt_values_def bt_entries_map comp_def case_prod_unfold)

lemma view_eqD:
  assumes "view s' = view s"
  shows "ad_settings s' = ad_settings s" "ad_capacity s' = ad_capacity s"
    "ad_counts s' = ad_counts s" "ad_reserved s' = ad_reserved s"
    "ad_queued s' = ad_queued s" "ad_queued_bytes s' = ad_queued_bytes s" "ad_next_id s' = ad_next_id s"
    "quota_for s' = quota_for s"
    "map_option strip (bt_get (ad_reservations s') i) = map_option strip (bt_get (ad_reservations s) i)"
    "map_option (\<lambda>e. (re_counts e, re_queued e, re_max_environments e)) (bt_get (ad_revisions s') r)
     = map_option (\<lambda>e. (re_counts e, re_queued e, re_max_environments e)) (bt_get (ad_revisions s) r)"
    "map_option (\<lambda>e. (te_quota e, te_in_flight e, te_queue e, te_queued_bytes e)) (bt_get (ad_tenants s') t)
     = map_option (\<lambda>e. (te_quota e, te_in_flight e, te_queue e, te_queued_bytes e)) (bt_get (ad_tenants s) t)"
    "map_option wt_ticket (bt_get (ad_waiters s') i) = map_option wt_ticket (bt_get (ad_waiters s) i)"
    "bt_sum (\<lambda>r. f (strip r)) (ad_reservations s') = bt_sum (\<lambda>r. f (strip r)) (ad_reservations s)"
    "bt_sum (\<lambda>w. g (wt_ticket w)) (ad_waiters s') = bt_sum (\<lambda>w. g (wt_ticket w)) (ad_waiters s)"
proof -
  show "ad_settings s' = ad_settings s" "ad_capacity s' = ad_capacity s"
    "ad_counts s' = ad_counts s" "ad_reserved s' = ad_reserved s"
    "ad_queued s' = ad_queued s" "ad_queued_bytes s' = ad_queued_bytes s" "ad_next_id s' = ad_next_id s"
    using assms by (simp_all add: view_def)
  show "quota_for s' = quota_for s"
    using assms by (intro ext) (simp add: view_def quota_for_def split: option.split)
  have eq: "bt_map (\<lambda>_. strip) (ad_reservations s') = bt_map (\<lambda>_. strip) (ad_reservations s)"
    "bt_map (\<lambda>_ e. (re_counts e, re_queued e, re_max_environments e)) (ad_revisions s')
       = bt_map (\<lambda>_ e. (re_counts e, re_queued e, re_max_environments e)) (ad_revisions s)"
    "bt_map (\<lambda>_ e. (te_quota e, te_in_flight e, te_queue e, te_queued_bytes e)) (ad_tenants s')
       = bt_map (\<lambda>_ e. (te_quota e, te_in_flight e, te_queue e, te_queued_bytes e)) (ad_tenants s)"
    "bt_map (\<lambda>_. wt_ticket) (ad_waiters s') = bt_map (\<lambda>_. wt_ticket) (ad_waiters s)"
    using assms by (simp_all add: view_def)
  show "map_option strip (bt_get (ad_reservations s') i) = map_option strip (bt_get (ad_reservations s) i)"
    using arg_cong [OF eq(1), of "\<lambda>m. bt_get m i"] by simp
  show "map_option (\<lambda>e. (re_counts e, re_queued e, re_max_environments e)) (bt_get (ad_revisions s') r)
     = map_option (\<lambda>e. (re_counts e, re_queued e, re_max_environments e)) (bt_get (ad_revisions s) r)"
    using arg_cong [OF eq(2), of "\<lambda>m. bt_get m r"] by simp
  show "map_option (\<lambda>e. (te_quota e, te_in_flight e, te_queue e, te_queued_bytes e)) (bt_get (ad_tenants s') t)
     = map_option (\<lambda>e. (te_quota e, te_in_flight e, te_queue e, te_queued_bytes e)) (bt_get (ad_tenants s) t)"
    using arg_cong [OF eq(3), of "\<lambda>m. bt_get m t"] by simp
  show "map_option wt_ticket (bt_get (ad_waiters s') i) = map_option wt_ticket (bt_get (ad_waiters s) i)"
    using arg_cong [OF eq(4), of "\<lambda>m. bt_get m i"] by simp
  show "bt_sum (\<lambda>r. f (strip r)) (ad_reservations s') = bt_sum (\<lambda>r. f (strip r)) (ad_reservations s)"
    using arg_cong [OF eq(1), of "bt_sum f"] by (simp add: bt_sum_map)
  show "bt_sum (\<lambda>w. g (wt_ticket w)) (ad_waiters s') = bt_sum (\<lambda>w. g (wt_ticket w)) (ad_waiters s)"
    using arg_cong [OF eq(4), of "bt_sum g"] by (simp add: bt_sum_map)
qed

lemma tn_view:
  "tn_queue s t = (case map_option (\<lambda>e. (te_quota e, te_in_flight e, te_queue e, te_queued_bytes e))
     (bt_get (ad_tenants s) t) of None \<Rightarrow> [] | Some (_, _, q, _) \<Rightarrow> q)"
  "tn_bytes s t = (case map_option (\<lambda>e. (te_quota e, te_in_flight e, te_queue e, te_queued_bytes e))
     (bt_get (ad_tenants s) t) of None \<Rightarrow> 0 | Some (_, _, _, b) \<Rightarrow> b)"
  "tn_in_flight s t = (case map_option (\<lambda>e. (te_quota e, te_in_flight e, te_queue e, te_queued_bytes e))
     (bt_get (ad_tenants s) t) of None \<Rightarrow> 0 | Some (_, n, _, _) \<Rightarrow> n)"
  by (simp_all add: tn_queue_def tn_bytes_def tn_in_flight_def split: option.split)

lemma rv_view:
  "rv_queued s r = (case map_option (\<lambda>e. (re_counts e, re_queued e, re_max_environments e))
     (bt_get (ad_revisions s) r) of None \<Rightarrow> 0 | Some (_, q, _) \<Rightarrow> q)"
  "rv_counts s r = (case map_option (\<lambda>e. (re_counts e, re_queued e, re_max_environments e))
     (bt_get (ad_revisions s) r) of None \<Rightarrow> Counts_default | Some (c, _, _) \<Rightarrow> c)"
  by (simp_all add: rv_queued_def rv_counts_def split: option.split)

lemma view_totals:
  assumes "view s' = view s"
  shows "tn_queue s' = tn_queue s" "tn_bytes s' = tn_bytes s" "tn_in_flight s' = tn_in_flight s"
    "rv_queued s' = rv_queued s" "rv_counts s' = rv_counts s" "wt_sum f s' = wt_sum f s"
    "wt_of s' = wt_of s" "held p s' = held p s"
    "(\<And>r. P (strip r) = P r) \<Longrightarrow> rsv_count P s' = rsv_count P s"
proof -
  note v = view_eqD [OF assms]
  show "tn_queue s' = tn_queue s" "tn_bytes s' = tn_bytes s" "tn_in_flight s' = tn_in_flight s"
    by (simp_all add: fun_eq_iff tn_view v(11))
  show "rv_queued s' = rv_queued s" "rv_counts s' = rv_counts s"
    by (rule ext, simp add: rv_view v(10))+
  show "wt_sum f s' = wt_sum f s" by (simp add: wt_sum_def v(14))
  have "i \<in> wt_of s' t \<longleftrightarrow> i \<in> wt_of s t" for i t
    using v(12) [of i] by (cases "bt_get (ad_waiters s') i"; cases "bt_get (ad_waiters s) i")
      (auto simp: wt_of_def)
  then show "wt_of s' = wt_of s" by auto
  show "held p s' = held p s"
    using v(13) [of "\<lambda>r. if holds_resources (rsv_state r) then p (rsv_resources r) else 0"]
    by (simp add: held_def strip_def cong: if_cong)
  show "rsv_count P s' = rsv_count P s" if "\<And>r. P (strip r) = P r"
    using v(13) [of "\<lambda>r. of_bool (P r)"] by (simp add: rsv_count_def that)
qed

lemma adm_inv_view:
  assumes "view s' = view s" "adm_inv mx s"
  shows "adm_inv mx s'"
proof -
  note v = view_eqD [OF assms(1)] and t = view_totals [OF assms(1)]
  have w: "(\<exists>w. bt_get (ad_waiters s') i = Some w) \<longleftrightarrow> (\<exists>w. bt_get (ad_waiters s) i = Some w)" for i
    using v(12) [of i] by (metis map_option_is_None not_Some_eq)
  have r: "(\<exists>r. bt_get (ad_reservations s') i = Some r) \<longleftrightarrow> (\<exists>r. bt_get (ad_reservations s) i = Some r)" for i
    using v(9) [of i] by (metis map_option_is_None not_Some_eq)
  have "queue_inv s'"
    using assms(2) w by (auto simp: adm_inv_def queue_inv_def t v)
  moreover have "count_inv s'"
    using assms(2) r by (auto simp: adm_inv_def count_inv_def t v strip_def)
  moreover have "resource_inv s'"
    using assms(2) by (simp add: adm_inv_def resource_inv_def t v)
  moreover have "te_quota e = quota_for s' tn" if "bt_get (ad_tenants s') tn = Some e" for tn e
    using v(11) [of tn] that assms(2)
    by (cases "bt_get (ad_tenants s) tn") (auto simp: adm_inv_def cap_inv_def v(8))
  moreover have "re_max_environments e = max (mx rv) 1" if "bt_get (ad_revisions s') rv = Some e" for rv e
    using v(10) [of rv] that assms(2)
    by (cases "bt_get (ad_revisions s) rv") (auto simp: adm_inv_def cap_inv_def)
  ultimately show ?thesis
    using assms(2) by (auto simp: adm_inv_def cap_inv_def t v)
qed

section \<open>Steps that keep the view\<close>

named_theorems view_simps

lemma view_light [view_simps]:
  "view (push_outcome i out s) = view s" "view (reject_count reason s) = view s"
  "view (record_scale h r k why now s) = view s" "view (s\<lparr>ad_bucket := b\<rparr>) = view s"
  "view (s\<lparr>ad_counters := c\<rparr>) = view s" "view (s\<lparr>ad_outbox := box\<rparr>) = view s"
  "view (s\<lparr>ad_serve_seq := n\<rparr>) = view s" "view (s\<lparr>ad_eviction_requested := q\<rparr>) = view s"
  "view (s\<lparr>ad_evictions := n\<rparr>) = view s" "view (s\<lparr>ad_routed := ro\<rparr>) = view s"
  "view (s\<lparr>ad_drains := dr\<rparr>) = view s"
  by (simp_all add: view_def push_outcome_def reject_count_def)

lemma view_revision [view_simps]:
  assumes "bt_get (ad_revisions s) r = Some e0" "re_counts e = re_counts e0"
    "re_queued e = re_queued e0" "re_max_environments e = re_max_environments e0"
  shows "view (s\<lparr>ad_revisions := bt_insert r e (ad_revisions s)\<rparr>) = view s"
  using assms by (simp add: view_def bt_insert_same)

lemma view_upd_revision:
  assumes "\<And>e. re_counts (f e) = re_counts e \<and> re_queued (f e) = re_queued e
     \<and> re_max_environments (f e) = re_max_environments e"
  shows "view (upd_revision r f s) = view s"
  using assms by (auto simp: upd_revision_def view_revision split: option.split)

lemma view_note_block [view_simps]: "view (note_block i reason s) = view s"
  by (auto simp: note_block_def view_def bt_insert_same split: option.split)

lemma view_evaluate_start: "view (snd (evaluate_start h t now s)) = view s"
  by (simp add: evaluate_start_def Let_def view_def split: prod.split)

lemma view_evaluate: "view (snd (evaluate h i now nb s)) = view s"
proof -
  have "view (s\<lparr>ad_revisions := bt_insert r (e0\<lparr>re_breaker := b\<rparr>) (ad_revisions s)\<rparr>) = view s"
    if "bt_get (ad_revisions s) r = Some e0" for r e0 b
    using that by (intro view_revision) auto
  then show ?thesis
    by (simp add: evaluate_def Let_def view_evaluate_start split: option.split prod.split)
qed

lemma view_check_static: "view (snd (check_static t now s)) = view s"
proof -
  have "view (s\<lparr>ad_revisions := bt_insert r (e0\<lparr>re_breaker := b\<rparr>) (ad_revisions s)\<rparr>) = view s"
    if "bt_get (ad_revisions s) r = Some e0" for r e0 b
    using that by (intro view_revision) auto
  then show ?thesis
    by (auto simp: check_static_def Let_def split: option.split prod.split)
qed

section \<open>Effects of the building blocks on the totals\<close>

lemma upd_revision_totals [simp]:
  "tn_queue (upd_revision r f s) = tn_queue s" "tn_bytes (upd_revision r f s) = tn_bytes s"
  "tn_in_flight (upd_revision r f s) = tn_in_flight s" "wt_of (upd_revision r f s) = wt_of s"
  "wt_sum g (upd_revision r f s) = wt_sum g s" "rsv_count P (upd_revision r f s) = rsv_count P s"
  "held p (upd_revision r f s) = held p s" "quota_for (upd_revision r f s) = quota_for s"
  by (auto simp: fun_eq_iff tn_queue_def tn_bytes_def tn_in_flight_def wt_of_def wt_sum_def
      rsv_count_def held_def quota_for_def split: option.split)

lemma tenant_entry_totals [simp]:
  "rv_queued (tenant_entry t f s) = rv_queued s" "rv_counts (tenant_entry t f s) = rv_counts s"
  "wt_of (tenant_entry t f s) = wt_of s"
  "wt_sum g (tenant_entry t f s) = wt_sum g s" "rsv_count P (tenant_entry t f s) = rsv_count P s"
  "held p (tenant_entry t f s) = held p s" "quota_for (tenant_entry t f s) = quota_for s"
  by (auto simp: fun_eq_iff rv_queued_def rv_counts_def wt_of_def wt_sum_def
      rsv_count_def held_def quota_for_def split: option.split)

lemma totals_cong:
  "ad_tenants s' = ad_tenants s \<Longrightarrow> tn_queue s' = tn_queue s"
  "ad_tenants s' = ad_tenants s \<Longrightarrow> tn_bytes s' = tn_bytes s"
  "ad_tenants s' = ad_tenants s \<Longrightarrow> tn_in_flight s' = tn_in_flight s"
  "ad_revisions s' = ad_revisions s \<Longrightarrow> rv_queued s' = rv_queued s"
  "ad_revisions s' = ad_revisions s \<Longrightarrow> rv_counts s' = rv_counts s"
  "ad_waiters s' = ad_waiters s \<Longrightarrow> wt_of s' = wt_of s"
  "ad_waiters s' = ad_waiters s \<Longrightarrow> wt_sum g s' = wt_sum g s"
  "ad_reservations s' = ad_reservations s \<Longrightarrow> rsv_count P s' = rsv_count P s"
  "ad_reservations s' = ad_reservations s \<Longrightarrow> held p s' = held p s"
  "ad_tenant_quotas s' = ad_tenant_quotas s \<Longrightarrow> ad_settings s' = ad_settings s \<Longrightarrow> quota_for s' = quota_for s"
  by (simp_all add: fun_eq_iff tn_queue_def tn_bytes_def tn_in_flight_def rv_queued_def rv_counts_def
      wt_of_def wt_sum_def rsv_count_def held_def quota_for_def split: option.split)

lemma rv_upd_revision:
  "rv_queued (upd_revision r f s) r' =
     (if r' = r \<and> bt_get (ad_revisions s) r \<noteq> None then re_queued (f (the (bt_get (ad_revisions s) r)))
      else rv_queued s r')"
  "rv_counts (upd_revision r f s) r' =
     (if r' = r \<and> bt_get (ad_revisions s) r \<noteq> None then re_counts (f (the (bt_get (ad_revisions s) r)))
      else rv_counts s r')"
  by (auto simp: rv_queued_def rv_counts_def upd_revision_def split: option.split)

lemma tn_tenant_entry:
  assumes "\<And>e. te_queue (f e) = (if q then g (te_queue e) else te_queue e)"
    and "\<And>e. te_queued_bytes (f e) = b (te_queued_bytes e)"
    and "\<And>e. te_in_flight (f e) = n (te_in_flight e)"
  shows "tn_queue (tenant_entry t f s) t' = (if t' = t \<and> q then g (tn_queue s t) else tn_queue s t')"
    "tn_bytes (tenant_entry t f s) t' = (if t' = t then b (tn_bytes s t) else tn_bytes s t')"
    "tn_in_flight (tenant_entry t f s) t' = (if t' = t then n (tn_in_flight s t) else tn_in_flight s t')"
  using assms
  by (auto simp: tn_queue_def tn_bytes_def tn_in_flight_def tenant_entry_def Let_def
      new_tenant_entry_def split: option.split)

section \<open>Waiters\<close>

lemma remove_waiter_effect:
  assumes "bt_get (ad_waiters s) i = Some w"
  defines "s' \<equiv> snd (remove_waiter i s)" and "t \<equiv> wt_ticket w"
  shows "tn_queue s' tn = (if tn = tk_tenant t then filter (\<lambda>x. x \<noteq> i) (tn_queue s tn) else tn_queue s tn)"
    and "tn_bytes s' tn = (if tn = tk_tenant t then tn_bytes s tn - tk_payload_bytes t else tn_bytes s tn)"
    and "tn_in_flight s' tn = tn_in_flight s tn"
    and "rv_queued s' rv = (if rv = tk_revision t then rv_queued s rv - 1 else rv_queued s rv)"
    and "rv_counts s' rv = rv_counts s rv"
    and "wt_sum f s = wt_sum f s' + f t"
    and "wt_of s' tn = wt_of s tn - {i}"
    and "ad_queued s' = ad_queued s - 1" and "ad_queued_bytes s' = ad_queued_bytes s - tk_payload_bytes t"
    and "ad_next_id s' = ad_next_id s" and "ad_counts s' = ad_counts s"
    and "ad_reserved s' = ad_reserved s" and "ad_reservations s' = ad_reservations s"
    and "ad_settings s' = ad_settings s" and "ad_capacity s' = ad_capacity s"
    and "quota_for s' = quota_for s" and "ad_bucket s' = ad_bucket s" and "ad_drains s' = ad_drains s"
    and "bt_get (ad_tenants s') tn = Some e \<Longrightarrow>
      \<exists>e0. bt_get (ad_tenants s) tn = Some e0 \<and> te_quota e = te_quota e0"
    and "bt_get (ad_revisions s') rv = Some re \<Longrightarrow>
      \<exists>re0. bt_get (ad_revisions s) rv = Some re0 \<and> re_counts re = re_counts re0
        \<and> re_max_environments re = re_max_environments re0 \<and> re_breaker re = re_breaker re0"
    and "bt_get (ad_tenants s) tn \<noteq> None \<Longrightarrow> bt_get (ad_tenants s') tn \<noteq> None"
    and "bt_get (ad_revisions s) rv \<noteq> None \<Longrightarrow> bt_get (ad_revisions s') rv \<noteq> None"
proof -
  have w': "ad_waiters s' = bt_remove i (ad_waiters s)" by (simp add: s'_def)
  show "wt_sum f s = wt_sum f s' + f t"
    using bt_sum_remove [of "\<lambda>w. f (wt_ticket w)" "ad_waiters s" i] assms(1)
    by (simp add: wt_sum_def w' t_def)
  show "wt_of s' tn = wt_of s tn - {i}" by (auto simp: wt_of_def w' split: if_splits)
qed (insert assms(1), auto simp: s'_def t_def remove_waiter_def Let_def tn_queue_def tn_bytes_def
      tn_in_flight_def rv_queued_def rv_counts_def upd_revision_def quota_for_def
      split: option.splits if_splits)

lemma queue_inv_remove_waiter:
  assumes "queue_inv s"
  shows "queue_inv (snd (remove_waiter i s))"
proof (cases "bt_get (ad_waiters s) i")
  case (Some w)
  let ?s = "snd (remove_waiter i s)" and ?t = "wt_ticket w"
  note eff = remove_waiter_effect [OF Some]
  have "tn_bytes ?s tn = wt_sum (\<lambda>k. if tk_tenant k = tn then tk_payload_bytes k else 0) ?s" for tn
    using assms eff(2) [of tn] eff(6) [of "\<lambda>k. if tk_tenant k = tn then tk_payload_bytes k else 0"]
    by (auto simp: queue_inv_def)
  moreover have "rv_queued ?s rv = wt_sum (\<lambda>k. of_bool (tk_revision k = rv)) ?s" for rv
    using assms eff(4) [of rv] eff(6) [of "\<lambda>k. of_bool (tk_revision k = rv)"]
    by (auto simp: queue_inv_def)
  moreover have "set (tn_queue ?s tn) = wt_of ?s tn" for tn
    using assms eff(1) [of tn] eff(7) [of tn] Some
    by (auto simp: queue_inv_def wt_of_def)
  ultimately show ?thesis
    using assms eff(6) [of "\<lambda>_. 1"] eff(6) [of tk_payload_bytes]
    by (auto simp: queue_inv_def eff)
qed (simp add: remove_waiter_def assms)

lemma adm_inv_remove_waiter:
  assumes "adm_inv mx s"
  shows "adm_inv mx (snd (remove_waiter i s))"
proof (cases "bt_get (ad_waiters s) i")
  case (Some w)
  note eff = remove_waiter_effect [OF Some]
  have "rsv_count P (snd (remove_waiter i s)) = rsv_count P s" for P by (simp add: rsv_count_def eff)
  moreover have "held p (snd (remove_waiter i s)) = held p s" for p by (simp add: held_def eff)
  moreover have "te_quota e = quota_for s tn"
    if "bt_get (ad_tenants (snd (remove_waiter i s))) tn = Some e" for tn e
    using eff(19) [OF that] assms by (auto simp: adm_inv_def cap_inv_def)
  moreover have "re_max_environments e = max (mx rv) 1"
    if "bt_get (ad_revisions (snd (remove_waiter i s))) rv = Some e" for rv e
    using eff(20) [OF that] assms by (auto simp: adm_inv_def cap_inv_def)
  ultimately show ?thesis
    using assms queue_inv_remove_waiter [of s i]
    by (auto simp: adm_inv_def count_inv_def resource_inv_def cap_inv_def eff)
qed (simp add: remove_waiter_def assms)

definition ticket_ok :: "(RevisionId \<Rightarrow> nat) \<Rightarrow> Ticket \<Rightarrow> bool" where
  "ticket_ok mx t \<longleftrightarrow> tk_max_environments t = mx (tk_revision t)"

lemma add_waiter_effect:
  fixes s :: AdmissionState and h :: host and t :: Ticket and retry :: bool and now :: Timestamp
  defines "i \<equiv> ad_next_id s + 1"
  assumes "bt_get (ad_waiters s) i = None"
  defines "s' \<equiv> add_waiter h t retry now s"
  shows "tn_queue s' tn = (if tn = tk_tenant t then (if retry then i # tn_queue s tn else tn_queue s tn @ [i])
           else tn_queue s tn)"
    and "tn_bytes s' tn = (if tn = tk_tenant t then tn_bytes s tn + tk_payload_bytes t else tn_bytes s tn)"
    and "tn_in_flight s' tn = tn_in_flight s tn"
    and "rv_queued s' rv = (if rv = tk_revision t then rv_queued s rv + 1 else rv_queued s rv)"
    and "rv_counts s' rv = rv_counts s rv"
    and "wt_sum f s' = wt_sum f s + f t"
    and "wt_of s' tn = (if tn = tk_tenant t then insert i (wt_of s tn) else wt_of s tn)"
    and "ad_queued s' = ad_queued s + 1" and "ad_queued_bytes s' = ad_queued_bytes s + tk_payload_bytes t"
    and "ad_next_id s' = i" and "ad_counts s' = ad_counts s"
    and "ad_reserved s' = ad_reserved s" and "ad_reservations s' = ad_reservations s"
    and "ad_settings s' = ad_settings s" and "ad_capacity s' = ad_capacity s"
    and "quota_for s' = quota_for s" and "set (bt_keys (ad_waiters s')) = insert i (set (bt_keys (ad_waiters s)))"
    and "bt_get (ad_tenants s') tn = Some e \<Longrightarrow>
      te_quota e = quota_for s tn \<or> (\<exists>e0. bt_get (ad_tenants s) tn = Some e0 \<and> te_quota e = te_quota e0)"
    and "bt_get (ad_revisions s') rv = Some re \<Longrightarrow>
      (rv = tk_revision t \<and> re_max_environments re = max (tk_max_environments t) 1)
      \<or> (\<exists>re0. bt_get (ad_revisions s) rv = Some re0 \<and> re_max_environments re = re_max_environments re0)"
proof -
  have w': "ad_waiters s' = bt_insert i
      \<lparr> wt_ticket = t, wt_enqueued_at = now, wt_blocked = BR_Pending, wt_coalesced = False \<rparr> (ad_waiters s)"
    by (simp add: s'_def add_waiter_def Let_def i_def next_id_def revision_entry_def)
  show "wt_sum f s' = wt_sum f s + f t"
    using assms(2) by (simp add: wt_sum_def w' bt_sum_insert_new)
  show "wt_of s' tn = (if tn = tk_tenant t then insert i (wt_of s tn) else wt_of s tn)"
    using assms(2) by (auto simp: wt_of_def w' split: if_splits)
  show "set (bt_keys (ad_waiters s')) = insert i (set (bt_keys (ad_waiters s)))" by (simp add: w')
qed (auto simp: s'_def add_waiter_def Let_def i_def next_id_def revision_entry_def tenant_entry_def
      tn_queue_def tn_bytes_def tn_in_flight_def rv_queued_def rv_counts_def quota_for_def
      refreshed_entry_def new_revision_entry_def new_tenant_entry_def Counts_default_def
      split: option.splits if_splits)

lemma adm_inv_add_waiter:
  assumes "adm_inv mx s" "ticket_ok mx t"
  shows "adm_inv mx (add_waiter h t retry now s)"
proof -
  let ?s = "add_waiter h t retry now s" and ?i = "ad_next_id s + 1"
  have bound: "\<forall>i w. bt_get (ad_waiters s) i = Some w \<longrightarrow> i \<le> ad_next_id s"
    using assms(1) by (simp add: adm_inv_def queue_inv_def)
  then have new: "bt_get (ad_waiters s) ?i = None" by (metis Suc_eq_plus1 not_less_eq_eq not_Some_eq order.refl)
  note eff = add_waiter_effect [OF new, where h = h and t = t and retry = retry and now = now]
  have notin: "?i \<notin> wt_of s tn" for tn using new by (simp add: wt_of_def)
  have q: "queue_inv s" using assms(1) by (simp add: adm_inv_def)
  have "i \<le> ad_next_id ?s" if "bt_get (ad_waiters ?s) i = Some w" for i w
    using eff(17) that bound by (simp add: eff(10) set_eq_iff bt_keys_iff) (metis le_SucI le_refl)
  moreover have "distinct (tn_queue ?s tn) \<and> set (tn_queue ?s tn) = wt_of ?s tn" for tn
    using q notin [of tn] by (auto simp: queue_inv_def eff(1,7))
  moreover have "tn_bytes ?s tn = wt_sum (\<lambda>k. if tk_tenant k = tn then tk_payload_bytes k else 0) ?s" for tn
    using q by (auto simp: queue_inv_def eff(2,6))
  moreover have "rv_queued ?s rv = wt_sum (\<lambda>k. of_bool (tk_revision k = rv)) ?s" for rv
    using q by (auto simp: queue_inv_def eff(4,6))
  ultimately have "queue_inv ?s"
    using q unfolding queue_inv_def by (simp add: eff(6,8,9))
  moreover have "rsv_count P ?s = rsv_count P s" "held p ?s = held p s" for P p
    by (simp_all add: rsv_count_def held_def eff(13))
  moreover have "te_quota e = quota_for s tn" if "bt_get (ad_tenants ?s) tn = Some e" for tn e
    using eff(18) [OF that] assms(1) by (auto simp: adm_inv_def cap_inv_def)
  moreover have "re_max_environments e = max (mx rv) 1" if "bt_get (ad_revisions ?s) rv = Some e" for rv e
    using eff(19) [OF that] assms by (auto simp: adm_inv_def cap_inv_def ticket_ok_def)
  ultimately show ?thesis
    using assms(1)
    by (auto simp: adm_inv_def count_inv_def resource_inv_def cap_inv_def eff(3,5,10-16)
        intro: le_SucI)
qed

section \<open>Reservations\<close>

lemma c_in_flight_inc: "c_in_flight (c_inc c st) = c_in_flight c + of_bool (rs_in_flight st)"
  by (cases st) (simp_all add: c_in_flight_def c_inc_def rs_in_flight_def)

lemma c_in_flight_dec:
  "0 < c st \<Longrightarrow> c_in_flight (c_dec c st) = c_in_flight c - of_bool (rs_in_flight st)"
  by (cases st) (simp_all add: c_in_flight_def c_dec_def rs_in_flight_def)

lemma account_sel [simp]:
  "ad_reservations (account r add s) = ad_reservations s" "ad_settings (account r add s) = ad_settings s"
  "ad_capacity (account r add s) = ad_capacity s" "ad_queued (account r add s) = ad_queued s"
  "ad_queued_bytes (account r add s) = ad_queued_bytes s" "ad_next_id (account r add s) = ad_next_id s"
  "ad_tenant_quotas (account r add s) = ad_tenant_quotas s" "ad_bucket (account r add s) = ad_bucket s"
  "ad_outbox (account r add s) = ad_outbox s" "ad_drains (account r add s) = ad_drains s"
  by (simp_all add: account_def Let_def upd_revision_def tenant_entry_def split: option.split)

lemma account_totals:
  "tn_queue (account r add s) = tn_queue s" "tn_bytes (account r add s) = tn_bytes s"
  "rv_queued (account r add s) = rv_queued s" "wt_of (account r add s) = wt_of s"
  "wt_sum f (account r add s) = wt_sum f s" "quota_for (account r add s) = quota_for s"
  "ad_counts (account r add s) = (if add then c_inc else c_dec) (ad_counts s) (rsv_state r)"
  "ad_reserved (account r add s) =
     (if holds_resources (rsv_state r)
      then (if add then res_plus else res_minus) (ad_reserved s) (rsv_resources r) else ad_reserved s)"
  "tn_in_flight (account r add s) t =
     (if rsv_tenant r = t \<and> rs_in_flight (rsv_state r)
      then (if add then tn_in_flight s t + 1 else tn_in_flight s t - 1) else tn_in_flight s t)"
  "rv_counts (account r add s) rv =
     (if rsv_revision r = rv \<and> bt_get (ad_revisions s) rv \<noteq> None
      then (if add then c_inc else c_dec) (rv_counts s rv) (rsv_state r) else rv_counts s rv)"
  "bt_get (ad_revisions (account r add s)) rv = None \<longleftrightarrow> bt_get (ad_revisions s) rv = None"
  "bt_get (ad_tenants (account r add s)) t = Some e \<Longrightarrow>
     te_quota e = quota_for s t \<or> (\<exists>e0. bt_get (ad_tenants s) t = Some e0 \<and> te_quota e = te_quota e0)"
  "bt_get (ad_revisions (account r add s)) rv = Some re \<Longrightarrow>
     \<exists>re0. bt_get (ad_revisions s) rv = Some re0 \<and> re_max_environments re = re_max_environments re0
       \<and> re_queued re = re_queued re0"
  by (auto simp: fun_eq_iff account_def Let_def upd_revision_def tenant_entry_def tn_queue_def
      tn_bytes_def tn_in_flight_def rv_queued_def rv_counts_def wt_of_def wt_sum_def quota_for_def
      new_tenant_entry_def split: option.splits if_splits)

lemma upd_reservations_totals [simp]:
  "tn_queue (s\<lparr>ad_reservations := m\<rparr>) = tn_queue s" "tn_bytes (s\<lparr>ad_reservations := m\<rparr>) = tn_bytes s"
  "tn_in_flight (s\<lparr>ad_reservations := m\<rparr>) = tn_in_flight s"
  "rv_queued (s\<lparr>ad_reservations := m\<rparr>) = rv_queued s" "rv_counts (s\<lparr>ad_reservations := m\<rparr>) = rv_counts s"
  "wt_of (s\<lparr>ad_reservations := m\<rparr>) = wt_of s" "wt_sum f (s\<lparr>ad_reservations := m\<rparr>) = wt_sum f s"
  "quota_for (s\<lparr>ad_reservations := m\<rparr>) = quota_for s"
  by (auto simp: fun_eq_iff tn_queue_def tn_bytes_def tn_in_flight_def rv_queued_def rv_counts_def
      wt_of_def wt_sum_def quota_for_def split: option.split)

lemma dims_arith:
  assumes "(p, cap) \<in> set (dims c)"
  shows "p (res_plus a b) = sat_add64 (p a) (p b)" "p (res_minus a b) = p a - p b"
  using assms by (auto simp: dims_def res_plus_def res_minus_def)

lemma sat_add64_le: "sat_add64 a b \<le> m \<Longrightarrow> m < u64_max \<Longrightarrow> sat_add64 a b = a + b \<and> a + b \<le> m"
  using sat_add64_exact [of a b] by simp

lemma dims_admits: "admits c x \<Longrightarrow> (p, Some m) \<in> set (dims c) \<Longrightarrow> p x \<le> m"
  by (auto simp: dims_def admits_def opt_is_none_or_def split: option.splits)

text \<open>A queue invariant does not look at reservations.\<close>

lemma queue_inv_account:
  "queue_inv (account r add s) = queue_inv s"
  by (simp add: queue_inv_def account_totals)

lemma queue_inv_reservations: "queue_inv (s\<lparr>ad_reservations := m\<rparr>) = queue_inv s"
  by (simp add: queue_inv_def)

text \<open>Room for one more in-flight reservation of \<open>r\<close>'s tenant and revision.\<close>

definition room :: "(RevisionId \<Rightarrow> nat) \<Rightarrow> Reservation \<Rightarrow> AdmissionState \<Rightarrow> bool" where
  "room mx r s \<longleftrightarrow>
     c_in_flight (ad_counts s) < as_max_concurrency (ad_settings s)
     \<and> (\<forall>m. tq_max_concurrency (quota_for s (rsv_tenant r)) = Some m \<longrightarrow> tn_in_flight s (rsv_tenant r) < m)
     \<and> c_in_flight (rv_counts s (rsv_revision r)) < max (mx (rsv_revision r)) 1"

text \<open>Counting a reservation in, after the map was updated.\<close>

lemma entries_account:
  assumes "cap_inv mx s"
  shows "bt_get (ad_tenants (account r add s)) t = Some e \<Longrightarrow> te_quota e = quota_for s t"
    and "bt_get (ad_revisions (account r add s)) rv = Some re \<Longrightarrow> re_max_environments re = max (mx rv) 1"
  using assms account_totals(12) [of r add s t e] account_totals(13) [of r add s rv re]
  by (auto simp: cap_inv_def)

lemma adm_inv_insert_reservation:
  assumes inv: "adm_inv mx s" and new: "bt_get (ad_reservations s) i = None" "i \<le> ad_next_id s"
    and known: "bt_get (ad_revisions s) (rsv_revision r) \<noteq> None"
    and fits: "holds_resources (rsv_state r) \<Longrightarrow> admits (ad_capacity s) (res_plus (ad_reserved s) (rsv_resources r))"
    and room: "rs_in_flight (rsv_state r) \<Longrightarrow> room mx r s"
  shows "adm_inv mx (insert_reservation i r s)"
proof -
  let ?a = "account r True s"
  let ?s = "?a\<lparr>ad_reservations := bt_insert i r (ad_reservations s)\<rparr>"
  have s': "insert_reservation i r s = ?s" by (simp add: insert_reservation_def Let_def)
  have n: "rsv_count P ?s = rsv_count P s + of_bool (P r)" for P
    using new(1) by (simp add: rsv_count_def bt_sum_insert_new)
  have c: "count_inv s" "resource_inv s" "cap_inv mx s" "queue_inv s" using inv by (simp_all add: adm_inv_def)
  have "queue_inv ?s" using c(4) by (simp add: queue_inv_reservations queue_inv_account)
  moreover have "count_inv ?s"
    using c(1) known new(2) unfolding count_inv_def
    by (auto simp: n account_totals c_inc_def)
  moreover have "resource_inv ?s"
    unfolding resource_inv_def
  proof (clarify)
    fix p m
    assume p: "(p, Some m) \<in> set (dims (ad_capacity ?s))" and m: "m < u64_max"
    then have p': "(p, Some m) \<in> set (dims (ad_capacity s))" by simp
    then have old: "p (ad_reserved s) = held p s" "held p s \<le> m"
      using c(2) m by (auto simp: resource_inv_def)
    have h: "held p ?s = held p s + (if holds_resources (rsv_state r) then p (rsv_resources r) else 0)"
      using new(1) by (simp add: held_def bt_sum_insert_new)
    show "p (ad_reserved ?s) = held p ?s \<and> held p ?s \<le> m"
    proof (cases "holds_resources (rsv_state r)")
      case True
      have "p (res_plus (ad_reserved s) (rsv_resources r)) \<le> m"
        using dims_admits [OF fits [OF True] p'] .
      then show ?thesis
        using True h old m sat_add64_le [of "held p s" "p (rsv_resources r)" m]
        by (simp add: account_totals dims_arith [OF p'])
    qed (use h old in \<open>simp add: account_totals\<close>)
  qed
  moreover have "cap_inv mx ?s"
    using c(3) room entries_account [OF c(3)] unfolding cap_inv_def room_def
    by (auto simp: account_totals c_in_flight_inc)
  ultimately show ?thesis by (simp add: adm_inv_def s')
qed

lemma known_revision:
  assumes "count_inv s" "bt_get (ad_reservations s) i = Some r"
  shows "bt_get (ad_revisions s) (rsv_revision r) \<noteq> None"
    and "0 < ad_counts s (rsv_state r)" and "0 < rv_counts s (rsv_revision r) (rsv_state r)"
    and "rs_in_flight (rsv_state r) \<Longrightarrow> 0 < tn_in_flight s (rsv_tenant r)"
proof -
  have pos: "0 < rsv_count P s" if "P r" for P
    using bt_sum_member [OF assms(2), of "\<lambda>r. of_bool (P r)"] that by (simp add: rsv_count_def)
  show "0 < ad_counts s (rsv_state r)"
    using assms(1) pos [of "\<lambda>q. rsv_state q = rsv_state r"] by (simp add: count_inv_def)
  show "0 < rv_counts s (rsv_revision r) (rsv_state r)"
    using assms(1) pos [of "\<lambda>q. rsv_revision q = rsv_revision r \<and> rsv_state q = rsv_state r"]
    by (simp add: count_inv_def)
  then show "bt_get (ad_revisions s) (rsv_revision r) \<noteq> None"
    by (cases "bt_get (ad_revisions s) (rsv_revision r)")
       (auto simp: rv_counts_def Counts_default_def)
  show "0 < tn_in_flight s (rsv_tenant r)" if "rs_in_flight (rsv_state r)"
    using assms(1) pos [of "\<lambda>q. rsv_tenant q = rsv_tenant r \<and> rs_in_flight (rsv_state q)"] that
    by (simp add: count_inv_def)
qed

lemma tenant_entry_reservations:
  "tenant_entry t f (s\<lparr>ad_reservations := m\<rparr>) = (tenant_entry t f s)\<lparr>ad_reservations := m\<rparr>"
  by (cases "bt_get (ad_tenants s) t") (simp_all add: tenant_entry_def Let_def quota_for_def)

lemma upd_revision_reservations:
  "upd_revision rv f (s\<lparr>ad_reservations := m\<rparr>) = (upd_revision rv f s)\<lparr>ad_reservations := m\<rparr>"
  by (cases "bt_get (ad_revisions s) rv") (simp_all add: upd_revision_def)

lemma account_reservations:
  "account r add (s\<lparr>ad_reservations := m\<rparr>) = (account r add s)\<lparr>ad_reservations := m\<rparr>"
proof -
  have comm: "s\<lparr>ad_reservations := m, ad_counts := c\<rparr> = s\<lparr>ad_counts := c, ad_reservations := m\<rparr>"
    "s\<lparr>ad_reservations := m, ad_reserved := v\<rparr> = s\<lparr>ad_reserved := v, ad_reservations := m\<rparr>" for s c v
    by simp_all
  show ?thesis
    by (cases "holds_resources (rsv_state r)"; cases "rs_in_flight (rsv_state r)")
       (simp_all add: account_def Let_def comm tenant_entry_reservations upd_revision_reservations)
qed

lemma adm_inv_remove_reservation:
  assumes inv: "adm_inv mx s" and r: "bt_get (ad_reservations s) i = Some r"
  shows "adm_inv mx (remove_reservation i r s)"
proof -
  let ?m = "bt_remove i (ad_reservations s)"
  let ?s = "(account r False s)\<lparr>ad_reservations := ?m\<rparr>"
  have comm: "remove_reservation i r s = ?s"
    unfolding remove_reservation_def by (rule account_reservations)
  have n: "rsv_count P s = rsv_count P ?s + of_bool (P r)" for P
    using bt_sum_remove [of "\<lambda>r. of_bool (P r)" "ad_reservations s" i] r by (simp add: rsv_count_def)
  have c: "count_inv s" "resource_inv s" "cap_inv mx s" "queue_inv s" using inv by (simp_all add: adm_inv_def)
  note k = known_revision [OF c(1) r]
  have "queue_inv ?s" using c(4) by (simp add: queue_inv_reservations queue_inv_account)
  moreover have "count_inv ?s"
    using c(1) k(1) n unfolding count_inv_def
    by (auto simp: account_totals c_dec_def split: if_splits)
  moreover have "resource_inv ?s"
    unfolding resource_inv_def
  proof (clarify)
    fix p m
    assume p: "(p, Some m) \<in> set (dims (ad_capacity ?s))" and m: "m < u64_max"
    then have p': "(p, Some m) \<in> set (dims (ad_capacity s))" by simp
    then have old: "p (ad_reserved s) = held p s" "held p s \<le> m"
      using c(2) m by (auto simp: resource_inv_def)
    have "held p s = held p ?s + (if holds_resources (rsv_state r) then p (rsv_resources r) else 0)"
      using bt_sum_remove [of _ "ad_reservations s" i] r by (simp add: held_def)
    then show "p (ad_reserved ?s) = held p ?s \<and> held p ?s \<le> m"
      using old by (auto simp: account_totals dims_arith [OF p'])
  qed
  moreover have "cap_inv mx ?s"
    using c(3) entries_account [OF c(3)] k unfolding cap_inv_def
    by (auto simp: account_totals c_in_flight_dec intro: le_trans [OF diff_le_self])
  ultimately show ?thesis by (simp add: adm_inv_def comm)
qed

text \<open>Moving a reservation to another state is releasing it and reserving it again.\<close>

lemma adm_inv_move:
  assumes inv: "adm_inv mx s" and r: "bt_get (ad_reservations s) i = Some r"
    and r': "rsv_tenant r' = rsv_tenant r" "rsv_revision r' = rsv_revision r" "rsv_resources r' = rsv_resources r"
    and fits: "holds_resources (rsv_state r') \<Longrightarrow> \<not> holds_resources (rsv_state r)
       \<Longrightarrow> admits (ad_capacity s) (res_plus (ad_reserved s) (rsv_resources r))"
    and room: "rs_in_flight (rsv_state r') \<Longrightarrow> \<not> rs_in_flight (rsv_state r) \<Longrightarrow> room mx r s"
  shows "adm_inv mx ((account r' True (account r False s))\<lparr>ad_reservations := bt_insert i r' (ad_reservations s)\<rparr>)"
    (is "adm_inv mx ?s")
proof -
  let ?a = "account r False s"
  have n: "rsv_count P ?s + of_bool (P r) = rsv_count P s + of_bool (P r')" for P
    using bt_sum_replace [OF r, of "\<lambda>r. of_bool (P r)"] by (simp add: rsv_count_def)
  have c: "count_inv s" "resource_inv s" "cap_inv mx s" "queue_inv s" using inv by (simp_all add: adm_inv_def)
  note k = known_revision [OF c(1) r]
  have cnt: "ad_counts s st = rsv_count (\<lambda>r. rsv_state r = st) s"
    "tn_in_flight s t = rsv_count (\<lambda>r. rsv_tenant r = t \<and> rs_in_flight (rsv_state r)) s"
    "rv_counts s rv st = rsv_count (\<lambda>r. rsv_revision r = rv \<and> rsv_state r = st) s" for st t rv
    using c(1) by (simp_all add: count_inv_def)
  have "queue_inv ?s" using c(4) by (simp add: queue_inv_reservations queue_inv_account)
  moreover have "count_inv ?s"
    unfolding count_inv_def
  proof (intro conjI allI impI)
    fix st show "ad_counts ?s st = rsv_count (\<lambda>r. rsv_state r = st) ?s"
      using n [of "\<lambda>q. rsv_state q = st"] k(2) cnt(1) [of st]
      by (auto simp: account_totals c_inc_def c_dec_def split: if_splits)
  next
    fix t show "tn_in_flight ?s t = rsv_count (\<lambda>r. rsv_tenant r = t \<and> rs_in_flight (rsv_state r)) ?s"
      using n [of "\<lambda>q. rsv_tenant q = t \<and> rs_in_flight (rsv_state q)"] k(4) cnt(2) [of t] r'(1)
      by (auto simp: account_totals split: if_splits)
  next
    fix rv st show "rv_counts ?s rv st = rsv_count (\<lambda>r. rsv_revision r = rv \<and> rsv_state r = st) ?s"
      using n [of "\<lambda>q. rsv_revision q = rv \<and> rsv_state q = st"] k(1,3) cnt(3) [of rv st] r'(2)
      by (cases "rv = rsv_revision r") (auto simp: account_totals c_inc_def c_dec_def split: if_splits)
  next
    fix j q assume "bt_get (ad_reservations ?s) j = Some q"
    then show "j \<le> ad_next_id ?s" using c(1) r by (auto simp: count_inv_def split: if_splits)
  qed
  moreover have "resource_inv ?s"
    unfolding resource_inv_def
  proof (clarify)
    fix p m
    assume p: "(p, Some m) \<in> set (dims (ad_capacity ?s))" and m: "m < u64_max"
    then have p': "(p, Some m) \<in> set (dims (ad_capacity s))" by simp
    then have old: "p (ad_reserved s) = held p s" "held p s \<le> m"
      using c(2) m by (auto simp: resource_inv_def)
    let ?f = "\<lambda>r. if holds_resources (rsv_state r) then p (rsv_resources r) else 0"
    have h: "held p ?s + ?f r = held p s + ?f r'" "?f r \<le> held p s"
      using bt_sum_replace [OF r, of ?f] bt_sum_member [OF r, of ?f] by (simp_all add: held_def)
    show "p (ad_reserved ?s) = held p ?s \<and> held p ?s \<le> m"
    proof (cases "holds_resources (rsv_state r') \<and> \<not> holds_resources (rsv_state r)")
      case True
      then have "p (res_plus (ad_reserved s) (rsv_resources r)) \<le> m"
        using dims_admits [OF fits p'] by simp
      then show ?thesis
        using True h old m r'(3) sat_add64_le [of "held p s" "p (rsv_resources r)" m]
        by (simp add: account_totals dims_arith [OF p'])
    next
      case False
      then show ?thesis
        using h old m r'(3)
        by (auto simp: account_totals dims_arith [OF p'] sat_add64_def split: if_splits)
    qed
  qed
  moreover have "cap_inv mx ?s"
  proof -
    have a: "cap_inv mx ?a"
      using c(3) entries_account [OF c(3)] k unfolding cap_inv_def
      by (auto simp: account_totals c_in_flight_dec intro: le_trans [OF diff_le_self])
    have p: "0 < c_in_flight (ad_counts s) \<and> 0 < c_in_flight (rv_counts s (rsv_revision r))"
      if "rs_in_flight (rsv_state r)"
      using that k(2,3) by (auto simp: c_in_flight_def rs_in_flight_def)
    show ?thesis
      using c(3) a entries_account [OF a, of r' True] k p room r'
      unfolding cap_inv_def room_def
      by (auto simp: account_totals c_in_flight_inc c_in_flight_dec intro: le_trans [OF diff_le_self])
  qed
  ultimately show ?thesis by (simp add: adm_inv_def)
qed

section \<open>The scheduler keeps the invariant\<close>

lemma adm_inv_expire: "adm_inv mx s \<Longrightarrow> adm_inv mx (expire h now s)"
proof -
  have one: "adm_inv mx (expire_one now i s)" if "adm_inv mx s" for i s
  proof -
    have "view (expire_one now i s) = view (snd (remove_waiter i s))"
      by (cases "remove_waiter i s"; cases "fst (remove_waiter i s)")
         (auto simp: expire_one_def view_simps)
    then show ?thesis using adm_inv_view adm_inv_remove_waiter [OF that] by blast
  qed
  have "adm_inv mx (fold (expire_one now) is s)" if "adm_inv mx s" for "is"
    using that by (induction "is" arbitrary: s) (simp_all add: one)
  then show "adm_inv mx s \<Longrightarrow> adm_inv mx (expire h now s)" by (simp add: expire_def)
qed

text \<open>What a grant relies on: the waiter is queued, its revision has room, and for a cold start
  the node has room for its resources too.\<close>

definition grantable :: "(RevisionId \<Rightarrow> nat) \<Rightarrow> WaiterId \<Rightarrow> GrantKind \<Rightarrow> AdmissionState \<Rightarrow> bool" where
  "grantable mx i kind s \<longleftrightarrow>
     (\<exists>t. map_option wt_ticket (bt_get (ad_waiters s) i) = Some t
       \<and> bt_get (ad_revisions s) (tk_revision t) \<noteq> None
       \<and> c_in_flight (ad_counts s) < as_max_concurrency (ad_settings s)
       \<and> (\<forall>m. tq_max_concurrency (quota_for s (tk_tenant t)) = Some m \<longrightarrow> tn_in_flight s (tk_tenant t) < m)
       \<and> c_in_flight (rv_counts s (tk_revision t)) < max (mx (tk_revision t)) 1
       \<and> (kind = GK_Cold \<longrightarrow> admits (ad_capacity s) (res_plus (ad_reserved s) (tk_resources t))))"

lemma grantable_view:
  assumes "view s' = view s"
  shows "grantable mx i kind s' = grantable mx i kind s"
proof -
  note v = view_eqD [OF assms] and t = view_totals [OF assms]
  have r: "bt_get (ad_revisions s') rv = None \<longleftrightarrow> bt_get (ad_revisions s) rv = None" for rv
    using v(10) [of rv]
    by (cases "bt_get (ad_revisions s') rv"; cases "bt_get (ad_revisions s) rv") simp_all
  show ?thesis
    unfolding grantable_def v(1-4,8,12) t(3,5) r ..
qed

lemma evaluate_start_grant:
  "fst (evaluate_start h t now s) = E_Grant kind \<Longrightarrow>
     kind = GK_Cold \<and> admits (ad_capacity s) (res_plus (ad_reserved s) (tk_resources t))"
  by (auto simp: evaluate_start_def Let_def split: prod.splits if_splits)

lemma evaluate_grant:
  assumes "adm_inv mx s" "fst (evaluate h i now nb s) = E_Grant kind"
  shows "grantable mx i kind s"
proof -
  have "bt_get (ad_waiters s) i \<noteq> None" using assms(2) evaluate_decides by blast
  then obtain w where w: "bt_get (ad_waiters s) i = Some w" by blast
  define t where "t = wt_ticket w"
  have "i \<in> wt_of s (tk_tenant t)" using w by (simp add: wt_of_def t_def)
  moreover have "set (tn_queue s (tk_tenant t)) = wt_of s (tk_tenant t)"
    using assms(1) by (simp add: adm_inv_def queue_inv_def)
  ultimately have "tn_queue s (tk_tenant t) \<noteq> []" by auto
  then obtain te where te: "bt_get (ad_tenants s) (tk_tenant t) = Some te"
    by (auto simp: tn_queue_def split: option.splits)
  have quota: "te_quota te = quota_for s (tk_tenant t)" "te_in_flight te = tn_in_flight s (tk_tenant t)"
    using assms(1) te by (auto simp: adm_inv_def cap_inv_def tn_in_flight_def)
  have nodrain: "bt_get (ad_drains s) (tk_revision t) \<noteq> Some DR_FunctionDeleted"
    using assms(2) w by (auto simp: evaluate_def Let_def t_def)
  obtain e where e: "bt_get (ad_revisions s) (tk_revision t) = Some e"
    using assms(2) w nodrain by (cases "bt_get (ad_revisions s) (tk_revision t)")
      (auto simp: evaluate_def Let_def t_def)
  have mx: "re_max_environments e = max (mx (tk_revision t)) 1" "re_counts e = rv_counts s (tk_revision t)"
    using assms(1) e by (auto simp: adm_inv_def cap_inv_def rv_counts_def)
  obtain gate b where g: "cb_gate (re_breaker e) now = (gate, b)" by fastforce
  let ?s1 = "s\<lparr>ad_revisions := bt_insert (tk_revision t) (e\<lparr>re_breaker := b\<rparr>) (ad_revisions s)\<rparr>"
  note ev = assms(2) [unfolded evaluate_def w option.case Let_def t_def [symmetric] te e g prod.case]
  have "gate \<noteq> BG_Reject" using ev nodrain by auto
  moreover from this have "\<not> (opt_is_some_and (\<lambda>m. te_in_flight te \<ge> m) (tq_max_concurrency (te_quota te))
      \<or> c_in_flight (re_counts e) \<ge> re_max_environments e)"
    using ev nodrain by auto
  moreover from calculation have "\<not> c_in_flight (ad_counts s) \<ge> as_max_concurrency (ad_settings s)"
    using ev nodrain by auto
  moreover from calculation have "kind = GK_Warm \<or> fst (evaluate_start h t now ?s1) = E_Grant kind"
    using ev nodrain by (auto split: option.splits if_splits)
  ultimately show ?thesis
    using w e evaluate_start_grant [of h t now ?s1 kind]
    by (auto simp: grantable_def t_def [symmetric] opt_is_some_and_def not_le quota mx)
qed

lemma scan_queue_view:
  "scan_queue h now ids nb s = (d, nb', s') \<Longrightarrow> adm_inv mx s \<Longrightarrow>
     view s' = view s \<and> (\<forall>i kind. d = Some (i, Inr kind) \<longrightarrow> grantable mx i kind s')"
proof (induction ids arbitrary: nb s)
  case (Cons i ids)
  obtain ev s1 where ev: "evaluate h i now nb s = (ev, s1)" by fastforce
  have v1: "view s1 = view s" using view_evaluate [of h i now nb s] ev by simp
  show ?case
  proof (cases ev)
    case (E_Grant kind)
    then have "grantable mx i kind s" using evaluate_grant [OF Cons.prems(2), of h i now nb kind] ev by simp
    then show ?thesis using Cons.prems(1) ev E_Grant grantable_view [OF v1] v1 by auto
  next
    case (E_Blocked reason nw)
    let ?s2 = "note_block i reason s1"
    have v2: "view ?s2 = view s" using v1 by (simp add: view_note_block)
    then have "adm_inv mx ?s2" using Cons.prems(2) adm_inv_view by blast
    then show ?thesis using Cons.IH [of _ ?s2] Cons.prems(1) ev E_Blocked v2 by auto
  qed (use Cons.prems ev v1 in auto)
qed auto

lemma scan_tenants_view:
  "scan_tenants h now ts nb s = (d, s') \<Longrightarrow> adm_inv mx s \<Longrightarrow>
     view s' = view s \<and> (\<forall>i kind. d = Some (i, Inr kind) \<longrightarrow> grantable mx i kind s')"
proof (induction ts arbitrary: nb s)
  case (Cons t ts)
  obtain d1 nb1 s1 where q: "scan_queue h now (te_queue (the (bt_get (ad_tenants s) t))) nb s = (d1, nb1, s1)"
    by (metis prod_cases3)
  note one = scan_queue_view [OF q Cons.prems(2)]
  show ?case
  proof (cases d1)
    case None
    have "adm_inv mx s1" using one Cons.prems(2) adm_inv_view by blast
    then show ?thesis using Cons.IH [of nb1 s1] Cons.prems(1) q None one by auto
  qed (use Cons.prems(1) q one in auto)
qed auto

lemma pump_decision_inv:
  assumes "adm_inv mx s" "pump_decision h now s = (d, s')"
  shows "adm_inv mx s' \<and> (\<forall>i kind. d = Some (i, Inr kind) \<longrightarrow> grantable mx i kind s')"
  using scan_tenants_view [of h now "fair_order (expire h now s)" None "expire h now s" d s' mx]
    adm_inv_expire [OF assms(1), of h now] assms(2) adm_inv_view
  by (auto simp: pump_decision_def Let_def)

lemma adm_inv_tenant_touch:
  assumes "adm_inv mx s" "\<And>e. te_quota (f e) = te_quota e \<and> te_in_flight (f e) = te_in_flight e
     \<and> te_queue (f e) = te_queue e \<and> te_queued_bytes (f e) = te_queued_bytes e"
  shows "adm_inv mx (tenant_entry t f s)"
proof -
  have "tn_queue (tenant_entry t f s) = tn_queue s" "tn_bytes (tenant_entry t f s) = tn_bytes s"
    "tn_in_flight (tenant_entry t f s) = tn_in_flight s"
    using assms(2) by (auto simp: fun_eq_iff tn_queue_def tn_bytes_def tn_in_flight_def tenant_entry_def
        Let_def new_tenant_entry_def split: option.split)
  moreover have "te_quota e = quota_for s t'" if "bt_get (ad_tenants (tenant_entry t f s)) t' = Some e" for t' e
    using that assms by (auto simp: tenant_entry_def Let_def new_tenant_entry_def adm_inv_def cap_inv_def
        split: option.splits if_splits)
  ultimately show ?thesis
    using assms(1) by (auto simp: adm_inv_def queue_inv_def count_inv_def resource_inv_def cap_inv_def)
qed

lemma adm_inv_next_id: "adm_inv mx s \<Longrightarrow> adm_inv mx (next_id s)"
proof -
  assume a: "adm_inv mx s"
  have "tn_queue (next_id s) = tn_queue s" "tn_bytes (next_id s) = tn_bytes s"
    "tn_in_flight (next_id s) = tn_in_flight s" "rv_queued (next_id s) = rv_queued s"
    "rv_counts (next_id s) = rv_counts s" "wt_of (next_id s) = wt_of s" "wt_sum f (next_id s) = wt_sum f s"
    "rsv_count P (next_id s) = rsv_count P s" "held p (next_id s) = held p s"
    "quota_for (next_id s) = quota_for s" for f P p
    by (rule totals_cong; simp add: next_id_def)+
  then show ?thesis
    using a by (auto simp: adm_inv_def queue_inv_def count_inv_def resource_inv_def cap_inv_def next_id_def
        intro: le_SucI)
qed

lemma view_grant_cold:
  assumes "bt_get (ad_revisions s) (tk_revision t) \<noteq> None"
  shows "view (snd (grant_cold h t now s)) = view s"
proof -
  obtain e where e: "bt_get (ad_revisions s) (tk_revision t) = Some e" using assms by blast
  have "view (s\<lparr>ad_bucket := b, ad_revisions := bt_insert (tk_revision t)
      (e\<lparr>re_breaker := b', re_last_scale_up := Some now\<rparr>) (ad_revisions s)\<rparr>) = view s" for b b'
    using e by (simp add: view_def bt_insert_same)
  then show ?thesis
    by (simp add: grant_cold_def Let_def e view_light split: prod.split)
qed

lemma fresh_reservation:
  assumes "adm_inv mx s"
  shows "bt_get (ad_reservations s) (ad_next_id s + 1) = None"
proof (rule ccontr)
  assume "bt_get (ad_reservations s) (ad_next_id s + 1) \<noteq> None"
  then have "ad_next_id s + 1 \<le> ad_next_id s"
    using assms by (auto simp: adm_inv_def count_inv_def)
  then show False by simp
qed

text \<open>Entering a reservation under the next identifier.\<close>

lemma adm_inv_new_reservation:
  assumes "adm_inv mx s" "bt_get (ad_revisions s) (rsv_revision r) \<noteq> None"
    and "holds_resources (rsv_state r) \<Longrightarrow> admits (ad_capacity s) (res_plus (ad_reserved s) (rsv_resources r))"
    and "rs_in_flight (rsv_state r) \<Longrightarrow> room mx r s"
  shows "adm_inv mx (insert_reservation (ad_next_id s + 1) r (next_id s))"
proof (rule adm_inv_insert_reservation)
  show "adm_inv mx (next_id s)" by (rule adm_inv_next_id [OF assms(1)])
  show "bt_get (ad_reservations (next_id s)) (ad_next_id s + 1) = None"
    using fresh_reservation [OF assms(1)] by (simp add: next_id_def)
  have "tn_in_flight (next_id s) = tn_in_flight s" "rv_counts (next_id s) = rv_counts s"
    "quota_for (next_id s) = quota_for s"
    by (rule totals_cong; simp add: next_id_def)+
  then show "rs_in_flight (rsv_state r) \<Longrightarrow> room mx r (next_id s)"
    using assms(4) by (simp add: room_def) (simp add: next_id_def)
qed (use assms in \<open>simp_all add: next_id_def\<close>)

lemma adm_inv_grant:
  assumes "adm_inv mx s0" "grantable mx i kind s0"
  shows "adm_inv mx (grant h i kind now s0)"
proof -
  obtain w where w: "bt_get (ad_waiters s0) i = Some w" using assms(2) by (auto simp: grantable_def)
  let ?t = "wt_ticket w"
  obtain s where rm: "remove_waiter i s0 = (Some w, s)"
    using w by (simp add: remove_waiter_def Let_def)
  then have s: "s = snd (remove_waiter i s0)" by simp
  note eff = remove_waiter_effect [OF w, folded s]
  have inv: "adm_inv mx s" using adm_inv_remove_waiter [OF assms(1)] s by simp
  define s1 where "s1 = s\<lparr>ad_counters := count_grant w kind (ad_counters s)\<rparr>"
  define c where "c = (case kind of GK_Warm \<Rightarrow> (False, s1) | GK_Cold \<Rightarrow> grant_cold h ?t now s1)"
  have known: "bt_get (ad_revisions s) (tk_revision ?t) \<noteq> None"
    using assms(2) w eff(22) [of "tk_revision ?t"] by (simp add: grantable_def)
  then have "view (snd c) = view s"
    by (cases kind) (simp_all add: c_def s1_def view_grant_cold view_light)
  note v = view_eqD [OF this] and tot = view_totals [OF this] and inv2 = adm_inv_view [OF this inv]
  have known2: "bt_get (ad_revisions (snd c)) (tk_revision ?t) \<noteq> None"
    using v(10) [of "tk_revision ?t"] known
    by (cases "bt_get (ad_revisions (snd c)) (tk_revision ?t)") auto
  define r where "r = \<lparr> rsv_tenant = tk_tenant ?t, rsv_revision = tk_revision ?t,
     rsv_resources = tk_resources ?t,
     rsv_state = (case kind of GK_Warm \<Rightarrow> RS_Promised | GK_Cold \<Rightarrow> RS_Starting), rsv_probe = fst c \<rparr>"
  have "adm_inv mx (insert_reservation (ad_next_id (snd c) + 1) r (next_id (snd c)))"
  proof (rule adm_inv_new_reservation [OF inv2])
    show "room mx r (snd c)"
      using assms(2) w by (auto simp: room_def r_def grantable_def v tot eff)
    assume "holds_resources (rsv_state r)"
    then have "kind = GK_Cold" by (cases kind) (simp_all add: r_def holds_resources_def)
    then show "admits (ad_capacity (snd c)) (res_plus (ad_reserved (snd c)) (rsv_resources r))"
      using assms(2) w by (simp add: r_def grantable_def v eff)
  qed (use known2 in \<open>simp add: r_def\<close>)
  moreover have "grant h i kind now s0 =
    (let s4 = insert_reservation (ad_next_id (snd c) + 1) r (next_id (snd c));
         s5 = s4\<lparr>ad_serve_seq := ad_serve_seq s4 + 1\<rparr>
     in push_outcome i (Granted (ad_next_id (snd c) + 1) kind) (tenant_entry (tk_tenant ?t)
          (\<lambda>e. e\<lparr>te_last_served := ad_serve_seq s5, te_grants := te_grants e + 1\<rparr>) s5))"
    by (simp add: grant_def rm Let_def s1_def [symmetric] c_def [symmetric] case_prod_unfold r_def)
       (simp add: next_id_def)
  ultimately show ?thesis
    by (auto simp: Let_def intro!: adm_inv_view [OF view_light(1)] adm_inv_tenant_touch
        adm_inv_view [OF view_light(7)])
qed

lemma adm_inv_pump: "adm_inv mx s \<Longrightarrow> adm_inv mx (pump h now s)"
proof (induction h now s rule: pump.induct)
  case (1 h now s)
  obtain d s' where d: "pump_decision h now s = (d, s')" by fastforce
  note p = pump_decision_inv [OF 1(2) d]
  show ?case
  proof (cases d)
    case None
    then show ?thesis using p d by (simp add: pump.simps)
  next
    case (Some a)
    obtain i x where a: "a = (i, x)" by fastforce
    have "adm_inv mx (pump_apply h now i x s')"
    proof (cases x)
      case (Inl rej)
      then show ?thesis
        using adm_inv_remove_waiter [of mx s' i] p
        by (auto simp: pump_apply_def intro!: adm_inv_view [OF view_light(1)] adm_inv_view [OF view_light(2)])
    next
      case (Inr kind)
      then show ?thesis using p Some a by (simp add: pump_apply_def adm_inv_grant)
    qed
    then show ?thesis using 1(1) d Some a by (subst pump.simps) simp
  qed
qed

end
