(* ===== verification/Admission_Steps.thy ===== *)
theory Admission_Steps
  imports Admission_Ledger
begin

text \<open>
  Every operation of the admission state machine keeps the ledger invariant.  A step is one
  call; the guards are the discipline of the callers (\<open>invoke.rs\<close>, \<open>pool.rs\<close>): tickets carry the
  cap of their revision, the pool parks, publishes and drains environments and not promises,
  and a driver that adopts a pooled environment gives up the in-flight grant it holds for the
  same tenant and revision.
\<close>

section \<open>One lemma per operation\<close>

lemma adm_inv_set_state:
  assumes "adm_inv mx s"
    and fits: "\<And>r. bt_get (ad_reservations s) i = Some r \<Longrightarrow> holds_resources to \<Longrightarrow> holds_resources (rsv_state r)"
    and room: "\<And>r. bt_get (ad_reservations s) i = Some r \<Longrightarrow> rs_in_flight to \<Longrightarrow>
       \<not> rs_in_flight (rsv_state r) \<Longrightarrow> room mx r s"
  shows "adm_inv mx (snd (set_state i to s))"
proof (cases "bt_get (ad_reservations s) i")
  case (Some r)
  have "adm_inv mx ((account (r\<lparr>rsv_state := to\<rparr>) True (account r False s))
      \<lparr>ad_reservations := bt_insert i (r\<lparr>rsv_state := to\<rparr>) (ad_reservations s)\<rparr>)"
    by (rule adm_inv_move [OF assms(1) Some]) (use fits [OF Some] room [OF Some] in auto)
  then show ?thesis using assms(1) Some by (simp add: set_state_def Let_def)
qed (simp add: set_state_def assms(1))

lemma view_abandon_probe: "view (abandon_probe r s) = view s"
  by (simp add: abandon_probe_def view_upd_revision)

lemma adm_inv_refuse:
  assumes "adm_inv mx s"
  shows "adm_inv mx (fold (refuse_waiter rej) is s)"
proof -
  have one: "adm_inv mx (refuse_waiter rej i s)" if "adm_inv mx s" for i s
    using adm_inv_remove_waiter [OF that, of i]
    by (auto simp: refuse_waiter_def intro!: adm_inv_view [OF view_light(1)] adm_inv_view [OF view_light(2)])
  show ?thesis using assms by (induction "is" arbitrary: s) (simp_all add: one)
qed

lemma adm_inv_forget:
  assumes "adm_inv mx s"
  shows "adm_inv mx (forget_revision_if_idle h rv now s)"
proof (cases "bt_get (ad_revisions s) rv")
  case (Some e)
  have keep: "view (s\<lparr>ad_revisions := bt_insert rv (e\<lparr>re_breaker := b\<rparr>) (ad_revisions s)\<rparr>) = view s" for b
    using Some by (intro view_revision) auto
  have gone: "adm_inv mx (s\<lparr>ad_revisions := bt_remove rv (ad_revisions s)\<rparr>)" (is "adm_inv mx ?s")
    if z: "c_is_empty (re_counts e)" "re_queued e = 0"
  proof -
    have "re_counts e = Counts_default"
    proof
      fix st show "re_counts e st = Counts_default st"
        using z(1) by (cases st) (simp_all add: c_is_empty_def Counts_default_def)
    qed
    then have "rv_queued ?s = rv_queued s" "rv_counts ?s = rv_counts s"
      using Some z(2) by (auto simp: fun_eq_iff rv_queued_def rv_counts_def)
    moreover have "tn_queue ?s = tn_queue s" "tn_bytes ?s = tn_bytes s" "tn_in_flight ?s = tn_in_flight s"
      "wt_of ?s = wt_of s" "wt_sum f ?s = wt_sum f s" "rsv_count P ?s = rsv_count P s"
      "held p ?s = held p s" "quota_for ?s = quota_for s" for f P p
      by (rule totals_cong; simp)+
    ultimately show ?thesis
      using assms by (auto simp: adm_inv_def queue_inv_def count_inv_def resource_inv_def cap_inv_def
          split: if_splits)
  qed
  show ?thesis
    using assms Some gone adm_inv_view [OF keep assms]
    by (simp add: forget_revision_if_idle_def Let_def)
qed (simp add: forget_revision_if_idle_def assms)

lemma adm_inv_enqueue:
  assumes "adm_inv mx s" "ticket_ok mx t"
  shows "adm_inv mx (snd (enqueue h t retry now s))"
proof (cases "check_static t now s")
  case (Pair res s1)
  have "view s1 = view s" using view_check_static [of t now s] Pair by simp
  then have s1: "adm_inv mx s1" using assms(1) adm_inv_view by blast
  then have "adm_inv mx (pump h now (add_waiter h t retry now s1))"
    by (intro adm_inv_pump adm_inv_add_waiter assms(2))
  then show ?thesis
    using s1 adm_inv_remove_waiter
    by (cases res) (auto simp: enqueue_def Pair Let_def intro!: adm_inv_view [OF view_light(2)] split: option.split)
qed

lemma adm_inv_release:
  assumes "adm_inv mx s"
  shows "adm_inv mx (release h i now s)"
proof (cases "bt_get (ad_reservations s) i")
  case (Some r)
  let ?s1 = "abandon_probe r (remove_reservation i r s)"
  have "adm_inv mx ?s1"
    using adm_inv_remove_reservation [OF assms Some] adm_inv_view [OF view_abandon_probe] by blast
  then have "adm_inv mx (if q then ?s1\<lparr>ad_eviction_requested := False\<rparr> else ?s1)" for q
    using adm_inv_view [OF view_light(8)] by simp
  then show ?thesis
    by (simp add: release_def Some Let_def adm_inv_pump adm_inv_forget)
qed (simp add: release_def assms adm_inv_pump)

lemma room_view:
  assumes "view s' = view s"
  shows "room mx q s' = room mx q s"
  unfolding room_def view_eqD(1,3,8) [OF assms] view_totals(3,5) [OF assms] ..

lemma room_after_release:
  assumes "adm_inv mx s" "bt_get (ad_reservations s) i = Some r" "rs_in_flight (rsv_state r)"
    and "rsv_tenant q = rsv_tenant r" "rsv_revision q = rsv_revision r"
  shows "room mx q (abandon_probe r (remove_reservation i r s))"
proof -
  have c: "count_inv s" "cap_inv mx s" using assms(1) by (simp_all add: adm_inv_def)
  note k = known_revision [OF c(1) assms(2)]
  have pos: "0 < c_in_flight (ad_counts s)" "0 < c_in_flight (rv_counts s (rsv_revision r))"
    using k(2,3) assms(3) by (auto simp: c_in_flight_def rs_in_flight_def)
  have le: "c_in_flight (ad_counts s) \<le> as_max_concurrency (ad_settings s)"
    "c_in_flight (rv_counts s (rsv_revision r)) \<le> max (mx (rsv_revision r)) 1"
    "\<And>m. tq_max_concurrency (quota_for s (rsv_tenant r)) = Some m \<Longrightarrow> tn_in_flight s (rsv_tenant r) \<le> m"
    using c(2) by (auto simp: cap_inv_def)
  have "room mx q (remove_reservation i r s)"
    unfolding room_def remove_reservation_def
    using pos le k assms(3-5)
    by (auto simp: account_totals c_in_flight_dec)
  then show ?thesis by (simp add: room_view [OF view_abandon_probe])
qed

text \<open>The discipline of \<open>adopt\<close>.\<close>

definition may_adopt :: "AdmissionState \<Rightarrow> ReservationId option \<Rightarrow> ReservationId \<Rightarrow> bool" where
  "may_adopt s holder idle \<longleftrightarrow>
     (case bt_get (ad_reservations s) idle of
        None \<Rightarrow> True
      | Some q \<Rightarrow> rsv_state q \<noteq> RS_Promised \<and>
          (rs_in_flight (rsv_state q) \<or>
           (\<exists>i r. holder = Some i \<and> bt_get (ad_reservations s) i = Some r \<and> rs_in_flight (rsv_state r)
              \<and> rsv_tenant q = rsv_tenant r \<and> rsv_revision q = rsv_revision r)))"

lemma adm_inv_adopt:
  assumes inv: "adm_inv mx s" and ok: "may_adopt s holder idle"
  shows "adm_inv mx (adopt h holder idle now s)"
proof -
  define s1 where "s1 = (case holder of None \<Rightarrow> s | Some i \<Rightarrow>
     if i = idle then s else case bt_get (ad_reservations s) i of
       None \<Rightarrow> s | Some r \<Rightarrow> abandon_probe r (remove_reservation i r s))"
  have s1: "s1 = s \<or> (\<exists>i r. holder = Some i \<and> i \<noteq> idle \<and> bt_get (ad_reservations s) i = Some r
      \<and> s1 = abandon_probe r (remove_reservation i r s))"
    by (auto simp: s1_def split: option.split)
  have rsv: "bt_get (ad_reservations s1) idle = bt_get (ad_reservations s) idle"
    using s1 by (auto simp: abandon_probe_def remove_reservation_def)
  have inv1: "adm_inv mx s1"
    using s1 inv adm_inv_remove_reservation [OF inv] adm_inv_view [OF view_abandon_probe] by blast
  have "adm_inv mx (snd (set_state idle RS_Busy s1))"
  proof (rule adm_inv_set_state [OF inv1])
    fix q assume "bt_get (ad_reservations s1) idle = Some q"
    then have q: "bt_get (ad_reservations s) idle = Some q" by (simp add: rsv)
    then show "holds_resources (rsv_state q)" using ok by (simp add: may_adopt_def holds_resources_def)
    assume n: "\<not> rs_in_flight (rsv_state q)"
    then obtain i r where r: "holder = Some i" "bt_get (ad_reservations s) i = Some r"
      "rs_in_flight (rsv_state r)" "rsv_tenant q = rsv_tenant r" "rsv_revision q = rsv_revision r"
      using ok q by (auto simp: may_adopt_def)
    then have "i \<noteq> idle" using q n by auto
    then have "s1 = abandon_probe r (remove_reservation i r s)" using r by (simp add: s1_def)
    then show "room mx q s1" using room_after_release [OF inv r(2-5)] by simp
  qed
  then show ?thesis by (simp add: adopt_def Let_def s1_def [symmetric] adm_inv_pump)
qed

lemma adm_inv_redeem:
  assumes "adm_inv mx s"
  shows "adm_inv mx (snd (redeem h i now s))"
proof (cases "bt_get (ad_reservations s) i")
  case (Some r)
  have c: "count_inv s" using assms by (simp add: adm_inv_def)
  obtain e where e: "bt_get (ad_revisions s) (rsv_revision r) = Some e"
    using known_revision(1) [OF c Some] by blast
  obtain gate b where g: "cb_gate (re_breaker e) now = (gate, b)" by fastforce
  define s1 where "s1 = s\<lparr>ad_revisions := bt_insert (rsv_revision r) (e\<lparr>re_breaker := b\<rparr>) (ad_revisions s)\<rparr>"
  define allowed where "allowed \<longleftrightarrow> admits (ad_capacity s) (res_plus (ad_reserved s) (rsv_resources r))
     \<and> (gate = BG_Allow \<or> gate = BG_Probe)"
  obtain took bucket where tk: "(if allowed then tb_take (host_fpu h) (ad_bucket s1) now
      else (False, ad_bucket s1)) = (took, bucket)" by fastforce
  define s2 where "s2 = s1\<lparr>ad_bucket := bucket\<rparr>"
  define e' where "e' = e\<lparr>re_breaker := (if gate = BG_Probe then cb_probe_started b else b),
     re_last_scale_up := Some now\<rparr>"
  define s4 where "s4 = record_scale h (rsv_revision r) ''scale_up'' ''promised_environment_gone'' now
     (s2\<lparr>ad_revisions := bt_insert (rsv_revision r) e' (ad_revisions s2)\<rparr>)"
  define r' where "r' = r\<lparr>rsv_state := RS_Starting, rsv_probe := (gate = BG_Probe)\<rparr>"
  have v1: "view s1 = view s" using e unfolding s1_def by (intro view_revision) auto
  have v2: "view s2 = view s" using v1 by (simp add: s2_def view_light)
  have "bt_get (ad_revisions s2) (rsv_revision r) = Some (e\<lparr>re_breaker := b\<rparr>)"
    by (simp add: s2_def s1_def)
  then have "view (s2\<lparr>ad_revisions := bt_insert (rsv_revision r) e' (ad_revisions s2)\<rparr>) = view s2"
    by (rule view_revision) (simp_all add: e'_def)
  then have v4: "view s4 = view s" using v2 by (simp add: s4_def view_light)
  have inv2: "adm_inv mx s2" and inv4: "adm_inv mx s4"
    using adm_inv_view [OF v2 assms] adm_inv_view [OF v4 assms] .
  have r4: "ad_reservations s4 = ad_reservations s" by (simp add: s4_def s2_def s1_def)
  have conv: "adm_inv mx ((account r' True (account r False s4))
      \<lparr>ad_reservations := bt_insert i r' (ad_reservations s4)\<rparr>)"
    if "allowed" "rsv_state r = RS_Promised"
  proof (rule adm_inv_move [OF inv4])
    show "bt_get (ad_reservations s4) i = Some r" using Some r4 by simp
    show "admits (ad_capacity s4) (res_plus (ad_reserved s4) (rsv_resources r))"
      using that(1) view_eqD(2,4) [OF v4] by (simp add: allowed_def)
    show "room mx r s4" if "\<not> rs_in_flight (rsv_state r)"
      using that \<open>rsv_state r = RS_Promised\<close> by (simp add: rs_in_flight_def)
  qed (simp_all add: r'_def)
  have "redeem h i now s =
    (if rsv_state r \<noteq> RS_Promised then (rsv_state r = RS_Starting, s)
     else if allowed \<and> took
     then (True, (account r' True (account r False s4))
             \<lparr>ad_reservations := bt_insert i r' (ad_reservations s4)\<rparr>)
     else (False, release h i now s2))"
    unfolding redeem_def Some option.case Let_def e g prod.case tk [unfolded allowed_def s1_def]
      s4_def s2_def e'_def r'_def s1_def allowed_def
    by (simp only: account_sel)
  then show ?thesis using conv adm_inv_release [OF inv2] assms by simp
qed (simp add: redeem_def assms)

lemma adm_inv_start_result:
  assumes "adm_inv mx s"
  shows "adm_inv mx (start_result h i ok now s)"
proof (cases "bt_get (ad_reservations s) i")
  case (Some r)
  define s1 where "s1 = s\<lparr>ad_reservations := bt_insert i (r\<lparr>rsv_probe := False\<rparr>) (ad_reservations s),
     ad_counters := (if ok
       then (ad_counters s)\<lparr>ac_start_successes := ac_start_successes (ad_counters s) + 1\<rparr>
       else (ad_counters s)\<lparr>ac_start_failures := ac_start_failures (ad_counters s) + 1\<rparr>)\<rparr>"
  have "view s1 = view s" using Some by (simp add: s1_def view_def bt_insert_same strip_def)
  then have inv1: "adm_inv mx s1" using assms adm_inv_view by blast
  have upd: "adm_inv mx (s1\<lparr>ad_revisions := bt_insert rv (e\<lparr>re_breaker := b\<rparr>) (ad_revisions s1)\<rparr>)"
    if "bt_get (ad_revisions s1) rv = Some e" for rv e b
    by (rule adm_inv_view [OF view_revision [OF that] inv1]) simp_all
  have start: "start_result h i ok now s =
    (case bt_get (ad_revisions s1) (rsv_revision r) of
       None \<Rightarrow> s1
     | Some e \<Rightarrow>
         if ok then pump h now (s1\<lparr>ad_revisions := bt_insert (rsv_revision r)
                (e\<lparr>re_breaker := cb_record_success (re_breaker e)\<rparr>) (ad_revisions s1)\<rparr>)
         else let (opened, b) = cb_record_failure (re_breaker e) now;
                  s2 = s1\<lparr>ad_revisions := bt_insert (rsv_revision r) (e\<lparr>re_breaker := b\<rparr>) (ad_revisions s1)\<rparr>
              in pump h now
                   (if opened
                    then fold (refuse_waiter (circuit_open (rsv_revision r))) (doomed_waiters h (rsv_revision r) s2)
                           (s2\<lparr>ad_counters := (ad_counters s2)
                              \<lparr>ac_breaker_opens := ac_breaker_opens (ad_counters s2) + 1\<rparr>\<rparr>)
                    else s2))"
    unfolding start_result_def Some option.case Let_def s1_def by (rule refl)
  show ?thesis
  proof (cases "bt_get (ad_revisions s1) (rsv_revision r)")
    case None
    then show ?thesis using start inv1 by simp
  next
    case e: (Some e)
    show ?thesis
      unfolding start e option.case Let_def case_prod_unfold
      using upd [OF e]
      by (auto intro!: adm_inv_pump adm_inv_refuse adm_inv_view [OF view_light(5)])
  qed
qed (simp add: start_result_def assms)

lemma adm_inv_begin_drain:
  assumes "adm_inv mx s"
  shows "adm_inv mx (snd (begin_drain h rv reason now s))"
proof -
  have "adm_inv mx (s\<lparr>ad_drains := d\<rparr>)" for d
    by (rule adm_inv_view [OF view_light(11) assms])
  then show ?thesis
    by (auto simp: begin_drain_def Let_def intro!: adm_inv_pump adm_inv_refuse adm_inv_view [OF view_light(3)])
qed

lemma adm_inv_try_scale_down:
  assumes "adm_inv mx s"
  shows "adm_inv mx (snd (try_scale_down h i how now s))"
proof -
  have "adm_inv mx (snd (set_state i RS_Draining s))"
    if "bt_get (ad_reservations s) i = Some r" "rsv_state r = RS_Idle" for r
    using that by (intro adm_inv_set_state [OF assms]) (auto simp: holds_resources_def rs_in_flight_def)
  then show ?thesis
    using assms
    by (auto simp: try_scale_down_def Let_def intro!: adm_inv_view [OF view_light(3)] split: option.split sum.split)
qed

lemma adm_inv_revision_entry:
  assumes "adm_inv mx s" "ticket_ok mx t"
  shows "adm_inv mx (revision_entry t (\<lambda>e. e) s)"
proof -
  let ?s = "revision_entry t (\<lambda>e. e) s"
  have "rv_queued ?s = rv_queued s" "rv_counts ?s = rv_counts s"
    by (auto simp: fun_eq_iff rv_queued_def rv_counts_def revision_entry_def Let_def refreshed_entry_def
        new_revision_entry_def split: option.split)
  moreover have "tn_queue ?s = tn_queue s" "tn_bytes ?s = tn_bytes s" "tn_in_flight ?s = tn_in_flight s"
    "wt_of ?s = wt_of s" "wt_sum f ?s = wt_sum f s" "rsv_count P ?s = rsv_count P s"
    "held p ?s = held p s" "quota_for ?s = quota_for s" for f P p
    by (rule totals_cong; simp add: revision_entry_def Let_def)+
  moreover have "re_max_environments e = max (mx rv) 1" if "bt_get (ad_revisions ?s) rv = Some e" for rv e
    using that assms by (auto simp: revision_entry_def Let_def refreshed_entry_def adm_inv_def cap_inv_def
        ticket_ok_def split: if_splits)
  ultimately show ?thesis
    using assms(1) by (auto simp: adm_inv_def queue_inv_def count_inv_def resource_inv_def cap_inv_def
        revision_entry_def Let_def)
qed

lemma adm_inv_settle:
  assumes "adm_inv mx s" "\<not> rs_in_flight to"
    and "map_option rsv_state (bt_get (ad_reservations s) i) \<noteq> Some RS_Promised"
  shows "adm_inv mx (pump h now (snd (set_state i to s)))"
  using assms
  by (intro adm_inv_pump adm_inv_set_state) (auto simp: holds_resources_def)

lemma adm_inv_ready: "adm_inv mx s \<Longrightarrow> adm_inv mx (ready i s)"
  by (auto simp: ready_def holds_resources_def rs_in_flight_def intro!: adm_inv_set_state)

lemma revision_entry_known: "bt_get (ad_revisions (revision_entry t f s)) (tk_revision t) \<noteq> None"
  by (simp add: revision_entry_def Let_def)

lemma revision_entry_same [simp]:
  "ad_settings (revision_entry t f s) = ad_settings s" "ad_counts (revision_entry t f s) = ad_counts s"
  "ad_capacity (revision_entry t f s) = ad_capacity s" "ad_reserved (revision_entry t f s) = ad_reserved s"
  "ad_tenants (revision_entry t f s) = ad_tenants s"
  "ad_tenant_quotas (revision_entry t f s) = ad_tenant_quotas s"
  by (simp_all add: revision_entry_def Let_def)

lemma adm_inv_prestart_reservation:
  assumes "adm_inv mx s" "bt_get (ad_revisions s) (tk_revision t) = Some e"
    and "c_in_flight (ad_counts s) < as_max_concurrency (ad_settings s)"
    and "\<not> opt_is_some_and (\<lambda>m. tn_in_flight s (tk_tenant t) \<ge> m)
           (tq_max_concurrency (quota_for s (tk_tenant t)))"
    and "c_in_flight (re_counts e) < re_max_environments e"
    and "admits (ad_capacity s) (res_plus (ad_reserved s) (tk_resources t))"
  shows "adm_inv mx (insert_reservation (ad_next_id s + 1)
     \<lparr> rsv_tenant = tk_tenant t, rsv_revision = tk_revision t, rsv_resources = tk_resources t,
       rsv_state = RS_Starting, rsv_probe = False \<rparr> (next_id s))"
proof (rule adm_inv_new_reservation [OF assms(1)])
  have "re_max_environments e = max (mx (tk_revision t)) 1"
    using assms(1,2) by (simp add: adm_inv_def cap_inv_def)
  then show "room mx \<lparr> rsv_tenant = tk_tenant t, rsv_revision = tk_revision t,
      rsv_resources = tk_resources t, rsv_state = RS_Starting, rsv_probe = False \<rparr> s"
    using assms(2-5) by (auto simp: room_def rv_counts_def not_le)
qed (use assms in simp_all)

lemma adm_inv_try_prestart:
  assumes "adm_inv mx s0" "ticket_ok mx t"
  shows "adm_inv mx (snd (try_prestart h t now s0))"
proof (cases "check_static t now s0")
  case (Pair res s)
  have "view s = view s0" using view_check_static [of t now s0] Pair by simp
  then have inv: "adm_inv mx s" using assms(1) adm_inv_view by blast
  obtain ok bucket where bk: "tb_available (host_fpu h) (ad_bucket s) now = (ok, bucket)" by fastforce
  define s1 where "s1 = revision_entry t (\<lambda>e. e) (s\<lparr>ad_bucket := bucket\<rparr>)"
  have inv1: "adm_inv mx s1"
    unfolding s1_def by (intro adm_inv_revision_entry adm_inv_view [OF view_light(4) inv] assms(2))
  obtain e where e: "bt_get (ad_revisions s1) (tk_revision t) = Some e"
    using revision_entry_known by (fastforce simp: s1_def)
  obtain gate b where g: "cb_gate (re_breaker e) now = (gate, b)" by fastforce
  define e' where "e' = e\<lparr>re_breaker := b\<rparr>"
  define s2 where "s2 = s1\<lparr>ad_revisions := bt_insert (tk_revision t) e' (ad_revisions s1)\<rparr>"
  define s3 where "s3 = s2\<lparr>ad_revisions := bt_insert (tk_revision t) (e'\<lparr>re_last_scale_up := Some now\<rparr>)
     (ad_revisions s2), ad_bucket := snd (tb_take (host_fpu h) (ad_bucket s2) now)\<rparr>"
  have v2: "view s2 = view s1" unfolding s2_def by (rule view_revision [OF e]) (simp_all add: e'_def)
  have e2: "bt_get (ad_revisions s2) (tk_revision t) = Some e'" by (simp add: s2_def)
  have v3: "view s3 = view s1"
    unfolding s3_def using view_revision [OF e2, of "e'\<lparr>re_last_scale_up := Some now\<rparr>"] v2
    by (simp add: view_light)
  have inv2: "adm_inv mx s2" and inv3: "adm_inv mx s3"
    using adm_inv_view [OF v2 inv1] adm_inv_view [OF v3 inv1] .
  have e3: "bt_get (ad_revisions s3) (tk_revision t) = Some (e'\<lparr>re_last_scale_up := Some now\<rparr>)"
    by (simp add: s3_def)
  have same: "ad_settings s3 = ad_settings s" "ad_counts s3 = ad_counts s" "ad_capacity s3 = ad_capacity s"
    "ad_reserved s3 = ad_reserved s" "tn_in_flight s3 = tn_in_flight s" "quota_for s3 = quota_for s"
    by (simp_all add: s3_def s2_def s1_def fun_eq_iff tn_in_flight_def quota_for_def split: option.split)
  note new = adm_inv_prestart_reservation [OF inv3 e3, unfolded same]
  show ?thesis
  proof (cases res)
    case Inl then show ?thesis using inv by (simp add: try_prestart_def Pair)
  next
    case Inr
    show ?thesis
      unfolding try_prestart_def Pair Inr prod.case sum.case Let_def bk s1_def [symmetric] e option.sel g
        e'_def [symmetric] s2_def [symmetric] s3_def [symmetric]
      using inv inv1 inv2 new
      by (auto simp: next_id_def tn_in_flight_def [symmetric] e'_def not_le
          intro!: adm_inv_view [OF view_light(3)])
  qed
qed

section \<open>The state machine\<close>

text \<open>One call of the state machine.  \<open>mx\<close> is the \<open>execution.max_concurrency\<close> of each revision.\<close>

inductive adm_step :: "host \<Rightarrow> (RevisionId \<Rightarrow> nat) \<Rightarrow> AdmissionState \<Rightarrow> AdmissionState \<Rightarrow> bool"
  for h mx where
  step_precheck: "adm_step h mx s (snd (precheck t now s))"
| step_enqueue: "ticket_ok mx t \<Longrightarrow> adm_step h mx s (snd (enqueue h t retry now s))"
| step_pump: "adm_step h mx s (pump h now s)"
| step_withdraw: "adm_step h mx s (snd (withdraw w s))"
| step_take_outbox: "adm_step h mx s (snd (take_outbox s))"
| step_take_evictions: "adm_step h mx s (snd (take_evictions s))"
| step_ready: "adm_step h mx s (ready i s)"
| step_park: "map_option rsv_state (bt_get (ad_reservations s) i) \<noteq> Some RS_Promised
    \<Longrightarrow> adm_step h mx s (park h i now s)"
| step_parked: "map_option rsv_state (bt_get (ad_reservations s) i) \<noteq> Some RS_Promised
    \<Longrightarrow> adm_step h mx s (parked h i now s)"
| step_drain: "map_option rsv_state (bt_get (ad_reservations s) i) \<noteq> Some RS_Promised
    \<Longrightarrow> adm_step h mx s (drain h i now s)"
| step_release: "adm_step h mx s (release h i now s)"
| step_adopt: "may_adopt s holder idle \<Longrightarrow> adm_step h mx s (adopt h holder idle now s)"
| step_redeem: "adm_step h mx s (snd (redeem h i now s))"
| step_start_result: "adm_step h mx s (start_result h i ok now s)"
| step_observe: "adm_step h mx s (observe_duration h rv secs s)"
| step_set_routed: "adm_step h mx s (set_routed rs s)"
| step_begin_drain: "adm_step h mx s (snd (begin_drain h rv reason now s))"
| step_end_drain: "adm_step h mx s (snd (end_drain rv s))"
| step_forget_drain: "adm_step h mx s (forget_drain rv s)"
| step_scale_down: "adm_step h mx s (snd (try_scale_down h i how now s))"
| step_prestart: "ticket_ok mx t \<Longrightarrow> adm_step h mx s (snd (try_prestart h t now s))"

inductive adm_reach :: "host \<Rightarrow> (RevisionId \<Rightarrow> nat) \<Rightarrow> AdmissionSettings \<Rightarrow> AdmissionState \<Rightarrow> bool"
  for h mx settings where
  reach_new: "adm_reach h mx settings (adm_new settings)"
| reach_step: "adm_reach h mx settings s \<Longrightarrow> adm_step h mx s s' \<Longrightarrow> adm_reach h mx settings s'"

lemma adm_inv_new: "adm_inv mx (adm_new settings)"
  by (auto simp: adm_inv_def queue_inv_def count_inv_def resource_inv_def cap_inv_def adm_new_def Let_def
      tn_queue_def tn_bytes_def tn_in_flight_def rv_queued_def rv_counts_def wt_of_def wt_sum_def
      rsv_count_def held_def dims_def Counts_default_def c_in_flight_def Resources_ZERO_def)

lemma adm_inv_step:
  assumes "adm_step h mx s s'" "adm_inv mx s"
  shows "adm_inv mx s'"
  using assms
proof (cases rule: adm_step.cases)
  case (step_precheck t now)
  have "adm_inv mx (snd (check_static t now s))" by (rule adm_inv_view [OF view_check_static assms(2)])
  then show ?thesis unfolding step_precheck precheck_def
    by (auto simp: case_prod_unfold intro!: adm_inv_view [OF view_light(2)] split: sum.split)
next
  case (step_withdraw w)
  then show ?thesis using adm_inv_remove_waiter [OF assms(2)] by (simp add: withdraw_def case_prod_unfold Let_def)
next
  case (step_observe rv secs)
  then show ?thesis
    unfolding step_observe observe_duration_def
    by (intro adm_inv_view [OF view_upd_revision assms(2)]) simp
qed (use assms(2) in \<open>simp_all add: park_def parked_def drain_def take_outbox_def take_evictions_def
    set_routed_def end_drain_def forget_drain_def adm_inv_pump adm_inv_ready adm_inv_enqueue
    adm_inv_release adm_inv_adopt adm_inv_redeem adm_inv_start_result adm_inv_begin_drain
    adm_inv_try_scale_down adm_inv_try_prestart adm_inv_settle rs_in_flight_def
    adm_inv_view [OF view_light(6)] adm_inv_view [OF view_light(9)] adm_inv_view [OF view_light(10)]
    adm_inv_view [OF view_light(11)]\<close>)

lemma adm_reach_inv: "adm_reach h mx settings s \<Longrightarrow> adm_inv mx s"
  by (induction rule: adm_reach.induct) (simp_all add: adm_inv_new adm_inv_step)

end
