(* ===== verification/Admission_Outcomes.thy ===== *)
theory Admission_Outcomes
  imports Admission_Steps
begin

text \<open>
  What happens to a waiter.  Every waiter the scheduler takes out of the queue gets exactly one
  outcome in the outbox, grants go only to waiters that are still in time and whose function is
  not being deleted, and a revision whose function is being deleted never has a waiter.
\<close>

section \<open>Waiters by their ticket\<close>

definition tix :: "AdmissionState \<Rightarrow> WaiterId \<Rightarrow> Ticket option" where
  "tix s i = map_option wt_ticket (bt_get (ad_waiters s) i)"

text \<open>The iteration order of a \<open>HashMap\<close> is arbitrary; it visits every key, each once.\<close>

definition visits_all :: "host \<Rightarrow> bool" where
  "visits_all h \<longleftrightarrow> (\<forall>ks. set (waiter_order h ks) = set ks \<and> (distinct ks \<longrightarrow> distinct (waiter_order h ks)))"

text \<open>What no decision of the scheduler touches: the configuration and the drains.\<close>

definition frame :: "AdmissionState \<Rightarrow> AdmissionState \<Rightarrow> bool" where
  "frame s s' \<longleftrightarrow> ad_settings s' = ad_settings s \<and> ad_capacity s' = ad_capacity s
     \<and> ad_tenant_quotas s' = ad_tenant_quotas s \<and> ad_drains s' = ad_drains s"

definition quiet :: "AdmissionState \<Rightarrow> AdmissionState \<Rightarrow> bool" where
  "quiet s s' \<longleftrightarrow> tix s' = tix s \<and> ad_outbox s' = ad_outbox s \<and> frame s s'"

definition may_grant :: "Timestamp \<Rightarrow> AdmissionState \<Rightarrow> WaiterId \<Rightarrow> bool" where
  "may_grant now s i \<longleftrightarrow> (\<exists>t. tix s i = Some t \<and> now < tk_deadline t
     \<and> bt_get (ad_drains s) (tk_revision t) \<noteq> Some DR_FunctionDeleted)"

definition delivers :: "Timestamp \<Rightarrow> AdmissionState \<Rightarrow> AdmissionState \<Rightarrow> bool" where
  "delivers now s s' \<longleftrightarrow> frame s s' \<and>
     (\<exists>outs. ad_outbox s' = ad_outbox s @ outs \<and> distinct (map fst outs)
        \<and> set (map fst outs) \<subseteq> dom (tix s) \<and> tix s' = tix s |` (- set (map fst outs))
        \<and> (\<forall>i rid k. (i, Granted rid k) \<in> set outs \<longrightarrow> may_grant now s i))"

lemma frame_trans: "frame a b \<Longrightarrow> frame b c \<Longrightarrow> frame a c" by (simp add: frame_def)

lemma frame_drains: "frame s s' \<Longrightarrow> ad_drains s' = ad_drains s" by (simp add: frame_def)

lemma quiet_refl [simp]: "quiet s s" by (simp add: quiet_def frame_def)

lemma quiet_trans: "quiet a b \<Longrightarrow> quiet b c \<Longrightarrow> quiet a c"
  using frame_trans by (auto simp: quiet_def)

lemma quiet_sel:
  "ad_waiters s' = ad_waiters s \<Longrightarrow> ad_outbox s' = ad_outbox s \<Longrightarrow> ad_drains s' = ad_drains s
   \<Longrightarrow> ad_settings s' = ad_settings s \<Longrightarrow> ad_capacity s' = ad_capacity s
   \<Longrightarrow> ad_tenant_quotas s' = ad_tenant_quotas s \<Longrightarrow> quiet s s'"
  by (simp add: quiet_def frame_def tix_def fun_eq_iff)

lemma quiet_delivers: "quiet s s' \<Longrightarrow> delivers now s s'"
  by (simp add: quiet_def delivers_def restrict_map_def)

lemma delivers_trans:
  assumes "delivers now a b" "delivers now b c"
  shows "delivers now a c"
proof -
  obtain xs where x: "ad_outbox b = ad_outbox a @ xs" "distinct (map fst xs)"
    "set (map fst xs) \<subseteq> dom (tix a)" "tix b = tix a |` (- set (map fst xs))"
    "\<forall>i rid k. (i, Granted rid k) \<in> set xs \<longrightarrow> may_grant now a i" "frame a b"
    using assms(1) unfolding delivers_def by blast
  obtain ys where y: "ad_outbox c = ad_outbox b @ ys" "distinct (map fst ys)"
    "set (map fst ys) \<subseteq> dom (tix b)" "tix c = tix b |` (- set (map fst ys))"
    "\<forall>i rid k. (i, Granted rid k) \<in> set ys \<longrightarrow> may_grant now b i" "frame b c"
    using assms(2) unfolding delivers_def by blast
  have dom: "dom (tix b) = dom (tix a) - set (map fst xs)" by (auto simp: x(4))
  then have "distinct (map fst (xs @ ys))" using x(2) y(2,3) by auto
  moreover have "set (map fst (xs @ ys)) \<subseteq> dom (tix a)" using x(3) y(3) dom by auto
  moreover have "tix c = tix a |` (- set (map fst (xs @ ys)))"
    by (simp add: y(4) x(4) Compl_Un)
  moreover have "may_grant now a i" if "may_grant now b i" for i
    using that frame_drains [OF x(6)] by (auto simp: may_grant_def x(4) restrict_map_def split: if_splits)
  then have "\<forall>i rid k. (i, Granted rid k) \<in> set (xs @ ys) \<longrightarrow> may_grant now a i"
    using x(5) y(5) by (metis Un_iff set_append)
  ultimately show ?thesis
    unfolding delivers_def using x(1) y(1) frame_trans [OF x(6) y(6)]
    by (intro conjI exI [of _ "xs @ ys"]) simp_all
qed

lemma delivers_one:
  assumes "frame s s'" "ad_outbox s' = ad_outbox s @ [(i, out)]"
    and "ad_waiters s' = bt_remove i (ad_waiters s)" "bt_get (ad_waiters s) i \<noteq> None"
    and "\<And>rid k. out = Granted rid k \<Longrightarrow> may_grant now s i"
  shows "delivers now s s'"
proof -
  have "tix s' = tix s |` (- {i})" by (auto simp: tix_def assms(3) restrict_map_def)
  moreover have "i \<in> dom (tix s)" using assms(4) by (auto simp: tix_def)
  ultimately show ?thesis
    unfolding delivers_def using assms(1,2,5) by (intro conjI exI [of _ "[(i, out)]"]) auto
qed

section \<open>The pieces of the scheduler\<close>

lemma remove_waiter_sel [simp]:
  "ad_outbox (snd (remove_waiter i s)) = ad_outbox s" "ad_drains (snd (remove_waiter i s)) = ad_drains s"
  "ad_settings (snd (remove_waiter i s)) = ad_settings s" "ad_capacity (snd (remove_waiter i s)) = ad_capacity s"
  "ad_tenant_quotas (snd (remove_waiter i s)) = ad_tenant_quotas s"
  by (simp_all add: remove_waiter_def Let_def split: option.split)

lemma reject_one:
  assumes "bt_get (ad_waiters s) i \<noteq> None"
  shows "delivers now s (push_outcome i (Rejected r) (reject_count why (snd (remove_waiter i s))))"
  using assms by (intro delivers_one [where i = i and out = "Rejected r"]) (simp_all add: light_defs frame_def)

lemma delivers_expire_one: "delivers now s (expire_one late i s)"
proof (cases "remove_waiter i s")
  case (Pair w s')
  show ?thesis
  proof (cases w)
    case None
    then have "s' = s" using Pair remove_waiter_None [of i s] by (simp add: remove_waiter_def Let_def split: option.splits)
    then show ?thesis using None Pair by (simp add: expire_one_def quiet_delivers)
  next
    case (Some a)
    then have "bt_get (ad_waiters s) i \<noteq> None" using Pair remove_waiter_None [of i s] by simp
    from reject_one [OF this] show ?thesis using Some Pair by (simp add: expire_one_def)
  qed
qed

lemma delivers_fold:
  assumes "\<And>i s. delivers now s (f i s)"
  shows "delivers now s (fold f is s)"
proof (induction "is" arbitrary: s)
  case (Cons i "is")
  show ?case using delivers_trans [OF assms Cons.IH] by simp
qed (simp add: quiet_delivers)

lemma fold_expire_waiters:
  "bt_get (ad_waiters (fold (expire_one now) is s)) j = (if j \<in> set is then None else bt_get (ad_waiters s) j)"
  by (induction "is" arbitrary: s) auto

lemma delivers_expire: "delivers now s (expire h now s)"
  unfolding expire_def by (intro delivers_fold delivers_expire_one)

lemma expire_in_time:
  assumes "visits_all h" "tix (expire h now s) i = Some t"
  shows "now < tk_deadline t"
proof -
  obtain w where w: "bt_get (ad_waiters s) i = Some w" "i \<notin> set (expired_waiters h now s)" "wt_ticket w = t"
    using assms(2) by (auto simp: tix_def expire_def fold_expire_waiters split: if_splits)
  then show ?thesis using assms(1) by (auto simp: expired_waiters_def visits_all_def bt_keys_iff)
qed

lemma evaluate_start_sel:
  "ad_waiters (snd (evaluate_start h t now s)) = ad_waiters s"
  "ad_outbox (snd (evaluate_start h t now s)) = ad_outbox s"
  "ad_drains (snd (evaluate_start h t now s)) = ad_drains s"
  "ad_settings (snd (evaluate_start h t now s)) = ad_settings s"
  "ad_capacity (snd (evaluate_start h t now s)) = ad_capacity s"
  "ad_tenant_quotas (snd (evaluate_start h t now s)) = ad_tenant_quotas s"
  by (simp_all add: evaluate_start_def Let_def split: prod.split)

lemma quiet_evaluate: "quiet s (snd (evaluate h i now nb s))"
  by (intro quiet_sel)
     (simp_all add: evaluate_def Let_def case_prod_unfold evaluate_start_sel split: option.split)

lemma quiet_note_block: "quiet s (note_block i reason s)"
  by (auto simp: quiet_def frame_def note_block_def tix_def fun_eq_iff split: option.split)

lemma evaluate_grants:
  assumes "evaluate h i now nb s = (E_Grant k, s')"
  shows "\<exists>t. tix s i = Some t \<and> bt_get (ad_drains s) (tk_revision t) \<noteq> Some DR_FunctionDeleted"
  using assms by (auto simp: evaluate_def tix_def Let_def split: option.splits if_splits)

definition grants_well :: "AdmissionState \<Rightarrow> decision \<Rightarrow> bool" where
  "grants_well s d \<longleftrightarrow> (\<forall>i k. d = Some (i, Inr k) \<longrightarrow>
     (\<exists>t. tix s i = Some t \<and> bt_get (ad_drains s) (tk_revision t) \<noteq> Some DR_FunctionDeleted))"

lemma scan_queue_quiet:
  "scan_queue h now ids nb s = (d, nb', s') \<Longrightarrow> quiet s s' \<and> grants_well s d"
proof (induction ids arbitrary: nb s)
  case (Cons i ids)
  obtain ev s1 where ev: "evaluate h i now nb s = (ev, s1)" by fastforce
  have q: "quiet s s1" using quiet_evaluate [of s h i now nb] ev by simp
  show ?case
  proof (cases ev)
    case (E_Blocked reason nw)
    then have "quiet (note_block i reason s1) s'" "grants_well (note_block i reason s1) d"
      using Cons.IH [of _ "note_block i reason s1"] Cons.prems ev by auto
    moreover have "quiet s (note_block i reason s1)" by (rule quiet_trans [OF q quiet_note_block])
    ultimately show ?thesis by (auto simp: quiet_def frame_def grants_well_def)
  qed (use Cons.prems ev q evaluate_grants [of h i now nb s] in \<open>auto simp: grants_well_def\<close>)
qed (simp add: grants_well_def)

lemma scan_tenants_quiet:
  "scan_tenants h now ts nb s = (d, s') \<Longrightarrow> quiet s s' \<and> grants_well s d"
proof (induction ts arbitrary: nb s)
  case (Cons t ts)
  obtain d1 nb1 s1 where q: "scan_queue h now (te_queue (the (bt_get (ad_tenants s) t))) nb s = (d1, nb1, s1)"
    by (metis prod_cases3)
  note one = scan_queue_quiet [OF q]
  show ?case
    using Cons.IH [of nb1 s1] Cons.prems one by (cases d1) (auto simp: q quiet_def frame_def grants_well_def)
qed (simp add: grants_well_def)

lemma grant_sel:
  assumes "bt_get (ad_waiters s) i \<noteq> None"
  shows "frame s (grant h i kind now s)"
    and "\<exists>rid. ad_outbox (grant h i kind now s) = ad_outbox s @ [(i, Granted rid kind)]"
proof -
  obtain w s1 where rm: "remove_waiter i s = (Some w, s1)"
    using assms remove_waiter_None [of i s] by (cases "remove_waiter i s") (auto simp: remove_waiter_None)
  have same: "ad_drains s1 = ad_drains s" "ad_outbox s1 = ad_outbox s" "ad_settings s1 = ad_settings s"
    "ad_capacity s1 = ad_capacity s" "ad_tenant_quotas s1 = ad_tenant_quotas s"
    using remove_waiter_sel [of i s] by (simp_all add: rm)
  show "frame s (grant h i kind now s)"
    by (cases kind) (simp_all add: frame_def grant_def rm Let_def light_defs case_prod_unfold insert_reservation_def same)
  show "\<exists>rid. ad_outbox (grant h i kind now s) = ad_outbox s @ [(i, Granted rid kind)]"
    by (cases kind) (simp_all add: grant_def rm Let_def light_defs case_prod_unfold insert_reservation_def same)
qed

lemma delivers_pump_apply:
  assumes "bt_get (ad_waiters s) i \<noteq> None" "\<And>k. d = Inr k \<Longrightarrow> may_grant now s i"
  shows "delivers now s (pump_apply h now i d s)"
proof (cases d)
  case (Inl r)
  then show ?thesis using reject_one [OF assms(1)] by (simp add: pump_apply_def)
next
  case (Inr k)
  obtain rid where "ad_outbox (grant h i k now s) = ad_outbox s @ [(i, Granted rid k)]"
    using grant_sel(2) [OF assms(1)] by blast
  then have "delivers now s (grant h i k now s)"
    using assms Inr by (intro delivers_one) (simp_all add: grant_sel(1) grant_waiters)
  then show ?thesis by (simp add: pump_apply_def Inr)
qed

lemma pump_decision_delivers:
  assumes "visits_all h" "pump_decision h now s = (d, s')"
  shows "delivers now s s'" "\<And>i t. tix s' i = Some t \<Longrightarrow> now < tk_deadline t"
    "\<And>i x. d = Some (i, x) \<Longrightarrow> bt_get (ad_waiters s') i \<noteq> None \<and> (\<forall>k. x = Inr k \<longrightarrow> may_grant now s' i)"
proof -
  let ?e = "expire h now s"
  have sc: "scan_tenants h now (fair_order ?e) None ?e = (d, s')"
    using assms(2) by (simp add: pump_decision_def Let_def)
  note q = scan_tenants_quiet [OF sc] and w = scan_tenants_waiters [OF sc]
  show "delivers now s s'" using delivers_trans [OF delivers_expire quiet_delivers] q by blast
  show late: "now < tk_deadline t" if "tix s' i = Some t" for i t
    using that q expire_in_time [OF assms(1)] by (simp add: quiet_def)
  show "bt_get (ad_waiters s') i \<noteq> None \<and> (\<forall>k. x = Inr k \<longrightarrow> may_grant now s' i)" if "d = Some (i, x)" for i x
    using that w q late by (fastforce simp: grants_well_def may_grant_def quiet_def frame_def)
qed

lemma pump_delivers:
  "visits_all h \<Longrightarrow> delivers now s (pump h now s)"
  "visits_all h \<Longrightarrow> tix (pump h now s) i = Some t \<Longrightarrow> now < tk_deadline t"
proof (induction h now s rule: pump.induct)
  case (1 h now s)
  obtain d s' where d: "pump_decision h now s = (d, s')" by fastforce
  {
    case 1
    note p = pump_decision_delivers [OF 1 d]
    show ?case
    proof (cases d)
      case None
      then show ?thesis using p(1) d by (simp add: pump.simps)
    next
      case (Some a)
      obtain i x where a: "a = (i, x)" by fastforce
      have "delivers now s (pump_apply h now i x s')"
        using p(3) [of i x] Some a by (intro delivers_trans [OF p(1) delivers_pump_apply]) auto
      then have "delivers now s (pump h now (pump_apply h now i x s'))"
        using "1.IH"(1) [OF d [symmetric] Some a [symmetric] 1] delivers_trans by blast
      then show ?thesis using d Some a by (subst pump.simps) simp
    qed
  next
    case 2
    note p = pump_decision_delivers [OF 2(1) d]
    show ?case
    proof (cases d)
      case None
      then show ?thesis using p(2) 2(2) d by (simp add: pump.simps)
    next
      case (Some a)
      obtain j x where a: "a = (j, x)" by fastforce
      then have "pump h now s = pump h now (pump_apply h now j x s')"
        using d Some by (subst pump.simps) simp
      then show ?thesis using "1.IH"(2) [OF d [symmetric] Some a [symmetric] 2(1)] 2(2) by simp
    qed
  }
qed

section \<open>The other operations\<close>

lemma delivers_pump: "visits_all h \<Longrightarrow> quiet s s1 \<Longrightarrow> delivers now s (pump h now s1)"
  using delivers_trans [OF quiet_delivers pump_delivers(1)] .

lemma quiet_account [simp]: "quiet s (account r add s)"
  by (rule quiet_sel) simp_all

lemma quiet_set_state: "quiet s (snd (set_state i to s))"
  by (rule quiet_sel) (auto simp: set_state_def Let_def split: option.split)

lemma quiet_remove_reservation: "quiet s (remove_reservation i r s)"
  by (rule quiet_sel) (simp_all add: remove_reservation_def)

lemma quiet_abandon_probe: "quiet s (abandon_probe r s)"
  by (rule quiet_sel) (simp_all add: abandon_probe_def)

lemma quiet_forget: "quiet s (forget_revision_if_idle h rv now s)"
  by (rule quiet_sel) (simp_all add: forget_revision_if_idle_def Let_def split: option.split)

lemma quiet_check_static: "quiet s (snd (check_static t now s))"
  by (rule quiet_sel) (simp_all add: check_static_def Let_def case_prod_unfold split: option.split)

lemma quiet_release_part:
  "quiet s (abandon_probe r (remove_reservation i r s))"
  by (rule quiet_trans [OF quiet_remove_reservation quiet_abandon_probe])

lemma delivers_release:
  assumes "visits_all h"
  shows "delivers now s (release h i now s)"
proof -
  have "quiet s (forget_revision_if_idle h rv now
      (if q then (abandon_probe r (remove_reservation i r s))\<lparr>ad_eviction_requested := False\<rparr>
       else abandon_probe r (remove_reservation i r s)))" for rv q r
    using quiet_trans [OF quiet_trans [OF quiet_release_part [of s r i], of
        "(abandon_probe r (remove_reservation i r s))\<lparr>ad_eviction_requested := False\<rparr>"] quiet_forget]
      quiet_trans [OF quiet_release_part quiet_forget]
    by (auto simp: quiet_sel)
  then show ?thesis
    unfolding release_def Let_def
    by (intro delivers_pump [OF assms]) (simp split: option.split)
qed

lemma delivers_adopt:
  assumes "visits_all h"
  shows "delivers now s (adopt h holder idle now s)"
proof -
  have "quiet s (case holder of None \<Rightarrow> s | Some i \<Rightarrow> if i = idle then s else
      case bt_get (ad_reservations s) i of None \<Rightarrow> s | Some r \<Rightarrow> abandon_probe r (remove_reservation i r s))"
    by (auto simp: quiet_release_part split: option.split)
  from quiet_trans [OF this quiet_set_state] show ?thesis
    unfolding adopt_def Let_def by (rule delivers_pump [OF assms])
qed

lemma delivers_redeem:
  assumes "visits_all h"
  shows "delivers now s (snd (redeem h i now s))"
proof -
  have "delivers now s (release h i now (s\<lparr>ad_revisions := rs, ad_bucket := b\<rparr>))" for rs b
    by (rule delivers_trans [OF quiet_delivers delivers_release [OF assms]]) (simp add: quiet_sel)
  moreover have "delivers now s (account r True (account q False (record_scale h rv k why now
      (s\<lparr>ad_revisions := rs, ad_bucket := b, ad_revisions := rs'\<rparr>)))\<lparr>ad_reservations := m\<rparr>)"
    for r q rv k why rs b rs' m
    by (intro quiet_delivers quiet_sel) simp_all
  ultimately show ?thesis
    by (auto simp: redeem_def Let_def case_prod_unfold quiet_delivers split: option.split)
qed

lemma delivers_refuse:
  assumes "distinct is" "\<forall>i\<in>set is. bt_get (ad_waiters s) i \<noteq> None"
  shows "delivers now s (fold (refuse_waiter r) is s)"
  using assms
proof (induction "is" arbitrary: s)
  case (Cons i "is")
  have "delivers now s (refuse_waiter r i s)"
    unfolding refuse_waiter_def by (rule reject_one) (use Cons.prems in simp)
  moreover have "\<forall>j\<in>set is. bt_get (ad_waiters (refuse_waiter r i s)) j \<noteq> None"
    using Cons.prems by (auto simp: refuse_waiter_def light_defs)
  then have "delivers now (refuse_waiter r i s) (fold (refuse_waiter r) is (refuse_waiter r i s))"
    using Cons.prems by (intro Cons.IH) simp_all
  ultimately show ?case using delivers_trans by simp
qed (simp add: quiet_delivers)

lemma doomed:
  assumes "visits_all h"
  shows "distinct (doomed_waiters h rv s)"
    and "i \<in> set (doomed_waiters h rv s) \<longleftrightarrow> (\<exists>t. tix s i = Some t \<and> tk_revision t = rv)"
    and "i \<in> set (doomed_waiters h rv s) \<Longrightarrow> bt_get (ad_waiters s) i \<noteq> None"
proof -
  have o: "set (waiter_order h (bt_keys (ad_waiters s))) = set (bt_keys (ad_waiters s))"
    "distinct (waiter_order h (bt_keys (ad_waiters s)))"
    using assms unfolding visits_all_def by simp_all
  show "distinct (doomed_waiters h rv s)" by (simp add: doomed_waiters_def o(2))
  show mem: "i \<in> set (doomed_waiters h rv s) \<longleftrightarrow> (\<exists>t. tix s i = Some t \<and> tk_revision t = rv)" for i
    by (auto simp: doomed_waiters_def o(1) tix_def bt_keys_iff split: option.splits)
  show "bt_get (ad_waiters s) i \<noteq> None" if "i \<in> set (doomed_waiters h rv s)"
    using that by (auto simp: mem tix_def)
qed

lemma refuse_tix: "tix (fold (refuse_waiter r) is s) = tix s |` (- set is)"
proof (induction "is" arbitrary: s)
  case (Cons i "is")
  have "tix (refuse_waiter r i s) = tix s |` (- {i})"
    by (rule ext) (simp add: refuse_waiter_def light_defs tix_def restrict_map_def)
  moreover have "- {i} \<inter> - set is = - set (i # is)" by auto
  ultimately show ?case using Cons.IH [of "refuse_waiter r i s"] by (simp only: fold_simps restrict_restrict o_apply)
qed (simp add: restrict_map_def)

lemma delivers_start_result:
  assumes "visits_all h"
  shows "delivers now s (start_result h i ok now s)"
proof (cases "bt_get (ad_reservations s) i")
  case (Some r)
  define s1 where "s1 = s\<lparr>ad_reservations := bt_insert i (r\<lparr>rsv_probe := False\<rparr>) (ad_reservations s),
     ad_counters := (if ok
       then (ad_counters s)\<lparr>ac_start_successes := ac_start_successes (ad_counters s) + 1\<rparr>
       else (ad_counters s)\<lparr>ac_start_failures := ac_start_failures (ad_counters s) + 1\<rparr>)\<rparr>"
  have q: "quiet s s1" unfolding s1_def by (rule quiet_sel) simp_all
  have u: "quiet s (s1\<lparr>ad_revisions := rs\<rparr>)" "quiet s (s1\<lparr>ad_revisions := rs, ad_counters := c\<rparr>)" for rs c
    by (rule quiet_trans [OF q quiet_sel]; simp)+
  have f: "delivers now s (pump h now (fold (refuse_waiter rej) (doomed_waiters h rv (s1\<lparr>ad_revisions := rs\<rparr>))
      (s1\<lparr>ad_revisions := rs, ad_counters := c\<rparr>)))" for rej rv rs c
  proof -
    have "delivers now (s1\<lparr>ad_revisions := rs, ad_counters := c\<rparr>)
        (fold (refuse_waiter rej) (doomed_waiters h rv (s1\<lparr>ad_revisions := rs\<rparr>))
          (s1\<lparr>ad_revisions := rs, ad_counters := c\<rparr>))"
      using doomed(1,3) [OF assms, where rv = rv and s = "s1\<lparr>ad_revisions := rs\<rparr>"]
      by (intro delivers_refuse) auto
    then show ?thesis using delivers_trans quiet_delivers [OF u(2)] pump_delivers(1) [OF assms] by blast
  qed
  show ?thesis
    unfolding start_result_def Some option.case Let_def s1_def [symmetric] case_prod_unfold
    using f u by (auto intro!: quiet_delivers [OF q] delivers_pump [OF assms] split: option.split)
qed (simp add: start_result_def quiet_delivers)

lemma quiet_revision_entry: "quiet s (revision_entry t f s)"
  by (rule quiet_sel) (simp_all add: revision_entry_def Let_def)

lemma quiet_try_prestart: "quiet s0 (snd (try_prestart h t now s0))"
proof (cases "check_static t now s0")
  case (Pair res s)
  obtain ok bucket where bk: "tb_available (host_fpu h) (ad_bucket s) now = (ok, bucket)" by fastforce
  define s1 where "s1 = revision_entry t (\<lambda>e. e) (s\<lparr>ad_bucket := bucket\<rparr>)"
  define e where "e = the (bt_get (ad_revisions s1) (tk_revision t))"
  obtain gate b where g: "cb_gate (re_breaker e) now = (gate, b)" by fastforce
  have q: "quiet s0 s" using quiet_check_static [of s0 t now] Pair by simp
  have "quiet s (s\<lparr>ad_bucket := bucket\<rparr>)" by (rule quiet_sel) simp_all
  then have q1: "quiet s0 s1" unfolding s1_def by (rule quiet_trans [OF quiet_trans [OF q] quiet_revision_entry])
  have u: "quiet s0 (s1\<lparr>ad_revisions := rs\<rparr>)"
    "quiet s0 (record_scale h rv k why now (insert_reservation i r
       (next_id (s1\<lparr>ad_revisions := rs, ad_revisions := rs', ad_bucket := bu\<rparr>))))" for rs rs' bu i r rv k why
    by (rule quiet_trans [OF q1 quiet_sel]; simp add: insert_reservation_def next_id_def)+
  show ?thesis
  proof (cases res)
    case Inl then show ?thesis using q by (simp add: try_prestart_def Pair)
  next
    case Inr
    show ?thesis
      unfolding try_prestart_def Pair Inr prod.case sum.case Let_def bk s1_def [symmetric] e_def [symmetric] g
      using q q1 u by simp
  qed
qed

lemma quiet_try_scale_down: "quiet s (snd (try_scale_down h i how now s))"
  using quiet_set_state [of s i RS_Draining]
  by (auto simp: try_scale_down_def Let_def quiet_def frame_def tix_def fun_eq_iff split: option.split sum.split)

section \<open>Arrivals and drains\<close>

lemma add_waiter_tix:
  "tix (add_waiter h t retry now s) = (tix s)(ad_next_id s + 1 \<mapsto> t)"
  "ad_outbox (add_waiter h t retry now s) = ad_outbox s" "frame s (add_waiter h t retry now s)"
  "ad_next_id (add_waiter h t retry now s) = ad_next_id s + 1"
  by (auto simp: add_waiter_def Let_def tix_def fun_eq_iff frame_def next_id_def revision_entry_def)

lemma check_static_deleted:
  "check_static t now s = (Inr u, s') \<Longrightarrow> bt_get (ad_drains s) (tk_revision t) \<noteq> Some DR_FunctionDeleted"
  by (auto simp: check_static_def Let_def split: option.splits if_splits)

lemma enqueue_shape:
  assumes "visits_all h"
  obtains (refused) rej where "fst (enqueue h t retry now s) = Inl rej" "quiet s (snd (enqueue h t retry now s))"
  | (waited) s1 s2 where "quiet s s1" "s1 = snd (check_static t now s)"
      "bt_get (ad_drains s) (tk_revision t) \<noteq> Some DR_FunctionDeleted"
      "delivers now (add_waiter h t retry now s1) s2"
      "snd (enqueue h t retry now s) = s2
       \<or> (\<exists>why. snd (enqueue h t retry now s) = reject_count why (snd (remove_waiter (ad_next_id s1 + 1) s2)))"
proof (cases "check_static t now s")
  case (Pair res s1)
  have q: "quiet s s1" using quiet_check_static [of s t now] Pair by simp
  show ?thesis
  proof (cases res)
    case (Inl rej)
    have "quiet s1 (reject_count (rj_reason rej) s1)" by (rule quiet_sel) (simp_all add: light_defs)
    then show ?thesis
      using refused Pair Inl quiet_trans [OF q] by (simp add: enqueue_def)
  next
    case (Inr u)
    show ?thesis
    proof (rule waited [OF q])
      show "s1 = snd (check_static t now s)" by (simp add: Pair)
      show "bt_get (ad_drains s) (tk_revision t) \<noteq> Some DR_FunctionDeleted"
        using check_static_deleted Pair Inr by blast
      show "delivers now (add_waiter h t retry now s1) (pump h now (add_waiter h t retry now s1))"
        by (rule pump_delivers(1) [OF assms])
    qed (auto simp: enqueue_def Pair Inr Let_def add_waiter_tix split: option.split)
  qed
qed

lemma delivers_tix: "delivers now s s' \<Longrightarrow> tix s' i = Some t \<Longrightarrow> tix s i = Some t"
  by (auto simp: delivers_def restrict_map_def split: if_splits)

lemma delivers_told:
  assumes "delivers now s s'" "tix s i = Some t"
  shows "tix s' i = Some t \<or> i \<in> fst ` set (ad_outbox s')"
  using assms by (auto simp: delivers_def restrict_map_def)

lemma remove_waiter_tix: "tix (snd (remove_waiter j s)) = (tix s)(j := None)"
  by (rule ext) (simp add: tix_def)

lemma begin_drain_shape:
  assumes "visits_all h"
  obtains s1 d where "tix s1 = tix s" "ad_outbox s1 = ad_outbox s" "ad_settings s1 = ad_settings s"
    "ad_capacity s1 = ad_capacity s" "ad_tenant_quotas s1 = ad_tenant_quotas s"
    "ad_drains s1 = bt_insert rv d (ad_drains s)"
    "delivers now s1 (snd (begin_drain h rv reason now s))"
    "d = (if bt_get (ad_drains s) rv = Some DR_FunctionDeleted then DR_FunctionDeleted else reason)"
    "d = DR_FunctionDeleted \<Longrightarrow>
       (\<forall>i t. tix (snd (begin_drain h rv reason now s)) i = Some t \<longrightarrow> tk_revision t \<noteq> rv)"
proof -
  define d where "d = (if bt_get (ad_drains s) rv = Some DR_FunctionDeleted then DR_FunctionDeleted else reason)"
  define s0 where "s0 = s\<lparr>ad_drains := bt_insert rv d (ad_drains s)\<rparr>"
  define s1 where "s1 = (if bt_get (ad_drains s) rv \<noteq> Some d
     then record_scale h rv ''drain'' (DrainReason_as_str d) now s0 else s0)"
  define f where "f = fold (refuse_waiter (function_deleted rv)) (doomed_waiters h rv s1) s1"
  have out: "snd (begin_drain h rv reason now s) = (if d = DR_FunctionDeleted then pump h now f else s1)"
    by (simp add: begin_drain_def Let_def f_def s1_def s0_def d_def)
  have "delivers now s1 f" unfolding f_def using doomed(1,3) [OF assms] by (intro delivers_refuse) auto
  then have del: "delivers now s1 (pump h now f)" using delivers_trans pump_delivers(1) [OF assms] by blast
  have "tk_revision t \<noteq> rv" if "tix (pump h now f) i = Some t" for i t
  proof -
    have "tix f i = Some t" using delivers_tix [OF pump_delivers(1) [OF assms] that] .
    then show ?thesis using doomed(2) [OF assms, of i rv s1]
      by (auto simp: f_def refuse_tix restrict_map_def split: if_splits)
  qed
  moreover have "tix s1 = tix s" by (simp add: s1_def s0_def tix_def fun_eq_iff)
  ultimately show thesis
    using del by (intro that [of s1 d]) (auto simp: out quiet_delivers s1_def s0_def d_def)
qed

section \<open>Along a run\<close>

lemma adm_step_kinds:
  assumes "adm_step h mx s s'" "visits_all h"
  obtains (decide) now where "delivers now s s'"
  | (withdrawn) w where "s' = snd (withdraw w s)"
  | (taken) "s' = snd (take_outbox s)"
  | (arrival) t retry now where "s' = snd (enqueue h t retry now s)"
  | (drained) rv reason now where "s' = snd (begin_drain h rv reason now s)"
  | (undrained) rv where "s' = snd (end_drain rv s) \<or> s' = forget_drain rv s"
  using assms(1)
proof (cases rule: adm_step.cases)
  case (step_precheck t now)
  have "quiet s (reject_count why (snd (check_static t now s)))" for why
    by (rule quiet_trans [OF quiet_check_static quiet_sel]) (simp_all add: light_defs)
  then have "quiet s s'"
    unfolding step_precheck precheck_def
    using quiet_check_static [of s t now]
    by (auto simp: case_prod_unfold split: sum.split)
  then show ?thesis using decide quiet_delivers by blast
next
  case (step_ready i)
  then have "quiet s s'" using quiet_set_state by (simp add: ready_def)
  then show ?thesis using decide quiet_delivers by blast
next
  case (step_observe rv secs)
  then have "quiet s s'" by (intro quiet_sel) (simp_all add: observe_duration_def)
  then show ?thesis using decide quiet_delivers by blast
next
  case (step_take_evictions)
  then have "quiet s s'" by (intro quiet_sel) (simp_all add: take_evictions_def)
  then show ?thesis using decide quiet_delivers by blast
next
  case (step_set_routed rs)
  then have "quiet s s'" by (intro quiet_sel) (simp_all add: set_routed_def)
  then show ?thesis using decide quiet_delivers by blast
next
  case (step_park i now)
  then show ?thesis using decide [of now] delivers_pump [OF assms(2) quiet_set_state] by (simp add: park_def)
next
  case (step_parked i now)
  then show ?thesis using decide [of now] delivers_pump [OF assms(2) quiet_set_state] by (simp add: parked_def)
next
  case (step_drain i now)
  then show ?thesis using decide [of now] delivers_pump [OF assms(2) quiet_set_state] by (simp add: drain_def)
qed (use assms(2) decide withdrawn taken arrival drained undrained in
     \<open>blast intro: pump_delivers delivers_release delivers_adopt delivers_redeem delivers_start_result
        quiet_delivers quiet_try_prestart quiet_try_scale_down\<close>)+

text \<open>The configuration is fixed for the life of the state machine.\<close>

lemma adm_step_config:
  assumes "adm_step h mx s s'" "visits_all h"
  shows "ad_settings s' = ad_settings s \<and> ad_capacity s' = ad_capacity s
    \<and> ad_tenant_quotas s' = ad_tenant_quotas s"
  using assms
proof (cases rule: adm_step_kinds)
  case (decide now)
  then show ?thesis by (simp add: delivers_def frame_def)
next
  case (arrival t retry now)
  show ?thesis
    using assms(2)
  proof (cases rule: enqueue_shape [where h = h and t = t and retry = retry and now = now and s = s,
      case_names refused waited])
    case refused
    then show ?thesis by (simp add: arrival quiet_def frame_def)
  next
    case (waited s1 s2)
    then have "frame s s1" "frame (add_waiter h t retry now s1) s2" by (simp_all add: quiet_def delivers_def)
    then have "frame s s2" using frame_trans [OF frame_trans [OF _ add_waiter_tix(3)]] by blast
    then show ?thesis using waited(5) by (auto simp: arrival frame_def light_defs)
  qed
next
  case (drained rv reason now)
  show ?thesis
    using assms(2)
    by (rule begin_drain_shape [where s = s and rv = rv and now = now and reason = reason])
       (simp add: drained delivers_def frame_def)
qed (auto simp: withdraw_def take_outbox_def end_drain_def forget_drain_def case_prod_unfold Let_def)

lemma adm_reach_config:
  assumes "adm_reach h mx settings s" "visits_all h"
  shows "ad_settings s = settings \<and> ad_capacity s = ad_capacity (adm_new settings)
    \<and> quota_for s = quota_for (adm_new settings)"
proof -
  have "ad_settings s = settings \<and> ad_capacity s = ad_capacity (adm_new settings)
    \<and> ad_tenant_quotas s = ad_tenant_quotas (adm_new settings)"
    using assms(1)
  proof (induction rule: adm_reach.induct)
    case (reach_step s s')
    then show ?case using adm_step_config [OF reach_step.hyps(2) assms(2)] by simp
  qed (simp add: adm_new_def Let_def)
  then show ?thesis by (auto simp: quota_for_def fun_eq_iff adm_new_def Let_def split: option.split)
qed

text \<open>A revision whose function is being deleted has no waiter.\<close>

definition deleted_inv :: "AdmissionState \<Rightarrow> bool" where
  "deleted_inv s \<longleftrightarrow>
     (\<forall>i t. tix s i = Some t \<longrightarrow> bt_get (ad_drains s) (tk_revision t) \<noteq> Some DR_FunctionDeleted)"

lemma delivers_deleted: "delivers now s s' \<Longrightarrow> deleted_inv s \<Longrightarrow> deleted_inv s'"
  unfolding deleted_inv_def
proof (intro allI impI)
  fix i t
  assume a: "delivers now s s'" "\<forall>i t. tix s i = Some t \<longrightarrow>
    bt_get (ad_drains s) (tk_revision t) \<noteq> Some DR_FunctionDeleted" "tix s' i = Some t"
  have "ad_drains s' = ad_drains s" using a(1) frame_drains by (simp add: delivers_def)
  then show "bt_get (ad_drains s') (tk_revision t) \<noteq> Some DR_FunctionDeleted"
    using a(2) delivers_tix [OF a(1,3)] by simp
qed

lemma adm_step_deleted:
  assumes "adm_step h mx s s'" "visits_all h" "deleted_inv s"
  shows "deleted_inv s'"
  using assms(1,2)
proof (cases rule: adm_step_kinds)
  case (decide now)
  then show ?thesis using delivers_deleted assms(3) by blast
next
  case (withdrawn w)
  then show ?thesis using assms(3)
    by (auto simp: deleted_inv_def withdraw_def case_prod_unfold Let_def remove_waiter_tix split: if_splits)
next
  case taken
  then show ?thesis using assms(3) by (simp add: deleted_inv_def take_outbox_def tix_def)
next
  case (arrival t retry now)
  show ?thesis
    using assms(2)
  proof (cases rule: enqueue_shape [where h = h and t = t and retry = retry and now = now and s = s,
      case_names refused waited])
    case refused
    then show ?thesis using assms(3) by (simp add: arrival deleted_inv_def quiet_def frame_def)
  next
    case (waited s1 s2)
    then have "deleted_inv (add_waiter h t retry now s1)"
      using assms(3) add_waiter_tix(3) [of s1 h t retry now]
      by (auto simp: deleted_inv_def quiet_def frame_def add_waiter_tix(1))
    then have "deleted_inv s2" using delivers_deleted waited(4) by blast
    moreover have "tix (reject_count why x) = tix x" for why x by (simp add: tix_def light_defs fun_eq_iff)
    ultimately show ?thesis
      using waited(5) by (auto simp: arrival deleted_inv_def remove_waiter_tix light_defs split: if_splits)
  qed
next
  case (drained rv reason now)
  obtain s1 d where d: "tix s1 = tix s" "ad_drains s1 = bt_insert rv d (ad_drains s)" "delivers now s1 s'"
    "d = DR_FunctionDeleted \<Longrightarrow> (\<forall>i t. tix s' i = Some t \<longrightarrow> tk_revision t \<noteq> rv)"
    unfolding drained
    by (rule begin_drain_shape [OF assms(2), where s = s and rv = rv and now = now and reason = reason]) blast
  have "ad_drains s' = ad_drains s1" using d(3) by (simp add: delivers_def frame_def)
  then have "bt_get (ad_drains s') (tk_revision t) \<noteq> Some DR_FunctionDeleted" if "tix s' i = Some t" for i t
    using that assms(3) d delivers_tix [OF d(3) that] by (auto simp: deleted_inv_def)
  then show ?thesis by (simp add: deleted_inv_def)
next
  case (undrained rv)
  then have "tix s' = tix s" "ad_drains s' = ad_drains s \<or> ad_drains s' = bt_remove rv (ad_drains s)"
    by (auto simp: end_drain_def forget_drain_def tix_def fun_eq_iff)
  then show ?thesis using assms(3) by (auto simp: deleted_inv_def split: if_splits)
qed

lemma adm_reach_deleted:
  assumes "adm_reach h mx settings s" "visits_all h"
  shows "deleted_inv s"
  using assms(1)
proof (induction rule: adm_reach.induct)
  case (reach_step s s')
  then show ?case using adm_step_deleted assms(2) by blast
qed (simp add: deleted_inv_def tix_def adm_new_def Let_def)

text \<open>No call loses a waiter: it is withdrawn by its owner, still waiting, or told its outcome.\<close>

lemma adm_step_told:
  assumes "adm_step h mx s s'" "visits_all h" "adm_inv mx s" "tix s i = Some t"
  shows "s' = snd (withdraw i s) \<or> tix s' i = Some t \<or> i \<in> fst ` set (ad_outbox s')"
  using assms(1,2)
proof (cases rule: adm_step_kinds)
  case (decide now)
  then show ?thesis using delivers_told assms(4) by blast
next
  case (withdrawn w)
  then show ?thesis using assms(4)
    by (cases "w = i") (auto simp: withdraw_def case_prod_unfold Let_def remove_waiter_tix)
next
  case (arrival t' retry now)
  show ?thesis
    using assms(2)
  proof (cases rule: enqueue_shape [where h = h and t = t' and retry = retry and now = now and s = s,
      case_names refused waited])
    case refused
    then show ?thesis using assms(4) by (simp add: arrival quiet_def)
  next
    case (waited s1 s2)
    have "adm_inv mx s1" unfolding waited(2) by (rule adm_inv_view [OF view_check_static assms(3)])
    then have "tix s1 (ad_next_id s1 + 1) = None"
      by (auto simp: adm_inv_def queue_inv_def tix_def)
    then have i: "i \<noteq> ad_next_id s1 + 1" using waited(1) assms(4) by (auto simp: quiet_def)
    then have "tix (add_waiter h t' retry now s1) i = Some t"
      using waited(1) assms(4) by (simp add: add_waiter_tix(1) quiet_def)
    from delivers_told [OF waited(4) this] i show ?thesis
      using waited(5) by (auto simp: arrival remove_waiter_tix tix_def light_defs)
  qed
next
  case (drained rv reason now)
  obtain s1 where "tix s1 = tix s" "delivers now s1 s'"
    unfolding drained
    by (rule begin_drain_shape [OF assms(2), where s = s and rv = rv and now = now and reason = reason]) blast
  then show ?thesis using delivers_told assms(4) by metis
qed (use assms(4) in \<open>auto simp: take_outbox_def end_drain_def forget_drain_def tix_def\<close>)

end
