(* ===== verification/Admission_Properties.thy ===== *)
theory Admission_Properties
  imports Admission_Outcomes
begin

text \<open>
  The properties of the admission component: the caps, the books and the node capacity on every
  reachable state, what becomes of a waiter, the start rate, the circuit breaker and scaling
  down.  The witnesses run on a concrete host and a node with two environments at once.
\<close>

section \<open>Shared facts\<close>

lemma rsv_count_split:
  assumes "\<And>r. P r \<longleftrightarrow> Q r \<or> R r" "\<And>r. \<not> (Q r \<and> R r)"
  shows "rsv_count P s = rsv_count Q s + rsv_count R s"
proof -
  have "of_bool (P r) = (of_bool (Q r) + of_bool (R r) :: nat)" for r using assms by auto
  then show ?thesis by (simp add: rsv_count_def bt_sum_set sum.distrib)
qed

lemma in_flight_count:
  "rsv_count (\<lambda>r. P r \<and> rs_in_flight (rsv_state r)) s = c_in_flight (\<lambda>st. rsv_count (\<lambda>r. P r \<and> rsv_state r = st) s)"
proof -
  have "rsv_count (\<lambda>r. P r \<and> rs_in_flight (rsv_state r)) s
    = rsv_count (\<lambda>r. P r \<and> rsv_state r = RS_Promised) s
      + rsv_count (\<lambda>r. P r \<and> rsv_state r \<in> {RS_Starting, RS_Busy}) s"
    by (rule rsv_count_split) (auto simp: rs_in_flight_def)
  also have "rsv_count (\<lambda>r. P r \<and> rsv_state r \<in> {RS_Starting, RS_Busy}) s
    = rsv_count (\<lambda>r. P r \<and> rsv_state r = RS_Starting) s + rsv_count (\<lambda>r. P r \<and> rsv_state r = RS_Busy) s"
    by (rule rsv_count_split) auto
  finally show ?thesis by (simp add: c_in_flight_def)
qed

lemma count_inv_in_flight:
  assumes "count_inv s"
  shows "c_in_flight (ad_counts s) = rsv_count (\<lambda>r. rs_in_flight (rsv_state r)) s"
    and "c_in_flight (rv_counts s rv) = rsv_count (\<lambda>r. rsv_revision r = rv \<and> rs_in_flight (rsv_state r)) s"
proof -
  have "ad_counts s = (\<lambda>st. rsv_count (\<lambda>r. True \<and> rsv_state r = st) s)"
    using assms by (simp add: count_inv_def fun_eq_iff)
  then show "c_in_flight (ad_counts s) = rsv_count (\<lambda>r. rs_in_flight (rsv_state r)) s"
    using in_flight_count [of "\<lambda>_. True" s] by simp
  have "rv_counts s rv = (\<lambda>st. rsv_count (\<lambda>r. rsv_revision r = rv \<and> rsv_state r = st) s)"
    using assms by (simp add: count_inv_def fun_eq_iff)
  then show "c_in_flight (rv_counts s rv) = rsv_count (\<lambda>r. rsv_revision r = rv \<and> rs_in_flight (rsv_state r)) s"
    using in_flight_count [of "\<lambda>r. rsv_revision r = rv" s] by simp
qed

text \<open>A concrete node, host, ticket and run.\<close>

definition sample_host :: host where
  "sample_host = \<lparr> host_fpu = exact_fpu, waiter_order = (\<lambda>ks. ks), record_order = (\<lambda>ks. ks) \<rparr>"

definition sample_settings :: AdmissionSettings where
  "sample_settings = \<lparr> as_node = NodeConfig_default\<lparr>nc_memory_mib := Some 1024\<rparr>,
     as_max_concurrency = 2, as_max_queue = 8, as_max_queue_bytes = 4096, as_queue_timeout_seconds = 30,
     as_tenant_defaults = \<lparr> qc_max_concurrency = Some 2, qc_max_queue = Some 4, qc_weight = None,
       qc_required_region = None \<rparr>,
     as_tenants = [], as_start_rate_per_second = 5, as_start_burst = 3, as_breaker_threshold = 3,
     as_breaker_cooldown_seconds = 10, as_rate_window_seconds = 60 \<rparr>"

definition sample_ticket :: Ticket where
  "sample_ticket = \<lparr> tk_tenant = Ident ''t'', tk_function = Ident ''f'', tk_revision = Ident ''r'',
     tk_idle_ttl_seconds = 60, tk_scale_down_cooldown_seconds = 5,
     tk_resources = \<lparr> res_cpu_millis = 500, res_memory_mib = 256, res_ephemeral_storage_mib = 0 \<rparr>,
     tk_max_environments = 2, tk_concurrency_per_environment = 1, tk_min_ready = 0,
     tk_payload_bytes = 10, tk_deadline = 1000000, tk_required_region = None, tk_cold_only = False \<rparr>"

definition sample_mx :: "RevisionId \<Rightarrow> nat" where
  "sample_mx = (\<lambda>_. 2)"

definition sample_run :: AdmissionState where
  "sample_run = snd (enqueue sample_host sample_ticket False 5 (adm_new sample_settings))"

lemma sample_host_visits: "visits_all sample_host"
  by (simp add: visits_all_def sample_host_def)

lemma sample_reach: "adm_reach sample_host sample_mx sample_settings sample_run"
  unfolding sample_run_def
  by (rule reach_step [OF reach_new step_enqueue]) (simp add: ticket_ok_def sample_ticket_def sample_mx_def)

definition busy_settings :: AdmissionSettings where
  "busy_settings = sample_settings\<lparr>as_max_concurrency := 0\<rparr>"

lemma bt_entries_singleton: "bt_entries (bt_insert k v bt_empty) = [(k, v)]"
  by (simp add: bt_insert.rep_eq bt_empty.rep_eq)

definition sample_waiting :: AdmissionState where
  "sample_waiting = snd (enqueue sample_host sample_ticket True 5 (adm_new busy_settings))"

lemma sample_waiting_reach: "adm_reach sample_host sample_mx busy_settings sample_waiting"
  unfolding sample_waiting_def
  by (rule reach_step [OF reach_new step_enqueue]) (simp add: ticket_ok_def sample_ticket_def sample_mx_def)

lemma sample_waits: "\<exists>w. bt_get (ad_waiters sample_waiting) 1 = Some w"
proof -
  let ?s = "adm_new busy_settings"
  have c: "check_static sample_ticket 5 ?s = (Inr (), ?s)"
    by (simp add: check_static_def placement_mismatch_def quota_for_def adm_new_def Let_def busy_settings_def sample_settings_def
      sample_ticket_def NodeConfig_default_def quota_of_def admits_def)
  define s1 where "s1 = add_waiter sample_host sample_ticket True 5 ?s"
  have w: "bt_get (ad_waiters s1) i = (if i = 1 then Some
      \<lparr> wt_ticket = sample_ticket, wt_enqueued_at = 5, wt_blocked = BR_Pending, wt_coalesced = False \<rparr> else None)" for i
    by (simp add: s1_def add_waiter_def Let_def next_id_def revision_entry_def adm_new_def)
  have e: "expire sample_host 5 s1 = s1"
    by (simp add: expire_def expired_waiters_def sample_host_def w sample_ticket_def filter_empty_conv)
  obtain te where te: "bt_entries (ad_tenants s1) = [(Ident ''t'', te)]" "te_queue te = [1]" "te_in_flight te = 0"
      "tq_max_concurrency (te_quota te) = Some 2" "bt_get (ad_tenants s1) (Ident ''t'') = Some te"
    by (simp add: s1_def add_waiter_def Let_def next_id_def revision_entry_def adm_new_def tenant_entry_def
        bt_entries_singleton new_tenant_entry_def quota_for_def sample_ticket_def busy_settings_def sample_settings_def quota_of_def)
  obtain re where re: "bt_get (ad_revisions s1) (Ident ''r'') = Some re" "cb_state (re_breaker re) = BS_Closed 0"
      "re_counts re = Counts_default" "re_max_environments re = 2"
    by (simp add: s1_def add_waiter_def Let_def next_id_def revision_entry_def adm_new_def sample_ticket_def
        new_revision_entry_def refreshed_entry_def cb_new_def)
  have z: "ad_counts s1 = Counts_default" "as_max_concurrency (ad_settings s1) = 0" "ad_drains s1 = bt_empty"
    by (simp_all add: s1_def add_waiter_def Let_def next_id_def revision_entry_def adm_new_def busy_settings_def)
  have "pump_decision sample_host 5 s1 = (None, note_block 1 BR_Capacity (s1\<lparr>ad_revisions := bt_insert (Ident ''r'') re (ad_revisions s1)\<rparr>))"
    using re by (simp add: pump_decision_def e fair_order_def te evaluate_def w z sample_ticket_def cb_gate_def cb_tick_def Counts_default_def c_in_flight_def)
  then have "pump sample_host 5 s1 = note_block 1 BR_Capacity (s1\<lparr>ad_revisions := bt_insert (Ident ''r'') re (ad_revisions s1)\<rparr>)"
    by (subst pump.simps) simp
  then show ?thesis
    by (simp add: sample_waiting_def enqueue_def c Let_def s1_def [symmetric] note_block_def w)
qed

section \<open>The ledger\<close>

text \<open>C18: In every state the admission machine reaches, the environments in flight stay within
  the node's \<open>max_concurrency\<close>, those of each tenant within its quota, and those of each revision
  within its own cap, however calls interleave.\<close>

theorem admission_caps:
  assumes "visits_all h" "adm_reach h mx settings s"
  shows "rsv_count (\<lambda>r. rs_in_flight (rsv_state r)) s \<le> as_max_concurrency settings
    \<and> (\<forall>t m. tq_max_concurrency (quota_for (adm_new settings) t) = Some m \<longrightarrow>
         rsv_count (\<lambda>r. rsv_tenant r = t \<and> rs_in_flight (rsv_state r)) s \<le> m)
    \<and> (\<forall>rv. rsv_count (\<lambda>r. rsv_revision r = rv \<and> rs_in_flight (rsv_state r)) s \<le> max (mx rv) 1)"
proof -
  have inv: "count_inv s" "cap_inv mx s" using adm_reach_inv [OF assms(2)] by (simp_all add: adm_inv_def)
  have "tn_in_flight s t = rsv_count (\<lambda>r. rsv_tenant r = t \<and> rs_in_flight (rsv_state r)) s" for t
    using inv(1) by (simp add: count_inv_def)
  then show ?thesis
    using inv(2) adm_reach_config [OF assms(2,1)]
    by (simp add: cap_inv_def count_inv_in_flight [OF inv(1)])
qed

theorem admission_caps_witness:
  "rsv_count (\<lambda>r. rs_in_flight (rsv_state r)) sample_run \<le> 2"
  using admission_caps [OF sample_host_visits sample_reach] by (simp add: sample_settings_def)

text \<open>C20: The books are exact in every reachable state: the counter of each reservation state,
  each tenant's in-flight number, the queue length and the queued bytes all equal a recount, and
  a tenant's queue holds exactly its waiters, each once.\<close>

theorem admission_books:
  assumes "adm_reach h mx settings s"
  shows "(\<forall>st. ad_counts s st = rsv_count (\<lambda>r. rsv_state r = st) s)
    \<and> (\<forall>t e. bt_get (ad_tenants s) t = Some e \<longrightarrow>
         te_in_flight e = rsv_count (\<lambda>r. rsv_tenant r = t \<and> rs_in_flight (rsv_state r)) s
         \<and> distinct (te_queue e)
         \<and> set (te_queue e) = {i. \<exists>w. bt_get (ad_waiters s) i = Some w \<and> tk_tenant (wt_ticket w) = t})
    \<and> ad_queued s = bt_len (ad_waiters s)
    \<and> ad_queued_bytes s = bt_sum (\<lambda>w. tk_payload_bytes (wt_ticket w)) (ad_waiters s)"
proof -
  have inv: "count_inv s" "queue_inv s" using adm_reach_inv [OF assms] by (simp_all add: adm_inv_def)
  have "te_in_flight e = tn_in_flight s t" "te_queue e = tn_queue s t" if "bt_get (ad_tenants s) t = Some e" for t e
    using that by (simp_all add: tn_in_flight_def tn_queue_def)
  then show ?thesis
    using inv by (simp add: count_inv_def queue_inv_def wt_of_def wt_sum_def bt_len_sum)
qed

theorem admission_books_witness: "ad_queued sample_run = bt_len (ad_waiters sample_run)"
  using admission_books [OF sample_reach] by simp

text \<open>C21: The node is never oversubscribed: in every reachable state and every bounded
  dimension, \<open>reserved\<close> is exactly what the environments hold and is within the capacity
  (of a capacity below the largest \<open>u64\<close>, where the sums saturate).\<close>

theorem admission_capacity:
  assumes "visits_all h" "adm_reach h mx settings s"
    and "(p, Some c) \<in> set (dims (ad_capacity (adm_new settings)))" "c < u64_max"
  shows "p (ad_reserved s)
      = bt_sum (\<lambda>r. if holds_resources (rsv_state r) then p (rsv_resources r) else 0) (ad_reservations s)
    \<and> p (ad_reserved s) \<le> c"
  using adm_reach_inv [OF assms(2)] adm_reach_config [OF assms(2,1)] assms(3,4)
  by (fastforce simp: adm_inv_def resource_inv_def held_def)

theorem admission_capacity_witness: "res_memory_mib (ad_reserved sample_run) \<le> 1024"
  using admission_capacity [OF sample_host_visits sample_reach, of res_memory_mib 1024]
  by (simp add: dims_def adm_new_def Let_def sample_settings_def NodeConfig_default_def u64_max_def)

section \<open>Waiters\<close>

text \<open>C22: The scheduler always stops, and settles: the waiters it takes out of the queue are
  exactly those with a new outcome, one each; nobody past the deadline is left waiting; and a
  grant goes only to a waiter in time whose function is not being deleted.\<close>

theorem pump_settles:
  assumes "visits_all h"
  shows "\<exists>outs. ad_outbox (pump h now s) = ad_outbox s @ outs \<and> distinct (map fst outs)
     \<and> (\<forall>i. bt_get (ad_waiters s) i \<noteq> None \<longleftrightarrow>
            bt_get (ad_waiters (pump h now s)) i \<noteq> None \<or> i \<in> fst ` set outs)
     \<and> (\<forall>i\<in>fst ` set outs. bt_get (ad_waiters (pump h now s)) i = None)
     \<and> (\<forall>i rid k. (i, Granted rid k) \<in> set outs \<longrightarrow>
          (\<exists>w. bt_get (ad_waiters s) i = Some w \<and> now < tk_deadline (wt_ticket w)
             \<and> bt_get (ad_drains s) (tk_revision (wt_ticket w)) \<noteq> Some DR_FunctionDeleted))
     \<and> (\<forall>i w. bt_get (ad_waiters (pump h now s)) i = Some w \<longrightarrow> now < tk_deadline (wt_ticket w))"
proof -
  have key: "bt_get (ad_waiters x) i = None \<longleftrightarrow> i \<notin> dom (tix x)" for x i
    by (auto simp: tix_def)
  obtain outs where o: "ad_outbox (pump h now s) = ad_outbox s @ outs" "distinct (map fst outs)"
    "set (map fst outs) \<subseteq> dom (tix s)" "tix (pump h now s) = tix s |` (- set (map fst outs))"
    "\<forall>i rid k. (i, Granted rid k) \<in> set outs \<longrightarrow> may_grant now s i"
    using pump_delivers(1) [OF assms, of now s] unfolding delivers_def by blast
  have left: "dom (tix (pump h now s)) = dom (tix s) - fst ` set outs" by (auto simp: o(4))
  show ?thesis
  proof (intro exI [of _ outs] conjI)
    show "\<forall>i rid k. (i, Granted rid k) \<in> set outs \<longrightarrow>
        (\<exists>w. bt_get (ad_waiters s) i = Some w \<and> now < tk_deadline (wt_ticket w)
          \<and> bt_get (ad_drains s) (tk_revision (wt_ticket w)) \<noteq> Some DR_FunctionDeleted)"
      using o(5) by (fastforce simp: may_grant_def tix_def)
    show "\<forall>i w. bt_get (ad_waiters (pump h now s)) i = Some w \<longrightarrow> now < tk_deadline (wt_ticket w)"
      using pump_delivers(2) [OF assms, of now s] by (fastforce simp: tix_def)
    show "\<forall>i. bt_get (ad_waiters s) i \<noteq> None \<longleftrightarrow>
        bt_get (ad_waiters (pump h now s)) i \<noteq> None \<or> i \<in> fst ` set outs"
      using o(3) unfolding key left by auto
    show "\<forall>i\<in>fst ` set outs. bt_get (ad_waiters (pump h now s)) i = None" unfolding key left by blast
  qed (fact o)+
qed

theorem pump_settles_witness:
  "\<exists>outs. ad_outbox (pump sample_host 9 sample_run) = ad_outbox sample_run @ outs"
  using pump_settles [OF sample_host_visits] by blast

text \<open>C19: No call loses a waiter: after any call on a reachable state, a request that was
  waiting is still waiting, has its outcome in the outbox, or the call was its own withdrawal.\<close>

theorem waiter_never_lost:
  assumes "visits_all h" "adm_reach h mx settings s" "adm_step h mx s s'"
    and "bt_get (ad_waiters s) i = Some w"
  shows "(\<exists>w'. bt_get (ad_waiters s') i = Some w' \<and> wt_ticket w' = wt_ticket w)
    \<or> i \<in> fst ` set (ad_outbox s') \<or> s' = snd (withdraw i s)"
  using adm_step_told [OF assms(3,1) adm_reach_inv [OF assms(2)], of i "wt_ticket w"] assms(4)
  by (auto simp: tix_def)

theorem waiter_never_lost_witness:
  "\<exists>w. bt_get (ad_waiters sample_waiting) 1 = Some w
    \<and> ((\<exists>w'. bt_get (ad_waiters (pump sample_host 8 sample_waiting)) 1 = Some w' \<and> wt_ticket w' = wt_ticket w)
       \<or> 1 \<in> fst ` set (ad_outbox (pump sample_host 8 sample_waiting))
       \<or> pump sample_host 8 sample_waiting = snd (withdraw 1 sample_waiting))"
  using waiter_never_lost [OF sample_host_visits sample_waiting_reach step_pump, of 1] sample_waits by metis

text \<open>C32: Once a function is being deleted nothing of its revisions waits, in any reachable
  state: the waiters are refused at once, arrivals are refused, and the mark of a deletion is
  never replaced by an alias switch.\<close>

theorem deleted_never_waits:
  assumes "visits_all h" "adm_reach h mx settings s"
    and "bt_get (ad_drains s) rv = Some DR_FunctionDeleted"
  shows "(\<forall>i w. bt_get (ad_waiters s) i = Some w \<longrightarrow> tk_revision (wt_ticket w) \<noteq> rv)
    \<and> (\<forall>t retry now. tk_revision t = rv \<longrightarrow> (\<exists>r. fst (enqueue h t retry now s) = Inl r))
    \<and> (\<forall>reason now. bt_get (ad_drains (snd (begin_drain h rv reason now s))) rv = Some DR_FunctionDeleted)
    \<and> end_drain rv s = (False, s)"
proof (intro conjI allI impI)
  fix i w assume "bt_get (ad_waiters s) i = Some w"
  then have "tix s i = Some (wt_ticket w)" by (simp add: tix_def)
  then show "tk_revision (wt_ticket w) \<noteq> rv"
    using adm_reach_deleted [OF assms(2,1)] assms(3) by (auto simp: deleted_inv_def)
next
  fix t :: Ticket and retry now assume t: "tk_revision t = rv"
  obtain res s1 where c: "check_static t now s = (res, s1)" by fastforce
  then obtain r where "res = Inl r" using check_static_deleted [of t now s _ s1] t assms(3) by (cases res) auto
  then show "\<exists>r. fst (enqueue h t retry now s) = Inl r" by (simp add: enqueue_def c)
next
  fix reason now
  obtain s1 d where "ad_drains s1 = bt_insert rv d (ad_drains s)" "d = DR_FunctionDeleted"
    "delivers now s1 (snd (begin_drain h rv reason now s))"
    by (rule begin_drain_shape [OF assms(1), where s = s and rv = rv and now = now and reason = reason])
       (simp add: assms(3))
  then show "bt_get (ad_drains (snd (begin_drain h rv reason now s))) rv = Some DR_FunctionDeleted"
    using frame_drains by (auto simp: delivers_def)
qed (simp add: end_drain_def assms(3))

lemma sample_deleted:
  fixes s :: AdmissionState
  defines "s \<equiv> snd (begin_drain sample_host (Ident ''r'') DR_FunctionDeleted 7 sample_run)"
  shows "adm_reach sample_host sample_mx sample_settings s"
    and "bt_get (ad_drains s) (Ident ''r'') = Some DR_FunctionDeleted"
proof -
  show "adm_reach sample_host sample_mx sample_settings s"
    unfolding s_def by (rule reach_step [OF sample_reach step_begin_drain])
  show "bt_get (ad_drains s) (Ident ''r'') = Some DR_FunctionDeleted"
    unfolding s_def
    by (rule begin_drain_shape [OF sample_host_visits, where s = sample_run and rv = "Ident ''r''"
          and now = 7 and reason = DR_FunctionDeleted])
       (auto simp: delivers_def frame_def)
qed

theorem deleted_never_waits_witness:
  "\<exists>r. fst (enqueue sample_host sample_ticket False 9
     (snd (begin_drain sample_host (Ident ''r'') DR_FunctionDeleted 7 sample_run))) = Inl r"
  using deleted_never_waits [OF sample_host_visits sample_deleted] by (simp add: sample_ticket_def)

text \<open>An arrival gets the waiter id that was announced for it.  When it is left waiting, the
  node's queue, its bytes and the tenant's queue are all within their limits; when it is refused,
  nothing of it stays in the queue.\<close>

theorem enqueue_limits:
  assumes "visits_all h" "adm_reach h mx settings s" "ticket_ok mx t" "enqueue h t False now s = (r, s')"
  shows "(\<forall>i. r = Inr i \<longrightarrow> i = peek_next_waiter_id s \<and>
       (is_queued i s' \<longrightarrow> ad_queued s' \<le> as_max_queue settings \<and> ad_queued_bytes s' \<le> as_max_queue_bytes settings
          \<and> (\<forall>m. tq_max_queue (quota_for (adm_new settings) (tk_tenant t)) = Some m \<longrightarrow>
               (\<exists>e. bt_get (ad_tenants s') (tk_tenant t) = Some e \<and> length (te_queue e) \<le> m))))
    \<and> (\<forall>rej. r = Inl rej \<longrightarrow> \<not> is_queued (peek_next_waiter_id s) s')"
proof (cases "check_static t now s")
  case (Pair res s1)
  have v: "view s1 = view s" using view_check_static [of t now s] Pair by simp
  have next1: "ad_next_id s1 = ad_next_id s" using view_eqD(7) [OF v] .
  have inv: "adm_inv mx s" using adm_reach_inv [OF assms(2)] .
  have reach: "adm_reach h mx settings s'"
    using reach_step [OF assms(2) step_enqueue [OF assms(3), where s = s and h = h and retry = False and now = now]] assms(4) by simp
  note config = adm_reach_config [OF reach assms(1)]
  have fresh: "bt_get (ad_waiters s) (ad_next_id s + 1) = None"
    using inv by (cases "bt_get (ad_waiters s) (ad_next_id s + 1)") (auto simp: adm_inv_def queue_inv_def)
  let ?i = "ad_next_id s + 1" and ?s2 = "pump h now (add_waiter h t False now s1)"
  show ?thesis
  proof (cases res)
    case (Inl rej)
    have "tix s' = tix s"
      using assms(4) quiet_check_static [of s t now]
      by (auto simp: enqueue_def Pair Inl quiet_def tix_def light_defs fun_eq_iff)
    then have "tix s' ?i = tix s ?i" by simp
    then have "bt_get (ad_waiters s') ?i = None" using fresh by (simp add: tix_def)
    then show ?thesis
      using assms(4) by (auto simp: enqueue_def Pair Inl is_queued_def peek_next_waiter_id_def)
  next
    case (Inr u)
    then have en: "enqueue h t False now s =
      (if \<not> is_queued ?i ?s2 then (Inr ?i, ?s2)
       else case queue_limit t ?s2 of
              Some rejection \<Rightarrow> (Inl rejection, reject_count (rj_reason rejection) (snd (remove_waiter ?i ?s2)))
            | None \<Rightarrow> (Inr ?i, ?s2))"
      unfolding enqueue_def Pair prod.case sum.case Let_def add_waiter_tix(4) next1 by simp
    show ?thesis
    proof (cases "is_queued ?i ?s2 \<and> queue_limit t ?s2 = None")
      case False
      then show ?thesis using en assms(4)
        by (auto simp: is_queued_def peek_next_waiter_id_def light_defs split: option.splits if_splits)
    next
      case True
      then have out: "r = Inr ?i" "s' = ?s2" using en assms(4) by auto
      obtain w where w: "bt_get (ad_waiters s') ?i = Some w" using True out by (auto simp: is_queued_def)
      have "tix s' ?i = Some (wt_ticket w)" using w by (simp add: tix_def)
      then have "tix (add_waiter h t False now s1) ?i = Some (wt_ticket w)"
        using delivers_tix [OF pump_delivers(1) [OF assms(1)]] out(2) by blast
      then have "wt_ticket w = t" by (simp add: add_waiter_tix(1) next1)
      then have "?i \<in> set (tn_queue s' (tk_tenant t))"
        using adm_reach_inv [OF reach] w by (auto simp: adm_inv_def queue_inv_def wt_of_def)
      then obtain e where e: "bt_get (ad_tenants s') (tk_tenant t) = Some e"
        by (cases "bt_get (ad_tenants s') (tk_tenant t)") (auto simp: tn_queue_def)
      have "te_quota e = quota_for (adm_new settings) (tk_tenant t)"
        using adm_reach_inv [OF reach] e config by (simp add: adm_inv_def cap_inv_def)
      then show ?thesis
        using True out e config
        by (auto simp: queue_limit_def Let_def peek_next_waiter_id_def split: if_splits)
    qed
  qed
qed

theorem enqueue_limits_witness:
  "bt_get (ad_waiters sample_run) 1 = None \<or> ad_queued sample_run \<le> 8"
proof -
  obtain r s' where e: "enqueue sample_host sample_ticket False 5 (adm_new sample_settings) = (r, s')"
    by fastforce
  have "ticket_ok sample_mx sample_ticket" by (simp add: ticket_ok_def sample_ticket_def sample_mx_def)
  from enqueue_limits [OF sample_host_visits reach_new this e] show ?thesis
    using e by (cases r)
      (auto simp: sample_run_def sample_settings_def peek_next_waiter_id_def is_queued_def adm_new_def Let_def)
qed

section \<open>Starts\<close>

text \<open>The number of cold starts a bucket lets through at the given times.\<close>

fun tb_takes :: "fpu \<Rightarrow> TokenBucket \<Rightarrow> Timestamp list \<Rightarrow> nat" where
  "tb_takes fp b [] = 0"
| "tb_takes fp b (t # ts) =
     (case tb_take fp b t of (ok, b') \<Rightarrow> of_bool ok + tb_takes fp b' ts)"

lemma secs_between_exact:
  assumes "t0 \<le> t"
  shows "0 \<le> secs_between exact_fpu t0 t" "secs_between exact_fpu t0 t \<le> of_int (t - t0) / 10 ^ 9"
proof -
  show "0 \<le> secs_between exact_fpu t0 t" by (simp add: secs_between_def Let_def)
  define us where "us = (case num_microseconds (t - t0) of Some n \<Rightarrow> n | None \<Rightarrow> i64_max)"
  have "us * 1000 \<le> t - t0"
    using assms by (auto simp: us_def num_microseconds_def Let_def i64_max_def)
  then have "of_int (us * 1000) \<le> (of_int (t - t0) :: real)" by (rule of_int_le_iff [THEN iffD2])
  then have "of_int us / 1000000 \<le> (of_int (t - t0) / 10 ^ 9 :: real)" by simp
  moreover have "0 \<le> (of_int (t - t0) / 10 ^ 9 :: real)" using assms by simp
  ultimately show "secs_between exact_fpu t0 t \<le> of_int (t - t0) / 10 ^ 9"
    by (simp add: secs_between_def Let_def us_def [symmetric] exact_fpu_def)
qed

lemma tb_take_exact:
  assumes "tb_take exact_fpu b t = (ok, b')" "tb_at b = Some t0" "t0 \<le> t" "0 \<le> tb_tokens b"
    "0 \<le> tb_per_second b" "1 \<le> tb_burst b"
  shows "tb_per_second b' = tb_per_second b" "tb_burst b' = tb_burst b" "tb_at b' = Some t" "0 \<le> tb_tokens b'"
    "tb_tokens b' + of_bool ok \<le> tb_tokens b + secs_between exact_fpu t0 t * tb_per_second b"
proof -
  have "0 \<le> secs_between exact_fpu t0 t * tb_per_second b"
    using secs_between_exact(1) [OF assms(3)] assms(5) by simp
  then show "tb_per_second b' = tb_per_second b" "tb_burst b' = tb_burst b" "tb_at b' = Some t"
    "0 \<le> tb_tokens b'"
    "tb_tokens b' + of_bool ok \<le> tb_tokens b + secs_between exact_fpu t0 t * tb_per_second b"
    using assms by (auto simp: tb_take_def tb_refill_def Let_def exact_fpu_def split: if_splits)
qed

lemma tb_takes_bound:
  assumes "sorted (t0 # ts)" "tb_at b = Some t0" "0 \<le> tb_tokens b" "0 \<le> tb_per_second b" "1 \<le> tb_burst b"
  shows "real (tb_takes exact_fpu b ts) \<le> tb_tokens b + tb_per_second b * (of_int (last (t0 # ts) - t0) / 10 ^ 9)"
  using assms
proof (induction ts arbitrary: t0 b)
  case (Cons t ts)
  obtain ok b' where tk: "tb_take exact_fpu b t = (ok, b')" by fastforce
  have le: "t0 \<le> t" using Cons.prems(1) by simp
  note b' = tb_take_exact [OF tk Cons.prems(2) le Cons.prems(3-5)]
  let ?r = "tb_per_second b" and ?stop = "last (t # ts)"
  have "real (tb_takes exact_fpu b' ts) \<le> tb_tokens b' + ?r * (of_int (?stop - t) / 10 ^ 9)"
    using Cons.IH [of t b'] Cons.prems(1,4,5) b' by simp
  moreover have "secs_between exact_fpu t0 t * ?r \<le> ?r * (of_int (t - t0) / 10 ^ 9)"
    using mult_left_mono [OF secs_between_exact(2) [OF le] Cons.prems(4)] by (simp add: mult.commute)
  moreover have "?r * (of_int (t - t0) / 10 ^ 9) + ?r * (of_int (?stop - t) / 10 ^ 9)
      = ?r * (of_int (?stop - t0) / 10 ^ 9)"
    by (simp add: field_simps)
  moreover have "real (tb_takes exact_fpu b (t # ts)) = of_bool ok + real (tb_takes exact_fpu b' ts)"
    by (simp add: tk)
  ultimately show ?case using b'(5) by simp
qed simp

text \<open>The start rate holds: whatever the times of the attempts, a fresh bucket lets through at
  most \<open>burst\<close> starts plus \<open>per_second\<close> for every second between the first and the last attempt
  (over exact arithmetic; on the machine each operation rounds once).\<close>

theorem start_rate_bound:
  assumes "sorted (t # ts)"
  shows "real (tb_takes exact_fpu (tb_new per_second burst) (t # ts))
    \<le> real (max burst 1) + real (max per_second 1) * (of_int (last (t # ts) - t) / 10 ^ 9)"
proof -
  define b where "b = \<lparr> tb_per_second = real (max per_second 1), tb_burst = real (max burst 1),
    tb_tokens = real (max burst 1) - 1, tb_at = Some t \<rparr>"
  have tk: "tb_take exact_fpu (tb_new per_second burst) t = (True, b)"
    by (simp add: tb_take_def tb_refill_def tb_new_def Let_def exact_fpu_def b_def)
  have b: "tb_at b = Some t" "tb_tokens b = real (max burst 1) - 1" "tb_per_second b = real (max per_second 1)"
    "tb_burst b = real (max burst 1)"
    by (simp_all add: b_def)
  have "real (tb_takes exact_fpu b ts) \<le> tb_tokens b + tb_per_second b * (of_int (last (t # ts) - t) / 10 ^ 9)"
    by (rule tb_takes_bound [OF assms b(1)]) (simp_all add: b)
  then show ?thesis by (simp add: tk b)
qed

theorem start_rate_bound_witness:
  "real (tb_takes exact_fpu (tb_new 5 3) [0, 0, 100000000, 200000000, 200000000]) \<le> 4"
  using start_rate_bound [of 0 "[0, 100000000, 200000000, 200000000]" 5 3] by simp

text \<open>The breaker over a sequence of start results, and the failures since the last success.\<close>

definition cb_run :: "CircuitBreaker \<Rightarrow> (Timestamp \<times> bool) list \<Rightarrow> CircuitBreaker" where
  "cb_run b evs = fold (\<lambda>(t, ok) b. if ok then cb_record_success b else snd (cb_record_failure b t)) evs b"

definition trailing :: "bool list \<Rightarrow> nat" where
  "trailing oks = length (takeWhile Not (rev oks))"

lemma cb_run_closed:
  assumes "\<forall>n\<le>length evs. trailing (map snd (take n evs)) < cb_threshold b" "cb_state b = BS_Closed 0"
  shows "cb_run b evs = b\<lparr>cb_state := BS_Closed (trailing (map snd evs))\<rparr>"
  using assms(1)
proof (induction evs rule: rev_induct)
  case Nil
  then show ?case using assms(2) by (simp add: cb_run_def trailing_def)
next
  case (snoc ev evs)
  obtain t ok where ev: "ev = (t, ok)" by fastforce
  have "\<forall>n\<le>length evs. trailing (map snd (take n evs)) < cb_threshold b"
    using snoc.prems by (metis le_SucI length_append_singleton take_append diff_is_0_eq take_0 append_Nil2)
  then have run: "cb_run b evs = b\<lparr>cb_state := BS_Closed (trailing (map snd evs))\<rparr>" by (rule snoc.IH)
  have "trailing (map snd (evs @ [ev])) < cb_threshold b"
    using snoc.prems [rule_format, of "length (evs @ [ev])"] by simp
  then show ?case
    using run by (simp add: ev cb_run_def trailing_def cb_record_success_def cb_record_failure_def cb_tick_def Let_def
        split: if_splits)
qed

text \<open>The circuit breaker counts consecutive failures only and opens exactly at the threshold.
  While fewer than that many failures follow one another every start is allowed.  The failure that
  reaches the threshold opens it: every start before the cooldown ends is rejected, the first one
  after it is a probe, and nothing else starts while that probe is in flight.\<close>

theorem breaker_trips:
  assumes "\<forall>n\<le>length evs. trailing (map snd (take n evs)) < max threshold 1"
  shows "fst (cb_gate (cb_run (cb_new threshold cooldown) evs) now) = BG_Allow
    \<and> (trailing (map snd evs) + 1 = max threshold 1 \<longrightarrow>
        (\<exists>b. cb_record_failure (cb_run (cb_new threshold cooldown) evs) now = (True, b)
          \<and> (\<forall>u < now + clamped_seconds cooldown. fst (cb_gate b u) = BG_Reject)
          \<and> (\<forall>u \<ge> now + clamped_seconds cooldown. fst (cb_gate b u) = BG_Probe
               \<and> (\<forall>u'. fst (cb_gate (cb_probe_started (snd (cb_gate b u))) u') = BG_Wait))))"
proof -
  let ?b = "cb_new threshold cooldown"
  have run: "cb_run ?b evs = ?b\<lparr>cb_state := BS_Closed (trailing (map snd evs))\<rparr>"
    using assms by (intro cb_run_closed) (simp_all add: cb_new_def)
  have new: "cb_threshold ?b = max threshold 1" "cb_cooldown ?b = clamped_seconds cooldown"
    by (simp_all add: cb_new_def)
  show ?thesis
    unfolding run
    by (auto simp: cb_gate_def cb_tick_def cb_record_failure_def new Let_def cb_probe_started_def)
qed

theorem breaker_trips_witness:
  "\<exists>b. cb_record_failure (cb_run (cb_new 3 10) [(1, False), (2, True), (3, False), (4, False)]) 5 = (True, b)
     \<and> fst (cb_gate b 6) = BG_Reject"
proof -
  have p: "\<forall>n\<le>length [(1 :: Timestamp, False), (2, True), (3, False), (4, False)].
      trailing (map snd (take n [(1 :: Timestamp, False), (2, True), (3, False), (4, False)])) < max 3 1"
    by (auto simp: trailing_def le_Suc_eq)
  have "clamped_seconds 10 = 10000000000" 
    by (simp add: clamped_seconds_def duration_seconds_def i64_max_def)
  then show ?thesis using breaker_trips [OF p, of 10 5] by (auto simp: trailing_def)
qed

section \<open>Scaling down\<close>

text \<open>Scaling down ends only surplus environments.  It moves one idle environment to
  \<open>Draining\<close>, only while nobody waits for the revision and more environments are idle than are
  promised; without a drain, only after the idle time-to-live and the cooldown, and never below
  the \<open>min_ready\<close> of a routed revision.  A refusal changes nothing.\<close>

theorem scale_down_only_surplus:
  assumes "adm_reach h mx settings s" "try_scale_down h i how now s = (r, s')"
  shows "(\<forall>why. r = Inl why \<longrightarrow> s' = s)
    \<and> (r = Inr () \<longrightarrow> (\<exists>q e. bt_get (ad_reservations s) i = Some q \<and> rsv_state q = RS_Idle
         \<and> bt_get (ad_reservations s') i = Some (q\<lparr>rsv_state := RS_Draining\<rparr>)
         \<and> bt_get (ad_revisions s) (rsv_revision q) = Some e \<and> re_queued e = 0
         \<and> rsv_count (\<lambda>x. rsv_revision x = rsv_revision q \<and> rsv_state x = RS_Promised) s
             < rsv_count (\<lambda>x. rsv_revision x = rsv_revision q \<and> rsv_state x = RS_Idle) s
         \<and> (\<forall>since. how = SD_Idle since \<longrightarrow> bt_contains_key (ad_drains s) (rsv_revision q)
              \<or> (clamped_seconds (re_idle_ttl_seconds e) \<le> now - since
                 \<and> (\<forall>t. re_last_scale_up e = Some t \<longrightarrow> clamped_seconds (re_cooldown_seconds e) \<le> now - t)
                 \<and> (is_routed (rsv_revision q) s \<longrightarrow> re_min_ready e < provisioned (rsv_revision q) s)))))"
proof -
  have c: "count_inv s" using adm_reach_inv [OF assms(1)] by (simp add: adm_inv_def)
  have cnt: "rsv_count (\<lambda>x. rsv_revision x = rv \<and> rsv_state x = st) s = re_counts e st"
    if "bt_get (ad_revisions s) rv = Some e" for rv st e
  proof -
    have "rv_counts s rv st = rsv_count (\<lambda>x. rsv_revision x = rv \<and> rsv_state x = st) s"
      using c by (simp add: count_inv_def)
    then show ?thesis using that by (simp add: rv_counts_def)
  qed
  show ?thesis
    using assms(2)
    by (auto simp: try_scale_down_def scale_down_verdict_def Let_def cnt set_state_def is_routed_def provisioned_def
        not_less not_le split: option.splits if_splits ScaleDown.splits)
qed

text \<open>With nobody waiting the scheduler changes nothing.\<close>

lemma pump_no_waiters:
  assumes "visits_all h" "adm_inv mx s" "ad_waiters s = bt_empty"
  shows "pump h now s = s"
proof -
  have "waiter_order h [] = []" using assms(1) by (simp add: visits_all_def) (metis set_empty)
  then have e: "expire h now s = s"
    using assms(3) by (simp add: expire_def expired_waiters_def bt_keys_def bt_empty.rep_eq)
  have "te_queue e = []" if "(t, e) \<in> set (bt_entries (ad_tenants s))" for t e
  proof -
    have "te_queue e = tn_queue s t" using that by (simp add: tn_queue_def flip: bt_get_entries)
    moreover have "set (tn_queue s t) = {}" using assms(2,3) by (simp add: adm_inv_def queue_inv_def wt_of_def)
    ultimately show ?thesis by simp
  qed
  then have "filter (\<lambda>(_, e). te_queue e \<noteq> []) (bt_entries (ad_tenants s)) = []"
    by (auto simp: filter_empty_conv)
  then have "fair_order s = []" by (simp add: fair_order_def)
  then show ?thesis using e by (subst pump.simps) (simp add: pump_decision_def Let_def)
qed

text \<open>A run to an idle environment: routed, started ahead of demand, and parked.\<close>

definition sample_routed :: AdmissionState where
  "sample_routed = set_routed (bt_insert (Ident ''r'') () bt_empty) (adm_new sample_settings)"

definition sample_ahead :: Ticket where
  "sample_ahead = sample_ticket\<lparr>tk_min_ready := 1\<rparr>"

definition sample_started :: AdmissionState where
  "sample_started = snd (try_prestart sample_host sample_ahead 5 sample_routed)"

lemma sample_prestart:
  "bt_get (ad_reservations sample_started) 1 = Some \<lparr> rsv_tenant = Ident ''t'', rsv_revision = Ident ''r'',
     rsv_resources = tk_resources sample_ticket, rsv_state = RS_Starting, rsv_probe = False \<rparr>
   \<and> ad_waiters sample_started = bt_empty
   \<and> (\<exists>e. bt_get (ad_revisions sample_started) (Ident ''r'') = Some e \<and> re_queued e = 0
        \<and> re_counts e = Counts_default(RS_Starting := 1))"
proof -
  have c: "check_static sample_ahead 5 sample_routed = (Inr (), sample_routed)"
    by (simp add: check_static_def placement_mismatch_def quota_for_def adm_new_def Let_def sample_settings_def
        sample_ticket_def sample_ahead_def sample_routed_def set_routed_def NodeConfig_default_def quota_of_def
        admits_def)
  show ?thesis
    unfolding sample_started_def try_prestart_def c prod.case sum.case
    by (simp add: Let_def is_routed_def sample_routed_def set_routed_def
        adm_new_def sample_settings_def sample_ticket_def sample_ahead_def NodeConfig_default_def
        quota_for_def quota_of_def tb_available_def tb_refill_def tb_new_def revision_entry_def
        new_revision_entry_def refreshed_entry_def cb_new_def cb_gate_def cb_tick_def c_provisioned_def
        c_in_flight_def Counts_default_def admits_def res_plus_def Resources_ZERO_def sat_add64_def u64_max_def
        insert_reservation_def next_id_def account_def upd_revision_def c_inc_def)
qed

definition sample_idle :: AdmissionState where
  "sample_idle = parked sample_host 1 6 sample_started"

lemma sample_started_reach: "adm_reach sample_host sample_mx sample_settings sample_started"
proof -
  have "adm_reach sample_host sample_mx sample_settings sample_routed"
    unfolding sample_routed_def by (rule reach_step [OF reach_new step_set_routed])
  then show ?thesis
    unfolding sample_started_def
    by (rule reach_step [OF _ step_prestart]) (simp add: ticket_ok_def sample_ahead_def sample_ticket_def sample_mx_def)
qed

lemma sample_idle_reach: "adm_reach sample_host sample_mx sample_settings sample_idle"
  unfolding sample_idle_def
  by (rule reach_step [OF sample_started_reach step_parked]) (use sample_prestart in simp)

lemma sample_scaled_down: "fst (try_scale_down sample_host 1 (SD_Drain ''drain'') 7 sample_idle) = Inr ()"
proof -
  define s where "s = snd (set_state 1 RS_Idle sample_started)"
  define r where "r = \<lparr> rsv_tenant = (Ident ''t'' :: TenantId), rsv_revision = (Ident ''r'' :: RevisionId),
    rsv_resources = tk_resources sample_ticket, rsv_state = RS_Starting, rsv_probe = False \<rparr>"
  have started: "bt_get (ad_reservations sample_started) 1 = Some r"
    using sample_prestart unfolding r_def by blast
  obtain e where e: "bt_get (ad_revisions sample_started) (Ident ''r'') = Some e" "re_queued e = 0"
    "re_counts e = Counts_default(RS_Starting := 1)"
    using sample_prestart by blast
  have inv: "adm_inv sample_mx s"
    unfolding s_def
    by (rule adm_inv_set_state [OF adm_reach_inv [OF sample_started_reach]])
       (use started in \<open>auto simp: holds_resources_def rs_in_flight_def r_def\<close>)
  have "ad_waiters s = bt_empty" using sample_prestart by (simp add: s_def set_state_def Let_def split: option.split)
  then have idle: "sample_idle = s"
    unfolding sample_idle_def parked_def s_def [symmetric] by (rule pump_no_waiters [OF sample_host_visits inv])
  have s: "s = (account (r\<lparr>rsv_state := RS_Idle\<rparr>) True (account r False sample_started))
      \<lparr>ad_reservations := bt_insert 1 (r\<lparr>rsv_state := RS_Idle\<rparr>) (ad_reservations sample_started)\<rparr>"
    unfolding s_def set_state_def started option.case Let_def by (simp add: r_def)
  have "rv_queued sample_started (Ident ''r'') = 0"
    "rv_counts sample_started (Ident ''r'') = Counts_default(RS_Starting := 1)"
    using e by (simp_all add: rv_queued_def rv_counts_def)
  then have "rv_queued s (Ident ''r'') = 0" "rv_counts s (Ident ''r'') RS_Idle = 1"
    "rv_counts s (Ident ''r'') RS_Promised = 0" "bt_get (ad_revisions s) (Ident ''r'') \<noteq> None"
    using e(1) by (simp_all add: s account_totals r_def c_inc_def c_dec_def Counts_default_def)
  then show ?thesis
    unfolding idle
    by (auto simp: try_scale_down_def scale_down_verdict_def Let_def rv_queued_def rv_counts_def
        s [THEN arg_cong, of ad_reservations] r_def split: option.splits)
qed

theorem scale_down_only_surplus_witness:
  "\<exists>q. bt_get (ad_reservations sample_idle) 1 = Some q \<and> rsv_state q = RS_Idle
     \<and> bt_get (ad_reservations (snd (try_scale_down sample_host 1 (SD_Drain ''drain'') 7 sample_idle))) 1
       = Some (q\<lparr>rsv_state := RS_Draining\<rparr>)"
proof -
  obtain r s' where t: "try_scale_down sample_host 1 (SD_Drain ''drain'') 7 sample_idle = (r, s')" by fastforce
  then have "r = Inr ()" using sample_scaled_down by simp
  then show ?thesis using scale_down_only_surplus [OF sample_idle_reach t] t by auto
qed

text \<open>The tenant's cap is cast to \<open>u32\<close> when the target is computed: a cap of \<open>2 ^ 32\<close>, which the
  configuration accepts, becomes 0, and no environment is ever started for the tenant.\<close>

lemma tenant_cap_wraps: "desired_for h e (Some (2 ^ 32)) now s = 0"
  using desired_bounds(2) by (simp add: desired_for_def) (metis DemandInput.select_convs(7) le_zero_eq)

end
