(* ===== verification/Spec2Isabelle.thy ===== *)
theory Spec2Isabelle
  imports Async_Properties Platform_Properties Budget_Properties Usage_Properties Egress Revisions Store_Properties Ledger_Properties Domain_Properties Admission_Properties
begin

text \<open>
  \<^bold>\<open>Tachyon Serverless: the ledger, the admission controller, asynchronous invocation, metering and budgets.\<close>

  The program runs functions in short-lived execution environments (microVMs or processes).  A
  gateway accepts an invocation, the admission controller decides when it may start and whether
  it gets a warm or a cold environment, a dispatcher acquires the environment's slot in the
  ledger with a lease, runs one attempt and completes the lease; a reclaimer settles what a lost
  dispatcher left behind.  Control operations publish functions, revisions and aliases, and the
  data planes follow the published configuration by generation.  What runs is metered: the driver
  appends usage events to a bounded journal, a collector delivers them to a ledger, the ledger is
  rated with a price table, and budgets reserve the maximum charge of a run before it starts and
  settle it afterwards.  The development models the
  Rust sources under \<open>src/crates/\<close>; paths below are relative to it.

  \<^bold>\<open>Theories, bottom up.\<close>

  \<^item> \<open>Prelude\<close>: machine integers (\<open>u64\<close> and so on are words, \<open>+\<close> wraps), instants as nanoseconds
    in \<open>int\<close>, \<open>Result\<close> as a sum with \<open>and_then\<close> for the \<open>?\<close> operator, decimal rendering, ASCII
    classes.  \<open>BTree_Map\<close>: \<open>BTreeMap\<close> as sorted association lists (also used for \<open>HashMap\<close>, whose
    iteration order is then a parameter where it can be observed).  \<open>BTree_Sum\<close>: totals over the
    rows of a map.
  \<^item> \<open>Ids\<close> (\<open>domain/src/error.rs\<close>, \<open>ids.rs\<close>), \<open>Functions\<close> (\<open>function.rs\<close>, \<open>alias.rs\<close>, \<open>limits.rs\<close>,
    \<open>log.rs\<close>), \<open>Environments\<close> (\<open>environment.rs\<close>: environments and leases), \<open>Invocations\<close>
    (\<open>invocation.rs\<close>: invocations and attempts), \<open>Egress\<close> (\<open>egress.rs\<close>), \<open>Revisions\<close> (\<open>revision.rs\<close>
    and the restore settings of \<open>snapshot.rs\<close>): the domain types with every operation, its error
    branches and messages, and a well-formedness invariant every operation keeps.
  \<^item> \<open>Guard\<close> (\<open>application/src/repository/guard.rs\<close>): the row invariants of the stores.  The locale
    \<open>guarded_row\<close> states the contract of a guarded update once (identity fixed, a final row fixed)
    and is interpreted for the six tables.
  \<^item> \<open>Slot\<close> (\<open>repository/slot.rs\<close>, \<open>restart.rs\<close>): dispatchers, acquire and completion requests,
    reclaim, and the settlement of rows whose owner is gone.  \<open>Config_Stamp\<close> (\<open>repository/config.rs\<close>):
    generation stamps of the published configuration.
  \<^item> \<open>Memory_Store\<close> (\<open>repository/memory.rs\<close>, \<open>objects.rs\<close>): the volatile store, one \<open>State\<close> record and
    one definition per repository operation, each a function from the state to an answer and the
    new state: the source holds one lock over each operation, so an operation is one atomic step
    and a history of concurrent callers is a list of steps.
  \<^item> \<open>Store_Order\<close>, \<open>Store_Invariant\<close>, \<open>Store_Refinement\<close>: the order in which the rows evolve, the
    invariant of the store, and the proof that every operation keeps both; an operation as data
    (\<open>store_op\<close>) and histories (\<open>run\<close>).  \<open>Slot_Port\<close>: the interface of a slot store as locales
    (\<open>history\<close>, and \<open>slot_port\<close> on top of it), with mutual exclusion and at-most-once completion
    proved once inside; \<open>Store_Properties\<close> interprets it on the model of the volatile store.
  \<^item> \<open>Samples\<close>: the concrete rows and the concrete history of the witnesses.
  \<^item> \<open>Store_Properties\<close>, \<open>Ledger_Properties\<close>, \<open>Domain_Properties\<close>: the properties of the ledger,
    of its tables and of the domain types.
  \<^item> \<open>Scaler\<close> (\<open>services/admission/resources.rs\<close>, \<open>scaler.rs\<close>): resource vectors with saturating
    arithmetic, the start-rate token bucket, the circuit breaker, the demand estimate.
    \<open>Admission\<close> (\<open>services/admission/state.rs\<close>, the records of its \<open>config.rs\<close>): the admission state
    machine with every operation that admits, grants, reserves, drains or scales.
  \<^item> \<open>Admission_Ledger\<close>: its ledger invariant (running totals equal a recount, every cap respected,
    reserved resources exact and within the node).  \<open>Admission_Steps\<close>: every operation keeps it,
    the step relation \<open>adm_step\<close> and the reachable states \<open>adm_reach\<close>.  \<open>Admission_Outcomes\<close>: the
    scheduler as a delivery of outcomes.  \<open>Admission_Properties\<close>: the properties.
  \<^item> \<open>Machine_Ints\<close>: saturating and wrapping sums.  \<open>Usage\<close> (\<open>domain/src/usage.rs\<close>): usage events and
    measured quantities.  \<open>Rating\<close> (\<open>application/src/usage/rating.rs\<close>): price tables, accumulation,
    charges, report lines; \<open>Rating_Laws\<close>: accumulation commutes and ignores the guest;
    \<open>Rating_Properties\<close>: the properties.
  \<^item> \<open>Budget_Charge\<close> (\<open>budget/charge.rs\<close>): the maximum charge of a run.  \<open>Budget_Config\<close>
    (\<open>budget/config.rs\<close>).  \<open>Sql_Env\<close>: what a call into an embedded database can meet.  \<open>Budget_Store\<close>
    (\<open>budget/store.rs\<close>): reservations, totals, alerts, every operation as a transaction.
    \<open>Budget_Books\<close>: operations as data, the locale \<open>budget_invariant\<close> of what one transaction keeps and
    every history therefore keeps, interpreted for the exactness of the totals; \<open>Budget_Limits\<close>
    interprets it for the hard limit, for closed reservations and for measured runs.
    \<open>Budget_Properties\<close>: the properties.
  \<^item> \<open>Usage_Journal\<close> and \<open>Usage_Ledger\<close> (\<open>usage/journal.rs\<close>, \<open>ledger.rs\<close>): the two stores.  \<open>App_Errors\<close>
    (\<open>error.rs\<close>, \<open>authz.rs\<close> and the types they name): the error of every service, its code, status and
    body, and the role checks.  \<open>Usage_Collector\<close> (\<open>usage/config.rs\<close>, \<open>mod.rs\<close>): metering admission, the
    collector, status and reports.  \<open>Usage_Pipeline\<close>: appenders and collectors as an interleaving step
    relation \<open>pipe_step\<close> with crashes, and its invariant; \<open>Usage_Drain\<close>: a pass without faults drains
    the journal, and what the ledger then answers.  \<open>Usage_Properties\<close>: the properties.

  \<^item> \<open>Snapshots\<close> (the manifest, compatibility and signature parts of \<open>domain/src/snapshot.rs\<close>) and \<open>Cron\<close>
    (\<open>services/triggers/cron.rs\<close>): snapshot manifests, and cron expressions with the search for scheduled
    times.  \<open>Cron_Text\<close>: the values a field and an expression name, written from the grammar of the
    module's documentation, and that the parser's bits are those values.  \<open>Platform_Properties\<close>: the properties.
  \<^item> \<open>Async_Types\<close> (\<open>repository/outbox.rs\<close>, \<open>repository/dispatch.rs\<close>), \<open>Async_Store\<close>
    (\<open>repository/sqlite/outbox.rs\<close> with the statements of \<open>sqlite/mod.rs\<close> and \<open>sqlite/objects.rs\<close> it calls) and
    \<open>Async_Claims\<close> (\<open>sqlite/dispatch.rs\<close>): the durable ledger of asynchronous invocation, a record of tables
    and one transaction per method.  \<open>Async_Retry\<close> (\<open>services/invoke_async/retry.rs\<close>): policies, backoff,
    classification, retry budget.  \<open>Async_History\<close>: transactions as data (those of the dispatcher and the
    publisher, inserts and updates of an invocation, the purges of keys and of inline outputs, and any that
    leave the modelled tables alone), what each can do to a row, and the locale \<open>async_order\<close> (an order every transaction respects is respected by every history), interpreted
    for invocations, dead letters and claims.  \<open>Async_Dispatch\<close>
    (\<open>services/invoke_async/dispatch.rs\<close>): handling one delivery and one pass of the reaper, as actions over the
    ledger with the transactions of other processes before each of its own; the field \<open>dw_claim\<close> of its world
    is a trace of the claim the delivery holds, read by no definition of the model.  \<open>Async_Delivery\<close>: pre-
    and postconditions of every branch of the handler.  \<open>Async_Properties\<close>: the properties.

  \<^bold>\<open>What is shown.\<close>  Of the ledger, under arbitrary histories of operations: an environment never
  has two unreleased leases, an acquire excludes every other one, a lease completes once, final
  rows stay, the fields the guards hold fixed stay (not the revision of an unfinished invocation), fenced environments and dead dispatchers never come back, reclaim
  is complete and touches nothing that is alive, late completions are stale, renewals protect,
  idempotency keys admit once, aliases point at revisions of their own function, names are
  unique, collected objects are unused, the pool hands out once and within its caps.  Of the
  admission machine, on every reachable state: node, tenant and revision caps, exact books, no
  oversubscribed node; the scheduler terminates (its recursion is on the number of waiters) and
  answers every waiter it removes exactly once; no call loses a waiter; a deleted function has no
  waiters; queue limits; the start rate; the circuit breaker; scaling down only surplus.  Of the
  domain: life cycles, egress safety, exactness of the network overlap, round trips of texts and
  identifiers, validated specs, and that a delta of the configuration equals the whole.  Of
  metering, under every interleaving and crash: an event the journal took is counted exactly once,
  the journal keeps its bounds and counts every refusal, a pass of the collector drains it and ends,
  a report is the rating of the appended events, ratings do not depend on order or on what the guest
  says, the chain shows tampering, and a refusal keeps its code.  Of budgets, over every history of
  transactions and database errors: the totals equal the sums of the reservations, the hard limit
  holds up to the overruns and exactly when runs reserve their maximum charge, which covers what
  they are rated at; a reservation closes once, an alert fires once, and an unmeasured run gives
  nothing back.  Of snapshots and schedules: a snapshot is compatible exactly when everything the
  manifest names fits, a sealed manifest verifies as what was sealed; reading a cron expression ends, and a
  parsed one holds the values it names; the search for the next scheduled time ends with the first match, and a window of scheduled instants misses none.  Of asynchronous
  invocation, under every history of transactions of any number of processes: a run that records its
  result was the only one, a final result stays and is never replaced (but for an inline output past its
  retention, of which the digest is kept), a dead letter is redriven once, and a message is acknowledged only
  when the ledger says what happens next or the claim of this delivery was taken over.

  \<^bold>\<open>Bounds and parameters.\<close>  Every loop of the sources is a structural recursion,
  a fold, or (\<open>pump\<close>, \<open>collect_loop\<close>, \<open>split_ws\<close>) a function with a termination proof, with two exceptions:
  \<open>next_local_loop\<close> of \<open>Cron\<close> is a partial function, proved to return for every sane calendar, and
  \<open>bits_loop\<close> has one turn of fuel per value of the field and one to leave: out of fuel is \<open>None\<close>, of the
  field and of the whole expression, and \<open>bits_loop_ends\<close> shows that the fuel is enough for every step the
  parser lets through.  Counters of the admission machine are
  natural numbers, with the saturating and truncating operations of the source written out at
  their width.  Doubles are reals, rounded after each operation by the parameter \<open>fpu\<close>; the
  start-rate theorem is over exact arithmetic.  The iteration order of a \<open>HashMap\<close> is a parameter
  of \<open>host\<close>, assumed (\<open>visits_all\<close>) to visit every key once.  The clock is the argument \<open>now\<close>.  The
  steps of the admission machine carry the discipline of its callers as guards: tickets carry the
  cap of their revision, promises are not parked or drained, and adopting an environment gives up
  a grant of the same tenant and revision.  JSON texts, digests, instants as text and the days of
  the calendar are the parameters \<open>UsageCodec\<close>, \<open>Codec\<close> and \<open>day_of\<close>; the theorems that need it assume
  that an event's JSON parses back to it (\<open>codec_ok\<close>).  The calendar and the zones of schedules are the
  parameters \<open>Calendar\<close> (assumed \<open>calendar_sane\<close>) and \<open>Zone\<close>, the codec of manifests is \<open>SnapCodec\<close>.  A call into an embedded database meets an
  arbitrary \<open>SqlEnv\<close>: a busy connection, an error of opening or of a statement (the transaction then
  leaves no trace).  The base64 and SHA-256 of a purged output are fields of \<open>async_port\<close>.  The dispatcher's clock, queue, object store, run, identifiers, jitter, JSON and
  configuration cache, and the transactions of other processes before each of its own (\<open>dp_other\<close>), are
  fields of \<open>AsyncDispatcher\<close>, unrestricted in the theorems.  Attempt counts saturate at the width of
  \<open>u32\<close>; the exclusion of runs is stated below that bound.

  \<^bold>\<open>Not modelled.\<close>  The asynchronous services around the two machines (\<open>invoke.rs\<close>, \<open>pool.rs\<close>,
  \<open>scaling.rs\<close>, \<open>reconcile.rs\<close>, the controller in \<open>admission/mod.rs\<close>), the SQL stores but
  for asynchronous invocation (their statements run in an external engine), the firing of triggers, the budget service (its timers and the delivery of budgets), price table files,
  the acceptance front end, publisher and consumer loops of asynchronous invocation, log files, snapshot files, configuration transport, the guest protocol, the providers, the gateway, the
  command line and the SDK; of the modelled files, reporting (\<open>snapshot\<close> and \<open>metrics\<close> of the
  admission state) and the log repository.
\<close>

end
